(* ===== verification/Prelude.thy ===== *)
theory Prelude
  imports Complex_Main "HOL-Library.AList" "HOL-Library.Char_ord"
    "HOL-Library.List_Lexorder" "HOL-Library.Product_Lexorder"
begin

text \<open>
  What every component of the development shares: exceptions as values, the chain of
  \<open>if bad: raise ValueError(...)\<close> guards that opens every \<open>__post_init__\<close> of the
  program, Python dictionaries as insertion-ordered association lists (\<open>dict[k] = v\<close>,
  \<open>dict.get\<close>, \<open>defaultdict(list)[k].append(v)\<close>), stable sorting, and the generic
  facts on lists and maps the component theories use.
\<close>

section \<open>Exceptions and guard chains\<close>

datatype py_error =
    ValueError string
  | KeyError string
  | TypeError string
  | RuntimeError string

type_synonym 'a res = "py_error + 'a"

named_theorems guard_simps "facts that resolve guard chains and results"
named_theorems dict_simps "facts on insertion-ordered dictionaries"

text \<open>
  \<open>check_all [(bad, message), ...] x\<close> is the straight-line code
  \<open>if bad: raise ValueError(message)\<close>, once per pair in order, followed by the value
  \<open>x\<close>. The first guard that holds decides the exception.
\<close>

fun check_all :: "(bool \<times> string) list \<Rightarrow> 'a \<Rightarrow> 'a res" where
  "check_all [] x = Inr x"
| "check_all ((bad, msg) # cs) x = (if bad then Inl (ValueError msg) else check_all cs x)"

fun bind_res :: "'a res \<Rightarrow> ('a \<Rightarrow> 'b res) \<Rightarrow> 'b res" where
  "bind_res (Inl e) f = Inl e"
| "bind_res (Inr x) f = f x"

text \<open>A loop whose body may raise: it stops at the first exception.\<close>

fun map_res :: "('a \<Rightarrow> 'b res) \<Rightarrow> 'a list \<Rightarrow> 'b list res" where
  "map_res f [] = Inr []"
| "map_res f (x # xs) = bind_res (f x) (\<lambda>y. bind_res (map_res f xs) (\<lambda>ys. Inr (y # ys)))"

lemma check_all_Inr [guard_simps]:
  "check_all cs x = Inr y \<longleftrightarrow> y = x \<and> (\<forall>c \<in> set cs. \<not> fst c)"
  by (induction cs x rule: check_all.induct) auto

lemma check_all_Inl:
  "check_all cs x = Inl e \<Longrightarrow> \<exists>msg. e = ValueError msg \<and> (True, msg) \<in> set cs"
  by (induction cs x rule: check_all.induct) (auto split: if_splits)

lemma check_all_append [guard_simps]:
  "check_all (cs @ ds) x = bind_res (check_all cs x) (\<lambda>_. check_all ds x)"
  by (induction cs x rule: check_all.induct) auto

lemma check_all_ok: "(\<forall>c \<in> set cs. \<not> fst c) \<Longrightarrow> check_all cs x = Inr x"
  by (simp add: check_all_Inr)

lemma bind_res_Inr [guard_simps]: "bind_res m f = Inr y \<longleftrightarrow> (\<exists>x. m = Inr x \<and> f x = Inr y)"
  by (cases m) auto

lemma bind_res_Inl [guard_simps]:
  "bind_res m f = Inl e \<longleftrightarrow> m = Inl e \<or> (\<exists>x. m = Inr x \<and> f x = Inl e)"
  by (cases m) auto

lemma map_res_Inr: "map_res f xs = Inr ys \<longleftrightarrow> list_all2 (\<lambda>x y. f x = Inr y) xs ys"
  by (induction xs arbitrary: ys) (auto simp: bind_res_Inr list_all2_Cons1)

lemma map_res_pure: "(\<And>x. x \<in> set xs \<Longrightarrow> f x = Inr (g x)) \<Longrightarrow> map_res f xs = Inr (map g xs)"
  by (induction xs) auto

text \<open>Proofs resolve guard chains with \<open>guard_simps\<close>; evaluation names \<open>check_all.simps\<close>.\<close>

declare check_all.simps [simp del]

lemma ball_concat_map: "(\<forall>c \<in> set (concat (map f xs)). P c) \<longleftrightarrow> (\<forall>x \<in> set xs. \<forall>c \<in> set (f x). P c)"
  by auto

lemma split_Cons_iff:
  "(\<exists>pre post. b # as = pre @ a # post \<and> Q pre) \<longleftrightarrow>
     (a = b \<and> Q []) \<or> (\<exists>pre post. as = pre @ a # post \<and> Q (b # pre))"
  by (auto simp: Cons_eq_append_conv)

lemma set_map_filter: "y \<in> set (List.map_filter f xs) \<longleftrightarrow> (\<exists>x \<in> set xs. f x = Some y)"
  by (induction xs) (auto simp: map_filter_simps split: option.splits)

section \<open>Dictionaries in insertion order\<close>

text \<open>
  \<open>AList.update\<close> is \<open>d[k] = v\<close>: an existing key keeps its place, a new one goes to the
  end. \<open>dict_append\<close> is \<open>d[k].append(v)\<close> on a \<open>defaultdict(list)\<close>.
\<close>

abbreviation dict_get :: "('k \<times> 'v) list \<Rightarrow> 'k \<Rightarrow> 'v option" where
  "dict_get d k \<equiv> map_of d k"

abbreviation dict_set :: "'k \<Rightarrow> 'v \<Rightarrow> ('k \<times> 'v) list \<Rightarrow> ('k \<times> 'v) list" where
  "dict_set k v d \<equiv> AList.update k v d"

definition dict_append :: "'k \<Rightarrow> 'v \<Rightarrow> ('k \<times> 'v list) list \<Rightarrow> ('k \<times> 'v list) list" where
  "dict_append k v d = AList.map_default k [v] (\<lambda>vs. vs @ [v]) d"

text \<open>\<open>{key(x): x for x in xs}\<close>: a later element replaces an earlier one of the same key.\<close>

definition dict_of :: "('a \<Rightarrow> 'k) \<Rightarrow> 'a list \<Rightarrow> ('k \<times> 'a) list" where
  "dict_of key xs = fold (\<lambda>x d. dict_set (key x) x d) xs []"

text \<open>Group the elements that have a key, in order: the loop
  \<open>for x in xs: if key(x) is not None: d[key(x)].append(val(x))\<close>.\<close>

definition group_by :: "('a \<Rightarrow> 'k option) \<Rightarrow> ('a \<Rightarrow> 'v) \<Rightarrow> 'a list \<Rightarrow> ('k \<times> 'v list) list" where
  "group_by key val xs =
     fold (\<lambda>x d. case key x of None \<Rightarrow> d | Some k \<Rightarrow> dict_append k (val x) d) xs []"

lemma map_of_map_default [dict_simps]:
  "map_of (AList.map_default k v f d) =
     (map_of d)(k \<mapsto> (case map_of d k of None \<Rightarrow> v | Some w \<Rightarrow> f w))"
  by (induction d) (auto simp: fun_eq_iff)

lemma map_of_dict_append [dict_simps]:
  "map_of (dict_append k v d) =
     (map_of d)(k \<mapsto> (case map_of d k of None \<Rightarrow> [v] | Some vs \<Rightarrow> vs @ [v]))"
  by (simp add: dict_append_def map_of_map_default)

lemma map_of_update [dict_simps]: "map_of (AList.update k v d) = (map_of d)(k \<mapsto> v)"
  by (simp add: update_conv')

lemma keys_map_default: "fst ` set (AList.map_default k v f d) = insert k (fst ` set d)"
  by (induction d) auto

lemma distinct_dict_append: "distinct (map fst d) \<Longrightarrow> distinct (map fst (dict_append k v d))"
  unfolding dict_append_def
proof (induction d)
  case (Cons p d)
  then show ?case using keys_map_default [of k "[v]" "\<lambda>vs. vs @ [v]" d]
    by (cases p) auto
qed simp

lemma distinct_dict_of_aux:
  "distinct (map fst d) \<Longrightarrow> distinct (map fst (fold (\<lambda>x d. dict_set (key x) x d) xs d))"
  by (induction xs arbitrary: d) (auto simp: distinct_update)

lemma distinct_dict_of: "distinct (map fst (dict_of key xs))"
  by (simp add: dict_of_def distinct_dict_of_aux)

lemma dict_of_get_aux:
  "map_of (fold (\<lambda>x d. dict_set (key x) x d) xs d) k =
     (case find (\<lambda>x. key x = k) (rev xs) of Some x \<Rightarrow> Some x | None \<Rightarrow> map_of d k)"
proof (induction xs arbitrary: d)
  case (Cons x xs)
  have "find (\<lambda>x. key x = k) (rev xs @ [x]) =
      (case find (\<lambda>x. key x = k) (rev xs) of Some y \<Rightarrow> Some y
       | None \<Rightarrow> if key x = k then Some x else None)" for xs
    by (induction xs rule: rev_induct) auto
  then show ?case using Cons by (auto simp: dict_simps split: option.splits)
qed simp

lemma dict_of_get: "dict_get (dict_of key xs) k = find (\<lambda>x. key x = k) (rev xs)"
  by (simp add: dict_of_def dict_of_get_aux split: option.splits)

lemma dict_of_SomeD: "dict_get (dict_of key xs) k = Some x \<Longrightarrow> x \<in> set xs \<and> key x = k"
  by (auto simp: dict_of_get find_Some_iff in_set_conv_nth)
    (metis in_set_conv_nth length_rev set_rev)

lemma dict_of_unique:
  assumes "distinct (map key xs)" and "x \<in> set xs"
  shows "dict_get (dict_of key xs) (key x) = Some x"
proof -
  have "find (\<lambda>y. key y = key x) (rev xs) \<noteq> None"
    using assms(2) by (auto simp: find_None_iff)
  then obtain y where y: "find (\<lambda>y. key y = key x) (rev xs) = Some y" by auto
  then have "y \<in> set xs" "key y = key x"
    using dict_of_SomeD [of key xs "key x" y] by (simp_all add: dict_of_get)
  then have "y = x" using assms by (metis distinct_map inj_onD)
  with y show ?thesis by (simp add: dict_of_get)
qed

lemma dict_of_None_iff: "dict_get (dict_of key xs) k = None \<longleftrightarrow> k \<notin> key ` set xs"
  by (auto simp: dict_of_get find_None_iff)

section \<open>Grouping\<close>

lemma group_by_get_aux:
  "map_of (fold (\<lambda>x d. case key x of None \<Rightarrow> d | Some k \<Rightarrow> dict_append k (val x) d) xs d) k =
     (let new = map val (filter (\<lambda>x. key x = Some k) xs)
      in case map_of d k of
           Some vs \<Rightarrow> Some (vs @ new)
         | None \<Rightarrow> if new = [] then None else Some new)"
proof (induction xs arbitrary: d)
  case Nil
  then show ?case by (simp split: option.splits)
next
  case (Cons x xs)
  then show ?case
    by (cases "key x") (auto simp: dict_simps Let_def split: option.splits if_splits)
qed

lemma group_by_get:
  "dict_get (group_by key val xs) k =
     (let new = map val (filter (\<lambda>x. key x = Some k) xs)
      in if new = [] then None else Some new)"
  by (simp add: group_by_def group_by_get_aux)

lemma distinct_group_by: "distinct (map fst (group_by key val xs))"
proof -
  have "distinct (map fst d) \<Longrightarrow> distinct (map fst (fold (\<lambda>x d. case key x of None \<Rightarrow> d
      | Some k \<Rightarrow> dict_append k (val x) d) xs d))" for d
    by (induction xs arbitrary: d) (auto simp: distinct_dict_append split: option.splits)
  then show ?thesis by (simp add: group_by_def)
qed

text \<open>The groups, as a set: one entry per key that occurs, holding its elements in order.\<close>

lemma group_by_entries:
  "(k, vs) \<in> set (group_by key val xs) \<longleftrightarrow>
     vs = map val (filter (\<lambda>x. key x = Some k) xs) \<and> vs \<noteq> []"
proof -
  have "(k, vs) \<in> set (group_by key val xs) \<longleftrightarrow> dict_get (group_by key val xs) k = Some vs"
    by (metis distinct_group_by map_of_eq_Some_iff)
  then show ?thesis by (auto simp: group_by_get Let_def)
qed

lemma group_by_entryD:
  "(k, vs) \<in> set (group_by key val xs) \<Longrightarrow> v \<in> set vs \<Longrightarrow>
     \<exists>x \<in> set xs. key x = Some k \<and> v = val x"
  by (auto simp: group_by_entries)

section \<open>Sorting and sets\<close>

lemma sort_key_eq_iff_Nil [simp]: "sort_key f xs = [] \<longleftrightarrow> xs = []"
  by (metis length_0_conv length_sort)

lemma distinct_sort_key_map [simp]: "distinct (map g (sort_key f xs)) \<longleftrightarrow> distinct (map g xs)"
  by (metis distinct_map distinct_sort set_sort)

lemma sorted_hd_le: "sorted (map f xs) \<Longrightarrow> x \<in> set xs \<Longrightarrow> f (hd xs) \<le> f x"
  by (cases xs) auto

lemma sorted_le_last: "sorted (map f xs) \<Longrightarrow> x \<in> set xs \<Longrightarrow> f x \<le> f (last xs)"
  by (induction xs) (auto simp: last_map)

lemma sorted_nth_mono_key:
  "sorted (map f xs) \<Longrightarrow> i \<le> j \<Longrightarrow> j < length xs \<Longrightarrow> f (xs ! i) \<le> f (xs ! j)"
  using sorted_nth_mono [of "map f xs" i j] by simp

lemma list_ex_find: "(\<exists>x. find P xs = Some x) \<longleftrightarrow> (\<exists>x \<in> set xs. P x)"
  by (metis find_None_iff not_None_eq)

text \<open>\<open>len({f(x) for x in xs}) != len(xs)\<close>: some value of \<open>f\<close> repeats.\<close>

definition has_repeat :: "('a \<Rightarrow> 'b) \<Rightarrow> 'a list \<Rightarrow> bool" where
  "has_repeat f xs \<longleftrightarrow> length (remdups (map f xs)) \<noteq> length xs"

lemma has_repeat_iff [guard_simps]: "has_repeat f xs \<longleftrightarrow> \<not> distinct (map f xs)"
  by (metis distinct_remdups_id has_repeat_def length_map length_remdups_eq remdups_id_iff_distinct)

text \<open>\<open>matches[0] if len(matches) == 1 else None\<close>.\<close>

fun only_one :: "'a list \<Rightarrow> 'a option" where
  "only_one [x] = Some x"
| "only_one _ = None"

lemma only_one_Some [simp]: "only_one xs = Some x \<longleftrightarrow> xs = [x]"
  by (induction xs rule: only_one.induct) auto

end
