(* ===== verification/Py_Text.thy ===== *)
theory Py_Text
  imports Prelude
begin

text \<open>
  The \<open>str\<close> operations the program uses. Text is a \<open>string\<close> over the 7-bit characters:
  one \<open>char\<close> is one code point and one UTF-8 byte, which is exact for the identifiers,
  keys and enumeration values the modelled code compares. On that range \<open>casefold\<close> and
  \<open>lower\<close> agree and whitespace is the set of \<open>str.isspace\<close>: tab to carriage return,
  the four information separators and the blank.
\<close>

definition is_space :: "char \<Rightarrow> bool" where
  "is_space c \<longleftrightarrow> (let n = of_char c :: nat in 9 \<le> n \<and> n \<le> 13 \<or> 28 \<le> n \<and> n \<le> 32)"

definition lstrip :: "string \<Rightarrow> string" where
  "lstrip s = dropWhile is_space s"

definition strip :: "string \<Rightarrow> string" where
  "strip s = rev (dropWhile is_space (rev (lstrip s)))"

definition lower_char :: "char \<Rightarrow> char" where
  "lower_char c = (let n = of_char c :: nat in if 65 \<le> n \<and> n \<le> 90 then char_of (n + 32) else c)"

definition upper_char :: "char \<Rightarrow> char" where
  "upper_char c = (let n = of_char c :: nat in if 97 \<le> n \<and> n \<le> 122 then char_of (n - 32) else c)"

definition casefold :: "string \<Rightarrow> string" where
  "casefold s = map lower_char s"

definition upper :: "string \<Rightarrow> string" where
  "upper s = map upper_char s"

definition startswith :: "string \<Rightarrow> string \<Rightarrow> bool" where
  "startswith s p \<longleftrightarrow> take (length p) s = p"

text \<open>\<open>sub in s\<close>.\<close>

fun contains :: "string \<Rightarrow> string \<Rightarrow> bool" where
  "contains sub [] = (sub = [])"
| "contains sub (c # s) = (startswith (c # s) sub \<or> contains sub s)"

fun join :: "string \<Rightarrow> string list \<Rightarrow> string" where
  "join sep [] = []"
| "join sep [s] = s"
| "join sep (s # ss) = s @ sep @ join sep ss"

definition replace_char :: "char \<Rightarrow> char \<Rightarrow> string \<Rightarrow> string" where
  "replace_char a b s = map (\<lambda>c. if c = a then b else c) s"

text \<open>\<open>re.split\<close> on the maximal runs of characters that satisfy \<open>sep\<close>, without the empty
  pieces (the callers drop them).\<close>

fun words_by :: "(char \<Rightarrow> bool) \<Rightarrow> string \<Rightarrow> string \<Rightarrow> string list" where
  "words_by sep acc [] = (if acc = [] then [] else [rev acc])"
| "words_by sep acc (c # s) =
     (if sep c then (if acc = [] then [] else [rev acc]) @ words_by sep [] s
      else words_by sep (c # acc) s)"

text \<open>\<open>s.split(c)\<close>: the pieces between the occurrences of one character.\<close>

fun split_char :: "char \<Rightarrow> string \<Rightarrow> string \<Rightarrow> string list" where
  "split_char sep acc [] = [rev acc]"
| "split_char sep acc (c # s) =
     (if c = sep then rev acc # split_char sep [] s else split_char sep (c # acc) s)"

definition is_digit :: "char \<Rightarrow> bool" where
  "is_digit c \<longleftrightarrow> (let n = of_char c :: nat in 48 \<le> n \<and> n \<le> 57)"

definition is_lower_letter :: "char \<Rightarrow> bool" where
  "is_lower_letter c \<longleftrightarrow> (let n = of_char c :: nat in 97 \<le> n \<and> n \<le> 122)"

definition is_upper_letter :: "char \<Rightarrow> bool" where
  "is_upper_letter c \<longleftrightarrow> (let n = of_char c :: nat in 65 \<le> n \<and> n \<le> 90)"

definition is_letter :: "char \<Rightarrow> bool" where
  "is_letter c \<longleftrightarrow> is_lower_letter c \<or> is_upper_letter c"

text \<open>\<open>str(n)\<close> of an integer.\<close>

fun str_nat :: "nat \<Rightarrow> string" where
  "str_nat n = (if n < 10 then [char_of (48 + n)] else str_nat (n div 10) @ [char_of (48 + n mod 10)])"

declare str_nat.simps [simp del]

definition str_int :: "int \<Rightarrow> string" where
  "str_int i = (if i < 0 then CHR ''-'' # str_nat (nat (- i)) else str_nat (nat i))"

text \<open>Two decimal digits, as in \<open>%02d\<close>, and four.\<close>

definition pad_left :: "nat \<Rightarrow> string \<Rightarrow> string" where
  "pad_left w s = replicate (w - length s) (CHR ''0'') @ s"

section \<open>Facts\<close>

lemma strip_Nil [simp]: "strip [] = []"
  by (simp add: strip_def lstrip_def)

text \<open>\<open>trimmed\<close> is the check \<open>value.strip() and value == value.strip()\<close>.\<close>

definition trimmed :: "string \<Rightarrow> bool" where
  "trimmed s \<longleftrightarrow> strip s \<noteq> [] \<and> s = strip s"

lemma hd_lstrip: "lstrip s \<noteq> [] \<Longrightarrow> \<not> is_space (hd (lstrip s))"
  by (simp add: lstrip_def hd_dropWhile)

lemma strip_eq_Nil_iff: "strip s = [] \<longleftrightarrow> (\<forall>c \<in> set s. is_space c)"
proof -
  have "strip s = [] \<longleftrightarrow> (\<forall>c \<in> set (lstrip s). is_space c)"
    by (simp add: strip_def)
  also have "\<dots> \<longleftrightarrow> lstrip s = []"
  proof
    assume all: "\<forall>c \<in> set (lstrip s). is_space c"
    show "lstrip s = []"
    proof (rule ccontr)
      assume ne: "lstrip s \<noteq> []"
      then have "is_space (hd (lstrip s))" using all by simp
      with hd_lstrip [OF ne] show False by simp
    qed
  qed simp
  finally show ?thesis by (simp add: lstrip_def)
qed

lemma trimmed_iff: "trimmed s \<longleftrightarrow> s \<noteq> [] \<and> \<not> is_space (hd s) \<and> \<not> is_space (last s)"
proof
  assume t: "trimmed s"
  then have ne: "s \<noteq> []" and eq: "s = strip s" by (auto simp: trimmed_def)
  let ?l = "lstrip s"
  have l: "?l = s"
  proof -
    have "length (strip s) \<le> length ?l"
      by (simp add: strip_def) (metis length_dropWhile_le length_rev)
    then have "length s \<le> length ?l" using eq by simp
    moreover have "length s = length (takeWhile is_space s) + length ?l"
      unfolding lstrip_def by (metis length_append takeWhile_dropWhile_id)
    ultimately have "takeWhile is_space s = []" by simp
    then show ?thesis unfolding lstrip_def by (metis append_Nil takeWhile_dropWhile_id)
  qed
  have "dropWhile is_space (rev s) = rev s"
    using eq l by (simp add: strip_def) (metis rev_rev_ident)
  then have "\<not> is_space (hd (rev s))"
    using ne by (metis dropWhile_eq_self_iff rev_is_Nil_conv)
  then show "s \<noteq> [] \<and> \<not> is_space (hd s) \<and> \<not> is_space (last s)"
    using ne l hd_lstrip [of s] by (simp add: hd_rev)
next
  assume a: "s \<noteq> [] \<and> \<not> is_space (hd s) \<and> \<not> is_space (last s)"
  then have "lstrip s = s" by (simp add: lstrip_def dropWhile_eq_self_iff)
  moreover have "dropWhile is_space (rev s) = rev s"
    using a by (simp add: dropWhile_eq_self_iff hd_rev)
  ultimately have "strip s = s" by (simp add: strip_def)
  with a show "trimmed s" by (simp add: trimmed_def)
qed

lemma startswith_iff: "startswith s p \<longleftrightarrow> (\<exists>t. s = p @ t)"
  by (metis append_eq_conv_conj append_take_drop_id startswith_def)

lemma contains_iff: "contains sub s \<longleftrightarrow> (\<exists>a b. s = a @ sub @ b)"
proof (induction s)
  case Nil
  then show ?case by auto
next
  case (Cons c s)
  have "(\<exists>a b. c # s = a @ sub @ b) \<longleftrightarrow> (\<exists>b. c # s = sub @ b) \<or> (\<exists>a b. s = a @ sub @ b)"
    (is "?l \<longleftrightarrow> ?r")
  proof
    assume ?l
    then obtain a b where "c # s = a @ sub @ b" by blast
    then show ?r by (cases a) auto
  next
    assume ?r
    then show ?l
    proof
      assume "\<exists>b. c # s = sub @ b"
      then show ?l by (metis append_Nil)
    next
      assume "\<exists>a b. s = a @ sub @ b"
      then show ?l by (metis append_Cons)
    qed
  qed
  then show ?case using Cons by (simp add: startswith_iff)
qed

lemma lower_char_idem: "lower_char (lower_char c) = lower_char c"
  by (auto simp: lower_char_def Let_def of_char_of)

lemma casefold_idem [simp]: "casefold (casefold s) = casefold s"
  by (simp add: casefold_def lower_char_idem)

lemma casefold_Nil_iff [simp]: "casefold s = [] \<longleftrightarrow> s = []"
  by (simp add: casefold_def)

text \<open>Joining texts that do not hold the separator can be undone.\<close>

lemma append_sep_inj:
  "x \<notin> set s \<Longrightarrow> x \<notin> set t \<Longrightarrow> s @ x # u = t @ x # v \<Longrightarrow> s = t \<and> u = v"
proof (induction s arbitrary: t)
  case Nil
  then show ?case by (cases t) auto
next
  case (Cons c s)
  then show ?case by (cases t) auto
qed

lemma join_sep_inj:
  assumes "length xs = length ys" and "\<forall>s \<in> set xs \<union> set ys. sep \<notin> set s"
    and "join [sep] xs = join [sep] ys"
  shows "xs = ys"
  using assms
proof (induction xs ys rule: list_induct2)
  case Nil
  then show ?case by simp
next
  case (Cons x xs y ys)
  show ?case
  proof (cases xs)
    case Nil
    with Cons show ?thesis by auto
  next
    case (Cons x' xs')
    then obtain y' ys' where ys: "ys = y' # ys'" using Cons.hyps by (cases ys) auto
    have "x @ sep # join [sep] xs = y @ sep # join [sep] ys"
      using Cons.prems(2) \<open>xs = x' # xs'\<close> ys by simp
    then have "x = y \<and> join [sep] xs = join [sep] ys"
      using Cons.prems(1) by (intro append_sep_inj) auto
    then show ?thesis using Cons.IH Cons.prems(1) by auto
  qed
qed

end
