(* ===== verification/Py_Value.thy ===== *)
theory Py_Value
  imports Py_Text
begin

text \<open>
  Python values: floats with infinities and NaN, aware and naive datetimes, and the JSON-like
  values (\<open>Mapping[str, Any]\<close>) that the program carries as attributes and evidence payloads,
  with \<open>==\<close> on them, and the canonical JSON text the natural keys are hashed from.
\<close>

section \<open>Floats\<close>

text \<open>
  The program only compares floats and takes minima, it never computes with them, so a finite
  double is the rational it denotes. A literal such as \<open>0.8\<close> is the double nearest to it.
\<close>

datatype pyfloat = Fin rat | PosInf | NegInf | NaN

fun fle :: "pyfloat \<Rightarrow> pyfloat \<Rightarrow> bool" where
  "fle NaN _ = False"
| "fle _ NaN = False"
| "fle NegInf _ = True"
| "fle _ PosInf = True"
| "fle (Fin a) (Fin b) = (a \<le> b)"
| "fle _ _ = False"

fun flt :: "pyfloat \<Rightarrow> pyfloat \<Rightarrow> bool" where
  "flt NaN _ = False"
| "flt _ NaN = False"
| "flt PosInf _ = False"
| "flt _ NegInf = False"
| "flt (Fin a) (Fin b) = (a < b)"
| "flt _ _ = True"

fun feq :: "pyfloat \<Rightarrow> pyfloat \<Rightarrow> bool" where
  "feq NaN _ = False"
| "feq _ NaN = False"
| "feq a b = (a = b)"

definition f_0_0 :: pyfloat where "f_0_0 = Fin 0"
definition f_0_8 :: pyfloat where "f_0_8 = Fin (3602879701896397 / 4503599627370496)"
definition f_0_9 :: pyfloat where "f_0_9 = Fin (8106479329266893 / 9007199254740992)"
definition f_1_0 :: pyfloat where "f_1_0 = Fin 1"
definition f_10_0 :: pyfloat where "f_10_0 = Fin 10"

text \<open>\<open>min(a, b, ...)\<close>: the first argument that no later one is below.\<close>

fun fmin :: "pyfloat \<Rightarrow> pyfloat list \<Rightarrow> pyfloat" where
  "fmin m [] = m"
| "fmin m (x # xs) = fmin (if flt x m then x else m) xs"

text \<open>\<open>0.0 <= value <= 1.0\<close>, false for NaN and the infinities.\<close>

definition unit_interval :: "pyfloat \<Rightarrow> bool" where
  "unit_interval v \<longleftrightarrow> fle f_0_0 v \<and> fle v f_1_0"

lemma unit_interval_iff: "unit_interval v \<longleftrightarrow> (\<exists>q. v = Fin q \<and> 0 \<le> q \<and> q \<le> 1)"
  by (cases v) (auto simp: unit_interval_def f_0_0_def f_1_0_def)

lemma unit_interval_consts [simp]: "unit_interval f_1_0" "unit_interval f_0_9" "unit_interval f_0_8"
  by (simp_all add: unit_interval_def f_0_0_def f_1_0_def f_0_9_def f_0_8_def)

lemma fle_refl: "x \<noteq> NaN \<Longrightarrow> fle x x"
  by (cases x) auto

lemma fle_trans: "fle a b \<Longrightarrow> fle b c \<Longrightarrow> fle a c"
  by (cases a; cases b; cases c) auto

lemma flt_fle: "flt x m \<Longrightarrow> fle x m"
  by (cases x; cases m) auto

lemma not_flt_fle: "x \<noteq> NaN \<Longrightarrow> m \<noteq> NaN \<Longrightarrow> \<not> flt x m \<Longrightarrow> fle m x"
  by (cases x; cases m) auto

lemma fmin_in: "fmin m xs \<in> set (m # xs)"
  by (induction m xs rule: fmin.induct) (auto split: if_splits)

lemma fmin_le_hd: "\<forall>x \<in> set (m # xs). x \<noteq> NaN \<Longrightarrow> fle (fmin m xs) m"
proof (induction xs arbitrary: m)
  case Nil
  then show ?case by (simp add: fle_refl)
next
  case (Cons x xs)
  let ?m = "if flt x m then x else m"
  have "fle (fmin ?m xs) ?m" using Cons.prems by (intro Cons.IH) auto
  moreover have "fle ?m m" using Cons.prems by (auto simp: flt_fle fle_refl)
  ultimately show ?case by (auto intro: fle_trans)
qed

lemma fmin_le: "\<forall>x \<in> set (m # xs). x \<noteq> NaN \<Longrightarrow> y \<in> set (m # xs) \<Longrightarrow> fle (fmin m xs) y"
proof (induction xs arbitrary: m)
  case Nil
  then show ?case by (simp add: fle_refl)
next
  case (Cons x xs)
  let ?m = "if flt x m then x else m"
  have nn: "\<forall>z \<in> set (?m # xs). z \<noteq> NaN" using Cons.prems by auto
  have le: "fle (fmin ?m xs) ?m" using nn by (rule fmin_le_hd)
  have "fle ?m m" "fle ?m x"
    using Cons.prems(1) by (auto simp: flt_fle fle_refl not_flt_fle)
  with le have "fle (fmin ?m xs) m" "fle (fmin ?m xs) x" by (blast intro: fle_trans)+
  moreover have "y \<in> set xs \<Longrightarrow> fle (fmin ?m xs) y"
    using nn by (intro Cons.IH) auto
  ultimately show ?case using Cons.prems(2) by auto
qed

section \<open>Rounded arithmetic\<close>

text \<open>
  The double nearest to a positive rational, ties to even: the significand has 53 bits. The
  quantities the program scales lie far inside the exponent range.
\<close>

definition round_half_even :: "rat \<Rightarrow> int" where
  "round_half_even q =
     (let f = floor q; d = q - of_int f
      in if d < 1 / 2 then f else if 1 / 2 < d then f + 1 else if even f then f else f + 1)"

fun ilog2 :: "int \<Rightarrow> int" where
  "ilog2 n = (if n \<le> 1 then 0 else 1 + ilog2 (n div 2))"

declare ilog2.simps [simp del]

definition binary_exponent :: "rat \<Rightarrow> int" where
  "binary_exponent q =
     (let (a, b) = quotient_of q; k = ilog2 a - ilog2 b
      in if 2 powi k \<le> q then k else k - 1)"

definition to_double :: "rat \<Rightarrow> rat" where
  "to_double q =
     (if q \<le> 0 then 0
      else let u = 2 powi (binary_exponent q - 52) in of_int (round_half_even (q / u)) * u)"

text \<open>\<open>int(delta.total_seconds() * 1000)\<close> of a delta that is not negative: two roundings, then
  truncation.\<close>

definition elapsed_millis :: "int \<Rightarrow> int" where
  "elapsed_millis us = floor (to_double (to_double (of_int us / 1000000) * 1000))"

section \<open>Datetimes\<close>

text \<open>
  Microseconds since the epoch: of the local clock for a naive datetime, of UTC for an aware one,
  which also keeps its offset from UTC in minutes. Aware datetimes compare by their instant.
\<close>

datatype py_datetime = Naive int | Aware int int

fun tz_aware :: "py_datetime \<Rightarrow> bool" where
  "tz_aware (Naive _) = False"
| "tz_aware (Aware _ _) = True"

fun instant :: "py_datetime \<Rightarrow> int" where
  "instant (Naive t) = t"
| "instant (Aware t _) = t"

text \<open>\<open>==\<close>: a naive and an aware datetime are never equal.\<close>

definition dt_eq :: "py_datetime \<Rightarrow> py_datetime \<Rightarrow> bool" where
  "dt_eq a b \<longleftrightarrow> tz_aware a = tz_aware b \<and> instant a = instant b"

definition micros_per_hour :: int where "micros_per_hour = 3600 * 1000000"
definition micros_per_minute :: int where "micros_per_minute = 60 * 1000000"
definition micros_per_day :: int where "micros_per_day = 24 * 3600 * 1000000"

text \<open>The civil date of a day count since 1970-01-01 in the proleptic Gregorian calendar.\<close>

definition civil_from_days :: "int \<Rightarrow> int \<times> int \<times> int" where
  "civil_from_days days =
     (let z = days + 719468; era = z div 146097; doe = z - era * 146097;
          yoe = (doe - doe div 1460 + doe div 36524 - doe div 146096) div 365;
          doy = doe - (365 * yoe + yoe div 4 - yoe div 100);
          mp = (5 * doy + 2) div 153; d = doy - (153 * mp + 2) div 5 + 1;
          m = (if mp < 10 then mp + 3 else mp - 9)
      in (yoe + era * 400 + (if m \<le> 2 then 1 else 0), m, d))"

definition two_digits :: "int \<Rightarrow> string" where
  "two_digits n = pad_left 2 (str_int n)"

text \<open>\<open>datetime.isoformat()\<close>: microseconds only when they are not zero, the offset only when aware.\<close>

definition isoformat :: "py_datetime \<Rightarrow> string" where
  "isoformat dt =
     (let off = (case dt of Naive _ \<Rightarrow> 0 | Aware _ o_m \<Rightarrow> o_m);
          t = instant dt + off * micros_per_minute;
          days = t div micros_per_day; r = t mod micros_per_day;
          (y, m, d) = civil_from_days days;
          us = r mod 1000000; secs = r div 1000000
      in pad_left 4 (str_int y) @ ''-'' @ two_digits m @ ''-'' @ two_digits d @ ''T''
         @ two_digits (secs div 3600) @ '':'' @ two_digits (secs div 60 mod 60)
         @ '':'' @ two_digits (secs mod 60)
         @ (if us = 0 then [] else ''.'' @ pad_left 6 (str_int us))
         @ (case dt of Naive _ \<Rightarrow> []
            | Aware _ o_m \<Rightarrow> (if o_m < 0 then ''-'' else ''+'')
                @ two_digits (abs o_m div 60) @ '':'' @ two_digits (abs o_m mod 60)))"

section \<open>JSON-like values\<close>

datatype pyval =
    PNone
  | PBool bool
  | PInt int
  | PFloat pyfloat
  | PStr string
  | PList "pyval list"
  | PDict "(string \<times> pyval) list"

type_synonym attrs = "(string \<times> pyval) list"

fun numeric :: "pyval \<Rightarrow> pyfloat option" where
  "numeric (PBool b) = Some (Fin (if b then 1 else 0))"
| "numeric (PInt i) = Some (Fin (of_int i))"
| "numeric (PFloat f) = Some f"
| "numeric _ = None"

text \<open>
  \<open>==\<close>: numbers and booleans compare by value across their types, dictionaries ignore the
  order of their keys, other values of different types differ.
\<close>

fun py_eq :: "pyval \<Rightarrow> pyval \<Rightarrow> bool" where
  "py_eq PNone v = (v = PNone)"
| "py_eq (PStr s) v = (v = PStr s)"
| "py_eq (PList xs) v = (case v of PList ys \<Rightarrow> list_all2 py_eq xs ys | _ \<Rightarrow> False)"
| "py_eq (PDict d) v = (case v of
      PDict e \<Rightarrow> length d = length e \<and>
        (\<forall>p \<in> set d. case map_of e (fst p) of None \<Rightarrow> False | Some w \<Rightarrow> py_eq (snd p) w)
    | _ \<Rightarrow> False)"
| "py_eq u v = (case (numeric u, numeric v) of (Some a, Some b) \<Rightarrow> feq a b | _ \<Rightarrow> False)"

definition attrs_eq :: "attrs \<Rightarrow> attrs \<Rightarrow> bool" where
  "attrs_eq d e \<longleftrightarrow> py_eq (PDict d) (PDict e)"

text \<open>\<open>bool(v)\<close> and \<open>d.get(k)\<close>, which is \<open>None\<close> for a missing key.\<close>

fun truthy :: "pyval \<Rightarrow> bool" where
  "truthy PNone = False"
| "truthy (PBool b) = b"
| "truthy (PInt i) = (i \<noteq> 0)"
| "truthy (PFloat f) = (case f of Fin q \<Rightarrow> q \<noteq> 0 | _ \<Rightarrow> True)"
| "truthy (PStr s) = (s \<noteq> [])"
| "truthy (PList xs) = (xs \<noteq> [])"
| "truthy (PDict d) = (d \<noteq> [])"

definition attr_get :: "attrs \<Rightarrow> string \<Rightarrow> pyval" where
  "attr_get d k = (case map_of d k of None \<Rightarrow> PNone | Some v \<Rightarrow> v)"

definition opt_str :: "string option \<Rightarrow> pyval" where
  "opt_str s = (case s of None \<Rightarrow> PNone | Some x \<Rightarrow> PStr x)"

text \<open>
  \<open>str(v)\<close>. The program applies it to values that are texts already, or to be safe; the text of
  another value is left to the argument \<open>str_of\<close>.
\<close>

definition py_str :: "(pyval \<Rightarrow> string) \<Rightarrow> pyval \<Rightarrow> string" where
  "py_str str_of v = (case v of PStr s \<Rightarrow> s | _ \<Rightarrow> str_of v)"

text \<open>\<open>a or b\<close> on optional texts: an empty text is false.\<close>

fun or_else :: "string option \<Rightarrow> string option \<Rightarrow> string option" where
  "or_else (Some (c # s)) b = Some (c # s)"
| "or_else _ b = b"

definition or_text :: "string option \<Rightarrow> string \<Rightarrow> string" where
  "or_text a b = (case a of Some s \<Rightarrow> if s = [] then b else s | None \<Rightarrow> b)"

section \<open>Canonical JSON text\<close>

text \<open>String literals of \<open>json.dumps\<close> with \<open>ensure_ascii\<close>.\<close>

definition hex_digit :: "nat \<Rightarrow> char" where
  "hex_digit n = char_of (if n < 10 then 48 + n else 87 + n)"

definition json_char :: "char \<Rightarrow> string" where
  "json_char c =
     (let n = of_char c :: nat in
      if n = 34 then [CHR 0x5C, CHR 0x22] else if n = 92 then [CHR 0x5C, CHR 0x5C]
      else if n = 10 then [CHR 0x5C, CHR ''n''] else if n = 13 then [CHR 0x5C, CHR ''r'']
      else if n = 9 then [CHR 0x5C, CHR ''t''] else if n = 12 then [CHR 0x5C, CHR ''f'']
      else if n = 8 then [CHR 0x5C, CHR ''b'']
      else if 32 \<le> n \<and> n \<le> 126 then [c]
      else [CHR 0x5C, CHR ''u'', CHR ''0'', CHR ''0'', hex_digit (n div 16), hex_digit (n mod 16)])"

definition json_string :: "string \<Rightarrow> string" where
  "json_string s = [CHR 0x22] @ concat (map json_char s) @ [CHR 0x22]"

text \<open>\<open>json.dumps(d, sort_keys=True, separators=(",", ":"))\<close> of a flat dictionary of optional
  strings.\<close>

definition json_opt :: "string option \<Rightarrow> string" where
  "json_opt v = (case v of None \<Rightarrow> ''null'' | Some s \<Rightarrow> json_string s)"

definition json_flat :: "(string \<times> string option) list \<Rightarrow> string" where
  "json_flat d =
     ''{'' @ join '','' (map (\<lambda>(k, v). json_string k @ '':'' @ json_opt v) (sort_key fst d)) @ ''}''"

end
