(* ===== verification/Inventory.thy ===== *)
theory Inventory
  imports Py_Value
begin

text \<open>
  \<open>src/denali/domain/inventory.py\<close>: assets, relationships, evidence, coverage and the inventory
  batch a connector hands over. A frozen dataclass is a record; its constructor with
  \<open>__post_init__\<close> is the function \<open>new_<Class>\<close>, which returns the exception or the value.
\<close>

section \<open>Enumerations\<close>

datatype asset_kind =
    AI_APPLICATION | AI_AGENT | AI_MODEL | MODEL_ARTIFACT | MCP_SERVER | AI_TOOL | AI_GUARDRAIL
  | AI_PIPELINE | AI_DATASTORE | AI_WORKLOAD | AI_FRAMEWORK | CODE_REPOSITORY | CLOUD_RESOURCE
  | IDENTITY | APPLICATION_ENDPOINT | SOFTWARE_COMPONENT

fun asset_kind_value :: "asset_kind \<Rightarrow> string" where
  "asset_kind_value AI_APPLICATION = ''ai_application''"
| "asset_kind_value AI_AGENT = ''ai_agent''"
| "asset_kind_value AI_MODEL = ''ai_model''"
| "asset_kind_value MODEL_ARTIFACT = ''model_artifact''"
| "asset_kind_value MCP_SERVER = ''mcp_server''"
| "asset_kind_value AI_TOOL = ''ai_tool''"
| "asset_kind_value AI_GUARDRAIL = ''ai_guardrail''"
| "asset_kind_value AI_PIPELINE = ''ai_pipeline''"
| "asset_kind_value AI_DATASTORE = ''ai_datastore''"
| "asset_kind_value AI_WORKLOAD = ''ai_workload''"
| "asset_kind_value AI_FRAMEWORK = ''ai_framework''"
| "asset_kind_value CODE_REPOSITORY = ''code_repository''"
| "asset_kind_value CLOUD_RESOURCE = ''cloud_resource''"
| "asset_kind_value IDENTITY = ''identity''"
| "asset_kind_value APPLICATION_ENDPOINT = ''application_endpoint''"
| "asset_kind_value SOFTWARE_COMPONENT = ''software_component''"

datatype inventory_category = CAT_AI | CAT_SUPPORTING | CAT_COMPONENTS

fun ASSET_CATEGORY_KINDS :: "inventory_category \<Rightarrow> asset_kind list" where
  "ASSET_CATEGORY_KINDS CAT_AI =
     [AI_APPLICATION, AI_AGENT, AI_MODEL, MODEL_ARTIFACT, MCP_SERVER, AI_TOOL, AI_GUARDRAIL,
      AI_PIPELINE, AI_DATASTORE, AI_WORKLOAD, AI_FRAMEWORK, APPLICATION_ENDPOINT]"
| "ASSET_CATEGORY_KINDS CAT_SUPPORTING = [CODE_REPOSITORY, CLOUD_RESOURCE, IDENTITY]"
| "ASSET_CATEGORY_KINDS CAT_COMPONENTS = [SOFTWARE_COMPONENT]"

datatype assertion_type = DECLARED | INFERRED | OBSERVED | EXTERNALLY_VERIFIED

fun assertion_type_value :: "assertion_type \<Rightarrow> string" where
  "assertion_type_value DECLARED = ''declared''"
| "assertion_type_value INFERRED = ''inferred''"
| "assertion_type_value OBSERVED = ''observed''"
| "assertion_type_value EXTERNALLY_VERIFIED = ''externally_verified''"

datatype lifecycle_state = LC_ACTIVE | LC_WITHDRAWN | LC_UNKNOWN

datatype governance_status = GOV_APPROVED | GOV_UNREVIEWED | GOV_UNWANTED

datatype coverage_state = COMPLETE | PARTIAL | FAILED | NOT_SUPPORTED | UNKNOWN

datatype relationship_category = CAPABILITY | INFLUENCE | TOPOLOGY

datatype relationship_kind =
    CAN_INVOKE | CAN_READ | CAN_WRITE | RUNS_AS | REACHES | INFLUENCES | USES | HOSTED_ON
  | DEFINED_IN | DEPLOYED_BY | PROTECTED_BY | TRAINS_ON | CONNECTS_TO | EXPOSES
  | CONTAINS_COMPONENT | DEPENDS_ON

definition relationship_kind_category :: "relationship_kind \<Rightarrow> relationship_category" where
  "relationship_kind_category k =
     (if k \<in> {CAN_INVOKE, CAN_READ, CAN_WRITE, RUNS_AS, REACHES} then CAPABILITY
      else if k = INFLUENCES then INFLUENCE
      else TOPOLOGY)"

section \<open>Asset references and evidence\<close>

record asset_ref =
  ar_kind :: asset_kind
  ar_natural_key :: string

definition new_AssetRef :: "asset_kind \<Rightarrow> string \<Rightarrow> asset_ref res" where
  "new_AssetRef kind natural_key = check_all
     [(natural_key = [] \<or> strip natural_key = [], ''asset natural_key must be non-empty''),
      (natural_key \<noteq> strip natural_key,
       ''asset natural_key must not have surrounding whitespace'')]
     \<lparr>ar_kind = kind, ar_natural_key = natural_key\<rparr>"

definition canonical_key :: "asset_ref \<Rightarrow> string" where
  "canonical_key a = asset_kind_value (ar_kind a) @ '':'' @ ar_natural_key a"

record evidence =
  ev_source_type :: string
  ev_locator :: string
  ev_observed_at :: py_datetime
  ev_payload :: attrs

definition new_Evidence :: "string \<Rightarrow> string \<Rightarrow> py_datetime \<Rightarrow> attrs \<Rightarrow> evidence res" where
  "new_Evidence source_type locator observed_at payload = check_all
     [(strip source_type = [], ''evidence source_type must be non-empty''),
      (strip locator = [], ''evidence locator must be non-empty''),
      (\<not> tz_aware observed_at, ''evidence observed_at must be timezone-aware'')]
     \<lparr>ev_source_type = source_type, ev_locator = locator, ev_observed_at = observed_at,
      ev_payload = payload\<rparr>"

definition evidence_eq :: "evidence \<Rightarrow> evidence \<Rightarrow> bool" where
  "evidence_eq a b \<longleftrightarrow> ev_source_type a = ev_source_type b \<and> ev_locator a = ev_locator b
     \<and> dt_eq (ev_observed_at a) (ev_observed_at b) \<and> attrs_eq (ev_payload a) (ev_payload b)"

section \<open>Assertions\<close>

record asset_assertion =
  aa_asset :: asset_ref
  aa_coverage_plane :: string
  aa_display_name :: string
  aa_assertion_type :: assertion_type
  aa_confidence :: pyfloat
  aa_evidence :: evidence
  aa_attributes :: attrs
  aa_lifecycle :: lifecycle_state

text \<open>\<open>_validate_confidence\<close>: the guard of its only \<open>raise\<close>.\<close>

definition bad_confidence :: "pyfloat \<Rightarrow> bool" where
  "bad_confidence v \<longleftrightarrow> \<not> unit_interval v"

definition new_AssetAssertion :: "asset_assertion \<Rightarrow> asset_assertion res" where
  "new_AssetAssertion a = check_all
     [(strip (aa_coverage_plane a) = [], ''asset coverage_plane must be non-empty''),
      (strip (aa_display_name a) = [], ''asset display_name must be non-empty''),
      (bad_confidence (aa_confidence a), ''confidence must be between 0.0 and 1.0'')]
     a"

definition asset_assertion_eq :: "asset_assertion \<Rightarrow> asset_assertion \<Rightarrow> bool" where
  "asset_assertion_eq a b \<longleftrightarrow> aa_asset a = aa_asset b
     \<and> aa_coverage_plane a = aa_coverage_plane b \<and> aa_display_name a = aa_display_name b
     \<and> aa_assertion_type a = aa_assertion_type b \<and> feq (aa_confidence a) (aa_confidence b)
     \<and> evidence_eq (aa_evidence a) (aa_evidence b)
     \<and> attrs_eq (aa_attributes a) (aa_attributes b) \<and> aa_lifecycle a = aa_lifecycle b"

record relationship_assertion =
  ra_source :: asset_ref
  ra_target :: asset_ref
  ra_coverage_plane :: string
  ra_kind :: relationship_kind
  ra_assertion_type :: assertion_type
  ra_confidence :: pyfloat
  ra_evidence :: evidence
  ra_attributes :: attrs
  ra_principal_ref :: "asset_ref option"
  ra_agent_ref :: "asset_ref option"

definition new_RelationshipAssertion :: "relationship_assertion \<Rightarrow> relationship_assertion res" where
  "new_RelationshipAssertion r = check_all
     [(strip (ra_coverage_plane r) = [], ''relationship coverage_plane must be non-empty''),
      (ra_source r = ra_target r, ''relationship source and target must differ''),
      (bad_confidence (ra_confidence r), ''confidence must be between 0.0 and 1.0''),
      (case ra_principal_ref r of None \<Rightarrow> False | Some p \<Rightarrow> ar_kind p \<noteq> IDENTITY,
       ''principal_ref must reference an identity''),
      (case ra_agent_ref r of None \<Rightarrow> False | Some a \<Rightarrow> ar_kind a \<noteq> AI_AGENT,
       ''agent_ref must reference an AI agent'')]
     r"

definition ra_category :: "relationship_assertion \<Rightarrow> relationship_category" where
  "ra_category r = relationship_kind_category (ra_kind r)"

section \<open>Connector capabilities and coverage\<close>

record connector_capabilities =
  cc_findings :: bool
  cc_inventory :: bool
  cc_relationships :: bool
  cc_activity :: bool

definition new_ConnectorCapabilities :: "bool \<Rightarrow> bool \<Rightarrow> bool \<Rightarrow> bool \<Rightarrow> connector_capabilities res" where
  "new_ConnectorCapabilities findings inventory relationships activity = check_all
     [(\<not> (findings \<or> inventory \<or> relationships \<or> activity),
       ''a connector must provide at least one capability'')]
     \<lparr>cc_findings = findings, cc_inventory = inventory, cc_relationships = relationships,
      cc_activity = activity\<rparr>"

record coverage =
  cov_plane :: string
  cov_state :: coverage_state
  cov_scope :: string
  cov_detail :: "string option"

definition new_Coverage :: "string \<Rightarrow> coverage_state \<Rightarrow> string \<Rightarrow> string option \<Rightarrow> coverage res" where
  "new_Coverage plane state scope detail = check_all
     [(strip plane = [], ''coverage plane must be non-empty''),
      (strip scope = [], ''coverage scope must be non-empty'')]
     \<lparr>cov_plane = plane, cov_state = state, cov_scope = scope, cov_detail = detail\<rparr>"

definition authorizes_withdrawal :: "coverage \<Rightarrow> bool" where
  "authorizes_withdrawal c \<longleftrightarrow> cov_state c = COMPLETE"

section \<open>Batches\<close>

text \<open>
  The fields every batch class of the domain starts with. The loop over the four labels in
  \<open>__post_init__\<close> raises for the first blank one.
\<close>

record batch_header =
  bh_connector_id :: string
  bh_connection_id :: string
  bh_run_id :: string
  bh_scope_key :: string
  bh_collected_at :: py_datetime
  bh_coverage :: "coverage list"

definition header_labels :: "('a batch_header_scheme) \<Rightarrow> (string \<times> string) list" where
  "header_labels b = [(''connector_id'', bh_connector_id b), (''connection_id'', bh_connection_id b),
     (''run_id'', bh_run_id b), (''scope_key'', bh_scope_key b)]"

definition blank_label_checks :: "(string \<times> string) list \<Rightarrow> (bool \<times> string) list" where
  "blank_label_checks ls = map (\<lambda>(label, v). (strip v = [], label @ '' must be non-empty'')) ls"

record inventory_batch = batch_header +
  ib_assets :: "asset_assertion list"
  ib_relationships :: "relationship_assertion list"

definition declared_planes :: "inventory_batch \<Rightarrow> string set" where
  "declared_planes b = set (map cov_plane (bh_coverage b))"

text \<open>\<open>sorted(assertion_planes - declared_planes)\<close>.\<close>

definition undeclared_planes :: "inventory_batch \<Rightarrow> string list" where
  "undeclared_planes b =
     sort (remdups (filter (\<lambda>p. p \<notin> set (map cov_plane (bh_coverage b)))
       (map aa_coverage_plane (ib_assets b) @ map ra_coverage_plane (ib_relationships b))))"

text \<open>
  \<open>_reject_conflicting_duplicates\<close>: the first assertion that differs from the one stored last
  for its asset and assertion type.
\<close>

fun conflicting_duplicate ::
    "((asset_ref \<times> assertion_type) \<times> asset_assertion) list \<Rightarrow> asset_assertion list
     \<Rightarrow> asset_assertion option" where
  "conflicting_duplicate seen [] = None"
| "conflicting_duplicate seen (a # as) =
     (let key = (aa_asset a, aa_assertion_type a) in
      if (case dict_get seen key of Some p \<Rightarrow> \<not> asset_assertion_eq p a | None \<Rightarrow> False) then Some a
      else conflicting_duplicate (dict_set key a seen) as)"

definition reject_conflicting_duplicates :: "asset_assertion list \<Rightarrow> unit res" where
  "reject_conflicting_duplicates as =
     (case conflicting_duplicate [] as of
        None \<Rightarrow> Inr ()
      | Some a \<Rightarrow> Inl (ValueError (''one batch cannot contain conflicting assertions for ''
          @ canonical_key (aa_asset a) @ '' at '' @ assertion_type_value (aa_assertion_type a))))"

definition new_InventoryBatch :: "inventory_batch \<Rightarrow> inventory_batch res" where
  "new_InventoryBatch b =
     bind_res (check_all
       (blank_label_checks (header_labels b) @
        [(\<not> tz_aware (bh_collected_at b), ''collected_at must be timezone-aware''),
         (bh_coverage b = [], ''inventory batches must state coverage''),
         (undeclared_planes b \<noteq> [],
          ''assertions use coverage planes the batch did not declare: ''
            @ join '', '' (undeclared_planes b))]) ())
     (\<lambda>_. bind_res (reject_conflicting_duplicates (ib_assets b)) (\<lambda>_. Inr b))"

definition may_withdraw :: "inventory_batch \<Rightarrow> string \<Rightarrow> bool" where
  "may_withdraw b plane =
     (let matches = filter (\<lambda>c. cov_plane c = plane) (bh_coverage b)
      in matches \<noteq> [] \<and> list_all authorizes_withdrawal matches)"

text \<open>\<open>InventoryBatch.empty_complete\<close>: the clock is an argument.\<close>

definition empty_complete ::
    "string \<Rightarrow> string \<Rightarrow> string \<Rightarrow> string \<Rightarrow> string \<Rightarrow> string \<Rightarrow> py_datetime \<Rightarrow> inventory_batch res" where
  "empty_complete connector_id connection_id run_id scope_key plane scope now =
     bind_res (new_Coverage plane COMPLETE scope None) (\<lambda>c. new_InventoryBatch
       \<lparr>bh_connector_id = connector_id, bh_connection_id = connection_id, bh_run_id = run_id,
        bh_scope_key = scope_key, bh_collected_at = now, bh_coverage = [c],
        ib_assets = [], ib_relationships = []\<rparr>)"

section \<open>Facts\<close>

lemma asset_kind_value_inj: "asset_kind_value a = asset_kind_value b \<longleftrightarrow> a = b"
  by (cases a; cases b) simp_all

lemma asset_kind_value_no_colon: "CHR '':'' \<notin> set (asset_kind_value k)"
  by (cases k) simp_all

lemma canonical_key_inj: "canonical_key a = canonical_key b \<longleftrightarrow> a = b"
proof
  assume "canonical_key a = canonical_key b"
  then have "asset_kind_value (ar_kind a) = asset_kind_value (ar_kind b)
      \<and> ar_natural_key a = ar_natural_key b"
    unfolding canonical_key_def
    by (intro append_sep_inj) (simp_all add: asset_kind_value_no_colon)
  then show "a = b" by (simp add: asset_kind_value_inj)
qed simp

lemma category_partition:
  "(\<exists>c. k \<in> set (ASSET_CATEGORY_KINDS c))
    \<and> (k \<in> set (ASSET_CATEGORY_KINDS c) \<longrightarrow> k \<in> set (ASSET_CATEGORY_KINDS d) \<longrightarrow> c = d)"
proof
  show "\<exists>c. k \<in> set (ASSET_CATEGORY_KINDS c)"
  proof (cases "k \<in> set (ASSET_CATEGORY_KINDS CAT_AI)")
    case False
    then have "k \<in> set (ASSET_CATEGORY_KINDS CAT_SUPPORTING) \<or> k \<in> set (ASSET_CATEGORY_KINDS CAT_COMPONENTS)"
      by (cases k) simp_all
    then show ?thesis by blast
  qed blast
  show "k \<in> set (ASSET_CATEGORY_KINDS c) \<longrightarrow> k \<in> set (ASSET_CATEGORY_KINDS d) \<longrightarrow> c = d"
    by (cases c; cases d) auto
qed

lemma new_AssetRef_ok [guard_simps]:
  "new_AssetRef kind nk = Inr a \<longleftrightarrow> a = \<lparr>ar_kind = kind, ar_natural_key = nk\<rparr> \<and> trimmed nk"
  by (auto simp: new_AssetRef_def check_all_Inr trimmed_def)

lemma undeclared_planes_Nil:
  "undeclared_planes b = [] \<longleftrightarrow>
     (\<forall>a \<in> set (ib_assets b). aa_coverage_plane a \<in> declared_planes b)
     \<and> (\<forall>r \<in> set (ib_relationships b). ra_coverage_plane r \<in> declared_planes b)"
  by (auto simp: undeclared_planes_def declared_planes_def filter_empty_conv
      simp flip: set_empty)

lemma may_withdraw_iff:
  "may_withdraw b plane \<longleftrightarrow> plane \<in> declared_planes b
     \<and> (\<forall>c \<in> set (bh_coverage b). cov_plane c = plane \<longrightarrow> cov_state c = COMPLETE)"
  by (auto simp: may_withdraw_def declared_planes_def list_all_iff authorizes_withdrawal_def
      Let_def filter_empty_conv)

text \<open>A batch that was built declares every plane its assertions use.\<close>

lemma new_InventoryBatch_ok:
  assumes "new_InventoryBatch b = Inr b'"
  shows "b' = b" "bh_coverage b \<noteq> []" "tz_aware (bh_collected_at b)"
    "undeclared_planes b = []" "conflicting_duplicate [] (ib_assets b) = None"
  using assms
  by (auto simp: new_InventoryBatch_def guard_simps reject_conflicting_duplicates_def
      split: option.splits)

end
