(* ===== verification/Findings.thy ===== *)
theory Findings
  imports Inventory
begin

text \<open>
  \<open>src/denali/domain/findings.py\<close>: security findings and the batch of one findings source, and
  the interface every batch class shares: when it may close what it did not report again.
\<close>

section \<open>The authority to close\<close>

text \<open>
  Each batch class decides from its coverage whether a record it does not repeat may be
  withdrawn or resolved. Absence is meaningful only under positive, complete coverage.
\<close>

locale closing_authority =
  fixes closes :: "'b \<Rightarrow> bool"
    and relevant_coverage :: "'b \<Rightarrow> coverage list"
  assumes closes_complete: "closes b \<Longrightarrow> c \<in> set (relevant_coverage b) \<Longrightarrow> cov_state c = COMPLETE"
begin

lemma incomplete_never_closes:
  "c \<in> set (relevant_coverage b) \<Longrightarrow> cov_state c \<noteq> COMPLETE \<Longrightarrow> \<not> closes b"
  using closes_complete by blast

lemma closes_states: "closes b \<Longrightarrow> set (map cov_state (relevant_coverage b)) \<subseteq> {COMPLETE}"
  using closes_complete by auto

end

interpretation withdrawal: closing_authority "\<lambda>b. may_withdraw b plane"
    "\<lambda>b. filter (\<lambda>c. cov_plane c = plane) (bh_coverage b)" for plane
  by unfold_locales (auto simp: may_withdraw_iff)

section \<open>Findings\<close>

datatype finding_severity = SEV_UNKNOWN | INFORMATIONAL | LOW | MEDIUM | HIGH | CRITICAL

datatype finding_state = FS_OPEN | FS_RESOLVED | FS_SUPPRESSED | FS_UNKNOWN

datatype evaluation_result = FAIL | PASS | MANUAL | ER_UNKNOWN

record affected_resource =
  res_uid :: string
  res_name :: "string option"
  res_type :: "string option"
  res_provider :: "string option"
  res_account_uid :: "string option"
  res_region :: "string option"

definition new_AffectedResource :: "affected_resource \<Rightarrow> affected_resource res" where
  "new_AffectedResource r = check_all
     [(strip (res_uid r) = [] \<or> res_uid r \<noteq> strip (res_uid r),
       ''affected resource uid must be non-empty and trimmed'')] r"

text \<open>
  The compliance mapping is checked at run time for the types of its keys and values, so both
  are Python values here.
\<close>

record finding_assertion =
  fa_source_uid :: string
  fa_rule_uid :: string
  fa_title :: string
  fa_description :: "string option"
  fa_risk :: "string option"
  fa_remediation :: "string option"
  fa_remediation_references :: "string list"
  fa_severity :: finding_severity
  fa_state :: finding_state
  fa_evaluation_result :: evaluation_result
  fa_class_uid :: int
  fa_class_name :: string
  fa_observed_at :: py_datetime
  fa_evidence :: evidence
  fa_affected_resources :: "affected_resource list"
  fa_compliance :: "(pyval \<times> pyval list) list"
  fa_attributes :: attrs

definition trimmed_str :: "pyval \<Rightarrow> bool" where
  "trimmed_str v = (case v of PStr s \<Rightarrow> trimmed s | _ \<Rightarrow> False)"

definition trimmed_label_checks :: "string \<Rightarrow> string \<Rightarrow> (string \<times> string) list \<Rightarrow> (bool \<times> string) list" where
  "trimmed_label_checks prefix suffix ls =
     map (\<lambda>(label, v). (strip v = [] \<or> v \<noteq> strip v, prefix @ label @ suffix)) ls"

definition compliance_checks :: "(pyval \<times> pyval list) list \<Rightarrow> (bool \<times> string) list" where
  "compliance_checks cs = concat (map (\<lambda>(framework, controls).
     [(\<not> trimmed_str framework, ''compliance framework must be a non-empty trimmed string''),
      (\<not> list_all trimmed_str controls, ''compliance controls must be non-empty trimmed strings''),
      (has_repeat (\<lambda>c. c) controls, ''a finding cannot repeat a compliance control'')]) cs)"

definition new_FindingAssertion :: "finding_assertion \<Rightarrow> finding_assertion res" where
  "new_FindingAssertion f = check_all
     (trimmed_label_checks ''finding '' '' must be non-empty and trimmed''
        [(''source_uid'', fa_source_uid f), (''rule_uid'', fa_rule_uid f), (''title'', fa_title f),
         (''class_name'', fa_class_name f)] @
      [(\<not> (2000 < fa_class_uid f \<and> fa_class_uid f < 3000),
        ''finding class_uid must be in the OCSF Findings category''),
       (\<not> tz_aware (fa_observed_at f), ''finding observed_at must be timezone-aware''),
       (\<not> dt_eq (ev_observed_at (fa_evidence f)) (fa_observed_at f),
        ''finding and evidence observation times must match''),
       (has_repeat res_uid (fa_affected_resources f),
        ''a finding cannot repeat an affected resource uid'')] @
      compliance_checks (fa_compliance f))
     f"

record finding_batch = batch_header +
  fb_findings :: "finding_assertion list"
  fb_authoritative :: bool

definition new_FindingBatch :: "finding_batch \<Rightarrow> finding_batch res" where
  "new_FindingBatch b = check_all
     (blank_label_checks (header_labels b) @
      [(\<not> tz_aware (bh_collected_at b), ''collected_at must be timezone-aware''),
       (bh_coverage b = [], ''finding batches must state coverage''),
       (has_repeat fa_source_uid (fb_findings b),
        ''one finding batch cannot repeat a source_uid'')])
     b"

definition finding_may_resolve_missing :: "finding_batch \<Rightarrow> bool" where
  "finding_may_resolve_missing b \<longleftrightarrow>
     fb_authoritative b \<and> list_all (\<lambda>c. cov_state c = COMPLETE) (bh_coverage b)"

interpretation finding_closure: closing_authority finding_may_resolve_missing bh_coverage
  by unfold_locales (auto simp: finding_may_resolve_missing_def list_all_iff)

section \<open>Facts\<close>

lemma label_checks_ok [guard_simps]:
  "(\<forall>c \<in> set (trimmed_label_checks p s ls). \<not> fst c) \<longleftrightarrow> (\<forall>l \<in> set ls. trimmed (snd l))"
  by (auto simp: trimmed_label_checks_def trimmed_def)

lemma blank_checks_ok [guard_simps]:
  "(\<forall>c \<in> set (blank_label_checks ls). \<not> fst c) \<longleftrightarrow> (\<forall>l \<in> set ls. strip (snd l) \<noteq> [])"
  by (auto simp: blank_label_checks_def)

lemma compliance_checks_ok [guard_simps]:
  "(\<forall>c \<in> set (compliance_checks cs). \<not> fst c) \<longleftrightarrow>
     (\<forall>(fw, ctrls) \<in> set cs. trimmed_str fw \<and> (\<forall>c \<in> set ctrls. trimmed_str c) \<and> distinct ctrls)"
  unfolding compliance_checks_def ball_concat_map by (simp add: has_repeat_iff list_all_iff split_beta)

lemma new_FindingAssertion_ok:
  "new_FindingAssertion f = Inr g \<longleftrightarrow>
     g = f \<and> trimmed (fa_source_uid f) \<and> trimmed (fa_rule_uid f) \<and> trimmed (fa_title f)
     \<and> trimmed (fa_class_name f) \<and> 2000 < fa_class_uid f \<and> fa_class_uid f < 3000
     \<and> tz_aware (fa_observed_at f) \<and> dt_eq (ev_observed_at (fa_evidence f)) (fa_observed_at f)
     \<and> distinct (map res_uid (fa_affected_resources f))
     \<and> (\<forall>(fw, ctrls) \<in> set (fa_compliance f).
          trimmed_str fw \<and> (\<forall>c \<in> set ctrls. trimmed_str c) \<and> distinct ctrls)"
  unfolding new_FindingAssertion_def check_all_Inr set_append ball_Un label_checks_ok
    compliance_checks_ok
  by (auto simp: has_repeat_iff)

lemma new_FindingBatch_ok:
  "new_FindingBatch b = Inr b' \<longleftrightarrow>
     b' = b \<and> strip (bh_connector_id b) \<noteq> [] \<and> strip (bh_connection_id b) \<noteq> []
     \<and> strip (bh_run_id b) \<noteq> [] \<and> strip (bh_scope_key b) \<noteq> [] \<and> tz_aware (bh_collected_at b)
     \<and> bh_coverage b \<noteq> [] \<and> distinct (map fa_source_uid (fb_findings b))"
  unfolding new_FindingBatch_def check_all_Inr set_append ball_Un blank_checks_ok header_labels_def
  by (auto simp: has_repeat_iff)

end
