(* ===== verification/Detection_Domain.thy ===== *)
theory Detection_Domain
  imports Findings
begin

text \<open>
  \<open>src/denali/domain/detections.py\<close>: the snapshot the runtime-detection rules read and the
  candidates and evaluations they return, with the checks of their constructors.
\<close>

record det_entity =
  de_role :: string
  de_external_uid :: string
  de_display_name :: "string option"
  de_asset_id :: "string option"

record det_activity =
  da_id :: string
  da_category :: string
  da_outcome :: string
  da_title :: string
  da_occurred_at :: py_datetime
  da_provider :: "string option"
  da_connection_id :: "string option"
  da_session_key :: "string option"
  da_session_uid :: "string option"
  da_trace_uid :: "string option"
  da_span_uid :: "string option"
  da_parent_span_uid :: "string option"
  da_attributes :: attrs
  da_evidence :: attrs
  da_entities :: "det_entity list"

definition new_DetectionActivity :: "det_activity \<Rightarrow> det_activity res" where
  "new_DetectionActivity a = check_all
     [(\<not> tz_aware (da_occurred_at a), ''detection activity timestamps must be timezone-aware'')] a"

record det_asset =
  dt_id :: string
  dt_kind :: string
  dt_natural_key :: string
  dt_display_name :: string
  dt_governance_status :: string
  dt_lifecycle_state :: string
  dt_attributes :: attrs

record det_snapshot =
  ds_activities :: "det_activity list"
  ds_assets :: "det_asset list"
  ds_truncated :: bool

record det_activity_link =
  dal_activity_id :: string
  dal_role :: string

record det_asset_link =
  dsl_asset_id :: string
  dsl_role :: string

record det_candidate =
  dc_correlation_key :: string
  dc_rule_uid :: string
  dc_title :: string
  dc_description :: string
  dc_risk :: string
  dc_guidance :: string
  dc_severity :: finding_severity
  dc_confidence :: pyfloat
  dc_first_seen_at :: py_datetime
  dc_last_seen_at :: py_datetime
  dc_activities :: "det_activity_link list"
  dc_assets :: "det_asset_link list"
  dc_attributes :: attrs

definition new_RuntimeDetectionCandidate :: "det_candidate \<Rightarrow> det_candidate res" where
  "new_RuntimeDetectionCandidate c = check_all
     [(dc_correlation_key c = [] \<or> dc_rule_uid c = [] \<or> dc_title c = [],
       ''runtime detection identity and title must be non-empty''),
      (\<not> unit_interval (dc_confidence c),
       ''runtime detection confidence must be between zero and one''),
      (\<not> tz_aware (dc_first_seen_at c) \<or> \<not> tz_aware (dc_last_seen_at c),
       ''runtime detection timestamps must be timezone-aware''),
      (instant (dc_last_seen_at c) < instant (dc_first_seen_at c),
       ''runtime detection last_seen_at cannot precede first_seen_at''),
      (has_repeat dal_activity_id (dc_activities c),
       ''a runtime detection cannot repeat an activity'')]
     c"

record det_evaluation =
  dv_rule_uid :: string
  dv_state :: coverage_state
  dv_evaluated_at :: py_datetime
  dv_candidates :: "det_candidate list"
  dv_incomplete :: nat
  dv_detail :: "string option"

definition new_RuntimeDetectionEvaluation :: "det_evaluation \<Rightarrow> det_evaluation res" where
  "new_RuntimeDetectionEvaluation v = check_all
     [(\<not> tz_aware (dv_evaluated_at v), ''runtime detection evaluation time must be timezone-aware''),
      (has_repeat dc_correlation_key (dv_candidates v),
       ''a runtime detection evaluation cannot repeat a correlation key'')]
     v"

section \<open>Facts\<close>

text \<open>What the constructors guarantee of a candidate that exists.\<close>

definition candidate_ok :: "det_candidate \<Rightarrow> bool" where
  "candidate_ok c \<longleftrightarrow> dc_correlation_key c \<noteq> [] \<and> dc_rule_uid c \<noteq> [] \<and> dc_title c \<noteq> []
     \<and> unit_interval (dc_confidence c) \<and> tz_aware (dc_first_seen_at c) \<and> tz_aware (dc_last_seen_at c)
     \<and> instant (dc_first_seen_at c) \<le> instant (dc_last_seen_at c)
     \<and> distinct (map dal_activity_id (dc_activities c))"

lemma new_candidate_iff [guard_simps]:
  "new_RuntimeDetectionCandidate c = Inr d \<longleftrightarrow> d = c \<and> candidate_ok c"
  by (auto simp: new_RuntimeDetectionCandidate_def check_all_Inr candidate_ok_def has_repeat_iff)

lemma new_evaluation_iff [guard_simps]:
  "new_RuntimeDetectionEvaluation v = Inr w \<longleftrightarrow>
     w = v \<and> tz_aware (dv_evaluated_at v) \<and> distinct (map dc_correlation_key (dv_candidates v))"
  by (auto simp: new_RuntimeDetectionEvaluation_def check_all_Inr has_repeat_iff)

text \<open>A snapshot as the repository loads it: activities were constructed, ids are keys.\<close>

definition snapshot_ok :: "det_snapshot \<Rightarrow> bool" where
  "snapshot_ok s \<longleftrightarrow> (\<forall>a \<in> set (ds_activities s). tz_aware (da_occurred_at a))
     \<and> distinct (map da_id (ds_activities s)) \<and> distinct (map dt_id (ds_assets s))"

end
