(* ===== verification/Sha256.thy ===== *)
theory Sha256
  imports Py_Value "HOL-Library.Word"
begin

text \<open>
  \<open>hashlib.sha256(text.encode()).hexdigest()\<close> of the standard library (FIPS 180-4), as an
  executable function on texts. Nothing is proved or assumed about collisions here: a theorem
  that needs distinct digests says so as a hypothesis on the finitely many texts involved.
\<close>

unbundle bit_operations_syntax

type_synonym u32 = "32 word"

definition rotr :: "nat \<Rightarrow> u32 \<Rightarrow> u32" where
  "rotr n x = drop_bit n x OR push_bit (32 - n) x"

definition round_constants :: "u32 list" where
  "round_constants = [1116352408, 1899447441, 3049323471, 3921009573, 961987163, 1508970993, 2453635748, 2870763221,
    3624381080, 310598401, 607225278, 1426881987, 1925078388, 2162078206, 2614888103,
    3248222580, 3835390401, 4022224774, 264347078, 604807628, 770255983, 1249150122, 1555081692,
    1996064986, 2554220882, 2821834349, 2952996808, 3210313671, 3336571891, 3584528711,
    113926993, 338241895, 666307205, 773529912, 1294757372, 1396182291, 1695183700, 1986661051,
    2177026350, 2456956037, 2730485921, 2820302411, 3259730800, 3345764771, 3516065817,
    3600352804, 4094571909, 275423344, 430227734, 506948616, 659060556, 883997877, 958139571,
    1322822218, 1537002063, 1747873779, 1955562222, 2024104815, 2227730452, 2361852424,
    2428436474, 2756734187, 3204031479, 3329325298]"

definition initial_hash :: "u32 list" where
  "initial_hash = [1779033703, 3144134277, 1013904242, 2773480762, 1359893119, 2600822924, 528734635, 1541459225]"

text \<open>The message schedule: 48 words computed from the last 16.\<close>

definition schedule_word :: "u32 list \<Rightarrow> u32" where
  "schedule_word w =
     (let n = length w; a = w ! (n - 16); b = w ! (n - 15); c = w ! (n - 7); d = w ! (n - 2);
          s0 = rotr 7 b XOR rotr 18 b XOR drop_bit 3 b;
          s1 = rotr 17 d XOR rotr 19 d XOR drop_bit 10 d
      in a + s0 + c + s1)"

primrec extend_schedule :: "nat \<Rightarrow> u32 list \<Rightarrow> u32 list" where
  "extend_schedule 0 w = w"
| "extend_schedule (Suc n) w = extend_schedule n (w @ [schedule_word w])"

fun sha_round :: "u32 \<times> u32 \<Rightarrow> u32 list \<Rightarrow> u32 list" where
  "sha_round (k, w) [a, b, c, d, e, f, g, h] =
     (let s1 = rotr 6 e XOR rotr 11 e XOR rotr 25 e;
          ch = (e AND f) XOR (NOT e AND g);
          t1 = h + s1 + ch + k + w;
          s0 = rotr 2 a XOR rotr 13 a XOR rotr 22 a;
          maj = (a AND b) XOR (a AND c) XOR (b AND c);
          t2 = s0 + maj
      in [t1 + t2, a, b, c, d + t1, e, f, g])"
| "sha_round _ st = st"

definition compress :: "u32 list \<Rightarrow> u32 list \<Rightarrow> u32 list" where
  "compress w st =
     map2 (+) st (fold sha_round (zip round_constants (extend_schedule 48 w)) st)"

text \<open>Padding: the bit \<open>1\<close>, zeros, and the length in bits as 64 bits, big-endian.\<close>

definition pad_message :: "int list \<Rightarrow> int list" where
  "pad_message bs =
     (let n = length bs; z = (119 - n mod 64) mod 64
      in bs @ [128] @ replicate z 0 @ map (\<lambda>i. drop_bit (8 * (7 - i)) (8 * int n) mod 256) [0..<8])"

fun be_words :: "int list \<Rightarrow> u32 list" where
  "be_words (a # b # c # d # bs) = of_int (((a * 256 + b) * 256 + c) * 256 + d) # be_words bs"
| "be_words _ = []"

fun digest_blocks :: "u32 list \<Rightarrow> u32 list \<Rightarrow> u32 list" where
  "digest_blocks ws st =
     (if ws = [] then st else digest_blocks (drop 16 ws) (compress (take 16 ws) st))"

declare digest_blocks.simps [simp del]

definition hex_word :: "u32 \<Rightarrow> string" where
  "hex_word w = map (\<lambda>i. hex_digit (nat (drop_bit (4 * (7 - i)) (uint w) mod 16))) [0..<8]"

definition sha256_hex :: "string \<Rightarrow> string" where
  "sha256_hex s =
     concat (map hex_word (digest_blocks (be_words (pad_message (map of_char s))) initial_hash))"

section \<open>Shape of the digest\<close>

lemma sha_round_length: "length st = 8 \<Longrightarrow> length (sha_round kw st) = 8"
  by (induction kw st rule: sha_round.induct) (auto simp: Let_def)

lemma fold_round_length: "length st = 8 \<Longrightarrow> length (fold sha_round kws st) = 8"
  by (induction kws arbitrary: st) (auto simp: sha_round_length)

lemma compress_length: "length st = 8 \<Longrightarrow> length (compress w st) = 8"
  by (simp add: compress_def fold_round_length)

lemma digest_blocks_length: "length st = 8 \<Longrightarrow> length (digest_blocks ws st) = 8"
proof (induction ws st rule: digest_blocks.induct)
  case (1 ws st)
  then show ?case
    by (subst digest_blocks.simps) (simp add: compress_length)
qed

lemma sha256_hex_length [simp]: "length (sha256_hex s) = 64"
proof -
  have "length (digest_blocks ws initial_hash) = 8" for ws
    by (rule digest_blocks_length) (simp add: initial_hash_def)
  moreover have "length (concat (map hex_word ws)) = 8 * length ws" for ws
    by (induction ws) (auto simp: hex_word_def)
  ultimately show ?thesis by (simp add: sha256_hex_def)
qed

lemma sha256_hex_not_Nil [simp]: "sha256_hex s \<noteq> []"
  using sha256_hex_length [of s] by (metis list.size(3) zero_neq_numeral)

end
