(* ===== verification/Detection_Rules.thy ===== *)
theory Detection_Rules
  imports Detection_Domain Sha256
begin

text \<open>
  \<open>src/denali/detections/engine.py\<close>: the six runtime-detection rules, as functions of a snapshot,
  the coverage of the activity planes and the evaluation time. A rule first classifies and groups
  the activities, then drafts one candidate per group or hit, then runs the constructors
  (\<open>finish_evaluation\<close>), which may raise.
\<close>

section \<open>Constants\<close>

definition ENTRA_FAILURE_RULE_UID :: string where
  "ENTRA_FAILURE_RULE_UID = ''DENALI-RUNTIME-ENTRA-FAILURES-001''"
definition ENTRA_CONSENT_RULE_UID :: string where
  "ENTRA_CONSENT_RULE_UID = ''DENALI-RUNTIME-ENTRA-CONSENT-001''"
definition UNREVIEWED_MODEL_RULE_UID :: string where
  "UNREVIEWED_MODEL_RULE_UID = ''DENALI-RUNTIME-UNREVIEWED-MODEL-001''"
definition AWS_UNDECLARED_MODEL_RULE_UID :: string where
  "AWS_UNDECLARED_MODEL_RULE_UID = ''DENALI-RUNTIME-AWS-UNDECLARED-MODEL-001''"
definition AWS_UNAPPROVED_TOOL_RULE_UID :: string where
  "AWS_UNAPPROVED_TOOL_RULE_UID = ''DENALI-RUNTIME-AWS-UNAPPROVED-TOOL-001''"
definition AWS_RISKY_SEQUENCE_RULE_UID :: string where
  "AWS_RISKY_SEQUENCE_RULE_UID = ''DENALI-RUNTIME-AWS-RISKY-SEQUENCE-001''"

definition FAILURE_THRESHOLD :: nat where "FAILURE_THRESHOLD = 3"
definition FAILURE_WINDOW :: int where "FAILURE_WINDOW = 24 * micros_per_hour"
definition AWS_SEQUENCE_WINDOW :: int where "AWS_SEQUENCE_WINDOW = 5 * micros_per_minute"

definition CONSENT_OPERATIONS :: "string list" where
  "CONSENT_OPERATIONS = [''consent to application'', ''add delegated permission grant'',
     ''add app role assignment grant'']"

definition HIGH_IMPACT_SCOPES :: "string list" where
  "HIGH_IMPACT_SCOPES = [''mail.readwrite'', ''mail.readwrite.shared'', ''files.readwrite.all'',
     ''sites.fullcontrol.all'', ''directory.readwrite.all'', ''rolemanagement.readwrite.directory'']"

definition MUTATING_TOOL_TOKENS :: "string list" where
  "MUTATING_TOOL_TOKENS = [''create'', ''delete'', ''execute'', ''invoke'', ''post'', ''publish'',
     ''put'', ''send'', ''update'', ''write'']"

section \<open>Shared helpers\<close>

definition key_of :: "string list \<Rightarrow> string" where
  "key_of parts = sha256_hex (join ''|'' parts)"

abbreviation at_time :: "det_activity \<Rightarrow> int" where
  "at_time a \<equiv> instant (da_occurred_at a)"

definition assets_by_id :: "det_snapshot \<Rightarrow> (string \<times> det_asset) list" where
  "assets_by_id s = dict_of dt_id (ds_assets s)"

definition one_entity :: "det_activity \<Rightarrow> string \<Rightarrow> det_entity option" where
  "one_entity a role = only_one (filter (\<lambda>e. de_role e = role) (da_entities a))"

text \<open>\<open>assets.get(entity.asset_id) if entity else None\<close>.\<close>

definition linked_asset :: "det_snapshot \<Rightarrow> det_entity option \<Rightarrow> det_asset option" where
  "linked_asset s e = (case e of None \<Rightarrow> None
     | Some x \<Rightarrow> (case de_asset_id x of None \<Rightarrow> None | Some i \<Rightarrow> dict_get (assets_by_id s) i))"

definition successful_aws :: "det_activity \<Rightarrow> string \<Rightarrow> bool" where
  "successful_aws a category \<longleftrightarrow> da_provider a = Some ''aws_agentcore''
     \<and> da_category a = category \<and> da_outcome a = ''success''"

definition session_of :: "det_activity \<Rightarrow> string option" where
  "session_of a =
     (case da_session_key a of
        Some (x # s) \<Rightarrow> Some (x # s)
      | _ \<Rightarrow> let runtime_uid = or_else (da_session_uid a) (da_trace_uid a)
           in case (runtime_uid, da_connection_id a) of
                (Some u, Some c) \<Rightarrow> if u \<noteq> [] \<and> c \<noteq> [] then Some (c @ [CHR 0x1F] @ u) else Some u
              | _ \<Rightarrow> runtime_uid)"

text \<open>
  \<open>grouped[session][asset.id] = asset\<close> for the agent entities of every AgentCore activity, then
  the agents of each session sorted by id.
\<close>

definition session_agent_pairs :: "det_snapshot \<Rightarrow> (string \<times> det_asset) list" where
  "session_agent_pairs s = concat (map (\<lambda>a.
     if da_provider a \<noteq> Some ''aws_agentcore'' then []
     else case session_of a of None \<Rightarrow> []
     | Some sess \<Rightarrow> List.map_filter (\<lambda>e.
         case (if de_role e = ''agent'' then linked_asset s (Some e) else None) of
           None \<Rightarrow> None
         | Some x \<Rightarrow> if dt_kind x = ''ai_agent'' then Some (sess, x) else None) (da_entities a))
     (ds_activities s))"

definition agents_by_session :: "det_snapshot \<Rightarrow> (string \<times> det_asset list) list" where
  "agents_by_session s =
     map (\<lambda>(sess, items). (sess, sort_key dt_id (map snd items)))
       (fold (\<lambda>(sess, x) d. AList.map_default sess [(dt_id x, x)] (dict_set (dt_id x) x) d)
          (session_agent_pairs s) [])"

text \<open>\<open>agents_by_session.get(session, ()) if session else ()\<close>.\<close>

definition session_agents :: "det_snapshot \<Rightarrow> string option \<Rightarrow> det_asset list" where
  "session_agents s sess = (case sess of
     None \<Rightarrow> []
   | Some k \<Rightarrow> if k = [] then [] else
       (case dict_get (agents_by_session s) k of None \<Rightarrow> [] | Some xs \<Rightarrow> xs))"

definition str_attr :: "attrs \<Rightarrow> string \<Rightarrow> string option" where
  "str_attr d k = (case map_of d k of Some (PStr s) \<Rightarrow> Some s | _ \<Rightarrow> None)"

text \<open>\<open>(e.display_name or e.external_uid) if e else ""\<close>.\<close>

definition entity_name :: "det_entity \<Rightarrow> string" where
  "entity_name e = or_text (de_display_name e) (de_external_uid e)"

definition tool_operation :: "det_activity \<Rightarrow> string" where
  "tool_operation a =
     (case List.map_filter (\<lambda>k. or_else (str_attr (da_attributes a) k) None)
             [''gen_ai.tool.name'', ''tool.name'', ''aws.operation.name''] of
        v # _ \<Rightarrow> v
      | [] \<Rightarrow> (case one_entity a ''tool'' of None \<Rightarrow> [] | Some e \<Rightarrow> entity_name e))"

definition tool_tokens :: "string \<Rightarrow> string list" where
  "tool_tokens op_text = words_by (\<lambda>c. \<not> (is_lower_letter c \<or> is_digit c)) []
     (replace_char (CHR ''_'') (CHR ''-'') (casefold op_text))"

definition is_mutating_tool :: "det_activity \<Rightarrow> bool" where
  "is_mutating_tool a = list_ex (\<lambda>t. t \<in> set MUTATING_TOOL_TOKENS) (tool_tokens (tool_operation a))"

definition operation_of :: "det_activity \<Rightarrow> string" where
  "operation_of a =
     (case or_else (str_attr (da_attributes a) ''activity_operation'') None of
        Some v \<Rightarrow> v
      | None \<Rightarrow> (case map_of (da_evidence a) ''payload'' of
            Some (PDict d) \<Rightarrow> (case str_attr d ''activityDisplayName'' of Some v \<Rightarrow> v | None \<Rightarrow> [])
          | _ \<Rightarrow> []))"

text \<open>The set of scopes, as a list without duplicates.\<close>

definition scopes_of :: "(pyval \<Rightarrow> string) \<Rightarrow> det_asset \<Rightarrow> string list" where
  "scopes_of str_of x =
     (case map_of (dt_attributes x) ''delegated_scopes'' of
        Some (PStr v) \<Rightarrow> remdups (filter (\<lambda>t. t \<noteq> []) (map strip (split_char (CHR '','') [] v)))
      | Some (PList vs) \<Rightarrow> remdups (filter (\<lambda>t. t \<noteq> []) (map (\<lambda>v. strip (py_str str_of v)) vs))
      | _ \<Rightarrow> [])"

text \<open>What a loop over the activities does with one: skip it, count it as incomplete, or group it.\<close>

datatype 'k verdict = Skip | Incomplete | Keyed 'k

fun verdict_key :: "'k verdict \<Rightarrow> 'k option" where
  "verdict_key (Keyed k) = Some k"
| "verdict_key _ = None"

definition count_incomplete :: "('a \<Rightarrow> 'k verdict) \<Rightarrow> 'a list \<Rightarrow> nat" where
  "count_incomplete f xs = length (filter (\<lambda>x. case f x of Incomplete \<Rightarrow> True | _ \<Rightarrow> False) xs)"

text \<open>The last statement of every rule.\<close>

definition finish_evaluation ::
    "string \<Rightarrow> coverage_state \<Rightarrow> py_datetime \<Rightarrow> det_candidate list \<Rightarrow> nat \<Rightarrow> string \<Rightarrow> det_evaluation res" where
  "finish_evaluation uid cov now drafts incomplete detail_tail =
     bind_res (map_res new_RuntimeDetectionCandidate drafts) (\<lambda>candidates.
       new_RuntimeDetectionEvaluation
         \<lparr>dv_rule_uid = uid, dv_state = cov, dv_evaluated_at = now,
          dv_candidates = sort_key dc_correlation_key candidates, dv_incomplete = incomplete,
          dv_detail = (if incomplete = 0 then None else Some (str_nat incomplete @ detail_tail))\<rparr>)"

section \<open>Repeated failed sign-ins\<close>

text \<open>
  The two-pointer scan over the activities of one actor and application, sorted by time. The
  inner \<open>while\<close> moves \<open>left\<close> while the window is too wide; at \<open>left = right\<close> the width is zero,
  which is the guard \<open>l < r\<close>.
\<close>

function advance :: "('a \<Rightarrow> int) \<Rightarrow> int \<Rightarrow> 'a list \<Rightarrow> nat \<Rightarrow> nat \<Rightarrow> nat" where
  "advance t w xs l r =
     (if l < r \<and> t (xs ! r) - t (xs ! l) > w then advance t w xs (Suc l) r else l)"
  by pat_completeness auto
termination by (relation "measure (\<lambda>(t, w, xs, l, r). r - l)") auto

declare advance.simps [simp del]

definition window_step ::
    "('a \<Rightarrow> int) \<Rightarrow> int \<Rightarrow> 'a list \<Rightarrow> nat \<Rightarrow> nat \<times> 'a list \<Rightarrow> nat \<times> 'a list" where
  "window_step t w xs r st =
     (case st of (left, best) \<Rightarrow>
        let left' = advance t w xs left r; window = drop left' (take (Suc r) xs)
        in (left', if length best < length window then window else best))"

definition best_window :: "('a \<Rightarrow> int) \<Rightarrow> int \<Rightarrow> 'a list \<Rightarrow> 'a list" where
  "best_window t w xs = snd (fold (window_step t w xs) [0..<length xs] (0, []))"

definition failed_signin_verdict ::
    "det_snapshot \<Rightarrow> det_activity \<Rightarrow> (string \<times> string) verdict" where
  "failed_signin_verdict s a =
     (if da_category a \<noteq> ''ai_app_sign_in'' \<or> da_outcome a \<noteq> ''failure'' then Skip
      else case (one_entity a ''actor'', linked_asset s (one_entity a ''application'')) of
             (Some actor, Some app) \<Rightarrow>
               if dt_kind app \<noteq> ''ai_application'' then Incomplete
               else Keyed (casefold (de_external_uid actor), dt_id app)
           | _ \<Rightarrow> Incomplete)"

text \<open>The application asset stored beside a grouped activity.\<close>

definition signin_app :: "det_snapshot \<Rightarrow> det_activity \<Rightarrow> det_asset option" where
  "signin_app s a = linked_asset s (one_entity a ''application'')"

definition failure_groups ::
    "det_snapshot \<Rightarrow> ((string \<times> string) \<times> det_activity list) list" where
  "failure_groups s =
     group_by (\<lambda>a. verdict_key (failed_signin_verdict s a)) (\<lambda>a. a) (ds_activities s)"

definition actor_name_of :: "det_activity \<Rightarrow> string \<Rightarrow> string" where
  "actor_name_of a actor_uid =
     or_text (case one_entity a ''actor'' of Some e \<Rightarrow> de_display_name e | None \<Rightarrow> None) actor_uid"

definition failure_candidate ::
    "string \<times> string \<Rightarrow> det_asset \<Rightarrow> det_activity list \<Rightarrow> det_candidate" where
  "failure_candidate key app best =
     (let actor_name = actor_name_of (last best) (fst key) in
        \<lparr>dc_correlation_key = key_of [ENTRA_FAILURE_RULE_UID, fst key, snd key],
          dc_rule_uid = ENTRA_FAILURE_RULE_UID,
          dc_title = ''Repeated failed access to '' @ dt_display_name app,
          dc_description = actor_name @ '' had '' @ str_nat (length best)
            @ '' failed sign-ins to '' @ dt_display_name app @ '' inside a 24-hour window.'',
          dc_risk = ''Repeated failures can indicate credential misuse, blocked automation, ''
            @ ''or an access path that needs investigation. The failures alone do not ''
            @ ''prove malicious activity.'',
          dc_guidance = ''Review the exact Entra sign-in records, authentication requirements, ''
            @ ''IP and device context retained by Microsoft, and nearby successful ''
            @ ''sign-ins for the same actor and application.'',
          dc_severity = MEDIUM, dc_confidence = f_1_0,
          dc_first_seen_at = da_occurred_at (hd best), dc_last_seen_at = da_occurred_at (last best),
          dc_activities = map (\<lambda>a. \<lparr>dal_activity_id = da_id a, dal_role = ''failed_sign_in''\<rparr>) best,
          dc_assets = [\<lparr>dsl_asset_id = dt_id app, dsl_role = ''ai_application''\<rparr>],
          dc_attributes = [(''actor_uid'', PStr (fst key)), (''actor_display_name'', PStr actor_name),
            (''failure_count'', PInt (int (length best))), (''window_hours'', PInt 24),
            (''threshold'', PInt (int FAILURE_THRESHOLD))]\<rparr>)"

definition failure_draft :: "det_snapshot \<Rightarrow> string \<times> string \<Rightarrow> det_activity list \<Rightarrow> det_candidate list" where
  "failure_draft s key items =
     (let best = best_window at_time FAILURE_WINDOW (sort_key at_time items) in
      if length best < FAILURE_THRESHOLD then []
      else case signin_app s (hd best) of
        None \<Rightarrow> []
      | Some app \<Rightarrow> [failure_candidate key app best])"

definition evaluate_repeated_failed_ai_signins ::
    "det_snapshot \<Rightarrow> coverage_state \<Rightarrow> py_datetime \<Rightarrow> det_evaluation res" where
  "evaluate_repeated_failed_ai_signins s cov now =
     finish_evaluation ENTRA_FAILURE_RULE_UID cov now
       (concat (map (\<lambda>(key, items). failure_draft s key items) (failure_groups s)))
       (count_incomplete (failed_signin_verdict s) (ds_activities s))
       '' failed sign-in observations lacked an exact actor/application link''"

section \<open>Consent to an unreviewed AI application\<close>

definition consent_verdict ::
    "det_snapshot \<Rightarrow> det_activity \<Rightarrow> (string \<times> string \<times> string) verdict" where
  "consent_verdict s a =
     (if da_category a \<noteq> ''admin_change'' \<or> da_outcome a \<noteq> ''success'' then Skip
      else if \<not> list_ex (\<lambda>t. contains t (casefold (operation_of a))) CONSENT_OPERATIONS then Skip
      else case (one_entity a ''actor'', linked_asset s (one_entity a ''application'')) of
             (Some actor, Some app) \<Rightarrow>
               if dt_kind app \<noteq> ''ai_application'' then Incomplete
               else if dt_lifecycle_state app \<noteq> ''active'' \<or> dt_governance_status app \<noteq> ''unreviewed''
                 then Skip
               else Keyed (dt_id app, casefold (de_external_uid actor),
                           or_text (da_trace_uid a) (da_id a))
           | _ \<Rightarrow> Incomplete)"

definition consent_groups ::
    "det_snapshot \<Rightarrow> ((string \<times> string \<times> string) \<times> det_activity list) list" where
  "consent_groups s =
     group_by (\<lambda>a. verdict_key (consent_verdict s a)) (\<lambda>a. a) (ds_activities s)"

definition high_impact_of :: "string list \<Rightarrow> string list" where
  "high_impact_of scopes = sort (filter (\<lambda>t. casefold t \<in> set HIGH_IMPACT_SCOPES) scopes)"

definition consent_candidate ::
    "(pyval \<Rightarrow> string) \<Rightarrow> string \<times> string \<times> string \<Rightarrow> det_asset \<Rightarrow> det_activity list \<Rightarrow> det_candidate" where
  "consent_candidate str_of key app activities =
     (case key of (asset_id, actor_uid, trace) \<Rightarrow>
      let actor_name = actor_name_of (last activities) actor_uid;
          scopes = scopes_of str_of app; high_impact = high_impact_of scopes in
        \<lparr>dc_correlation_key = key_of [ENTRA_CONSENT_RULE_UID, asset_id, actor_uid, trace],
          dc_rule_uid = ENTRA_CONSENT_RULE_UID,
          dc_title = ''Consent changed for unreviewed AI app '' @ dt_display_name app,
          dc_description = actor_name @ '' performed '' @ str_nat (length activities)
            @ '' successful consent or permission change event(s) for unreviewed AI application ''
            @ dt_display_name app @ ''.'',
          dc_risk = ''A newly consented AI application may access tenant data under delegated ''
            @ ''permissions before the organization has approved its use. This detection ''
            @ ''does not claim that the application misused those permissions.'',
          dc_guidance = ''Confirm the business owner and approval status, inspect the exact Microsoft ''
            @ ''audit events, review delegated scopes and verified publisher information, ''
            @ ''and determine whether the grant should remain active.'',
          dc_severity = (if high_impact \<noteq> [] then HIGH else MEDIUM), dc_confidence = f_1_0,
          dc_first_seen_at = da_occurred_at (hd activities),
          dc_last_seen_at = da_occurred_at (last activities),
          dc_activities = map (\<lambda>a. \<lparr>dal_activity_id = da_id a,
            dal_role = ''consent_or_permission_change''\<rparr>) activities,
          dc_assets = [\<lparr>dsl_asset_id = dt_id app, dsl_role = ''unreviewed_ai_application''\<rparr>],
          dc_attributes = [(''actor_uid'', PStr actor_uid), (''actor_display_name'', PStr actor_name),
            (''correlation_id'', PStr trace), (''event_count'', PInt (int (length activities))),
            (''delegated_scopes'', PList (map PStr (sort scopes))),
            (''high_impact_scopes'', PList (map PStr high_impact))]\<rparr>)"

definition consent_draft ::
    "(pyval \<Rightarrow> string) \<Rightarrow> det_snapshot \<Rightarrow> string \<times> string \<times> string \<Rightarrow> det_activity list
     \<Rightarrow> det_candidate list" where
  "consent_draft str_of s key items =
     (case dict_get (assets_by_id s) (fst key) of
        None \<Rightarrow> []
      | Some app \<Rightarrow> [consent_candidate str_of key app (sort_key at_time items)])"

definition evaluate_unreviewed_ai_consent ::
    "(pyval \<Rightarrow> string) \<Rightarrow> det_snapshot \<Rightarrow> coverage_state \<Rightarrow> py_datetime \<Rightarrow> det_evaluation res" where
  "evaluate_unreviewed_ai_consent str_of s cov now =
     finish_evaluation ENTRA_CONSENT_RULE_UID cov now
       (concat (map (\<lambda>(key, items). consent_draft str_of s key items) (consent_groups s)))
       (count_incomplete (consent_verdict s) (ds_activities s))
       '' consent observations lacked an exact actor/application link''"

section \<open>Invocation of an unreviewed model\<close>

definition model_verdict :: "det_snapshot \<Rightarrow> det_activity \<Rightarrow> string verdict" where
  "model_verdict s a =
     (if da_category a \<noteq> ''model_invocation'' \<or> da_outcome a \<noteq> ''success'' then Skip
      else case linked_asset s (one_entity a ''model'') of
             None \<Rightarrow> Incomplete
           | Some model \<Rightarrow>
               if dt_kind model \<noteq> ''ai_model'' then Incomplete
               else if dt_lifecycle_state model \<noteq> ''active'' \<or> dt_governance_status model \<noteq> ''unreviewed''
                 then Skip
               else Keyed (dt_id model))"

definition model_groups :: "det_snapshot \<Rightarrow> (string \<times> det_activity list) list" where
  "model_groups s = group_by (\<lambda>a. verdict_key (model_verdict s a)) (\<lambda>a. a) (ds_activities s)"

abbreviation time_id :: "det_activity \<Rightarrow> int \<times> string" where
  "time_id a \<equiv> (at_time a, da_id a)"

definition actor_names :: "det_activity list \<Rightarrow> string list" where
  "actor_names activities = sort (remdups (concat (map (\<lambda>a.
     map entity_name (filter (\<lambda>e. de_role e = ''actor'') (da_entities a))) activities)))"

definition model_candidate :: "det_asset \<Rightarrow> det_activity list \<Rightarrow> det_candidate" where
  "model_candidate model activities =
        \<lparr>dc_correlation_key = key_of [UNREVIEWED_MODEL_RULE_UID, dt_natural_key model],
          dc_rule_uid = UNREVIEWED_MODEL_RULE_UID,
          dc_title = ''Unreviewed model '' @ dt_display_name model @ '' was invoked'',
          dc_description = ''Runtime telemetry recorded '' @ str_nat (length activities)
            @ '' successful invocation(s) of the exact model '' @ dt_display_name model
            @ '' while its governance status remained unreviewed.'',
          dc_risk = ''An actively used model may process organizational data before model ''
            @ ''ownership, allowed use, retention expectations, and provider terms have ''
            @ ''been reviewed. This detection does not claim the invocation was harmful.'',
          dc_guidance = ''Confirm the workload owner and approved use case, review the linked runtime ''
            @ ''event metadata and execution identity, then approve or reject the model ''
            @ ''through the governance workflow.'',
          dc_severity = MEDIUM, dc_confidence = f_1_0,
          dc_first_seen_at = da_occurred_at (hd activities),
          dc_last_seen_at = da_occurred_at (last activities),
          dc_activities = map (\<lambda>a. \<lparr>dal_activity_id = da_id a,
            dal_role = ''successful_model_invocation''\<rparr>) activities,
          dc_assets = [\<lparr>dsl_asset_id = dt_id model, dsl_role = ''unreviewed_ai_model''\<rparr>],
          dc_attributes = [(''model_natural_key'', PStr (dt_natural_key model)),
            (''invocation_count'', PInt (int (length activities))),
            (''actors'', PList (map PStr (actor_names activities))),
            (''governance_status'', PStr (dt_governance_status model))]\<rparr>"

definition model_draft :: "det_snapshot \<Rightarrow> string \<Rightarrow> det_activity list \<Rightarrow> det_candidate list" where
  "model_draft s model_id items =
     (case dict_get (assets_by_id s) model_id of
        None \<Rightarrow> []
      | Some model \<Rightarrow> [model_candidate model (sort_key time_id items)])"

definition evaluate_unreviewed_model_invocation ::
    "det_snapshot \<Rightarrow> coverage_state \<Rightarrow> py_datetime \<Rightarrow> det_evaluation res" where
  "evaluate_unreviewed_model_invocation s cov now =
     finish_evaluation UNREVIEWED_MODEL_RULE_UID cov now
       (concat (map (\<lambda>(key, items). model_draft s key items) (model_groups s)))
       (count_incomplete (model_verdict s) (ds_activities s))
       '' model invocation observations lacked one exact model asset link''"

section \<open>Undeclared model in an AgentCore session\<close>

definition undeclared_verdict :: "det_snapshot \<Rightarrow> det_activity \<Rightarrow> (string \<times> string) verdict" where
  "undeclared_verdict s a =
     (if \<not> successful_aws a ''model_invocation'' then Skip
      else case (linked_asset s (one_entity a ''model''), session_agents s (session_of a)) of
             (Some model, [agent]) \<Rightarrow>
               if dt_kind model \<noteq> ''ai_model'' then Incomplete
               else if truthy (attr_get (dt_attributes model) ''_denali_declared'') then Skip
               else Keyed (dt_id agent, dt_id model)
           | _ \<Rightarrow> Incomplete)"

definition undeclared_groups ::
    "det_snapshot \<Rightarrow> ((string \<times> string) \<times> det_activity list) list" where
  "undeclared_groups s =
     group_by (\<lambda>a. verdict_key (undeclared_verdict s a)) (\<lambda>a. a) (ds_activities s)"

definition undeclared_candidate :: "det_asset \<Rightarrow> det_asset \<Rightarrow> det_activity list \<Rightarrow> det_candidate" where
  "undeclared_candidate agent model activities =
        \<lparr>dc_correlation_key =
            key_of [AWS_UNDECLARED_MODEL_RULE_UID, dt_natural_key agent, dt_natural_key model],
          dc_rule_uid = AWS_UNDECLARED_MODEL_RULE_UID,
          dc_title = dt_display_name agent @ '' invoked undeclared model '' @ dt_display_name model,
          dc_description = ''AWS AgentCore telemetry recorded '' @ str_nat (length activities)
            @ '' successful invocation(s) of '' @ dt_display_name model
            @ '', but Denali has no active declared assertion for that exact model.'',
          dc_risk = ''Runtime model use that is absent from reviewed configuration can change data ''
            @ ''handling, cost, residency, and model-risk assumptions. This is evidence of ''
            @ ''configuration drift, not evidence of malicious use.'',
          dc_guidance = ''Review the ordered session evidence, confirm the intended model and agent ''
            @ ''version, then update the reviewed declaration or remove the unexpected path.'',
          dc_severity = HIGH, dc_confidence = f_1_0,
          dc_first_seen_at = da_occurred_at (hd activities),
          dc_last_seen_at = da_occurred_at (last activities),
          dc_activities = map (\<lambda>a. \<lparr>dal_activity_id = da_id a,
            dal_role = ''undeclared_model_invocation''\<rparr>) activities,
          dc_assets = [\<lparr>dsl_asset_id = dt_id agent, dsl_role = ''executing_agent''\<rparr>,
            \<lparr>dsl_asset_id = dt_id model, dsl_role = ''undeclared_model''\<rparr>],
          dc_attributes = [(''agent_natural_key'', PStr (dt_natural_key agent)),
            (''model_natural_key'', PStr (dt_natural_key model)),
            (''invocation_count'', PInt (int (length activities))),
            (''content_policy'', PStr ''metadata_only'')]\<rparr>"

definition undeclared_draft ::
    "det_snapshot \<Rightarrow> string \<times> string \<Rightarrow> det_activity list \<Rightarrow> det_candidate list" where
  "undeclared_draft s key items =
     (case (dict_get (assets_by_id s) (fst key), dict_get (assets_by_id s) (snd key)) of
        (Some agent, Some model) \<Rightarrow> [undeclared_candidate agent model (sort_key time_id items)]
      | _ \<Rightarrow> [])"

definition evaluate_aws_undeclared_model_invocation ::
    "det_snapshot \<Rightarrow> coverage_state \<Rightarrow> py_datetime \<Rightarrow> det_evaluation res" where
  "evaluate_aws_undeclared_model_invocation s cov now =
     finish_evaluation AWS_UNDECLARED_MODEL_RULE_UID cov now
       (concat (map (\<lambda>(key, items). undeclared_draft s key items) (undeclared_groups s)))
       (count_incomplete (undeclared_verdict s) (ds_activities s))
       '' AWS model observations lacked one exact agent/model correlation''"

section \<open>Unapproved tool in an AgentCore session\<close>

definition tool_verdict ::
    "det_snapshot \<Rightarrow> coverage_state \<Rightarrow> det_activity \<Rightarrow> (det_asset \<times> det_asset option) verdict" where
  "tool_verdict s cov a =
     (if \<not> successful_aws a ''tool_invocation'' then Skip
      else let tool = linked_asset s (one_entity a ''tool'') in
        case session_agents s (session_of a) of
          [agent] \<Rightarrow>
            (case tool of
               Some x \<Rightarrow> if dt_kind x \<noteq> ''ai_tool'' then Incomplete
                        else if dt_governance_status x = ''approved'' then Skip
                        else Keyed (agent, Some x)
             | None \<Rightarrow> if cov \<noteq> COMPLETE then Incomplete else Keyed (agent, None))
        | _ \<Rightarrow> Incomplete)"

definition tool_candidate :: "det_activity \<Rightarrow> det_asset \<times> det_asset option \<Rightarrow> det_candidate" where
  "tool_candidate a key =
     (case key of (agent, tool) \<Rightarrow>
      let tool_entity = one_entity a ''tool'';
          tool_uid = (case tool of Some x \<Rightarrow> dt_natural_key x
            | None \<Rightarrow> (case tool_entity of Some e \<Rightarrow> de_external_uid e | None \<Rightarrow> ''unknown''));
          tool_name = (case tool of Some x \<Rightarrow> dt_display_name x
            | None \<Rightarrow> (case tool_entity of Some e \<Rightarrow> entity_name e | None \<Rightarrow> ''unknown tool'')) in
      \<lparr>dc_correlation_key =
         key_of [AWS_UNAPPROVED_TOOL_RULE_UID, dt_natural_key agent, tool_uid, da_id a],
       dc_rule_uid = AWS_UNAPPROVED_TOOL_RULE_UID,
       dc_title = dt_display_name agent @ '' invoked unapproved tool '' @ tool_name,
       dc_description = ''Provider-native AgentCore telemetry recorded a successful tool execution, ''
         @ ''but the exact tool is not approved in Denali.'',
       dc_risk = ''An unapproved tool path can give an agent access to actions or data outside ''
         @ ''its reviewed operating boundary. An unresolved tool identity means the ''
         @ ''runtime name could not be joined to complete inventory, not that Denali ''
         @ ''invented an asset.'',
       dc_guidance = ''Inspect the linked session, agent version, execution identity, tool target, ''
         @ ''and adjacent calls. Approve the exact tool only after confirming intended use.'',
       dc_severity = HIGH, dc_confidence = (if tool \<noteq> None then f_1_0 else f_0_8),
       dc_first_seen_at = da_occurred_at a, dc_last_seen_at = da_occurred_at a,
       dc_activities = [\<lparr>dal_activity_id = da_id a, dal_role = ''unapproved_tool_invocation''\<rparr>],
       dc_assets = \<lparr>dsl_asset_id = dt_id agent, dsl_role = ''executing_agent''\<rparr> #
         (case tool of Some x \<Rightarrow> [\<lparr>dsl_asset_id = dt_id x, dsl_role = ''unapproved_tool''\<rparr>] | None \<Rightarrow> []),
       dc_attributes = [(''agent_natural_key'', PStr (dt_natural_key agent)),
         (''tool_natural_key'', (case tool of Some x \<Rightarrow> PStr (dt_natural_key x) | None \<Rightarrow> PNone)),
         (''observed_tool_uid'', PStr tool_uid), (''inventory_linked'', PBool (tool \<noteq> None)),
         (''content_policy'', PStr ''metadata_only'')]\<rparr>)"

definition tool_drafts :: "det_snapshot \<Rightarrow> coverage_state \<Rightarrow> det_candidate list" where
  "tool_drafts s cov = List.map_filter (\<lambda>a.
     map_option (tool_candidate a) (verdict_key (tool_verdict s cov a))) (ds_activities s)"

definition evaluate_aws_unapproved_tool_invocation ::
    "det_snapshot \<Rightarrow> coverage_state \<Rightarrow> py_datetime \<Rightarrow> det_evaluation res" where
  "evaluate_aws_unapproved_tool_invocation s cov now =
     finish_evaluation AWS_UNAPPROVED_TOOL_RULE_UID cov now (tool_drafts s cov)
       (count_incomplete (tool_verdict s cov) (ds_activities s))
       '' AWS tool observations lacked complete correlation evidence''"

section \<open>Retrieval followed by a mutating tool\<close>

definition sequence_sessions :: "det_snapshot \<Rightarrow> (string \<times> det_activity list) list" where
  "sequence_sessions s = group_by (\<lambda>a. case session_of a of
       Some k \<Rightarrow> if k \<noteq> [] \<and> da_provider a = Some ''aws_agentcore'' then Some k else None
     | None \<Rightarrow> None) (\<lambda>a. a) (ds_activities s)"

text \<open>One pass over a sorted session: the retrievals seen so far, and a hit for each mutating call
  with a retrieval in the window, paired with the last such retrieval.\<close>

fun sequence_hits ::
    "det_activity list \<Rightarrow> det_activity list \<Rightarrow> (det_activity \<times> det_activity) list" where
  "sequence_hits retrievals [] = []"
| "sequence_hits retrievals (a # as) =
     (if da_category a = ''retrieval'' \<and> da_outcome a \<noteq> ''failure''
        then sequence_hits (retrievals @ [a]) as
      else if \<not> successful_aws a ''tool_invocation'' \<or> \<not> is_mutating_tool a
        then sequence_hits retrievals as
      else let eligible = filter (\<lambda>r. 0 \<le> at_time a - at_time r
                 \<and> at_time a - at_time r \<le> AWS_SEQUENCE_WINDOW) retrievals
        in if eligible = [] then sequence_hits retrievals as
           else (last eligible, a) # sequence_hits retrievals as)"

definition sequence_candidate ::
    "det_snapshot \<Rightarrow> string \<Rightarrow> det_asset \<Rightarrow> det_activity \<times> det_activity \<Rightarrow> det_candidate" where
  "sequence_candidate s session agent hit =
     (case hit of (retrieval, a) \<Rightarrow>
      let tool = linked_asset s (one_entity a ''tool'') in
      \<lparr>dc_correlation_key = key_of [AWS_RISKY_SEQUENCE_RULE_UID, session, da_id retrieval, da_id a],
       dc_rule_uid = AWS_RISKY_SEQUENCE_RULE_UID,
       dc_title = dt_display_name agent @ '' retrieved data then invoked a mutating tool'',
       dc_description = ''An ordered AgentCore session shows retrieval followed within five ''
         @ ''minutes by a successful mutation-like tool call.'',
       dc_risk = ''This sequence can move retrieved or sensitive context into a consequential ''
         @ ''action. Metadata establishes ordering only; Denali intentionally does not ''
         @ ''collect prompt, response, document, argument, or result content.'',
       dc_guidance = ''Review the exact span order, execution identity, tool target, agent release, ''
         @ ''and the provider-side content under your existing access controls.'',
       dc_severity = HIGH, dc_confidence = f_0_9,
       dc_first_seen_at = da_occurred_at retrieval, dc_last_seen_at = da_occurred_at a,
       dc_activities = [\<lparr>dal_activity_id = da_id retrieval, dal_role = ''preceding_retrieval''\<rparr>,
         \<lparr>dal_activity_id = da_id a, dal_role = ''subsequent_mutating_tool''\<rparr>],
       dc_assets = \<lparr>dsl_asset_id = dt_id agent, dsl_role = ''executing_agent''\<rparr> #
         (case tool of Some x \<Rightarrow> [\<lparr>dsl_asset_id = dt_id x, dsl_role = ''mutation_tool''\<rparr>] | None \<Rightarrow> []),
       dc_attributes = [(''session_uid_hash'', PStr (key_of [''aws-session'', session])),
         (''elapsed_ms'', PInt (elapsed_millis (at_time a - at_time retrieval))),
         (''tool_operation'', PStr (tool_operation a)),
         (''content_policy'', PStr ''metadata_only'')]\<rparr>)"

definition session_hits ::
    "det_snapshot \<Rightarrow> string \<times> det_activity list \<Rightarrow> (string \<times> det_asset \<times> det_activity \<times> det_activity) list" where
  "session_hits s entry =
     (case entry of (session, items) \<Rightarrow>
      (case session_agents s (Some session) of
         [agent] \<Rightarrow> map (\<lambda>hit. (session, agent, hit)) (sequence_hits [] (sort_key time_id items))
       | _ \<Rightarrow> []))"

definition sequence_drafts :: "det_snapshot \<Rightarrow> det_candidate list" where
  "sequence_drafts s = map (\<lambda>(session, agent, hit). sequence_candidate s session agent hit)
     (concat (map (session_hits s) (sequence_sessions s)))"

definition evaluate_aws_risky_action_sequence ::
    "det_snapshot \<Rightarrow> coverage_state \<Rightarrow> py_datetime \<Rightarrow> det_evaluation res" where
  "evaluate_aws_risky_action_sequence s cov now =
     finish_evaluation AWS_RISKY_SEQUENCE_RULE_UID cov now (sequence_drafts s)
       (length (filter (\<lambda>(session, _). length (session_agents s (Some session)) \<noteq> 1)
          (sequence_sessions s)))
       '' AWS sessions lacked one exact agent correlation''"

end
