(* ===== verification/Detection_Facts.thy ===== *)
theory Detection_Facts
  imports Detection_Rules
begin

text \<open>
  What the runtime-detection rules guarantee: the sliding window finds a longest burst, every
  rule meets one contract (the locale \<open>evidence_rule\<close>: candidates are grounded in the snapshot,
  the constructors cannot fail but for a repeated correlation key), and the exact evidence
  thresholds of the failure and the sequence rule.
\<close>

section \<open>The sliding window\<close>

lemma advance_spec:
  assumes "l \<le> r" and "0 \<le> w"
  shows "l \<le> advance t w xs l r \<and> advance t w xs l r \<le> r
    \<and> t (xs ! r) - t (xs ! advance t w xs l r) \<le> w
    \<and> (\<forall>i. l \<le> i \<and> i < advance t w xs l r \<longrightarrow> w < t (xs ! r) - t (xs ! i))"
  using assms
proof (induction t w xs l r rule: advance.induct)
  case (1 t w xs l r)
  show ?case
  proof (cases "l < r \<and> w < t (xs ! r) - t (xs ! l)")
    case True
    then have "advance t w xs l r = advance t w xs (Suc l) r"
      by (simp add: advance.simps [of t w xs l r])
    moreover have "Suc l \<le> advance t w xs (Suc l) r \<and> advance t w xs (Suc l) r \<le> r
      \<and> t (xs ! r) - t (xs ! advance t w xs (Suc l) r) \<le> w
      \<and> (\<forall>i. Suc l \<le> i \<and> i < advance t w xs (Suc l) r \<longrightarrow> w < t (xs ! r) - t (xs ! i))"
      using "1.IH" "1.prems" True by simp
    ultimately show ?thesis using True by (metis Suc_leD Suc_leI le_neq_implies_less)
  next
    case False
    then have "advance t w xs l r = l" by (auto simp: advance.simps [of t w xs l r])
    moreover have "t (xs ! r) - t (xs ! l) \<le> w" using False "1.prems" by (cases "l = r") auto
    ultimately show ?thesis using "1.prems" by auto
  qed
qed

text \<open>The state of the scan after the first \<open>k\<close> activities.\<close>

definition window_inv :: "('a \<Rightarrow> int) \<Rightarrow> int \<Rightarrow> 'a list \<Rightarrow> nat \<Rightarrow> nat \<times> 'a list \<Rightarrow> bool" where
  "window_inv t w xs k st \<longleftrightarrow>
     (case st of (left, best) \<Rightarrow>
        left \<le> k \<and> (\<forall>i < left. 0 < k \<and> w < t (xs ! (k - 1)) - t (xs ! i))
        \<and> (best = [] \<longleftrightarrow> k = 0)
        \<and> (best \<noteq> [] \<longrightarrow> (\<exists>l r. l \<le> r \<and> r < k \<and> best = drop l (take (Suc r) xs)
              \<and> t (xs ! r) - t (xs ! l) \<le> w))
        \<and> (\<forall>i j. i \<le> j \<and> j < k \<and> t (xs ! j) - t (xs ! i) \<le> w \<longrightarrow> Suc j - i \<le> length best))"

lemma window_inv_step:
  assumes inv: "window_inv t w xs k st" and k: "k < length xs"
    and so: "sorted (map t xs)" and w: "0 \<le> w"
  shows "window_inv t w xs (Suc k) (window_step t w xs k st)"
proof -
  obtain left best where st: "st = (left, best)" by (cases st)
  define l' where "l' = advance t w xs left k"
  define win where "win = drop l' (take (Suc k) xs)"
  have left: "left \<le> k" using inv st by (simp add: window_inv_def)
  have adv: "left \<le> l'" "l' \<le> k" "t (xs ! k) - t (xs ! l') \<le> w"
    "\<And>i. left \<le> i \<Longrightarrow> i < l' \<Longrightarrow> w < t (xs ! k) - t (xs ! i)"
    using advance_spec [OF left w, of t xs] by (auto simp: l'_def)
  have low: "w < t (xs ! k) - t (xs ! i)" if "i < l'" for i
  proof (cases "left \<le> i")
    case True
    then show ?thesis using adv(4) that by simp
  next
    case False
    then have "0 < k \<and> w < t (xs ! (k - 1)) - t (xs ! i)"
      using inv st by (auto simp: window_inv_def)
    moreover have "t (xs ! (k - 1)) \<le> t (xs ! k)"
      using so k by (intro sorted_nth_mono_key) auto
    ultimately show ?thesis by simp
  qed
  have lwin: "length win = Suc k - l'" using k by (simp add: win_def)
  have step: "window_step t w xs k st = (l', if length best < length win then win else best)"
    by (simp add: window_step_def st l'_def win_def Let_def)
  let ?b = "if length best < length win then win else best"
  have nonempty: "?b \<noteq> []" using lwin adv(2) by auto
  have slice: "\<exists>l r. l \<le> r \<and> r < Suc k \<and> ?b = drop l (take (Suc r) xs) \<and> t (xs ! r) - t (xs ! l) \<le> w"
  proof (cases "length best < length win")
    case True
    then show ?thesis using adv(2,3) win_def by auto
  next
    case False
    then show ?thesis using inv st lwin adv(2) nonempty by (auto simp: window_inv_def less_Suc_eq)
  qed
  have longest: "Suc j - i \<le> length ?b"
    if ij: "i \<le> j" "j < Suc k" "t (xs ! j) - t (xs ! i) \<le> w" for i j
  proof (cases "j = k")
    case True
    then have "l' \<le> i" using low ij by (metis not_le)
    then show ?thesis using True lwin by auto
  next
    case False
    then have "Suc j - i \<le> length best" using inv st ij by (auto simp: window_inv_def)
    then show ?thesis by auto
  qed
  show ?thesis
    unfolding step window_inv_def using adv(2) low nonempty slice longest by auto
qed

lemma window_inv_final:
  assumes "sorted (map t xs)" and "0 \<le> w" and "k \<le> length xs"
  shows "window_inv t w xs k (fold (window_step t w xs) [0..<k] (0, []))"
  using assms(3)
proof (induction k)
  case 0
  then show ?case by (simp add: window_inv_def)
next
  case (Suc k)
  then show ?case using window_inv_step [OF _ _ assms(1,2)] by simp
qed

lemma best_window_slice:
  assumes "sorted (map t xs)" and "0 \<le> w" and "xs \<noteq> []"
  obtains l r where "l \<le> r" "r < length xs" "best_window t w xs = drop l (take (Suc r) xs)"
    "t (xs ! r) - t (xs ! l) \<le> w"
  using window_inv_final [OF assms(1,2), of "length xs"] assms(3)
  by (auto simp: window_inv_def best_window_def split: prod.splits)

lemma best_window_longest:
  assumes "sorted (map t xs)" and "0 \<le> w" and "i \<le> j" and "j < length xs"
    and "t (xs ! j) - t (xs ! i) \<le> w"
  shows "Suc j - i \<le> length (best_window t w xs)"
proof -
  obtain left where "fold (window_step t w xs) [0..<length xs] (0, []) = (left, best_window t w xs)"
    unfolding best_window_def by (metis prod.collapse)
  with window_inv_final [OF assms(1,2), of "length xs"] assms(3-5) show ?thesis
    by (auto simp: window_inv_def)
qed

lemma best_window_Nil [simp]: "best_window t w [] = []"
  by (simp add: best_window_def)

text \<open>The window as a sorted sublist of close elements.\<close>

lemma best_window_props:
  assumes so: "sorted (map t xs)" and w: "0 \<le> w"
  shows "set (best_window t w xs) \<subseteq> set xs" "sorted (map t (best_window t w xs))"
    "\<And>x y. x \<in> set (best_window t w xs) \<Longrightarrow> y \<in> set (best_window t w xs) \<Longrightarrow> t x - t y \<le> w"
    "distinct (map f xs) \<Longrightarrow> distinct (map f (best_window t w xs))"
proof -
  have "set (best_window t w xs) \<subseteq> set xs \<and> sorted (map t (best_window t w xs))
    \<and> (\<forall>x \<in> set (best_window t w xs). \<forall>y \<in> set (best_window t w xs). t x - t y \<le> w)
    \<and> (distinct (map f xs) \<longrightarrow> distinct (map f (best_window t w xs)))"
  proof (cases "xs = []")
    case False
    obtain l r where lr: "l \<le> r" "r < length xs" and bw: "best_window t w xs = drop l (take (Suc r) xs)"
      and d: "t (xs ! r) - t (xs ! l) \<le> w"
      using best_window_slice [OF so w False] by blast
    have close: "t x - t y \<le> w"
      if x: "x \<in> set (drop l (take (Suc r) xs))" and y: "y \<in> set (drop l (take (Suc r) xs))" for x y
    proof -
      have idx: "\<exists>i. l \<le> i \<and> i \<le> r \<and> z = xs ! i" if "z \<in> set (drop l (take (Suc r) xs))" for z
      proof -
        from that obtain j where "j < length (drop l (take (Suc r) xs))"
          and "z = drop l (take (Suc r) xs) ! j"
          by (metis in_set_conv_nth)
        then show ?thesis using lr by (intro exI [of _ "l + j"]) auto
      qed
      obtain i j where "l \<le> i" "i \<le> r" "x = xs ! i" "l \<le> j" "j \<le> r" "y = xs ! j"
        using idx x y by meson
      then have "t x \<le> t (xs ! r)" "t (xs ! l) \<le> t y"
        using sorted_nth_mono_key [OF so] lr by auto
      with d show ?thesis by simp
    qed
    have sd: "sorted (map t (drop l (take (Suc r) xs)))"
      using so by (metis drop_map sorted_wrt_drop sorted_wrt_take take_map)
    have dd: "distinct (map f (drop l (take (Suc r) xs)))" if "distinct (map f xs)"
      using that by (metis distinct_drop distinct_take drop_map take_map)
    show ?thesis
      unfolding bw using close sd dd by (meson in_set_dropD in_set_takeD subsetI)
  qed simp
  then show "set (best_window t w xs) \<subseteq> set xs" "sorted (map t (best_window t w xs))"
    "\<And>x y. x \<in> set (best_window t w xs) \<Longrightarrow> y \<in> set (best_window t w xs) \<Longrightarrow> t x - t y \<le> w"
    "distinct (map f xs) \<Longrightarrow> distinct (map f (best_window t w xs))"
    by auto
qed

text \<open>Any set of activities that fits in the window is no larger than the best one.\<close>

lemma close_set_le_best:
  assumes so: "sorted (map t xs)" and w: "0 \<le> w" and d: "distinct xs"
    and S: "S \<subseteq> set xs" and close: "\<forall>x \<in> S. \<forall>y \<in> S. t x - t y \<le> w"
  shows "card S \<le> length (best_window t w xs)"
proof (cases "S = {}")
  case False
  define I where "I = {i. i < length xs \<and> xs ! i \<in> S}"
  have fin: "finite I" by (simp add: I_def)
  have SI: "S = (!) xs ` I"
    using S by (auto simp: I_def in_set_conv_nth subset_iff image_iff)
  have "I \<noteq> {}" using False SI by auto
  then have mm: "Min I \<in> I" "Max I \<in> I" using fin by auto
  have "card S \<le> card I" unfolding SI by (rule card_image_le [OF fin])
  also have "\<dots> \<le> card {Min I..Max I}" by (rule card_mono) (use fin in auto)
  also have "\<dots> = Suc (Max I) - Min I" by simp
  also have "\<dots> \<le> length (best_window t w xs)"
  proof (rule best_window_longest [OF so w])
    show "Min I \<le> Max I" using mm fin by (simp add: Min_le)
    show "Max I < length xs" using mm(2) by (simp add: I_def)
    show "t (xs ! Max I) - t (xs ! Min I) \<le> w" using close mm by (simp add: I_def)
  qed
  finally show ?thesis .
qed simp


section \<open>Linked assets and session agents\<close>

lemma dict_get_asset: "dict_get (assets_by_id s) i = Some x \<Longrightarrow> x \<in> set (ds_assets s) \<and> dt_id x = i"
  unfolding assets_by_id_def by (rule dict_of_SomeD)

lemma linked_asset_SomeD: "linked_asset s e = Some x \<Longrightarrow> x \<in> set (ds_assets s)"
  by (auto simp: linked_asset_def dest: dict_get_asset split: option.splits)

lemma linked_asset_get: "linked_asset s e = Some x \<Longrightarrow> dict_get (assets_by_id s) (dt_id x) = Some x"
  by (auto simp: linked_asset_def split: option.splits) (metis dict_get_asset)+

lemma session_agent_pairs_link:
  "(k, x) \<in> set (session_agent_pairs s) \<longleftrightarrow>
     (\<exists>a \<in> set (ds_activities s). da_provider a = Some ''aws_agentcore'' \<and> session_of a = Some k
        \<and> (\<exists>e \<in> set (da_entities a). de_role e = ''agent'' \<and> linked_asset s (Some e) = Some x
             \<and> dt_kind x = ''ai_agent''))"
  unfolding session_agent_pairs_def
  by (auto simp: map_filter_def split: option.splits if_splits) (force split: if_splits)+

lemma nested_fold_get:
  "map_of (fold (\<lambda>(k, x) d. AList.map_default k [(f x, x)] (dict_set (f x) x) d) ps d0) k =
     (let xs = map snd (filter (\<lambda>p. fst p = k) ps)
      in case map_of d0 k of
           None \<Rightarrow> if xs = [] then None else Some (dict_of f xs)
         | Some d \<Rightarrow> Some (fold (\<lambda>x d. dict_set (f x) x d) xs d))"
proof (induction ps arbitrary: d0)
  case Nil
  then show ?case by (simp split: option.splits)
next
  case (Cons p ps)
  obtain k' x where p: "p = (k', x)" by (cases p)
  show ?case
    by (cases "k' = k") (auto simp: p Cons dict_simps Let_def dict_of_def split: option.splits)
qed

definition agents_in :: "det_snapshot \<Rightarrow> string \<Rightarrow> det_asset set" where
  "agents_in s k = {x. (k, x) \<in> set (session_agent_pairs s)}"

lemma dict_of_vals:
  assumes "inj_on f (set xs)"
  shows "set (map snd (dict_of f xs)) = set xs"
proof
  show "set (map snd (dict_of f xs)) \<subseteq> set xs"
  proof
    fix x assume "x \<in> set (map snd (dict_of f xs))"
    then obtain i where "(i, x) \<in> set (dict_of f xs)" by auto
    then have "dict_get (dict_of f xs) i = Some x" by (simp add: distinct_dict_of)
    then show "x \<in> set xs" using dict_of_SomeD by metis
  qed
  show "set xs \<subseteq> set (map snd (dict_of f xs))"
  proof
    fix x assume x: "x \<in> set xs"
    then obtain y where y: "dict_get (dict_of f xs) (f x) = Some y"
      using dict_of_None_iff [of f xs "f x"] by (metis imageI not_None_eq)
    then have "y \<in> set xs \<and> f y = f x" by (rule dict_of_SomeD)
    then have "y = x" using assms x by (meson inj_onD)
    with y have "(f x, x) \<in> set (dict_of f xs)" by (simp add: map_of_SomeD)
    then show "x \<in> set (map snd (dict_of f xs))" by force
  qed
qed

lemma dict_of_vals_distinct:
  assumes "inj_on f (set xs)"
  shows "distinct (map snd (dict_of f xs))"
proof -
  have "fst p = f (snd p)" if "p \<in> set (dict_of f xs)" for p
    using that dict_of_SomeD [of f xs "fst p" "snd p"] by (simp add: distinct_dict_of)
  then have "map fst (dict_of f xs) = map f (map snd (dict_of f xs))" by simp
  then show ?thesis using distinct_dict_of [of f xs] by (metis distinct_map)
qed

lemma agents_inD: "x \<in> agents_in s k \<Longrightarrow> dict_get (assets_by_id s) (dt_id x) = Some x"
  by (auto simp: agents_in_def session_agent_pairs_link intro: linked_asset_get)

lemma agents_in_inj: "inj_on dt_id (agents_in s k)"
proof (rule inj_onI)
  fix x y assume x: "x \<in> agents_in s k" and y: "y \<in> agents_in s k" and eq: "dt_id x = dt_id y"
  have "dict_get (assets_by_id s) (dt_id y) = Some x" using agents_inD [OF x] unfolding eq .
  then have "Some x = Some y" unfolding agents_inD [OF y] by (rule sym)
  then show "x = y" by (rule option.inject [THEN iffD1])
qed

lemma session_agents_spec:
  "session_agents s (Some k) =
     (if k = [] \<or> agents_in s k = {} then []
      else sort_key dt_id (map snd (dict_of dt_id
             (map snd (filter (\<lambda>p. fst p = k) (session_agent_pairs s))))))"
proof -
  have e: "agents_in s k = set (map snd (filter (\<lambda>p. fst p = k) (session_agent_pairs s)))"
    by (force simp: agents_in_def)
  have m: "map_of (map (\<lambda>(a, b). (a, f b)) d) k = map_option f (map_of d k)" for f d
    by (induction d) auto
  have "session_agents s (Some k) =
      (if k = [] then [] else case map_of (agents_by_session s) k of None \<Rightarrow> [] | Some xs \<Rightarrow> xs)"
    by (simp add: session_agents_def)
  then show ?thesis
    unfolding agents_by_session_def m nested_fold_get e by (auto simp: Let_def filter_empty_conv)
qed

lemma session_agents_set:
  "set (session_agents s (Some k)) = (if k = [] then {} else agents_in s k)"
  "distinct (session_agents s (Some k))"
proof -
  let ?xs = "map snd (filter (\<lambda>p. fst p = k) (session_agent_pairs s))"
  have e: "agents_in s k = set ?xs" by (force simp: agents_in_def)
  have inj: "inj_on dt_id (set ?xs)" using agents_in_inj [of s k] e by simp
  show "set (session_agents s (Some k)) = (if k = [] then {} else agents_in s k)"
    using dict_of_vals [OF inj] e by (auto simp: session_agents_spec)
  show "distinct (session_agents s (Some k))"
    using dict_of_vals_distinct [OF inj] by (simp add: session_agents_spec)
qed

text \<open>\<open>len(agents) == 1\<close>: the session has exactly this linked agent.\<close>

lemma session_agents_one:
  "session_agents s sess = [x] \<longleftrightarrow> (\<exists>k. sess = Some k \<and> k \<noteq> [] \<and> agents_in s k = {x})"
proof (cases sess)
  case None
  then show ?thesis by (simp add: session_agents_def)
next
  case (Some k)
  have single: "xs = [x] \<longleftrightarrow> set xs = {x}" if "distinct xs" for xs
    using that by (cases xs) (auto simp: subset_singleton_iff)
  have "session_agents s (Some k) = [x] \<longleftrightarrow> set (session_agents s (Some k)) = {x}"
    by (rule single) (rule session_agents_set(2))
  then show ?thesis using Some session_agents_set(1) [of s k] by auto
qed

lemma session_agents_in_assets: "x \<in> set (session_agents s sess) \<Longrightarrow> x \<in> set (ds_assets s)"
  by (cases sess)
    (auto simp: session_agents_set agents_in_def session_agent_pairs_link session_agents_def [of s None]
      dest: linked_asset_SomeD split: if_splits)

end
