(* ===== verification/Detection_Contract.thy ===== *)
theory Detection_Contract
  imports Detection_Facts
begin

text \<open>
  The contract every runtime-detection rule meets towards the repository that stores its
  candidates (\<open>evaluate_runtime_detections\<close>), as a locale, and its six interpretations.
\<close>

section \<open>The contract\<close>

definition grounded :: "det_snapshot \<Rightarrow> det_candidate \<Rightarrow> bool" where
  "grounded s c \<longleftrightarrow>
     (\<forall>l \<in> set (dc_activities c). dal_activity_id l \<in> da_id ` set (ds_activities s))
     \<and> (\<forall>l \<in> set (dc_assets c). dsl_asset_id l \<in> dt_id ` set (ds_assets s))
     \<and> dc_activities c \<noteq> [] \<and> dc_assets c \<noteq> []"

lemma finish_evaluation_ok:
  assumes "\<forall>c \<in> set drafts. candidate_ok c"
  shows "finish_evaluation uid cov now drafts n txt =
    new_RuntimeDetectionEvaluation
      \<lparr>dv_rule_uid = uid, dv_state = cov, dv_evaluated_at = now,
       dv_candidates = sort_key dc_correlation_key drafts, dv_incomplete = n,
       dv_detail = (if n = 0 then None else Some (str_nat n @ txt))\<rparr>"
proof -
  have "map_res new_RuntimeDetectionCandidate drafts = Inr (map (\<lambda>c. c) drafts)"
    using assms by (intro map_res_pure) (simp add: new_candidate_iff)
  then show ?thesis by (simp add: finish_evaluation_def)
qed

lemma finish_evaluation_Inr:
  assumes "finish_evaluation uid cov now drafts n txt = Inr v"
  shows "\<forall>c \<in> set drafts. candidate_ok c" "tz_aware now" "distinct (map dc_correlation_key drafts)"
    "v = \<lparr>dv_rule_uid = uid, dv_state = cov, dv_evaluated_at = now,
       dv_candidates = sort_key dc_correlation_key drafts, dv_incomplete = n,
       dv_detail = (if n = 0 then None else Some (str_nat n @ txt))\<rparr>"
proof -
  obtain cs where cs: "map_res new_RuntimeDetectionCandidate drafts = Inr cs"
    using assms by (auto simp: finish_evaluation_def bind_res_Inr)
  then show ok: "\<forall>c \<in> set drafts. candidate_ok c"
    by (auto simp: map_res_Inr new_candidate_iff list_all2_conv_all_nth in_set_conv_nth)
  show "tz_aware now" "distinct (map dc_correlation_key drafts)"
    "v = \<lparr>dv_rule_uid = uid, dv_state = cov, dv_evaluated_at = now,
       dv_candidates = sort_key dc_correlation_key drafts, dv_incomplete = n,
       dv_detail = (if n = 0 then None else Some (str_nat n @ txt))\<rparr>"
    using assms unfolding finish_evaluation_ok [OF ok] new_evaluation_iff by auto
qed

locale evidence_rule =
  fixes rule :: "det_snapshot \<Rightarrow> coverage_state \<Rightarrow> py_datetime \<Rightarrow> det_evaluation res"
    and uid :: string
    and drafts :: "det_snapshot \<Rightarrow> coverage_state \<Rightarrow> det_candidate list"
    and incomplete :: "det_snapshot \<Rightarrow> coverage_state \<Rightarrow> nat"
    and detail_text :: string
  assumes runs: "rule s cov now = finish_evaluation uid cov now (drafts s cov) (incomplete s cov) detail_text"
    and draft_uid: "c \<in> set (drafts s cov) \<Longrightarrow> dc_rule_uid c = uid"
    and draft_grounded: "c \<in> set (drafts s cov) \<Longrightarrow> grounded s c"
    and draft_ok: "snapshot_ok s \<Longrightarrow> c \<in> set (drafts s cov) \<Longrightarrow> candidate_ok c"
begin

lemma result:
  assumes "rule s cov now = Inr v"
  shows "dv_rule_uid v = uid" "dv_state v = cov" "dv_evaluated_at v = now"
    "set (dv_candidates v) = set (drafts s cov)" "sorted (map dc_correlation_key (dv_candidates v))"
    "distinct (map dc_correlation_key (dv_candidates v))"
    "dv_incomplete v = incomplete s cov" "dv_detail v = None \<longleftrightarrow> dv_incomplete v = 0"
  using finish_evaluation_Inr(3,4) [OF assms [unfolded runs]] by simp_all

lemma result_grounded:
  "rule s cov now = Inr v \<Longrightarrow> c \<in> set (dv_candidates v) \<Longrightarrow> grounded s c \<and> dc_rule_uid c = uid"
  using result(4) draft_uid draft_grounded by blast

text \<open>On a snapshot as the repository loads it, a rule fails only for a repeated key.\<close>

lemma succeeds_iff:
  assumes "snapshot_ok s" and "tz_aware now"
  shows "(\<exists>v. rule s cov now = Inr v) \<longleftrightarrow> distinct (map dc_correlation_key (drafts s cov))"
proof -
  have "\<forall>c \<in> set (drafts s cov). candidate_ok c" using draft_ok assms(1) by blast
  then show ?thesis
    unfolding runs finish_evaluation_ok [OF \<open>\<forall>c \<in> set (drafts s cov). candidate_ok c\<close>]
      new_evaluation_iff
    using assms(2) by simp
qed

lemma fails_only:
  assumes "snapshot_ok s" and "tz_aware now" and "rule s cov now = Inl e"
  shows "e = ValueError ''a runtime detection evaluation cannot repeat a correlation key''"
proof -
  have ok: "\<forall>c \<in> set (drafts s cov). candidate_ok c" using draft_ok assms(1) by blast
  show ?thesis
    using assms(2,3) unfolding runs finish_evaluation_ok [OF ok]
    by (auto simp: new_RuntimeDetectionEvaluation_def check_all.simps split: if_splits)
qed

text \<open>
  The correlation key is the same text in every evaluation, so the repository can upsert by it:
  two successful evaluations of one snapshot return the same candidates in the same order.
\<close>

lemma deterministic:
  assumes "rule s cov now = Inr v" and "rule s cov now' = Inr v'"
  shows "dv_candidates v = dv_candidates v'"
  using finish_evaluation_Inr(4) [OF assms(1) [unfolded runs]]
    finish_evaluation_Inr(4) [OF assms(2) [unfolded runs]] by simp

end

section \<open>Drafts of the six rules\<close>

lemma sorted_time_id: "sorted (map time_id xs) \<Longrightarrow> sorted (map at_time xs)"
  unfolding sorted_map by (erule sorted_wrt_mono_rel [rotated]) auto

lemma hd_last_time:
  assumes "sorted (map at_time xs)" and "xs \<noteq> []"
  shows "at_time (hd xs) \<le> at_time (last xs)"
  using sorted_hd_le [OF assms(1), of "last xs"] assms(2) by simp

lemma sort_hd_last_time:
  "xs \<noteq> [] \<Longrightarrow> at_time (hd (sort_key at_time xs)) \<le> at_time (last (sort_key at_time xs))"
  "xs \<noteq> [] \<Longrightarrow> at_time (hd (sort_key time_id xs)) \<le> at_time (last (sort_key time_id xs))"
  by (intro hd_last_time; simp add: sorted_time_id)+

lemma key_of_not_Nil [simp]: "key_of parts \<noteq> []"
  by (simp add: key_of_def)

lemma dedup_ids: "snapshot_ok s \<Longrightarrow> distinct (map da_id (filter P (ds_activities s)))"
  unfolding snapshot_ok_def by (simp add: distinct_map_filter)

lemma snapshot_aware: "snapshot_ok s \<Longrightarrow> a \<in> set (ds_activities s) \<Longrightarrow> tz_aware (da_occurred_at a)"
  by (simp add: snapshot_ok_def)

lemma hd_last_sort_in:
  "xs \<noteq> [] \<Longrightarrow> hd (sort_key f xs) \<in> set xs \<and> last (sort_key f xs) \<in> set xs"
  by (metis hd_in_set last_in_set set_sort sort_key_eq_iff_Nil)

lemmas uid_defs = ENTRA_FAILURE_RULE_UID_def ENTRA_CONSENT_RULE_UID_def UNREVIEWED_MODEL_RULE_UID_def
  AWS_UNDECLARED_MODEL_RULE_UID_def AWS_UNAPPROVED_TOOL_RULE_UID_def AWS_RISKY_SEQUENCE_RULE_UID_def

text \<open>The activities of one group, sorted: what the four grouping rules have in common.\<close>

lemma group_activities:
  assumes "(k, items) \<in> set (group_by key (\<lambda>a. a) (ds_activities s))"
  shows "items \<noteq> []" "set items \<subseteq> set (ds_activities s)"
    "snapshot_ok s \<Longrightarrow> distinct (map da_id items)"
    "snapshot_ok s \<Longrightarrow> \<forall>a \<in> set items. tz_aware (da_occurred_at a)"
  using assms dedup_ids [of s] snapshot_aware [of s] by (auto simp: group_by_entries)

lemma grouped_candidate_ok:
  assumes "snapshot_ok s" and "(k, items) \<in> set (group_by key (\<lambda>a. a) (ds_activities s))"
    and "acts = sort_key at_time items \<or> acts = sort_key time_id items"
    and "dc_correlation_key c \<noteq> []" "dc_rule_uid c \<noteq> []" "dc_title c \<noteq> []" "dc_confidence c = f_1_0"
    and "dc_first_seen_at c = da_occurred_at (hd acts)" "dc_last_seen_at c = da_occurred_at (last acts)"
    and "map dal_activity_id (dc_activities c) = map da_id acts"
  shows "candidate_ok c"
proof -
  note g = group_activities [OF assms(2)]
  have "hd acts \<in> set items \<and> last acts \<in> set items"
    using assms(3) hd_last_sort_in [OF g(1), of at_time] hd_last_sort_in [OF g(1), of time_id] by auto
  moreover have "at_time (hd acts) \<le> at_time (last acts)"
    using assms(3) sort_hd_last_time [OF g(1)] by auto
  moreover have "distinct (map da_id acts)" using assms(3) g(3) [OF assms(1)] by auto
  ultimately show ?thesis using assms g(4) [OF assms(1)] by (auto simp: candidate_ok_def)
qed

text \<open>The fields of a candidate that the proofs read, once per rule.\<close>

lemma failure_candidate_fields [simp]:
  "dc_rule_uid (failure_candidate k app acts) = ENTRA_FAILURE_RULE_UID"
  "dc_correlation_key (failure_candidate k app acts) = key_of [ENTRA_FAILURE_RULE_UID, fst k, snd k]"
  "dc_title (failure_candidate k app acts) \<noteq> []" "dc_confidence (failure_candidate k app acts) = f_1_0"
  "dc_first_seen_at (failure_candidate k app acts) = da_occurred_at (hd acts)"
  "dc_last_seen_at (failure_candidate k app acts) = da_occurred_at (last acts)"
  "map dal_activity_id (dc_activities (failure_candidate k app acts)) = map da_id acts"
  "map dsl_asset_id (dc_assets (failure_candidate k app acts)) = [dt_id app]"
  by (simp_all add: failure_candidate_def Let_def o_def)

lemma consent_candidate_fields [simp]:
  "dc_rule_uid (consent_candidate f k app acts) = ENTRA_CONSENT_RULE_UID"
  "dc_correlation_key (consent_candidate f k app acts) =
     key_of [ENTRA_CONSENT_RULE_UID, fst k, fst (snd k), snd (snd k)]"
  "dc_title (consent_candidate f k app acts) \<noteq> []" "dc_confidence (consent_candidate f k app acts) = f_1_0"
  "dc_first_seen_at (consent_candidate f k app acts) = da_occurred_at (hd acts)"
  "dc_last_seen_at (consent_candidate f k app acts) = da_occurred_at (last acts)"
  "map dal_activity_id (dc_activities (consent_candidate f k app acts)) = map da_id acts"
  "map dsl_asset_id (dc_assets (consent_candidate f k app acts)) = [dt_id app]"
  by (simp_all add: consent_candidate_def Let_def o_def split_beta)

lemma model_candidate_fields [simp]:
  "dc_rule_uid (model_candidate m acts) = UNREVIEWED_MODEL_RULE_UID"
  "dc_correlation_key (model_candidate m acts) = key_of [UNREVIEWED_MODEL_RULE_UID, dt_natural_key m]"
  "dc_title (model_candidate m acts) \<noteq> []" "dc_confidence (model_candidate m acts) = f_1_0"
  "dc_first_seen_at (model_candidate m acts) = da_occurred_at (hd acts)"
  "dc_last_seen_at (model_candidate m acts) = da_occurred_at (last acts)"
  "map dal_activity_id (dc_activities (model_candidate m acts)) = map da_id acts"
  "map dsl_asset_id (dc_assets (model_candidate m acts)) = [dt_id m]"
  by (simp_all add: model_candidate_def o_def)

lemma undeclared_candidate_fields [simp]:
  "dc_rule_uid (undeclared_candidate g m acts) = AWS_UNDECLARED_MODEL_RULE_UID"
  "dc_correlation_key (undeclared_candidate g m acts) =
     key_of [AWS_UNDECLARED_MODEL_RULE_UID, dt_natural_key g, dt_natural_key m]"
  "dc_title (undeclared_candidate g m acts) \<noteq> []" "dc_confidence (undeclared_candidate g m acts) = f_1_0"
  "dc_first_seen_at (undeclared_candidate g m acts) = da_occurred_at (hd acts)"
  "dc_last_seen_at (undeclared_candidate g m acts) = da_occurred_at (last acts)"
  "map dal_activity_id (dc_activities (undeclared_candidate g m acts)) = map da_id acts"
  "map dsl_asset_id (dc_assets (undeclared_candidate g m acts)) = [dt_id g, dt_id m]"
  by (simp_all add: undeclared_candidate_def o_def)

lemma tool_candidate_fields [simp]:
  "dc_rule_uid (tool_candidate a k) = AWS_UNAPPROVED_TOOL_RULE_UID"
  "dc_correlation_key (tool_candidate a k) \<noteq> []" "dc_title (tool_candidate a k) \<noteq> []"
  "unit_interval (dc_confidence (tool_candidate a k))"
  "dc_first_seen_at (tool_candidate a k) = da_occurred_at a"
  "dc_last_seen_at (tool_candidate a k) = da_occurred_at a"
  "map dal_activity_id (dc_activities (tool_candidate a k)) = [da_id a]"
  "map dsl_asset_id (dc_assets (tool_candidate a k)) =
     dt_id (fst k) # (case snd k of Some x \<Rightarrow> [dt_id x] | None \<Rightarrow> [])"
  by (simp_all add: tool_candidate_def Let_def split_beta split: option.splits)

lemma sequence_candidate_fields [simp]:
  "dc_rule_uid (sequence_candidate s k g h) = AWS_RISKY_SEQUENCE_RULE_UID"
  "dc_correlation_key (sequence_candidate s k g h) =
     key_of [AWS_RISKY_SEQUENCE_RULE_UID, k, da_id (fst h), da_id (snd h)]"
  "dc_title (sequence_candidate s k g h) \<noteq> []" "dc_confidence (sequence_candidate s k g h) = f_0_9"
  "dc_first_seen_at (sequence_candidate s k g h) = da_occurred_at (fst h)"
  "dc_last_seen_at (sequence_candidate s k g h) = da_occurred_at (snd h)"
  "map dal_activity_id (dc_activities (sequence_candidate s k g h)) = [da_id (fst h), da_id (snd h)]"
  "map dsl_asset_id (dc_assets (sequence_candidate s k g h)) =
     dt_id g # (case linked_asset s (one_entity (snd h) ''tool'') of Some x \<Rightarrow> [dt_id x] | None \<Rightarrow> [])"
  by (simp_all add: sequence_candidate_def Let_def split_beta split: option.splits)

lemma groundedI:
  assumes "set (map dal_activity_id (dc_activities c)) \<subseteq> da_id ` set (ds_activities s)"
    and "set (map dsl_asset_id (dc_assets c)) \<subseteq> dt_id ` set (ds_assets s)"
    and "map dal_activity_id (dc_activities c) \<noteq> []" and "map dsl_asset_id (dc_assets c) \<noteq> []"
  shows "grounded s c"
  using assms unfolding grounded_def set_map by auto

text \<open>The sign-in rule.\<close>

lemma FAILURE_WINDOW_pos [simp]: "0 \<le> FAILURE_WINDOW"
  by (simp add: FAILURE_WINDOW_def micros_per_hour_def)

lemma failure_draft_iff:
  "c \<in> set (failure_draft s k items) \<longleftrightarrow>
     (\<exists>best app. best = best_window at_time FAILURE_WINDOW (sort_key at_time items)
        \<and> FAILURE_THRESHOLD \<le> length best \<and> signin_app s (hd best) = Some app
        \<and> c = failure_candidate k app best)"
  by (cases "signin_app s (hd (best_window at_time FAILURE_WINDOW (sort_key at_time items)))")
    (simp_all add: failure_draft_def Let_def not_less)

lemma consent_draft_iff:
  "c \<in> set (consent_draft f s k items) \<longleftrightarrow>
     (\<exists>app. dict_get (assets_by_id s) (fst k) = Some app
        \<and> c = consent_candidate f k app (sort_key at_time items))"
  by (cases "dict_get (assets_by_id s) (fst k)") (simp_all add: consent_draft_def)

lemma model_draft_iff:
  "c \<in> set (model_draft s k items) \<longleftrightarrow>
     (\<exists>m. dict_get (assets_by_id s) k = Some m \<and> c = model_candidate m (sort_key time_id items))"
  by (cases "dict_get (assets_by_id s) k") (simp_all add: model_draft_def)

lemma undeclared_draft_iff:
  "c \<in> set (undeclared_draft s k items) \<longleftrightarrow>
     (\<exists>g m. dict_get (assets_by_id s) (fst k) = Some g \<and> dict_get (assets_by_id s) (snd k) = Some m
        \<and> c = undeclared_candidate g m (sort_key time_id items))"
  by (cases "dict_get (assets_by_id s) (fst k)"; cases "dict_get (assets_by_id s) (snd k)")
    (simp_all add: undeclared_draft_def)

lemma failure_draft_facts:
  assumes g: "(k, items) \<in> set (failure_groups s)" and c: "c \<in> set (failure_draft s k items)"
  shows "dc_rule_uid c = ENTRA_FAILURE_RULE_UID" "grounded s c" "snapshot_ok s \<Longrightarrow> candidate_ok c"
proof -
  from c obtain best app where b: "best = best_window at_time FAILURE_WINDOW (sort_key at_time items)"
    and th: "FAILURE_THRESHOLD \<le> length best" and app: "signin_app s (hd best) = Some app"
    and c': "c = failure_candidate k app best"
    unfolding failure_draft_iff by blast
  note g' = g [unfolded failure_groups_def]
  have so: "sorted (map at_time (sort_key at_time items))" by simp
  have best: "set best \<subseteq> set items" "sorted (map at_time best)" "best \<noteq> []"
    using best_window_props(1,2) [OF so FAILURE_WINDOW_pos] b th
    by (auto simp: FAILURE_THRESHOLD_def)
  show "dc_rule_uid c = ENTRA_FAILURE_RULE_UID" by (simp add: c')
  have "app \<in> set (ds_assets s)" using app unfolding signin_app_def by (rule linked_asset_SomeD)
  then show "grounded s c"
    using best group_activities(2) [OF g'] unfolding c' by (intro groundedI) auto
  show "candidate_ok c" if s: "snapshot_ok s"
  proof -
    have "distinct (map da_id best)"
      unfolding b by (rule best_window_props(4) [OF so FAILURE_WINDOW_pos])
        (use group_activities(3) [OF g' s] in simp)
    moreover have "hd best \<in> set items" "last best \<in> set items" using best by auto
    ultimately show ?thesis
      using group_activities(4) [OF g' s] hd_last_time [OF best(2,3)]
      by (auto simp: candidate_ok_def c' uid_defs)
  qed
qed

text \<open>The other three grouping rules draft one candidate from a sorted group.\<close>

lemma whole_group_facts:
  assumes g: "(k, items) \<in> set (group_by key (\<lambda>a. a) (ds_activities s))"
    and acts: "acts = sort_key at_time items \<or> acts = sort_key time_id items"
    and c: "dc_correlation_key c \<noteq> []" "dc_rule_uid c \<noteq> []" "dc_title c \<noteq> []" "dc_confidence c = f_1_0"
      "dc_first_seen_at c = da_occurred_at (hd acts)" "dc_last_seen_at c = da_occurred_at (last acts)"
      "map dal_activity_id (dc_activities c) = map da_id acts"
    and links: "set (map dsl_asset_id (dc_assets c)) \<subseteq> dt_id ` set (ds_assets s)"
      "map dsl_asset_id (dc_assets c) \<noteq> []"
  shows "grounded s c \<and> (snapshot_ok s \<longrightarrow> candidate_ok c)"
proof -
  have "set acts = set items" using acts by auto
  moreover from this have "acts \<noteq> []" using group_activities(1) [OF g] by auto
  ultimately have "grounded s c"
    using c(7) links group_activities(2) [OF g] by (intro groundedI) auto
  then show ?thesis using grouped_candidate_ok [OF _ g acts c] by blast
qed

lemma dict_get_id: "dict_get (assets_by_id s) i = Some x \<Longrightarrow> dt_id x \<in> dt_id ` set (ds_assets s)"
  by (rule imageI) (simp add: dict_get_asset)

lemma consent_draft_facts:
  assumes g: "(k, items) \<in> set (consent_groups s)" and c: "c \<in> set (consent_draft f s k items)"
  shows "dc_rule_uid c = ENTRA_CONSENT_RULE_UID" "grounded s c" "snapshot_ok s \<Longrightarrow> candidate_ok c"
proof -
  from c obtain app where app: "dict_get (assets_by_id s) (fst k) = Some app"
    and c': "c = consent_candidate f k app (sort_key at_time items)"
    unfolding consent_draft_iff by blast
  note w = whole_group_facts [OF g [unfolded consent_groups_def], of "sort_key at_time items" c]
  show "dc_rule_uid c = ENTRA_CONSENT_RULE_UID" by (simp add: c')
  have "grounded s c \<and> (snapshot_ok s \<longrightarrow> candidate_ok c)"
    by (rule w) (simp_all add: c' uid_defs dict_get_id [OF app])
  then show "grounded s c" "snapshot_ok s \<Longrightarrow> candidate_ok c" by blast+
qed

lemma model_draft_facts:
  assumes g: "(k, items) \<in> set (model_groups s)" and c: "c \<in> set (model_draft s k items)"
  shows "dc_rule_uid c = UNREVIEWED_MODEL_RULE_UID" "grounded s c" "snapshot_ok s \<Longrightarrow> candidate_ok c"
proof -
  from c obtain m where m: "dict_get (assets_by_id s) k = Some m"
    and c': "c = model_candidate m (sort_key time_id items)"
    unfolding model_draft_iff by blast
  note w = whole_group_facts [OF g [unfolded model_groups_def], of "sort_key time_id items" c]
  show "dc_rule_uid c = UNREVIEWED_MODEL_RULE_UID" by (simp add: c')
  have "grounded s c \<and> (snapshot_ok s \<longrightarrow> candidate_ok c)"
    by (rule w) (simp_all add: c' uid_defs dict_get_id [OF m])
  then show "grounded s c" "snapshot_ok s \<Longrightarrow> candidate_ok c" by blast+
qed

lemma undeclared_draft_facts:
  assumes g: "(k, items) \<in> set (undeclared_groups s)" and c: "c \<in> set (undeclared_draft s k items)"
  shows "dc_rule_uid c = AWS_UNDECLARED_MODEL_RULE_UID" "grounded s c" "snapshot_ok s \<Longrightarrow> candidate_ok c"
proof -
  from c obtain agent m where a: "dict_get (assets_by_id s) (fst k) = Some agent"
    and m: "dict_get (assets_by_id s) (snd k) = Some m"
    and c': "c = undeclared_candidate agent m (sort_key time_id items)"
    unfolding undeclared_draft_iff by blast
  note w = whole_group_facts [OF g [unfolded undeclared_groups_def], of "sort_key time_id items" c]
  show "dc_rule_uid c = AWS_UNDECLARED_MODEL_RULE_UID" by (simp add: c')
  have "grounded s c \<and> (snapshot_ok s \<longrightarrow> candidate_ok c)"
    by (rule w) (simp_all add: c' uid_defs dict_get_id [OF a] dict_get_id [OF m])
  then show "grounded s c" "snapshot_ok s \<Longrightarrow> candidate_ok c" by blast+
qed

text \<open>The tool rule drafts from one activity at a time.\<close>

lemma verdict_key_Some [simp]: "verdict_key v = Some k \<longleftrightarrow> v = Keyed k"
  by (cases v) auto

lemma tool_drafts_iff:
  "c \<in> set (tool_drafts s cov) \<longleftrightarrow>
     (\<exists>a k. a \<in> set (ds_activities s) \<and> tool_verdict s cov a = Keyed k \<and> c = tool_candidate a k)"
  unfolding tool_drafts_def set_map_filter by (auto simp: verdict_key_Some)

lemma tool_verdict_keyed:
  assumes "tool_verdict s cov a = Keyed k"
  shows "successful_aws a ''tool_invocation''" "session_agents s (session_of a) = [fst k]"
    "snd k = linked_asset s (one_entity a ''tool'')"
    "\<forall>x. snd k = Some x \<longrightarrow> dt_kind x = ''ai_tool'' \<and> dt_governance_status x \<noteq> ''approved''"
    "snd k = None \<Longrightarrow> cov = COMPLETE"
  using assms by (auto simp: tool_verdict_def Let_def split: if_splits list.splits option.splits)

lemma tool_draft_facts:
  assumes c: "c \<in> set (tool_drafts s cov)"
  shows "dc_rule_uid c = AWS_UNAPPROVED_TOOL_RULE_UID" "grounded s c" "snapshot_ok s \<Longrightarrow> candidate_ok c"
proof -
  from c obtain a k where a: "a \<in> set (ds_activities s)" and k: "tool_verdict s cov a = Keyed k"
    and c': "c = tool_candidate a k" unfolding tool_drafts_iff by blast
  note v = tool_verdict_keyed [OF k]
  have "fst k \<in> set (ds_assets s)"
    using session_agents_in_assets [of "fst k" s "session_of a"] v(2) by simp
  moreover have "\<forall>x. snd k = Some x \<longrightarrow> x \<in> set (ds_assets s)"
    using v(3) linked_asset_SomeD by metis
  ultimately show "grounded s c"
    using a by (intro groundedI) (auto simp: c' split: option.splits)
  show "dc_rule_uid c = AWS_UNAPPROVED_TOOL_RULE_UID" by (simp add: c')
  show "snapshot_ok s \<Longrightarrow> candidate_ok c"
    using a by (simp add: candidate_ok_def c' uid_defs snapshot_aware)
qed

text \<open>The sequence rule: what a hit is.\<close>

definition is_retrieval :: "det_activity \<Rightarrow> bool" where
  "is_retrieval a \<longleftrightarrow> da_category a = ''retrieval'' \<and> da_outcome a \<noteq> ''failure''"

definition is_mutating_call :: "det_activity \<Rightarrow> bool" where
  "is_mutating_call a \<longleftrightarrow> successful_aws a ''tool_invocation'' \<and> is_mutating_tool a"

definition within_sequence :: "det_activity \<Rightarrow> det_activity \<Rightarrow> bool" where
  "within_sequence a r \<longleftrightarrow> 0 \<le> at_time a - at_time r \<and> at_time a - at_time r \<le> AWS_SEQUENCE_WINDOW"

lemma mutating_not_retrieval: "is_mutating_call a \<Longrightarrow> \<not> is_retrieval a"
  by (auto simp: is_mutating_call_def is_retrieval_def successful_aws_def)

lemma sequence_hits_Cons:
  "sequence_hits rs (a # as) =
     (if is_retrieval a then sequence_hits (rs @ [a]) as
      else if is_mutating_call a \<and> filter (within_sequence a) rs \<noteq> []
        then (last (filter (within_sequence a) rs), a) # sequence_hits rs as
      else sequence_hits rs as)"
  by (simp add: is_retrieval_def is_mutating_call_def within_sequence_def [abs_def] Let_def)

declare sequence_hits.simps(2) [simp del]

lemma sequence_hits_iff:
  "(r, a) \<in> set (sequence_hits rs as) \<longleftrightarrow>
     (\<exists>pre post. as = pre @ a # post \<and> is_mutating_call a
        \<and> filter (within_sequence a) (rs @ filter is_retrieval pre) \<noteq> []
        \<and> r = last (filter (within_sequence a) (rs @ filter is_retrieval pre)))"
proof (induction as arbitrary: rs)
  case Nil
  then show ?case by simp
next
  case (Cons b as)
  let ?P = "\<lambda>rs pre. is_mutating_call a
      \<and> filter (within_sequence a) (rs @ filter is_retrieval pre) \<noteq> []
      \<and> r = last (filter (within_sequence a) (rs @ filter is_retrieval pre))"
  note split = split_Cons_iff [of b as a "?P rs"]
  show ?case
  proof (cases "is_retrieval b")
    case True
    then have hits: "sequence_hits rs (b # as) = sequence_hits (rs @ [b]) as"
      by (simp add: sequence_hits_Cons)
    have P: "?P rs (b # pre) \<longleftrightarrow> ?P (rs @ [b]) pre" for pre using True by simp
    have nb: "\<not> (a = b \<and> ?P rs [])" using True mutating_not_retrieval by blast
    show ?thesis unfolding split hits Cons.IH [of "rs @ [b]"] by (simp only: P nb simp_thms)
  next
    case False
    then have P: "?P rs (b # pre) \<longleftrightarrow> ?P rs pre" for pre by simp
    have "(r, a) \<in> set (sequence_hits rs (b # as)) \<longleftrightarrow>
        (a = b \<and> ?P rs []) \<or> (r, a) \<in> set (sequence_hits rs as)"
      using False by (auto simp: sequence_hits_Cons)
    then show ?thesis unfolding split Cons.IH [of rs] by (simp only: P)
  qed
qed

text \<open>The sequence rule: from hits to candidates.\<close>

lemma session_hits_iff:
  "(k, agent, r, a) \<in> set (session_hits s (session, items)) \<longleftrightarrow>
     k = session \<and> session_agents s (Some session) = [agent]
     \<and> (r, a) \<in> set (sequence_hits [] (sort_key time_id items))"
  by (auto simp: session_hits_def split: list.splits)

lemma sequence_drafts_iff:
  "c \<in> set (sequence_drafts s) \<longleftrightarrow>
     (\<exists>k items agent r a. (k, items) \<in> set (sequence_sessions s)
        \<and> session_agents s (Some k) = [agent]
        \<and> (r, a) \<in> set (sequence_hits [] (sort_key time_id items))
        \<and> c = sequence_candidate s k agent (r, a))"
proof
  assume "c \<in> set (sequence_drafts s)"
  then obtain h where h: "h \<in> set (concat (map (session_hits s) (sequence_sessions s)))"
    and c: "c = (\<lambda>(session, agent, hit). sequence_candidate s session agent hit) h"
    unfolding sequence_drafts_def set_map by blast
  obtain k agent r a where hk: "h = (k, agent, r, a)" by (cases h)
  from h obtain e where e: "e \<in> set (sequence_sessions s)" and he: "h \<in> set (session_hits s e)" by auto
  obtain session items where "e = (session, items)" by (cases e)
  then show "\<exists>k items agent r a. (k, items) \<in> set (sequence_sessions s)
        \<and> session_agents s (Some k) = [agent]
        \<and> (r, a) \<in> set (sequence_hits [] (sort_key time_id items))
        \<and> c = sequence_candidate s k agent (r, a)"
    using e he c unfolding hk
    by (intro exI [of _ k] exI [of _ items] exI [of _ agent] exI [of _ r] exI [of _ a])
      (auto simp: session_hits_iff)
next
  assume "\<exists>k items agent r a. (k, items) \<in> set (sequence_sessions s)
        \<and> session_agents s (Some k) = [agent]
        \<and> (r, a) \<in> set (sequence_hits [] (sort_key time_id items))
        \<and> c = sequence_candidate s k agent (r, a)"
  then obtain k items agent r a where e: "(k, items) \<in> set (sequence_sessions s)"
    and h: "(k, agent, r, a) \<in> set (session_hits s (k, items))"
    and c: "c = (\<lambda>(session, agent, hit). sequence_candidate s session agent hit) (k, agent, r, a)"
    by (auto simp: session_hits_iff)
  have "(k, agent, r, a) \<in> set (concat (map (session_hits s) (sequence_sessions s)))"
    using e h by (simp add: bexI)
  then show "c \<in> set (sequence_drafts s)"
    unfolding sequence_drafts_def set_map c by (rule imageI)
qed

lemma hit_facts:
  assumes "(r, a) \<in> set (sequence_hits [] (sort_key time_id items))"
  shows "r \<in> set items" "a \<in> set items" "is_retrieval r" "is_mutating_call a" "within_sequence a r"
proof -
  obtain pre post where sp: "sort_key time_id items = pre @ a # post" and m: "is_mutating_call a"
    and ne: "filter (within_sequence a) (filter is_retrieval pre) \<noteq> []"
    and r: "r = last (filter (within_sequence a) (filter is_retrieval pre))"
    using assms unfolding sequence_hits_iff by auto
  have rr: "r \<in> set (filter (within_sequence a) (filter is_retrieval pre))"
    unfolding r using ne by (rule last_in_set)
  have "set items = set (pre @ a # post)" using sp by (metis set_sort)
  then show "r \<in> set items" "a \<in> set items" using rr by auto
  show "is_retrieval r" "is_mutating_call a" "within_sequence a r" using rr m by auto
qed

lemma sequence_draft_facts:
  assumes c: "c \<in> set (sequence_drafts s)"
  shows "dc_rule_uid c = AWS_RISKY_SEQUENCE_RULE_UID" "grounded s c" "snapshot_ok s \<Longrightarrow> candidate_ok c"
proof -
  from c obtain k items agent r a where g: "(k, items) \<in> set (sequence_sessions s)"
    and ag: "session_agents s (Some k) = [agent]"
    and h: "(r, a) \<in> set (sequence_hits [] (sort_key time_id items))"
    and c': "c = sequence_candidate s k agent (r, a)" unfolding sequence_drafts_iff by blast
  note hf = hit_facts [OF h]
  have sub: "set items \<subseteq> set (ds_activities s)"
    using group_activities(2) [OF g [unfolded sequence_sessions_def]] .
  have "agent \<in> set (ds_assets s)" using session_agents_in_assets [of agent s "Some k"] ag by simp
  then show "grounded s c"
    using hf(1,2) sub linked_asset_SomeD [of s "one_entity a ''tool''"]
    by (intro groundedI) (auto simp: c' split: option.splits)
  show "dc_rule_uid c = AWS_RISKY_SEQUENCE_RULE_UID" by (simp add: c')
  show "candidate_ok c" if s: "snapshot_ok s"
  proof -
    have "r \<noteq> a" using hf(3,4) mutating_not_retrieval by blast
    moreover have "inj_on da_id (set (ds_activities s))"
      using s by (simp add: snapshot_ok_def distinct_map)
    ultimately have "da_id r \<noteq> da_id a" using hf(1,2) sub by (meson inj_onD subsetD)
    then show ?thesis
      using hf(1,2,5) sub snapshot_aware [OF s]
      by (auto simp: candidate_ok_def c' uid_defs within_sequence_def)
  qed
qed

section \<open>Interpretations\<close>

interpretation failures: evidence_rule evaluate_repeated_failed_ai_signins ENTRA_FAILURE_RULE_UID
    "\<lambda>s cov. concat (map (\<lambda>(key, items). failure_draft s key items) (failure_groups s))"
    "\<lambda>s cov. count_incomplete (failed_signin_verdict s) (ds_activities s)"
    "'' failed sign-in observations lacked an exact actor/application link''"
  by unfold_locales
    (auto simp: evaluate_repeated_failed_ai_signins_def intro: failure_draft_facts)

interpretation consent: evidence_rule "evaluate_unreviewed_ai_consent str_of" ENTRA_CONSENT_RULE_UID
    "\<lambda>s cov. concat (map (\<lambda>(key, items). consent_draft str_of s key items) (consent_groups s))"
    "\<lambda>s cov. count_incomplete (consent_verdict s) (ds_activities s)"
    "'' consent observations lacked an exact actor/application link''" for str_of
  by unfold_locales
    (auto simp: evaluate_unreviewed_ai_consent_def intro: consent_draft_facts)

interpretation models: evidence_rule evaluate_unreviewed_model_invocation UNREVIEWED_MODEL_RULE_UID
    "\<lambda>s cov. concat (map (\<lambda>(key, items). model_draft s key items) (model_groups s))"
    "\<lambda>s cov. count_incomplete (model_verdict s) (ds_activities s)"
    "'' model invocation observations lacked one exact model asset link''"
  by unfold_locales
    (auto simp: evaluate_unreviewed_model_invocation_def intro: model_draft_facts)

interpretation undeclared: evidence_rule evaluate_aws_undeclared_model_invocation
    AWS_UNDECLARED_MODEL_RULE_UID
    "\<lambda>s cov. concat (map (\<lambda>(key, items). undeclared_draft s key items) (undeclared_groups s))"
    "\<lambda>s cov. count_incomplete (undeclared_verdict s) (ds_activities s)"
    "'' AWS model observations lacked one exact agent/model correlation''"
  by unfold_locales
    (auto simp: evaluate_aws_undeclared_model_invocation_def intro: undeclared_draft_facts)

interpretation tools: evidence_rule evaluate_aws_unapproved_tool_invocation
    AWS_UNAPPROVED_TOOL_RULE_UID tool_drafts
    "\<lambda>s cov. count_incomplete (tool_verdict s cov) (ds_activities s)"
    "'' AWS tool observations lacked complete correlation evidence''"
  by unfold_locales
    (auto simp: evaluate_aws_unapproved_tool_invocation_def intro: tool_draft_facts)

interpretation sequences: evidence_rule evaluate_aws_risky_action_sequence
    AWS_RISKY_SEQUENCE_RULE_UID "\<lambda>s cov. sequence_drafts s"
    "\<lambda>s cov. length (filter (\<lambda>(session, _). length (session_agents s (Some session)) \<noteq> 1)
       (sequence_sessions s))"
    "'' AWS sessions lacked one exact agent correlation''"
  by unfold_locales
    (auto simp: evaluate_aws_risky_action_sequence_def intro: sequence_draft_facts)

end
