(* ===== verification/Detection_Store.thy ===== *)
theory Detection_Store
  imports Detection_Contract
begin

text \<open>
  \<open>PostgresInventoryRepository.evaluate_runtime_detections\<close> of \<open>src/denali/store/repository.py\<close>
  and the helpers it calls: the coverage of the planes each rule needs, the evaluation of the six
  rules over one snapshot, and the upsert of their candidates. The tables are maps from their
  unique keys; loading the snapshot is the query layer's and stays an argument.
\<close>

section \<open>Coverage of the planes a rule needs\<close>

record coverage_row =
  cv_tenant :: string
  cv_connector :: string
  cv_connection :: string
  cv_plane :: string
  cv_scope :: string
  cv_state :: coverage_state
  cv_collected_at :: int

text \<open>
  \<open>SELECT DISTINCT ON (connector_id, connection_id, plane, scope) ... ORDER BY collected_at DESC\<close>:
  per key the row collected last. A row counts as latest when no row of its key is younger, or
  as old and listed before it.
\<close>

definition coverage_key :: "coverage_row \<Rightarrow> string \<times> string \<times> string \<times> string" where
  "coverage_key r = (cv_connector r, cv_connection r, cv_plane r, cv_scope r)"

fun latest_by :: "('a \<Rightarrow> 'k) \<Rightarrow> ('a \<Rightarrow> int) \<Rightarrow> 'a list \<Rightarrow> 'a list" where
  "latest_by key t [] = []"
| "latest_by key t (x # xs) =
     (let rest = latest_by key t xs in
      if list_ex (\<lambda>y. key y = key x \<and> t x < t y) rest then rest
      else x # filter (\<lambda>y. key y \<noteq> key x) rest)"

definition latest_coverage :: "coverage_row list \<Rightarrow> string \<Rightarrow> string list \<Rightarrow> coverage_row list" where
  "latest_coverage rows tenant planes =
     latest_by coverage_key cv_collected_at
       (filter (\<lambda>r. cv_tenant r = tenant \<and> cv_plane r \<in> set planes) rows)"

text \<open>The chain of tests on the set of states that both coverage queries end with.\<close>

definition summarize_states :: "coverage_state list \<Rightarrow> coverage_state" where
  "summarize_states states =
     (if states \<noteq> [] \<and> list_all (\<lambda>c. c = COMPLETE) states then COMPLETE
      else if states \<noteq> [] \<and> list_all (\<lambda>c. c = FAILED) states then FAILED
      else if states \<noteq> [] \<and> list_all (\<lambda>c. c = NOT_SUPPORTED) states then NOT_SUPPORTED
      else if list_ex (\<lambda>c. c = FAILED \<or> c = PARTIAL) states then PARTIAL
      else UNKNOWN)"

definition detection_coverage_state :: "coverage_row list \<Rightarrow> string \<Rightarrow> string list \<Rightarrow> coverage_state" where
  "detection_coverage_state rows tenant planes =
     (let latest = latest_coverage rows tenant planes in
      if list_ex (\<lambda>p. p \<notin> set (map cv_plane latest)) planes then UNKNOWN
      else summarize_states (map cv_state latest))"

definition detection_any_coverage_state :: "coverage_row list \<Rightarrow> string \<Rightarrow> string list \<Rightarrow> coverage_state" where
  "detection_any_coverage_state rows tenant planes =
     summarize_states (map cv_state (latest_coverage rows tenant planes))"

definition partial_if_complete :: "coverage_state \<Rightarrow> coverage_state" where
  "partial_if_complete c = (if c = COMPLETE then PARTIAL else c)"

section \<open>The tables\<close>

record det_row =
  dr_rule_uid :: string
  dr_title :: string
  dr_description :: string
  dr_risk :: string
  dr_guidance :: string
  dr_severity :: finding_severity
  dr_state :: string
  dr_confidence :: pyfloat
  dr_attributes :: attrs
  dr_resolution_reason :: "string option"
  dr_first_seen_at :: int
  dr_last_seen_at :: int
  dr_last_changed_at :: int
  dr_last_evaluated_at :: int
  dr_activities :: "det_activity_link list"
  dr_assets :: "det_asset_link list"

record rule_row =
  rr_state :: coverage_state
  rr_confirmed :: nat
  rr_incomplete :: nat
  rr_detail :: "string option"
  rr_evaluated_at :: int

record det_db =
  db_detections :: "string \<times> string \<Rightarrow> det_row option"
  db_rules :: "string \<times> string \<Rightarrow> rule_row option"

definition row_changed :: "det_row \<Rightarrow> det_candidate \<Rightarrow> bool" where
  "row_changed r c \<longleftrightarrow> \<not> (dr_rule_uid r = dc_rule_uid c \<and> dr_title r = dc_title c
     \<and> dr_description r = dc_description c \<and> dr_risk r = dc_risk c \<and> dr_guidance r = dc_guidance c
     \<and> dr_severity r = dc_severity c \<and> dr_state r = ''open'' \<and> feq (dr_confidence r) (dc_confidence c)
     \<and> attrs_eq (dr_attributes r) (dc_attributes c))"

definition fresh_row :: "det_candidate \<Rightarrow> det_evaluation \<Rightarrow> det_row" where
  "fresh_row c v =
     \<lparr>dr_rule_uid = dc_rule_uid c, dr_title = dc_title c, dr_description = dc_description c,
      dr_risk = dc_risk c, dr_guidance = dc_guidance c, dr_severity = dc_severity c,
      dr_state = ''open'', dr_confidence = dc_confidence c, dr_attributes = dc_attributes c,
      dr_resolution_reason = None,
      dr_first_seen_at = instant (dc_first_seen_at c), dr_last_seen_at = instant (dc_last_seen_at c),
      dr_last_changed_at = instant (dv_evaluated_at v), dr_last_evaluated_at = instant (dv_evaluated_at v),
      dr_activities = [], dr_assets = []\<rparr>"

text \<open>\<open>INSERT ... ON CONFLICT (tenant_id, correlation_key) DO UPDATE\<close>.\<close>

definition upsert_runtime_detection ::
    "string \<Rightarrow> det_evaluation \<Rightarrow> det_candidate \<Rightarrow> det_db \<Rightarrow> det_db" where
  "upsert_runtime_detection tenant v c db =
     (let k = (tenant, dc_correlation_key c);
          new = (case db_detections db k of
             None \<Rightarrow> fresh_row c v
           | Some r \<Rightarrow> (fresh_row c v)
               \<lparr>dr_last_changed_at := (if row_changed r c then instant (dc_last_seen_at c)
                                       else dr_last_changed_at r),
                dr_first_seen_at := min (dr_first_seen_at r) (instant (dc_first_seen_at c)),
                dr_last_seen_at := max (dr_last_seen_at r) (instant (dc_last_seen_at c)),
                dr_activities := dr_activities r, dr_assets := dr_assets r\<rparr>)
      in db\<lparr>db_detections := (db_detections db)(k \<mapsto> new)\<rparr>)"

text \<open>The links of a detection are deleted and inserted again.\<close>

definition replace_runtime_detection_evidence ::
    "string \<Rightarrow> det_candidate \<Rightarrow> det_db \<Rightarrow> det_db" where
  "replace_runtime_detection_evidence tenant c db =
     (let k = (tenant, dc_correlation_key c) in
      db\<lparr>db_detections := (db_detections db)(k := map_option
          (\<lambda>r. r\<lparr>dr_activities := dc_activities c, dr_assets := dc_assets c\<rparr>) (db_detections db k))\<rparr>)"

definition store_candidate :: "string \<Rightarrow> det_evaluation \<Rightarrow> det_candidate \<Rightarrow> det_db \<Rightarrow> det_db" where
  "store_candidate tenant v c db =
     replace_runtime_detection_evidence tenant c (upsert_runtime_detection tenant v c db)"

text \<open>The \<open>UPDATE\<close> of the rule's other detections touches the evaluation time alone.\<close>

definition touch_others :: "string \<Rightarrow> det_evaluation \<Rightarrow> string list \<Rightarrow> det_db \<Rightarrow> det_db" where
  "touch_others tenant v active db =
     db\<lparr>db_detections := (\<lambda>k. case db_detections db k of None \<Rightarrow> None
        | Some r \<Rightarrow> Some (if fst k = tenant \<and> dr_rule_uid r = dv_rule_uid v \<and> snd k \<notin> set active
            then r\<lparr>dr_last_evaluated_at := instant (dv_evaluated_at v)\<rparr> else r))\<rparr>"

definition record_rule :: "string \<Rightarrow> det_evaluation \<Rightarrow> det_db \<Rightarrow> det_db" where
  "record_rule tenant v db =
     db\<lparr>db_rules := (db_rules db)((tenant, dv_rule_uid v) \<mapsto>
        \<lparr>rr_state = dv_state v, rr_confirmed = length (dv_candidates v),
         rr_incomplete = dv_incomplete v, rr_detail = dv_detail v,
         rr_evaluated_at = instant (dv_evaluated_at v)\<rparr>)\<rparr>"

definition store_evaluation :: "string \<Rightarrow> det_evaluation \<Rightarrow> det_db \<Rightarrow> det_db" where
  "store_evaluation tenant v db =
     record_rule tenant v
       (touch_others tenant v (map dc_correlation_key (dv_candidates v))
         (fold (store_candidate tenant v) (dv_candidates v) db))"

section \<open>The evaluation\<close>

definition limit_detail :: "det_evaluation \<Rightarrow> det_evaluation" where
  "limit_detail v = v\<lparr>dv_detail := Some
     (''The bounded detection snapshot reached its safety limit; rule coverage is partial.''
      @ (case dv_detail v of None \<Rightarrow> [] | Some d \<Rightarrow> if d = [] then [] else CHR '' '' # d))\<rparr>"

definition plane_coverage :: "coverage_row list \<Rightarrow> string \<Rightarrow> det_snapshot \<Rightarrow> string list \<Rightarrow> coverage_state" where
  "plane_coverage rows tenant s planes =
     (let c = detection_coverage_state rows tenant planes
      in if ds_truncated s then partial_if_complete c else c)"

definition any_plane_coverage :: "coverage_row list \<Rightarrow> string \<Rightarrow> det_snapshot \<Rightarrow> string list \<Rightarrow> coverage_state" where
  "any_plane_coverage rows tenant s planes =
     (let c = detection_any_coverage_state rows tenant planes
      in if ds_truncated s then partial_if_complete c else c)"

text \<open>The six calls in order; \<open>clock\<close> gives the time each of them reads.\<close>

definition run_detection_rules ::
    "(pyval \<Rightarrow> string) \<Rightarrow> (string \<Rightarrow> py_datetime) \<Rightarrow> coverage_row list \<Rightarrow> string \<Rightarrow> det_snapshot
     \<Rightarrow> det_evaluation list res" where
  "run_detection_rules str_of clock rows tenant s = map_res (\<lambda>rule. rule)
     [evaluate_repeated_failed_ai_signins s
        (plane_coverage rows tenant s [''entra_ai_signins'', ''entra_ai_application_inventory''])
        (clock ENTRA_FAILURE_RULE_UID),
      evaluate_unreviewed_ai_consent str_of s
        (plane_coverage rows tenant s [''entra_ai_directory_audits'', ''entra_ai_application_inventory''])
        (clock ENTRA_CONSENT_RULE_UID),
      evaluate_unreviewed_model_invocation s
        (any_plane_coverage rows tenant s [''vertex_cloud_audit_activity'',
           ''aws_agent_runtime_activity'', ''azure_foundry_agent_runtime_activity''])
        (clock UNREVIEWED_MODEL_RULE_UID),
      evaluate_aws_undeclared_model_invocation s
        (plane_coverage rows tenant s [''aws_agent_runtime_activity'', ''aws_agentcore_runtime_inventory''])
        (clock AWS_UNDECLARED_MODEL_RULE_UID),
      evaluate_aws_unapproved_tool_invocation s
        (plane_coverage rows tenant s [''aws_agent_runtime_activity'',
           ''aws_agentcore_runtime_inventory'', ''aws_agentcore_gateway_target_inventory''])
        (clock AWS_UNAPPROVED_TOOL_RULE_UID),
      evaluate_aws_risky_action_sequence s
        (plane_coverage rows tenant s [''aws_agent_runtime_activity''])
        (clock AWS_RISKY_SEQUENCE_RULE_UID)]"

text \<open>An exception rolls the transaction back: the result carries no new tables.\<close>

definition evaluate_runtime_detections ::
    "(pyval \<Rightarrow> string) \<Rightarrow> (string \<Rightarrow> py_datetime) \<Rightarrow> coverage_row list \<Rightarrow> string \<Rightarrow> det_snapshot
     \<Rightarrow> det_db \<Rightarrow> (det_db \<times> nat \<times> det_evaluation list) res" where
  "evaluate_runtime_detections str_of clock rows tenant s db =
     bind_res (run_detection_rules str_of clock rows tenant s) (\<lambda>evaluations.
       let vs = (if ds_truncated s then map limit_detail evaluations else evaluations)
       in Inr (fold (store_evaluation tenant) vs db,
               sum_list (map (\<lambda>v. length (dv_candidates v)) vs), vs))"

section \<open>Coverage facts\<close>

lemma latest_by_key_distinct: "distinct (map key (latest_by key t xs))"
  by (induction xs) (auto simp: Let_def distinct_map_filter)

lemma latest_by_subset: "set (latest_by key t xs) \<subseteq> set xs"
  by (induction xs) (auto simp: Let_def)

lemma latest_by_max:
  "x \<in> set xs \<Longrightarrow> \<exists>y \<in> set (latest_by key t xs). key y = key x \<and> t x \<le> t y"
proof (induction xs)
  case (Cons z zs)
  let ?rest = "latest_by key t zs"
  show ?case
  proof (cases "list_ex (\<lambda>y. key y = key z \<and> t z < t y) ?rest")
    case True
    then obtain y where "y \<in> set ?rest" "key y = key z" "t z < t y" by (auto simp: list_ex_iff)
    then show ?thesis using True Cons by (auto simp: Let_def intro: less_imp_le)
  next
    case False
    show ?thesis
    proof (cases "key x = key z")
      case True
      have "t x \<le> t z"
      proof (cases "x = z")
        case False
        then obtain y where "y \<in> set ?rest" "key y = key x" "t x \<le> t y" using Cons by auto
        then show ?thesis
          using \<open>\<not> list_ex (\<lambda>y. key y = key z \<and> t z < t y) ?rest\<close> True by (force simp: list_ex_iff)
      qed simp
      then show ?thesis using False True by (auto simp: Let_def)
    next
      case nk: False
      then have "x \<in> set zs" using Cons.prems by auto
      then obtain y where "y \<in> set ?rest" "key y = key x" "t x \<le> t y" using Cons.IH by blast
      then show ?thesis using False nk by (auto simp: Let_def)
    qed
  qed
qed simp

lemma latest_by_youngest:
  "y \<in> set (latest_by key t xs) \<Longrightarrow> x \<in> set xs \<Longrightarrow> key x = key y \<Longrightarrow> t x \<le> t y"
  by (metis distinct_map inj_onD latest_by_key_distinct latest_by_max)

lemma summarize_COMPLETE:
  "summarize_states cs = COMPLETE \<longleftrightarrow> cs \<noteq> [] \<and> (\<forall>c \<in> set cs. c = COMPLETE)"
  by (auto simp: summarize_states_def list_all_iff)

lemma detection_coverage_COMPLETE:
  "detection_coverage_state rows tenant planes = COMPLETE \<longleftrightarrow>
     planes \<noteq> [] \<and> (\<forall>p \<in> set planes. \<exists>r \<in> set (latest_coverage rows tenant planes). cv_plane r = p)
     \<and> (\<forall>r \<in> set (latest_coverage rows tenant planes). cv_state r = COMPLETE)"
proof -
  have "latest_coverage rows tenant [] = []" by (simp add: latest_coverage_def)
  then have "planes = [] \<Longrightarrow> detection_coverage_state rows tenant planes \<noteq> COMPLETE"
    by (simp add: detection_coverage_state_def summarize_states_def)
  then show ?thesis
    by (auto simp: detection_coverage_state_def Let_def summarize_COMPLETE list_ex_iff image_iff
        split: if_splits) (metis list.set_intros(1) neq_Nil_conv)+
qed

lemma partial_if_complete_not [simp]: "partial_if_complete c \<noteq> COMPLETE"
  by (simp add: partial_if_complete_def)

end
