(* ===== verification/Detection_Props.thy ===== *)
theory Detection_Props
  imports Detection_Store
begin

text \<open>The properties of the runtime-detection engine and of the storage of its results.\<close>

section \<open>Lemmas\<close>

text \<open>A failed sign-in of the actor \<open>fst k\<close> to the application \<open>snd k\<close>, and a set of them inside 24 hours.\<close>

definition failed_signin :: "det_snapshot \<Rightarrow> string \<times> string \<Rightarrow> det_activity \<Rightarrow> bool" where
  "failed_signin s k a \<longleftrightarrow> a \<in> set (ds_activities s) \<and> da_category a = ''ai_app_sign_in'' \<and> da_outcome a = ''failure'' \<and>
     (\<exists>actor app. one_entity a ''actor'' = Some actor \<and> linked_asset s (one_entity a ''application'') = Some app
        \<and> dt_kind app = ''ai_application'' \<and> k = (casefold (de_external_uid actor), dt_id app))"

definition burst :: "det_snapshot \<Rightarrow> string \<times> string \<Rightarrow> det_activity set \<Rightarrow> bool" where
  "burst s k S \<longleftrightarrow> (\<forall>a \<in> S. failed_signin s k a)
     \<and> (\<forall>x \<in> S. \<forall>y \<in> S. at_time x - at_time y \<le> 24 * micros_per_hour)"

definition names_pair :: "det_candidate \<Rightarrow> string \<times> string \<Rightarrow> bool" where
  "names_pair c k \<longleftrightarrow> map_of (dc_attributes c) ''actor_uid'' = Some (PStr (fst k))
     \<and> map dsl_asset_id (dc_assets c) = [snd k]"

lemma signin_verdict_keyed:
  "failed_signin_verdict s a = Keyed k \<longleftrightarrow>
     da_category a = ''ai_app_sign_in'' \<and> da_outcome a = ''failure'' \<and>
     (\<exists>actor app. one_entity a ''actor'' = Some actor \<and> signin_app s a = Some app
        \<and> dt_kind app = ''ai_application'' \<and> k = (casefold (de_external_uid actor), dt_id app))"
  by (auto simp: failed_signin_verdict_def signin_app_def split: option.splits)

lemma burst_keyed:
  "burst s k S \<longleftrightarrow> S \<subseteq> {a \<in> set (ds_activities s). failed_signin_verdict s a = Keyed k}
     \<and> (\<forall>x \<in> S. \<forall>y \<in> S. at_time x - at_time y \<le> FAILURE_WINDOW)"
  by (auto simp: burst_def failed_signin_def signin_verdict_keyed signin_app_def FAILURE_WINDOW_def)

lemma failure_candidate_names [simp]:
  "names_pair (failure_candidate k app acts) k' \<longleftrightarrow> k' = (fst k, dt_id app)"
  by (auto simp: names_pair_def failure_candidate_def Let_def prod_eq_iff)

lemma failure_candidate_links:
  "dc_activities (failure_candidate k app acts) = map (\<lambda>a. \<lparr>dal_activity_id = da_id a, dal_role = ''failed_sign_in''\<rparr>) acts"
  by (simp add: failure_candidate_def Let_def)

text \<open>The drafts of the sign-in rule, described by the activities themselves.\<close>

lemma failure_drafts_iff:
  "c \<in> set (concat (map (\<lambda>(key, items). failure_draft s key items) (failure_groups s))) \<longleftrightarrow>
     (\<exists>k items app. (k, items) \<in> set (failure_groups s)
        \<and> FAILURE_THRESHOLD \<le> length (best_window at_time FAILURE_WINDOW (sort_key at_time items))
        \<and> signin_app s (hd (best_window at_time FAILURE_WINDOW (sort_key at_time items))) = Some app
        \<and> c = failure_candidate k app (best_window at_time FAILURE_WINDOW (sort_key at_time items)))"
  by (auto simp: failure_draft_iff) blast

lemma failure_group_iff:
  "(k, items) \<in> set (failure_groups s) \<longleftrightarrow>
     items = filter (\<lambda>a. failed_signin_verdict s a = Keyed k) (ds_activities s) \<and> items \<noteq> []"
  by (auto simp: failure_groups_def group_by_entries)

lemma best_burst:
  assumes ok: "snapshot_ok s" and g: "(k, items) \<in> set (failure_groups s)"
  defines "best \<equiv> best_window at_time FAILURE_WINDOW (sort_key at_time items)"
  shows "burst s k (set best)" "card (set best) = length best"
    "burst s k S \<Longrightarrow> card S \<le> length best"
proof -
  have so: "sorted (map at_time (sort_key at_time items))" by simp
  have items: "items = filter (\<lambda>a. failed_signin_verdict s a = Keyed k) (ds_activities s)"
    using g by (simp add: failure_group_iff)
  have d: "distinct items" using group_activities(3) [OF g [unfolded failure_groups_def] ok]
    by (simp add: distinct_map)
  note bw = best_window_props [OF so FAILURE_WINDOW_pos, folded best_def]
  show "burst s k (set best)" using bw(1,3) unfolding burst_keyed items by auto
  have "distinct (map (\<lambda>x. x) best)" by (rule bw(4)) (use d in simp)
  then show "card (set best) = length best" by (simp add: distinct_card)
  show "burst s k S \<Longrightarrow> card S \<le> length best"
    unfolding best_def
    by (rule close_set_le_best [OF so FAILURE_WINDOW_pos]) (use d items in \<open>auto simp: burst_keyed\<close>)
qed

lemma group_app:
  assumes "(k, items) \<in> set (failure_groups s)" and "a \<in> set items"
  shows "\<exists>app. signin_app s a = Some app \<and> dt_id app = snd k"
  using assms by (auto simp: failure_group_iff signin_verdict_keyed)

lemma best_window_hd_in:
  assumes "FAILURE_THRESHOLD \<le> length (best_window at_time FAILURE_WINDOW (sort_key at_time items))"
  shows "hd (best_window at_time FAILURE_WINDOW (sort_key at_time items)) \<in> set items"
proof -
  have "best_window at_time FAILURE_WINDOW (sort_key at_time items) \<noteq> []"
    using assms by (auto simp: FAILURE_THRESHOLD_def)
  then show ?thesis
    using best_window_props(1) [of at_time "sort_key at_time items" FAILURE_WINDOW] hd_in_set by force
qed

lemma failure_draft_exists_iff:
  assumes ok: "snapshot_ok s"
  shows "(\<exists>c \<in> set (concat (map (\<lambda>(key, items). failure_draft s key items) (failure_groups s))).
            names_pair c k) \<longleftrightarrow> (\<exists>S. burst s k S \<and> FAILURE_THRESHOLD \<le> card S)"
proof
  assume "\<exists>c \<in> set (concat (map (\<lambda>(key, items). failure_draft s key items) (failure_groups s))).
      names_pair c k"
  then obtain k' items app where g: "(k', items) \<in> set (failure_groups s)"
    and th: "FAILURE_THRESHOLD \<le> length (best_window at_time FAILURE_WINDOW (sort_key at_time items))"
    and app: "signin_app s (hd (best_window at_time FAILURE_WINDOW (sort_key at_time items))) = Some app"
    and k: "k = (fst k', dt_id app)"
    unfolding Bex_def failure_drafts_iff by auto
  have "k = k'" using group_app [OF g best_window_hd_in [OF th]] app k by (simp add: prod_eq_iff)
  then show "\<exists>S. burst s k S \<and> FAILURE_THRESHOLD \<le> card S"
    using best_burst(1,2) [OF ok g] th by metis
next
  assume "\<exists>S. burst s k S \<and> FAILURE_THRESHOLD \<le> card S"
  then obtain S where S: "burst s k S" and th: "FAILURE_THRESHOLD \<le> card S" by blast
  let ?items = "filter (\<lambda>a. failed_signin_verdict s a = Keyed k) (ds_activities s)"
  have "S \<noteq> {}" using th by (auto simp: FAILURE_THRESHOLD_def)
  then have g: "(k, ?items) \<in> set (failure_groups s)"
    using S by (auto simp: failure_group_iff burst_keyed filter_empty_conv)
  have le: "FAILURE_THRESHOLD \<le> length (best_window at_time FAILURE_WINDOW (sort_key at_time ?items))"
    using best_burst(3) [OF ok g S] th by simp
  obtain app where app: "signin_app s (hd (best_window at_time FAILURE_WINDOW (sort_key at_time ?items))) = Some app"
    and i: "dt_id app = snd k"
    using group_app [OF g best_window_hd_in [OF le]] by blast
  let ?c = "failure_candidate k app (best_window at_time FAILURE_WINDOW (sort_key at_time ?items))"
  have "?c \<in> set (concat (map (\<lambda>(key, items). failure_draft s key items) (failure_groups s)))"
    unfolding failure_drafts_iff using g le app by blast
  moreover have "names_pair ?c k" by (simp add: i)
  ultimately show "\<exists>c \<in> set (concat (map (\<lambda>(key, items). failure_draft s key items) (failure_groups s))).
      names_pair c k" by blast
qed



lemma strictly_sorted_split:
  assumes "sorted (map f xs)" and "distinct (map f xs)" and "xs = pre @ a # post"
  shows "set pre = {x \<in> set xs. f x < f a}"
proof -
  have "sorted_wrt (<) (map f pre @ f a # map f post)"
    using assms by (simp add: strict_sorted_iff)
  then have "\<forall>x \<in> set pre. f x < f a" "\<forall>x \<in> set post. f a < f x"
    by (auto simp: sorted_wrt_append)
  then show ?thesis unfolding assms(3) by (auto dest: less_asym)
qed

lemma last_filter_max:
  assumes "sorted (map f xs)" and "inj_on f (set xs)" and "filter P xs \<noteq> []"
  shows "r = last (filter P xs) \<longleftrightarrow> r \<in> set xs \<and> P r \<and> (\<forall>y \<in> set xs. P y \<longrightarrow> f y \<le> f r)"
proof -
  let ?l = "last (filter P xs)"
  have l: "?l \<in> set xs" "P ?l" using last_in_set [OF assms(3)] by auto
  have so: "sorted (map f (filter P xs))" using assms(1) by (simp add: sorted_filter)
  have m: "f y \<le> f ?l" if "y \<in> set xs" "P y" for y
  proof -
    obtain ys where e: "filter P xs = ys @ [?l]" using append_butlast_last_id [OF assms(3)] by metis
    have "y \<in> set (ys @ [?l])" using that e unfolding e [symmetric] by simp
    moreover have "sorted (map f (ys @ [?l]))" using so e by simp
    ultimately show ?thesis by (auto simp: sorted_append)
  qed
  show ?thesis using l m assms(2) by (metis inj_onD order_antisym)
qed

definition agentcore_session :: "det_activity \<Rightarrow> string \<Rightarrow> bool" where
  "agentcore_session a k \<longleftrightarrow> session_of a = Some k \<and> k \<noteq> [] \<and> da_provider a = Some ''aws_agentcore''"

text \<open>A retrieval the rule may pair with the call \<open>a\<close> of session \<open>k\<close>.\<close>

definition earlier_retrieval :: "det_snapshot \<Rightarrow> string \<Rightarrow> det_activity \<Rightarrow> det_activity \<Rightarrow> bool" where
  "earlier_retrieval s k a r \<longleftrightarrow> r \<in> set (ds_activities s) \<and> agentcore_session r k \<and> is_retrieval r
     \<and> within_sequence a r \<and> time_id r < time_id a"

lemma sequence_sessions_iff:
  "(k, items) \<in> set (sequence_sessions s) \<longleftrightarrow>
     items = filter (\<lambda>a. agentcore_session a k) (ds_activities s) \<and> items \<noteq> []"
proof -
  have "(case session_of a of Some k \<Rightarrow> if k \<noteq> [] \<and> da_provider a = Some ''aws_agentcore'' then Some k
      else None | None \<Rightarrow> None) = Some k \<longleftrightarrow> agentcore_session a k" for a
    by (auto simp: agentcore_session_def split: option.splits)
  then show ?thesis by (simp add: sequence_sessions_def group_by_entries)
qed

lemma session_hit_iff:
  assumes ok: "snapshot_ok s" and g: "(k, items) \<in> set (sequence_sessions s)"
  shows "(r, a) \<in> set (sequence_hits [] (sort_key time_id items)) \<longleftrightarrow>
     a \<in> set (ds_activities s) \<and> agentcore_session a k \<and> is_mutating_call a
     \<and> earlier_retrieval s k a r
     \<and> (\<forall>r'. earlier_retrieval s k a r' \<longrightarrow> time_id r' \<le> time_id r)"
proof -
  let ?xs = "sort_key time_id items"
  have items: "items = filter (\<lambda>a. agentcore_session a k) (ds_activities s)"
    using g by (simp add: sequence_sessions_iff)
  have so: "sorted (map time_id ?xs)" by simp
  have "distinct (map da_id ?xs)" unfolding items using dedup_ids [OF ok] by simp
  then have d: "distinct (map time_id ?xs)" by (auto simp: distinct_map inj_on_def)
  have hit: "filter (within_sequence a) (filter is_retrieval pre) \<noteq> []
        \<and> r = last (filter (within_sequence a) (filter is_retrieval pre)) \<longleftrightarrow>
      earlier_retrieval s k a r \<and> (\<forall>r'. earlier_retrieval s k a r' \<longrightarrow> time_id r' \<le> time_id r)"
    if sp: "?xs = pre @ a # post" for pre post
  proof -
    have pre: "set pre = {x \<in> set items. time_id x < time_id a}"
      using strictly_sorted_split [OF so d sp] by simp
    let ?P = "\<lambda>x. is_retrieval x \<and> within_sequence a x"
    have el: "earlier_retrieval s k a x \<longleftrightarrow> x \<in> set pre \<and> ?P x" for x
      unfolding pre items earlier_retrieval_def by auto
    have ff: "filter (within_sequence a) (filter is_retrieval pre) = filter ?P pre" by simp
    have so': "sorted (map time_id pre)" and inj: "inj_on time_id (set pre)"
      using so d unfolding sp by (simp_all add: sorted_append distinct_map)
    show ?thesis
    proof (cases "filter ?P pre = []")
      case True
      then have "\<not> (x \<in> set pre \<and> ?P x)" for x by (auto simp: filter_empty_conv)
      then show ?thesis unfolding ff el using True by blast
    next
      case False
      show ?thesis
        unfolding ff el last_filter_max [OF so' inj False] using False by blast
    qed
  qed
  have "(\<exists>pre post. ?xs = pre @ a # post) \<longleftrightarrow> a \<in> set ?xs" by (metis in_set_conv_decomp)
  then have mem: "(\<exists>pre post. ?xs = pre @ a # post) \<longleftrightarrow> a \<in> set (ds_activities s) \<and> agentcore_session a k"
    by (simp add: items)
  show ?thesis
    unfolding sequence_hits_iff append_Nil using hit mem by blast
qed

lemma sequence_candidate_exists:
  assumes ok: "snapshot_ok s" and a: "a \<in> set (ds_activities s)" and r: "r \<in> set (ds_activities s)"
  shows "(\<exists>c \<in> set (sequence_drafts s). map dal_activity_id (dc_activities c) = [da_id r, da_id a]) \<longleftrightarrow>
     (\<exists>k items g. (k, items) \<in> set (sequence_sessions s) \<and> session_agents s (Some k) = [g]
        \<and> (r, a) \<in> set (sequence_hits [] (sort_key time_id items)))"
proof
  assume "\<exists>c \<in> set (sequence_drafts s). map dal_activity_id (dc_activities c) = [da_id r, da_id a]"
  then obtain c where "c \<in> set (sequence_drafts s)"
    and ids: "map dal_activity_id (dc_activities c) = [da_id r, da_id a]" by (elim bexE)
  from this(1) obtain k items g r' a' where g: "(k, items) \<in> set (sequence_sessions s)"
    and ag: "session_agents s (Some k) = [g]"
    and h: "(r', a') \<in> set (sequence_hits [] (sort_key time_id items))"
    and c: "c = sequence_candidate s k g (r', a')" unfolding sequence_drafts_iff by (elim exE conjE)
  have "r' \<in> set (ds_activities s)" "a' \<in> set (ds_activities s)"
    using hit_facts(1,2) [OF h] g by (auto simp: sequence_sessions_iff)
  moreover have "da_id r' = da_id r" "da_id a' = da_id a" using ids unfolding c by auto
  moreover have "inj_on da_id (set (ds_activities s))"
    using ok by (simp add: snapshot_ok_def distinct_map)
  ultimately have "r' = r" "a' = a" using a r by (meson inj_onD)+
  then show "\<exists>k items g. (k, items) \<in> set (sequence_sessions s) \<and> session_agents s (Some k) = [g]
        \<and> (r, a) \<in> set (sequence_hits [] (sort_key time_id items))"
    using g ag h by blast
next
  assume "\<exists>k items g. (k, items) \<in> set (sequence_sessions s) \<and> session_agents s (Some k) = [g]
        \<and> (r, a) \<in> set (sequence_hits [] (sort_key time_id items))"
  then obtain k items g where "(k, items) \<in> set (sequence_sessions s)" "session_agents s (Some k) = [g]"
    "(r, a) \<in> set (sequence_hits [] (sort_key time_id items))" by blast
  then have "sequence_candidate s k g (r, a) \<in> set (sequence_drafts s)"
    unfolding sequence_drafts_iff by blast
  then show "\<exists>c \<in> set (sequence_drafts s). map dal_activity_id (dc_activities c) = [da_id r, da_id a]"
    by (rule bexI [rotated]) simp
qed


section \<open>The store\<close>

lemma store_candidate_get:
  "db_detections (store_candidate tenant v c db) k =
     (if k = (tenant, dc_correlation_key c) then
        Some (case db_detections db k of
             None \<Rightarrow> (fresh_row c v)\<lparr>dr_activities := dc_activities c, dr_assets := dc_assets c\<rparr>
           | Some r \<Rightarrow> (fresh_row c v)
               \<lparr>dr_last_changed_at := (if row_changed r c then instant (dc_last_seen_at c)
                                       else dr_last_changed_at r),
                dr_first_seen_at := min (dr_first_seen_at r) (instant (dc_first_seen_at c)),
                dr_last_seen_at := max (dr_last_seen_at r) (instant (dc_last_seen_at c)),
                dr_activities := dc_activities c, dr_assets := dc_assets c\<rparr>)
      else db_detections db k)"
  by (auto simp: store_candidate_def upsert_runtime_detection_def replace_runtime_detection_evidence_def
      Let_def split: option.splits)

text \<open>What the table keeps of a row: it never vanishes, never closes, and its period only grows.\<close>

definition row_grows :: "det_row option \<Rightarrow> det_row option \<Rightarrow> bool" where
  "row_grows old new \<longleftrightarrow> (\<forall>r. old = Some r \<longrightarrow> (\<exists>r'. new = Some r'
     \<and> dr_first_seen_at r' \<le> dr_first_seen_at r \<and> dr_last_seen_at r \<le> dr_last_seen_at r'
     \<and> (dr_state r' = dr_state r \<or> dr_state r' = ''open'')))"

lemma row_grows_refl [simp]: "row_grows x x"
  by (simp add: row_grows_def)

lemma row_grows_trans: "row_grows x y \<Longrightarrow> row_grows y z \<Longrightarrow> row_grows x z"
  unfolding row_grows_def by (cases x; cases y) (auto intro: order_trans)

text \<open>The effect of an operation of one tenant on the table.\<close>

definition keeps_history :: "string \<Rightarrow> (det_db \<Rightarrow> det_db) \<Rightarrow> bool" where
  "keeps_history tenant f \<longleftrightarrow> (\<forall>db k. row_grows (db_detections db k) (db_detections (f db) k)
     \<and> (fst k \<noteq> tenant \<longrightarrow> db_detections (f db) k = db_detections db k))"

lemma keeps_history_comp:
  "keeps_history tenant f \<Longrightarrow> keeps_history tenant g \<Longrightarrow> keeps_history tenant (\<lambda>db. g (f db))"
  unfolding keeps_history_def by (metis row_grows_trans)

lemma keeps_history_fold:
  "(\<And>x. keeps_history tenant (f x)) \<Longrightarrow> keeps_history tenant (fold f xs)"
proof (induction xs)
  case Nil
  then show ?case by (simp add: keeps_history_def)
next
  case (Cons x xs)
  then show ?case using keeps_history_comp [of tenant "f x" "fold f xs"] by (simp add: comp_def)
qed

lemma store_candidate_history: "keeps_history tenant (store_candidate tenant v c)"
  by (auto simp: keeps_history_def store_candidate_get row_grows_def fresh_row_def split: option.splits)

lemma touch_others_history: "keeps_history tenant (touch_others tenant v active)"
  by (auto simp: keeps_history_def touch_others_def row_grows_def split: option.splits)

lemma store_evaluation_history: "keeps_history tenant (store_evaluation tenant v)"
proof -
  have r: "keeps_history tenant (record_rule tenant v)"
    by (simp add: keeps_history_def record_rule_def)
  show ?thesis
    unfolding store_evaluation_def [abs_def]
    by (rule keeps_history_comp [OF keeps_history_comp [OF keeps_history_fold]])
      (rule store_candidate_history touch_others_history r)+
qed

definition shows_candidate :: "string \<Rightarrow> det_candidate \<Rightarrow> det_db \<Rightarrow> bool" where
  "shows_candidate tenant c db \<longleftrightarrow>
     (\<exists>r. db_detections db (tenant, dc_correlation_key c) = Some r \<and> dr_state r = ''open''
        \<and> dr_rule_uid r = dc_rule_uid c \<and> dr_title r = dc_title c \<and> dr_severity r = dc_severity c
        \<and> dr_confidence r = dc_confidence c \<and> dr_attributes r = dc_attributes c
        \<and> dr_activities r = dc_activities c \<and> dr_assets r = dc_assets c
        \<and> dr_first_seen_at r \<le> instant (dc_first_seen_at c)
        \<and> instant (dc_last_seen_at c) \<le> dr_last_seen_at r)"

lemma shows_stored: "shows_candidate tenant c (store_candidate tenant v c db)"
  by (auto simp: shows_candidate_def store_candidate_get fresh_row_def split: option.splits)

lemma shows_other:
  "dc_correlation_key d \<noteq> dc_correlation_key c \<Longrightarrow>
    shows_candidate tenant c (store_candidate tenant v d db) = shows_candidate tenant c db"
  by (simp add: shows_candidate_def store_candidate_get)

lemma shows_others_fold:
  "dc_correlation_key c \<notin> dc_correlation_key ` set ds \<Longrightarrow>
    shows_candidate tenant c (fold (store_candidate tenant v) ds db) = shows_candidate tenant c db"
  by (induction ds arbitrary: db) (auto simp: shows_other)

lemma shows_fold:
  "distinct (map dc_correlation_key ds) \<Longrightarrow> c \<in> set ds \<Longrightarrow>
    shows_candidate tenant c (fold (store_candidate tenant v) ds db)"
proof (induction ds arbitrary: db)
  case (Cons d ds)
  show ?case
  proof (cases "c = d")
    case True
    then show ?thesis using Cons.prems by (simp add: shows_others_fold shows_stored)
  next
    case False
    then show ?thesis using Cons by simp
  qed
qed simp

lemma shows_record [simp]: "shows_candidate tenant c (record_rule tenant' v db) = shows_candidate tenant c db"
  by (simp add: shows_candidate_def record_rule_def)

lemma shows_touch [simp]: "shows_candidate tenant c (touch_others tenant' v a db) = shows_candidate tenant c db"
  by (auto simp: shows_candidate_def touch_others_def split: option.splits)

lemma shows_evaluations:
  assumes "distinct (map dc_correlation_key (concat (map dv_candidates vs)))"
    and "v \<in> set vs" and "c \<in> set (dv_candidates v)"
  shows "shows_candidate tenant c (fold (store_evaluation tenant) vs db)"
  using assms
proof (induction vs arbitrary: db)
  case (Cons w ws)
  have other: "shows_candidate tenant c (fold (store_evaluation tenant) ws db) = shows_candidate tenant c db"
    if "dc_correlation_key c \<notin> dc_correlation_key ` set (concat (map dv_candidates ws))" for db
    using that by (induction ws arbitrary: db) (auto simp: store_evaluation_def shows_others_fold image_Un)
  show ?case
  proof (cases "c \<in> set (dv_candidates w)")
    case True
    then have "dc_correlation_key c \<notin> dc_correlation_key ` set (concat (map dv_candidates ws))"
      using Cons.prems(1) by auto
    moreover have "shows_candidate tenant c (store_evaluation tenant w db)"
      using True Cons.prems(1) by (simp add: store_evaluation_def shows_fold)
    ultimately show ?thesis using other by simp
  next
    case False
    then have "v \<in> set ws" using Cons.prems by auto
    then show ?thesis using Cons by simp
  qed
qed simp

text \<open>What a successful run returns.\<close>

lemma run_detection_rules_Inr:
  assumes "run_detection_rules str_of clock rows tenant s = Inr vs"
  obtains v1 v2 v3 v4 v5 v6 where "vs = [v1, v2, v3, v4, v5, v6]"
    "evaluate_repeated_failed_ai_signins s
        (plane_coverage rows tenant s [''entra_ai_signins'', ''entra_ai_application_inventory''])
        (clock ENTRA_FAILURE_RULE_UID) = Inr v1"
    "evaluate_unreviewed_ai_consent str_of s
        (plane_coverage rows tenant s [''entra_ai_directory_audits'', ''entra_ai_application_inventory''])
        (clock ENTRA_CONSENT_RULE_UID) = Inr v2"
    "evaluate_unreviewed_model_invocation s
        (any_plane_coverage rows tenant s [''vertex_cloud_audit_activity'',
           ''aws_agent_runtime_activity'', ''azure_foundry_agent_runtime_activity''])
        (clock UNREVIEWED_MODEL_RULE_UID) = Inr v3"
    "evaluate_aws_undeclared_model_invocation s
        (plane_coverage rows tenant s [''aws_agent_runtime_activity'', ''aws_agentcore_runtime_inventory''])
        (clock AWS_UNDECLARED_MODEL_RULE_UID) = Inr v4"
    "evaluate_aws_unapproved_tool_invocation s
        (plane_coverage rows tenant s [''aws_agent_runtime_activity'',
           ''aws_agentcore_runtime_inventory'', ''aws_agentcore_gateway_target_inventory''])
        (clock AWS_UNAPPROVED_TOOL_RULE_UID) = Inr v5"
    "evaluate_aws_risky_action_sequence s
        (plane_coverage rows tenant s [''aws_agent_runtime_activity''])
        (clock AWS_RISKY_SEQUENCE_RULE_UID) = Inr v6"
  using assms unfolding run_detection_rules_def map_res.simps bind_res_Inr by blast

lemma run_detection_rules_grounded:
  assumes "run_detection_rules str_of clock rows tenant s = Inr vs" and "v \<in> set vs"
    and "c \<in> set (dv_candidates v)"
  shows "grounded s c"
proof (rule run_detection_rules_Inr [OF assms(1)])
  fix v1 v2 v3 v4 v5 v6
  assume vs: "vs = [v1, v2, v3, v4, v5, v6]"
    and r: "evaluate_repeated_failed_ai_signins s
        (plane_coverage rows tenant s [''entra_ai_signins'', ''entra_ai_application_inventory''])
        (clock ENTRA_FAILURE_RULE_UID) = Inr v1"
    "evaluate_unreviewed_ai_consent str_of s
        (plane_coverage rows tenant s [''entra_ai_directory_audits'', ''entra_ai_application_inventory''])
        (clock ENTRA_CONSENT_RULE_UID) = Inr v2"
    "evaluate_unreviewed_model_invocation s
        (any_plane_coverage rows tenant s [''vertex_cloud_audit_activity'',
           ''aws_agent_runtime_activity'', ''azure_foundry_agent_runtime_activity''])
        (clock UNREVIEWED_MODEL_RULE_UID) = Inr v3"
    "evaluate_aws_undeclared_model_invocation s
        (plane_coverage rows tenant s [''aws_agent_runtime_activity'', ''aws_agentcore_runtime_inventory''])
        (clock AWS_UNDECLARED_MODEL_RULE_UID) = Inr v4"
    "evaluate_aws_unapproved_tool_invocation s
        (plane_coverage rows tenant s [''aws_agent_runtime_activity'',
           ''aws_agentcore_runtime_inventory'', ''aws_agentcore_gateway_target_inventory''])
        (clock AWS_UNAPPROVED_TOOL_RULE_UID) = Inr v5"
    "evaluate_aws_risky_action_sequence s
        (plane_coverage rows tenant s [''aws_agent_runtime_activity''])
        (clock AWS_RISKY_SEQUENCE_RULE_UID) = Inr v6"
  have "v \<in> {v1, v2, v3, v4, v5, v6}" using assms(2) vs by simp
  then show "grounded s c"
    using failures.result_grounded [OF r(1)] consent.result_grounded [OF r(2)]
      models.result_grounded [OF r(3)] undeclared.result_grounded [OF r(4)]
      tools.result_grounded [OF r(5)] sequences.result_grounded [OF r(6)] assms(3) by blast
qed

lemma run_detection_rules_states:
  assumes "run_detection_rules str_of clock rows tenant s = Inr vs"
  shows "map dv_state vs =
     [plane_coverage rows tenant s [''entra_ai_signins'', ''entra_ai_application_inventory''],
      plane_coverage rows tenant s [''entra_ai_directory_audits'', ''entra_ai_application_inventory''],
      any_plane_coverage rows tenant s [''vertex_cloud_audit_activity'',
        ''aws_agent_runtime_activity'', ''azure_foundry_agent_runtime_activity''],
      plane_coverage rows tenant s [''aws_agent_runtime_activity'', ''aws_agentcore_runtime_inventory''],
      plane_coverage rows tenant s [''aws_agent_runtime_activity'',
        ''aws_agentcore_runtime_inventory'', ''aws_agentcore_gateway_target_inventory''],
      plane_coverage rows tenant s [''aws_agent_runtime_activity'']]"
  by (rule run_detection_rules_Inr [OF assms])
    (simp only: list.map failures.result(2) consent.result(2) models.result(2)
        undeclared.result(2) tools.result(2) sequences.result(2))

lemma run_detection_rules_uids:
  assumes "run_detection_rules str_of clock rows tenant s = Inr vs"
  shows "map dv_rule_uid vs = [ENTRA_FAILURE_RULE_UID, ENTRA_CONSENT_RULE_UID, UNREVIEWED_MODEL_RULE_UID,
    AWS_UNDECLARED_MODEL_RULE_UID, AWS_UNAPPROVED_TOOL_RULE_UID, AWS_RISKY_SEQUENCE_RULE_UID]"
  by (rule run_detection_rules_Inr [OF assms])
    (simp only: list.map failures.result(1) consent.result(1) models.result(1)
        undeclared.result(1) tools.result(1) sequences.result(1))

section \<open>A concrete snapshot\<close>

definition ex_asset :: "string \<Rightarrow> string \<Rightarrow> string \<Rightarrow> det_asset" where
  "ex_asset i kind gov = \<lparr>dt_id = i, dt_kind = kind, dt_natural_key = ''nk-'' @ i, dt_display_name = i,
     dt_governance_status = gov, dt_lifecycle_state = ''active'', dt_attributes = []\<rparr>"

definition ex_activity ::
    "string \<Rightarrow> string \<Rightarrow> string \<Rightarrow> int \<Rightarrow> (string \<times> string \<times> string option) list \<Rightarrow> det_activity" where
  "ex_activity i category outcome minutes es =
     \<lparr>da_id = i, da_category = category, da_outcome = outcome, da_title = i,
      da_occurred_at = Aware (minutes * micros_per_minute) 0, da_provider = Some ''aws_agentcore'',
      da_connection_id = Some ''conn'', da_session_key = None, da_session_uid = Some ''sess'',
      da_trace_uid = None, da_span_uid = None, da_parent_span_uid = None, da_attributes = [],
      da_evidence = [], da_entities = map (\<lambda>(role, uid, asset).
        \<lparr>de_role = role, de_external_uid = uid, de_display_name = None, de_asset_id = asset\<rparr>) es\<rparr>"

definition ex_signin :: "string \<Rightarrow> int \<Rightarrow> det_activity" where
  "ex_signin i minutes = ex_activity i ''ai_app_sign_in'' ''failure'' minutes
     [(''actor'', ''Alice'', None), (''application'', ''app'', Some ''a1'')]"

definition ex_failures :: det_snapshot where
  "ex_failures = \<lparr>ds_activities = [ex_signin ''e3'' 90, ex_signin ''e1'' 10, ex_signin ''e2'' 50],
     ds_assets = [ex_asset ''a1'' ''ai_application'' ''unreviewed''], ds_truncated = False\<rparr>"

definition ex_session :: det_snapshot where
  "ex_session = \<lparr>ds_activities =
       [ex_activity ''r1'' ''retrieval'' ''success'' 1 [(''agent'', ''g'', Some ''a1'')],
        ex_activity ''t1'' ''tool_invocation'' ''success'' 4 [(''tool'', ''send_mail'', None)]],
     ds_assets = [ex_asset ''a1'' ''ai_agent'' ''approved''], ds_truncated = False\<rparr>"

definition ex_now :: py_datetime where "ex_now = Aware 9000000000 0"

lemmas ex_defs = ex_asset_def ex_activity_def ex_signin_def ex_failures_def ex_session_def
lemmas lookup_defs = one_entity_def linked_asset_def assets_by_id_def dict_of_def

lemma ex_failures_ok: "snapshot_ok ex_failures"
  by (simp add: snapshot_ok_def ex_defs)

lemma ex_session_ok: "snapshot_ok ex_session"
  by (simp add: snapshot_ok_def ex_defs)

lemma ex_now_aware [simp]: "tz_aware ex_now"
  by (simp add: ex_now_def)

lemma ex_signin_verdict:
  "failed_signin_verdict ex_failures (ex_signin i m) = Keyed (''alice'', ''a1'')"
proof -
  have "casefold ''Alice'' = ''alice''" by code_simp
  then show ?thesis
    by (simp add: failed_signin_verdict_def lookup_defs ex_defs)
qed

lemma ex_signin_time: "at_time (ex_signin i m) = m * micros_per_minute"
  by (simp add: ex_signin_def ex_activity_def)

lemma ex_failures_activities:
  "ds_activities ex_failures = [ex_signin ''e3'' 90, ex_signin ''e1'' 10, ex_signin ''e2'' 50]"
  by (simp add: ex_failures_def)

lemma ex_failures_groups:
  "failure_groups ex_failures = [((''alice'', ''a1''), ds_activities ex_failures)]"
  by (simp add: failure_groups_def group_by_def ex_signin_verdict dict_append_def
      ex_failures_activities)

lemma ex_failures_runs: "\<exists>v. evaluate_repeated_failed_ai_signins ex_failures COMPLETE ex_now = Inr v"
proof -
  have "distinct (map dc_correlation_key (failure_draft s k items))" for s k items
    by (auto simp: failure_draft_def Let_def split: option.splits)
  then show ?thesis
    using failures.succeeds_iff [OF ex_failures_ok ex_now_aware, of COMPLETE]
    by (simp add: ex_failures_groups)
qed

definition ex_key :: string where "ex_key = ''conn'' @ [CHR 0x1F] @ ''sess''"
definition ex_r :: det_activity where
  "ex_r = ex_activity ''r1'' ''retrieval'' ''success'' 1 [(''agent'', ''g'', Some ''a1'')]"
definition ex_t :: det_activity where
  "ex_t = ex_activity ''t1'' ''tool_invocation'' ''success'' 4 [(''tool'', ''send_mail'', None)]"

lemma ex_session_activities: "ds_activities ex_session = [ex_r, ex_t]"
  by (simp add: ex_session_def ex_r_def ex_t_def)

lemma ex_session_mem:
  "agentcore_session ex_r k \<longleftrightarrow> k = ex_key" "agentcore_session ex_t k \<longleftrightarrow> k = ex_key"
  by (auto simp: agentcore_session_def ex_key_def ex_r_def ex_t_def ex_activity_def session_of_def
      )

lemma ex_session_agents: "agents_in ex_session ex_key = {ex_asset ''a1'' ''ai_agent'' ''approved''}"
  by (auto simp: agents_in_def session_agent_pairs_link ex_session_activities ex_session_def
      linked_asset_def assets_by_id_def dict_of_def ex_asset_def ex_r_def ex_t_def ex_activity_def ex_key_def
      session_of_def )

lemma ex_t_mutating: "is_mutating_call ex_t" 
proof -
  have "is_mutating_tool ex_t" unfolding ex_t_def ex_activity_def by code_simp
  then show ?thesis by (simp add: is_mutating_call_def successful_aws_def ex_t_def ex_activity_def)
qed

lemma ex_kinds: "is_retrieval ex_r" "\<not> is_retrieval ex_t" "\<not> is_mutating_call ex_r"
  by (simp_all add: is_retrieval_def is_mutating_call_def successful_aws_def ex_r_def ex_t_def ex_activity_def)

lemma ex_session_earlier: "earlier_retrieval ex_session ex_key ex_t r \<longleftrightarrow> r = ex_r"
  by (auto simp: earlier_retrieval_def ex_session_activities ex_session_mem ex_kinds within_sequence_def)
   (simp_all add: ex_r_def ex_t_def ex_activity_def AWS_SEQUENCE_WINDOW_def micros_per_minute_def)

lemma ex_session_runs: "\<exists>v. evaluate_aws_risky_action_sequence ex_session COMPLETE ex_now = Inr v"
proof -
  have g: "sequence_sessions ex_session = [(ex_key, [ex_r, ex_t])]"
    by (simp add: sequence_sessions_def ex_session_activities group_by_def ex_r_def ex_t_def ex_activity_def
      session_of_def  dict_append_def ex_key_def)
  have t: "time_id ex_r \<le> time_id ex_t" 
    by (simp add: ex_r_def ex_t_def ex_activity_def micros_per_minute_def)
  then have "sort_key time_id [ex_r, ex_t] = [ex_r, ex_t]" by simp
  then have "distinct (map dc_correlation_key (sequence_drafts ex_session))"
    by (auto simp: sequence_drafts_def g session_hits_def sequence_hits_Cons ex_kinds split: list.splits)
  then show ?thesis
    using sequences.succeeds_iff [OF ex_session_ok ex_now_aware, of COMPLETE] by simp
qed

lemma ex_burst:
  "burst ex_failures (''alice'', ''a1'') (set (ds_activities ex_failures))"
  "card (set (ds_activities ex_failures)) = 3"
proof -
  let ?S = "set (ds_activities ex_failures)"
  have S: "?S = {ex_signin ''e3'' 90, ex_signin ''e1'' 10, ex_signin ''e2'' 50}"
    by (simp add: ex_failures_activities)
  show "burst ex_failures (''alice'', ''a1'') ?S"
    unfolding burst_keyed
    by (auto simp: S ex_signin_verdict ex_signin_time FAILURE_WINDOW_def micros_per_hour_def
        micros_per_minute_def ex_failures_activities)
  show "card ?S = 3"
    unfolding S by (simp add: ex_signin_def ex_activity_def)
qed

section \<open>Properties\<close>

text \<open>
  C11. The failed sign-in rule reports an actor and an application exactly when at least three
  failed sign-ins of that exact actor to that exact AI application lie inside 24 hours, whatever
  the order of the telemetry. What it reports is such a burst, no other one is larger, its activities
  are listed once each in the order of time, and the detection spans from the first to the last.
\<close>

theorem signin_burst_iff:
  assumes "snapshot_ok s" and "evaluate_repeated_failed_ai_signins s cov now = Inr v"
  shows "((\<exists>c \<in> set (dv_candidates v). names_pair c k) \<longleftrightarrow> (\<exists>S. burst s k S \<and> 3 \<le> card S))
    \<and> (\<forall>c \<in> set (dv_candidates v). names_pair c k \<longrightarrow>
         (\<exists>xs. dc_activities c = map (\<lambda>a. \<lparr>dal_activity_id = da_id a, dal_role = ''failed_sign_in''\<rparr>) xs
            \<and> distinct xs \<and> sorted (map at_time xs) \<and> 3 \<le> length xs \<and> burst s k (set xs)
            \<and> (\<forall>S. burst s k S \<longrightarrow> card S \<le> length xs)
            \<and> dc_first_seen_at c = da_occurred_at (hd xs) \<and> dc_last_seen_at c = da_occurred_at (last xs)))"
proof
  note cands = failures.result(4) [OF assms(2)]
  show "(\<exists>c \<in> set (dv_candidates v). names_pair c k) \<longleftrightarrow> (\<exists>S. burst s k S \<and> 3 \<le> card S)"
    unfolding cands failure_draft_exists_iff [OF assms(1)] by (simp add: FAILURE_THRESHOLD_def)
  show "\<forall>c \<in> set (dv_candidates v). names_pair c k \<longrightarrow>
         (\<exists>xs. dc_activities c = map (\<lambda>a. \<lparr>dal_activity_id = da_id a, dal_role = ''failed_sign_in''\<rparr>) xs
            \<and> distinct xs \<and> sorted (map at_time xs) \<and> 3 \<le> length xs \<and> burst s k (set xs)
            \<and> (\<forall>S. burst s k S \<longrightarrow> card S \<le> length xs)
            \<and> dc_first_seen_at c = da_occurred_at (hd xs) \<and> dc_last_seen_at c = da_occurred_at (last xs))"
  proof (intro ballI impI)
    fix c assume c: "c \<in> set (dv_candidates v)" and k: "names_pair c k"
    obtain k' items app where g: "(k', items) \<in> set (failure_groups s)"
      and th: "FAILURE_THRESHOLD \<le> length (best_window at_time FAILURE_WINDOW (sort_key at_time items))"
      and app: "signin_app s (hd (best_window at_time FAILURE_WINDOW (sort_key at_time items))) = Some app"
      and c': "c = failure_candidate k' app (best_window at_time FAILURE_WINDOW (sort_key at_time items))"
      using c unfolding cands failure_drafts_iff by blast
    have "k = k'"
      using k group_app [OF g best_window_hd_in [OF th]] app by (auto simp: c' prod_eq_iff)
    moreover have "distinct (best_window at_time FAILURE_WINDOW (sort_key at_time items))"
      using best_burst(2) [OF assms(1) g] by (rule card_distinct)
    moreover have "sorted (map at_time (best_window at_time FAILURE_WINDOW (sort_key at_time items)))"
      by (rule best_window_props(2)) (simp_all add: FAILURE_WINDOW_pos)
    ultimately show "\<exists>xs. dc_activities c = map (\<lambda>a. \<lparr>dal_activity_id = da_id a, dal_role = ''failed_sign_in''\<rparr>) xs
            \<and> distinct xs \<and> sorted (map at_time xs) \<and> 3 \<le> length xs \<and> burst s k (set xs)
            \<and> (\<forall>S. burst s k S \<longrightarrow> card S \<le> length xs)
            \<and> dc_first_seen_at c = da_occurred_at (hd xs) \<and> dc_last_seen_at c = da_occurred_at (last xs)"
      using best_burst(1,3) [OF assms(1) g] th
      by (intro exI [of _ "best_window at_time FAILURE_WINDOW (sort_key at_time items)"])
        (simp add: c' failure_candidate_links FAILURE_THRESHOLD_def)
  qed
qed

theorem signin_burst_iff_witness:
  "\<exists>v. evaluate_repeated_failed_ai_signins ex_failures COMPLETE ex_now = Inr v
    \<and> (\<exists>c \<in> set (dv_candidates v). names_pair c (''alice'', ''a1'') \<and> 3 \<le> length (dc_activities c))"
proof -
  obtain v where v: "evaluate_repeated_failed_ai_signins ex_failures COMPLETE ex_now = Inr v"
    using ex_failures_runs by blast
  note rule = signin_burst_iff [OF ex_failures_ok v, of "(''alice'', ''a1'')"]
  have "\<exists>S. burst ex_failures (''alice'', ''a1'') S \<and> 3 \<le> card S" using ex_burst by auto
  then obtain c where "c \<in> set (dv_candidates v)" "names_pair c (''alice'', ''a1'')" using rule by blast
  moreover from this have "3 \<le> length (dc_activities c)" using rule by (metis length_map)
  ultimately show ?thesis using v by blast
qed

text \<open>
  C12. The risky-sequence rule pairs a retrieval \<open>r\<close> with a mutating tool call \<open>a\<close>
  exactly when both are telemetry of one AgentCore session with exactly one linked agent, \<open>r\<close>
  precedes \<open>a\<close> by at most five minutes, and no later retrieval of the session does: the
  single pass over the sorted session finds the latest eligible retrieval and misses no call.
\<close>

theorem sequence_rule_iff:
  assumes "snapshot_ok s" and "evaluate_aws_risky_action_sequence s cov now = Inr v"
    and "a \<in> set (ds_activities s)" and "r \<in> set (ds_activities s)"
  shows "(\<exists>c \<in> set (dv_candidates v). map dal_activity_id (dc_activities c) = [da_id r, da_id a]) \<longleftrightarrow>
    (\<exists>k g. agentcore_session a k \<and> is_mutating_call a \<and> agents_in s k = {g}
       \<and> earlier_retrieval s k a r
       \<and> (\<forall>r'. earlier_retrieval s k a r' \<longrightarrow> time_id r' \<le> time_id r))"
  (is "_ \<longleftrightarrow> ?R")
proof -
  have "(\<exists>k items g. (k, items) \<in> set (sequence_sessions s) \<and> session_agents s (Some k) = [g]
      \<and> (r, a) \<in> set (sequence_hits [] (sort_key time_id items))) \<longleftrightarrow> ?R" (is "?L \<longleftrightarrow> _")
  proof
    assume ?L
    then obtain k items g where e: "(k, items) \<in> set (sequence_sessions s)"
      and ag: "session_agents s (Some k) = [g]"
      and h: "(r, a) \<in> set (sequence_hits [] (sort_key time_id items))" by blast
    have "agents_in s k = {g}" using ag unfolding session_agents_one by simp
    then show ?R using h unfolding session_hit_iff [OF assms(1) e] by blast
  next
    assume ?R
    then obtain k g where k: "agentcore_session a k" "is_mutating_call a" "agents_in s k = {g}"
      "earlier_retrieval s k a r" "\<forall>r'. earlier_retrieval s k a r' \<longrightarrow> time_id r' \<le> time_id r" by blast
    let ?items = "filter (\<lambda>a. agentcore_session a k) (ds_activities s)"
    have g: "(k, ?items) \<in> set (sequence_sessions s)"
      using k(1) assms(3) by (auto simp: sequence_sessions_iff filter_empty_conv)
    moreover have "session_agents s (Some k) = [g]"
      using k(1,3) by (simp add: session_agents_one agentcore_session_def)
    moreover have "(r, a) \<in> set (sequence_hits [] (sort_key time_id ?items))"
      unfolding session_hit_iff [OF assms(1) g] using k assms(3) by blast
    ultimately show ?L by blast
  qed
  then show ?thesis
    unfolding sequences.result(4) [OF assms(2)] sequence_candidate_exists [OF assms(1,3,4)] .
qed

theorem sequence_rule_iff_witness:
  "\<exists>v. evaluate_aws_risky_action_sequence ex_session COMPLETE ex_now = Inr v
    \<and> (\<exists>c \<in> set (dv_candidates v). map dal_activity_id (dc_activities c) = [''r1'', ''t1''])"
proof -
  obtain v where v: "evaluate_aws_risky_action_sequence ex_session COMPLETE ex_now = Inr v"
    using ex_session_runs by blast
  have ids: "da_id ex_r = ''r1''" "da_id ex_t = ''t1''" by (simp_all add: ex_r_def ex_t_def ex_activity_def)
  have "\<exists>c \<in> set (dv_candidates v). map dal_activity_id (dc_activities c) = [da_id ex_r, da_id ex_t]"
    using sequence_rule_iff [OF ex_session_ok v, of ex_t ex_r] ex_session_mem ex_t_mutating
      ex_session_agents ex_session_earlier
    by (simp add: ex_session_activities)
  then show ?thesis using v ids by simp
qed
text \<open>An empty store.\<close>

definition ex_db :: det_db where
  "ex_db = \<lparr>db_detections = Map.empty, db_rules = Map.empty\<rparr>"

lemma ex_no_drafts:
  "consent_groups ex_failures = []" "model_groups ex_failures = []" "undeclared_groups ex_failures = []"
  "tool_drafts ex_failures cov = []"
  by (simp_all add: consent_groups_def model_groups_def undeclared_groups_def tool_drafts_def
      group_by_def ex_failures_activities ex_signin_def ex_activity_def
      consent_verdict_def model_verdict_def undeclared_verdict_def tool_verdict_def successful_aws_def
      map_filter_simps)

lemma ex_no_sequences: "sequence_drafts ex_failures = []"
proof -
  have that: "\<not> is_retrieval r" if "r \<in> set (ds_activities ex_failures)" for r
    using that by (auto simp: ex_failures_activities is_retrieval_def ex_signin_def ex_activity_def)
  have "c \<notin> set (sequence_drafts ex_failures)" for c
  proof
    assume "c \<in> set (sequence_drafts ex_failures)"
    then obtain k items g r a where e: "(k, items) \<in> set (sequence_sessions ex_failures)"
      and h: "(r, a) \<in> set (sequence_hits [] (sort_key time_id items))"
      unfolding sequence_drafts_iff by (elim exE conjE)
    have "r \<in> set (ds_activities ex_failures)"
      using hit_facts(1) [OF h] e by (simp add: sequence_sessions_iff)
    then show False using hit_facts(3) [OF h] that by blast
  qed
  then show ?thesis by (cases "sequence_drafts ex_failures") auto
qed

lemma ex_run:
  "\<exists>v1 v2 v3 v4 v5 v6. run_detection_rules str_of (\<lambda>_. ex_now) rows t ex_failures = Inr [v1, v2, v3, v4, v5, v6]
     \<and> dv_candidates v1 \<noteq> [] \<and> concat (map dv_candidates [v2, v3, v4, v5, v6]) = []"
proof -
  note ok = ex_failures_ok ex_now_aware
  have d1: "distinct (map dc_correlation_key (failure_draft s k items))" for s k items
    by (auto simp: failure_draft_def Let_def split: option.splits)
  obtain v1 where v1: "evaluate_repeated_failed_ai_signins ex_failures
      (plane_coverage rows t ex_failures [''entra_ai_signins'', ''entra_ai_application_inventory'']) ex_now = Inr v1"
    using failures.succeeds_iff [OF ok] d1 by (fastforce simp: ex_failures_groups)
  obtain v2 where v2: "evaluate_unreviewed_ai_consent str_of ex_failures
      (plane_coverage rows t ex_failures [''entra_ai_directory_audits'', ''entra_ai_application_inventory''])
      ex_now = Inr v2"
    using consent.succeeds_iff [OF ok] by (fastforce simp: ex_no_drafts)
  obtain v3 where v3: "evaluate_unreviewed_model_invocation ex_failures
      (any_plane_coverage rows t ex_failures [''vertex_cloud_audit_activity'',
           ''aws_agent_runtime_activity'', ''azure_foundry_agent_runtime_activity'']) ex_now = Inr v3"
    using models.succeeds_iff [OF ok] by (fastforce simp: ex_no_drafts)
  obtain v4 where v4: "evaluate_aws_undeclared_model_invocation ex_failures
      (plane_coverage rows t ex_failures [''aws_agent_runtime_activity'', ''aws_agentcore_runtime_inventory''])
      ex_now = Inr v4"
    using undeclared.succeeds_iff [OF ok] by (fastforce simp: ex_no_drafts)
  obtain v5 where v5: "evaluate_aws_unapproved_tool_invocation ex_failures
      (plane_coverage rows t ex_failures [''aws_agent_runtime_activity'',
           ''aws_agentcore_runtime_inventory'', ''aws_agentcore_gateway_target_inventory'']) ex_now = Inr v5"
    using tools.succeeds_iff [OF ok] by (fastforce simp: ex_no_drafts)
  obtain v6 where v6: "evaluate_aws_risky_action_sequence ex_failures
      (plane_coverage rows t ex_failures [''aws_agent_runtime_activity'']) ex_now = Inr v6"
    using sequences.succeeds_iff [OF ok] by (fastforce simp: ex_no_sequences)
  have run: "run_detection_rules str_of (\<lambda>_. ex_now) rows t ex_failures = Inr [v1, v2, v3, v4, v5, v6]"
    by (simp add: run_detection_rules_def v1 v2 v3 v4 v5 v6)
  have none: "set (dv_candidates v2) = {}" "set (dv_candidates v3) = {}" "set (dv_candidates v4) = {}"
    "set (dv_candidates v5) = {}" "set (dv_candidates v6) = {}"
    using consent.result(4) [OF v2] models.result(4) [OF v3] undeclared.result(4) [OF v4]
      tools.result(4) [OF v5] sequences.result(4) [OF v6]
    by (simp_all add: ex_no_drafts ex_no_sequences)
  have "\<exists>S. burst ex_failures (''alice'', ''a1'') S \<and> FAILURE_THRESHOLD \<le> card S"
    using ex_burst by (intro exI [of _ "set (ds_activities ex_failures)"]) (simp add: FAILURE_THRESHOLD_def)
  then have "\<exists>c \<in> set (dv_candidates v1). names_pair c (''alice'', ''a1'')"
    unfolding failures.result(4) [OF v1] failure_draft_exists_iff [OF ex_failures_ok] .
  then have "dv_candidates v1 \<noteq> []" by auto
  then show ?thesis using run none by auto
qed

lemma evaluate_runtime_detections_Inr:
  assumes "evaluate_runtime_detections str_of clock rows tenant s db = Inr (db', n, vs)"
  obtains ws where "run_detection_rules str_of clock rows tenant s = Inr ws"
    "vs = (if ds_truncated s then map limit_detail ws else ws)"
    "db' = fold (store_evaluation tenant) vs db" "n = sum_list (map (\<lambda>v. length (dv_candidates v)) vs)"
  using assms unfolding evaluate_runtime_detections_def bind_res_Inr Let_def by auto

lemma limit_detail_fields [simp]:
  "dv_candidates (limit_detail v) = dv_candidates v" "dv_state (limit_detail v) = dv_state v"
  "dv_rule_uid (limit_detail v) = dv_rule_uid v"
  by (simp_all add: limit_detail_def)

text \<open>
  C18. Every candidate of every rule is stored: after a successful evaluation the row under its
  correlation key is open, carries the candidate's rule, title, severity, confidence and exactly its
  evidence links, and every link points at an activity or asset of the evaluated snapshot. (Keys of
  distinct candidates are assumed distinct: they are SHA-256 digests.)
\<close>

theorem detections_stored:
  assumes "evaluate_runtime_detections str_of clock rows tenant s db = Inr (db', n, vs)"
    and "distinct (map dc_correlation_key (concat (map dv_candidates vs)))"
    and "v \<in> set vs" and "c \<in> set (dv_candidates v)"
  shows "shows_candidate tenant c db' \<and> grounded s c"
proof
  obtain ws where run: "run_detection_rules str_of clock rows tenant s = Inr ws"
    and vs: "vs = (if ds_truncated s then map limit_detail ws else ws)"
    and db': "db' = fold (store_evaluation tenant) vs db"
    using evaluate_runtime_detections_Inr [OF assms(1)] by metis
  show "shows_candidate tenant c db'"
    unfolding db' using assms(2-4) by (rule shows_evaluations)
  obtain w where "w \<in> set ws" "c \<in> set (dv_candidates w)" using assms(3,4) vs by (auto split: if_splits)
  then show "grounded s c" by (rule run_detection_rules_grounded [OF run])
qed

lemma ex_evaluation:
  "\<exists>db' n v vs. evaluate_runtime_detections str_of (\<lambda>_. ex_now) [] ''t'' ex_failures ex_db = Inr (db', n, vs)
     \<and> distinct (map dc_correlation_key (concat (map dv_candidates vs)))
     \<and> v \<in> set vs \<and> dv_candidates v \<noteq> []"
proof -
  obtain v1 v2 v3 v4 v5 v6
    where run: "run_detection_rules str_of (\<lambda>_. ex_now) [] ''t'' ex_failures = Inr [v1, v2, v3, v4, v5, v6]"
    and v1: "dv_candidates v1 \<noteq> []" and rest: "concat (map dv_candidates [v2, v3, v4, v5, v6]) = []"
    using ex_run by blast
  have "\<not> ds_truncated ex_failures" by (simp add: ex_failures_def)
  then have "evaluate_runtime_detections str_of (\<lambda>_. ex_now) [] ''t'' ex_failures ex_db =
      Inr (fold (store_evaluation ''t'') [v1, v2, v3, v4, v5, v6] ex_db,
        sum_list (map (\<lambda>v. length (dv_candidates v)) [v1, v2, v3, v4, v5, v6]), [v1, v2, v3, v4, v5, v6])"
    unfolding evaluate_runtime_detections_def run by (simp add: Let_def)
  moreover have "distinct (map dc_correlation_key (dv_candidates v1))"
    by (rule run_detection_rules_Inr [OF run]) (use failures.result(6) in auto)
  then have "distinct (map dc_correlation_key (concat (map dv_candidates [v1, v2, v3, v4, v5, v6])))"
    using rest by simp
  ultimately show ?thesis using v1 by (metis list.set_intros(1))
qed

theorem detections_stored_witness:
  "\<exists>db' n vs v c. evaluate_runtime_detections (\<lambda>_. ''?'') (\<lambda>_. ex_now) [] ''t'' ex_failures ex_db = Inr (db', n, vs)
     \<and> v \<in> set vs \<and> c \<in> set (dv_candidates v) \<and> shows_candidate ''t'' c db' \<and> grounded ex_failures c"
proof -
  obtain db' n v vs
    where e: "evaluate_runtime_detections (\<lambda>_. ''?'') (\<lambda>_. ex_now) [] ''t'' ex_failures ex_db = Inr (db', n, vs)"
    and d: "distinct (map dc_correlation_key (concat (map dv_candidates vs)))"
    and v: "v \<in> set vs" and ne: "dv_candidates v \<noteq> []"
    using ex_evaluation by blast
  have c: "hd (dv_candidates v) \<in> set (dv_candidates v)" using ne by simp
  show ?thesis using e v c detections_stored [OF e d v c] by blast
qed

text \<open>
  C21. The detection table is a history: whatever the rules find, no row of the table disappears or
  leaves the open state, its first-seen time never moves later and its last-seen time never earlier,
  and rows of another tenant are untouched.
\<close>

theorem detection_history_grows:
  assumes "evaluate_runtime_detections str_of clock rows tenant s db = Inr (db', n, vs)"
  shows "row_grows (db_detections db k) (db_detections db' k)
    \<and> (fst k \<noteq> tenant \<longrightarrow> db_detections db' k = db_detections db k)"
proof -
  obtain ws where db': "db' = fold (store_evaluation tenant) vs db"
    using evaluate_runtime_detections_Inr [OF assms] by metis
  have "keeps_history tenant (fold (store_evaluation tenant) vs)"
    by (rule keeps_history_fold) (rule store_evaluation_history)
  then show ?thesis unfolding db' keeps_history_def by blast
qed

theorem detection_history_grows_witness:
  "\<exists>db' n vs. evaluate_runtime_detections (\<lambda>_. ''?'') (\<lambda>_. ex_now) [] ''t'' ex_failures ex_db = Inr (db', n, vs)
     \<and> db_detections db' (''u'', ''k'') = None"
proof -
  obtain db' n vs
    where e: "evaluate_runtime_detections (\<lambda>_. ''?'') (\<lambda>_. ex_now) [] ''t'' ex_failures ex_db = Inr (db', n, vs)"
    using ex_evaluation by blast
  show ?thesis using e detection_history_grows [OF e, of "(''u'', ''k'')"] by (auto simp: ex_db_def)
qed

lemma record_rule_get:
  "db_rules (store_evaluation tenant v db) =
     (db_rules db)((tenant, dv_rule_uid v) \<mapsto>
        \<lparr>rr_state = dv_state v, rr_confirmed = length (dv_candidates v),
         rr_incomplete = dv_incomplete v, rr_detail = dv_detail v,
         rr_evaluated_at = instant (dv_evaluated_at v)\<rparr>)"
proof -
  have "db_rules (store_candidate tenant v c db) = db_rules db" for c db
    by (simp add: store_candidate_def upsert_runtime_detection_def replace_runtime_detection_evidence_def Let_def)
  then have "db_rules (fold (store_candidate tenant v) cs db) = db_rules db" for cs db
    by (induction cs arbitrary: db) auto
  then show ?thesis by (simp add: store_evaluation_def record_rule_def touch_others_def)
qed

lemma rule_rows_fold:
  "distinct (map dv_rule_uid vs) \<Longrightarrow> v \<in> set vs \<Longrightarrow>
     map_option rr_state (db_rules (fold (store_evaluation tenant) vs db) (tenant, dv_rule_uid v)) = Some (dv_state v)"
proof (induction vs arbitrary: db)
  case (Cons w ws)
  have other: "db_rules (fold (store_evaluation tenant) ws db) (tenant, u) = db_rules db (tenant, u)"
    if "u \<notin> dv_rule_uid ` set ws" for u db
    using that by (induction ws arbitrary: db) (auto simp: record_rule_get)
  show ?case
  proof (cases "v = w")
    case True
    then show ?thesis using Cons.prems other [of "dv_rule_uid w"] by (simp add: record_rule_get)
  next
    case False
    then show ?thesis using Cons by simp
  qed
qed simp

text \<open>
  Each rule is recorded with the coverage of exactly the planes it needs, and a snapshot cut at
  the safety limit is never recorded as complete.
\<close>

theorem rule_coverage_rows:
  assumes "evaluate_runtime_detections str_of clock rows tenant s db = Inr (db', n, vs)"
  shows "map (\<lambda>uid. map_option rr_state (db_rules db' (tenant, uid)))
      [ENTRA_FAILURE_RULE_UID, ENTRA_CONSENT_RULE_UID, UNREVIEWED_MODEL_RULE_UID,
       AWS_UNDECLARED_MODEL_RULE_UID, AWS_UNAPPROVED_TOOL_RULE_UID, AWS_RISKY_SEQUENCE_RULE_UID] =
     map Some
     [plane_coverage rows tenant s [''entra_ai_signins'', ''entra_ai_application_inventory''],
      plane_coverage rows tenant s [''entra_ai_directory_audits'', ''entra_ai_application_inventory''],
      any_plane_coverage rows tenant s [''vertex_cloud_audit_activity'',
        ''aws_agent_runtime_activity'', ''azure_foundry_agent_runtime_activity''],
      plane_coverage rows tenant s [''aws_agent_runtime_activity'', ''aws_agentcore_runtime_inventory''],
      plane_coverage rows tenant s [''aws_agent_runtime_activity'',
        ''aws_agentcore_runtime_inventory'', ''aws_agentcore_gateway_target_inventory''],
      plane_coverage rows tenant s [''aws_agent_runtime_activity'']]
   \<and> (\<forall>row uid. db_rules db' (tenant, uid) = Some row \<and> uid \<in> dv_rule_uid ` set vs \<and> rr_state row = COMPLETE
        \<longrightarrow> \<not> ds_truncated s)"
proof -
  obtain ws where run: "run_detection_rules str_of clock rows tenant s = Inr ws"
    and vs: "vs = (if ds_truncated s then map limit_detail ws else ws)"
    and db': "db' = fold (store_evaluation tenant) vs db"
    using evaluate_runtime_detections_Inr [OF assms] by metis
  have f: "map dv_rule_uid vs = map dv_rule_uid ws" "map dv_state vs = map dv_state ws" unfolding vs by auto
  note uids = run_detection_rules_uids [OF run, folded f]
  note states = run_detection_rules_states [OF run, folded f]
  have d: "distinct (map dv_rule_uid vs)" unfolding uids by (simp add: uid_defs)
  have row: "map_option rr_state (db_rules db' (tenant, dv_rule_uid v)) = Some (dv_state v)" if "v \<in> set vs" for v
    unfolding db' by (rule rule_rows_fold [OF d that])
  have all: "map (\<lambda>uid. map_option rr_state (db_rules db' (tenant, uid))) (map dv_rule_uid vs)
      = map Some (map dv_state vs)"
    using row by simp
  have "dv_state v \<noteq> COMPLETE" if "ds_truncated s" "v \<in> set vs" for v
  proof -
    have "dv_state v \<in> set (map dv_state vs)" using that by simp
    then show ?thesis unfolding states using that(1) by (auto simp: plane_coverage_def any_plane_coverage_def)
  qed
  then have "\<forall>r uid. db_rules db' (tenant, uid) = Some r \<and> uid \<in> dv_rule_uid ` set vs \<and> rr_state r = COMPLETE
        \<longrightarrow> \<not> ds_truncated s" using row by force
  then show ?thesis using all unfolding uids states by blast
qed

theorem rule_coverage_rows_witness:
  "\<exists>db' n vs. evaluate_runtime_detections (\<lambda>_. ''?'') (\<lambda>_. ex_now) [] ''t'' ex_failures ex_db = Inr (db', n, vs)
     \<and> map_option rr_state (db_rules db' (''t'', ENTRA_FAILURE_RULE_UID)) = Some UNKNOWN"
proof -
  obtain db' n vs
    where e: "evaluate_runtime_detections (\<lambda>_. ''?'') (\<lambda>_. ex_now) [] ''t'' ex_failures ex_db = Inr (db', n, vs)"
    using ex_evaluation by blast
  have "plane_coverage [] ''t'' ex_failures [''entra_ai_signins'', ''entra_ai_application_inventory''] = UNKNOWN"
    by (simp add: plane_coverage_def detection_coverage_state_def latest_coverage_def ex_failures_def)
  then show ?thesis using e rule_coverage_rows [OF e] by auto
qed

text \<open>
  The unapproved-tool rule reports only successful AgentCore tool calls of a session with
  exactly one linked agent; a linked tool must be an unapproved \<open>ai_tool\<close>, and an unlinked one is
  reported only under complete coverage, with confidence 0.8 and no invented tool asset.
\<close>

theorem unresolved_tool_needs_coverage:
  assumes "evaluate_aws_unapproved_tool_invocation s cov now = Inr v" and "c \<in> set (dv_candidates v)"
  shows "\<exists>a \<in> set (ds_activities s). \<exists>k agent.
     dc_activities c = [\<lparr>dal_activity_id = da_id a, dal_role = ''unapproved_tool_invocation''\<rparr>]
     \<and> successful_aws a ''tool_invocation'' \<and> session_of a = Some k \<and> agents_in s k = {agent}
     \<and> (case linked_asset s (one_entity a ''tool'') of
          Some tool \<Rightarrow> dt_kind tool = ''ai_tool'' \<and> dt_governance_status tool \<noteq> ''approved''
            \<and> dc_confidence c = f_1_0 \<and> map dsl_asset_id (dc_assets c) = [dt_id agent, dt_id tool]
        | None \<Rightarrow> cov = COMPLETE \<and> dc_confidence c = f_0_8 \<and> map dsl_asset_id (dc_assets c) = [dt_id agent])"
proof -
  obtain a k where a: "a \<in> set (ds_activities s)" and k: "tool_verdict s cov a = Keyed k"
    and c: "c = tool_candidate a k"
    using assms(2) unfolding tools.result(4) [OF assms(1)] tool_drafts_iff by blast
  note v = tool_verdict_keyed [OF k]
  have f: "dc_activities c = [\<lparr>dal_activity_id = da_id a, dal_role = ''unapproved_tool_invocation''\<rparr>]"
    "dc_confidence c = (if snd k \<noteq> None then f_1_0 else f_0_8)"
    unfolding c tool_candidate_def by (simp_all add: split_beta Let_def)
  obtain u where u: "session_of a = Some u" "agents_in s u = {fst k}"
    using v(2) unfolding session_agents_one by blast
  have "case linked_asset s (one_entity a ''tool'') of
          Some tool \<Rightarrow> dt_kind tool = ''ai_tool'' \<and> dt_governance_status tool \<noteq> ''approved''
            \<and> dc_confidence c = f_1_0 \<and> map dsl_asset_id (dc_assets c) = [dt_id (fst k), dt_id tool]
        | None \<Rightarrow> cov = COMPLETE \<and> dc_confidence c = f_0_8 \<and> map dsl_asset_id (dc_assets c) = [dt_id (fst k)]"
  proof (cases "snd k")
    case None
    then show ?thesis using v(5) f(2) v(3) [symmetric] unfolding c by simp
  next
    case (Some x)
    then show ?thesis using v(4) f(2) v(3) [symmetric] unfolding c by simp
  qed
  then show ?thesis using a f(1) v(1) u by blast
qed

theorem unresolved_tool_needs_coverage_witness:
  "\<exists>v c. evaluate_aws_unapproved_tool_invocation ex_session COMPLETE ex_now = Inr v
    \<and> c \<in> set (dv_candidates v) \<and> dal_role (hd (dc_activities c)) = ''unapproved_tool_invocation''"
proof -
  have "session_agents ex_session (session_of ex_t) = [ex_asset ''a1'' ''ai_agent'' ''approved'']"
    unfolding session_agents_one using ex_session_mem(2) [of ex_key] ex_session_agents
    by (intro exI [of _ ex_key]) (simp add: agentcore_session_def)
  moreover have "successful_aws ex_t ''tool_invocation''" using ex_t_mutating by (simp add: is_mutating_call_def)
  moreover have "linked_asset ex_session (one_entity ex_t ''tool'') = None"
    by (simp add: ex_t_def ex_activity_def one_entity_def linked_asset_def)
  moreover have "\<not> successful_aws ex_r ''tool_invocation''"
    by (simp add: successful_aws_def ex_r_def ex_activity_def)
  ultimately have d: "tool_drafts ex_session COMPLETE = [tool_candidate ex_t (ex_asset ''a1'' ''ai_agent'' ''approved'', None)]"
    by (simp add: tool_drafts_def ex_session_activities tool_verdict_def map_filter_simps)
  obtain v where v: "evaluate_aws_unapproved_tool_invocation ex_session COMPLETE ex_now = Inr v"
    using tools.succeeds_iff [OF ex_session_ok ex_now_aware, of COMPLETE] d by auto
  have c: "tool_candidate ex_t (ex_asset ''a1'' ''ai_agent'' ''approved'', None) \<in> set (dv_candidates v)"
    unfolding tools.result(4) [OF v] d by simp
  show ?thesis using v c unresolved_tool_needs_coverage [OF v c] by auto
qed

definition ex_consent :: "string \<Rightarrow> string \<Rightarrow> string \<Rightarrow> det_activity" where
  "ex_consent i uid trace = (ex_activity i ''admin_change'' ''success'' 1
     [(''actor'', uid, None), (''application'', ''app'', Some ''a1'')])
     \<lparr>da_trace_uid := Some trace, da_attributes := [(''activity_operation'', PStr ''consent to application'')]\<rparr>"

definition ex_consents :: det_snapshot where
  "ex_consents = \<lparr>ds_activities = [ex_consent ''e1'' ''u'' ''x|t'', ex_consent ''e2'' ''u|x'' ''t''],
     ds_assets = [ex_asset ''a1'' ''ai_application'' ''unreviewed''], ds_truncated = False\<rparr>"

text \<open>
  C38. The correlation keys do not escape the separator they are joined with: two consent groups whose
  actor and trace identifiers join to the same text make the rule raise, and with it the whole
  evaluation, instead of reporting either.
\<close>

theorem consent_key_collision:
  assumes "snapshot_ok s" and "tz_aware now"
    and "((i, u, t), items) \<in> set (consent_groups s)" and "((i, u', t'), items') \<in> set (consent_groups s)"
    and "u \<noteq> u'" and "u @ ''|'' @ t = u' @ ''|'' @ t'"
  shows "evaluate_unreviewed_ai_consent str_of s cov now =
     Inl (ValueError ''a runtime detection evaluation cannot repeat a correlation key'')"
proof -
  let ?d = "\<lambda>(key, items). consent_draft str_of s key items"
  let ?ds = "concat (map ?d (consent_groups s))"
  have "\<exists>app. dict_get (assets_by_id s) i = Some app"
  proof -
    obtain a where "consent_verdict s a = Keyed (i, u, t)"
      using assms(3) by (auto simp: consent_groups_def group_by_entries filter_empty_conv)
    then obtain app where "linked_asset s (one_entity a ''application'') = Some app" "dt_id app = i"
      by (auto simp: consent_verdict_def split: if_splits option.splits)
    then show ?thesis using linked_asset_get by blast
  qed
  then obtain app where app: "dict_get (assets_by_id s) i = Some app" by blast
  let ?c = "consent_candidate str_of (i, u, t) app (sort_key at_time items)"
  let ?c' = "consent_candidate str_of (i, u', t') app (sort_key at_time items')"
  have "?c \<in> set ?ds" "?c' \<in> set ?ds" using assms(3,4) app by (force simp: consent_draft_iff)+
  moreover have "dc_correlation_key ?c = dc_correlation_key ?c'"
    using assms(6) by (simp add: key_of_def)
  moreover have "?c \<noteq> ?c'"
  proof
    assume "?c = ?c'"
    then have "dict_get (dc_attributes ?c) ''actor_uid'' = dict_get (dc_attributes ?c') ''actor_uid''" by simp
    then show False using assms(5) by (simp add: consent_candidate_def Let_def)
  qed
  ultimately have "\<not> distinct (map dc_correlation_key ?ds)" by (metis distinct_map inj_onD)
  then obtain e where "evaluate_unreviewed_ai_consent str_of s cov now = Inl e"
    using consent.succeeds_iff [OF assms(1,2)] by (metis sum.exhaust)
  then show ?thesis using consent.fails_only [OF assms(1,2)] by blast
qed

theorem consent_key_collision_witness:
  "evaluate_unreviewed_ai_consent (\<lambda>_. ''?'') ex_consents COMPLETE ex_now =
     Inl (ValueError ''a runtime detection evaluation cannot repeat a correlation key'')"
proof -
  have ok: "snapshot_ok ex_consents" by (simp add: snapshot_ok_def ex_consents_def ex_consent_def ex_defs)
  have cf: "casefold ''u'' = ''u''" "casefold ''u|x'' = ''u|x''" by code_simp+
  have op: "list_ex (\<lambda>t. contains t (casefold (operation_of (ex_consent i u t')))) CONSENT_OPERATIONS" for i u t'
  proof -
    have "operation_of (ex_consent i u t') = ''consent to application''"
      by (simp add: operation_of_def str_attr_def ex_consent_def ex_activity_def)
    moreover have "list_ex (\<lambda>t. contains t (casefold ''consent to application'')) CONSENT_OPERATIONS" by code_simp
    ultimately show ?thesis by simp
  qed
  have l: "linked_asset ex_consents (one_entity (ex_consent i u t) ''application'')
        = Some (ex_asset ''a1'' ''ai_application'' ''unreviewed'')"
      "\<exists>e. one_entity (ex_consent i u t) ''actor'' = Some e \<and> de_external_uid e = u" for i u t
    by (simp_all add: ex_consents_def ex_consent_def lookup_defs ex_asset_def ex_activity_def)
  have f: "da_category (ex_consent i u t) = ''admin_change''" "da_outcome (ex_consent i u t) = ''success''"
    "da_trace_uid (ex_consent i u t) = Some t" for i u t
    by (simp_all add: ex_consent_def ex_activity_def)
  have v: "consent_verdict ex_consents (ex_consent i u t) = Keyed (''a1'', casefold u, or_text (Some t) (da_id (ex_consent i u t)))"
    for i u t
    using op [of i u t] l [of i u t] by (auto simp: consent_verdict_def f) (simp_all add: ex_asset_def)
  have "consent_verdict ex_consents (ex_consent ''e1'' ''u'' ''x|t'') = Keyed (''a1'', ''u'', ''x|t'')"
    "consent_verdict ex_consents (ex_consent ''e2'' ''u|x'' ''t'') = Keyed (''a1'', ''u|x'', ''t'')"
    unfolding v cf by (simp_all add: or_text_def)
  then have g: "consent_groups ex_consents = [((''a1'', ''u'', ''x|t''), [ex_consent ''e1'' ''u'' ''x|t'']),
      ((''a1'', ''u|x'', ''t''), [ex_consent ''e2'' ''u|x'' ''t''])]"
    by (simp add: consent_groups_def group_by_def dict_append_def ex_consents_def)
  show ?thesis
    by (rule consent_key_collision [OF ok ex_now_aware, of "''a1''" "''u''" "''x|t''" _ "''u|x''" "''t''"]) (simp_all add: g)
qed

end
