(* ===== verification/Issue_Domain.thy ===== *)
theory Issue_Domain
  imports Detection_Domain
begin

text \<open>
  \<open>src/denali/domain/issues.py\<close>: the correlation snapshot the issue rules read, and issue
  candidates and evaluations with the checks of their constructors.
\<close>

record corr_asset =
  ct_id :: string
  ct_kind :: string
  ct_natural_key :: string
  ct_display_name :: string
  ct_assertion_type :: string
  ct_confidence :: pyfloat
  ct_attributes :: attrs

record corr_relationship =
  cr_id :: string
  cr_source_id :: string
  cr_target_id :: string
  cr_kind :: string
  cr_category :: string
  cr_assertion_type :: string
  cr_confidence :: pyfloat
  cr_attributes :: attrs

record corr_finding =
  cf_id :: string
  cf_source_uid :: string
  cf_rule_uid :: string
  cf_title :: string
  cf_severity :: finding_severity
  cf_state :: string
  cf_evaluation_result :: string
  cf_resource_uids :: "string list"
  cf_attributes :: attrs

record corr_snapshot =
  cs_assets :: "corr_asset list"
  cs_relationships :: "corr_relationship list"
  cs_findings :: "corr_finding list"

record corr_detection =
  cd_id :: string
  cd_rule_uid :: string
  cd_title :: string
  cd_severity :: finding_severity
  cd_state :: string
  cd_confidence :: pyfloat
  cd_first_seen_at :: py_datetime
  cd_last_seen_at :: py_datetime
  cd_activity_ids :: "string list"
  cd_asset_ids :: "string list"
  cd_attributes :: attrs

definition new_CorrelationRuntimeDetection :: "corr_detection \<Rightarrow> corr_detection res" where
  "new_CorrelationRuntimeDetection d = check_all
     [(\<not> tz_aware (cd_first_seen_at d) \<or> \<not> tz_aware (cd_last_seen_at d),
       ''correlated detection timestamps must be timezone-aware'')] d"

record issue_finding_link =
  ifl_finding_id :: string
  ifl_role :: string

record issue_detection_link =
  idl_detection_id :: string
  idl_role :: string

record issue_activity_link =
  ial_activity_id :: string
  ial_role :: string

record issue_path_node =
  ipn_asset_id :: string
  ipn_position :: int
  ipn_role :: string

record issue_path_edge =
  ipe_relationship_id :: string
  ipe_position :: int

record issue_candidate =
  ic_correlation_key :: string
  ic_rule_uid :: string
  ic_title :: string
  ic_description :: string
  ic_risk :: string
  ic_remediation :: string
  ic_severity :: finding_severity
  ic_confidence :: pyfloat
  ic_findings :: "issue_finding_link list"
  ic_path_nodes :: "issue_path_node list"
  ic_path_edges :: "issue_path_edge list"
  ic_detections :: "issue_detection_link list"
  ic_activities :: "issue_activity_link list"
  ic_attributes :: attrs

definition new_IssueCandidate :: "issue_candidate \<Rightarrow> issue_candidate res" where
  "new_IssueCandidate c = check_all
     [(ic_correlation_key c = [] \<or> ic_rule_uid c = [] \<or> ic_title c = [],
       ''issue identity and title must be non-empty''),
      (\<not> unit_interval (ic_confidence c), ''issue confidence must be between zero and one''),
      (has_repeat ifl_finding_id (ic_findings c), ''an issue cannot repeat a contributing finding''),
      (has_repeat idl_detection_id (ic_detections c),
       ''an issue cannot repeat a contributing detection''),
      (has_repeat ial_activity_id (ic_activities c),
       ''an issue cannot repeat a contributing activity''),
      (has_repeat ipn_position (ic_path_nodes c), ''issue path node positions must be unique''),
      (has_repeat ipe_position (ic_path_edges c), ''issue path edge positions must be unique'')]
     c"

record issue_evaluation =
  iv_rule_uid :: string
  iv_state :: coverage_state
  iv_evaluated_at :: py_datetime
  iv_candidates :: "issue_candidate list"
  iv_incomplete :: nat
  iv_ambiguous :: nat
  iv_detail :: "string option"

definition new_IssueEvaluation :: "issue_evaluation \<Rightarrow> issue_evaluation res" where
  "new_IssueEvaluation v = check_all
     [(\<not> tz_aware (iv_evaluated_at v), ''issue evaluation time must be timezone-aware''),
      (has_repeat ic_correlation_key (iv_candidates v),
       ''an issue evaluation cannot repeat a correlation key'')]
     v"

section \<open>Facts\<close>

definition issue_ok :: "issue_candidate \<Rightarrow> bool" where
  "issue_ok c \<longleftrightarrow> ic_correlation_key c \<noteq> [] \<and> ic_rule_uid c \<noteq> [] \<and> ic_title c \<noteq> []
     \<and> unit_interval (ic_confidence c) \<and> distinct (map ifl_finding_id (ic_findings c))
     \<and> distinct (map idl_detection_id (ic_detections c))
     \<and> distinct (map ial_activity_id (ic_activities c))
     \<and> distinct (map ipn_position (ic_path_nodes c)) \<and> distinct (map ipe_position (ic_path_edges c))"

lemma new_issue_iff [guard_simps]: "new_IssueCandidate c = Inr d \<longleftrightarrow> d = c \<and> issue_ok c"
  by (auto simp: new_IssueCandidate_def check_all_Inr issue_ok_def has_repeat_iff)

lemma new_issue_evaluation_iff [guard_simps]:
  "new_IssueEvaluation v = Inr w \<longleftrightarrow>
     w = v \<and> tz_aware (iv_evaluated_at v) \<and> distinct (map ic_correlation_key (iv_candidates v))"
  by (auto simp: new_IssueEvaluation_def check_all_Inr has_repeat_iff)

end
