(* ===== verification/Issue_Rules.thy ===== *)
theory Issue_Rules
  imports Issue_Domain Detection_Rules
begin

text \<open>
  \<open>src/denali/issues/engine.py\<close>: the three issue-correlation rules and the aggregate of their
  coverage. A rule finds the confirmed paths of a snapshot and builds one candidate per path; the
  constructors run in the order of the loops, so the first failing one decides the exception.
  \<open>str_of\<close> is the text Python gives a value that is not a text.
\<close>

section \<open>Constants\<close>

definition ISSUE_WRITE_RULE_UID :: string where
  "ISSUE_WRITE_RULE_UID = ''DENALI-ISSUE-AGENT-WRITE-001''"
definition CONSENT_THEN_USE_RULE_UID :: string where
  "CONSENT_THEN_USE_RULE_UID = ''DENALI-ISSUE-SHADOW-AI-CONSENT-USE-001''"
definition CONSENT_DETECTION_RULE_UID :: string where
  "CONSENT_DETECTION_RULE_UID = ''DENALI-RUNTIME-ENTRA-CONSENT-001''"
definition IDENTITY_SIGNAL :: string where "IDENTITY_SIGNAL = ''identity.overprivileged''"
definition TOOL_SIGNAL :: string where "TOOL_SIGNAL = ''tool.write_without_confirmation''"
definition DEPLOYED_BEDROCK_RULE_UID :: string where
  "DEPLOYED_BEDROCK_RULE_UID = ''DENALI-ISSUE-DEPLOYED-BEDROCK-GOVERNANCE-001''"
definition REPOSITORY_GUARDRAIL_SIGNAL :: string where
  "REPOSITORY_GUARDRAIL_SIGNAL = ''repository.bedrock_managed_guardrail_not_requested''"
definition BEDROCK_SCOPE_SIGNAL :: string where
  "BEDROCK_SCOPE_SIGNAL = ''identity.bedrock_model_family_wildcard''"
definition ELIGIBLE_ASSERTIONS :: "string list" where
  "ELIGIBLE_ASSERTIONS = [''observed'', ''externally_verified'']"
definition MIN_CONFIDENCE :: pyfloat where "MIN_CONFIDENCE = f_0_8"

section \<open>Aggregate coverage\<close>

definition aggregate_issue_evaluation_state :: "issue_evaluation list \<Rightarrow> coverage_state" where
  "aggregate_issue_evaluation_state evaluations =
     (if evaluations = [] then UNKNOWN
      else let states = map iv_state evaluations in
        if list_all (\<lambda>c. c = FAILED) states then FAILED
        else if FAILED \<in> set states \<or> PARTIAL \<in> set states then PARTIAL
        else if list_ex (\<lambda>v. iv_state v = UNKNOWN
            \<and> (iv_candidates v \<noteq> [] \<or> iv_incomplete v \<noteq> 0 \<or> iv_ambiguous v \<noteq> 0)) evaluations then UNKNOWN
        else if COMPLETE \<in> set states then COMPLETE
        else if list_all (\<lambda>c. c = NOT_SUPPORTED) states then NOT_SUPPORTED
        else UNKNOWN)"

section \<open>Shared helpers\<close>

definition active_signal_findings :: "corr_finding list \<Rightarrow> string \<Rightarrow> corr_finding list" where
  "active_signal_findings findings signal = filter (\<lambda>f. cf_state f = ''open''
     \<and> cf_evaluation_result f = ''fail'' \<and> attr_get (cf_attributes f) ''denali_signal'' = PStr signal) findings"

text \<open>The result is ordered by the first reference; a repeated id keeps its place.\<close>

definition referenced_assets ::
    "corr_finding \<Rightarrow> string \<Rightarrow> ((string \<times> string) \<times> corr_asset list) list \<Rightarrow> corr_asset list \<times> nat" where
  "referenced_assets finding kind index =
     (let matches = (\<lambda>uid. case dict_get index (kind, uid) of None \<Rightarrow> [] | Some xs \<Rightarrow> xs) in
      (map snd (dict_of ct_id (List.map_filter (\<lambda>uid. only_one (matches uid)) (cf_resource_uids finding))),
       length (filter (\<lambda>uid. 1 < length (matches uid)) (cf_resource_uids finding))))"

definition group_get :: "('k \<times> 'v list) list \<Rightarrow> 'k \<Rightarrow> 'v list" where
  "group_get d k = (case dict_get d k of None \<Rightarrow> [] | Some xs \<Rightarrow> xs)"

definition trusted_asset :: "corr_asset \<Rightarrow> bool" where
  "trusted_asset a \<longleftrightarrow> ct_assertion_type a \<in> set ELIGIBLE_ASSERTIONS \<and> fle MIN_CONFIDENCE (ct_confidence a)"

definition observed_edge :: "corr_relationship \<Rightarrow> bool" where
  "observed_edge r \<longleftrightarrow> cr_assertion_type r \<in> set ELIGIBLE_ASSERTIONS \<and> fle MIN_CONFIDENCE (cr_confidence r)"

text \<open>Iterating an attribute that may be missing, and membership in a set of texts.\<close>

definition iterate_attr :: "attrs \<Rightarrow> string \<Rightarrow> pyval list res" where
  "iterate_attr d k =
     (case dict_get d k of
        None \<Rightarrow> Inr []
      | Some (PList xs) \<Rightarrow> Inr xs
      | Some (PStr s) \<Rightarrow> Inr (map (\<lambda>c. PStr [c]) s)
      | Some (PDict e) \<Rightarrow> Inr (map (\<lambda>p. PStr (fst p)) e)
      | Some _ \<Rightarrow> Inl (TypeError ''object is not iterable''))"

definition in_text_set :: "pyval \<Rightarrow> string list \<Rightarrow> bool res" where
  "in_text_set v texts =
     (case v of
        PStr s \<Rightarrow> Inr (s \<in> set texts)
      | PList _ \<Rightarrow> Inl (TypeError ''unhashable type'')
      | PDict _ \<Rightarrow> Inl (TypeError ''unhashable type'')
      | _ \<Rightarrow> Inr False)"

text \<open>Candidates of one key replace each other; the evaluation lists them by key.\<close>

definition by_correlation_key :: "issue_candidate list \<Rightarrow> issue_candidate list" where
  "by_correlation_key cs = sort_key ic_correlation_key (map snd (dict_of ic_correlation_key cs))"

section \<open>Consent followed by use\<close>

definition successful_sign_ins :: "det_activity list \<Rightarrow> (string \<times> det_activity list) list" where
  "successful_sign_ins activities = group_by (\<lambda>p. Some (fst p)) snd (concat (map (\<lambda>a.
     if da_category a = ''ai_app_sign_in'' \<and> da_outcome a = ''success''
       then List.map_filter (\<lambda>e. if de_role e = ''application'' then
         (case de_asset_id e of Some (x # i) \<Rightarrow> Some (x # i, a) | _ \<Rightarrow> None) else None) (da_entities a)
       else []) activities))"

definition exact_applications :: "corr_asset list \<Rightarrow> corr_detection \<Rightarrow> corr_asset list" where
  "exact_applications assets d = List.map_filter (\<lambda>i. case dict_get (dict_of ct_id assets) i of
       Some a \<Rightarrow> if ct_kind a = ''ai_application'' \<and> ct_assertion_type a \<in> set ELIGIBLE_ASSERTIONS
           \<and> fle MIN_CONFIDENCE (ct_confidence a)
           \<and> attr_get (ct_attributes a) ''governance_status'' = PStr ''unreviewed''
         then Some a else None
     | None \<Rightarrow> None) (cd_asset_ids d)"

definition later_use :: "det_activity list \<Rightarrow> corr_detection \<Rightarrow> corr_asset \<Rightarrow> det_activity list" where
  "later_use activities d app = filter (\<lambda>a. instant (cd_last_seen_at d) < at_time a)
     (group_get (successful_sign_ins activities) (ct_id app))"

definition consent_use_candidate ::
    "corr_detection \<Rightarrow> string list \<Rightarrow> corr_asset \<Rightarrow> det_activity list \<Rightarrow> issue_candidate" where
  "consent_use_candidate d scopes app later =
     \<lparr>ic_correlation_key = key_of [CONSENT_THEN_USE_RULE_UID, ct_natural_key app],
      ic_rule_uid = CONSENT_THEN_USE_RULE_UID,
      ic_title = ''Unreviewed AI app '' @ ct_display_name app @ '' received high-impact ''
        @ ''consent and was subsequently used'',
      ic_description = ''Microsoft Entra recorded high-impact delegated consent ('' @ join '', '' scopes
        @ '') for unreviewed AI application '' @ ct_display_name app @ '', followed by ''
        @ str_nat (length later) @ '' successful sign-in event(s) to that exact application.'',
      ic_risk = ''The application can be used while holding access to sensitive tenant data ''
        @ ''before the organization has approved its use. This chronology does not ''
        @ ''prove that the granted scope was exercised or that either actor intended misuse.'',
      ic_remediation = ''Confirm the business owner and need for the application, review the exact ''
        @ ''delegated scopes and sign-in actors, then approve the app or revoke consent ''
        @ ''through the organization'' @ [CHR 0x27] @ ''s established remediation workflow.'',
      ic_severity = HIGH, ic_confidence = fmin (cd_confidence d) [ct_confidence app],
      ic_findings = [],
      ic_path_nodes = [\<lparr>ipn_asset_id = ct_id app, ipn_position = 0, ipn_role = ''unreviewed_ai_application''\<rparr>],
      ic_path_edges = [],
      ic_detections = [\<lparr>idl_detection_id = cd_id d, idl_role = ''high_impact_consent''\<rparr>],
      ic_activities = map (\<lambda>a. \<lparr>ial_activity_id = da_id a, ial_role = ''subsequent_successful_sign_in''\<rparr>)
        (sort_key time_id later),
      ic_attributes = [(''correlation'', PStr ''deterministic_temporal''),
        (''path_status'', PStr ''exact_application_identity''),
        (''high_impact_scopes'', PList (map PStr scopes)),
        (''consent_last_seen_at'', PStr (isoformat (cd_last_seen_at d))),
        (''first_subsequent_use_at'', PStr (isoformat (da_occurred_at (hd (sort_key at_time later))))),
        (''subsequent_use_count'', PInt (int (length later))),
        (''actors'', PList (map PStr (actor_names later)))]\<rparr>"

definition consent_use_verdict ::
    "(pyval \<Rightarrow> string) \<Rightarrow> det_activity list \<Rightarrow> corr_asset list \<Rightarrow> corr_detection
     \<Rightarrow> issue_candidate verdict res" where
  "consent_use_verdict str_of activities assets d =
     (if cd_rule_uid d \<noteq> CONSENT_DETECTION_RULE_UID \<or> cd_state d \<noteq> ''open'' then Inr Skip
      else bind_res (iterate_attr (cd_attributes d) ''high_impact_scopes'') (\<lambda>values.
        let scopes = sort (map (py_str str_of) values) in
        if scopes = [] then Inr Skip
        else case exact_applications assets d of
          [app] \<Rightarrow> (let later = later_use activities d app in
             if later = [] then Inr Skip
             else map_sum id Keyed (new_IssueCandidate (consent_use_candidate d scopes app later)))
        | _ \<Rightarrow> Inr Incomplete))"

definition evaluate_unreviewed_ai_consent_then_use ::
    "(pyval \<Rightarrow> string) \<Rightarrow> corr_detection list \<Rightarrow> det_activity list \<Rightarrow> corr_asset list \<Rightarrow> coverage_state
     \<Rightarrow> py_datetime \<Rightarrow> issue_evaluation res" where
  "evaluate_unreviewed_ai_consent_then_use str_of detections activities assets cov now =
     bind_res (map_res (consent_use_verdict str_of activities assets) detections) (\<lambda>verdicts.
       let incomplete = length (filter (\<lambda>v. v = Incomplete) verdicts) in
       new_IssueEvaluation \<lparr>iv_rule_uid = CONSENT_THEN_USE_RULE_UID,
         iv_state = (if incomplete \<noteq> 0 then UNKNOWN else cov), iv_evaluated_at = now,
         iv_candidates = sort_key ic_correlation_key (List.map_filter verdict_key verdicts),
         iv_incomplete = incomplete, iv_ambiguous = 0,
         iv_detail = (if incomplete \<noteq> 0 then Some (str_nat incomplete
           @ '' consent detections lacked one exact active application asset'') else None)\<rparr>)"

section \<open>Agent to sensitive data\<close>

record write_path =
  wp_agent :: corr_asset
  wp_identity :: corr_asset
  wp_tool :: corr_asset
  wp_store :: corr_asset
  wp_runs_as :: corr_relationship
  wp_invokes :: corr_relationship
  wp_writes :: corr_relationship

definition write_key :: "write_path \<Rightarrow> string" where
  "write_key p = key_of [ISSUE_WRITE_RULE_UID, ct_natural_key (wp_agent p),
     ct_natural_key (wp_identity p), ct_natural_key (wp_tool p), ct_natural_key (wp_store p)]"

definition write_candidate :: "corr_finding \<Rightarrow> corr_finding \<Rightarrow> write_path \<Rightarrow> issue_candidate" where
  "write_candidate identity_finding tool_finding p =
     \<lparr>ic_correlation_key = write_key p, ic_rule_uid = ISSUE_WRITE_RULE_UID,
      ic_title = ct_display_name (wp_agent p) @ '' can change sensitive data through an unconfirmed tool'',
      ic_description = ct_display_name (wp_agent p) @ '' runs as '' @ ct_display_name (wp_identity p)
        @ '', can invoke '' @ ct_display_name (wp_tool p) @ '', and that tool can write to ''
        @ ct_display_name (wp_store p)
        @ ''. The execution identity is overprivileged and the write action lacks an ''
        @ ''independently enforced confirmation step.'',
      ic_risk = ''A manipulated prompt or tool request can cross a confirmed authorization ''
        @ ''path and make persistent changes to sensitive data.'',
      ic_remediation = ''Constrain the execution identity, require confirmation at the write-tool ''
        @ ''boundary, and restrict the tool to the exact datastore operations required.'',
      ic_severity = CRITICAL,
      ic_confidence = fmin (ct_confidence (wp_agent p)) [ct_confidence (wp_identity p),
        ct_confidence (wp_tool p), ct_confidence (wp_store p), cr_confidence (wp_runs_as p),
        cr_confidence (wp_invokes p), cr_confidence (wp_writes p)],
      ic_findings = [\<lparr>ifl_finding_id = cf_id identity_finding, ifl_role = ''overprivileged_execution_identity''\<rparr>,
        \<lparr>ifl_finding_id = cf_id tool_finding, ifl_role = ''unconfirmed_write_tool''\<rparr>],
      ic_path_nodes = [\<lparr>ipn_asset_id = ct_id (wp_agent p), ipn_position = 0, ipn_role = ''agent''\<rparr>,
        \<lparr>ipn_asset_id = ct_id (wp_identity p), ipn_position = 1, ipn_role = ''execution_identity''\<rparr>,
        \<lparr>ipn_asset_id = ct_id (wp_tool p), ipn_position = 2, ipn_role = ''write_tool''\<rparr>,
        \<lparr>ipn_asset_id = ct_id (wp_store p), ipn_position = 3, ipn_role = ''sensitive_data''\<rparr>],
      ic_path_edges = [\<lparr>ipe_relationship_id = cr_id (wp_runs_as p), ipe_position = 0\<rparr>,
        \<lparr>ipe_relationship_id = cr_id (wp_invokes p), ipe_position = 1\<rparr>,
        \<lparr>ipe_relationship_id = cr_id (wp_writes p), ipe_position = 2\<rparr>],
      ic_detections = [], ic_activities = [],
      ic_attributes = [(''correlation'', PStr ''deterministic''), (''path_status'', PStr ''confirmed''),
        (''finding_count'', PInt 2), (''capability_edge_count'', PInt 3)]\<rparr>"

definition trusted_assets :: "corr_snapshot \<Rightarrow> corr_asset list" where
  "trusted_assets s = filter trusted_asset (cs_assets s)"

definition trusted_by_id :: "corr_snapshot \<Rightarrow> (string \<times> corr_asset) list" where
  "trusted_by_id s = dict_of ct_id (trusted_assets s)"

definition trusted_by_kind_key :: "corr_snapshot \<Rightarrow> ((string \<times> string) \<times> corr_asset list) list" where
  "trusted_by_kind_key s = group_by (\<lambda>a. Some (ct_kind a, ct_natural_key a)) (\<lambda>a. a) (trusted_assets s)"

definition capability_edges :: "corr_snapshot \<Rightarrow> corr_relationship list" where
  "capability_edges s = filter (\<lambda>r. cr_category r = ''capability'' \<and> observed_edge r) (cs_relationships s)"

definition edges_to :: "corr_snapshot \<Rightarrow> ((string \<times> string) \<times> corr_relationship list) list" where
  "edges_to s = group_by (\<lambda>r. Some (cr_kind r, cr_target_id r)) (\<lambda>r. r) (capability_edges s)"

definition edges_from :: "corr_snapshot \<Rightarrow> ((string \<times> string) \<times> corr_relationship list) list" where
  "edges_from s = group_by (\<lambda>r. Some (cr_kind r, cr_source_id r)) (\<lambda>r. r) (capability_edges s)"

definition sensitive_store :: "(pyval \<Rightarrow> string) \<Rightarrow> corr_asset \<Rightarrow> bool" where
  "sensitive_store str_of a \<longleftrightarrow> casefold (case dict_get (ct_attributes a) ''classification'' of
       None \<Rightarrow> [] | Some v \<Rightarrow> py_str str_of v) \<in> {''sensitive'', ''confidential'', ''restricted''}"

definition tool_writes ::
    "(pyval \<Rightarrow> string) \<Rightarrow> corr_snapshot \<Rightarrow> corr_asset \<Rightarrow> (corr_asset \<times> corr_relationship) list" where
  "tool_writes str_of s tool = List.map_filter (\<lambda>w. case dict_get (trusted_by_id s) (cr_target_id w) of
       Some d \<Rightarrow> if ct_kind d = ''ai_datastore'' \<and> sensitive_store str_of d then Some (d, w) else None
     | None \<Rightarrow> None) (group_get (edges_from s) (''can_write'', ct_id tool))"

definition agent_runs ::
    "corr_snapshot \<Rightarrow> corr_asset \<Rightarrow> corr_asset \<Rightarrow> (corr_asset \<times> corr_relationship \<times> corr_relationship) list" where
  "agent_runs s identity tool = List.map_filter (\<lambda>r. case dict_get (trusted_by_id s) (cr_source_id r) of
       Some agent \<Rightarrow> if ct_kind agent \<noteq> ''ai_agent'' then None
         else map_option (\<lambda>i. (agent, r, i)) (find (\<lambda>e. cr_target_id e = ct_id tool)
           (group_get (edges_from s) (''can_invoke'', ct_id agent)))
     | None \<Rightarrow> None) (group_get (edges_to s) (''runs_as'', ct_id identity))"

definition write_paths ::
    "(pyval \<Rightarrow> string) \<Rightarrow> corr_snapshot \<Rightarrow> corr_asset list \<Rightarrow> corr_asset list \<Rightarrow> write_path list" where
  "write_paths str_of s identities tools = concat (map (\<lambda>identity. concat (map (\<lambda>tool.
     concat (map (\<lambda>(agent, r, i). map (\<lambda>(d, w). \<lparr>wp_agent = agent, wp_identity = identity, wp_tool = tool,
         wp_store = d, wp_runs_as = r, wp_invokes = i, wp_writes = w\<rparr>) (tool_writes str_of s tool))
       (agent_runs s identity tool))) tools)) identities)"

text \<open>The pairs of findings in the order of the two loops, with the paths of each.\<close>

definition write_pairs ::
    "(pyval \<Rightarrow> string) \<Rightarrow> corr_snapshot \<Rightarrow> (corr_finding \<times> corr_finding \<times> write_path list) list" where
  "write_pairs str_of s = concat (map (\<lambda>f. map (\<lambda>g. (f, g, write_paths str_of s
       (fst (referenced_assets f ''identity'' (trusted_by_kind_key s)))
       (fst (referenced_assets g ''ai_tool'' (trusted_by_kind_key s)))))
     (active_signal_findings (cs_findings s) TOOL_SIGNAL))
     (active_signal_findings (cs_findings s) IDENTITY_SIGNAL))"

definition write_ambiguous :: "corr_snapshot \<Rightarrow> nat" where
  "write_ambiguous s =
     (let index = trusted_by_kind_key s;
          identities = active_signal_findings (cs_findings s) IDENTITY_SIGNAL;
          tools = active_signal_findings (cs_findings s) TOOL_SIGNAL in
      sum_list (map (\<lambda>f. snd (referenced_assets f ''identity'' index)
        + sum_list (map (\<lambda>g. snd (referenced_assets g ''ai_tool'' index)) tools)) identities))"

definition write_drafts :: "(pyval \<Rightarrow> string) \<Rightarrow> corr_snapshot \<Rightarrow> issue_candidate list" where
  "write_drafts str_of s = concat (map (\<lambda>(f, g, paths). map (write_candidate f g) paths) (write_pairs str_of s))"

definition write_incomplete :: "(pyval \<Rightarrow> string) \<Rightarrow> corr_snapshot \<Rightarrow> nat" where
  "write_incomplete str_of s = length (filter (\<lambda>(f, g, paths). paths = []) (write_pairs str_of s))"

definition evaluate_agent_sensitive_write ::
    "(pyval \<Rightarrow> string) \<Rightarrow> corr_snapshot \<Rightarrow> py_datetime \<Rightarrow> issue_evaluation res" where
  "evaluate_agent_sensitive_write str_of s now =
     bind_res (map_res new_IssueCandidate (write_drafts str_of s)) (\<lambda>candidates.
       let incomplete = write_incomplete str_of s; ambiguous = write_ambiguous s;
           unsure = incomplete \<noteq> 0 \<or> ambiguous \<noteq> 0 in
       new_IssueEvaluation \<lparr>iv_rule_uid = ISSUE_WRITE_RULE_UID,
         iv_state = (if unsure then UNKNOWN else COMPLETE), iv_evaluated_at = now,
         iv_candidates = by_correlation_key candidates, iv_incomplete = incomplete,
         iv_ambiguous = ambiguous,
         iv_detail = (if unsure then Some (str_nat incomplete
             @ '' candidate pairs lacked a confirmed capability path; '' @ str_nat ambiguous
             @ '' resource references were ambiguous'') else None)\<rparr>)"

section \<open>Deployed Bedrock calls without a guardrail\<close>

definition deployment_edges :: "corr_snapshot \<Rightarrow> corr_relationship list" where
  "deployment_edges s = filter (\<lambda>r. cr_kind r = ''deployed_by'' \<and> cr_assertion_type r = ''inferred''
     \<and> feq (cr_confidence r) f_1_0 \<and> attr_get (cr_attributes r) ''correlation'' = PStr ''deterministic'')
     (cs_relationships s)"

definition observed_by_source :: "corr_snapshot \<Rightarrow> string \<Rightarrow> (string \<times> corr_relationship list) list" where
  "observed_by_source s kind = group_by (\<lambda>r. if cr_kind r = kind then Some (cr_source_id r) else None)
     (\<lambda>r. r) (filter observed_edge (cs_relationships s))"

definition included_finding :: "corr_asset \<Rightarrow> string list \<Rightarrow> corr_finding \<Rightarrow> bool res" where
  "included_finding repository reachable f =
     (if attr_get (cf_attributes f) ''repository'' = PStr (ct_natural_key repository)
      then in_text_set (attr_get (cf_attributes f) ''source_path'') reachable else Inr False)"

definition filter_res :: "('a \<Rightarrow> bool res) \<Rightarrow> 'a list \<Rightarrow> 'a list res" where
  "filter_res p xs = map_sum id (\<lambda>bs. map fst (filter snd (zip xs bs))) (map_res p xs)"

definition model_edges :: "corr_snapshot \<Rightarrow> corr_asset \<Rightarrow> (corr_asset \<times> corr_relationship) list" where
  "model_edges s workload = List.map_filter (\<lambda>e. case dict_get (dict_of ct_id (cs_assets s)) (cr_target_id e) of
       Some m \<Rightarrow> if ct_kind m = ''ai_model'' \<and> startswith (ct_natural_key m) ''aws:bedrock:model:''
         then Some (m, e) else None
     | None \<Rightarrow> None) (group_get (observed_by_source s ''uses'') (ct_id workload))"

definition bedrock_candidate ::
    "(pyval \<Rightarrow> string) \<Rightarrow> corr_relationship \<Rightarrow> corr_asset \<Rightarrow> corr_asset \<Rightarrow> corr_relationship \<Rightarrow> corr_asset
     \<Rightarrow> corr_asset \<times> corr_relationship \<Rightarrow> corr_finding \<Rightarrow> corr_finding \<Rightarrow> issue_candidate" where
  "bedrock_candidate str_of deployment workload repository runs_as identity m code_finding identity_finding =
     (let model = fst m; model_edge = snd m in
     \<lparr>ic_correlation_key = key_of [DEPLOYED_BEDROCK_RULE_UID, ct_natural_key workload,
        ct_natural_key identity, ct_natural_key model, cf_source_uid code_finding],
      ic_rule_uid = DEPLOYED_BEDROCK_RULE_UID,
      ic_title = ct_display_name workload @ '' can invoke '' @ ct_display_name model
        @ '' without a managed guardrail under broader family permission'',
      ic_description = ''The exact deployment correlation includes the Bedrock call at ''
        @ py_str str_of (attr_get (cf_attributes code_finding) ''source_path'') @ '':''
        @ py_str str_of (attr_get (cf_attributes code_finding) ''source_line'')
        @ ''. That call does not request an AWS managed guardrail. The observed workload runs as ''
        @ ct_display_name identity @ '', whose effective policy permits ''
        @ ''a broader Anthropic model family than the configured model '' @ ct_display_name model @ ''.'',
      ic_risk = ''A compromised workload or unintended configuration change can ''
        @ ''select another permitted model while the included call site ''
        @ ''does not itself request provider-managed filtering. Artifact ''
        @ ''inclusion does not prove that the call executed.'',
      ic_remediation = ''Restrict the execution role to the exact approved Bedrock model ''
        @ ''resources and pass an approved guardrail identifier and version ''
        @ ''at the included call site. Recollect source and AWS evidence, ''
        @ ''then rerun issue evaluation.'',
      ic_severity = HIGH,
      ic_confidence = fmin (cr_confidence deployment) [cr_confidence runs_as, cr_confidence model_edge,
        ct_confidence workload, ct_confidence repository, ct_confidence identity, ct_confidence model],
      ic_findings = [\<lparr>ifl_finding_id = cf_id code_finding, ifl_role = ''included_unguarded_bedrock_call''\<rparr>,
        \<lparr>ifl_finding_id = cf_id identity_finding, ifl_role = ''broad_model_family_permission''\<rparr>],
      ic_path_nodes = [\<lparr>ipn_asset_id = ct_id repository, ipn_position = 0, ipn_role = ''source_repository''\<rparr>,
        \<lparr>ipn_asset_id = ct_id workload, ipn_position = 1, ipn_role = ''deployed_workload''\<rparr>,
        \<lparr>ipn_asset_id = ct_id identity, ipn_position = 2, ipn_role = ''execution_identity''\<rparr>,
        \<lparr>ipn_asset_id = ct_id model, ipn_position = 3, ipn_role = ''configured_model''\<rparr>],
      ic_path_edges = [\<lparr>ipe_relationship_id = cr_id deployment, ipe_position = 0\<rparr>,
        \<lparr>ipe_relationship_id = cr_id runs_as, ipe_position = 1\<rparr>,
        \<lparr>ipe_relationship_id = cr_id model_edge, ipe_position = 2\<rparr>],
      ic_detections = [], ic_activities = [],
      ic_attributes = [(''correlation'', PStr ''deterministic_code_to_cloud''),
        (''path_status'', PStr ''confirmed''),
        (''source_path'', attr_get (cf_attributes code_finding) ''source_path''),
        (''source_line'', attr_get (cf_attributes code_finding) ''source_line''),
        (''artifact_identity_status'', attr_get (cr_attributes deployment) ''artifact_identity_status''),
        (''source_execution_status'', PStr ''not_observed'')]\<rparr>)"

text \<open>One execution identity of a deployed workload: its candidates, and whether it is incomplete.\<close>

definition bedrock_identity ::
    "(pyval \<Rightarrow> string) \<Rightarrow> corr_snapshot \<Rightarrow> corr_relationship \<Rightarrow> corr_asset \<Rightarrow> corr_asset \<Rightarrow> corr_finding list
     \<Rightarrow> corr_relationship \<Rightarrow> (issue_candidate list \<times> nat) res" where
  "bedrock_identity str_of s deployment workload repository included runs_as =
     (case dict_get (dict_of ct_id (cs_assets s)) (cr_target_id runs_as) of
        None \<Rightarrow> Inr ([], 0)
      | Some identity \<Rightarrow>
          let matching = filter (\<lambda>f. ct_natural_key identity \<in> set (cf_resource_uids f))
                (active_signal_findings (cs_findings s) BEDROCK_SCOPE_SIGNAL);
              models = model_edges s workload in
          if ct_kind identity \<noteq> ''identity'' \<or> matching = [] then Inr ([], 0)
          else if models = [] then Inr ([], 1)
          else map_sum id (\<lambda>cs. (cs, 0)) (map_res new_IssueCandidate (concat (map (\<lambda>m. concat (map (\<lambda>f.
            map (bedrock_candidate str_of deployment workload repository runs_as identity m f) matching)
              included)) models))))"

definition bedrock_deployment ::
    "(pyval \<Rightarrow> string) \<Rightarrow> corr_snapshot \<Rightarrow> corr_relationship \<Rightarrow> (issue_candidate list \<times> nat) res" where
  "bedrock_deployment str_of s deployment =
     (let assets = dict_of ct_id (cs_assets s) in
      case (dict_get assets (cr_source_id deployment), dict_get assets (cr_target_id deployment)) of
        (Some workload, Some repository) \<Rightarrow>
          if ct_kind workload \<noteq> ''ai_workload'' \<or> ct_kind repository \<noteq> ''code_repository'' then Inr ([], 0)
          else bind_res (iterate_attr (cr_attributes deployment) ''reachable_source_paths'') (\<lambda>paths.
            bind_res (filter_res (included_finding repository (map (py_str str_of) paths))
                (active_signal_findings (cs_findings s) REPOSITORY_GUARDRAIL_SIGNAL)) (\<lambda>included.
              if included = [] then Inr ([], 0)
              else map_sum id (\<lambda>parts. (concat (map fst parts), sum_list (map snd parts)))
                (map_res (bedrock_identity str_of s deployment workload repository included)
                  (group_get (observed_by_source s ''runs_as'') (ct_id workload)))))
      | _ \<Rightarrow> Inr ([], 0))"

definition evaluate_deployed_bedrock_governance_gap ::
    "(pyval \<Rightarrow> string) \<Rightarrow> corr_snapshot \<Rightarrow> py_datetime \<Rightarrow> issue_evaluation res" where
  "evaluate_deployed_bedrock_governance_gap str_of s now =
     bind_res (map_res (bedrock_deployment str_of s) (deployment_edges s)) (\<lambda>parts.
       let incomplete = sum_list (map snd parts) in
       new_IssueEvaluation \<lparr>iv_rule_uid = DEPLOYED_BEDROCK_RULE_UID,
         iv_state = (if incomplete \<noteq> 0 then UNKNOWN else COMPLETE), iv_evaluated_at = now,
         iv_candidates = by_correlation_key (concat (map fst parts)), iv_incomplete = incomplete,
         iv_ambiguous = 0,
         iv_detail = (if incomplete \<noteq> 0 then Some (str_nat incomplete
           @ '' deployed workload candidates lacked an observed Bedrock model'') else None)\<rparr>)"

end
