(* ===== verification/Issue_Store.thy ===== *)
theory Issue_Store
  imports Issue_Rules Detection_Store
begin

text \<open>
  \<open>PostgresInventoryRepository.evaluate_issues\<close> of \<open>src/denali/store/repository.py\<close> with
  \<open>_cross_signal_issue_coverage_state\<close>, \<open>_upsert_issue\<close> and \<open>_replace_issue_components\<close>: the
  three rules over one snapshot, the upsert of their candidates and the lifecycle of the issues a
  rule no longer confirms. The tables are maps from their unique keys; the snapshots and the
  current state of the contributing findings and detections are arguments.
\<close>

section \<open>Coverage of the cross-signal rule\<close>

definition cross_signal_issue_coverage_state ::
    "coverage_row list \<Rightarrow> (string \<times> string \<Rightarrow> rule_row option) \<Rightarrow> string \<Rightarrow> coverage_state" where
  "cross_signal_issue_coverage_state rows rules tenant =
     (let sign_in = detection_coverage_state rows tenant [''entra_ai_signins''];
          consent = (case rules (tenant, ''DENALI-RUNTIME-ENTRA-CONSENT-001'') of
            None \<Rightarrow> UNKNOWN | Some r \<Rightarrow> rr_state r);
          states = [sign_in, consent] in
      if list_all (\<lambda>c. c = COMPLETE) states then COMPLETE
      else if list_all (\<lambda>c. c = FAILED) states then FAILED
      else if list_all (\<lambda>c. c = NOT_SUPPORTED) states then NOT_SUPPORTED
      else if list_ex (\<lambda>c. c = FAILED \<or> c = PARTIAL) states then PARTIAL
      else UNKNOWN)"

section \<open>The tables\<close>

record issue_row =
  ir_rule_uid :: string
  ir_title :: string
  ir_description :: string
  ir_risk :: string
  ir_remediation :: string
  ir_severity :: finding_severity
  ir_state :: string
  ir_confidence :: pyfloat
  ir_attributes :: attrs
  ir_resolution_reason :: "string option"
  ir_first_seen_at :: int
  ir_last_seen_at :: int
  ir_last_changed_at :: int
  ir_last_evaluated_at :: int
  ir_findings :: "issue_finding_link list"
  ir_path_nodes :: "issue_path_node list"
  ir_path_edges :: "issue_path_edge list"
  ir_detections :: "issue_detection_link list"
  ir_activities :: "issue_activity_link list"

record issue_rule_row =
  irr_state :: coverage_state
  irr_confirmed :: nat
  irr_incomplete :: nat
  irr_ambiguous :: nat
  irr_detail :: "string option"
  irr_evaluated_at :: int

record issue_db =
  db_issues :: "string \<times> string \<Rightarrow> issue_row option"
  db_issue_rules :: "string \<times> string \<Rightarrow> issue_rule_row option"

definition issue_row_changed :: "issue_row \<Rightarrow> issue_candidate \<Rightarrow> bool" where
  "issue_row_changed r c \<longleftrightarrow> \<not> (ir_rule_uid r = ic_rule_uid c \<and> ir_title r = ic_title c
     \<and> ir_description r = ic_description c \<and> ir_risk r = ic_risk c \<and> ir_remediation r = ic_remediation c
     \<and> ir_severity r = ic_severity c \<and> ir_state r = ''open'' \<and> feq (ir_confidence r) (ic_confidence c)
     \<and> attrs_eq (ir_attributes r) (ic_attributes c))"

definition fresh_issue :: "issue_candidate \<Rightarrow> int \<Rightarrow> issue_row" where
  "fresh_issue c now =
     \<lparr>ir_rule_uid = ic_rule_uid c, ir_title = ic_title c, ir_description = ic_description c,
      ir_risk = ic_risk c, ir_remediation = ic_remediation c, ir_severity = ic_severity c,
      ir_state = ''open'', ir_confidence = ic_confidence c, ir_attributes = ic_attributes c,
      ir_resolution_reason = None, ir_first_seen_at = now, ir_last_seen_at = now,
      ir_last_changed_at = now, ir_last_evaluated_at = now,
      ir_findings = [], ir_path_nodes = [], ir_path_edges = [], ir_detections = [], ir_activities = []\<rparr>"

definition upsert_issue :: "string \<Rightarrow> issue_evaluation \<Rightarrow> issue_candidate \<Rightarrow> issue_db \<Rightarrow> issue_db" where
  "upsert_issue tenant v c db =
     (let k = (tenant, ic_correlation_key c); now = instant (iv_evaluated_at v);
          new = (case db_issues db k of
             None \<Rightarrow> fresh_issue c now
           | Some r \<Rightarrow> (fresh_issue c now)
               \<lparr>ir_last_changed_at := (if issue_row_changed r c then now else ir_last_changed_at r),
                ir_first_seen_at := ir_first_seen_at r,
                ir_findings := ir_findings r, ir_path_nodes := ir_path_nodes r,
                ir_path_edges := ir_path_edges r, ir_detections := ir_detections r,
                ir_activities := ir_activities r\<rparr>)
      in db\<lparr>db_issues := (db_issues db)(k \<mapsto> new)\<rparr>)"

definition replace_issue_components :: "string \<Rightarrow> issue_candidate \<Rightarrow> issue_db \<Rightarrow> issue_db" where
  "replace_issue_components tenant c db =
     (let k = (tenant, ic_correlation_key c) in
      db\<lparr>db_issues := (db_issues db)(k := map_option
          (\<lambda>r. r\<lparr>ir_findings := ic_findings c, ir_path_nodes := ic_path_nodes c,
                ir_path_edges := ic_path_edges c, ir_detections := ic_detections c,
                ir_activities := ic_activities c\<rparr>) (db_issues db k))\<rparr>)"

definition store_issue :: "string \<Rightarrow> issue_evaluation \<Rightarrow> issue_candidate \<Rightarrow> issue_db \<Rightarrow> issue_db" where
  "store_issue tenant v c db = replace_issue_components tenant c (upsert_issue tenant v c db)"

section \<open>Issues a rule no longer confirms\<close>

text \<open>The contributing evidence as it is stored now: of a finding whether it is open and failing,
  of a detection whether it is open; \<open>None\<close> for a row that does not exist (the join drops it).\<close>

record evidence_state =
  ev_finding_failing :: "string \<Rightarrow> bool option"
  ev_detection_open :: "string \<Rightarrow> bool option"

text \<open>SQL \<open>bool_and\<close>: null on no rows.\<close>

definition sql_bool_and :: "bool list \<Rightarrow> bool option" where
  "sql_bool_and bs = (if bs = [] then None else Some (list_all (\<lambda>b. b) bs))"

definition findings_open :: "evidence_state \<Rightarrow> issue_row \<Rightarrow> bool option" where
  "findings_open ev r = sql_bool_and (List.map_filter (\<lambda>l. ev_finding_failing ev (ifl_finding_id l)) (ir_findings r))"

definition detections_open :: "evidence_state \<Rightarrow> issue_row \<Rightarrow> bool option" where
  "detections_open ev r = sql_bool_and (List.map_filter (\<lambda>l. ev_detection_open ev (idl_detection_id l)) (ir_detections r))"

definition missing_issue_outcome ::
    "evidence_state \<Rightarrow> coverage_state \<Rightarrow> issue_row \<Rightarrow> string \<times> string" where
  "missing_issue_outcome ev cov r =
     (let f = findings_open ev r; d = detections_open ev r;
          current = (f = Some True \<or> d = Some True) in
      if current \<and> cov \<noteq> COMPLETE then (''unknown'', ''correlation_incomplete'')
      else if f = Some False then (''resolved'', ''contributing_finding_inactive'')
      else if d = Some False then (''resolved'', ''contributing_detection_inactive'')
      else (''resolved'', ''correlation_no_longer_confirmed''))"

definition close_missing ::
    "evidence_state \<Rightarrow> string \<Rightarrow> issue_evaluation \<Rightarrow> string list \<Rightarrow> issue_db \<Rightarrow> issue_db" where
  "close_missing ev tenant v active db =
     db\<lparr>db_issues := (\<lambda>k. case db_issues db k of None \<Rightarrow> None
        | Some r \<Rightarrow> Some (if fst k = tenant \<and> ir_rule_uid r = iv_rule_uid v \<and> ir_state r \<noteq> ''resolved''
              \<and> snd k \<notin> set active
            then let (state, reason) = missing_issue_outcome ev (iv_state v) r; now = instant (iv_evaluated_at v)
              in r\<lparr>ir_state := state, ir_resolution_reason := Some reason,
                   ir_last_changed_at := (if ir_state r \<noteq> state then now else ir_last_changed_at r),
                   ir_last_evaluated_at := now\<rparr>
            else r))\<rparr>"

definition record_issue_rule :: "string \<Rightarrow> issue_evaluation \<Rightarrow> issue_db \<Rightarrow> issue_db" where
  "record_issue_rule tenant v db =
     db\<lparr>db_issue_rules := (db_issue_rules db)((tenant, iv_rule_uid v) \<mapsto>
        \<lparr>irr_state = iv_state v, irr_confirmed = length (iv_candidates v),
         irr_incomplete = iv_incomplete v, irr_ambiguous = iv_ambiguous v, irr_detail = iv_detail v,
         irr_evaluated_at = instant (iv_evaluated_at v)\<rparr>)\<rparr>"

definition store_issue_evaluation ::
    "evidence_state \<Rightarrow> string \<Rightarrow> issue_evaluation \<Rightarrow> issue_db \<Rightarrow> issue_db" where
  "store_issue_evaluation ev tenant v db =
     record_issue_rule tenant v
       (close_missing ev tenant v (map ic_correlation_key (iv_candidates v))
         (fold (store_issue tenant v) (iv_candidates v) db))"

section \<open>The evaluation\<close>

record issue_summary =
  sm_confirmed :: nat
  sm_state :: coverage_state
  sm_incomplete :: nat
  sm_ambiguous :: nat

definition run_issue_rules ::
    "(pyval \<Rightarrow> string) \<Rightarrow> (string \<Rightarrow> py_datetime) \<Rightarrow> corr_snapshot \<Rightarrow> corr_detection list \<Rightarrow> det_activity list
     \<Rightarrow> coverage_state \<Rightarrow> issue_evaluation list res" where
  "run_issue_rules str_of clock s detections activities cov = map_res (\<lambda>rule. rule)
     [evaluate_agent_sensitive_write str_of s (clock ISSUE_WRITE_RULE_UID),
      evaluate_deployed_bedrock_governance_gap str_of s (clock DEPLOYED_BEDROCK_RULE_UID),
      evaluate_unreviewed_ai_consent_then_use str_of detections activities (cs_assets s) cov
        (clock CONSENT_THEN_USE_RULE_UID)]"

definition evaluate_issues ::
    "(pyval \<Rightarrow> string) \<Rightarrow> (string \<Rightarrow> py_datetime) \<Rightarrow> coverage_row list \<Rightarrow> (string \<times> string \<Rightarrow> rule_row option)
     \<Rightarrow> evidence_state \<Rightarrow> string \<Rightarrow> corr_snapshot \<Rightarrow> corr_detection list \<Rightarrow> det_activity list \<Rightarrow> issue_db
     \<Rightarrow> (issue_db \<times> issue_summary) res" where
  "evaluate_issues str_of clock rows rules ev tenant s detections activities db =
     bind_res (run_issue_rules str_of clock s detections activities
         (cross_signal_issue_coverage_state rows rules tenant)) (\<lambda>vs.
       Inr (fold (store_issue_evaluation ev tenant) vs db,
            \<lparr>sm_confirmed = sum_list (map (\<lambda>v. length (iv_candidates v)) vs),
             sm_state = aggregate_issue_evaluation_state vs,
             sm_incomplete = sum_list (map iv_incomplete vs),
             sm_ambiguous = sum_list (map iv_ambiguous vs)\<rparr>))"

end
