(* ===== verification/Issue_Props.thy ===== *)
theory Issue_Props
  imports Issue_Store Detection_Facts
begin

text \<open>The properties of the issue engine and of the storage of its results.\<close>

section \<open>Indexes\<close>

lemma group_get_group_by: "group_get (group_by key val xs) k = map val (filter (\<lambda>x. key x = Some k) xs)"
  by (auto simp: group_get_def group_by_get Let_def)

lemma dict_of_id:
  assumes "distinct (map f xs)"
  shows "dict_get (dict_of f xs) i = Some a \<longleftrightarrow> a \<in> set xs \<and> f a = i"
  using dict_of_unique [OF assms] dict_of_SomeD [of f xs i a] by blast

definition well_keyed :: "corr_snapshot \<Rightarrow> bool" where
  "well_keyed s \<longleftrightarrow> distinct (map ct_id (cs_assets s))"

lemma trusted_distinct: "well_keyed s \<Longrightarrow> distinct (map ct_id (trusted_assets s))"
  by (simp add: well_keyed_def trusted_assets_def distinct_map_filter)

lemma trusted_by_id_get:
  "well_keyed s \<Longrightarrow> dict_get (trusted_by_id s) i = Some a \<longleftrightarrow> a \<in> set (trusted_assets s) \<and> ct_id a = i"
  unfolding trusted_by_id_def by (rule dict_of_id) (rule trusted_distinct)

text \<open>The one trusted asset a reference of this kind can mean.\<close>

definition referenced :: "corr_snapshot \<Rightarrow> string \<Rightarrow> corr_finding \<Rightarrow> corr_asset \<Rightarrow> bool" where
  "referenced s kind f x \<longleftrightarrow> x \<in> set (trusted_assets s) \<and> ct_kind x = kind
     \<and> ct_natural_key x \<in> set (cf_resource_uids f)
     \<and> (\<forall>y \<in> set (trusted_assets s). ct_kind y = kind \<and> ct_natural_key y = ct_natural_key x \<longrightarrow> y = x)"

lemma filter_single_iff:
  "distinct xs \<Longrightarrow> filter P xs = [x] \<longleftrightarrow> x \<in> set xs \<and> P x \<and> (\<forall>y \<in> set xs. P y \<longrightarrow> y = x)"
proof
  assume d: "distinct xs" and "x \<in> set xs \<and> P x \<and> (\<forall>y \<in> set xs. P y \<longrightarrow> y = x)"
  then have "set (filter P xs) = {x}" "distinct (filter P xs)" by auto
  then show "filter P xs = [x]" by (metis distinct_card card.insert card.empty distinct_singleton
      empty_iff finite.emptyI length_0_conv length_Suc_conv list.simps(15) set_empty singleton_insert_inj_eq)
next
  assume f: "filter P xs = [x]"
  then have "set (filter P xs) = {x}" by simp
  then show "x \<in> set xs \<and> P x \<and> (\<forall>y \<in> set xs. P y \<longrightarrow> y = x)" by auto
qed

lemma referenced_assets_iff:
  assumes "well_keyed s"
  shows "x \<in> set (fst (referenced_assets f kind (trusted_by_kind_key s))) \<longleftrightarrow> referenced s kind f x"
proof -
  let ?t = "trusted_assets s"
  let ?m = "\<lambda>uid. filter (\<lambda>a. ct_kind a = kind \<and> ct_natural_key a = uid) ?t"
  have m: "(case dict_get (trusted_by_kind_key s) (kind, uid) of None \<Rightarrow> [] | Some xs \<Rightarrow> xs) = ?m uid" for uid
    using group_get_group_by [of "\<lambda>a. Some (ct_kind a, ct_natural_key a)" "\<lambda>a. a" ?t "(kind, uid)"]
    by (simp add: group_get_def trusted_by_kind_key_def)
  let ?l = "List.map_filter (\<lambda>uid. only_one (?m uid)) (cf_resource_uids f)"
  have d: "distinct ?t" using trusted_distinct [OF assms] by (simp add: distinct_map)
  have l: "x \<in> set ?l \<longleftrightarrow> referenced s kind f x" for x
    by (auto simp: set_map_filter filter_single_iff [OF d] referenced_def)
  have "inj_on ct_id (set ?t)" using trusted_distinct [OF assms] by (simp add: distinct_map)
  then have "inj_on ct_id (set ?l)"
    by (rule inj_on_subset) (auto simp: l referenced_def)
  then have "set (map snd (dict_of ct_id ?l)) = set ?l" by (rule dict_of_vals)
  then show ?thesis by (simp add: referenced_assets_def m l)
qed

section \<open>Confirmed write paths\<close>

definition capability :: "corr_snapshot \<Rightarrow> string \<Rightarrow> corr_asset \<Rightarrow> corr_asset \<Rightarrow> corr_relationship \<Rightarrow> bool" where
  "capability s kind a b r \<longleftrightarrow> r \<in> set (cs_relationships s) \<and> cr_category r = ''capability'' \<and> observed_edge r
     \<and> cr_kind r = kind \<and> cr_source_id r = ct_id a \<and> cr_target_id r = ct_id b"

lemma edges_from_iff: "r \<in> set (group_get (edges_from s) (kind, i)) \<longleftrightarrow>
    r \<in> set (cs_relationships s) \<and> cr_category r = ''capability'' \<and> observed_edge r \<and> cr_kind r = kind \<and> cr_source_id r = i"
  by (auto simp: edges_from_def group_get_group_by capability_edges_def)

lemma edges_to_iff: "r \<in> set (group_get (edges_to s) (kind, i)) \<longleftrightarrow>
    r \<in> set (cs_relationships s) \<and> cr_category r = ''capability'' \<and> observed_edge r \<and> cr_kind r = kind \<and> cr_target_id r = i"
  by (auto simp: edges_to_def group_get_group_by capability_edges_def)

definition failing :: "corr_snapshot \<Rightarrow> string \<Rightarrow> corr_finding \<Rightarrow> bool" where
  "failing s signal f \<longleftrightarrow> f \<in> set (cs_findings s) \<and> cf_state f = ''open'' \<and> cf_evaluation_result f = ''fail''
     \<and> attr_get (cf_attributes f) ''denali_signal'' = PStr signal"

lemma active_signal_iff: "f \<in> set (active_signal_findings (cs_findings s) signal) \<longleftrightarrow> failing s signal f"
  by (auto simp: active_signal_findings_def failing_def)

definition confirmed_write ::
    "(pyval \<Rightarrow> string) \<Rightarrow> corr_snapshot \<Rightarrow> corr_finding \<Rightarrow> corr_finding \<Rightarrow> write_path \<Rightarrow> bool" where
  "confirmed_write str_of s f g p \<longleftrightarrow>
     failing s IDENTITY_SIGNAL f \<and> referenced s ''identity'' f (wp_identity p)
     \<and> failing s TOOL_SIGNAL g \<and> referenced s ''ai_tool'' g (wp_tool p)
     \<and> wp_agent p \<in> set (trusted_assets s) \<and> ct_kind (wp_agent p) = ''ai_agent''
     \<and> wp_store p \<in> set (trusted_assets s) \<and> ct_kind (wp_store p) = ''ai_datastore'' \<and> sensitive_store str_of (wp_store p)
     \<and> capability s ''runs_as'' (wp_agent p) (wp_identity p) (wp_runs_as p)
     \<and> capability s ''can_invoke'' (wp_agent p) (wp_tool p) (wp_invokes p)
     \<and> capability s ''can_write'' (wp_tool p) (wp_store p) (wp_writes p)"

lemma tool_writes_iff:
  assumes "well_keyed s"
  shows "(d, w) \<in> set (tool_writes str_of s tool) \<longleftrightarrow> d \<in> set (trusted_assets s) \<and> ct_kind d = ''ai_datastore''
     \<and> sensitive_store str_of d \<and> capability s ''can_write'' tool d w"
proof -
  have inner: "(case dict_get (trusted_by_id s) (cr_target_id w') of
      Some d \<Rightarrow> if ct_kind d = ''ai_datastore'' \<and> sensitive_store str_of d then Some (d, w') else None
    | None \<Rightarrow> None) = Some (d, w) \<longleftrightarrow> w' = w \<and> dict_get (trusted_by_id s) (cr_target_id w') = Some d
      \<and> ct_kind d = ''ai_datastore'' \<and> sensitive_store str_of d" for w'
    by (cases "dict_get (trusted_by_id s) (cr_target_id w')") auto
  have "(d, w) \<in> set (tool_writes str_of s tool) \<longleftrightarrow>
      w \<in> set (group_get (edges_from s) (''can_write'', ct_id tool))
      \<and> dict_get (trusted_by_id s) (cr_target_id w) = Some d \<and> ct_kind d = ''ai_datastore'' \<and> sensitive_store str_of d"
    unfolding tool_writes_def set_map_filter Bex_def inner by blast
  then show ?thesis
    unfolding edges_from_iff trusted_by_id_get [OF assms] capability_def by metis
qed

lemma agent_runs_sound:
  assumes "well_keyed s" and "(agent, r, i) \<in> set (agent_runs s identity tool)"
  shows "agent \<in> set (trusted_assets s) \<and> ct_kind agent = ''ai_agent'' \<and> capability s ''runs_as'' agent identity r
     \<and> capability s ''can_invoke'' agent tool i"
proof -
  obtain a where r: "r \<in> set (group_get (edges_to s) (''runs_as'', ct_id identity))"
    and a: "dict_get (trusted_by_id s) (cr_source_id r) = Some agent" "ct_kind agent = ''ai_agent''"
    and i: "find (\<lambda>e. cr_target_id e = ct_id tool) (group_get (edges_from s) (''can_invoke'', ct_id agent)) = Some i"
    using assms(2) unfolding agent_runs_def set_map_filter by (auto split: option.splits if_splits)
  have "i \<in> set (group_get (edges_from s) (''can_invoke'', ct_id agent)) \<and> cr_target_id i = ct_id tool"
    using i by (auto simp: find_Some_iff)
  then show ?thesis
    using r a unfolding edges_from_iff edges_to_iff trusted_by_id_get [OF assms(1)] by (simp add: capability_def)
qed

lemma agent_runs_complete:
  assumes "well_keyed s" and "agent \<in> set (trusted_assets s)" and "ct_kind agent = ''ai_agent''"
    and "capability s ''runs_as'' agent identity r" and "capability s ''can_invoke'' agent tool i"
  shows "\<exists>i'. (agent, r, i') \<in> set (agent_runs s identity tool)"
proof -
  have r: "r \<in> set (group_get (edges_to s) (''runs_as'', ct_id identity))"
    using assms(4) by (simp add: edges_to_iff capability_def)
  have a: "dict_get (trusted_by_id s) (cr_source_id r) = Some agent"
    using assms(2,4) by (simp add: trusted_by_id_get [OF assms(1)] capability_def)
  have "i \<in> set (group_get (edges_from s) (''can_invoke'', ct_id agent))" "cr_target_id i = ct_id tool"
    using assms(5) by (simp_all add: edges_from_iff capability_def)
  then have "find (\<lambda>e. cr_target_id e = ct_id tool) (group_get (edges_from s) (''can_invoke'', ct_id agent)) \<noteq> None"
    by (auto simp: find_None_iff)
  then obtain i' where "find (\<lambda>e. cr_target_id e = ct_id tool)
      (group_get (edges_from s) (''can_invoke'', ct_id agent)) = Some i'" by blast
  then show ?thesis using r a assms(3) unfolding agent_runs_def set_map_filter by force
qed

lemma write_paths_iff:
  "p \<in> set (write_paths str_of s is ts) \<longleftrightarrow> wp_identity p \<in> set is \<and> wp_tool p \<in> set ts
     \<and> (wp_agent p, wp_runs_as p, wp_invokes p) \<in> set (agent_runs s (wp_identity p) (wp_tool p))
     \<and> (wp_store p, wp_writes p) \<in> set (tool_writes str_of s (wp_tool p))"
proof
  assume "p \<in> set (write_paths str_of s is ts)"
  then show "wp_identity p \<in> set is \<and> wp_tool p \<in> set ts
     \<and> (wp_agent p, wp_runs_as p, wp_invokes p) \<in> set (agent_runs s (wp_identity p) (wp_tool p))
     \<and> (wp_store p, wp_writes p) \<in> set (tool_writes str_of s (wp_tool p))"
    unfolding write_paths_def by auto
next
  assume a: "wp_identity p \<in> set is \<and> wp_tool p \<in> set ts
     \<and> (wp_agent p, wp_runs_as p, wp_invokes p) \<in> set (agent_runs s (wp_identity p) (wp_tool p))
     \<and> (wp_store p, wp_writes p) \<in> set (tool_writes str_of s (wp_tool p))"
  have "p = \<lparr>wp_agent = wp_agent p, wp_identity = wp_identity p, wp_tool = wp_tool p,
         wp_store = wp_store p, wp_runs_as = wp_runs_as p, wp_invokes = wp_invokes p, wp_writes = wp_writes p\<rparr>" by simp
  then show "p \<in> set (write_paths str_of s is ts)"
    unfolding write_paths_def using a by (force simp: set_concat)
qed

lemma write_pairs_iff:
  "(f, g, ps) \<in> set (write_pairs str_of s) \<longleftrightarrow> failing s IDENTITY_SIGNAL f \<and> failing s TOOL_SIGNAL g
     \<and> ps = write_paths str_of s (fst (referenced_assets f ''identity'' (trusted_by_kind_key s)))
         (fst (referenced_assets g ''ai_tool'' (trusted_by_kind_key s)))"
  unfolding write_pairs_def by (auto simp: active_signal_iff [symmetric])

lemma pair_sound:
  assumes "well_keyed s" and "(f, g, ps) \<in> set (write_pairs str_of s)" and "p \<in> set ps"
  shows "confirmed_write str_of s f g p"
  using assms(2,3) agent_runs_sound [OF assms(1)]
  unfolding write_pairs_iff confirmed_write_def
  by (auto simp: write_paths_iff referenced_assets_iff [OF assms(1)] tool_writes_iff [OF assms(1)])

lemma pair_complete:
  assumes "well_keyed s" and "confirmed_write str_of s f g p"
  shows "\<exists>ps i. (f, g, ps) \<in> set (write_pairs str_of s) \<and> p\<lparr>wp_invokes := i\<rparr> \<in> set ps"
proof -
  obtain i where "(wp_agent p, wp_runs_as p, i) \<in> set (agent_runs s (wp_identity p) (wp_tool p))"
    using assms(2) agent_runs_complete [OF assms(1)] unfolding confirmed_write_def by blast
  then show ?thesis
    using assms(2) unfolding write_pairs_iff confirmed_write_def
    by (intro exI [of _ "write_paths str_of s (fst (referenced_assets f ''identity'' (trusted_by_kind_key s)))
         (fst (referenced_assets g ''ai_tool'' (trusted_by_kind_key s)))"] exI [of _ i])
      (simp add: write_paths_iff referenced_assets_iff [OF assms(1)] tool_writes_iff [OF assms(1)])
qed

lemma write_drafts_iff:
  assumes "well_keyed s"
  shows "c \<in> set (write_drafts str_of s) \<Longrightarrow> \<exists>f g p. confirmed_write str_of s f g p \<and> c = write_candidate f g p"
    "confirmed_write str_of s f g p \<Longrightarrow> \<exists>c \<in> set (write_drafts str_of s). ic_correlation_key c = write_key p"
proof -
  assume "c \<in> set (write_drafts str_of s)"
  then obtain f g ps p where "(f, g, ps) \<in> set (write_pairs str_of s)" "p \<in> set ps" "c = write_candidate f g p"
    unfolding write_drafts_def by auto
  then show "\<exists>f g p. confirmed_write str_of s f g p \<and> c = write_candidate f g p"
    using pair_sound [OF assms] by blast
next
  assume "confirmed_write str_of s f g p"
  then obtain ps i where "(f, g, ps) \<in> set (write_pairs str_of s)" "p\<lparr>wp_invokes := i\<rparr> \<in> set ps"
    using pair_complete [OF assms] by blast
  then have "write_candidate f g (p\<lparr>wp_invokes := i\<rparr>) \<in> set (write_drafts str_of s)"
    unfolding write_drafts_def by force
  then show "\<exists>c \<in> set (write_drafts str_of s). ic_correlation_key c = write_key p"
    by (rule bexI [rotated]) (simp add: write_candidate_def write_key_def)
qed

lemma by_correlation_key_sub:
  assumes "c \<in> set (by_correlation_key cs)"
  shows "c \<in> set cs"
proof -
  obtain k where "(k, c) \<in> set (dict_of ic_correlation_key cs)"
    using assms unfolding by_correlation_key_def set_sort set_map by (metis imageE prod.collapse)
  then have "dict_get (dict_of ic_correlation_key cs) k = Some c"
    by (rule map_of_is_SomeI [OF distinct_dict_of])
  then show ?thesis by (rule dict_of_SomeD [THEN conjunct1])
qed

lemma by_correlation_key_keys:
  assumes "c \<in> set cs"
  shows "\<exists>d \<in> set (by_correlation_key cs). ic_correlation_key d = ic_correlation_key c"
proof -
  obtain d where d: "dict_get (dict_of ic_correlation_key cs) (ic_correlation_key c) = Some d"
    using dict_of_None_iff [of ic_correlation_key cs "ic_correlation_key c"] assms by (metis imageI not_None_eq)
  then have "d \<in> set (by_correlation_key cs)"
    unfolding by_correlation_key_def by (force dest: map_of_SomeD)
  then show ?thesis using dict_of_SomeD [OF d] by blast
qed

lemma map_res_issues: "map_res new_IssueCandidate cs = Inr ds \<longleftrightarrow> ds = cs \<and> (\<forall>c \<in> set cs. issue_ok c)"
proof (induction cs arbitrary: ds)
  case (Cons c cs)
  then show ?case by (auto simp: bind_res_Inr new_issue_iff)
qed auto

lemma write_result:
  assumes "evaluate_agent_sensitive_write str_of s now = Inr v"
  shows "iv_candidates v = by_correlation_key (write_drafts str_of s)"
    "iv_state v = COMPLETE \<longleftrightarrow> write_incomplete str_of s = 0 \<and> write_ambiguous s = 0"
    "iv_state v = COMPLETE \<or> iv_state v = UNKNOWN" "iv_rule_uid v = ISSUE_WRITE_RULE_UID"
    "iv_incomplete v = write_incomplete str_of s" "iv_ambiguous v = write_ambiguous s"
    "\<forall>c \<in> set (iv_candidates v). issue_ok c"
  using assms by_correlation_key_sub
  by (auto simp: evaluate_agent_sensitive_write_def bind_res_Inr map_res_issues new_issue_evaluation_iff Let_def)

section \<open>The lifecycle of an issue\<close>

lemma store_issue_get:
  "db_issues (store_issue tenant v c db) k =
     (if k = (tenant, ic_correlation_key c) then
        Some ((case db_issues db k of None \<Rightarrow> fresh_issue c (instant (iv_evaluated_at v))
           | Some r \<Rightarrow> (fresh_issue c (instant (iv_evaluated_at v)))
               \<lparr>ir_last_changed_at := (if issue_row_changed r c then instant (iv_evaluated_at v)
                  else ir_last_changed_at r), ir_first_seen_at := ir_first_seen_at r\<rparr>)
          \<lparr>ir_findings := ic_findings c, ir_path_nodes := ic_path_nodes c, ir_path_edges := ic_path_edges c,
           ir_detections := ic_detections c, ir_activities := ic_activities c\<rparr>)
      else db_issues db k)"
  by (auto simp: store_issue_def upsert_issue_def replace_issue_components_def Let_def split: option.splits)

lemma store_issues_get:
  "\<exists>c. db_issues (fold (store_issue tenant v) cs db) k = db_issues db k
     \<or> (\<exists>r'. db_issues (fold (store_issue tenant v) cs db) k = Some r' \<and> fst k = tenant \<and> ir_state r' = ''open''
          \<and> c \<in> set cs \<and> snd k = ic_correlation_key c \<and> ir_rule_uid r' = ic_rule_uid c
          \<and> (\<forall>r. db_issues db k = Some r \<longrightarrow> ir_first_seen_at r' = ir_first_seen_at r))"
proof (induction cs arbitrary: db)
  case (Cons c cs)
  let ?db = "store_issue tenant v c db"
  have c: "db_issues ?db k = db_issues db k
     \<or> (\<exists>r'. db_issues ?db k = Some r' \<and> fst k = tenant \<and> ir_state r' = ''open''
          \<and> snd k = ic_correlation_key c \<and> ir_rule_uid r' = ic_rule_uid c
          \<and> (\<forall>r. db_issues db k = Some r \<longrightarrow> ir_first_seen_at r' = ir_first_seen_at r))"
    by (auto simp: store_issue_get fresh_issue_def split: option.splits)
  obtain d where d: "db_issues (fold (store_issue tenant v) cs ?db) k = db_issues ?db k
     \<or> (\<exists>r'. db_issues (fold (store_issue tenant v) cs ?db) k = Some r' \<and> fst k = tenant \<and> ir_state r' = ''open''
          \<and> d \<in> set cs \<and> snd k = ic_correlation_key d \<and> ir_rule_uid r' = ic_rule_uid d
          \<and> (\<forall>r. db_issues ?db k = Some r \<longrightarrow> ir_first_seen_at r' = ir_first_seen_at r))"
    using Cons.IH [of ?db] by blast
  show ?case
  proof (cases "db_issues (fold (store_issue tenant v) cs ?db) k = db_issues ?db k")
    case True
    then show ?thesis using c by (intro exI [of _ c]) auto
  next
    case False
    then show ?thesis using c d by (intro exI [of _ d]) auto
  qed
qed simp

text \<open>What one evaluation does to a stored row.\<close>

definition issue_step :: "evidence_state \<Rightarrow> issue_evaluation \<Rightarrow> issue_row \<Rightarrow> issue_row \<Rightarrow> bool" where
  "issue_step ev v r r' \<longleftrightarrow> ir_first_seen_at r' = ir_first_seen_at r \<and>
     (r' = r \<or> (ir_state r' = ''open'' \<and> ir_rule_uid r' = iv_rule_uid v)
      \<or> (ir_rule_uid r = iv_rule_uid v \<and> ir_rule_uid r' = iv_rule_uid v
         \<and> ir_state r \<noteq> ''resolved'' \<and> ir_findings r' = ir_findings r \<and> ir_detections r' = ir_detections r
         \<and> (ir_state r', the (ir_resolution_reason r')) = missing_issue_outcome ev (iv_state v) r))"

lemma record_issue_rule_issues [simp]: "db_issues (record_issue_rule tenant v db) = db_issues db"
  by (simp add: record_issue_rule_def)

lemma close_missing_get:
  "db_issues (close_missing ev tenant v active db) k = (case db_issues db k of None \<Rightarrow> None
        | Some r \<Rightarrow> Some (if fst k = tenant \<and> ir_rule_uid r = iv_rule_uid v \<and> ir_state r \<noteq> ''resolved''
              \<and> snd k \<notin> set active
            then r\<lparr>ir_state := fst (missing_issue_outcome ev (iv_state v) r),
                   ir_resolution_reason := Some (snd (missing_issue_outcome ev (iv_state v) r)),
                   ir_last_changed_at := (if ir_state r \<noteq> fst (missing_issue_outcome ev (iv_state v) r)
                     then instant (iv_evaluated_at v) else ir_last_changed_at r),
                   ir_last_evaluated_at := instant (iv_evaluated_at v)\<rparr>
            else r))"
  by (simp add: close_missing_def split_beta Let_def split: option.splits)

lemma store_issue_evaluation_step:
  assumes "\<forall>c \<in> set (iv_candidates v). ic_rule_uid c = iv_rule_uid v"
  shows "db_issues db k = Some r \<Longrightarrow>
      \<exists>r'. db_issues (store_issue_evaluation ev tenant v db) k = Some r' \<and> issue_step ev v r r'"
    "fst k \<noteq> tenant \<Longrightarrow> db_issues (store_issue_evaluation ev tenant v db) k = db_issues db k"
proof -
  let ?db = "fold (store_issue tenant v) (iv_candidates v) db"
  let ?keys = "map ic_correlation_key (iv_candidates v)"
  have e: "db_issues (store_issue_evaluation ev tenant v db) k = db_issues (close_missing ev tenant v ?keys ?db) k"
    by (simp add: store_issue_evaluation_def)
  obtain c where c: "db_issues ?db k = db_issues db k
     \<or> (\<exists>r'. db_issues ?db k = Some r' \<and> fst k = tenant \<and> ir_state r' = ''open''
          \<and> c \<in> set (iv_candidates v) \<and> snd k = ic_correlation_key c \<and> ir_rule_uid r' = ic_rule_uid c
          \<and> (\<forall>r. db_issues db k = Some r \<longrightarrow> ir_first_seen_at r' = ir_first_seen_at r))"
    using store_issues_get by blast
  show "fst k \<noteq> tenant \<Longrightarrow> db_issues (store_issue_evaluation ev tenant v db) k = db_issues db k"
    unfolding e using c by (auto simp: close_missing_get split: option.splits)
  assume r: "db_issues db k = Some r"
  show "\<exists>r'. db_issues (store_issue_evaluation ev tenant v db) k = Some r' \<and> issue_step ev v r r'"
  proof (cases "db_issues ?db k = db_issues db k")
    case True
    then show ?thesis unfolding e close_missing_get r by (simp add: issue_step_def)
  next
    case False
    then obtain r' where r': "db_issues ?db k = Some r'" "ir_state r' = ''open''" "c \<in> set (iv_candidates v)"
      "snd k = ic_correlation_key c" "ir_rule_uid r' = ic_rule_uid c" "ir_first_seen_at r' = ir_first_seen_at r"
      using c r by blast
    then have "snd k \<in> set ?keys" by simp
    then show ?thesis unfolding e close_missing_get r'(1) using r' assms by (simp add: issue_step_def)
  qed
qed

definition issue_steps :: "evidence_state \<Rightarrow> issue_evaluation list \<Rightarrow> issue_row \<Rightarrow> issue_row \<Rightarrow> bool" where
  "issue_steps ev vs r r' \<longleftrightarrow> ir_first_seen_at r' = ir_first_seen_at r \<and>
     (r' = r \<or> ir_state r' = ''open''
      \<or> (\<exists>v \<in> set vs. ir_rule_uid r = iv_rule_uid v
         \<and> (ir_state r', the (ir_resolution_reason r')) = missing_issue_outcome ev (iv_state v) r))"

lemma store_issue_evaluations_step:
  assumes "distinct (map iv_rule_uid vs)"
    and "\<forall>v \<in> set vs. \<forall>c \<in> set (iv_candidates v). ic_rule_uid c = iv_rule_uid v"
    and "db_issues db k = Some r"
  shows "\<exists>r'. db_issues (fold (store_issue_evaluation ev tenant) vs db) k = Some r' \<and> issue_steps ev vs r r'"
  using assms
proof (induction vs arbitrary: db r)
  case Nil
  then show ?case by (simp add: issue_steps_def)
next
  case (Cons v vs)
  obtain r1 where r1: "db_issues (store_issue_evaluation ev tenant v db) k = Some r1" and s1: "issue_step ev v r r1"
    using store_issue_evaluation_step(1) [OF _ Cons.prems(3)] Cons.prems(2) by (meson list.set_intros(1))
  obtain r' where r': "db_issues (fold (store_issue_evaluation ev tenant) vs
      (store_issue_evaluation ev tenant v db)) k = Some r'" and s: "issue_steps ev vs r1 r'"
    using Cons.IH [OF _ _ r1] Cons.prems(1,2) by auto
  have new: "\<forall>w \<in> set vs. iv_rule_uid w \<noteq> iv_rule_uid v"
    using Cons.prems(1) imageI [of _ "set vs" iv_rule_uid] by (metis distinct.simps(2) list.map(2) list.set_map)
  have "issue_steps ev (v # vs) r r'"
    using s1 s new unfolding issue_step_def issue_steps_def by auto
  then show ?case using r' by simp
qed

lemma store_issue_evaluations_tenant:
  assumes "\<forall>v \<in> set vs. \<forall>c \<in> set (iv_candidates v). ic_rule_uid c = iv_rule_uid v" and "fst k \<noteq> tenant"
  shows "db_issues (fold (store_issue_evaluation ev tenant) vs db) k = db_issues db k"
  using assms(1) by (induction vs arbitrary: db) (auto simp: store_issue_evaluation_step(2) [OF _ assms(2)])


section \<open>The three rules together\<close>

lemma list_all2_in:
  "list_all2 P xs ys \<Longrightarrow> y \<in> set ys \<Longrightarrow> \<exists>x \<in> set xs. P x y"
  "list_all2 P xs ys \<Longrightarrow> x \<in> set xs \<Longrightarrow> \<exists>y \<in> set ys. P x y"
  by (induction xs ys rule: list_all2_induct) auto

lemma candidate_uids [simp]:
  "ic_rule_uid (write_candidate f g p) = ISSUE_WRITE_RULE_UID"
  "ic_rule_uid (bedrock_candidate str_of dep w repo r i m x y) = DEPLOYED_BEDROCK_RULE_UID"
  "ic_rule_uid (consent_use_candidate d scopes app later) = CONSENT_THEN_USE_RULE_UID"
  by (simp_all add: write_candidate_def bedrock_candidate_def consent_use_candidate_def Let_def)

lemma write_rule_uids:
  assumes "evaluate_agent_sensitive_write str_of s now = Inr v" and "c \<in> set (iv_candidates v)"
  shows "ic_rule_uid c = iv_rule_uid v"
proof -
  have "c \<in> set (write_drafts str_of s)"
    using assms(2) unfolding write_result(1) [OF assms(1)] by (rule by_correlation_key_sub)
  then show ?thesis unfolding write_result(4) [OF assms(1)] unfolding write_drafts_def by fastforce
qed

lemma map_sum_Inr: "map_sum id f m = Inr y \<longleftrightarrow> (\<exists>x. m = Inr x \<and> y = f x)"
  by (cases m) auto

text \<open>What the Bedrock rule returns for one execution identity and for one deployment.\<close>

lemma bedrock_identity_Inr:
  assumes "bedrock_identity str_of s dep w repo inc r = Inr (cs, n)"
  shows "cs = [] \<or> (n = 0 \<and> (\<exists>identity. dict_get (dict_of ct_id (cs_assets s)) (cr_target_id r) = Some identity
     \<and> ct_kind identity = ''identity'' \<and> (\<forall>c \<in> set cs. issue_ok c)
     \<and> cs = concat (map (\<lambda>m. concat (map (\<lambda>f. map (bedrock_candidate str_of dep w repo r identity m f)
            (filter (\<lambda>f. ct_natural_key identity \<in> set (cf_resource_uids f))
              (active_signal_findings (cs_findings s) BEDROCK_SCOPE_SIGNAL))) inc)) (model_edges s w))))"
proof (cases "dict_get (dict_of ct_id (cs_assets s)) (cr_target_id r)")
  case None
  then show ?thesis using assms by (simp add: bedrock_identity_def)
next
  case (Some identity)
  let ?m = "filter (\<lambda>f. ct_natural_key identity \<in> set (cf_resource_uids f))
              (active_signal_findings (cs_findings s) BEDROCK_SCOPE_SIGNAL)"
  let ?cs = "concat (map (\<lambda>m. concat (map (\<lambda>f. map (bedrock_candidate str_of dep w repo r identity m f) ?m) inc))
    (model_edges s w))"
  have e: "bedrock_identity str_of s dep w repo inc r =
      (if ct_kind identity \<noteq> ''identity'' \<or> ?m = [] then Inr ([], 0)
       else if model_edges s w = [] then Inr ([], 1)
       else map_sum id (\<lambda>cs. (cs, 0)) (map_res new_IssueCandidate ?cs))"
    unfolding bedrock_identity_def Some by (simp add: Let_def)
  show ?thesis
  proof (cases "ct_kind identity \<noteq> ''identity'' \<or> ?m = [] \<or> model_edges s w = []")
    case True
    then have "cs = []" using assms unfolding e by (auto split: if_splits)
    then show ?thesis by blast
  next
    case False
    then have "map_sum id (\<lambda>cs. (cs, 0)) (map_res new_IssueCandidate ?cs) = Inr (cs, n)"
      using assms unfolding e by simp
    then have "cs = ?cs \<and> n = 0 \<and> (\<forall>c \<in> set ?cs. issue_ok c)"
      unfolding map_sum_Inr map_res_issues by blast
    then show ?thesis using Some False by blast
  qed
qed

lemma bedrock_deployment_Inr:
  assumes "bedrock_deployment str_of s dep = Inr (cs, n)"
  shows "cs = [] \<or> (\<exists>w repo paths inc parts.
     dict_get (dict_of ct_id (cs_assets s)) (cr_source_id dep) = Some w \<and> ct_kind w = ''ai_workload''
     \<and> dict_get (dict_of ct_id (cs_assets s)) (cr_target_id dep) = Some repo \<and> ct_kind repo = ''code_repository''
     \<and> iterate_attr (cr_attributes dep) ''reachable_source_paths'' = Inr paths
     \<and> filter_res (included_finding repo (map (py_str str_of) paths))
           (active_signal_findings (cs_findings s) REPOSITORY_GUARDRAIL_SIGNAL) = Inr inc
     \<and> map_res (bedrock_identity str_of s dep w repo inc)
           (group_get (observed_by_source s ''runs_as'') (ct_id w)) = Inr parts
     \<and> cs = concat (map fst parts))"
proof (cases "dict_get (dict_of ct_id (cs_assets s)) (cr_source_id dep)")
  case None
  then show ?thesis using assms by (simp add: bedrock_deployment_def)
next
  case w: (Some w)
  show ?thesis
  proof (cases "dict_get (dict_of ct_id (cs_assets s)) (cr_target_id dep)")
    case None
    then show ?thesis using assms w by (simp add: bedrock_deployment_def)
  next
    case repo: (Some repo)
    let ?runs = "group_get (observed_by_source s ''runs_as'') (ct_id w)"
    have e: "bedrock_deployment str_of s dep =
        (if ct_kind w \<noteq> ''ai_workload'' \<or> ct_kind repo \<noteq> ''code_repository'' then Inr ([], 0)
         else bind_res (iterate_attr (cr_attributes dep) ''reachable_source_paths'') (\<lambda>paths.
            bind_res (filter_res (included_finding repo (map (py_str str_of) paths))
                (active_signal_findings (cs_findings s) REPOSITORY_GUARDRAIL_SIGNAL)) (\<lambda>inc.
              if inc = [] then Inr ([], 0)
              else map_sum id (\<lambda>parts. (concat (map fst parts), sum_list (map snd parts)))
                (map_res (bedrock_identity str_of s dep w repo inc) ?runs))))"
      unfolding bedrock_deployment_def Let_def w repo by simp
    show ?thesis
    proof (cases "ct_kind w \<noteq> ''ai_workload'' \<or> ct_kind repo \<noteq> ''code_repository''")
      case True
      then show ?thesis using assms unfolding e by simp
    next
      case kinds: False
      then obtain paths inc where p: "iterate_attr (cr_attributes dep) ''reachable_source_paths'' = Inr paths"
        and i: "filter_res (included_finding repo (map (py_str str_of) paths))
                (active_signal_findings (cs_findings s) REPOSITORY_GUARDRAIL_SIGNAL) = Inr inc"
        and r: "(if inc = [] then Inr ([], 0) else map_sum id (\<lambda>parts. (concat (map fst parts), sum_list (map snd parts)))
                (map_res (bedrock_identity str_of s dep w repo inc) ?runs)) = Inr (cs, n)"
        using assms unfolding e if_not_P [OF kinds] bind_res_Inr by (elim exE conjE) (rule that)
      show ?thesis
      proof (cases "inc = []")
        case True
        then show ?thesis using r by simp
      next
        case False
        then obtain parts where "map_res (bedrock_identity str_of s dep w repo inc) ?runs = Inr parts"
          "cs = concat (map fst parts)"
          using r unfolding if_not_P [OF False] map_sum_Inr prod.inject by (elim exE conjE) (rule that)
        then show ?thesis using w repo kinds p i by blast
      qed
    qed
  qed
qed

lemma nested_in:
  "c \<in> set (concat (map (\<lambda>m. concat (map (\<lambda>f. map (B m f) gs) fs)) ms)) \<longleftrightarrow>
     (\<exists>m \<in> set ms. \<exists>f \<in> set fs. \<exists>g \<in> set gs. c = B m f g)"
  by auto

lemma bedrock_deployment_uid:
  assumes "bedrock_deployment str_of s dep = Inr (cs, n)" and "c \<in> set cs"
  shows "ic_rule_uid c = DEPLOYED_BEDROCK_RULE_UID"
proof -
  obtain w repo inc parts where m: "map_res (bedrock_identity str_of s dep w repo inc)
      (group_get (observed_by_source s ''runs_as'') (ct_id w)) = Inr parts" and cs: "cs = concat (map fst parts)"
    using bedrock_deployment_Inr [OF assms(1)] assms(2) by (elim disjE exE conjE) (simp, rule that)
  obtain q where q: "q \<in> set parts" "c \<in> set (fst q)" using assms(2) unfolding cs by auto
  then obtain x where "bedrock_identity str_of s dep w repo inc x = Inr q"
    using list_all2_in(1) [OF m [unfolded map_res_Inr] q(1)] by blast
  then have "bedrock_identity str_of s dep w repo inc x = Inr (fst q, snd q)" by simp
  from bedrock_identity_Inr [OF this] have "\<exists>dep w repo r i m x y. c = bedrock_candidate str_of dep w repo r i m x y"
  proof (elim disjE exE conjE)
    assume "fst q = []"
    then show ?thesis using q(2) by simp
  next
    fix identity
    assume "fst q = concat (map (\<lambda>m. concat (map (\<lambda>f. map (bedrock_candidate str_of dep w repo x identity m f)
            (filter (\<lambda>f. ct_natural_key identity \<in> set (cf_resource_uids f))
              (active_signal_findings (cs_findings s) BEDROCK_SCOPE_SIGNAL))) inc)) (model_edges s w))"
    from q(2) [unfolded this nested_in] show ?thesis by blast
  qed
  then show ?thesis by (elim exE) simp
qed

lemma bedrock_result:
  assumes "evaluate_deployed_bedrock_governance_gap str_of s now = Inr v"
  obtains parts where "map_res (bedrock_deployment str_of s) (deployment_edges s) = Inr parts"
    "iv_rule_uid v = DEPLOYED_BEDROCK_RULE_UID" "iv_candidates v = by_correlation_key (concat (map fst parts))"
    "iv_state v = (if iv_incomplete v \<noteq> 0 then UNKNOWN else COMPLETE)" "iv_incomplete v = sum_list (map snd parts)"
  using assms unfolding evaluate_deployed_bedrock_governance_gap_def bind_res_Inr new_issue_evaluation_iff Let_def
  by auto

lemma bedrock_rule_uids:
  assumes "evaluate_deployed_bedrock_governance_gap str_of s now = Inr v"
  shows "iv_rule_uid v = DEPLOYED_BEDROCK_RULE_UID" "c \<in> set (iv_candidates v) \<Longrightarrow> ic_rule_uid c = iv_rule_uid v"
proof -
  obtain parts where p: "map_res (bedrock_deployment str_of s) (deployment_edges s) = Inr parts"
    and v: "iv_rule_uid v = DEPLOYED_BEDROCK_RULE_UID" "iv_candidates v = by_correlation_key (concat (map fst parts))"
    using bedrock_result [OF assms] by blast
  show "iv_rule_uid v = DEPLOYED_BEDROCK_RULE_UID" by (rule v)
  assume "c \<in> set (iv_candidates v)"
  then have "c \<in> set (concat (map fst parts))" unfolding v(2) by (rule by_correlation_key_sub)
  then obtain q where q: "q \<in> set parts" "c \<in> set (fst q)" by auto
  then obtain x where "bedrock_deployment str_of s x = Inr q"
    using list_all2_in(1) [OF p [unfolded map_res_Inr] q(1)] by blast
  then have "bedrock_deployment str_of s x = Inr (fst q, snd q)" by simp
  then show "ic_rule_uid c = iv_rule_uid v" unfolding v(1) using q(2) by (rule bedrock_deployment_uid)
qed

lemma consent_use_keyed:
  "consent_use_verdict str_of acts assets d = Inr (Keyed c) \<longleftrightarrow>
     cd_rule_uid d = CONSENT_DETECTION_RULE_UID \<and> cd_state d = ''open'' \<and>
     (\<exists>values app. iterate_attr (cd_attributes d) ''high_impact_scopes'' = Inr values \<and> values \<noteq> []
        \<and> exact_applications assets d = [app] \<and> later_use acts d app \<noteq> []
        \<and> c = consent_use_candidate d (sort (map (py_str str_of) values)) app (later_use acts d app)
        \<and> issue_ok c)"
proof (cases "cd_rule_uid d = CONSENT_DETECTION_RULE_UID \<and> cd_state d = ''open''")
  case True
  show ?thesis
  proof (cases "iterate_attr (cd_attributes d) ''high_impact_scopes''")
    case (Inl e)
    then show ?thesis by (simp add: consent_use_verdict_def)
  next
    case (Inr vals)
    show ?thesis
    proof (cases "\<exists>app. exact_applications assets d = [app]")
      case one: True
      then obtain app where "exact_applications assets d = [app]" by blast
      then show ?thesis using True Inr
        by (auto simp: consent_use_verdict_def Let_def map_sum_Inr new_issue_iff)
    next
      case False
      then show ?thesis using Inr
        by (auto simp: consent_use_verdict_def Let_def split: list.splits)
    qed
  qed
qed (auto simp: consent_use_verdict_def)

lemma consent_use_result:
  assumes "evaluate_unreviewed_ai_consent_then_use str_of ds acts assets cov now = Inr v"
  obtains verdicts where "list_all2 (\<lambda>d x. consent_use_verdict str_of acts assets d = Inr x) ds verdicts"
    "iv_candidates v = sort_key ic_correlation_key (List.map_filter verdict_key verdicts)"
    "distinct (map ic_correlation_key (List.map_filter verdict_key verdicts))"
    "iv_rule_uid v = CONSENT_THEN_USE_RULE_UID" "iv_incomplete v = length (filter (\<lambda>x. x = Incomplete) verdicts)"
    "iv_state v = (if iv_incomplete v \<noteq> 0 then UNKNOWN else cov)"
  using assms
  by (auto simp: evaluate_unreviewed_ai_consent_then_use_def bind_res_Inr map_res_Inr new_issue_evaluation_iff Let_def)

lemma consent_use_candidates:
  assumes "evaluate_unreviewed_ai_consent_then_use str_of ds acts assets cov now = Inr v"
  shows "c \<in> set (iv_candidates v) \<longleftrightarrow> (\<exists>d \<in> set ds. consent_use_verdict str_of acts assets d = Inr (Keyed c))"
proof -
  obtain verdicts where l: "list_all2 (\<lambda>d x. consent_use_verdict str_of acts assets d = Inr x) ds verdicts"
    and v: "iv_candidates v = sort_key ic_correlation_key (List.map_filter verdict_key verdicts)"
    using consent_use_result [OF assms] by blast
  have "c \<in> set (iv_candidates v) \<longleftrightarrow> Keyed c \<in> set verdicts"
    unfolding v by (simp add: set_map_filter Bex_def)
  also have "\<dots> \<longleftrightarrow> (\<exists>d \<in> set ds. consent_use_verdict str_of acts assets d = Inr (Keyed c))"
    using list_all2_in(1) [OF l] list_all2_in(2) [OF l] by (metis sum.inject(2))
  finally show ?thesis .
qed

lemma consent_use_uids:
  assumes "evaluate_unreviewed_ai_consent_then_use str_of ds acts assets cov now = Inr v"
  shows "iv_rule_uid v = CONSENT_THEN_USE_RULE_UID" "c \<in> set (iv_candidates v) \<Longrightarrow> ic_rule_uid c = iv_rule_uid v"
proof -
  show u: "iv_rule_uid v = CONSENT_THEN_USE_RULE_UID" using consent_use_result [OF assms] by blast
  show "c \<in> set (iv_candidates v) \<Longrightarrow> ic_rule_uid c = iv_rule_uid v"
    unfolding consent_use_candidates [OF assms] u by (auto simp: consent_use_keyed)
qed

lemma evaluate_issues_Inr:
  assumes "evaluate_issues str_of clock rows rules ev tenant s ds acts db = Inr (db', sm)"
  obtains v1 v2 v3 where "evaluate_agent_sensitive_write str_of s (clock ISSUE_WRITE_RULE_UID) = Inr v1"
    "evaluate_deployed_bedrock_governance_gap str_of s (clock DEPLOYED_BEDROCK_RULE_UID) = Inr v2"
    "evaluate_unreviewed_ai_consent_then_use str_of ds acts (cs_assets s)
       (cross_signal_issue_coverage_state rows rules tenant) (clock CONSENT_THEN_USE_RULE_UID) = Inr v3"
    "db' = fold (store_issue_evaluation ev tenant) [v1, v2, v3] db"
    "sm_state sm = aggregate_issue_evaluation_state [v1, v2, v3]"
    "distinct (map iv_rule_uid [v1, v2, v3])"
    "\<forall>v \<in> set [v1, v2, v3]. \<forall>c \<in> set (iv_candidates v). ic_rule_uid c = iv_rule_uid v"
proof -
  obtain v1 v2 v3 where v: "evaluate_agent_sensitive_write str_of s (clock ISSUE_WRITE_RULE_UID) = Inr v1"
    "evaluate_deployed_bedrock_governance_gap str_of s (clock DEPLOYED_BEDROCK_RULE_UID) = Inr v2"
    "evaluate_unreviewed_ai_consent_then_use str_of ds acts (cs_assets s)
       (cross_signal_issue_coverage_state rows rules tenant) (clock CONSENT_THEN_USE_RULE_UID) = Inr v3"
    and db: "db' = fold (store_issue_evaluation ev tenant) [v1, v2, v3] db"
      "sm_state sm = aggregate_issue_evaluation_state [v1, v2, v3]"
    using assms by (auto simp: evaluate_issues_def run_issue_rules_def bind_res_Inr)
  have "distinct (map iv_rule_uid [v1, v2, v3])"
    using write_result(4) [OF v(1)] bedrock_rule_uids(1) [OF v(2)] consent_use_uids(1) [OF v(3)]
    by (simp add: ISSUE_WRITE_RULE_UID_def DEPLOYED_BEDROCK_RULE_UID_def CONSENT_THEN_USE_RULE_UID_def)
  moreover have "\<forall>v \<in> set [v1, v2, v3]. \<forall>c \<in> set (iv_candidates v). ic_rule_uid c = iv_rule_uid v"
    using write_rule_uids [OF v(1)] bedrock_rule_uids(2) [OF v(2)] consent_use_uids(2) [OF v(3)] by simp
  ultimately show thesis using that v db by blast
qed

section \<open>Ambiguous references\<close>

definition unambiguous :: "corr_snapshot \<Rightarrow> string \<Rightarrow> corr_finding \<Rightarrow> bool" where
  "unambiguous s kind f \<longleftrightarrow> (\<forall>a \<in> set (trusted_assets s). \<forall>b \<in> set (trusted_assets s).
     ct_kind a = kind \<and> ct_kind b = kind \<and> ct_natural_key a = ct_natural_key b
     \<and> ct_natural_key a \<in> set (cf_resource_uids f) \<longrightarrow> a = b)"

lemma distinct_two_iff:
  "distinct xs \<Longrightarrow> \<not> 1 < length xs \<longleftrightarrow> (\<forall>a \<in> set xs. \<forall>b \<in> set xs. a = b)"
  by (cases xs; cases "tl xs") auto

lemma referenced_ambiguous_iff:
  assumes "well_keyed s"
  shows "snd (referenced_assets f kind (trusted_by_kind_key s)) = 0 \<longleftrightarrow> unambiguous s kind f"
proof -
  let ?t = "trusted_assets s"
  let ?m = "\<lambda>uid. filter (\<lambda>a. ct_kind a = kind \<and> ct_natural_key a = uid) ?t"
  have m: "(case dict_get (trusted_by_kind_key s) (kind, uid) of None \<Rightarrow> [] | Some xs \<Rightarrow> xs) = ?m uid" for uid
    using group_get_group_by [of "\<lambda>a. Some (ct_kind a, ct_natural_key a)" "\<lambda>a. a" ?t "(kind, uid)"]
    by (simp add: group_get_def trusted_by_kind_key_def)
  have d: "distinct (?m uid)" for uid using trusted_distinct [OF assms] by (simp add: distinct_map)
  have "snd (referenced_assets f kind (trusted_by_kind_key s)) = 0 \<longleftrightarrow> (\<forall>uid \<in> set (cf_resource_uids f). \<not> 1 < length (?m uid))"
    by (simp add: referenced_assets_def m filter_empty_conv)
  then show ?thesis unfolding distinct_two_iff [OF d] by (auto simp: unambiguous_def)
qed

lemma write_ambiguous_iff:
  assumes "well_keyed s"
  shows "write_ambiguous s = 0 \<longleftrightarrow> (\<forall>f. failing s IDENTITY_SIGNAL f \<longrightarrow> unambiguous s ''identity'' f
     \<and> (\<forall>g. failing s TOOL_SIGNAL g \<longrightarrow> unambiguous s ''ai_tool'' g))"
  unfolding write_ambiguous_def Let_def active_signal_iff [symmetric] referenced_ambiguous_iff [OF assms, symmetric]
  by (auto simp: sum_list_eq_0_iff)

lemma write_incomplete_iff:
  assumes "well_keyed s"
  shows "write_incomplete str_of s = 0 \<longleftrightarrow> (\<forall>f g. failing s IDENTITY_SIGNAL f \<and> failing s TOOL_SIGNAL g
     \<longrightarrow> (\<exists>p. confirmed_write str_of s f g p))"
proof -
  have "write_incomplete str_of s = 0 \<longleftrightarrow> (\<forall>f g ps. (f, g, ps) \<in> set (write_pairs str_of s) \<longrightarrow> ps \<noteq> [])"
    by (auto simp: write_incomplete_def filter_empty_conv)
  also have "\<dots> \<longleftrightarrow> (\<forall>f g. failing s IDENTITY_SIGNAL f \<and> failing s TOOL_SIGNAL g
     \<longrightarrow> (\<exists>p. confirmed_write str_of s f g p))"
  proof (intro iffI allI impI)
    fix f g
    assume a: "\<forall>f g ps. (f, g, ps) \<in> set (write_pairs str_of s) \<longrightarrow> ps \<noteq> []"
      and "failing s IDENTITY_SIGNAL f \<and> failing s TOOL_SIGNAL g"
    then obtain ps where ps: "(f, g, ps) \<in> set (write_pairs str_of s)" "ps \<noteq> []"
      unfolding write_pairs_iff by blast
    then show "\<exists>p. confirmed_write str_of s f g p" using pair_sound [OF assms ps(1)] by (metis last_in_set)
  next
    fix f g ps
    assume a: "\<forall>f g. failing s IDENTITY_SIGNAL f \<and> failing s TOOL_SIGNAL g \<longrightarrow> (\<exists>p. confirmed_write str_of s f g p)"
      and m: "(f, g, ps) \<in> set (write_pairs str_of s)"
    then obtain p where "confirmed_write str_of s f g p" unfolding write_pairs_iff by blast
    then obtain ps' i where "(f, g, ps') \<in> set (write_pairs str_of s)" "p\<lparr>wp_invokes := i\<rparr> \<in> set ps'"
      using pair_complete [OF assms] by blast
    then show "ps \<noteq> []" using m unfolding write_pairs_iff by auto
  qed
  finally show ?thesis .
qed

section \<open>Consent followed by use\<close>

lemma later_use_iff:
  "a \<in> set (later_use acts d app) \<longleftrightarrow> a \<in> set acts \<and> da_category a = ''ai_app_sign_in'' \<and> da_outcome a = ''success''
     \<and> ct_id app \<noteq> [] \<and> (\<exists>e \<in> set (da_entities a). de_role e = ''application'' \<and> de_asset_id e = Some (ct_id app))
     \<and> instant (cd_last_seen_at d) < at_time a"
proof -
  have inner: "(if de_role e = ''application'' then
         (case de_asset_id e of Some (x # i) \<Rightarrow> Some (x # i, a) | _ \<Rightarrow> None) else None) = Some (j, b) \<longleftrightarrow>
      de_role e = ''application'' \<and> de_asset_id e = Some j \<and> j \<noteq> [] \<and> b = a" for e :: det_entity and a b :: det_activity and j
    by (auto split: option.splits list.splits)
  have "a \<in> set (later_use acts d app) \<longleftrightarrow> (\<exists>b \<in> set acts. da_category b = ''ai_app_sign_in'' \<and> da_outcome b = ''success''
       \<and> (\<exists>e \<in> set (da_entities b). de_role e = ''application'' \<and> de_asset_id e = Some (ct_id app) \<and> ct_id app \<noteq> [] \<and> a = b))
     \<and> instant (cd_last_seen_at d) < at_time a"
    unfolding later_use_def successful_sign_ins_def group_get_group_by
    by (auto simp: set_map_filter inner image_iff)
  then show ?thesis by blast
qed

text \<open>Open high-impact consent to exactly one eligible application.\<close>

definition high_impact_consent :: "corr_asset list \<Rightarrow> corr_detection \<Rightarrow> corr_asset \<Rightarrow> bool" where
  "high_impact_consent assets d app \<longleftrightarrow>
     cd_rule_uid d = CONSENT_DETECTION_RULE_UID \<and> cd_state d = ''open''
     \<and> (\<exists>xs. iterate_attr (cd_attributes d) ''high_impact_scopes'' = Inr xs \<and> xs \<noteq> [])
     \<and> exact_applications assets d = [app]"

lemma consent_use_keyed_of:
  assumes "consent_use_verdict str_of acts assets d = Inr x" and "high_impact_consent assets d app"
    and "later_use acts d app \<noteq> []"
  shows "\<exists>scopes. x = Keyed (consent_use_candidate d scopes app (later_use acts d app))"
proof -
  obtain xs where "iterate_attr (cd_attributes d) ''high_impact_scopes'' = Inr xs" "xs \<noteq> []"
    using assms(2) unfolding high_impact_consent_def by blast
  then show ?thesis
    using assms by (auto simp: consent_use_verdict_def high_impact_consent_def Let_def map_sum_Inr new_issue_iff)
qed

lemma consent_use_path [simp]:
  "ic_path_nodes (consent_use_candidate d scopes app later) =
     [\<lparr>ipn_asset_id = ct_id app, ipn_position = 0, ipn_role = ''unreviewed_ai_application''\<rparr>]"
  "ic_correlation_key (consent_use_candidate d scopes app later) = key_of [CONSENT_THEN_USE_RULE_UID, ct_natural_key app]"
  "ic_detections (consent_use_candidate d scopes app later) = [\<lparr>idl_detection_id = cd_id d, idl_role = ''high_impact_consent''\<rparr>]"
  "map ial_activity_id (ic_activities (consent_use_candidate d scopes app later)) = map da_id (sort_key time_id later)"
  by (simp_all add: consent_use_candidate_def o_def)

section \<open>Issue rule rows\<close>

lemma issue_rules_unchanged: "db_issue_rules (fold (store_issue tenant v) cs db) = db_issue_rules db"
  by (induction cs arbitrary: db)
    (auto simp: store_issue_def upsert_issue_def replace_issue_components_def Let_def)

lemma issue_rule_row:
  "db_issue_rules (store_issue_evaluation ev tenant v db) = (db_issue_rules db)((tenant, iv_rule_uid v) \<mapsto>
        \<lparr>irr_state = iv_state v, irr_confirmed = length (iv_candidates v),
         irr_incomplete = iv_incomplete v, irr_ambiguous = iv_ambiguous v, irr_detail = iv_detail v,
         irr_evaluated_at = instant (iv_evaluated_at v)\<rparr>)"
  by (simp add: store_issue_evaluation_def record_issue_rule_def close_missing_def issue_rules_unchanged)

lemma issue_rule_rows:
  assumes "distinct (map iv_rule_uid [v1, v2, v3])" and "v \<in> {v1, v2, v3}"
  shows "\<exists>row. db_issue_rules (fold (store_issue_evaluation ev tenant) [v1, v2, v3] db) (tenant, iv_rule_uid v) = Some row
     \<and> irr_state row = iv_state v"
  using assms by (auto simp: issue_rule_row)

section \<open>Snapshots as the database holds them\<close>

text \<open>Primary keys are distinct and confidences lie in the unit interval.\<close>

definition stored_snapshot :: "corr_snapshot \<Rightarrow> bool" where
  "stored_snapshot s \<longleftrightarrow> well_keyed s \<and> distinct (map cf_id (cs_findings s))
     \<and> (\<forall>a \<in> set (cs_assets s). unit_interval (ct_confidence a))
     \<and> (\<forall>r \<in> set (cs_relationships s). unit_interval (cr_confidence r))"

lemma write_candidate_ok:
  assumes "stored_snapshot s" and "confirmed_write str_of s f g p"
  shows "issue_ok (write_candidate f g p)"
proof -
  have "f \<noteq> g"
    using assms(2) by (auto simp: confirmed_write_def failing_def IDENTITY_SIGNAL_def TOOL_SIGNAL_def)
  moreover have "f \<in> set (cs_findings s)" "g \<in> set (cs_findings s)"
    using assms(2) by (simp_all add: confirmed_write_def failing_def)
  moreover have "inj_on cf_id (set (cs_findings s))"
    using assms(1) by (simp add: stored_snapshot_def distinct_map)
  ultimately have ids: "cf_id f \<noteq> cf_id g" by (meson inj_onD)
  have t: "unit_interval (ct_confidence a)" if "a \<in> set (trusted_assets s)" for a
    using assms(1) that by (simp add: stored_snapshot_def trusted_assets_def)
  have e: "unit_interval (cr_confidence r)" if "capability s k a b r" for k a b r
    using assms(1) that by (simp add: stored_snapshot_def capability_def)
  have "\<forall>x \<in> set (ct_confidence (wp_agent p) # [ct_confidence (wp_identity p),
        ct_confidence (wp_tool p), ct_confidence (wp_store p), cr_confidence (wp_runs_as p),
        cr_confidence (wp_invokes p), cr_confidence (wp_writes p)]). unit_interval x"
    using assms(2) t e unfolding confirmed_write_def referenced_def list.set by blast
  then have "unit_interval (ic_confidence (write_candidate f g p))"
    unfolding write_candidate_def using fmin_in by (metis issue_candidate.select_convs(8))
  then show ?thesis
    using ids by (simp add: issue_ok_def write_candidate_def write_key_def key_of_not_Nil ISSUE_WRITE_RULE_UID_def)
qed

lemma write_rule_runs:
  assumes "stored_snapshot s" and "tz_aware now"
  shows "\<exists>v. evaluate_agent_sensitive_write str_of s now = Inr v"
proof -
  have "well_keyed s" using assms(1) by (simp add: stored_snapshot_def)
  then have "\<forall>c \<in> set (write_drafts str_of s). issue_ok c"
    using write_drafts_iff(1) write_candidate_ok [OF assms(1)] by metis
  then have "map_res new_IssueCandidate (write_drafts str_of s) = Inr (write_drafts str_of s)"
    by (simp add: map_res_issues)
  moreover have "distinct (map ic_correlation_key (by_correlation_key cs))" for cs
  proof -
    have "map ic_correlation_key (map snd (dict_of ic_correlation_key cs)) = map fst (dict_of ic_correlation_key cs)"
      by (auto dest!: map_of_is_SomeI [OF distinct_dict_of] dict_of_SomeD)
    then have "distinct (map ic_correlation_key (map snd (dict_of ic_correlation_key cs)))"
      by (simp only: distinct_dict_of)
    then show ?thesis unfolding by_correlation_key_def distinct_sort_key_map .
  qed
  ultimately show ?thesis
    using assms(2) by (simp add: evaluate_agent_sensitive_write_def Let_def new_issue_evaluation_iff)
qed

section \<open>Concrete snapshots\<close>

definition ex_corr_asset :: "string \<Rightarrow> string \<Rightarrow> attrs \<Rightarrow> corr_asset" where
  "ex_corr_asset i kind attributes = \<lparr>ct_id = i, ct_kind = kind, ct_natural_key = ''nk:'' @ i, ct_display_name = i,
     ct_assertion_type = ''observed'', ct_confidence = f_1_0, ct_attributes = attributes\<rparr>"

definition ex_edge :: "string \<Rightarrow> string \<Rightarrow> string \<Rightarrow> corr_relationship" where
  "ex_edge kind source target = \<lparr>cr_id = kind, cr_source_id = source, cr_target_id = target, cr_kind = kind,
     cr_category = ''capability'', cr_assertion_type = ''observed'', cr_confidence = f_0_9, cr_attributes = []\<rparr>"

definition ex_finding :: "string \<Rightarrow> string \<Rightarrow> string \<Rightarrow> corr_finding" where
  "ex_finding i signal uid = \<lparr>cf_id = i, cf_source_uid = i, cf_rule_uid = ''r'', cf_title = i, cf_severity = HIGH,
     cf_state = ''open'', cf_evaluation_result = ''fail'', cf_resource_uids = [uid],
     cf_attributes = [(''denali_signal'', PStr signal)]\<rparr>"

definition ex_path :: write_path where
  "ex_path = \<lparr>wp_agent = ex_corr_asset ''a'' ''ai_agent'' [], wp_identity = ex_corr_asset ''i'' ''identity'' [],
     wp_tool = ex_corr_asset ''t'' ''ai_tool'' [],
     wp_store = ex_corr_asset ''d'' ''ai_datastore'' [(''classification'', PStr ''Restricted'')],
     wp_runs_as = ex_edge ''runs_as'' ''a'' ''i'', wp_invokes = ex_edge ''can_invoke'' ''a'' ''t'',
     wp_writes = ex_edge ''can_write'' ''t'' ''d''\<rparr>"

definition ex_corr :: corr_snapshot where
  "ex_corr = \<lparr>cs_assets = [wp_agent ex_path, wp_identity ex_path, wp_tool ex_path, wp_store ex_path],
     cs_relationships = [wp_runs_as ex_path, wp_invokes ex_path, wp_writes ex_path],
     cs_findings = [ex_finding ''f1'' ''identity.overprivileged'' ''nk:i'',
       ex_finding ''f2'' ''tool.write_without_confirmation'' ''nk:t'']\<rparr>"

lemmas ex_corr_defs = ex_corr_asset_def ex_edge_def ex_finding_def ex_path_def ex_corr_def

lemma min_confidence_ok [simp]: "fle MIN_CONFIDENCE f_1_0" "fle MIN_CONFIDENCE f_0_9"
  by (simp_all add: MIN_CONFIDENCE_def f_0_8_def f_0_9_def f_1_0_def)

lemma ex_corr_stored: "stored_snapshot ex_corr" "well_keyed ex_corr"
  by (simp_all add: stored_snapshot_def well_keyed_def ex_corr_defs)

lemma ex_corr_trusted: "trusted_assets ex_corr = cs_assets ex_corr"
  by (simp add: trusted_assets_def trusted_asset_def ex_corr_defs ELIGIBLE_ASSERTIONS_def)

lemma ex_confirmed:
  "confirmed_write str_of ex_corr (ex_finding ''f1'' ''identity.overprivileged'' ''nk:i'')
     (ex_finding ''f2'' ''tool.write_without_confirmation'' ''nk:t'') ex_path"
proof -
  have "casefold ''Restricted'' = ''restricted''" by code_simp
  then show ?thesis
    unfolding confirmed_write_def referenced_def ex_corr_trusted
    by (simp add: failing_def capability_def observed_edge_def sensitive_store_def ELIGIBLE_ASSERTIONS_def
        IDENTITY_SIGNAL_def TOOL_SIGNAL_def attr_get_def py_str_def ex_corr_defs)
qed

definition ex_noon :: py_datetime where "ex_noon = Aware 43200000000 0"

lemma ex_noon_aware [simp]: "tz_aware ex_noon" by (simp add: ex_noon_def)


text \<open>An unreviewed application, two consents to it by different actors, and one later sign-in.\<close>

definition ex_app :: corr_asset where
  "ex_app = ex_corr_asset ''app'' ''ai_application'' [(''governance_status'', PStr ''unreviewed'')]"

definition ex_consent_detection :: "string \<Rightarrow> corr_detection" where
  "ex_consent_detection i = \<lparr>cd_id = i, cd_rule_uid = CONSENT_DETECTION_RULE_UID, cd_title = i, cd_severity = HIGH,
     cd_state = ''open'', cd_confidence = f_1_0, cd_first_seen_at = Aware 0 0, cd_last_seen_at = Aware 1000000 0,
     cd_activity_ids = [], cd_asset_ids = [''app''],
     cd_attributes = [(''high_impact_scopes'', PList [PStr ''Files.ReadWrite.All''])]\<rparr>"

definition ex_use :: det_activity where
  "ex_use = \<lparr>da_id = ''use'', da_category = ''ai_app_sign_in'', da_outcome = ''success'', da_title = ''use'',
     da_occurred_at = Aware 5000000 0, da_provider = None, da_connection_id = None, da_session_key = None,
     da_session_uid = None, da_trace_uid = None, da_span_uid = None, da_parent_span_uid = None,
     da_attributes = [], da_evidence = [], da_entities =
       [\<lparr>de_role = ''application'', de_external_uid = ''x'', de_display_name = None, de_asset_id = Some ''app''\<rparr>]\<rparr>"

lemma ex_consent_high: "high_impact_consent [ex_app] (ex_consent_detection i) ex_app"
  by (simp add: high_impact_consent_def ex_consent_detection_def iterate_attr_def exact_applications_def dict_of_def
      map_filter_simps ex_app_def ex_corr_asset_def ELIGIBLE_ASSERTIONS_def attr_get_def)

lemma ex_later: "later_use [ex_use] (ex_consent_detection i) ex_app = [ex_use]"
proof -
  have "successful_sign_ins [ex_use] = [(''app'', [ex_use])]"
    by (simp add: successful_sign_ins_def ex_use_def map_filter_simps group_by_def dict_append_def)
  then show ?thesis
    by (simp add: later_use_def group_get_def ex_app_def ex_corr_asset_def ex_consent_detection_def)
      (simp add: ex_use_def)
qed

lemma ex_consent_runs:
  "\<exists>v. evaluate_unreviewed_ai_consent_then_use str_of [ex_consent_detection ''c1''] [ex_use] [ex_app] COMPLETE ex_noon = Inr v"
proof -
  have ok: "issue_ok (consent_use_candidate (ex_consent_detection i) scopes ex_app [ex_use])" for i scopes
    by (simp add: issue_ok_def consent_use_candidate_def key_of_not_Nil CONSENT_THEN_USE_RULE_UID_def
        ex_consent_detection_def ex_app_def ex_corr_asset_def f_1_0_def unit_interval_iff)
  have "\<exists>c. consent_use_verdict str_of [ex_use] [ex_app] (ex_consent_detection ''c1'') = Inr (Keyed c)"
    using ex_consent_high [of "''c1''"] unfolding consent_use_keyed high_impact_consent_def ex_later by (auto simp: ex_later ok)
  then show ?thesis
    by (auto simp: evaluate_unreviewed_ai_consent_then_use_def Let_def new_issue_evaluation_iff map_filter_simps)
qed

definition ex_empty_corr :: corr_snapshot where
  "ex_empty_corr = \<lparr>cs_assets = [], cs_relationships = [], cs_findings = []\<rparr>"

definition ex_issue_db :: "issue_row \<Rightarrow> issue_db" where
  "ex_issue_db r = \<lparr>db_issues = [(''t'', ''k'') \<mapsto> r], db_issue_rules = Map.empty\<rparr>"

lemma ex_empty_runs:
  "\<exists>db' sm. evaluate_issues str_of (\<lambda>_. ex_noon) [] Map.empty ev ''t'' ex_empty_corr [] [] db = Inr (db', sm)"
proof -
  have "stored_snapshot ex_empty_corr" by (simp add: stored_snapshot_def well_keyed_def ex_empty_corr_def)
  then obtain v where "evaluate_agent_sensitive_write str_of ex_empty_corr ex_noon = Inr v"
    using write_rule_runs [OF _ ex_noon_aware] by blast
  moreover have "\<exists>v. evaluate_deployed_bedrock_governance_gap str_of ex_empty_corr ex_noon = Inr v"
    by (simp add: evaluate_deployed_bedrock_governance_gap_def deployment_edges_def ex_empty_corr_def Let_def
        new_issue_evaluation_iff by_correlation_key_def dict_of_def)
  moreover have "\<exists>v. evaluate_unreviewed_ai_consent_then_use str_of [] [] (cs_assets ex_empty_corr) cov ex_noon = Inr v" for cov
    by (simp add: evaluate_unreviewed_ai_consent_then_use_def Let_def new_issue_evaluation_iff map_filter_simps)
  ultimately show ?thesis
    by (auto simp: evaluate_issues_def run_issue_rules_def bind_res_Inr)
qed

section \<open>Properties\<close>

text \<open>
  C13. The agent-write rule reports a correlation key exactly when the snapshot has a confirmed path of
  that key: a trusted agent that runs as an identity and can invoke a tool, the tool able to write to a
  sensitive datastore, every edge an observed capability, an open failing finding naming the identity and one
  naming the tool without ambiguity; and each reported issue carries such a path, never an invented node.
\<close>

theorem write_path_reported_iff:
  assumes "well_keyed s" and "evaluate_agent_sensitive_write str_of s now = Inr v"
  shows "((\<exists>c \<in> set (iv_candidates v). ic_correlation_key c = k) \<longleftrightarrow>
       (\<exists>f g p. confirmed_write str_of s f g p \<and> k = write_key p))
    \<and> (\<forall>c \<in> set (iv_candidates v). \<exists>f g p. confirmed_write str_of s f g p \<and> c = write_candidate f g p)"
proof -
  note cands = write_result(1) [OF assms(2)]
  have sound: "\<forall>c \<in> set (iv_candidates v). \<exists>f g p. confirmed_write str_of s f g p \<and> c = write_candidate f g p"
    unfolding cands using write_drafts_iff(1) [OF assms(1)] by_correlation_key_sub by blast
  have key: "ic_correlation_key (write_candidate f g p) = write_key p" for f g p by (simp add: write_candidate_def)
  have "\<exists>c \<in> set (iv_candidates v). ic_correlation_key c = write_key p" if "confirmed_write str_of s f g p" for f g p
    unfolding cands using write_drafts_iff(2) [OF assms(1) that] by_correlation_key_keys by metis
  then show ?thesis using sound key by metis
qed

theorem write_path_reported_iff_witness:
  "\<exists>v. evaluate_agent_sensitive_write (\<lambda>_. ''?'') ex_corr ex_noon = Inr v
     \<and> (\<exists>c \<in> set (iv_candidates v). ic_correlation_key c = write_key ex_path)"
proof -
  obtain v where v: "evaluate_agent_sensitive_write (\<lambda>_. ''?'') ex_corr ex_noon = Inr v"
    using write_rule_runs [OF ex_corr_stored(1) ex_noon_aware] by blast
  show ?thesis
    using v write_path_reported_iff [OF ex_corr_stored(2) v, of "write_key ex_path"] ex_confirmed by blast
qed

text \<open>
  The agent-write rule claims complete coverage exactly when every pair of an open identity and an
  open tool finding has a confirmed path and no reference of them is ambiguous.
\<close>

theorem write_rule_complete_iff:
  assumes "well_keyed s" and "evaluate_agent_sensitive_write str_of s now = Inr v"
  shows "iv_state v = COMPLETE \<longleftrightarrow>
    (\<forall>f. failing s IDENTITY_SIGNAL f \<longrightarrow> unambiguous s ''identity'' f
       \<and> (\<forall>g. failing s TOOL_SIGNAL g \<longrightarrow> unambiguous s ''ai_tool'' g \<and> (\<exists>p. confirmed_write str_of s f g p)))"
  unfolding write_result(2) [OF assms(2)] write_incomplete_iff [OF assms(1)] write_ambiguous_iff [OF assms(1)] by blast

theorem write_rule_complete_iff_witness:
  "\<exists>v. evaluate_agent_sensitive_write (\<lambda>_. ''?'') ex_corr ex_noon = Inr v \<and> iv_state v = COMPLETE"
proof -
  obtain v where v: "evaluate_agent_sensitive_write (\<lambda>_. ''?'') ex_corr ex_noon = Inr v"
    using write_rule_runs [OF ex_corr_stored(1) ex_noon_aware] by blast
  have f: "failing ex_corr IDENTITY_SIGNAL f \<Longrightarrow> f = ex_finding ''f1'' ''identity.overprivileged'' ''nk:i''"
    "failing ex_corr TOOL_SIGNAL f \<Longrightarrow> f = ex_finding ''f2'' ''tool.write_without_confirmation'' ''nk:t''" for f
    by (auto simp: failing_def ex_corr_def ex_finding_def IDENTITY_SIGNAL_def TOOL_SIGNAL_def attr_get_def)
  have "unambiguous ex_corr kind f" for kind f
    unfolding unambiguous_def ex_corr_trusted by (simp add: ex_corr_defs)
  then have "iv_state v = COMPLETE"
    unfolding write_rule_complete_iff [OF ex_corr_stored(2) v] using f ex_confirmed by blast
  then show ?thesis using v by blast
qed

text \<open>
  The aggregate of the issue rules is complete exactly when some rule is, none failed or was
  partial, and every rule of unknown state had neither candidates nor incomplete or ambiguous evidence.
\<close>

theorem aggregate_complete_iff:
  "aggregate_issue_evaluation_state vs = COMPLETE \<longleftrightarrow>
     (\<exists>v \<in> set vs. iv_state v = COMPLETE)
     \<and> (\<forall>v \<in> set vs. iv_state v \<noteq> FAILED \<and> iv_state v \<noteq> PARTIAL
          \<and> (iv_state v = UNKNOWN \<longrightarrow> iv_candidates v = [] \<and> iv_incomplete v = 0 \<and> iv_ambiguous v = 0))"
proof (cases "vs = []")
  case False
  have mem: "c \<in> set (map iv_state vs) \<longleftrightarrow> (\<exists>v \<in> set vs. iv_state v = c)" for c by auto
  have all: "list_all (\<lambda>x. x = c) (map iv_state vs) \<longleftrightarrow> (\<forall>v \<in> set vs. iv_state v = c)" for c
    by (simp add: list_all_iff)
  have ne: "\<exists>v. v \<in> set vs" using False by (meson last_in_set)
  show ?thesis
    unfolding aggregate_issue_evaluation_state_def Let_def mem all list_ex_iff if_not_P [OF False]
    using ne by (smt (verit) coverage_state.distinct)
qed (simp add: aggregate_issue_evaluation_state_def)

theorem aggregate_complete_iff_witness:
  "aggregate_issue_evaluation_state
     [\<lparr>iv_rule_uid = ISSUE_WRITE_RULE_UID, iv_state = COMPLETE, iv_evaluated_at = ex_noon, iv_candidates = [],
        iv_incomplete = 0, iv_ambiguous = 0, iv_detail = None\<rparr>,
      \<lparr>iv_rule_uid = CONSENT_THEN_USE_RULE_UID, iv_state = UNKNOWN, iv_evaluated_at = ex_noon, iv_candidates = [],
        iv_incomplete = 0, iv_ambiguous = 0, iv_detail = None\<rparr>] = COMPLETE"
  by (rule aggregate_complete_iff [THEN iffD2]) simp

text \<open>
  C28. When it returns (several consents that would be reported for one application make it raise), the consent-then-use rule reports an application exactly when an open consent detection with
  high-impact scopes names exactly one eligible unreviewed application and a successful sign-in to that very
  application is later than the consent.
\<close>

theorem consent_use_reported_iff:
  assumes "evaluate_unreviewed_ai_consent_then_use str_of ds acts assets cov now = Inr v"
  shows "(\<exists>c \<in> set (iv_candidates v). map ipn_asset_id (ic_path_nodes c) = [i]) \<longleftrightarrow>
    (\<exists>d \<in> set ds. \<exists>app. high_impact_consent assets d app \<and> ct_id app = i \<and> i \<noteq> []
       \<and> (\<exists>a \<in> set acts. da_category a = ''ai_app_sign_in'' \<and> da_outcome a = ''success''
            \<and> (\<exists>e \<in> set (da_entities a). de_role e = ''application'' \<and> de_asset_id e = Some i)
            \<and> instant (cd_last_seen_at d) < at_time a))" (is "?L \<longleftrightarrow> ?R")
proof
  assume ?L
  then obtain c where c: "c \<in> set (iv_candidates v)" and i: "map ipn_asset_id (ic_path_nodes c) = [i]"
    by (elim bexE)
  obtain d where d: "d \<in> set ds" and k: "consent_use_verdict str_of acts assets d = Inr (Keyed c)"
    using c unfolding consent_use_candidates [OF assms] by (elim bexE)
  obtain app xs where h: "high_impact_consent assets d app" and l: "later_use acts d app \<noteq> []"
    and c: "c = consent_use_candidate d xs app (later_use acts d app)"
    using k unfolding consent_use_keyed high_impact_consent_def by blast
  have "ct_id app = i" using i unfolding c by simp
  moreover obtain a where "a \<in> set (later_use acts d app)" using l by (meson last_in_set)
  ultimately show ?R using d h unfolding later_use_iff by blast
next
  assume ?R
  then obtain d app a where d: "d \<in> set ds" and h: "high_impact_consent assets d app" and i: "ct_id app = i"
    and a: "a \<in> set (later_use acts d app)" unfolding later_use_iff by blast
  obtain verdicts where l: "list_all2 (\<lambda>d x. consent_use_verdict str_of acts assets d = Inr x) ds verdicts"
    using consent_use_result [OF assms] by blast
  obtain x where x: "consent_use_verdict str_of acts assets d = Inr x" using list_all2_in(2) [OF l d] by blast
  have "later_use acts d app \<noteq> []" using a by auto
  from consent_use_keyed_of [OF x h this] obtain scopes
    where "x = Keyed (consent_use_candidate d scopes app (later_use acts d app))" by blast
  then have "consent_use_candidate d scopes app (later_use acts d app) \<in> set (iv_candidates v)"
    using x d unfolding consent_use_candidates [OF assms] by blast
  then show ?L by (rule bexI [rotated]) (simp add: i)
qed

text \<open>
  C39. Two open high-impact consents to the same unreviewed application that is used afterwards make the
  rule raise instead of reporting the application: both candidates get the application's correlation key.
\<close>

theorem consent_use_repeat_fails:
  assumes "ds = pre @ d # mid @ d' # post"
    and "high_impact_consent assets d app" and "high_impact_consent assets d' app"
    and "later_use acts d app \<noteq> []" and "later_use acts d' app \<noteq> []"
  shows "\<exists>e. evaluate_unreviewed_ai_consent_then_use str_of ds acts assets cov now = Inl e"
proof (rule ccontr)
  assume "\<not> ?thesis"
  then obtain v where v: "evaluate_unreviewed_ai_consent_then_use str_of ds acts assets cov now = Inr v"
    by (metis sum.exhaust)
  obtain xs where l: "list_all2 (\<lambda>d x. consent_use_verdict str_of acts assets d = Inr x) ds xs"
    and dis: "distinct (map ic_correlation_key (List.map_filter verdict_key xs))"
    using consent_use_result [OF v] by blast
  obtain xs1 x xs2 x' xs3 where xs: "xs = xs1 @ x # xs2 @ x' # xs3"
    and x: "consent_use_verdict str_of acts assets d = Inr x" "consent_use_verdict str_of acts assets d' = Inr x'"
    using l unfolding assms(1) by (auto simp: list_all2_append1 list_all2_Cons1)
  obtain s s' where k: "x = Keyed (consent_use_candidate d s app (later_use acts d app))"
    "x' = Keyed (consent_use_candidate d' s' app (later_use acts d' app))"
    using consent_use_keyed_of [OF x(1) assms(2,4)] consent_use_keyed_of [OF x(2) assms(3,5)] by blast
  show False using dis unfolding xs k by (simp add: map_filter_def)
qed

text \<open>
  C17. An evaluation keeps every stored issue with its first-seen time and touches only its tenant; it
  resolves an issue only when the issue's rule ran to complete coverage, or when neither all its stored
  findings still fail nor all its stored detections are still open.
\<close>

theorem issue_resolved_only_if:
  assumes "evaluate_issues str_of clock rows rules ev tenant s ds acts db = Inr (db', sm)"
    and "db_issues db k = Some r"
  shows "\<exists>r'. db_issues db' k = Some r' \<and> ir_first_seen_at r' = ir_first_seen_at r \<and> (fst k \<noteq> tenant \<longrightarrow> r' = r)
    \<and> (ir_state r' = ''resolved'' \<and> ir_state r \<noteq> ''resolved'' \<longrightarrow>
        (\<exists>row. db_issue_rules db' (tenant, ir_rule_uid r) = Some row \<and> irr_state row = COMPLETE)
        \<or> findings_open ev r \<noteq> Some True \<and> detections_open ev r \<noteq> Some True)"
proof (rule evaluate_issues_Inr [OF assms(1)])
  fix v1 v2 v3
  assume db': "db' = fold (store_issue_evaluation ev tenant) [v1, v2, v3] db"
    and d: "distinct (map iv_rule_uid [v1, v2, v3])"
    and u: "\<forall>v \<in> set [v1, v2, v3]. \<forall>c \<in> set (iv_candidates v). ic_rule_uid c = iv_rule_uid v"
  obtain r' where r': "db_issues db' k = Some r'" and st: "issue_steps ev [v1, v2, v3] r r'"
    using store_issue_evaluations_step [OF d u assms(2)] unfolding db' by blast
  have "fst k \<noteq> tenant \<longrightarrow> r' = r"
    using store_issue_evaluations_tenant [OF u, of k tenant ev db] r' assms(2) unfolding db' by auto
  moreover have "(\<exists>row. db_issue_rules db' (tenant, ir_rule_uid r) = Some row \<and> irr_state row = COMPLETE)
        \<or> findings_open ev r \<noteq> Some True \<and> detections_open ev r \<noteq> Some True"
    if "ir_state r' = ''resolved''" "ir_state r \<noteq> ''resolved''"
  proof -
    from st that obtain v where v: "v \<in> {v1, v2, v3}" "ir_rule_uid r = iv_rule_uid v"
      and o: "ir_state r' = fst (missing_issue_outcome ev (iv_state v) r)"
      unfolding issue_steps_def by (auto simp: prod_eq_iff)
    have "iv_state v = COMPLETE \<or> findings_open ev r \<noteq> Some True \<and> detections_open ev r \<noteq> Some True"
      using o that(1) by (auto simp: missing_issue_outcome_def Let_def split: if_splits)
    then show ?thesis using issue_rule_rows [OF d v(1), of ev tenant db] unfolding db' v(2) by auto
  qed
  ultimately show ?thesis using r' st unfolding issue_steps_def by blast
qed


theorem consent_use_reported_iff_witness:
  "\<exists>v. evaluate_unreviewed_ai_consent_then_use (\<lambda>_. ''?'') [ex_consent_detection ''c1''] [ex_use] [ex_app] COMPLETE ex_noon = Inr v
     \<and> (\<exists>c \<in> set (iv_candidates v). map ipn_asset_id (ic_path_nodes c) = [''app''])"
proof -
  obtain v where v: "evaluate_unreviewed_ai_consent_then_use (\<lambda>_. ''?'') [ex_consent_detection ''c1''] [ex_use] [ex_app]
      COMPLETE ex_noon = Inr v"
    using ex_consent_runs by blast
  have "ct_id ex_app = ''app''" by (simp add: ex_app_def ex_corr_asset_def)
  then have "\<exists>c \<in> set (iv_candidates v). map ipn_asset_id (ic_path_nodes c) = [''app'']"
    unfolding consent_use_reported_iff [OF v]
    using ex_consent_high [of "''c1''"] by (auto simp: ex_use_def ex_consent_detection_def)
  with v show ?thesis by (intro exI [of _ v] conjI)
qed

theorem consent_use_repeat_fails_witness:
  "\<exists>e. evaluate_unreviewed_ai_consent_then_use (\<lambda>_. ''?'') [ex_consent_detection ''c1'', ex_consent_detection ''c2'']
     [ex_use] [ex_app] COMPLETE ex_noon = Inl e"
  by (rule consent_use_repeat_fails [of _ "[]" "ex_consent_detection ''c1''" "[]" "ex_consent_detection ''c2''" "[]" "[ex_app]" ex_app])
    (simp_all add: ex_later ex_consent_high)

theorem issue_resolved_only_if_witness:
  "\<exists>db' sm r'. evaluate_issues (\<lambda>_. ''?'') (\<lambda>_. ex_noon) [] Map.empty
       \<lparr>ev_finding_failing = \<lambda>_. None, ev_detection_open = \<lambda>_. None\<rparr> ''t'' ex_empty_corr [] []
       (ex_issue_db (fresh_issue (write_candidate (ex_finding ''f1'' [] []) (ex_finding ''f2'' [] []) ex_path) 0)) = Inr (db', sm)
     \<and> db_issues db' (''t'', ''k'') = Some r' \<and> ir_first_seen_at r' = 0"
proof -
  let ?r = "fresh_issue (write_candidate (ex_finding ''f1'' [] []) (ex_finding ''f2'' [] []) ex_path) 0"
  obtain db' sm where e: "evaluate_issues (\<lambda>_. ''?'') (\<lambda>_. ex_noon) [] Map.empty
       \<lparr>ev_finding_failing = \<lambda>_. None, ev_detection_open = \<lambda>_. None\<rparr> ''t'' ex_empty_corr [] [] (ex_issue_db ?r) = Inr (db', sm)"
    using ex_empty_runs by blast
  have "db_issues (ex_issue_db ?r) (''t'', ''k'') = Some ?r" by (simp add: ex_issue_db_def)
  from issue_resolved_only_if [OF e this] show ?thesis using e by (auto simp: fresh_issue_def)
qed

end
