(* ===== verification/Issue_Bedrock.thy ===== *)
theory Issue_Bedrock
  imports Issue_Props
begin

text \<open>The rule on deployed Bedrock calls: what it reports, exactly, and a concrete deployment.\<close>


lemma filter_res_iff:
  assumes "filter_res p xs = Inr ys"
  shows "y \<in> set ys \<longleftrightarrow> y \<in> set xs \<and> p y = Inr True"
proof -
  obtain bs where bs: "map_res p xs = Inr bs" and ys: "ys = map fst (filter snd (zip xs bs))"
    using assms by (auto simp: filter_res_def map_sum_Inr)
  have l: "list_all2 (\<lambda>x b. p x = Inr b) xs bs" using bs by (simp add: map_res_Inr)
  have "y \<in> set ys \<longleftrightarrow> (y, True) \<in> set (zip xs bs)" unfolding ys by force
  also have "\<dots> \<longleftrightarrow> y \<in> set xs \<and> p y = Inr True"
    using l by (induction xs bs rule: list_all2_induct) auto
  finally show ?thesis .
qed

definition by_id :: "corr_snapshot \<Rightarrow> string \<Rightarrow> corr_asset option" where
  "by_id s i = dict_get (dict_of ct_id (cs_assets s)) i"

text \<open>An included unguarded call, its deployment, and the broad authority of the workload's role.\<close>

definition bedrock_path ::
    "(pyval \<Rightarrow> string) \<Rightarrow> corr_snapshot \<Rightarrow> corr_relationship \<Rightarrow> corr_asset \<Rightarrow> corr_asset \<Rightarrow> corr_relationship
     \<Rightarrow> corr_asset \<Rightarrow> corr_asset \<times> corr_relationship \<Rightarrow> corr_finding \<Rightarrow> corr_finding \<Rightarrow> bool" where
  "bedrock_path str_of s dep w repo run identity m cf f \<longleftrightarrow>
     dep \<in> set (deployment_edges s) \<and> by_id s (cr_source_id dep) = Some w \<and> ct_kind w = ''ai_workload''
     \<and> by_id s (cr_target_id dep) = Some repo \<and> ct_kind repo = ''code_repository''
     \<and> failing s REPOSITORY_GUARDRAIL_SIGNAL cf
     \<and> attr_get (cf_attributes cf) ''repository'' = PStr (ct_natural_key repo)
     \<and> (\<exists>paths t. iterate_attr (cr_attributes dep) ''reachable_source_paths'' = Inr paths
          \<and> attr_get (cf_attributes cf) ''source_path'' = PStr t \<and> t \<in> py_str str_of ` set paths)
     \<and> run \<in> set (cs_relationships s) \<and> observed_edge run \<and> cr_kind run = ''runs_as'' \<and> cr_source_id run = ct_id w
     \<and> by_id s (cr_target_id run) = Some identity \<and> ct_kind identity = ''identity''
     \<and> failing s BEDROCK_SCOPE_SIGNAL f \<and> ct_natural_key identity \<in> set (cf_resource_uids f)
     \<and> snd m \<in> set (cs_relationships s) \<and> observed_edge (snd m) \<and> cr_kind (snd m) = ''uses'' \<and> cr_source_id (snd m) = ct_id w
     \<and> by_id s (cr_target_id (snd m)) = Some (fst m) \<and> ct_kind (fst m) = ''ai_model''
     \<and> startswith (ct_natural_key (fst m)) ''aws:bedrock:model:''"

lemma included_iff:
  "included_finding repo texts f = Inr True \<longleftrightarrow> attr_get (cf_attributes f) ''repository'' = PStr (ct_natural_key repo)
     \<and> (\<exists>t. attr_get (cf_attributes f) ''source_path'' = PStr t \<and> t \<in> set texts)"
  by (cases "attr_get (cf_attributes f) ''source_path''") (simp_all add: included_finding_def in_text_set_def)

lemma observed_by_source_iff:
  "r \<in> set (group_get (observed_by_source s kind) i) \<longleftrightarrow>
     r \<in> set (cs_relationships s) \<and> observed_edge r \<and> cr_kind r = kind \<and> cr_source_id r = i"
  unfolding observed_by_source_def group_get_group_by by (auto split: if_splits)

lemma model_edges_iff:
  "m \<in> set (model_edges s w) \<longleftrightarrow> snd m \<in> set (cs_relationships s) \<and> observed_edge (snd m) \<and> cr_kind (snd m) = ''uses''
     \<and> cr_source_id (snd m) = ct_id w \<and> by_id s (cr_target_id (snd m)) = Some (fst m) \<and> ct_kind (fst m) = ''ai_model''
     \<and> startswith (ct_natural_key (fst m)) ''aws:bedrock:model:''"
proof -
  have inner: "(case dict_get (dict_of ct_id (cs_assets s)) (cr_target_id e) of
       Some x \<Rightarrow> if ct_kind x = ''ai_model'' \<and> startswith (ct_natural_key x) ''aws:bedrock:model:'' then Some (x, e) else None
     | None \<Rightarrow> None) = Some m \<longleftrightarrow> e = snd m \<and> by_id s (cr_target_id e) = Some (fst m) \<and> ct_kind (fst m) = ''ai_model''
       \<and> startswith (ct_natural_key (fst m)) ''aws:bedrock:model:''" for e
    unfolding by_id_def by (cases "dict_get (dict_of ct_id (cs_assets s)) (cr_target_id e)"; cases m) auto
  show ?thesis unfolding model_edges_def set_map_filter Bex_def inner observed_by_source_iff by blast
qed

lemma bedrock_identity_sound:
  assumes "bedrock_identity str_of s dep w repo inc run = Inr (cs, n)" and "c \<in> set cs"
  shows "\<exists>identity m cf f. c = bedrock_candidate str_of dep w repo run identity m cf f
     \<and> by_id s (cr_target_id run) = Some identity \<and> ct_kind identity = ''identity'' \<and> m \<in> set (model_edges s w)
     \<and> cf \<in> set inc \<and> failing s BEDROCK_SCOPE_SIGNAL f \<and> ct_natural_key identity \<in> set (cf_resource_uids f)"
  using bedrock_identity_Inr [OF assms(1)]
proof (elim disjE exE conjE)
  assume "cs = []"
  then show ?thesis using assms(2) by simp
next
  fix identity
  assume i: "dict_get (dict_of ct_id (cs_assets s)) (cr_target_id run) = Some identity" "ct_kind identity = ''identity''"
    and cs: "cs = concat (map (\<lambda>m. concat (map (\<lambda>f. map (bedrock_candidate str_of dep w repo run identity m f)
            (filter (\<lambda>f. ct_natural_key identity \<in> set (cf_resource_uids f))
              (active_signal_findings (cs_findings s) BEDROCK_SCOPE_SIGNAL))) inc)) (model_edges s w))"
  obtain m cf f where "m \<in> set (model_edges s w)" "cf \<in> set inc"
    "f \<in> set (filter (\<lambda>f. ct_natural_key identity \<in> set (cf_resource_uids f))
              (active_signal_findings (cs_findings s) BEDROCK_SCOPE_SIGNAL))"
    "c = bedrock_candidate str_of dep w repo run identity m cf f"
    using assms(2) [unfolded cs nested_in] by blast
  moreover from this(3) have "failing s BEDROCK_SCOPE_SIGNAL f \<and> ct_natural_key identity \<in> set (cf_resource_uids f)"
    by (simp add: active_signal_iff)
  ultimately show ?thesis using i unfolding by_id_def by blast
qed

lemma bedrock_identity_complete:
  assumes "bedrock_identity str_of s dep w repo inc run = Inr q"
    and "by_id s (cr_target_id run) = Some identity" "ct_kind identity = ''identity''" "m \<in> set (model_edges s w)"
    "cf \<in> set inc" "failing s BEDROCK_SCOPE_SIGNAL f" "ct_natural_key identity \<in> set (cf_resource_uids f)"
  shows "bedrock_candidate str_of dep w repo run identity m cf f \<in> set (fst q)"
proof -
  let ?m = "filter (\<lambda>f. ct_natural_key identity \<in> set (cf_resource_uids f))
              (active_signal_findings (cs_findings s) BEDROCK_SCOPE_SIGNAL)"
  let ?cs = "concat (map (\<lambda>m. concat (map (\<lambda>f. map (bedrock_candidate str_of dep w repo run identity m f) ?m) inc))
    (model_edges s w))"
  have f: "f \<in> set ?m" using assms(6,7) by (simp add: active_signal_iff)
  then have ne: "\<not> (ct_kind identity \<noteq> ''identity'' \<or> ?m = [])" "model_edges s w \<noteq> []"
    using assms(3,4) by (metis empty_iff empty_set)+
  have e: "bedrock_identity str_of s dep w repo inc run = map_sum id (\<lambda>cs. (cs, 0)) (map_res new_IssueCandidate ?cs)"
    unfolding bedrock_identity_def assms(2) [unfolded by_id_def] using ne by (simp add: Let_def)
  then have fq: "fst q = ?cs"
    using assms(1) unfolding e map_sum_Inr map_res_issues by (elim exE conjE) simp
  show ?thesis unfolding fq nested_in using assms(4,5) f by blast
qed

lemma bedrock_sound:
  assumes "evaluate_deployed_bedrock_governance_gap str_of s now = Inr v" and "c \<in> set (iv_candidates v)"
  shows "\<exists>dep w repo run identity m cf f. bedrock_path str_of s dep w repo run identity m cf f
     \<and> c = bedrock_candidate str_of dep w repo run identity m cf f"
proof -
  obtain parts where p: "map_res (bedrock_deployment str_of s) (deployment_edges s) = Inr parts"
    and v: "iv_candidates v = by_correlation_key (concat (map fst parts))"
    using bedrock_result [OF assms(1)] by blast
  have "c \<in> set (concat (map fst parts))" using assms(2) unfolding v by (rule by_correlation_key_sub)
  then obtain q where q: "q \<in> set parts" "c \<in> set (fst q)" by auto
  then obtain dep where dep: "dep \<in> set (deployment_edges s)" "bedrock_deployment str_of s dep = Inr (fst q, snd q)"
    using list_all2_in(1) [OF p [unfolded map_res_Inr] q(1)] by auto
  have ne: "fst q \<noteq> []" using q(2) by auto
  obtain w repo paths inc parts' where
    w: "by_id s (cr_source_id dep) = Some w" "ct_kind w = ''ai_workload''"
    and repo: "by_id s (cr_target_id dep) = Some repo" "ct_kind repo = ''code_repository''"
    and paths: "iterate_attr (cr_attributes dep) ''reachable_source_paths'' = Inr paths"
    and inc: "filter_res (included_finding repo (map (py_str str_of) paths))
           (active_signal_findings (cs_findings s) REPOSITORY_GUARDRAIL_SIGNAL) = Inr inc"
    and parts': "map_res (bedrock_identity str_of s dep w repo inc)
           (group_get (observed_by_source s ''runs_as'') (ct_id w)) = Inr parts'"
    and cs: "fst q = concat (map fst parts')"
    using bedrock_deployment_Inr [OF dep(2)] ne unfolding by_id_def by blast
  obtain q' where q': "q' \<in> set parts'" "c \<in> set (fst q')" using q(2) unfolding cs by auto
  obtain run where run: "run \<in> set (group_get (observed_by_source s ''runs_as'') (ct_id w))"
    "bedrock_identity str_of s dep w repo inc run = Inr (fst q', snd q')"
    using list_all2_in(1) [OF parts' [unfolded map_res_Inr] q'(1)] by auto
  obtain identity m cf f where c: "c = bedrock_candidate str_of dep w repo run identity m cf f"
     and id: "by_id s (cr_target_id run) = Some identity" "ct_kind identity = ''identity''" and m: "m \<in> set (model_edges s w)"
     and cf: "cf \<in> set inc" and f: "failing s BEDROCK_SCOPE_SIGNAL f" "ct_natural_key identity \<in> set (cf_resource_uids f)"
    using bedrock_identity_sound [OF run(2) q'(2)] by blast
  have "bedrock_path str_of s dep w repo run identity m cf f"
    using dep(1) w repo paths cf id f run(1) m
    unfolding bedrock_path_def filter_res_iff [OF inc] included_iff active_signal_iff observed_by_source_iff model_edges_iff set_map
    by blast
  then show ?thesis using c by blast
qed

lemma bedrock_complete:
  assumes "evaluate_deployed_bedrock_governance_gap str_of s now = Inr v"
    and b: "bedrock_path str_of s dep w repo run identity m cf f"
  shows "\<exists>c \<in> set (iv_candidates v). ic_correlation_key c =
     ic_correlation_key (bedrock_candidate str_of dep w repo run identity m cf f)"
proof -
  obtain parts where p: "map_res (bedrock_deployment str_of s) (deployment_edges s) = Inr parts"
    and v: "iv_candidates v = by_correlation_key (concat (map fst parts))"
    using bedrock_result [OF assms(1)] by blast
  have dep: "dep \<in> set (deployment_edges s)" using b by (simp add: bedrock_path_def)
  obtain q where q: "q \<in> set parts" "bedrock_deployment str_of s dep = Inr q"
    using list_all2_in(2) [OF p [unfolded map_res_Inr] dep] by blast
  obtain paths where paths: "iterate_attr (cr_attributes dep) ''reachable_source_paths'' = Inr paths"
    and t: "\<exists>t. attr_get (cf_attributes cf) ''source_path'' = PStr t \<and> t \<in> set (map (py_str str_of) paths)"
    using b unfolding bedrock_path_def set_map by blast
  let ?runs = "group_get (observed_by_source s ''runs_as'') (ct_id w)"
  have w: "dict_get (dict_of ct_id (cs_assets s)) (cr_source_id dep) = Some w" "ct_kind w = ''ai_workload''"
    and repo: "dict_get (dict_of ct_id (cs_assets s)) (cr_target_id dep) = Some repo" "ct_kind repo = ''code_repository''"
    using b unfolding bedrock_path_def by_id_def by simp_all
  have q2: "bind_res (filter_res (included_finding repo (map (py_str str_of) paths))
                (active_signal_findings (cs_findings s) REPOSITORY_GUARDRAIL_SIGNAL)) (\<lambda>inc.
              if inc = [] then Inr ([], 0)
              else map_sum id (\<lambda>parts. (concat (map fst parts), sum_list (map snd parts)))
                (map_res (bedrock_identity str_of s dep w repo inc) ?runs)) = Inr q"
    using q(2) by (simp add: bedrock_deployment_def w repo paths)
  then obtain inc where inc: "filter_res (included_finding repo (map (py_str str_of) paths))
                (active_signal_findings (cs_findings s) REPOSITORY_GUARDRAIL_SIGNAL) = Inr inc"
    and q3: "(if inc = [] then Inr ([], 0)
              else map_sum id (\<lambda>parts. (concat (map fst parts), sum_list (map snd parts)))
                (map_res (bedrock_identity str_of s dep w repo inc) ?runs)) = Inr q"
    unfolding bind_res_Inr by blast
  have cf: "cf \<in> set inc"
    using b t unfolding filter_res_iff [OF inc] included_iff active_signal_iff bedrock_path_def by blast
  then have "inc \<noteq> []" by auto
  then obtain parts' where parts': "map_res (bedrock_identity str_of s dep w repo inc) ?runs = Inr parts'"
    and fq: "fst q = concat (map fst parts')"
    using q3 by (auto simp: map_sum_Inr)
  have run: "run \<in> set ?runs" using b unfolding observed_by_source_iff bedrock_path_def by blast
  obtain q' where q': "q' \<in> set parts'" "bedrock_identity str_of s dep w repo inc run = Inr q'"
    using list_all2_in(2) [OF parts' [unfolded map_res_Inr] run] by blast
  have "m \<in> set (model_edges s w)" using b unfolding model_edges_iff bedrock_path_def by blast
  then have "bedrock_candidate str_of dep w repo run identity m cf f \<in> set (fst q')"
    using bedrock_identity_complete [OF q'(2)] b cf unfolding bedrock_path_def by blast
  then have "bedrock_candidate str_of dep w repo run identity m cf f \<in> set (concat (map fst parts))"
  proof -
    have "bedrock_candidate str_of dep w repo run identity m cf f \<in> set (fst q)"
      unfolding fq using q'(1) \<open>bedrock_candidate str_of dep w repo run identity m cf f \<in> set (fst q')\<close>
      by (simp only: set_concat set_map) blast
    then show ?thesis using q(1) by (simp only: set_concat set_map) blast
  qed
  then show ?thesis unfolding v by (rule by_correlation_key_keys)
qed

text \<open>
  C14. The deployed-Bedrock rule reports a correlation key exactly when the snapshot has a deterministic
  deployment of a workload from a repository, an open finding at a source path the deployment reaches, an
  observed role of the workload that an open finding names as too broad, and an observed Bedrock model; each
  reported issue carries such a path.
\<close>

theorem bedrock_gap_reported_iff:
  assumes "evaluate_deployed_bedrock_governance_gap str_of s now = Inr v"
  shows "((\<exists>c \<in> set (iv_candidates v). ic_correlation_key c = k) \<longleftrightarrow>
       (\<exists>dep w repo run identity m cf f. bedrock_path str_of s dep w repo run identity m cf f
          \<and> k = key_of [DEPLOYED_BEDROCK_RULE_UID, ct_natural_key w, ct_natural_key identity,
                 ct_natural_key (fst m), cf_source_uid cf]))
    \<and> (\<forall>c \<in> set (iv_candidates v). \<exists>dep w repo run identity m cf f.
         bedrock_path str_of s dep w repo run identity m cf f
         \<and> c = bedrock_candidate str_of dep w repo run identity m cf f)"
proof -
  have key: "ic_correlation_key (bedrock_candidate str_of dep w repo run identity m cf f) =
      key_of [DEPLOYED_BEDROCK_RULE_UID, ct_natural_key w, ct_natural_key identity,
                 ct_natural_key (fst m), cf_source_uid cf]" for dep w repo run identity m cf f
    by (simp add: bedrock_candidate_def Let_def)
  show ?thesis
  proof (intro conjI iffI ballI)
    assume "\<exists>c \<in> set (iv_candidates v). ic_correlation_key c = k"
    then obtain c where c: "c \<in> set (iv_candidates v)" and k: "ic_correlation_key c = k" by (elim bexE)
    obtain dep w repo run identity m cf f where b: "bedrock_path str_of s dep w repo run identity m cf f"
      and c': "c = bedrock_candidate str_of dep w repo run identity m cf f"
      using bedrock_sound [OF assms c] by (elim exE conjE)
    have "k = key_of [DEPLOYED_BEDROCK_RULE_UID, ct_natural_key w, ct_natural_key identity,
                 ct_natural_key (fst m), cf_source_uid cf]" using k unfolding c' key by (rule sym)
    with b show "\<exists>dep w repo run identity m cf f. bedrock_path str_of s dep w repo run identity m cf f
          \<and> k = key_of [DEPLOYED_BEDROCK_RULE_UID, ct_natural_key w, ct_natural_key identity,
                 ct_natural_key (fst m), cf_source_uid cf]" by (intro exI conjI)
  next
    assume "\<exists>dep w repo run identity m cf f. bedrock_path str_of s dep w repo run identity m cf f
          \<and> k = key_of [DEPLOYED_BEDROCK_RULE_UID, ct_natural_key w, ct_natural_key identity,
                 ct_natural_key (fst m), cf_source_uid cf]"
    then show "\<exists>c \<in> set (iv_candidates v). ic_correlation_key c = k"
      using bedrock_complete [OF assms] unfolding key by (elim exE conjE) simp
  next
    fix c assume "c \<in> set (iv_candidates v)"
    then show "\<exists>dep w repo run identity m cf f. bedrock_path str_of s dep w repo run identity m cf f
         \<and> c = bedrock_candidate str_of dep w repo run identity m cf f" by (rule bedrock_sound [OF assms])
  qed
qed

text \<open>A deployed workload, its repository, role and model, and the two findings.\<close>

definition ex_model :: corr_asset where
  "ex_model = (ex_corr_asset ''m'' ''ai_model'' [])\<lparr>ct_natural_key := ''aws:bedrock:model:x''\<rparr>"

definition ex_deployment :: corr_relationship where
  "ex_deployment = (ex_edge ''deployed_by'' ''w'' ''repo'')\<lparr>cr_assertion_type := ''inferred'', cr_confidence := f_1_0,
     cr_attributes := [(''correlation'', PStr ''deterministic''),
       (''reachable_source_paths'', PList [PStr ''src/app.py''])]\<rparr>"

definition ex_call :: corr_finding where
  "ex_call = (ex_finding ''f1'' ''repository.bedrock_managed_guardrail_not_requested'' ''nk:repo'')
     \<lparr>cf_attributes := [(''denali_signal'', PStr ''repository.bedrock_managed_guardrail_not_requested''),
       (''repository'', PStr ''nk:repo''), (''source_path'', PStr ''src/app.py'')]\<rparr>"

definition ex_scope :: corr_finding where
  "ex_scope = ex_finding ''f2'' ''identity.bedrock_model_family_wildcard'' ''nk:i''"

definition ex_bedrock :: corr_snapshot where
  "ex_bedrock = \<lparr>cs_assets = [ex_corr_asset ''w'' ''ai_workload'' [], ex_corr_asset ''repo'' ''code_repository'' [],
       ex_corr_asset ''i'' ''identity'' [], ex_model],
     cs_relationships = [ex_deployment, ex_edge ''runs_as'' ''w'' ''i'', ex_edge ''uses'' ''w'' ''m''],
     cs_findings = [ex_call, ex_scope]\<rparr>"

lemmas ex_bedrock_defs = ex_model_def ex_deployment_def ex_call_def ex_scope_def ex_bedrock_def
  ex_corr_asset_def ex_edge_def ex_finding_def

lemma ex_bedrock_path:
  "bedrock_path str_of ex_bedrock ex_deployment (ex_corr_asset ''w'' ''ai_workload'' [])
     (ex_corr_asset ''repo'' ''code_repository'' []) (ex_edge ''runs_as'' ''w'' ''i'') (ex_corr_asset ''i'' ''identity'' [])
     (ex_model, ex_edge ''uses'' ''w'' ''m'') ex_call ex_scope"
  unfolding bedrock_path_def
  by (simp add: deployment_edges_def by_id_def dict_of_def failing_def observed_edge_def ELIGIBLE_ASSERTIONS_def
      REPOSITORY_GUARDRAIL_SIGNAL_def BEDROCK_SCOPE_SIGNAL_def attr_get_def iterate_attr_def py_str_def
      startswith_def ex_bedrock_defs f_1_0_def)

lemma unit_interval_fmin: "\<forall>x \<in> set (m # xs). unit_interval x \<Longrightarrow> unit_interval (fmin m xs)"
  using fmin_in by metis

lemma ex_bedrock_runs: "\<exists>v. evaluate_deployed_bedrock_governance_gap str_of ex_bedrock ex_noon = Inr v"
proof -
  let ?w = "ex_corr_asset ''w'' ''ai_workload'' []" and ?repo = "ex_corr_asset ''repo'' ''code_repository'' []"
  let ?run = "ex_edge ''runs_as'' ''w'' ''i''" and ?i = "ex_corr_asset ''i'' ''identity'' []"
  let ?m = "(ex_model, ex_edge ''uses'' ''w'' ''m'')"
  let ?c = "bedrock_candidate str_of ex_deployment ?w ?repo ?run ?i ?m ex_call ex_scope"
  have d: "deployment_edges ex_bedrock = [ex_deployment]"
    by (simp add: deployment_edges_def ex_bedrock_defs attr_get_def f_1_0_def f_0_9_def)
  have sig: "active_signal_findings (cs_findings ex_bedrock) REPOSITORY_GUARDRAIL_SIGNAL = [ex_call]"
    "active_signal_findings (cs_findings ex_bedrock) BEDROCK_SCOPE_SIGNAL = [ex_scope]"
    by (simp_all add: active_signal_findings_def ex_bedrock_defs attr_get_def REPOSITORY_GUARDRAIL_SIGNAL_def
        BEDROCK_SCOPE_SIGNAL_def)
  have obs: "group_get (observed_by_source ex_bedrock ''runs_as'') ''w'' = [?run]"
    "group_get (observed_by_source ex_bedrock ''uses'') ''w'' = [snd ?m]"
    unfolding observed_by_source_def group_get_group_by
    by (simp_all add: observed_edge_def ELIGIBLE_ASSERTIONS_def ex_bedrock_defs)
  have wid: "ct_id ?w = ''w''" by (simp add: ex_corr_asset_def)
  have models: "model_edges ex_bedrock ?w = [?m]"
    unfolding model_edges_def wid obs
    by (simp add: map_filter_simps dict_of_def startswith_def ex_bedrock_defs)
  have ok: "issue_ok ?c"
    by (simp add: issue_ok_def bedrock_candidate_def Let_def key_of_not_Nil DEPLOYED_BEDROCK_RULE_UID_def
        unit_interval_fmin ex_bedrock_defs)
  have inc: "filter_res (included_finding ?repo (map (py_str str_of) [PStr ''src/app.py''])) [ex_call] = Inr [ex_call]"
    by (simp add: filter_res_def included_finding_def in_text_set_def py_str_def attr_get_def ex_bedrock_defs)
  have "bedrock_identity str_of ex_bedrock ex_deployment ?w ?repo [ex_call] ?run = Inr ([?c], 0)"
  proof -
    have i: "dict_get (dict_of ct_id (cs_assets ex_bedrock)) (cr_target_id ?run) = Some ?i"
      by (simp add: dict_of_def ex_bedrock_defs)
    have k: "ct_kind ?i = ''identity''" "ct_natural_key ?i \<in> set (cf_resource_uids ex_scope)"
      by (simp_all add: ex_bedrock_defs)
    show ?thesis
      unfolding bedrock_identity_def i option.case sig models Let_def
      using ok k by (simp add: new_issue_iff [THEN iffD2])
  qed
  moreover have "dict_get (dict_of ct_id (cs_assets ex_bedrock)) (cr_source_id ex_deployment) = Some ?w"
    "dict_get (dict_of ct_id (cs_assets ex_bedrock)) (cr_target_id ex_deployment) = Some ?repo"
    by (simp_all add: dict_of_def ex_bedrock_defs)
  moreover have "ct_kind ?w = ''ai_workload''" "ct_kind ?repo = ''code_repository''"
    "iterate_attr (cr_attributes ex_deployment) ''reachable_source_paths'' = Inr [PStr ''src/app.py'']"
    by (simp_all add: iterate_attr_def ex_bedrock_defs)
  ultimately have "bedrock_deployment str_of ex_bedrock ex_deployment = Inr ([?c], 0)"
    unfolding bedrock_deployment_def Let_def using inc by (simp add: sig wid obs)
  then show ?thesis
    by (simp add: evaluate_deployed_bedrock_governance_gap_def d Let_def new_issue_evaluation_iff
        by_correlation_key_def dict_of_def)
qed

theorem bedrock_gap_reported_iff_witness:
  "\<exists>v. evaluate_deployed_bedrock_governance_gap (\<lambda>_. ''?'') ex_bedrock ex_noon = Inr v
     \<and> (\<exists>c \<in> set (iv_candidates v). ic_correlation_key c =
          key_of [DEPLOYED_BEDROCK_RULE_UID, ''nk:w'', ''nk:i'', ''aws:bedrock:model:x'', ''f1''])"
proof -
  obtain v where v: "evaluate_deployed_bedrock_governance_gap (\<lambda>_. ''?'') ex_bedrock ex_noon = Inr v"
    using ex_bedrock_runs by blast
  have k: "key_of [DEPLOYED_BEDROCK_RULE_UID, ct_natural_key (ex_corr_asset ''w'' ''ai_workload'' []),
      ct_natural_key (ex_corr_asset ''i'' ''identity'' []), ct_natural_key (fst (ex_model, ex_edge ''uses'' ''w'' ''m'')),
      cf_source_uid ex_call] = key_of [DEPLOYED_BEDROCK_RULE_UID, ''nk:w'', ''nk:i'', ''aws:bedrock:model:x'', ''f1'']"
    by (simp add: ex_bedrock_defs)
  have "\<exists>c \<in> set (iv_candidates v). ic_correlation_key c =
      key_of [DEPLOYED_BEDROCK_RULE_UID, ''nk:w'', ''nk:i'', ''aws:bedrock:model:x'', ''f1'']"
    by (rule bedrock_gap_reported_iff [OF v, THEN conjunct1, THEN iffD2], intro exI conjI)
      (rule ex_bedrock_path, rule k [symmetric])
  then show ?thesis using v by (intro exI [of _ v] conjI)
qed
end
