(* ===== verification/Vulnerabilities.thy ===== *)
theory Vulnerabilities
  imports Findings Sha256
begin

text \<open>
  \<open>src/denali/domain/vulnerabilities.py\<close>: software components, their content-addressed identity,
  vulnerability assertions and the batch of one scanner run.
\<close>

datatype component_scope = CS_INSTALLED | CS_DECLARED | CS_EMBEDDED | CS_UNKNOWN

fun component_scope_value :: "component_scope \<Rightarrow> string" where
  "component_scope_value CS_INSTALLED = ''installed''"
| "component_scope_value CS_DECLARED = ''declared''"
| "component_scope_value CS_EMBEDDED = ''embedded''"
| "component_scope_value CS_UNKNOWN = ''unknown''"

datatype fix_state = FIX_FIXED | FIX_NOT_FIXED | FIX_WONT_FIX | FIX_UNKNOWN

datatype exploit_state = KNOWN_EXPLOITED | PUBLIC_EXPLOIT | NO_KNOWN_EXPLOIT | EXPLOIT_UNKNOWN

datatype match_method = EXACT_DIRECT | EXACT_INDIRECT | DISTRO | ECOSYSTEM | CPE | MATCH_UNKNOWN

section \<open>Validation helpers\<close>

definition trim_check :: "string \<Rightarrow> string \<Rightarrow> bool \<times> string" where
  "trim_check label v = (\<not> trimmed v, label @ '' must be a non-empty trimmed string'')"

definition opt_trim_checks :: "(string \<times> string option) list \<Rightarrow> (bool \<times> string) list" where
  "opt_trim_checks ls =
     concat (map (\<lambda>(label, v). case v of None \<Rightarrow> [] | Some s \<Rightarrow> [trim_check label s]) ls)"

definition unique_trimmed_checks :: "string \<Rightarrow> string list \<Rightarrow> (bool \<times> string) list" where
  "unique_trimmed_checks label vs =
     map (trim_check label) vs @ [(has_repeat (\<lambda>v. v) vs, label @ '' values must be unique'')]"

lemma trim_check_fst [simp]: "fst (trim_check label v) \<longleftrightarrow> \<not> trimmed v"
  by (simp add: trim_check_def)

lemma opt_trim_checks_ok [guard_simps]:
  "(\<forall>c \<in> set (opt_trim_checks ls). \<not> fst c) \<longleftrightarrow>
     (\<forall>l \<in> set ls. \<forall>s. snd l = Some s \<longrightarrow> trimmed s)"
proof -
  have "(\<forall>c \<in> set (case v of None \<Rightarrow> [] | Some s \<Rightarrow> [trim_check label s]). \<not> fst c) \<longleftrightarrow>
      (\<forall>s. v = Some s \<longrightarrow> trimmed s)" for label and v
    by (cases v) simp_all
  then show ?thesis unfolding opt_trim_checks_def ball_concat_map by (simp add: split_beta)
qed

lemma unique_trimmed_checks_ok [guard_simps]:
  "(\<forall>c \<in> set (unique_trimmed_checks label vs). \<not> fst c) \<longleftrightarrow> (\<forall>v \<in> set vs. trimmed v) \<and> distinct vs"
  by (auto simp: unique_trimmed_checks_def has_repeat_iff)

section \<open>Scan subjects and component identity\<close>

record scan_subject =
  ss_target :: asset_ref
  ss_artifact_kind :: string
  ss_artifact_locator :: string
  ss_evidence :: evidence
  ss_artifact_digest :: "string option"

definition new_VulnerabilityScanSubject :: "scan_subject \<Rightarrow> scan_subject res" where
  "new_VulnerabilityScanSubject s = check_all
     ([(ar_kind (ss_target s) = SOFTWARE_COMPONENT,
        ''vulnerability scan target cannot be a software component''),
       trim_check ''artifact_kind'' (ss_artifact_kind s),
       trim_check ''artifact_locator'' (ss_artifact_locator s)] @
      opt_trim_checks [(''artifact_digest'', ss_artifact_digest s)])
     s"

record component_identity =
  ci_target :: asset_ref
  ci_name :: string
  ci_version :: "string option"
  ci_ecosystem :: string
  ci_package_type :: string
  ci_purl :: "string option"
  ci_location :: "string option"

definition new_ComponentIdentity :: "component_identity \<Rightarrow> component_identity res" where
  "new_ComponentIdentity c = check_all
     ([(ar_kind (ci_target c) = SOFTWARE_COMPONENT,
        ''a software component target cannot be another component''),
       trim_check ''name'' (ci_name c), trim_check ''ecosystem'' (ci_ecosystem c),
       trim_check ''package_type'' (ci_package_type c)] @
      opt_trim_checks [(''version'', ci_version c), (''purl'', ci_purl c),
        (''location'', ci_location c)] @
      [(case ci_purl c of None \<Rightarrow> False | Some p \<Rightarrow> \<not> startswith p ''pkg:'',
        ''component purl must start with '' @ [CHR 0x27] @ ''pkg:'' @ [CHR 0x27]),
       (ci_purl c = None \<and> ci_version c = None,
        ''a component without a purl must have a version'')])
     c"

definition component_identity_dict :: "component_identity \<Rightarrow> (string \<times> string option) list" where
  "component_identity_dict c =
     (''target'', Some (canonical_key (ci_target c))) #
     (case ci_purl c of
        Some p \<Rightarrow> [(''purl'', Some p)]
      | None \<Rightarrow> [(''ecosystem'', Some (casefold (ci_ecosystem c))),
                 (''package_type'', Some (casefold (ci_package_type c))),
                 (''name'', Some (ci_name c)), (''version'', ci_version c)])"

definition component_material :: "component_identity \<Rightarrow> string" where
  "component_material c = json_flat (component_identity_dict c)"

definition component_natural_key :: "component_identity \<Rightarrow> string" where
  "component_natural_key c = ''sha256:'' @ sha256_hex (component_material c)"

definition component_asset_ref :: "component_identity \<Rightarrow> asset_ref res" where
  "component_asset_ref c = new_AssetRef SOFTWARE_COMPONENT (component_natural_key c)"

section \<open>Component assertions\<close>

record component_assertion =
  ca_identity :: component_identity
  ca_coverage_plane :: string
  ca_scope :: component_scope
  ca_assertion_type :: assertion_type
  ca_confidence :: pyfloat
  ca_evidence :: evidence
  ca_locations :: "string list"
  ca_cpes :: "string list"
  ca_licenses :: "string list"
  ca_digests :: "(string \<times> string) list"
  ca_attributes :: attrs
  ca_lifecycle :: lifecycle_state

text \<open>The digest loop stores under the case-folded algorithm: a later spelling wins.\<close>

definition normalized_digests :: "(string \<times> string) list \<Rightarrow> (string \<times> string) list" where
  "normalized_digests ds = fold (\<lambda>(a, d) acc. dict_set (casefold a) (casefold d) acc) ds []"

definition digest_checks :: "(string \<times> string) list \<Rightarrow> (bool \<times> string) list" where
  "digest_checks ds =
     concat (map (\<lambda>(a, d). [trim_check ''digest algorithm'' a, trim_check ''digest'' d]) ds)"

definition new_SoftwareComponentAssertion :: "component_assertion \<Rightarrow> component_assertion res" where
  "new_SoftwareComponentAssertion c = check_all
     (trim_check ''coverage_plane'' (ca_coverage_plane c) #
      (\<not> unit_interval (ca_confidence c), ''confidence must be between 0.0 and 1.0'') #
      unique_trimmed_checks ''location'' (ca_locations c) @
      unique_trimmed_checks ''cpe'' (ca_cpes c) @
      unique_trimmed_checks ''license'' (ca_licenses c) @
      digest_checks (ca_digests c))
     (c\<lparr>ca_digests := normalized_digests (ca_digests c)\<rparr>)"

definition pstr_list :: "string list \<Rightarrow> pyval" where
  "pstr_list xs = PList (map PStr xs)"

definition component_attributes :: "component_assertion \<Rightarrow> attrs" where
  "component_attributes c =
     (let i = ca_identity c in
      dict_set ''component'' (PDict
        [(''name'', PStr (ci_name i)), (''version'', opt_str (ci_version i)),
         (''ecosystem'', PStr (ci_ecosystem i)), (''package_type'', PStr (ci_package_type i)),
         (''purl'', opt_str (ci_purl i)), (''location'', opt_str (ci_location i)),
         (''locations'', pstr_list (ca_locations c)),
         (''scope'', PStr (component_scope_value (ca_scope c))),
         (''cpes'', pstr_list (ca_cpes c)), (''licenses'', pstr_list (ca_licenses c)),
         (''digests'', PDict (map (\<lambda>(a, d). (a, PStr d)) (ca_digests c))),
         (''target'', PDict [(''kind'', PStr (asset_kind_value (ar_kind (ci_target i)))),
                            (''natural_key'', PStr (ar_natural_key (ci_target i)))])])
        (ca_attributes c))"

definition component_asset_assertion :: "component_assertion \<Rightarrow> asset_assertion res" where
  "component_asset_assertion c =
     (let i = ca_identity c in
      bind_res (component_asset_ref i) (\<lambda>ref. new_AssetAssertion
        \<lparr>aa_asset = ref, aa_coverage_plane = ca_coverage_plane c,
         aa_display_name = (case ci_version i of
            Some v \<Rightarrow> if v = [] then ci_name i else ci_name i @ '' '' @ v
          | None \<Rightarrow> ci_name i),
         aa_assertion_type = ca_assertion_type c, aa_confidence = ca_confidence c,
         aa_evidence = ca_evidence c, aa_attributes = component_attributes c,
         aa_lifecycle = ca_lifecycle c\<rparr>))"

definition containment_assertion :: "component_assertion \<Rightarrow> relationship_assertion res" where
  "containment_assertion c =
     bind_res (component_asset_ref (ca_identity c)) (\<lambda>ref. new_RelationshipAssertion
        \<lparr>ra_source = ci_target (ca_identity c), ra_target = ref,
         ra_coverage_plane = ca_coverage_plane c, ra_kind = CONTAINS_COMPONENT,
         ra_assertion_type = ca_assertion_type c, ra_confidence = ca_confidence c,
         ra_evidence = ca_evidence c,
         ra_attributes = [(''scope'', PStr (component_scope_value (ca_scope c))),
           (''location'', opt_str (ci_location (ca_identity c))),
           (''locations'', pstr_list (ca_locations c))],
         ra_principal_ref = None, ra_agent_ref = None\<rparr>)"

section \<open>Vulnerabilities\<close>

record vulnerability_assertion =
  va_source_uid :: string
  va_vulnerability_id :: string
  va_component :: asset_ref
  va_target :: asset_ref
  va_severity :: finding_severity
  va_state :: finding_state
  va_observed_at :: py_datetime
  va_evidence :: evidence
  va_match_method :: match_method
  va_match_confidence :: pyfloat
  va_aliases :: "string list"
  va_title :: "string option"
  va_description :: "string option"
  va_cvss_score :: "pyfloat option"
  va_cvss_vector :: "string option"
  va_fix_state :: fix_state
  va_fixed_versions :: "string list"
  va_exploit_state :: exploit_state
  va_database_version :: "string option"
  va_database_built_at :: "py_datetime option"
  va_attributes :: attrs

definition new_VulnerabilityAssertion :: "vulnerability_assertion \<Rightarrow> vulnerability_assertion res" where
  "new_VulnerabilityAssertion v = check_all
     ([trim_check ''source_uid'' (va_source_uid v),
       trim_check ''vulnerability_id'' (va_vulnerability_id v),
       (ar_kind (va_component v) \<noteq> SOFTWARE_COMPONENT,
        ''vulnerability component must reference a software component''),
       (ar_kind (va_target v) = SOFTWARE_COMPONENT,
        ''vulnerability target cannot be a software component''),
       (\<not> tz_aware (va_observed_at v), ''vulnerability observed_at must be timezone-aware''),
       (\<not> dt_eq (ev_observed_at (va_evidence v)) (va_observed_at v),
        ''vulnerability and evidence observation times must match''),
       (\<not> unit_interval (va_match_confidence v), ''match_confidence must be between 0.0 and 1.0''),
       (case va_cvss_score v of None \<Rightarrow> False | Some s \<Rightarrow> \<not> (fle f_0_0 s \<and> fle s f_10_0),
        ''cvss_score must be between 0.0 and 10.0''),
       (case va_database_built_at v of None \<Rightarrow> False | Some t \<Rightarrow> \<not> tz_aware t,
        ''database_built_at must be timezone-aware'')] @
      unique_trimmed_checks ''alias'' (va_aliases v) @
      unique_trimmed_checks ''fixed version'' (va_fixed_versions v) @
      opt_trim_checks [(''title'', va_title v), (''cvss_vector'', va_cvss_vector v),
        (''database_version'', va_database_version v)])
     v"

definition vulnerability_canonical_key :: "vulnerability_assertion \<Rightarrow> string" where
  "vulnerability_canonical_key v = ''sha256:'' @ sha256_hex (json_flat
     [(''vulnerability_id'', Some (upper (va_vulnerability_id v))),
      (''component'', Some (canonical_key (va_component v))),
      (''target'', Some (canonical_key (va_target v)))])"

record vulnerability_batch = batch_header +
  vb_vulnerabilities :: "vulnerability_assertion list"
  vb_scan_subject :: "scan_subject option"
  vb_authoritative :: bool

definition new_VulnerabilityBatch :: "vulnerability_batch \<Rightarrow> vulnerability_batch res" where
  "new_VulnerabilityBatch b = check_all
     (map (\<lambda>(label, v). trim_check label v) (header_labels b) @
      [(\<not> tz_aware (bh_collected_at b), ''collected_at must be timezone-aware''),
       (bh_coverage b = [], ''vulnerability batches must state coverage''),
       (case vb_scan_subject b of None \<Rightarrow> False
        | Some s \<Rightarrow> \<not> dt_eq (ev_observed_at (ss_evidence s)) (bh_collected_at b),
        ''scan subject and batch collection times must match''),
       (case vb_scan_subject b of None \<Rightarrow> False
        | Some s \<Rightarrow> list_ex (\<lambda>v. va_target v \<noteq> ss_target s) (vb_vulnerabilities b),
        ''all vulnerabilities must share the scan subject target''),
       (has_repeat va_source_uid (vb_vulnerabilities b),
        ''one vulnerability batch cannot repeat a source_uid'')])
     b"

definition vulnerability_may_resolve_missing :: "vulnerability_batch \<Rightarrow> bool" where
  "vulnerability_may_resolve_missing b \<longleftrightarrow>
     vb_authoritative b \<and> list_all (\<lambda>c. cov_state c = COMPLETE) (bh_coverage b)"

interpretation vulnerability_closure: closing_authority vulnerability_may_resolve_missing bh_coverage
  by unfold_locales (auto simp: vulnerability_may_resolve_missing_def list_all_iff)

section \<open>Facts\<close>

lemma trimmed_digest: "trimmed (''sha256:'' @ sha256_hex s)"
proof -
  have hex: "\<not> is_space (hex_digit n)" if "n < 16" for n
  proof -
    from that have "n \<in> set [0..<16]" by simp
    then show ?thesis by (auto simp: upt_rec hex_digit_def is_space_def Let_def)
  qed
  have "\<forall>c \<in> set (hex_word w). \<not> is_space c" for w
    by (auto simp: hex_word_def intro!: hex)
  then have "\<forall>c \<in> set (sha256_hex s). \<not> is_space c"
    by (auto simp: sha256_hex_def)
  then have "\<not> is_space (last (sha256_hex s))" by simp
  then show ?thesis by (simp add: trimmed_iff is_space_def)
qed

lemma component_asset_ref_ok:
  "component_asset_ref c = Inr \<lparr>ar_kind = SOFTWARE_COMPONENT, ar_natural_key = component_natural_key c\<rparr>"
  by (simp add: component_asset_ref_def new_AssetRef_ok component_natural_key_def trimmed_digest
      del: append.simps)

lemma new_ComponentIdentity_ok:
  "new_ComponentIdentity c = Inr d \<longleftrightarrow>
     d = c \<and> ar_kind (ci_target c) \<noteq> SOFTWARE_COMPONENT \<and> trimmed (ci_name c)
     \<and> trimmed (ci_ecosystem c) \<and> trimmed (ci_package_type c)
     \<and> (\<forall>s. ci_version c = Some s \<longrightarrow> trimmed s) \<and> (\<forall>s. ci_location c = Some s \<longrightarrow> trimmed s)
     \<and> (\<forall>s. ci_purl c = Some s \<longrightarrow> trimmed s \<and> startswith s ''pkg:'')
     \<and> (ci_purl c \<noteq> None \<or> ci_version c \<noteq> None)"
  unfolding new_ComponentIdentity_def check_all_Inr set_append ball_Un opt_trim_checks_ok
  by (auto split: option.splits)

end
