(* ===== verification/Activity.thy ===== *)
theory Activity
  imports Findings
begin

text \<open>
  \<open>src/denali/domain/activity.py\<close>: runtime activity records, the entities they mention, and the
  batch of one telemetry source.
\<close>

datatype activity_category =
    MODEL_INVOCATION | AGENT_INVOCATION | RETRIEVAL | TOOL_INVOCATION | AI_APP_SIGN_IN
  | ADMIN_CHANGE | DATA_ACCESS | ACT_OTHER

datatype activity_outcome = OUT_SUCCESS | OUT_FAILURE | OUT_UNKNOWN

datatype entity_role = ACTOR | AGENT | MODEL | TOOL | WORKLOAD | RESOURCE | APPLICATION

datatype activity_correlation = EXACT_IDENTIFIER | EXPLICIT_CONTEXT | UNRESOLVED

record activity_entity =
  ae_role :: entity_role
  ae_external_uid :: string
  ae_display_name :: "string option"
  ae_asset :: "asset_ref option"
  ae_correlation :: activity_correlation
  ae_confidence :: pyfloat
  ae_attributes :: attrs

definition new_ActivityEntity :: "activity_entity \<Rightarrow> activity_entity res" where
  "new_ActivityEntity e = check_all
     [(strip (ae_external_uid e) = [] \<or> ae_external_uid e \<noteq> strip (ae_external_uid e),
       ''activity entity external_uid must be non-empty and trimmed''),
      (\<not> unit_interval (ae_confidence e), ''activity entity confidence must be between 0 and 1''),
      (ae_asset e = None \<and> (ae_correlation e \<noteq> UNRESOLVED \<or> \<not> feq (ae_confidence e) f_0_0),
       ''an unlinked activity entity must be unresolved with zero confidence''),
      (ae_asset e \<noteq> None \<and> (ae_correlation e = UNRESOLVED \<or> fle (ae_confidence e) f_0_0),
       ''a linked activity entity needs an explicit correlation and confidence'')]
     e"

record activity_record =
  act_source_uid :: string
  act_category :: activity_category
  act_name :: string
  act_title :: string
  act_occurred_at :: py_datetime
  act_observed_at :: py_datetime
  act_outcome :: activity_outcome
  act_provider :: string
  act_evidence :: evidence
  act_account_uid :: "string option"
  act_region :: "string option"
  act_session_uid :: "string option"
  act_trace_uid :: "string option"
  act_span_uid :: "string option"
  act_parent_span_uid :: "string option"
  act_completed_at :: "py_datetime option"
  act_duration_ms :: "pyfloat option"
  act_telemetry_convention :: "string option"
  act_content_policy :: string
  act_entities :: "activity_entity list"
  act_attributes :: attrs

text \<open>\<open>not isfinite(d) or d < 0\<close>.\<close>

fun bad_duration :: "pyfloat \<Rightarrow> bool" where
  "bad_duration (Fin q) = (q < 0)"
| "bad_duration _ = True"

definition new_ActivityRecord :: "activity_record \<Rightarrow> activity_record res" where
  "new_ActivityRecord a = check_all
     (trimmed_label_checks ''activity '' '' must be non-empty and trimmed''
        [(''source_uid'', act_source_uid a), (''activity_name'', act_name a),
         (''title'', act_title a), (''provider'', act_provider a)] @
      [(\<not> tz_aware (act_occurred_at a) \<or> \<not> tz_aware (act_observed_at a),
        ''activity timestamps must be timezone-aware''),
       (case act_completed_at a of None \<Rightarrow> False | Some t \<Rightarrow> \<not> tz_aware t,
        ''activity completion timestamp must be timezone-aware''),
       (case act_completed_at a of None \<Rightarrow> False
        | Some t \<Rightarrow> instant t < instant (act_occurred_at a),
        ''activity completion cannot precede its start''),
       (case act_duration_ms a of None \<Rightarrow> False | Some d \<Rightarrow> bad_duration d,
        ''activity duration must be finite and non-negative''),
       (act_content_policy a \<notin> {''metadata_only'', ''redacted'', ''explicit_content''},
        ''activity content policy is invalid''),
       (\<not> dt_eq (ev_observed_at (act_evidence a)) (act_observed_at a),
        ''activity and evidence observation times must match''),
       (has_repeat (\<lambda>e. (ae_role e, ae_external_uid e)) (act_entities a),
        ''an activity cannot repeat an entity role and external_uid'')])
     a"

record activity_batch = batch_header +
  ab_activities :: "activity_record list"

definition new_ActivityBatch :: "activity_batch \<Rightarrow> activity_batch res" where
  "new_ActivityBatch b = check_all
     (blank_label_checks (header_labels b) @
      [(\<not> tz_aware (bh_collected_at b), ''collected_at must be timezone-aware''),
       (bh_coverage b = [], ''activity batches must state coverage''),
       (has_repeat act_source_uid (ab_activities b),
        ''one activity batch cannot repeat a source_uid'')])
     b"

section \<open>Facts\<close>

text \<open>Linked and unlinked entities: exactly one of the two shapes, with matching confidence.\<close>

lemma new_ActivityEntity_iff:
  "new_ActivityEntity e = Inr e' \<longleftrightarrow>
     e' = e \<and> trimmed (ae_external_uid e) \<and>
     (case ae_asset e of
        None \<Rightarrow> ae_correlation e = UNRESOLVED \<and> ae_confidence e = Fin 0
      | Some _ \<Rightarrow> ae_correlation e \<noteq> UNRESOLVED
          \<and> (\<exists>q. ae_confidence e = Fin q \<and> 0 < q \<and> q \<le> 1))"
  by (cases "ae_confidence e")
    (auto simp: new_ActivityEntity_def check_all_Inr trimmed_def unit_interval_iff f_0_0_def
      split: option.splits)

lemma new_ActivityRecord_ok:
  assumes "new_ActivityRecord a = Inr b"
  shows "b = a" "trimmed (act_source_uid a)" "tz_aware (act_occurred_at a)"
    "act_completed_at a = Some t \<Longrightarrow> instant (act_occurred_at a) \<le> instant t"
    "act_duration_ms a = Some d \<Longrightarrow> \<exists>q. d = Fin q \<and> 0 \<le> q"
    "distinct (map (\<lambda>e. (ae_role e, ae_external_uid e)) (act_entities a))"
proof -
  have h: "b = a \<and> (\<forall>c \<in> set (trimmed_label_checks ''activity '' '' must be non-empty and trimmed''
        [(''source_uid'', act_source_uid a), (''activity_name'', act_name a),
         (''title'', act_title a), (''provider'', act_provider a)]). \<not> fst c)"
    using assms unfolding new_ActivityRecord_def check_all_Inr set_append ball_Un by simp
  then show "b = a" "trimmed (act_source_uid a)"
    unfolding label_checks_ok by simp_all
  show "tz_aware (act_occurred_at a)"
    using assms unfolding new_ActivityRecord_def check_all_Inr set_append ball_Un by simp
  show "act_completed_at a = Some t \<Longrightarrow> instant (act_occurred_at a) \<le> instant t"
    using assms unfolding new_ActivityRecord_def check_all_Inr set_append ball_Un by simp
  show "act_duration_ms a = Some d \<Longrightarrow> \<exists>q. d = Fin q \<and> 0 \<le> q"
    using assms unfolding new_ActivityRecord_def check_all_Inr set_append ball_Un
    by (cases d) simp_all
  show "distinct (map (\<lambda>e. (ae_role e, ae_external_uid e)) (act_entities a))"
    using assms unfolding new_ActivityRecord_def check_all_Inr set_append ball_Un
    by (simp add: has_repeat_iff)
qed

end
