(* ===== verification/Deployments.thy ===== *)
theory Deployments
  imports Py_Value
begin

text \<open>
  \<open>src/denali/domain/deployments.py\<close>: the identifiers that join declared source intent to an
  observed deployment, their comparison, and their record form in a connector's attributes.
\<close>

datatype identifier_comparison = EXACT | PREFIX

fun comparison_value :: "identifier_comparison \<Rightarrow> string" where
  "comparison_value EXACT = ''exact''"
| "comparison_value PREFIX = ''prefix''"

text \<open>\<open>IdentifierComparison(text)\<close>.\<close>

definition parse_comparison :: "string \<Rightarrow> identifier_comparison res" where
  "parse_comparison s =
     (if s = ''exact'' then Inr EXACT else if s = ''prefix'' then Inr PREFIX
      else Inl (ValueError (s @ '' is not a valid IdentifierComparison'')))"

record deployment_identifier =
  di_name :: string
  di_value :: string
  di_comparison :: identifier_comparison
  di_evidence_basis :: "string option"

definition new_DeploymentIdentifier ::
    "string \<Rightarrow> string \<Rightarrow> identifier_comparison \<Rightarrow> string option \<Rightarrow> deployment_identifier res" where
  "new_DeploymentIdentifier name val comparison basis = check_all
     [(strip name = [], ''deployment identifier name is required''),
      (strip val = [], ''deployment identifier value is required'')]
     \<lparr>di_name = name, di_value = val, di_comparison = comparison, di_evidence_basis = basis\<rparr>"

definition identifier_matches :: "deployment_identifier \<Rightarrow> deployment_identifier \<Rightarrow> bool" where
  "identifier_matches self observed =
     (if di_name self \<noteq> di_name observed then False
      else if di_comparison self = EXACT then di_value self = di_value observed
      else startswith (di_value observed) (di_value self))"

definition identifier_to_record :: "deployment_identifier \<Rightarrow> attrs" where
  "identifier_to_record i =
     [(''name'', PStr (di_name i)), (''value'', PStr (di_value i)),
      (''comparison'', PStr (comparison_value (di_comparison i)))] @
     (case di_evidence_basis i of
        None \<Rightarrow> []
      | Some b \<Rightarrow> if b = [] then [] else [(''evidence_basis'', PStr b)])"

text \<open>\<open>str(record[key])\<close>: a missing key is a \<open>KeyError\<close>.\<close>

definition required_str :: "(pyval \<Rightarrow> string) \<Rightarrow> attrs \<Rightarrow> string \<Rightarrow> string res" where
  "required_str str_of d k =
     (case map_of d k of None \<Rightarrow> Inl (KeyError k) | Some v \<Rightarrow> Inr (py_str str_of v))"

definition identifier_from_record :: "(pyval \<Rightarrow> string) \<Rightarrow> attrs \<Rightarrow> deployment_identifier res" where
  "identifier_from_record str_of d =
     bind_res (required_str str_of d ''name'') (\<lambda>name.
     bind_res (required_str str_of d ''value'') (\<lambda>val.
     bind_res (parse_comparison (case map_of d ''comparison'' of
         None \<Rightarrow> ''exact'' | Some v \<Rightarrow> py_str str_of v)) (\<lambda>comparison.
     new_DeploymentIdentifier name val comparison
       (case map_of d ''evidence_basis'' of
          None \<Rightarrow> None
        | Some v \<Rightarrow> if truthy v then Some (py_str str_of v) else None))))"

record deployment_identity =
  dy_provider :: string
  dy_runtime_kind :: string
  dy_identifiers :: "deployment_identifier list"

definition new_DeploymentIdentity ::
    "string \<Rightarrow> string \<Rightarrow> deployment_identifier list \<Rightarrow> deployment_identity res" where
  "new_DeploymentIdentity provider runtime_kind identifiers = check_all
     [(strip provider = [], ''deployment provider is required''),
      (strip runtime_kind = [], ''deployment runtime kind is required''),
      (identifiers = [], ''at least one deployment identifier is required'')]
     \<lparr>dy_provider = provider, dy_runtime_kind = runtime_kind, dy_identifiers = identifiers\<rparr>"

definition identity_matches :: "deployment_identity \<Rightarrow> deployment_identity \<Rightarrow> bool" where
  "identity_matches self observed =
     (if dy_provider self \<noteq> dy_provider observed \<or> dy_runtime_kind self \<noteq> dy_runtime_kind observed
      then False
      else list_all (\<lambda>required. list_ex (identifier_matches required) (dy_identifiers observed))
             (dy_identifiers self))"

definition match_basis :: "deployment_identity \<Rightarrow> string list" where
  "match_basis self = map (\<lambda>i.
     case di_evidence_basis i of
       Some b \<Rightarrow> if b = [] then comparison_value (di_comparison i) @ ''_'' @ di_name i else b
     | None \<Rightarrow> comparison_value (di_comparison i) @ ''_'' @ di_name i) (dy_identifiers self)"

definition identity_values :: "deployment_identity \<Rightarrow> string \<Rightarrow> string list" where
  "identity_values self name =
     map di_value (filter (\<lambda>i. di_name i = name) (dy_identifiers self))"

definition identity_to_record :: "deployment_identity \<Rightarrow> attrs" where
  "identity_to_record self =
     [(''provider'', PStr (dy_provider self)), (''runtime_kind'', PStr (dy_runtime_kind self)),
      (''identifiers'', PList (map (\<lambda>i. PDict (identifier_to_record i)) (dy_identifiers self)))]"

definition pdicts :: "pyval list \<Rightarrow> attrs list" where
  "pdicts vs = List.map_filter (\<lambda>v. case v of PDict d \<Rightarrow> Some d | _ \<Rightarrow> None) vs"

text \<open>
  \<open>str(record["provider"])\<close> and the kind are read before the identifier tuple is built, as in the
  argument order of the call.
\<close>

definition identity_from_record :: "(pyval \<Rightarrow> string) \<Rightarrow> attrs \<Rightarrow> deployment_identity res" where
  "identity_from_record str_of d =
     (case map_of d ''identifiers'' of
        Some (PList items) \<Rightarrow>
          bind_res (required_str str_of d ''provider'') (\<lambda>provider.
          bind_res (required_str str_of d ''runtime_kind'') (\<lambda>runtime_kind.
          bind_res (map_res (identifier_from_record str_of) (pdicts items))
            (new_DeploymentIdentity provider runtime_kind)))
      | _ \<Rightarrow> Inl (ValueError ''deployment identity identifiers must be a list''))"

section \<open>Facts\<close>

definition identifier_ok :: "deployment_identifier \<Rightarrow> bool" where
  "identifier_ok i \<longleftrightarrow> strip (di_name i) \<noteq> [] \<and> strip (di_value i) \<noteq> []"

definition identity_ok :: "deployment_identity \<Rightarrow> bool" where
  "identity_ok d \<longleftrightarrow> strip (dy_provider d) \<noteq> [] \<and> strip (dy_runtime_kind d) \<noteq> []
     \<and> dy_identifiers d \<noteq> [] \<and> (\<forall>i \<in> set (dy_identifiers d). identifier_ok i)"

text \<open>What the record form forgets: an empty evidence basis reads back as none.\<close>

definition normal_basis :: "deployment_identifier \<Rightarrow> deployment_identifier" where
  "normal_basis i = (if di_evidence_basis i = Some [] then i\<lparr>di_evidence_basis := None\<rparr> else i)"

lemma parse_comparison_value [simp]: "parse_comparison (comparison_value c) = Inr c"
  by (cases c) (simp_all add: parse_comparison_def)

lemma new_DeploymentIdentifier_ok:
  "strip name \<noteq> [] \<Longrightarrow> strip val \<noteq> [] \<Longrightarrow> new_DeploymentIdentifier name val c b =
     Inr \<lparr>di_name = name, di_value = val, di_comparison = c, di_evidence_basis = b\<rparr>"
  by (simp add: new_DeploymentIdentifier_def check_all_Inr)

lemma identifier_roundtrip:
  assumes "identifier_ok i"
  shows "identifier_from_record str_of (identifier_to_record i) = Inr (normal_basis i)"
proof -
  have r: "strip (di_name i) \<noteq> []" "strip (di_value i) \<noteq> []"
    using assms by (auto simp: identifier_ok_def)
  show ?thesis
    by (cases "di_evidence_basis i")
      (auto simp: identifier_from_record_def identifier_to_record_def required_str_def py_str_def
        new_DeploymentIdentifier_ok [OF r] normal_basis_def)
qed

lemma pdicts_map [simp]: "pdicts (map (\<lambda>i. PDict (f i)) xs) = map f xs"
  by (induction xs) (auto simp: pdicts_def map_filter_simps)

lemma identity_matches_iff:
  "identity_matches self observed \<longleftrightarrow>
     dy_provider self = dy_provider observed \<and> dy_runtime_kind self = dy_runtime_kind observed
     \<and> (\<forall>r \<in> set (dy_identifiers self). \<exists>c \<in> set (dy_identifiers observed). identifier_matches r c)"
  by (auto simp: identity_matches_def list_all_iff list_ex_iff)

lemma identifier_matches_refl: "identifier_matches i i"
  by (simp add: identifier_matches_def startswith_def)

lemma identifier_matches_trans:
  "identifier_matches a b \<Longrightarrow> identifier_matches b c \<Longrightarrow> di_comparison b = EXACT \<or> di_comparison a = PREFIX
    \<Longrightarrow> identifier_matches a c"
  by (auto simp: identifier_matches_def startswith_iff split: if_splits)

lemma identity_roundtrip:
  assumes "identity_ok d"
  shows "identity_from_record str_of (identity_to_record d) =
    Inr (d\<lparr>dy_identifiers := map normal_basis (dy_identifiers d)\<rparr>)"
proof -
  have "map_res (identifier_from_record str_of) (map identifier_to_record (dy_identifiers d)) =
      Inr (map normal_basis (dy_identifiers d))"
    using assms identifier_roundtrip
    by (auto simp: identity_ok_def map_res_Inr list_all2_conv_all_nth)
  then show ?thesis
    using assms
    by (simp add: identity_from_record_def identity_to_record_def required_str_def py_str_def
        new_DeploymentIdentity_def check_all_Inr identity_ok_def)
qed

end
