(* ===== verification/Remediation_Store.thy ===== *)
theory Remediation_Store
  imports Sha256
begin

text \<open>
  \<open>src/denali/resource_writes/store.py\<close>: previews, requests and the audit log of resource writes.
  Each method is one transaction, here a function from the tables to an error or the new tables;
  an error rolls back. A method takes the clocks it reads as arguments: \<open>now\<close> is the clock of the
  process, \<open>dbnow\<close> that of the database. The constraints of migration 026 that the methods rely on
  (unique preview, unique idempotency key, one active write per grant, the checks on the key and the
  justification) are tests of the methods that write.
\<close>

section \<open>The tables\<close>

datatype request_state = PENDING_REVIEW | APPROVED | REJECTED | RUNNING | SUCCEEDED | REQ_FAILED
  | NEEDS_MANUAL_RESOLUTION

datatype request_phase = NOT_STARTED | PROVIDER_ATTEMPTED | FINISHED

record write_preview =
  pv_tenant :: string
  pv_org :: string
  pv_finding :: string
  pv_grant :: string
  pv_action :: string
  pv_actor :: string
  pv_parameters :: pyval
  pv_plan :: pyval
  pv_sha256 :: string
  pv_expires_at :: int

record write_request =
  rq_tenant :: string
  rq_preview :: string
  rq_key :: string
  rq_hash :: string
  rq_justification :: string
  rq_actor :: string
  rq_reviewer :: "string option"
  rq_note :: "string option"
  rq_state :: request_state
  rq_phase :: request_phase
  rq_grant :: string
  rq_nonce :: "string option"
  rq_lease_expires :: "int option"
  rq_attempted_at :: "int option"
  rq_result :: "pyval option"
  rq_error :: "string option"
  rq_call_id :: "string option"

record audit_event =
  au_tenant :: string
  au_request :: string
  au_event :: string
  au_actor :: string

record write_db =
  wd_previews :: "(string \<times> write_preview) list"
  wd_requests :: "(string \<times> write_request) list"
  wd_audit :: "audit_event list"

datatype write_error = RemediationError string | DatabaseError string | PyError py_error

type_synonym 'a wres = "write_error + 'a"

section \<open>Queries\<close>

definition request_of :: "write_db \<Rightarrow> string \<Rightarrow> string \<Rightarrow> write_request option" where
  "request_of db tenant i = (case dict_get (wd_requests db) i of
     Some r \<Rightarrow> if rq_tenant r = tenant then Some r else None | None \<Rightarrow> None)"

definition preview_of :: "write_db \<Rightarrow> string \<Rightarrow> string \<Rightarrow> write_preview option" where
  "preview_of db tenant i = (case dict_get (wd_previews db) i of
     Some p \<Rightarrow> if pv_tenant p = tenant then Some p else None | None \<Rightarrow> None)"

text \<open>\<open>get\<close>: the request joined with its preview.\<close>

definition get_request :: "write_db \<Rightarrow> string \<Rightarrow> string \<Rightarrow> (write_request \<times> write_preview) option" where
  "get_request db tenant i = (case request_of db tenant i of None \<Rightarrow> None
     | Some r \<Rightarrow> map_option (\<lambda>p. (r, p)) (preview_of db tenant (rq_preview r)))"

text \<open>The preview of a request by its id alone, as the sub-selects read it.\<close>

definition preview_after :: "write_db \<Rightarrow> write_request \<Rightarrow> int \<Rightarrow> bool" where
  "preview_after db r t \<longleftrightarrow> (case dict_get (wd_previews db) (rq_preview r) of
     Some p \<Rightarrow> t < pv_expires_at p | None \<Rightarrow> False)"

definition preview_over :: "write_db \<Rightarrow> write_request \<Rightarrow> int \<Rightarrow> bool" where
  "preview_over db r t \<longleftrightarrow> (case dict_get (wd_previews db) (rq_preview r) of
     Some p \<Rightarrow> pv_expires_at p \<le> t | None \<Rightarrow> False)"

definition lease_over :: "write_request \<Rightarrow> int \<Rightarrow> bool" where
  "lease_over r t \<longleftrightarrow> (case rq_lease_expires r of Some e \<Rightarrow> e \<le> t | None \<Rightarrow> False)"

definition lease_valid :: "write_request \<Rightarrow> int \<Rightarrow> bool" where
  "lease_valid r t \<longleftrightarrow> (case rq_lease_expires r of Some e \<Rightarrow> t < e | None \<Rightarrow> False)"

text \<open>The states of the partial unique index on the grant.\<close>

definition active_state :: "request_state \<Rightarrow> bool" where
  "active_state s \<longleftrightarrow> s \<in> {APPROVED, RUNNING, NEEDS_MANUAL_RESOLUTION}"

section \<open>Writing\<close>

definition put_request :: "string \<Rightarrow> write_request \<Rightarrow> write_db \<Rightarrow> write_db" where
  "put_request i r db = db\<lparr>wd_requests := dict_set i r (wd_requests db)\<rparr>"

definition audit :: "string \<Rightarrow> string \<Rightarrow> string \<Rightarrow> string \<Rightarrow> write_db \<Rightarrow> write_db" where
  "audit tenant i event actor db = db\<lparr>wd_audit := wd_audit db @
     [\<lparr>au_tenant = tenant, au_request = i, au_event = event, au_actor = actor\<rparr>]\<rparr>"

definition store_preview :: "string \<Rightarrow> write_preview \<Rightarrow> write_db \<Rightarrow> write_db wres" where
  "store_preview i p db =
     (if dict_get (wd_previews db) i \<noteq> None then Inl (DatabaseError ''unique violation'')
      else Inr (db\<lparr>wd_previews := dict_set i p (wd_previews db)\<rparr>))"

section \<open>Requesting a write\<close>

definition request_hash :: "string \<Rightarrow> string \<Rightarrow> string \<Rightarrow> string" where
  "request_hash preview actor justification = sha256_hex (json_flat
     [(''preview_id'', Some preview), (''actor'', Some actor), (''justification'', Some justification)])"

definition is_key_char :: "char \<Rightarrow> bool" where
  "is_key_char c \<longleftrightarrow> is_letter c \<or> is_digit c \<or> c = CHR ''_'' \<or> c = CHR ''-''"

definition key_format :: "string \<Rightarrow> bool" where
  "key_format k \<longleftrightarrow> 8 \<le> length k \<and> length k \<le> 128 \<and> list_all is_key_char k"

text \<open>\<open>i\<close> is the identifier the database generates for the new row.\<close>

definition store_request ::
    "int \<Rightarrow> string \<Rightarrow> string \<Rightarrow> string \<Rightarrow> string \<Rightarrow> string \<Rightarrow> string \<Rightarrow> write_db
     \<Rightarrow> (write_db \<times> string \<times> write_request) wres" where
  "store_request now i tenant preview_id actor key justification db =
     (let hash = request_hash preview_id actor justification in
      case find (\<lambda>e. rq_tenant (snd e) = tenant \<and> rq_key (snd e) = key) (wd_requests db) of
        Some e \<Rightarrow> if rq_hash (snd e) \<noteq> hash then Inl (RemediationError ''idempotency_body_conflict'')
                  else Inr (db, e)
      | None \<Rightarrow>
        (case preview_of db tenant preview_id of
           None \<Rightarrow> Inl (RemediationError ''preview_not_found'')
         | Some p \<Rightarrow>
             if pv_actor p \<noteq> actor then Inl (RemediationError ''preview_not_found'')
             else if pv_expires_at p \<le> now then Inl (RemediationError ''preview_expired'')
             else if \<not> key_format key \<or> \<not> (1 \<le> length justification \<and> length justification \<le> 2000)
               then Inl (DatabaseError ''check violation'')
             else if list_ex (\<lambda>e. fst e = i \<or> rq_preview (snd e) = preview_id) (wd_requests db)
               then Inl (RemediationError ''preview_already_requested'')
             else let r = \<lparr>rq_tenant = tenant, rq_preview = preview_id, rq_key = key, rq_hash = hash,
                 rq_justification = justification, rq_actor = actor, rq_reviewer = None, rq_note = None,
                 rq_state = PENDING_REVIEW, rq_phase = NOT_STARTED, rq_grant = pv_grant p, rq_nonce = None,
                 rq_lease_expires = None, rq_attempted_at = None, rq_result = None, rq_error = None,
                 rq_call_id = None\<rparr>
               in Inr (audit tenant i ''requested'' actor (put_request i r db), i, r)))"

section \<open>Reviewing\<close>

definition grant_busy :: "write_db \<Rightarrow> string \<Rightarrow> write_request \<Rightarrow> bool" where
  "grant_busy db i r \<longleftrightarrow> list_ex (\<lambda>e. fst e \<noteq> i \<and> rq_tenant (snd e) = rq_tenant r
     \<and> rq_grant (snd e) = rq_grant r \<and> active_state (rq_state (snd e))) (wd_requests db)"

definition store_review ::
    "int \<Rightarrow> string \<Rightarrow> string \<Rightarrow> string \<Rightarrow> string \<Rightarrow> string \<Rightarrow> write_db \<Rightarrow> write_db wres" where
  "store_review now tenant i reviewer decision note db =
     (case get_request db tenant i of
        None \<Rightarrow> Inl (RemediationError ''request_not_found'')
      | Some (r, p) \<Rightarrow>
          let state = (if decision = ''approved'' then APPROVED else REJECTED) in
          if rq_actor r = reviewer then Inl (RemediationError ''self_approval_forbidden'')
          else if rq_state r = state \<and> rq_reviewer r = Some reviewer \<and> rq_note r = Some note then Inr db
          else if rq_state r \<noteq> PENDING_REVIEW \<or> pv_expires_at p \<le> now
            then Inl (RemediationError ''request_not_reviewable'')
          else if active_state state \<and> grant_busy db i r
            then Inl (RemediationError ''another_resource_write_is_active'')
          else Inr (audit tenant i (if decision = ''approved'' then ''approved'' else ''rejected'') reviewer
            (put_request i (r\<lparr>rq_state := state, rq_reviewer := Some reviewer, rq_note := Some note\<rparr>) db)))"

section \<open>The worker\<close>

text \<open>The first two updates of \<open>claim\<close>: an approved request whose preview is over fails, a running
  one whose lease is over is left to an operator.\<close>

definition fail_expired :: "int \<Rightarrow> string \<Rightarrow> write_db \<Rightarrow> write_db" where
  "fail_expired dbnow i db = (case dict_get (wd_requests db) i of None \<Rightarrow> db
     | Some r \<Rightarrow> if rq_state r = APPROVED \<and> preview_over db r dbnow
         then audit (rq_tenant r) i ''preview_expired'' ''worker''
           (put_request i (r\<lparr>rq_state := REQ_FAILED, rq_error := Some ''preview_expired''\<rparr>) db)
         else db)"

definition abandon_expired :: "int \<Rightarrow> string \<Rightarrow> write_db \<Rightarrow> write_db" where
  "abandon_expired dbnow i db = (case dict_get (wd_requests db) i of None \<Rightarrow> db
     | Some r \<Rightarrow> if rq_state r = RUNNING \<and> lease_over r dbnow
         then audit (rq_tenant r) i ''worker_lease_expired'' ''worker''
           (put_request i (r\<lparr>rq_state := NEEDS_MANUAL_RESOLUTION, rq_error := Some ''worker_lease_expired''\<rparr>) db)
         else db)"

definition lease_duration :: int where "lease_duration = 20 * micros_per_minute"

text \<open>The last update: an approved request that was never started gets a lease under a fresh nonce.\<close>

definition take_lease :: "int \<Rightarrow> int \<Rightarrow> string \<Rightarrow> string \<Rightarrow> write_db \<Rightarrow> (write_db \<times> write_request) option" where
  "take_lease now dbnow nonce i db = (case dict_get (wd_requests db) i of None \<Rightarrow> None
     | Some r \<Rightarrow> if rq_state r = APPROVED \<and> rq_phase r = NOT_STARTED \<and> preview_after db r dbnow
         then let r' = r\<lparr>rq_state := RUNNING, rq_nonce := Some nonce,
                  rq_lease_expires := Some (now + lease_duration)\<rparr>
           in Some (audit (rq_tenant r) i ''claimed'' ''worker'' (put_request i r' db), r')
         else None)"

definition claim ::
    "int \<Rightarrow> int \<Rightarrow> string \<Rightarrow> string \<Rightarrow> write_db \<Rightarrow> write_db \<times> (write_request \<times> write_preview) option" where
  "claim now dbnow nonce i db =
     (let db1 = abandon_expired dbnow i (fail_expired dbnow i db) in
      case take_lease now dbnow nonce i db1 of
        None \<Rightarrow> (db1, None)
      | Some (db2, r) \<Rightarrow> (db2, get_request db2 (rq_tenant r) i))"

definition mark_provider_attempted ::
    "int \<Rightarrow> string \<Rightarrow> string \<Rightarrow> string \<Rightarrow> write_db \<Rightarrow> write_db wres" where
  "mark_provider_attempted dbnow tenant i nonce db = (case request_of db tenant i of
       Some r \<Rightarrow> if rq_state r = RUNNING \<and> rq_phase r = NOT_STARTED \<and> rq_nonce r = Some nonce
           \<and> lease_valid r dbnow \<and> preview_after db r dbnow
         then Inr (audit tenant i ''provider_attempted'' ''worker''
           (put_request i (r\<lparr>rq_phase := PROVIDER_ATTEMPTED, rq_attempted_at := Some dbnow\<rparr>) db))
         else Inl (RemediationError ''worker_lease_lost'')
     | None \<Rightarrow> Inl (RemediationError ''worker_lease_lost''))"

definition state_text :: "request_state \<Rightarrow> string" where
  "state_text s = (case s of PENDING_REVIEW \<Rightarrow> ''pending_review'' | APPROVED \<Rightarrow> ''approved''
     | REJECTED \<Rightarrow> ''rejected'' | RUNNING \<Rightarrow> ''running'' | SUCCEEDED \<Rightarrow> ''succeeded''
     | REQ_FAILED \<Rightarrow> ''failed'' | NEEDS_MANUAL_RESOLUTION \<Rightarrow> ''needs_manual_resolution'')"

text \<open>\<open>finish(..., result=...)\<close> is \<open>Inr result\<close>, \<open>finish(..., error=...)\<close> is \<open>Inl code\<close>. A call that
  keeps neither the lease nor the nonce changes nothing.\<close>

definition finish ::
    "int \<Rightarrow> string \<Rightarrow> string \<Rightarrow> string \<Rightarrow> string + pyval \<Rightarrow> write_db \<Rightarrow> write_db" where
  "finish dbnow tenant i nonce outcome db = (case request_of db tenant i of
       Some r \<Rightarrow>
         if rq_state r = RUNNING \<and> rq_nonce r = Some nonce \<and> lease_valid r dbnow
         then let r' = (case outcome of
                 Inr result \<Rightarrow> r\<lparr>rq_state := SUCCEEDED, rq_phase := FINISHED, rq_result := Some result, rq_error := None\<rparr>
               | Inl code \<Rightarrow> r\<lparr>rq_state := (if rq_phase r = PROVIDER_ATTEMPTED then NEEDS_MANUAL_RESOLUTION else REQ_FAILED),
                   rq_result := Some PNone, rq_error := Some code\<rparr>)
           in audit tenant i (state_text (rq_state r')) ''worker'' (put_request i r' db)
         else if rq_state r = RUNNING \<and> rq_nonce r = Some nonce \<and> lease_over r dbnow
         then audit tenant i ''worker_lease_expired'' ''worker''
           (put_request i (r\<lparr>rq_state := NEEDS_MANUAL_RESOLUTION, rq_error := Some ''worker_lease_expired''\<rparr>) db)
         else db
     | None \<Rightarrow> db)"

definition record_dispatch :: "string \<Rightarrow> string \<Rightarrow> string \<Rightarrow> write_db \<Rightarrow> write_db" where
  "record_dispatch tenant i call_id db = (case request_of db tenant i of
       Some r \<Rightarrow> if rq_call_id r = None then put_request i (r\<lparr>rq_call_id := Some call_id\<rparr>) db else db
     | None \<Rightarrow> db)"

section \<open>Reconciliation\<close>

definition reconcilable :: "int \<Rightarrow> write_request \<Rightarrow> bool" where
  "reconcilable t r \<longleftrightarrow> rq_phase r = PROVIDER_ATTEMPTED
     \<and> (rq_state r = NEEDS_MANUAL_RESOLUTION \<or> rq_state r = RUNNING \<and> lease_over r t)"

definition reconcile_finish ::
    "int \<Rightarrow> string \<Rightarrow> string \<Rightarrow> string \<Rightarrow> pyval \<Rightarrow> write_db \<Rightarrow> write_db wres" where
  "reconcile_finish dbnow tenant i actor result db = (case request_of db tenant i of
       Some r \<Rightarrow> if reconcilable dbnow r
         then Inr (audit tenant i ''read_only_reconciliation_succeeded'' actor
           (put_request i (r\<lparr>rq_state := SUCCEEDED, rq_phase := FINISHED, rq_result := Some result,
              rq_error := None\<rparr>) db))
         else Inl (RemediationError ''request_not_reconcilable'')
     | None \<Rightarrow> Inl (RemediationError ''request_not_reconcilable''))"

end
