(* ===== verification/Remediation_Table.thy ===== *)
theory Remediation_Table
  imports Remediation_Store "HOL-Library.Sublist"
begin

text \<open>
  What every method of the store may do to the tables, as a step relation on one request and its
  lift to the tables. The locale \<open>store_method\<close> states the contract once; every method is an
  interpretation, and the facts on sequences of methods follow from the contract alone.
\<close>

section \<open>Steps of one request\<close>

inductive request_step :: "write_request \<Rightarrow> write_request \<Rightarrow> bool" where
  Approve: "rq_state r = PENDING_REVIEW \<Longrightarrow> v \<noteq> rq_actor r \<Longrightarrow>
    request_step r (r\<lparr>rq_state := APPROVED, rq_reviewer := Some v, rq_note := Some n\<rparr>)"
| Reject: "rq_state r = PENDING_REVIEW \<Longrightarrow> v \<noteq> rq_actor r \<Longrightarrow>
    request_step r (r\<lparr>rq_state := REJECTED, rq_reviewer := Some v, rq_note := Some n\<rparr>)"
| Expire: "rq_state r = APPROVED \<Longrightarrow>
    request_step r (r\<lparr>rq_state := REQ_FAILED, rq_error := Some e\<rparr>)"
| Lease: "rq_state r = APPROVED \<Longrightarrow> rq_phase r = NOT_STARTED \<Longrightarrow>
    request_step r (r\<lparr>rq_state := RUNNING, rq_nonce := Some nonce, rq_lease_expires := Some t\<rparr>)"
| Abandon: "rq_state r = RUNNING \<Longrightarrow>
    request_step r (r\<lparr>rq_state := NEEDS_MANUAL_RESOLUTION, rq_error := Some e\<rparr>)"
| Attempt: "rq_state r = RUNNING \<Longrightarrow> rq_phase r = NOT_STARTED \<Longrightarrow>
    request_step r (r\<lparr>rq_phase := PROVIDER_ATTEMPTED, rq_attempted_at := Some t\<rparr>)"
| Succeed: "rq_state r = RUNNING \<Longrightarrow>
    request_step r (r\<lparr>rq_state := SUCCEEDED, rq_phase := FINISHED, rq_result := Some x, rq_error := None\<rparr>)"
| Fail_Before: "rq_state r = RUNNING \<Longrightarrow> rq_phase r \<noteq> PROVIDER_ATTEMPTED \<Longrightarrow>
    request_step r (r\<lparr>rq_state := REQ_FAILED, rq_result := Some PNone, rq_error := Some e\<rparr>)"
| Fail_After: "rq_state r = RUNNING \<Longrightarrow> rq_phase r = PROVIDER_ATTEMPTED \<Longrightarrow>
    request_step r (r\<lparr>rq_state := NEEDS_MANUAL_RESOLUTION, rq_result := Some PNone, rq_error := Some e\<rparr>)"
| Reconcile: "rq_phase r = PROVIDER_ATTEMPTED \<Longrightarrow> rq_state r = NEEDS_MANUAL_RESOLUTION \<or> rq_state r = RUNNING \<Longrightarrow>
    request_step r (r\<lparr>rq_state := SUCCEEDED, rq_phase := FINISHED, rq_result := Some x, rq_error := None\<rparr>)"
| Dispatch: "rq_call_id r = None \<Longrightarrow> request_step r (r\<lparr>rq_call_id := Some c\<rparr>)"

abbreviation request_steps :: "write_request \<Rightarrow> write_request \<Rightarrow> bool" where
  "request_steps \<equiv> request_step\<^sup>*\<^sup>*"

declare request_step.intros [intro]
inductive_cases request_stepE: "request_step r r'"

text \<open>The identity of a request, which the trigger of the database guards.\<close>

definition request_identity :: "write_request \<Rightarrow> string \<times> string \<times> string \<times> string \<times> string \<times> string \<times> string" where
  "request_identity r = (rq_tenant r, rq_preview r, rq_key r, rq_hash r, rq_justification r, rq_actor r, rq_grant r)"

lemma request_step_identity: "request_step r r' \<Longrightarrow> request_identity r' = request_identity r"
  by (induction rule: request_step.induct) (simp_all add: request_identity_def)

lemma request_steps_identity: "request_steps r r' \<Longrightarrow> request_identity r' = request_identity r"
  by (induction rule: rtranclp_induct) (simp_all add: request_step_identity)

text \<open>The invariant of a stored request.\<close>

definition request_wf :: "write_request \<Rightarrow> bool" where
  "request_wf r \<longleftrightarrow>
     (rq_state r = PENDING_REVIEW \<longrightarrow> rq_reviewer r = None)
     \<and> (rq_state r \<noteq> PENDING_REVIEW \<longrightarrow> (\<exists>v. rq_reviewer r = Some v \<and> v \<noteq> rq_actor r))
     \<and> (rq_state r \<in> {PENDING_REVIEW, APPROVED, REJECTED} \<longrightarrow> rq_phase r = NOT_STARTED)
     \<and> (rq_state r = REQ_FAILED \<longrightarrow> rq_phase r = NOT_STARTED)
     \<and> (rq_state r \<in> {RUNNING, NEEDS_MANUAL_RESOLUTION} \<longrightarrow>
          rq_phase r \<noteq> FINISHED \<and> rq_nonce r \<noteq> None \<and> rq_lease_expires r \<noteq> None)
     \<and> (rq_state r = SUCCEEDED \<longleftrightarrow> rq_phase r = FINISHED)
     \<and> (rq_phase r = PROVIDER_ATTEMPTED \<longrightarrow> rq_attempted_at r \<noteq> None)"

lemma request_step_wf: "request_step r r' \<Longrightarrow> request_wf r \<Longrightarrow> request_wf r'"
proof (induction rule: request_step.induct)
  case (Fail_Before r e)
  then show ?case by (cases "rq_phase r") (simp_all add: request_wf_def)
qed (auto simp: request_wf_def)

lemma request_steps_wf: "request_steps r r' \<Longrightarrow> request_wf r \<Longrightarrow> request_wf r'"
  by (induction rule: rtranclp_induct) (simp_all add: request_step_wf)

text \<open>A request that was started never starts again; a final state stays.\<close>

lemma request_steps_phase:
  "request_steps r r' \<Longrightarrow> rq_phase r \<noteq> NOT_STARTED \<Longrightarrow> rq_phase r' \<noteq> NOT_STARTED"
proof (induction rule: rtranclp_induct)
  case (step y z)
  then show ?case by (auto elim!: request_stepE)
qed

definition final_state :: "request_state \<Rightarrow> bool" where
  "final_state s \<longleftrightarrow> s \<in> {REJECTED, SUCCEEDED, REQ_FAILED}"

lemma request_step_final:
  "request_step r r' \<Longrightarrow> request_wf r \<Longrightarrow> final_state (rq_state r) \<Longrightarrow>
     rq_state r' = rq_state r \<and> rq_phase r' = rq_phase r \<and> rq_result r' = rq_result r \<and> rq_reviewer r' = rq_reviewer r"
  by (induction rule: request_step.induct) (auto simp: final_state_def request_wf_def)

lemma request_steps_final:
  "request_steps r r' \<Longrightarrow> request_wf r \<Longrightarrow> final_state (rq_state r) \<Longrightarrow>
     rq_state r' = rq_state r \<and> rq_phase r' = rq_phase r \<and> rq_result r' = rq_result r \<and> rq_reviewer r' = rq_reviewer r"
proof (induction rule: rtranclp_induct)
  case (step y z)
  then have "request_wf y" "final_state (rq_state y)" by (simp_all add: request_steps_wf)
  from request_step_final [OF step.hyps(2) this] step show ?case by simp
qed simp

text \<open>A request given up before its provider was called can only record its dispatch.\<close>

lemma request_steps_stuck:
  "request_steps r r' \<Longrightarrow> rq_state r = NEEDS_MANUAL_RESOLUTION \<Longrightarrow> rq_phase r = NOT_STARTED \<Longrightarrow>
     rq_state r' = NEEDS_MANUAL_RESOLUTION \<and> rq_phase r' = NOT_STARTED"
proof (induction rule: rtranclp_induct)
  case (step y z)
  then show ?case by (auto elim!: request_stepE)
qed simp

lemma request_steps_active:
  "request_steps r r' \<Longrightarrow> active_state (rq_state r') \<Longrightarrow> active_state (rq_state r) \<or> rq_state r = PENDING_REVIEW"
proof (induction rule: converse_rtranclp_induct)
  case (step y z)
  then show ?case by (auto elim!: request_stepE simp: active_state_def)
qed (simp add: active_state_def)

section \<open>Steps of the tables\<close>

abbreviation get_req :: "write_db \<Rightarrow> string \<Rightarrow> write_request option" where
  "get_req db i \<equiv> dict_get (wd_requests db) i"

abbreviation get_pv :: "write_db \<Rightarrow> string \<Rightarrow> write_preview option" where
  "get_pv db i \<equiv> dict_get (wd_previews db) i"

definition fresh_request :: "write_request \<Rightarrow> bool" where
  "fresh_request r \<longleftrightarrow> rq_state r = PENDING_REVIEW \<and> rq_phase r = NOT_STARTED \<and> rq_reviewer r = None"

definition table_step :: "write_db \<Rightarrow> write_db \<Rightarrow> bool" where
  "table_step db db' \<longleftrightarrow>
     (\<forall>i p. get_pv db i = Some p \<longrightarrow> get_pv db' i = Some p)
     \<and> (\<forall>i r. get_req db i = Some r \<longrightarrow> (\<exists>r'. get_req db' i = Some r' \<and> request_steps r r'))
     \<and> (\<forall>i r'. get_req db i = None \<longrightarrow> get_req db' i = Some r' \<longrightarrow> (\<exists>r. fresh_request r \<and> request_steps r r'))
     \<and> prefix (wd_audit db) (wd_audit db')"

text \<open>The invariant of the tables: every row is well formed, and a grant has at most one active row.\<close>

definition table_inv :: "write_db \<Rightarrow> bool" where
  "table_inv db \<longleftrightarrow> (\<forall>i r. get_req db i = Some r \<longrightarrow> request_wf r)
     \<and> (\<forall>i j r s. get_req db i = Some r \<longrightarrow> get_req db j = Some s \<longrightarrow> rq_tenant r = rq_tenant s \<longrightarrow>
          rq_grant r = rq_grant s \<longrightarrow> active_state (rq_state r) \<longrightarrow> active_state (rq_state s) \<longrightarrow> i = j)"

lemma table_step_refl [simp]: "table_step db db"
  by (auto simp: table_step_def)

lemma table_step_trans:
  assumes "table_step a b" "table_step b c" shows "table_step a c"
proof -
  have "\<exists>r'. get_req c i = Some r' \<and> request_steps r r'" if "get_req a i = Some r" for i r
    using assms that unfolding table_step_def by (meson rtranclp_trans)
  moreover have "\<exists>r. fresh_request r \<and> request_steps r r'" if "get_req a i = None" "get_req c i = Some r'" for i r'
  proof (cases "get_req b i")
    case None
    then show ?thesis using assms(2) that(2) unfolding table_step_def by blast
  next
    case (Some s)
    then have "\<exists>r. fresh_request r \<and> request_steps r s"
      using assms(1) that(1) unfolding table_step_def by blast
    then obtain r where "fresh_request r" "request_steps r s" by blast
    moreover have "request_steps s r'"
      using assms(2) Some that(2) unfolding table_step_def by (metis option.inject)
    ultimately show ?thesis by (meson rtranclp_trans)
  qed
  moreover have "\<forall>i p. get_pv a i = Some p \<longrightarrow> get_pv c i = Some p" "prefix (wd_audit a) (wd_audit c)"
    using assms unfolding table_step_def by (blast, meson prefix_order.trans)
  ultimately show ?thesis unfolding table_step_def by blast
qed

text \<open>The one shape every method has: put a successor of a row, then an audit line.\<close>

lemma get_req_put [simp]: "get_req (put_request i r db) j = (if j = i then Some r else get_req db j)"
  by (simp add: put_request_def dict_simps)

lemma put_request_fields [simp]:
  "wd_previews (put_request i r db) = wd_previews db" "wd_audit (put_request i r db) = wd_audit db"
  by (simp_all add: put_request_def)

lemma audit_fields [simp]:
  "wd_previews (audit t i e a db) = wd_previews db" "wd_requests (audit t i e a db) = wd_requests db"
  "prefix (wd_audit db) (wd_audit (audit t i e a db))"
  by (simp_all add: audit_def)

lemma table_step_put:
  "get_req db i = Some r \<Longrightarrow> request_step r r' \<Longrightarrow> table_step db (put_request i r' db)"
  by (auto simp: table_step_def)

lemma table_step_audit: "table_step db db' \<Longrightarrow> table_step db (audit t i e a db')"
  using prefix_order.trans by (fastforce simp: table_step_def audit_def)

lemma table_inv_audit [simp]: "table_inv (audit t i e a db) = table_inv db"
  by (simp add: table_inv_def)

lemma request_step_owner:
  "request_step r r' \<Longrightarrow> rq_tenant r' = rq_tenant r" "request_step r r' \<Longrightarrow> rq_grant r' = rq_grant r"
  using request_step_identity [of r r'] by (simp_all add: request_identity_def)

lemma table_inv_put:
  assumes "table_inv db" "get_req db i = Some r" "request_step r r'"
    and "active_state (rq_state r') \<Longrightarrow> active_state (rq_state r) \<or> \<not> grant_busy db i r"
  shows "table_inv (put_request i r' db)"
proof -
  have other: "\<not> (active_state (rq_state r') \<and> active_state (rq_state s))"
    if "get_req db j = Some s" "j \<noteq> i" "rq_tenant s = rq_tenant r" "rq_grant s = rq_grant r" for j s
  proof
    assume a: "active_state (rq_state r') \<and> active_state (rq_state s)"
    have "(j, s) \<in> set (wd_requests db)" using that(1) by (rule map_of_SomeD)
    then have "grant_busy db i r" using that(2-4) a unfolding grant_busy_def list_ex_iff by force
    then have "active_state (rq_state r)" using a assms(4) by blast
    then show False using assms(1,2) that a unfolding table_inv_def by metis
  qed
  have "request_wf r'" using assms request_step_wf unfolding table_inv_def by blast
  then show ?thesis using assms(1) other request_step_owner [OF assms(3)]
    unfolding table_inv_def by (simp split: if_splits) metis
qed

end
