(* ===== verification/Remediation_Contract.thy ===== *)
theory Remediation_Contract
  imports Remediation_Table
begin

text \<open>
  The contract of a method of the write store as the locale \<open>store_method\<close>: it steps the tables and
  keeps their invariant. Every method of \<open>resource_writes/store.py\<close> is an interpretation; a session is
  a list of calls, and its facts come from the contract.
\<close>

section \<open>The contract\<close>

locale store_method =
  fixes run :: "write_db \<Rightarrow> write_db"
  assumes steps: "table_step db (run db)"
    and keeps: "table_inv db \<Longrightarrow> table_inv (run db)"
begin

lemma row_kept: "get_req db i = Some r \<Longrightarrow> \<exists>r'. get_req (run db) i = Some r' \<and> request_steps r r'"
  using steps unfolding table_step_def by blast

lemma identity_kept:
  "get_req db i = Some r \<Longrightarrow> \<exists>r'. get_req (run db) i = Some r' \<and> request_identity r' = request_identity r"
  using row_kept request_steps_identity by blast

lemma preview_kept: "get_pv db i = Some p \<Longrightarrow> get_pv (run db) i = Some p"
  using steps unfolding table_step_def by blast

lemma audit_grows: "prefix (wd_audit db) (wd_audit (run db))"
  using steps unfolding table_step_def by blast

end

text \<open>A method that fails rolls back.\<close>

definition commit :: "('e + write_db) \<Rightarrow> write_db \<Rightarrow> write_db" where
  "commit res db = (case res of Inl _ \<Rightarrow> db | Inr db' \<Rightarrow> db')"

lemma store_method_commit:
  assumes "\<And>db db'. f db = Inr db' \<Longrightarrow> table_step db db'"
    and "\<And>db db'. f db = Inr db' \<Longrightarrow> table_inv db \<Longrightarrow> table_inv db'"
  shows "store_method (\<lambda>db. commit (f db) db)"
  using assms by unfold_locales (auto simp: commit_def split: sum.splits)

text \<open>An update of one row by one step.\<close>

lemma table_put_step:
  assumes "get_req db i = Some r" "request_step r r'"
  shows "table_step db (audit t i e a (put_request i r' db))"
  using assms table_step_put table_step_audit by blast

lemma request_of_SomeD: "request_of db tenant i = Some r \<Longrightarrow> get_req db i = Some r \<and> rq_tenant r = tenant"
  by (auto simp: request_of_def split: option.splits if_splits)

lemma get_request_SomeD:
  "get_request db tenant i = Some (r, p) \<Longrightarrow> get_req db i = Some r \<and> rq_tenant r = tenant"
  by (auto simp: get_request_def dest: request_of_SomeD split: option.splits)

section \<open>Previews and requests\<close>

lemma table_step_preview: "store_preview i p db = Inr db' \<Longrightarrow> table_step db db'"
  by (auto simp: store_preview_def table_step_def dict_simps split: if_splits)

lemma table_inv_preview: "store_preview i p db = Inr db' \<Longrightarrow> table_inv db \<Longrightarrow> table_inv db'"
  by (auto simp: store_preview_def table_inv_def split: if_splits)

interpretation preview_m: store_method "\<lambda>db. commit (store_preview i p db) db" for i p
  by (rule store_method_commit) (auto intro: table_step_preview table_inv_preview)

definition request_db ::
    "int \<Rightarrow> string \<Rightarrow> string \<Rightarrow> string \<Rightarrow> string \<Rightarrow> string \<Rightarrow> string \<Rightarrow> write_db \<Rightarrow> write_error + write_db" where
  "request_db now i tenant pid actor key j db = map_sum id fst (store_request now i tenant pid actor key j db)"

lemma store_request_cases:
  assumes "store_request now i tenant pid actor key j db = Inr (db', k, r)"
  obtains (existing) "db' = db" "(k, r) \<in> set (wd_requests db)"
  | (created) "k = i" "get_req db i = None" "fresh_request r" "rq_tenant r = tenant" "rq_actor r = actor"
      "db' = audit tenant i ''requested'' actor (put_request i r db)"
proof (cases "find (\<lambda>e. rq_tenant (snd e) = tenant \<and> rq_key (snd e) = key) (wd_requests db)")
  case (Some e)
  then have "e \<in> set (wd_requests db)" by (auto simp: find_Some_iff)
  with Some assms existing show ?thesis by (auto simp: store_request_def split: if_splits)
next
  case None
  have "get_req db i = None" if "\<not> list_ex (\<lambda>e. fst e = i \<or> rq_preview (snd e) = pid) (wd_requests db)"
    using that by (auto simp: map_of_eq_None_iff list_ex_iff)
  with None assms created show ?thesis
    by (auto simp: store_request_def fresh_request_def Let_def split: option.splits if_splits)
qed

lemma fresh_not_active: "fresh_request r \<Longrightarrow> \<not> active_state (rq_state r)"
  by (simp add: fresh_request_def active_state_def)

lemma table_step_new:
  "get_req db i = None \<Longrightarrow> fresh_request r \<Longrightarrow> table_step db (audit t i e a (put_request i r db))"
  by (rule table_step_audit) (auto simp: table_step_def)

lemma table_inv_new:
  "get_req db i = None \<Longrightarrow> fresh_request r \<Longrightarrow> table_inv db \<Longrightarrow> table_inv (audit t i e a (put_request i r db))"
  using fresh_not_active [of r] unfolding table_inv_audit
  by (auto simp: table_inv_def fresh_request_def request_wf_def)

lemma request_db_Inr:
  assumes "request_db now i tenant pid actor key j db = Inr db'"
  shows "table_step db db'" "table_inv db \<Longrightarrow> table_inv db'"
proof -
  obtain k r where r: "store_request now i tenant pid actor key j db = Inr (db', k, r)"
    using assms by (cases "store_request now i tenant pid actor key j db") (auto simp: request_db_def)
  show "table_step db db'" using r by (cases rule: store_request_cases) (simp_all add: table_step_new)
  show "table_inv db'" if "table_inv db" using r that
    by (cases rule: store_request_cases) (simp_all only: table_inv_new)
qed

interpretation request_m: store_method "\<lambda>db. commit (request_db now i tenant pid actor key j db) db"
  for now i tenant pid actor key j
  by (rule store_method_commit) (auto intro: request_db_Inr)

section \<open>Review\<close>

lemma store_review_cases:
  assumes "store_review now tenant i reviewer decision remark db = Inr db'"
  obtains (same) "db' = db"
  | (reviewed) r s e where "get_req db i = Some r" "rq_tenant r = tenant" "rq_state r = PENDING_REVIEW"
      "reviewer \<noteq> rq_actor r" "s = APPROVED \<or> s = REJECTED" "s = APPROVED \<longrightarrow> \<not> grant_busy db i r"
      "db' = audit tenant i e reviewer
        (put_request i (r\<lparr>rq_state := s, rq_reviewer := Some reviewer, rq_note := Some remark\<rparr>) db)"
proof (cases "get_request db tenant i")
  case None
  with assms show ?thesis by (simp add: store_review_def)
next
  case (Some rp)
  obtain r p where rp: "get_request db tenant i = Some (r, p)" using Some by (cases rp) simp
  define s where "s = (if decision = ''approved'' then APPROVED else REJECTED)"
  have s: "s = APPROVED \<or> s = REJECTED" by (simp add: s_def)
  have run: "store_review now tenant i reviewer decision remark db =
      (if rq_actor r = reviewer then Inl (RemediationError ''self_approval_forbidden'')
       else if rq_state r = s \<and> rq_reviewer r = Some reviewer \<and> rq_note r = Some remark then Inr db
       else if rq_state r \<noteq> PENDING_REVIEW \<or> pv_expires_at p \<le> now
         then Inl (RemediationError ''request_not_reviewable'')
       else if active_state s \<and> grant_busy db i r
         then Inl (RemediationError ''another_resource_write_is_active'')
       else Inr (audit tenant i (if decision = ''approved'' then ''approved'' else ''rejected'') reviewer
         (put_request i (r\<lparr>rq_state := s, rq_reviewer := Some reviewer, rq_note := Some remark\<rparr>) db)))"
    by (simp only: store_review_def rp option.case prod.case Let_def s_def)
  show ?thesis
  proof (cases "rq_state r = s \<and> rq_reviewer r = Some reviewer \<and> rq_note r = Some remark")
    case True
    with assms run have "db' = db" by (simp split: if_splits)
    then show ?thesis by (rule same)
  next
    case False
    with assms run have "rq_actor r \<noteq> reviewer" "rq_state r = PENDING_REVIEW"
        "\<not> (active_state s \<and> grant_busy db i r)"
        "db' = audit tenant i (if decision = ''approved'' then ''approved'' else ''rejected'') reviewer
           (put_request i (r\<lparr>rq_state := s, rq_reviewer := Some reviewer, rq_note := Some remark\<rparr>) db)"
      by (simp_all split: if_splits)
    with s get_request_SomeD [OF rp] show ?thesis
      by (intro reviewed [of r s]) (auto simp: active_state_def)
  qed
qed

lemma store_review_Inr:
  assumes "store_review now tenant i reviewer decision remark db = Inr db'"
  shows "table_step db db'" "table_inv db \<Longrightarrow> table_inv db'"
proof -
  show "table_step db db'" using assms
  proof (cases rule: store_review_cases)
    case (reviewed r s e)
    then show ?thesis by (auto intro!: table_put_step)
  qed simp
  show "table_inv db'" if "table_inv db" using assms
  proof (cases rule: store_review_cases)
    case (reviewed r s e)
    then show ?thesis using that by (auto intro!: table_inv_put simp: active_state_def)
  qed (simp add: that)
qed

interpretation review_m: store_method "\<lambda>db. commit (store_review now tenant i reviewer decision remark db) db"
  for now tenant i reviewer decision remark
  by (rule store_method_commit) (auto intro: store_review_Inr)

section \<open>The worker's methods\<close>

lemma active_running [simp]:
  "active_state RUNNING" "active_state APPROVED" "active_state NEEDS_MANUAL_RESOLUTION"
  "\<not> active_state REQ_FAILED" "\<not> active_state SUCCEEDED" "\<not> active_state REJECTED" "\<not> active_state PENDING_REVIEW"
  by (simp_all add: active_state_def)

interpretation fail_expired_m: store_method "fail_expired dbnow i" for dbnow i
  by unfold_locales (auto simp: fail_expired_def intro!: table_put_step table_inv_put split: option.splits)

interpretation abandon_m: store_method "abandon_expired dbnow i" for dbnow i
  by unfold_locales (auto simp: abandon_expired_def intro!: table_put_step table_inv_put split: option.splits)

lemma take_lease_Some:
  assumes "take_lease now dbnow nonce i db = Some (db', r)"
  shows "table_step db db'" "table_inv db \<Longrightarrow> table_inv db'" "get_req db' i = Some r"
    "rq_state r = RUNNING" "rq_nonce r = Some nonce" "rq_lease_expires r = Some (now + lease_duration)"
  using assms by (auto simp: take_lease_def Let_def intro!: table_put_step table_inv_put split: option.splits if_splits)

interpretation claim_m: store_method "\<lambda>db. fst (claim now dbnow nonce i db)" for now dbnow nonce i
proof
  fix db
  let ?d = "abandon_expired dbnow i (fail_expired dbnow i db)"
  have d: "table_step db ?d" "table_inv db \<Longrightarrow> table_inv ?d"
    using fail_expired_m.steps abandon_m.steps table_step_trans
    by (blast, simp add: fail_expired_m.keeps abandon_m.keeps)
  show "table_step db (fst (claim now dbnow nonce i db))"
    using d take_lease_Some(1) table_step_trans by (auto simp: claim_def Let_def split: option.splits)
  show "table_inv (fst (claim now dbnow nonce i db))" if "table_inv db"
    using d(2) [OF that] take_lease_Some(2) by (auto simp: claim_def Let_def split: option.splits)
qed

lemma mark_Inr:
  assumes "mark_provider_attempted dbnow tenant i nonce db = Inr db'"
  shows "table_step db db'" "table_inv db \<Longrightarrow> table_inv db'"
    "\<exists>r. get_req db i = Some r \<and> rq_phase r = NOT_STARTED \<and> rq_state r = RUNNING"
    "\<exists>r. get_req db' i = Some r \<and> rq_phase r = PROVIDER_ATTEMPTED"
  using assms request_of_SomeD [of db tenant i]
  by (auto simp: mark_provider_attempted_def intro!: table_put_step table_inv_put split: option.splits if_splits)

interpretation mark_m: store_method "\<lambda>db. commit (mark_provider_attempted dbnow tenant i nonce db) db"
  for dbnow tenant i nonce
  by (rule store_method_commit) (auto intro: mark_Inr)

interpretation finish_m: store_method "finish dbnow tenant i nonce outcome" for dbnow tenant i nonce outcome
proof
  fix db
  show "table_step db (finish dbnow tenant i nonce outcome db)"
    using request_of_SomeD [of db tenant i]
    by (auto simp: finish_def Let_def intro!: table_put_step split: option.splits sum.splits)
  show "table_inv (finish dbnow tenant i nonce outcome db)" if "table_inv db"
    using request_of_SomeD [of db tenant i] that
    by (auto simp: finish_def Let_def intro!: table_inv_put split: option.splits sum.splits)
qed

interpretation dispatch_m: store_method "record_dispatch tenant i call_id" for tenant i call_id
  using request_of_SomeD table_step_put table_inv_put
  by unfold_locales (fastforce simp: record_dispatch_def split: option.splits)+

lemma reconcile_Inr:
  assumes "reconcile_finish dbnow tenant i actor result db = Inr db'"
  shows "table_step db db'" "table_inv db \<Longrightarrow> table_inv db'"
  using assms request_of_SomeD [of db tenant i]
  by (auto simp: reconcile_finish_def reconcilable_def intro!: table_put_step table_inv_put
    split: option.splits if_splits)

interpretation reconcile_m: store_method "\<lambda>db. commit (reconcile_finish dbnow tenant i actor result db) db"
  for dbnow tenant i actor result
  by (rule store_method_commit) (auto intro: reconcile_Inr)

section \<open>A claim that succeeds\<close>

definition leased_request :: "int \<Rightarrow> string \<Rightarrow> write_request \<Rightarrow> write_request" where
  "leased_request now nonce r = r\<lparr>rq_state := RUNNING, rq_nonce := Some nonce, rq_lease_expires := Some (now + lease_duration)\<rparr>"

lemma leased_request_simps [simp]:
  "rq_tenant (leased_request now nonce r) = rq_tenant r" "rq_preview (leased_request now nonce r) = rq_preview r"
  "rq_state (leased_request now nonce r) = RUNNING" "rq_phase (leased_request now nonce r) = rq_phase r"
  "rq_nonce (leased_request now nonce r) = Some nonce" "rq_reviewer (leased_request now nonce r) = rq_reviewer r"
  "rq_lease_expires (leased_request now nonce r) = Some (now + lease_duration)"
  "rq_actor (leased_request now nonce r) = rq_actor r"
  by (simp_all add: leased_request_def)

lemma claim_approved:
  assumes "get_req db i = Some r" "rq_state r = APPROVED" "rq_phase r = NOT_STARTED"
    and "get_pv db (rq_preview r) = Some p" "pv_tenant p = rq_tenant r" "t < pv_expires_at p"
  shows "\<exists>db1. claim now t nonce i db = (db1, Some (leased_request now nonce r, p))
    \<and> get_req db1 i = Some (leased_request now nonce r) \<and> wd_previews db1 = wd_previews db"
proof -
  let ?r = "leased_request now nonce r"
  let ?db = "audit (rq_tenant r) i ''claimed'' ''worker'' (put_request i ?r db)"
  have "fail_expired t i db = db" "abandon_expired t i db = db"
    using assms by (simp_all add: fail_expired_def abandon_expired_def preview_over_def)
  moreover have "take_lease now t nonce i db = Some (?db, ?r)"
    using assms by (simp add: take_lease_def preview_after_def leased_request_def Let_def)
  moreover have "get_request ?db (rq_tenant r) i = Some (?r, p)"
    using assms by (simp add: get_request_def request_of_def preview_of_def)
  ultimately have "claim now t nonce i db = (?db, Some (?r, p))" by (simp add: claim_def Let_def)
  then show ?thesis by simp
qed

lemma mark_leased:
  assumes "get_req db i = Some r" "rq_state r = RUNNING" "rq_phase r = NOT_STARTED" "rq_nonce r = Some nonce"
    and "get_pv db (rq_preview r) = Some p" "t < pv_expires_at p" "rq_lease_expires r = Some l" "t < l"
  shows "\<exists>db2. mark_provider_attempted t (rq_tenant r) i nonce db = Inr db2
    \<and> get_req db2 i = Some (r\<lparr>rq_phase := PROVIDER_ATTEMPTED, rq_attempted_at := Some t\<rparr>)"
  using assms by (simp add: mark_provider_attempted_def request_of_def lease_valid_def preview_after_def)

end
