(* ===== verification/Remediation_Machine.thy ===== *)
theory Remediation_Machine
  imports Remediation_Contract "HOL-Library.Multiset"
begin

text \<open>
  The workers of \<open>RemediationService.execute\<close> over the write store, as a step relation: any number of
  workers interleave with each other and with the callers of the API, every clock is read anew at
  each step, and a worker may die at any point. A worker is known by its lease nonce and by how far
  \<open>execute\<close> has come: it has claimed its request, it has recorded the attempt, or the provider has been
  called. \<open>fl_calls\<close> is the log of the provider calls.
\<close>

section \<open>The state\<close>

datatype stage = CLAIMED | MARKED | CALLED

record worker =
  wk_nonce :: string
  wk_tenant :: string
  wk_request :: string
  wk_stage :: stage

record fleet =
  fl_db :: write_db
  fl_workers :: "worker multiset"
  fl_calls :: "string list"

text \<open>What the other callers of the store do.\<close>

datatype api_call =
    Preview_Call string write_preview
  | Request_Call string string string string string string
  | Review_Call string string string string string
  | Reconcile_Call string string string pyval
  | Dispatch_Call string string string

fun run_api :: "int \<Rightarrow> api_call \<Rightarrow> write_db \<Rightarrow> write_db" where
  "run_api now (Preview_Call i p) db = commit (store_preview i p db) db"
| "run_api now (Request_Call i tenant pid actor key j) db = commit (request_db now i tenant pid actor key j db) db"
| "run_api now (Review_Call tenant i reviewer decision remark) db =
     commit (store_review now tenant i reviewer decision remark db) db"
| "run_api now (Reconcile_Call tenant i actor result) db = commit (reconcile_finish now tenant i actor result db) db"
| "run_api now (Dispatch_Call tenant i call_id) db = record_dispatch tenant i call_id db"

interpretation api_m: store_method "run_api now c" for now c
proof
  fix db
  show "table_step db (run_api now c db)"
    by (cases c) (simp_all add: preview_m.steps request_m.steps review_m.steps reconcile_m.steps dispatch_m.steps)
  show "table_inv (run_api now c db)" if "table_inv db"
    using that by (cases c)
      (simp_all add: preview_m.keeps request_m.keeps review_m.keeps reconcile_m.keeps dispatch_m.keeps)
qed

section \<open>The steps\<close>

inductive fleet_step :: "fleet \<Rightarrow> fleet \<Rightarrow> bool" where
  Api: "fleet_step f (f\<lparr>fl_db := run_api now c (fl_db f)\<rparr>)"
| Claim: "claim now dbnow nonce i (fl_db f) = (db', Some (r, p)) \<Longrightarrow>
    fleet_step f (f\<lparr>fl_db := db', fl_workers := add_mset
      \<lparr>wk_nonce = nonce, wk_tenant = rq_tenant r, wk_request = i, wk_stage = CLAIMED\<rparr> (fl_workers f)\<rparr>)"
| Claim_Nothing: "claim now dbnow nonce i (fl_db f) = (db', None) \<Longrightarrow> fleet_step f (f\<lparr>fl_db := db'\<rparr>)"
| Mark: "w \<in># fl_workers f \<Longrightarrow> wk_stage w = CLAIMED \<Longrightarrow>
    mark_provider_attempted dbnow (wk_tenant w) (wk_request w) (wk_nonce w) (fl_db f) = Inr db' \<Longrightarrow>
    fleet_step f (f\<lparr>fl_db := db', fl_workers := add_mset (w\<lparr>wk_stage := MARKED\<rparr>) (fl_workers f - {#w#})\<rparr>)"
| Call: "w \<in># fl_workers f \<Longrightarrow> wk_stage w = MARKED \<Longrightarrow>
    fleet_step f (f\<lparr>fl_workers := add_mset (w\<lparr>wk_stage := CALLED\<rparr>) (fl_workers f - {#w#}),
      fl_calls := fl_calls f @ [wk_request w]\<rparr>)"
| Finish: "w \<in># fl_workers f \<Longrightarrow> wk_stage w = CALLED \<or> wk_stage w = CLAIMED \<and> outcome = Inl code \<Longrightarrow>
    fleet_step f (f\<lparr>fl_db := finish dbnow (wk_tenant w) (wk_request w) (wk_nonce w) outcome (fl_db f),
      fl_workers := fl_workers f - {#w#}\<rparr>)"
| Crash: "w \<in># fl_workers f \<Longrightarrow> fleet_step f (f\<lparr>fl_workers := fl_workers f - {#w#}\<rparr>)"

abbreviation fleet_steps :: "fleet \<Rightarrow> fleet \<Rightarrow> bool" where
  "fleet_steps \<equiv> fleet_step\<^sup>*\<^sup>*"

definition fleet_init :: fleet where
  "fleet_init = \<lparr>fl_db = \<lparr>wd_previews = [], wd_requests = [], wd_audit = []\<rparr>, fl_workers = {#}, fl_calls = []\<rparr>"

lemma fleet_step_db: "fleet_step f f' \<Longrightarrow> table_step (fl_db f) (fl_db f')"
proof (induction rule: fleet_step.induct)
  case (Claim now dbnow nonce i f db' r p)
  then show ?case using claim_m.steps [of "fl_db f" now dbnow nonce i] by simp
next
  case (Claim_Nothing now dbnow nonce i f db')
  then show ?case using claim_m.steps [of "fl_db f" now dbnow nonce i] by simp
qed (simp_all add: api_m.steps finish_m.steps mark_Inr)

lemma fleet_step_inv: "fleet_step f f' \<Longrightarrow> table_inv (fl_db f) \<Longrightarrow> table_inv (fl_db f')"
proof (induction rule: fleet_step.induct)
  case (Claim now dbnow nonce i f db' r p)
  then show ?case using claim_m.keeps [of "fl_db f" now dbnow nonce i] by simp
next
  case (Claim_Nothing now dbnow nonce i f db')
  then show ?case using claim_m.keeps [of "fl_db f" now dbnow nonce i] by simp
qed (simp_all add: api_m.keeps finish_m.keeps mark_Inr)

lemma fleet_steps_db: "fleet_steps f f' \<Longrightarrow> table_step (fl_db f) (fl_db f')"
  by (induction rule: rtranclp_induct) (auto intro: table_step_trans fleet_step_db)

lemma table_inv_init [simp]: "table_inv (fl_db fleet_init)"
  by (simp add: fleet_init_def table_inv_def)

lemma fleet_steps_inv: "fleet_steps fleet_init f \<Longrightarrow> table_inv (fl_db f)"
  by (induction rule: rtranclp_induct) (auto intro: fleet_step_inv)

section \<open>At most one provider call\<close>

definition about_to_call :: "string \<Rightarrow> worker \<Rightarrow> bool" where
  "about_to_call i w \<longleftrightarrow> wk_request w = i \<and> wk_stage w = MARKED"

definition calls_due :: "fleet \<Rightarrow> string \<Rightarrow> nat" where
  "calls_due f i = count_list (fl_calls f) i + size (filter_mset (about_to_call i) (fl_workers f))"

definition attempt_event :: "string \<Rightarrow> string \<Rightarrow> audit_event" where
  "attempt_event tenant i = \<lparr>au_tenant = tenant, au_request = i, au_event = ''provider_attempted'', au_actor = ''worker''\<rparr>"

definition attempt_recorded :: "write_db \<Rightarrow> string \<Rightarrow> bool" where
  "attempt_recorded db i \<longleftrightarrow> (\<exists>r. get_req db i = Some r \<and> rq_phase r \<noteq> NOT_STARTED
     \<and> attempt_event (rq_tenant r) i \<in> set (wd_audit db))"

definition once :: "fleet \<Rightarrow> string \<Rightarrow> bool" where
  "once f i \<longleftrightarrow> calls_due f i = 0 \<or> calls_due f i = 1 \<and> attempt_recorded (fl_db f) i"

lemma attempt_recorded_step:
  assumes "table_step db db'" "attempt_recorded db i"
  shows "attempt_recorded db' i"
proof -
  obtain r where r: "get_req db i = Some r" "rq_phase r \<noteq> NOT_STARTED" "attempt_event (rq_tenant r) i \<in> set (wd_audit db)"
    using assms(2) by (auto simp: attempt_recorded_def)
  obtain r' where "get_req db' i = Some r'" "request_steps r r'"
    using assms(1) r(1) unfolding table_step_def by blast
  moreover have "rq_phase r' \<noteq> NOT_STARTED" "rq_tenant r' = rq_tenant r"
    using calculation r(2) request_steps_phase request_steps_identity [of r r'] by (blast, simp add: request_identity_def)
  moreover have "set (wd_audit db) \<subseteq> set (wd_audit db')"
    using assms(1) set_mono_prefix unfolding table_step_def by blast
  ultimately show ?thesis using r(3) unfolding attempt_recorded_def by fastforce
qed

lemma once_weaken:
  "once f i \<Longrightarrow> table_step (fl_db f) (fl_db f') \<Longrightarrow> calls_due f' i \<le> calls_due f i \<Longrightarrow> once f' i"
  using attempt_recorded_step unfolding once_def by fastforce

lemma mark_attempt:
  assumes "mark_provider_attempted dbnow tenant i nonce db = Inr db'"
  shows "attempt_recorded db' i" "\<not> attempt_recorded db i"
proof -
  show "attempt_recorded db' i"
    using assms by (auto simp: mark_provider_attempted_def attempt_recorded_def attempt_event_def audit_def
      dest!: request_of_SomeD split: option.splits if_splits)
  show "\<not> attempt_recorded db i" using mark_Inr(3) [OF assms] by (auto simp: attempt_recorded_def)
qed

lemma size_filter_swap:
  assumes "w \<in># M"
  shows "size (filter_mset P (add_mset w' (M - {#w#}))) + (if P w then 1 else 0) =
    size (filter_mset P M) + (if P w' then 1 else 0)"
proof -
  obtain N where "M = add_mset w N" using assms by (metis insert_DiffM)
  then show ?thesis by simp
qed

lemma size_filter_drop: "size (filter_mset P (M - N)) \<le> size (filter_mset P M)"
  by (simp add: size_mset_mono)

lemma calls_due_drop:
  "fl_calls f' = fl_calls f \<Longrightarrow> fl_workers f' = fl_workers f - N \<Longrightarrow> calls_due f' i \<le> calls_due f i"
  unfolding calls_due_def using size_filter_drop by (metis add_left_mono)

lemma fleet_step_once:
  assumes "fleet_step f f'" "once f i"
  shows "once f' i"
  using assms
proof (induction rule: fleet_step.induct)
  case (Mark w f dbnow db')
  note facts = Mark mark_attempt [OF Mark.hyps(3)]
  let ?W = "\<lambda>f. size (filter_mset (about_to_call i) (fl_workers f))"
  let ?f = "f\<lparr>fl_db := db', fl_workers := add_mset (w\<lparr>wk_stage := MARKED\<rparr>) (fl_workers f - {#w#})\<rparr>"
  have W: "?W ?f = ?W f + (if wk_request w = i then 1 else 0)"
    using size_filter_swap [OF Mark.hyps(1), of "about_to_call i" "w\<lparr>wk_stage := MARKED\<rparr>"] Mark.hyps(2)
    by (simp add: about_to_call_def)
  show ?case
  proof (cases "wk_request w = i")
    case True
    with facts have "calls_due f i = 0" by (auto simp: once_def)
    with True W facts show ?thesis by (simp add: once_def calls_due_def)
  next
    case False
    with W have "calls_due ?f i \<le> calls_due f i" by (simp add: calls_due_def)
    moreover have "table_step (fl_db f) (fl_db ?f)" using mark_Inr(1) [OF Mark.hyps(3)] by simp
    ultimately show ?thesis using once_weaken [OF Mark.prems] by blast
  qed
next
  case (Call w f)
  have "calls_due (f\<lparr>fl_workers := add_mset (w\<lparr>wk_stage := CALLED\<rparr>) (fl_workers f - {#w#}),
      fl_calls := fl_calls f @ [wk_request w]\<rparr>) i = calls_due f i"
    using Call.hyps(1,2) by (auto simp: calls_due_def about_to_call_def dest!: multi_member_split)
  then show ?case using Call.prems by (simp add: once_def)
next
  case (Claim now dbnow nonce i' f db' r p)
  then show ?case using claim_m.steps [of "fl_db f" now dbnow nonce i']
    by (intro once_weaken [OF Claim.prems]) (simp_all add: calls_due_def about_to_call_def)
next
  case (Claim_Nothing now dbnow nonce i' f db')
  then show ?case using claim_m.steps [of "fl_db f" now dbnow nonce i']
    by (intro once_weaken [OF Claim_Nothing.prems]) (simp_all add: calls_due_def)
next
  case (Finish w f outcome code dbnow)
  then show ?case
    by (intro once_weaken [OF Finish.prems]) (simp_all add: finish_m.steps calls_due_drop [where N = "{#w#}"])
next
  case (Crash w f)
  then show ?case
    by (intro once_weaken [OF Crash.prems]) (simp_all add: calls_due_drop [where N = "{#w#}"])
next
  case (Api f now c)
  then show ?case
    by (intro once_weaken [OF Api.prems]) (simp_all add: api_m.steps calls_due_def)
qed

lemma once_init: "once fleet_init i"
  by (simp add: once_def calls_due_def fleet_init_def)

lemma fleet_steps_once: "fleet_steps fleet_init f \<Longrightarrow> once f i"
  by (induction rule: rtranclp_induct) (simp_all add: once_init fleet_step_once)

end
