(* ===== verification/Remediation_Approval.thy ===== *)
theory Remediation_Approval
  imports Remediation_Machine
begin

text \<open>
  What the audit log of the write store records about approvals. A request that left review otherwise
  than by a rejection has the approval of its reviewer on record, and every attempt on the provider is
  preceded in the log by that approval. The log is append-only, so its order is the order of the events.
\<close>

section \<open>Events of the log\<close>

definition approved_event :: "string \<Rightarrow> string \<Rightarrow> string \<Rightarrow> audit_event" where
  "approved_event tenant i v = \<lparr>au_tenant = tenant, au_request = i, au_event = ''approved'', au_actor = v\<rparr>"

text \<open>An event stands in the log only with an earlier one before it.\<close>

definition precedes :: "'a \<Rightarrow> 'a \<Rightarrow> 'a list \<Rightarrow> bool" where
  "precedes a b xs \<longleftrightarrow> (\<forall>pre post. xs = pre @ b # post \<longrightarrow> a \<in> set pre)"

lemma precedes_snoc: "precedes a b (xs @ [x]) \<longleftrightarrow> precedes a b xs \<and> (x = b \<longrightarrow> a \<in> set xs)"
proof
  assume p: "precedes a b (xs @ [x])"
  then have "precedes a b xs" unfolding precedes_def by fastforce
  moreover have "x = b \<longrightarrow> a \<in> set xs" using p unfolding precedes_def by blast
  ultimately show "precedes a b xs \<and> (x = b \<longrightarrow> a \<in> set xs)" ..
next
  assume p: "precedes a b xs \<and> (x = b \<longrightarrow> a \<in> set xs)"
  show "precedes a b (xs @ [x])" unfolding precedes_def
  proof (intro allI impI)
    fix pre post assume eq: "xs @ [x] = pre @ b # post"
    show "a \<in> set pre"
    proof (cases post rule: rev_cases)
      case Nil
      with eq p show ?thesis by simp
    next
      case (snoc ys y)
      with eq have "xs = pre @ b # ys" by simp
      with p show ?thesis by (auto simp: precedes_def)
    qed
  qed
qed

lemma precedes_absent: "b \<notin> set xs \<Longrightarrow> precedes a b xs"
  by (auto simp: precedes_def)

lemma precedes_split:
  assumes "precedes a b xs" "b \<in> set xs"
  shows "\<exists>pre between post. xs = pre @ a # between @ b # post"
proof -
  obtain pre post where b: "xs = pre @ b # post" using split_list [OF assms(2)] by blast
  then have "a \<in> set pre" using assms(1) by (simp add: precedes_def)
  then obtain ys zs where "pre = ys @ a # zs" using split_list by metis
  with b show ?thesis by auto
qed

section \<open>The invariant\<close>

text \<open>The row whose state is not \<open>PENDING_REVIEW\<close> or \<open>REJECTED\<close> has the approval of its reviewer in
  the log, before any attempt; the attempts of the log are those of rows that left \<open>NOT_STARTED\<close>.\<close>

definition row_approved :: "audit_event list \<Rightarrow> string \<Rightarrow> write_request \<Rightarrow> bool" where
  "row_approved evs i r \<longleftrightarrow> (rq_state r \<notin> {PENDING_REVIEW, REJECTED} \<longrightarrow>
     (\<exists>v. rq_reviewer r = Some v \<and> approved_event (rq_tenant r) i v \<in> set evs
        \<and> precedes (approved_event (rq_tenant r) i v) (attempt_event (rq_tenant r) i) evs))
   \<and> (rq_phase r = NOT_STARTED \<longrightarrow> attempt_event (rq_tenant r) i \<notin> set evs)"

definition approval_inv :: "write_db \<Rightarrow> bool" where
  "approval_inv db \<longleftrightarrow> (\<forall>i r. get_req db i = Some r \<longrightarrow> row_approved (wd_audit db) i r)
     \<and> (\<forall>e \<in> set (wd_audit db). au_event e = ''provider_attempted'' \<longrightarrow> get_req db (au_request e) \<noteq> None)"

lemma wd_audit_audit [simp]:
  "wd_audit (audit t i e a db) = wd_audit db @ [\<lparr>au_tenant = t, au_request = i, au_event = e, au_actor = a\<rparr>]"
  by (simp add: audit_def)

lemma row_approved_snoc:
  "row_approved evs i r \<Longrightarrow> e \<noteq> attempt_event (rq_tenant r) i \<Longrightarrow> row_approved (evs @ [e]) i r"
  by (auto simp: row_approved_def precedes_snoc)

text \<open>A method that puts one row and appends one line keeps the invariant when it does for that row.\<close>

lemma approval_inv_put:
  assumes "approval_inv db" "row_approved (wd_audit db @ [\<lparr>au_tenant = t, au_request = i, au_event = e, au_actor = a\<rparr>]) i r'"
  shows "approval_inv (audit t i e a (put_request i r' db))"
  using assms by (auto simp: approval_inv_def attempt_event_def intro!: row_approved_snoc)

text \<open>A step that keeps the reviewer and the tenant of a row, and starts nothing.\<close>

lemma approval_inv_step:
  assumes "approval_inv db" "get_req db i = Some r"
    and "rq_tenant r' = rq_tenant r" "rq_reviewer r' = rq_reviewer r" "rq_phase r' = NOT_STARTED \<Longrightarrow> rq_phase r = NOT_STARTED"
    and "rq_state r \<notin> {PENDING_REVIEW, REJECTED} \<or> rq_state r' = rq_state r" "e \<noteq> ''provider_attempted''"
  shows "approval_inv (audit t i e a (put_request i r' db))"
proof (rule approval_inv_put [OF assms(1)])
  have "row_approved (wd_audit db) i r" using assms(1,2) by (simp add: approval_inv_def)
  then have "row_approved (wd_audit db) i r'" using assms(3-6) unfolding row_approved_def by auto
  then show "row_approved (wd_audit db @ [\<lparr>au_tenant = t, au_request = i, au_event = e, au_actor = a\<rparr>]) i r'"
    using assms(7) by (auto intro!: row_approved_snoc simp: attempt_event_def)
qed

section \<open>Every method keeps it\<close>

lemma approval_preview: "approval_inv db \<Longrightarrow> approval_inv (commit (store_preview i p db) db)"
  by (auto simp: commit_def store_preview_def approval_inv_def)

lemma approval_request: "approval_inv db \<Longrightarrow> approval_inv (commit (request_db now i tenant pid actor key j db) db)"
proof (cases "store_request now i tenant pid actor key j db")
  case (Inr x)
  obtain db' k r where x: "x = (db', k, r)" by (cases x)
  assume inv: "approval_inv db"
  from Inr have "approval_inv db'" unfolding x
  proof (cases rule: store_request_cases)
    case created
    have "attempt_event (rq_tenant r) i \<notin> set (wd_audit db)"
      using inv created(2) by (fastforce simp: approval_inv_def attempt_event_def)
    then show ?thesis unfolding created(6)
      using created(3) by (intro approval_inv_put [OF inv]) (auto simp: row_approved_def fresh_request_def attempt_event_def)
  qed (simp add: inv)
  then show ?thesis by (simp add: commit_def request_db_def Inr x)
qed (simp add: commit_def request_db_def)

lemma approval_review:
  "approval_inv db \<Longrightarrow> table_inv db \<Longrightarrow> approval_inv (commit (store_review now tenant i reviewer decision remark db) db)"
proof (cases "store_review now tenant i reviewer decision remark db")
  case (Inr db')
  assume inv: "approval_inv db" and wf: "table_inv db"
  obtain r p where rp: "get_request db tenant i = Some (r, p)"
    using Inr by (auto simp: store_review_def split: option.splits)
  note get = get_request_SomeD [OF rp]
  define s where "s = (if decision = ''approved'' then APPROVED else REJECTED)"
  let ?e = "\<lparr>au_tenant = tenant, au_request = i, au_event = (if decision = ''approved'' then ''approved'' else ''rejected''), au_actor = reviewer\<rparr>"
  have "db' = db \<or> rq_state r = PENDING_REVIEW \<and> db' = audit tenant i (if decision = ''approved'' then ''approved'' else ''rejected'') reviewer
      (put_request i (r\<lparr>rq_state := s, rq_reviewer := Some reviewer, rq_note := Some remark\<rparr>) db)"
    using Inr by (simp only: store_review_def rp option.case prod.case Let_def s_def split: if_splits) auto
  then have "approval_inv db'"
  proof
    assume put: "rq_state r = PENDING_REVIEW \<and> db' = audit tenant i (if decision = ''approved'' then ''approved'' else ''rejected'') reviewer
      (put_request i (r\<lparr>rq_state := s, rq_reviewer := Some reviewer, rq_note := Some remark\<rparr>) db)"
    have "row_approved (wd_audit db) i r" "request_wf r"
      using inv wf get unfolding approval_inv_def table_inv_def by blast+
    then have "attempt_event tenant i \<notin> set (wd_audit db)"
      using put get by (auto simp: row_approved_def request_wf_def)
    with get have "row_approved (wd_audit db @ [?e]) i (r\<lparr>rq_state := s, rq_reviewer := Some reviewer, rq_note := Some remark\<rparr>)"
      by (auto simp: row_approved_def s_def approved_event_def attempt_event_def precedes_snoc precedes_absent)
    then show ?thesis using put approval_inv_put [OF inv] by simp
  qed (simp add: inv)
  then show ?thesis by (simp add: commit_def Inr)
qed (simp add: commit_def)

lemma approval_fail_expired: "approval_inv db \<Longrightarrow> approval_inv (fail_expired dbnow i db)"
  by (auto simp: fail_expired_def split: option.splits intro!: approval_inv_step)

lemma approval_abandon: "approval_inv db \<Longrightarrow> approval_inv (abandon_expired dbnow i db)"
  by (auto simp: abandon_expired_def split: option.splits intro!: approval_inv_step)

lemma approval_lease: "take_lease now dbnow nonce i db = Some (db', r) \<Longrightarrow> approval_inv db \<Longrightarrow> approval_inv db'"
  by (auto simp: take_lease_def Let_def split: option.splits if_splits intro!: approval_inv_step)

lemma approval_claim: "approval_inv db \<Longrightarrow> approval_inv (fst (claim now dbnow nonce i db))"
  by (auto simp: claim_def Let_def approval_fail_expired approval_abandon approval_lease split: option.splits)

lemma approval_finish: "approval_inv db \<Longrightarrow> approval_inv (finish dbnow tenant i nonce outcome db)"
  by (auto simp: finish_def Let_def state_text_def dest!: request_of_SomeD split: option.splits sum.splits intro!: approval_inv_step)

lemma approval_reconcile: "approval_inv db \<Longrightarrow> approval_inv (commit (reconcile_finish dbnow tenant i actor result db) db)"
  by (auto simp: commit_def reconcile_finish_def reconcilable_def dest!: request_of_SomeD split: option.splits intro!: approval_inv_step)

lemma approval_dispatch: "approval_inv db \<Longrightarrow> approval_inv (record_dispatch tenant i call_id db)"
  by (auto simp: record_dispatch_def approval_inv_def row_approved_def dest!: request_of_SomeD split: option.splits)

lemma approval_mark:
  assumes "mark_provider_attempted dbnow tenant i nonce db = Inr db'" "approval_inv db"
  shows "approval_inv db'"
proof -
  obtain r where r: "get_req db i = Some r" "rq_tenant r = tenant" "rq_state r = RUNNING" "rq_phase r = NOT_STARTED"
      "db' = audit tenant i ''provider_attempted'' ''worker''
         (put_request i (r\<lparr>rq_phase := PROVIDER_ATTEMPTED, rq_attempted_at := Some dbnow\<rparr>) db)"
    using assms(1) by (auto simp: mark_provider_attempted_def dest!: request_of_SomeD split: option.splits if_splits)
  have "row_approved (wd_audit db) i r" using assms(2) r(1) by (simp add: approval_inv_def)
  then show ?thesis unfolding r(5) using r(2,3)
    by (intro approval_inv_put [OF assms(2)]) (auto simp: row_approved_def approved_event_def attempt_event_def precedes_snoc)
qed

lemma approval_api: "approval_inv db \<Longrightarrow> table_inv db \<Longrightarrow> approval_inv (run_api now c db)"
  by (cases c) (simp_all add: approval_preview approval_request approval_review approval_reconcile approval_dispatch)

section \<open>Every run keeps it\<close>

lemma fleet_step_approval: "fleet_step f f' \<Longrightarrow> table_inv (fl_db f) \<Longrightarrow> approval_inv (fl_db f) \<Longrightarrow> approval_inv (fl_db f')"
proof (induction rule: fleet_step.induct)
  case (Claim now dbnow nonce i f db' r p)
  then show ?case using approval_claim [of "fl_db f" now dbnow nonce i] by simp
next
  case (Claim_Nothing now dbnow nonce i f db')
  then show ?case using approval_claim [of "fl_db f" now dbnow nonce i] by simp
qed (simp_all add: approval_api approval_mark approval_finish)

lemma fleet_steps_approval: "fleet_steps fleet_init f \<Longrightarrow> approval_inv (fl_db f)"
proof (induction rule: rtranclp_induct)
  case (step g h)
  then show ?case using fleet_step_approval fleet_steps_inv by blast
qed (simp add: fleet_init_def approval_inv_def)

end
