(* ===== verification/Remediation_Props.thy ===== *)
theory Remediation_Props
  imports Remediation_Approval
begin

text \<open>
  The properties of resource writes: the provider is called at most once, on a request a second person
  approved; a grant carries one active write; the history only grows; an approved request can run to
  its end. The concrete run \<open>demo\<close> serves the witnesses.
\<close>

section \<open>A concrete run\<close>

definition demo_preview :: write_preview where
  "demo_preview = \<lparr>pv_tenant = ''t'', pv_org = ''o'', pv_finding = ''f'', pv_grant = ''g'', pv_action = ''a'',
     pv_actor = ''alice'', pv_parameters = PNone, pv_plan = PNone, pv_sha256 = ''h'', pv_expires_at = 100\<rparr>"

definition demo_request :: "request_state \<Rightarrow> request_phase \<Rightarrow> write_request" where
  "demo_request s ph = \<lparr>rq_tenant = ''t'', rq_preview = ''p'', rq_key = ''key-12345'',
     rq_hash = request_hash ''p'' ''alice'' ''why'', rq_justification = ''why'', rq_actor = ''alice'',
     rq_reviewer = Some ''bob'', rq_note = Some ''ok'', rq_state = s, rq_phase = ph, rq_grant = ''g'',
     rq_nonce = None, rq_lease_expires = None, rq_attempted_at = None, rq_result = None, rq_error = None,
     rq_call_id = None\<rparr>"

definition demo_calls :: "api_call list" where
  "demo_calls = [Preview_Call ''p'' demo_preview, Request_Call ''r'' ''t'' ''p'' ''alice'' ''key-12345'' ''why'',
     Review_Call ''t'' ''r'' ''bob'' ''approved'' ''ok'']"

definition demo_db :: write_db where
  "demo_db = fold (run_api 0) demo_calls (fl_db fleet_init)"

lemma demo_key: "key_format ''key-12345''"
  by code_simp

lemma demo_db_simps [simp]:
  "wd_previews demo_db = [(''p'', demo_preview)]"
  "wd_requests demo_db = [(''r'', demo_request APPROVED NOT_STARTED)]"
  by (simp_all add: demo_db_def demo_calls_def fleet_init_def demo_preview_def demo_request_def commit_def
    store_preview_def request_db_def store_request_def store_review_def get_request_def request_of_def
    preview_of_def put_request_def audit_def grant_busy_def demo_key active_state_def Let_def)

definition demo_lease :: "write_request" where
  "demo_lease = (demo_request RUNNING NOT_STARTED)\<lparr>rq_nonce := Some ''n'', rq_lease_expires := Some lease_duration\<rparr>"

lemma api_steps: "fleet_steps f (f\<lparr>fl_db := fold (run_api t) cs (fl_db f)\<rparr>)"
proof (induction cs arbitrary: f)
  case (Cons c cs)
  show ?case using converse_rtranclp_into_rtranclp [OF fleet_step.Api [of f t c] Cons.IH] by simp
qed simp

lemma api_reach: "fleet_steps fleet_init (fleet_init\<lparr>fl_db := fold (run_api t) cs (fl_db fleet_init)\<rparr>)"
  by (rule api_steps)

lemma demo_db_reach: "fleet_steps fleet_init (fleet_init\<lparr>fl_db := demo_db\<rparr>)"
  unfolding demo_db_def by (rule api_reach)

definition demo_worker :: "stage \<Rightarrow> worker" where
  "demo_worker s = \<lparr>wk_nonce = ''n'', wk_tenant = ''t'', wk_request = ''r'', wk_stage = s\<rparr>"

definition demo_claimed :: write_db where "demo_claimed = fst (claim 0 0 ''n'' ''r'' demo_db)"

definition demo_marked :: write_db where
  "demo_marked = commit (mark_provider_attempted 0 ''t'' ''r'' ''n'' demo_claimed) demo_claimed"

definition demo_fleet :: fleet where
  "demo_fleet = \<lparr>fl_db = demo_marked, fl_workers = {#demo_worker CALLED#}, fl_calls = [''r'']\<rparr>"

lemma demo_claim: "claim 0 0 ''n'' ''r'' demo_db = (demo_claimed, Some (demo_lease, demo_preview))"
  "wd_requests demo_claimed = [(''r'', demo_lease)]" "wd_previews demo_claimed = [(''p'', demo_preview)]"
  by (simp_all add: demo_claimed_def claim_def fail_expired_def abandon_expired_def take_lease_def demo_request_def
    preview_over_def preview_after_def demo_preview_def demo_lease_def Let_def get_request_def request_of_def
    preview_of_def audit_def put_request_def)

lemma demo_mark: "mark_provider_attempted 0 ''t'' ''r'' ''n'' demo_claimed = Inr demo_marked"
  by (simp add: demo_marked_def commit_def mark_provider_attempted_def request_of_def demo_claim demo_lease_def
    demo_request_def lease_valid_def lease_duration_def micros_per_minute_def preview_after_def demo_preview_def)

lemma demo_marked_get: "\<exists>r. get_req demo_marked ''r'' = Some r"
  using mark_Inr(4) [OF demo_mark] by blast

lemma demo_run: "fleet_steps (fleet_init\<lparr>fl_db := demo_db\<rparr>) demo_fleet"
proof -
  let ?f = "fleet_init\<lparr>fl_db := demo_db\<rparr>"
  let ?g = "\<lambda>db s. \<lparr>fl_db = db, fl_workers = {#demo_worker s#}, fl_calls = []\<rparr>"
  have "fleet_step ?f (?g demo_claimed CLAIMED)"
    using fleet_step.Claim [of 0 0 "''n''" "''r''" ?f demo_claimed demo_lease demo_preview]
    by (simp add: demo_claim demo_worker_def fleet_init_def demo_lease_def demo_request_def)
  moreover have "fleet_step (?g demo_claimed CLAIMED) (?g demo_marked MARKED)"
    using fleet_step.Mark [of "demo_worker CLAIMED" "?g demo_claimed CLAIMED" 0 demo_marked]
    by (simp add: demo_worker_def demo_mark)
  moreover have "fleet_step (?g demo_marked MARKED) demo_fleet"
    using fleet_step.Call [of "demo_worker MARKED" "?g demo_marked MARKED"]
    by (simp add: demo_worker_def demo_fleet_def)
  ultimately show ?thesis by (meson rtranclp.rtrancl_into_rtrancl rtranclp.rtrancl_refl)
qed

lemma demo_reach: "fleet_steps fleet_init demo_fleet"
  by (rule rtranclp_trans [OF demo_db_reach demo_run])

section \<open>At most one provider call\<close>

text \<open>
  C1. Whatever the interleaving of the workers, their crashes, the clocks and the API calls, the
  provider is called at most once for a request. When it was, the request is running, succeeded or
  left to an operator, its reviewer is a person other than its author, and the audit log records that
  this reviewer approved it before the worker recorded the attempt on the provider.
\<close>

theorem provider_called_once:
  assumes "fleet_steps fleet_init f"
  shows "count_list (fl_calls f) i \<le> 1 \<and>
    (i \<in> set (fl_calls f) \<longrightarrow> (\<exists>r v before between after. get_req (fl_db f) i = Some r \<and> rq_phase r \<noteq> NOT_STARTED
       \<and> rq_state r \<in> {RUNNING, SUCCEEDED, NEEDS_MANUAL_RESOLUTION}
       \<and> rq_reviewer r = Some v \<and> v \<noteq> rq_actor r
       \<and> wd_audit (fl_db f) = before
           @ \<lparr>au_tenant = rq_tenant r, au_request = i, au_event = ''approved'', au_actor = v\<rparr> # between
           @ \<lparr>au_tenant = rq_tenant r, au_request = i, au_event = ''provider_attempted'', au_actor = ''worker''\<rparr> # after))"
proof (intro conjI impI)
  have once: "once f i" by (rule fleet_steps_once [OF assms])
  then show "count_list (fl_calls f) i \<le> 1" by (auto simp: once_def calls_due_def)
  assume "i \<in> set (fl_calls f)"
  then have "calls_due f i \<noteq> 0" by (simp add: calls_due_def count_list_0_iff)
  with once obtain r where r: "get_req (fl_db f) i = Some r" "rq_phase r \<noteq> NOT_STARTED"
      "attempt_event (rq_tenant r) i \<in> set (wd_audit (fl_db f))"
    by (auto simp: once_def attempt_recorded_def)
  have "request_wf r" using fleet_steps_inv [OF assms] r(1) by (auto simp: table_inv_def)
  with r(2) have state: "rq_state r \<in> {RUNNING, SUCCEEDED, NEEDS_MANUAL_RESOLUTION}"
    by (cases "rq_state r") (auto simp: request_wf_def)
  have "row_approved (wd_audit (fl_db f)) i r" using fleet_steps_approval [OF assms] r(1) by (simp add: approval_inv_def)
  with state obtain v where v: "rq_reviewer r = Some v"
      "precedes (approved_event (rq_tenant r) i v) (attempt_event (rq_tenant r) i) (wd_audit (fl_db f))"
    by (auto simp: row_approved_def)
  have "v \<noteq> rq_actor r" using \<open>request_wf r\<close> v(1) by (cases "rq_state r = PENDING_REVIEW") (auto simp: request_wf_def)
  moreover obtain pre between post where "wd_audit (fl_db f) =
      pre @ approved_event (rq_tenant r) i v # between @ attempt_event (rq_tenant r) i # post"
    using precedes_split [OF v(2) r(3)] by blast
  ultimately show "\<exists>r v before between after. get_req (fl_db f) i = Some r \<and> rq_phase r \<noteq> NOT_STARTED
       \<and> rq_state r \<in> {RUNNING, SUCCEEDED, NEEDS_MANUAL_RESOLUTION} \<and> rq_reviewer r = Some v \<and> v \<noteq> rq_actor r
       \<and> wd_audit (fl_db f) = before
           @ \<lparr>au_tenant = rq_tenant r, au_request = i, au_event = ''approved'', au_actor = v\<rparr> # between
           @ \<lparr>au_tenant = rq_tenant r, au_request = i, au_event = ''provider_attempted'', au_actor = ''worker''\<rparr> # after"
    unfolding approved_event_def attempt_event_def using r(1,2) state v(1) by blast
qed

theorem provider_called_once_witness:
  "fleet_steps fleet_init demo_fleet \<and> count_list (fl_calls demo_fleet) ''r'' = 1 \<and>
   (\<exists>r v. get_req (fl_db demo_fleet) ''r'' = Some r \<and> rq_reviewer r = Some v \<and> v \<noteq> rq_actor r \<and>
      \<lparr>au_tenant = rq_tenant r, au_request = ''r'', au_event = ''approved'', au_actor = v\<rparr> \<in> set (wd_audit (fl_db demo_fleet)))"
proof -
  have call: "''r'' \<in> set (fl_calls demo_fleet)" "count_list (fl_calls demo_fleet) ''r'' = 1" by (simp_all add: demo_fleet_def)
  obtain r v before between after where "get_req (fl_db demo_fleet) ''r'' = Some r" "rq_reviewer r = Some v" "v \<noteq> rq_actor r"
      "wd_audit (fl_db demo_fleet) = before
         @ \<lparr>au_tenant = rq_tenant r, au_request = ''r'', au_event = ''approved'', au_actor = v\<rparr> # between
         @ \<lparr>au_tenant = rq_tenant r, au_request = ''r'', au_event = ''provider_attempted'', au_actor = ''worker''\<rparr> # after"
    using provider_called_once [OF demo_reach, of "''r''"] call(1) by blast
  then show ?thesis using demo_reach call(2) by simp
qed

section \<open>One active write per grant\<close>

text \<open>
  C23. In every reachable state, a grant of a tenant has at most one request that is approved, running
  or awaiting manual resolution.
\<close>

theorem one_active_write:
  assumes "fleet_steps fleet_init f"
    and "get_req (fl_db f) i = Some r" "get_req (fl_db f) j = Some s"
    and "rq_tenant r = rq_tenant s" "rq_grant r = rq_grant s"
    and "active_state (rq_state r)" "active_state (rq_state s)"
  shows "i = j"
  using fleet_steps_inv [OF assms(1)] assms(2-) unfolding table_inv_def by metis

theorem one_active_write_witness:
  "get_req (fl_db (fleet_init\<lparr>fl_db := demo_db\<rparr>)) ''r'' = Some (demo_request APPROVED NOT_STARTED) \<and> ''r'' = ''r''"
  using one_active_write [OF demo_db_reach, of "''r''" "demo_request APPROVED NOT_STARTED" "''r''"
    "demo_request APPROVED NOT_STARTED"]
  by (simp add: demo_request_def)

section \<open>The store refines the life cycle of a request\<close>

text \<open>
  C19. Every step of the fleet is, on each request, a sequence of steps of its life cycle
  (\<open>request_step\<close>): the row stays with the same tenant, preview, key, author, justification and
  grant, a new row starts in review, previews never change and the audit log only grows. So the store
  with its workers implements the life cycle of each request.
\<close>

theorem fleet_refines_lifecycle:
  assumes "fleet_steps f f'"
  shows "(\<forall>i r. get_req (fl_db f) i = Some r \<longrightarrow>
       (\<exists>r'. get_req (fl_db f') i = Some r' \<and> request_steps r r' \<and> request_identity r' = request_identity r))
     \<and> (\<forall>i r'. get_req (fl_db f) i = None \<longrightarrow> get_req (fl_db f') i = Some r' \<longrightarrow>
       (\<exists>r. fresh_request r \<and> request_steps r r'))
     \<and> (\<forall>i p. get_pv (fl_db f) i = Some p \<longrightarrow> get_pv (fl_db f') i = Some p)
     \<and> prefix (wd_audit (fl_db f)) (wd_audit (fl_db f'))"
  using fleet_steps_db [OF assms] request_steps_identity unfolding table_step_def by meson

theorem fleet_refines_lifecycle_witness:
  "\<exists>r'. get_req (fl_db demo_fleet) ''r'' = Some r' \<and> (\<exists>r. fresh_request r \<and> request_steps r r')"
proof -
  have "\<exists>r'. get_req (fl_db demo_fleet) ''r'' = Some r'"
    by (simp add: demo_fleet_def demo_marked_get)
  moreover have "get_req (fl_db fleet_init) ''r'' = None" by (simp add: fleet_init_def)
  ultimately show ?thesis using fleet_refines_lifecycle [OF demo_reach] by blast
qed

section \<open>Final states and unresolved requests\<close>

text \<open>
  C27. Nothing that happens later changes the outcome of a request that was rejected, failed or
  succeeded; and a request whose worker was lost before it called the provider awaits an operator
  for ever, so its grant never carries another approved or running request.
\<close>

theorem outcome_is_final:
  assumes "fleet_steps fleet_init f" "fleet_steps f f'" and "get_req (fl_db f) i = Some r"
  shows "\<exists>r'. get_req (fl_db f') i = Some r'
    \<and> (final_state (rq_state r) \<longrightarrow> rq_state r' = rq_state r \<and> rq_result r' = rq_result r)
    \<and> (rq_state r = NEEDS_MANUAL_RESOLUTION \<and> rq_phase r = NOT_STARTED \<longrightarrow>
         rq_state r' = NEEDS_MANUAL_RESOLUTION
         \<and> (\<forall>j s. get_req (fl_db f') j = Some s \<longrightarrow> rq_tenant s = rq_tenant r \<longrightarrow> rq_grant s = rq_grant r \<longrightarrow>
              active_state (rq_state s) \<longrightarrow> j = i))"
proof -
  have wf: "request_wf r" using fleet_steps_inv [OF assms(1)] assms(3) by (auto simp: table_inv_def)
  obtain r' where r': "get_req (fl_db f') i = Some r'" "request_steps r r'"
    using fleet_steps_db [OF assms(2)] assms(3) unfolding table_step_def by blast
  have own: "rq_tenant r' = rq_tenant r" "rq_grant r' = rq_grant r"
    using request_steps_identity [OF r'(2)] by (simp_all add: request_identity_def)
  have inv: "table_inv (fl_db f')" using fleet_steps_inv [OF rtranclp_trans [OF assms(1,2)]] .
  have "j = i" if "rq_state r' = NEEDS_MANUAL_RESOLUTION" "get_req (fl_db f') j = Some s"
      "rq_tenant s = rq_tenant r" "rq_grant s = rq_grant r" "active_state (rq_state s)" for j s
    using inv that r'(1) own unfolding table_inv_def by (metis active_running(3))
  then show ?thesis
    using r' request_steps_final [OF r'(2) wf] request_steps_stuck [OF r'(2)] by blast
qed

text \<open>A rejected request, which a third person tries to approve afterwards.\<close>

definition demo_rejected :: write_db where
  "demo_rejected = fold (run_api 0) [Preview_Call ''p'' demo_preview, Request_Call ''r'' ''t'' ''p'' ''alice'' ''key-12345'' ''why'',
     Review_Call ''t'' ''r'' ''bob'' ''rejected'' ''ok''] (fl_db fleet_init)"

lemma demo_rejected_request: "wd_requests demo_rejected = [(''r'', demo_request REJECTED NOT_STARTED)]"
  by (simp add: demo_rejected_def fleet_init_def demo_preview_def demo_request_def commit_def
    store_preview_def request_db_def store_request_def store_review_def get_request_def request_of_def
    preview_of_def put_request_def audit_def grant_busy_def demo_key active_state_def Let_def)

theorem outcome_is_final_witness:
  "\<exists>r'. get_req (run_api 1 (Review_Call ''t'' ''r'' ''carol'' ''approved'' ''fine'') demo_rejected) ''r'' = Some r' \<and>
     rq_state r' = REJECTED \<and> rq_result r' = None"
proof -
  let ?f = "fleet_init\<lparr>fl_db := demo_rejected\<rparr>"
  have "fleet_steps fleet_init ?f" unfolding demo_rejected_def by (rule api_reach)
  moreover have "fleet_steps ?f (?f\<lparr>fl_db := run_api 1 (Review_Call ''t'' ''r'' ''carol'' ''approved'' ''fine'') (fl_db ?f)\<rparr>)"
    by (rule r_into_rtranclp) (rule fleet_step.Api)
  moreover have "get_req (fl_db ?f) ''r'' = Some (demo_request REJECTED NOT_STARTED)" by (simp add: demo_rejected_request)
  ultimately show ?thesis
    using outcome_is_final [of ?f _ "''r''" "demo_request REJECTED NOT_STARTED"]
    by (fastforce simp: demo_request_def final_state_def)
qed

section \<open>An approved request can run to its end\<close>

text \<open>
  C24. While its preview has not expired, an approved request is claimed by a worker, its attempt is
  recorded, and, if the provider answers before the lease is over, it ends as succeeded with
  the provider's result.
\<close>

theorem approved_request_completes:
  assumes "table_inv db" and "get_req db i = Some r" "rq_state r = APPROVED"
    and "get_pv db (rq_preview r) = Some p" "pv_tenant p = rq_tenant r"
    and "t1 < pv_expires_at p" "t2 < pv_expires_at p"
    and "t2 < now + lease_duration" "t3 < now + lease_duration"
  shows "\<exists>db1 r1 db2 r2. claim now t1 nonce i db = (db1, Some (r1, p))
    \<and> mark_provider_attempted t2 (rq_tenant r) i nonce db1 = Inr db2
    \<and> get_req (finish t3 (rq_tenant r) i nonce (Inr x) db2) i = Some r2
    \<and> rq_state r2 = SUCCEEDED \<and> rq_phase r2 = FINISHED \<and> rq_result r2 = Some x"
proof -
  have phase: "rq_phase r = NOT_STARTED"
    using assms(1-3) unfolding table_inv_def request_wf_def by auto
  obtain db1 where c: "claim now t1 nonce i db = (db1, Some (leased_request now nonce r, p))"
      "get_req db1 i = Some (leased_request now nonce r)" "wd_previews db1 = wd_previews db"
    using claim_approved [OF assms(2,3) phase assms(4-6)] by blast
  obtain db2 where m: "mark_provider_attempted t2 (rq_tenant r) i nonce db1 = Inr db2"
      "get_req db2 i = Some ((leased_request now nonce r)\<lparr>rq_phase := PROVIDER_ATTEMPTED, rq_attempted_at := Some t2\<rparr>)"
    using mark_leased [OF c(2), of nonce p t2 "now + lease_duration"] phase assms(4,7,8) c(3) by auto
  have "get_req (finish t3 (rq_tenant r) i nonce (Inr x) db2) i = Some ((leased_request now nonce r)
      \<lparr>rq_phase := PROVIDER_ATTEMPTED, rq_attempted_at := Some t2, rq_state := SUCCEEDED, rq_phase := FINISHED,
        rq_result := Some x, rq_error := None\<rparr>)"
    using assms(9) by (simp add: finish_def request_of_def m lease_valid_def Let_def)
  then show ?thesis using c(1) m(1) by (intro exI conjI) (assumption | simp)+
qed

theorem approved_request_completes_witness:
  "\<exists>db1 r1 db2 r2. claim 0 5 ''n'' ''r'' demo_db = (db1, Some (r1, demo_preview))
    \<and> mark_provider_attempted 6 ''t'' ''r'' ''n'' db1 = Inr db2
    \<and> get_req (finish 7 ''t'' ''r'' ''n'' (Inr PNone) db2) ''r'' = Some r2 \<and> rq_state r2 = SUCCEEDED
    \<and> rq_phase r2 = FINISHED \<and> rq_result r2 = Some PNone"
proof -
  have "table_inv demo_db" using fleet_steps_inv [OF demo_db_reach] by simp
  then show ?thesis
    using approved_request_completes [of demo_db "''r''" "demo_request APPROVED NOT_STARTED" demo_preview
      5 6 0 7 "''n''" PNone]
    by (simp add: demo_request_def demo_preview_def lease_duration_def micros_per_minute_def)
qed

end
