(* ===== verification/Iam_Match.thy ===== *)
theory Iam_Match
  imports Prelude "HOL-Library.While_Combinator"
begin

text \<open>
  \<open>_iam_resource_matches\<close> of \<open>src/denali/resource_writes/templates.py\<close>: the backtracking loop of the
  wildcard match, its termination within a polynomial number of iterations, and its equivalence with
  the reading of an IAM pattern (\<open>iam_glob\<close>).
\<close>

section \<open>The loop\<close>

text \<open>\<open>star < 0\<close> is \<open>None\<close>; \<open>failed\<close> is the early \<open>return False\<close>.\<close>

record iam_state =
  im_item :: nat
  im_token :: nat
  im_star :: "nat option"
  im_star_item :: nat
  im_failed :: bool

abbreviation wild_star :: char where "wild_star \<equiv> CHR ''*''"
abbreviation wild_one :: char where "wild_one \<equiv> CHR ''?''"

definition iam_init :: iam_state where
  "iam_init = \<lparr>im_item = 0, im_token = 0, im_star = None, im_star_item = 0, im_failed = False\<rparr>"

definition iam_more :: "string \<Rightarrow> iam_state \<Rightarrow> bool" where
  "iam_more v s \<longleftrightarrow> im_item s < length v \<and> \<not> im_failed s"

definition iam_step :: "string \<Rightarrow> string \<Rightarrow> iam_state \<Rightarrow> iam_state" where
  "iam_step v p s =
     (let item = im_item s; token = im_token s in
      if token < length p \<and> (p ! token = wild_one \<or> p ! token \<noteq> wild_star \<and> p ! token = v ! item)
        then s\<lparr>im_item := item + 1, im_token := token + 1\<rparr>
      else if token < length p \<and> p ! token = wild_star
        then s\<lparr>im_star := Some token, im_star_item := item, im_token := token + 1\<rparr>
      else case im_star s of
          Some star \<Rightarrow> s\<lparr>im_star_item := im_star_item s + 1, im_item := im_star_item s + 1, im_token := star + 1\<rparr>
        | None \<Rightarrow> s\<lparr>im_failed := True\<rparr>)"

definition iam_resource_matches :: "string \<Rightarrow> string \<Rightarrow> bool option" where
  "iam_resource_matches v p =
     map_option (\<lambda>s. \<not> im_failed s \<and> list_all (\<lambda>c. c = wild_star) (drop (im_token s) p))
       (while_option (iam_more v) (iam_step v p) iam_init)"

section \<open>The reading of a pattern\<close>

fun iam_glob :: "string \<Rightarrow> string \<Rightarrow> bool" where
  "iam_glob v [] = (v = [])"
| "iam_glob v (c # p) =
     (if c = wild_star then list_ex (\<lambda>k. iam_glob (drop k v) p) [0..<Suc (length v)]
      else case v of [] \<Rightarrow> False | x # xs \<Rightarrow> (c = wild_one \<or> c = x) \<and> iam_glob xs p)"

lemma iam_glob_star: "iam_glob v (wild_star # p) \<longleftrightarrow> (\<exists>k \<le> length v. iam_glob (drop k v) p)"
  by (simp add: list_ex_iff Bex_def less_Suc_eq_le del: upt_Suc)

lemma iam_glob_Nil: "iam_glob [] p \<longleftrightarrow> list_all (\<lambda>c. c = wild_star) p"
  by (induction p) auto

text \<open>A stretch without \<open>*\<close> consumes as many characters as it has.\<close>

definition char_ok :: "char \<Rightarrow> char \<Rightarrow> bool" where
  "char_ok x c \<longleftrightarrow> c \<noteq> wild_star \<and> (c = wild_one \<or> c = x)"

lemma iam_glob_stretch: "list_all2 char_ok xs q \<Longrightarrow> iam_glob (xs @ v) (q @ p) = iam_glob v p"
  by (induction xs q rule: list_all2_induct) (auto simp: char_ok_def)

lemma iam_glob_stretchD:
  "\<forall>c \<in> set q. c \<noteq> wild_star \<Longrightarrow> iam_glob v (q @ p) \<Longrightarrow> length q \<le> length v \<and> iam_glob (drop (length q) v) p"
proof (induction q arbitrary: v)
  case (Cons c q)
  then show ?case by (cases v) auto
qed simp

section \<open>The invariant of the loop\<close>

definition iam_inv :: "string \<Rightarrow> string \<Rightarrow> iam_state \<Rightarrow> bool" where
  "iam_inv v p s \<longleftrightarrow> im_item s \<le> length v \<and> im_token s \<le> length p \<and>
     (if im_failed s then \<not> iam_glob v p
      else case im_star s of
          None \<Rightarrow> im_star_item s = 0 \<and> iam_glob v p = iam_glob (drop (im_item s) v) (drop (im_token s) p)
        | Some k \<Rightarrow> im_star_item s \<le> im_item s \<and> k < im_token s
            \<and> im_token s - Suc k = im_item s - im_star_item s
            \<and> list_all2 char_ok (take (im_item s - im_star_item s) (drop (im_star_item s) v))
                (take (im_item s - im_star_item s) (drop (Suc k) p))
            \<and> iam_glob v p = (\<exists>j. im_star_item s \<le> j \<and> j \<le> length v \<and> iam_glob (drop j v) (drop (Suc k) p)))"

lemma iam_inv_init: "iam_inv v p iam_init"
  by (simp add: iam_inv_def iam_init_def)

lemma drop_take_drop: "a \<le> b \<Longrightarrow> drop a xs = take (b - a) (drop a xs) @ drop b xs"
  by (metis append_take_drop_id drop_drop le_add_diff_inverse2)

text \<open>At the last star, a match from the remembered position is a match from the current one.\<close>

lemma iam_inv_here:
  assumes "iam_inv v p s" "\<not> im_failed s" "im_star s = Some k"
  shows "iam_glob (drop (im_star_item s) v) (drop (Suc k) p) = iam_glob (drop (im_item s) v) (drop (im_token s) p)"
proof -
  let ?d = "im_item s - im_star_item s"
  have "drop (im_star_item s) v = take ?d (drop (im_star_item s) v) @ drop (im_item s) v"
    using assms by (intro drop_take_drop) (simp add: iam_inv_def)
  moreover have "drop (Suc k) p = take ?d (drop (Suc k) p) @ drop (im_token s) p"
    using assms drop_take_drop [of "Suc k" "im_token s" p] by (simp add: iam_inv_def)
  ultimately show ?thesis
    using assms iam_glob_stretch [of "take ?d (drop (im_star_item s) v)" "take ?d (drop (Suc k) p)"]
    by (simp add: iam_inv_def) metis
qed

lemma iam_inv_later:
  assumes "iam_inv v p s" "\<not> im_failed s" "im_star s = Some k"
    and "im_star_item s \<le> j" "j \<le> length v" "iam_glob (drop j v) (drop (Suc k) p)"
  shows "\<exists>i. im_item s \<le> i \<and> i \<le> length v \<and> iam_glob (drop i v) (drop (im_token s) p)"
proof -
  let ?d = "im_item s - im_star_item s" let ?q = "take ?d (drop (Suc k) p)"
  have eq: "drop (Suc k) p = ?q @ drop (im_token s) p"
    using assms drop_take_drop [of "Suc k" "im_token s" p] by (simp add: iam_inv_def)
  have free: "\<forall>c \<in> set ?q. c \<noteq> wild_star"
    using assms(1-3) by (auto simp: iam_inv_def list_all2_conv_all_nth set_conv_nth char_ok_def)
  have len: "length ?q = ?d" using assms(1-3) by (auto simp: iam_inv_def)
  have "length ?q \<le> length (drop j v) \<and> iam_glob (drop (length ?q) (drop j v)) (drop (im_token s) p)"
    using iam_glob_stretchD [OF free] assms(6) eq by metis
  then have "?d \<le> length v - j" "iam_glob (drop (?d + j) v) (drop (im_token s) p)"
    by (simp_all only: len length_drop drop_drop)
  moreover have "im_item s \<le> ?d + j" using assms(1-4) by (auto simp: iam_inv_def)
  ultimately show ?thesis using assms(5) by (intro exI [of _ "?d + j"]) auto
qed

text \<open>The four branches of the body.\<close>

lemma iam_step_cases:
  assumes "iam_more v s"
  obtains (consume) "im_token s < length p" "char_ok (v ! im_item s) (p ! im_token s)"
      "iam_step v p s = s\<lparr>im_item := im_item s + 1, im_token := im_token s + 1\<rparr>"
  | (star) "im_token s < length p" "p ! im_token s = wild_star"
      "iam_step v p s = s\<lparr>im_star := Some (im_token s), im_star_item := im_item s, im_token := im_token s + 1\<rparr>"
  | (backtrack) k where "im_star s = Some k"
      "im_token s < length p \<longrightarrow> p ! im_token s \<noteq> wild_star \<and> \<not> char_ok (v ! im_item s) (p ! im_token s)"
      "iam_step v p s = s\<lparr>im_star_item := im_star_item s + 1, im_item := im_star_item s + 1, im_token := k + 1\<rparr>"
  | (stop) "im_star s = None"
      "im_token s < length p \<longrightarrow> p ! im_token s \<noteq> wild_star \<and> \<not> char_ok (v ! im_item s) (p ! im_token s)"
      "iam_step v p s = s\<lparr>im_failed := True\<rparr>"
  by (cases "im_token s < length p"; cases "im_star s"; cases "p ! im_token s = wild_star";
      cases "char_ok (v ! im_item s) (p ! im_token s)")
    (auto simp: iam_step_def char_ok_def Let_def)

lemma iam_mismatch:
  assumes "i < length v" "t < length p \<longrightarrow> p ! t \<noteq> wild_star \<and> \<not> char_ok (v ! i) (p ! t)" "t \<le> length p"
  shows "\<not> iam_glob (drop i v) (drop t p)"
proof (cases "t < length p")
  case True
  then show ?thesis using assms by (auto simp: Cons_nth_drop_Suc [symmetric] char_ok_def)
next
  case False
  then show ?thesis using assms by simp
qed

lemma iam_step_inv:
  assumes "iam_inv v p s" "iam_more v s"
  shows "iam_inv v p (iam_step v p s)"
  using assms(2)
proof (cases rule: iam_step_cases [where p = p])
  case consume
  have item: "im_item s < length v" "\<not> im_failed s" using assms(2) by (simp_all add: iam_more_def)
  have glob: "iam_glob (drop (im_item s) v) (drop (im_token s) p)
      = iam_glob (drop (Suc (im_item s)) v) (drop (Suc (im_token s)) p)"
    using consume item by (simp add: Cons_nth_drop_Suc [symmetric] char_ok_def)
  show ?thesis
  proof (cases "im_star s")
    case None
    then show ?thesis using assms(1) consume item glob by (simp add: iam_inv_def)
  next
    case (Some k)
    define d where "d = im_item s - im_star_item s"
    note inv = assms(1) [unfolded iam_inv_def, simplified item(2) Some if_False option.case, folded d_def]
    have d: "Suc (im_item s) - im_star_item s = Suc d" "Suc (im_token s) - Suc k = Suc d"
        "im_star_item s + d = im_item s" "Suc k + d = im_token s"
      using inv by (auto simp: d_def)
    have "list_all2 char_ok (take (Suc d) (drop (im_star_item s) v)) (take (Suc d) (drop (Suc k) p))"
      using inv consume item d by (simp add: take_Suc_conv_app_nth list_all2_appendI)
    then show ?thesis using inv consume item Some d by (simp add: iam_inv_def)
  qed
next
  case star
  have item: "im_item s < length v" "\<not> im_failed s" using assms(2) by (simp_all add: iam_more_def)
  have here: "iam_glob (drop (im_item s) v) (drop (im_token s) p)
      \<longleftrightarrow> (\<exists>j. im_item s \<le> j \<and> j \<le> length v \<and> iam_glob (drop j v) (drop (Suc (im_token s)) p))"
    (is "_ \<longleftrightarrow> ?later")
  proof -
    have "drop (im_token s) p = wild_star # drop (Suc (im_token s)) p"
      using star by (simp add: Cons_nth_drop_Suc [symmetric])
    then have "iam_glob (drop (im_item s) v) (drop (im_token s) p) \<longleftrightarrow>
        (\<exists>k \<le> length v - im_item s. iam_glob (drop (k + im_item s) v) (drop (Suc (im_token s)) p))"
      by (simp only: iam_glob_star length_drop drop_drop)
    also have "\<dots> \<longleftrightarrow> ?later"
    proof
      assume "\<exists>k \<le> length v - im_item s. iam_glob (drop (k + im_item s) v) (drop (Suc (im_token s)) p)"
      then obtain k where "k \<le> length v - im_item s" "iam_glob (drop (k + im_item s) v) (drop (Suc (im_token s)) p)"
        by blast
      then show ?later using item by (intro exI [of _ "k + im_item s"]) auto
    next
      assume ?later
      then obtain j where "im_item s \<le> j" "j \<le> length v" "iam_glob (drop j v) (drop (Suc (im_token s)) p)"
        by blast
      then show "\<exists>k \<le> length v - im_item s. iam_glob (drop (k + im_item s) v) (drop (Suc (im_token s)) p)"
        by (intro exI [of _ "j - im_item s"]) auto
    qed
    finally show ?thesis .
  qed
  have "iam_glob v p \<longleftrightarrow> ?later"
  proof (cases "im_star s")
    case None
    then show ?thesis using assms(1) item here by (simp add: iam_inv_def)
  next
    case (Some k)
    have whole: "iam_glob v p = (\<exists>j. im_star_item s \<le> j \<and> j \<le> length v \<and> iam_glob (drop j v) (drop (Suc k) p))"
      using assms(1) item Some by (simp add: iam_inv_def)
    show ?thesis
    proof
      assume "iam_glob v p"
      then obtain i where i: "im_item s \<le> i" "i \<le> length v" "iam_glob (drop i v) (drop (im_token s) p)"
        using iam_inv_later [OF assms(1) item(2) Some] whole by blast
      have "drop (im_token s) p = wild_star # drop (Suc (im_token s)) p"
        using star by (simp add: Cons_nth_drop_Suc [symmetric])
      then obtain m where "m \<le> length v - i" "iam_glob (drop (m + i) v) (drop (Suc (im_token s)) p)"
        using i(3) by (simp only: iam_glob_star length_drop drop_drop) blast
      then show ?later using i by (intro exI [of _ "m + i"]) auto
    next
      assume ?later
      then have "iam_glob (drop (im_star_item s) v) (drop (Suc k) p)"
        using here iam_inv_here [OF assms(1) item(2) Some] by blast
      moreover have "im_star_item s \<le> length v"
        using assms(1) item Some by (auto simp: iam_inv_def)
      ultimately show "iam_glob v p" unfolding whole by blast
    qed
  qed
  then show ?thesis using star item assms(1) by (simp add: iam_inv_def)
next
  case (backtrack k)
  have item: "im_item s < length v" "\<not> im_failed s" using assms(2) by (simp_all add: iam_more_def)
  note inv = assms(1) [unfolded iam_inv_def, simplified item(2) backtrack(1) if_False option.case]
  have "\<not> iam_glob (drop (im_star_item s) v) (drop (Suc k) p)"
    using iam_inv_here [OF assms(1) item(2) backtrack(1)] iam_mismatch [OF item(1) backtrack(2)] inv by blast
  then have "iam_glob v p = (\<exists>j. Suc (im_star_item s) \<le> j \<and> j \<le> length v \<and> iam_glob (drop j v) (drop (Suc k) p))"
    using inv by (metis Suc_le_eq order_le_less)
  then show ?thesis using backtrack item inv by (simp add: iam_inv_def)
next
  case stop
  have item: "im_item s < length v" "\<not> im_failed s" using assms(2) by (simp_all add: iam_more_def)
  have "\<not> iam_glob v p"
    using assms(1) iam_mismatch [OF item(1) stop(2)] stop item by (simp add: iam_inv_def)
  then show ?thesis using stop assms(1) by (simp add: iam_inv_def)
qed

section \<open>Termination and the answer\<close>

text \<open>
  The star only moves right, then the position it is retried from, then the item: the number of
  iterations is at most \<open>(length p + 1) * (length v + 1) ^ 2\<close>.
\<close>

definition digits3 :: "nat \<Rightarrow> nat \<Rightarrow> nat \<Rightarrow> nat \<Rightarrow> nat" where
  "digits3 n a b c = a * (n + 1)\<^sup>2 + b * (n + 1) + c"

lemma digits3_third: "c' < c \<Longrightarrow> digits3 n a b c' < digits3 n a b c"
  by (simp add: digits3_def)

lemma digits3_second:
  assumes "b' < b" "c' \<le> n"
  shows "digits3 n a b' c' < digits3 n a b c"
proof -
  have "b' * (n + 1) + c' < (b' + 1) * (n + 1)" using assms(2) by simp
  also have "\<dots> \<le> b * (n + 1)" using assms(1) by (intro mult_le_mono1) simp
  finally show ?thesis by (simp add: digits3_def)
qed

lemma digits3_first:
  assumes "a' < a" "b' \<le> n" "c' \<le> n"
  shows "digits3 n a' b' c' < digits3 n a b c"
proof -
  have "b' * (n + 1) + c' \<le> n * (n + 1) + n"
    using assms(2,3) by (intro add_mono mult_le_mono1) auto
  also have "\<dots> < (n + 1)\<^sup>2" by (simp add: power2_eq_square)
  finally have "a' * (n + 1)\<^sup>2 + (b' * (n + 1) + c') < (a' + 1) * (n + 1)\<^sup>2" by simp
  also have "\<dots> \<le> a * (n + 1)\<^sup>2" using assms(1) by (intro mult_le_mono1) simp
  finally show ?thesis by (simp add: digits3_def)
qed

definition iam_measure :: "string \<Rightarrow> string \<Rightarrow> iam_state \<Rightarrow> nat" where
  "iam_measure v p s = (if im_failed s then 0 else Suc (digits3 (length v)
     (length p - (case im_star s of None \<Rightarrow> 0 | Some k \<Rightarrow> Suc k)) (length v - im_star_item s) (length v - im_item s)))"

lemma iam_measure_init: "iam_measure v p iam_init \<le> (length p + 1) * (length v + 1)\<^sup>2"
proof -
  have "digits3 (length v) (length p) (length v) (length v) < digits3 (length v) (length p + 1) 0 0"
    by (rule digits3_first) simp_all
  then show ?thesis by (simp add: iam_measure_def iam_init_def digits3_def)
qed

lemma iam_step_measure:
  assumes "iam_inv v p s" "iam_more v s"
  shows "iam_measure v p (iam_step v p s) < iam_measure v p s"
  using assms(2)
proof (cases rule: iam_step_cases [where p = p])
  case consume
  then show ?thesis using assms(2) by (auto simp: iam_measure_def iam_more_def intro: digits3_third)
next
  case star
  have "length p - Suc (im_token s) < length p - (case im_star s of None \<Rightarrow> 0 | Some k \<Rightarrow> Suc k)"
    using assms star(1) by (auto simp: iam_inv_def iam_more_def split: option.splits)
  then show ?thesis using assms(2) star(3) by (auto simp: iam_measure_def iam_more_def intro: digits3_first)
next
  case (backtrack k)
  have "length v - Suc (im_star_item s) < length v - im_star_item s"
    using assms backtrack(1) by (auto simp: iam_inv_def iam_more_def)
  then show ?thesis using assms(2) backtrack(1,3) by (auto simp: iam_measure_def iam_more_def intro: digits3_second)
next
  case stop
  then show ?thesis using assms(2) by (simp add: iam_measure_def iam_more_def)
qed

lemma iam_while:
  "\<exists>s. while_option (iam_more v) (iam_step v p) iam_init = Some s \<and> iam_inv v p s \<and> \<not> iam_more v s"
proof -
  obtain s where s: "while_option (iam_more v) (iam_step v p) iam_init = Some s"
    using measure_while_option_Some [of "iam_inv v p" "iam_more v" "iam_step v p" "iam_measure v p" iam_init]
      iam_step_inv iam_step_measure iam_inv_init by blast
  moreover have "iam_inv v p s"
    using while_option_rule [OF _ s, of "iam_inv v p"] iam_step_inv iam_inv_init by blast
  ultimately show ?thesis using while_option_stop [OF s] by blast
qed

lemma iam_answer:
  assumes "iam_inv v p s" "\<not> iam_more v s"
  shows "(\<not> im_failed s \<and> list_all (\<lambda>c. c = wild_star) (drop (im_token s) p)) = iam_glob v p"
proof (cases "im_failed s")
  case True
  then show ?thesis using assms(1) by (simp add: iam_inv_def)
next
  case False
  then have item: "im_item s = length v" using assms by (simp add: iam_inv_def iam_more_def)
  have end_: "iam_glob (drop (im_item s) v) (drop (im_token s) p) = list_all (\<lambda>c. c = wild_star) (drop (im_token s) p)"
    by (simp add: item iam_glob_Nil)
  show ?thesis
  proof (cases "im_star s")
    case None
    then show ?thesis using assms(1) False end_ by (simp add: iam_inv_def)
  next
    case (Some k)
    have whole: "iam_glob v p = (\<exists>j. im_star_item s \<le> j \<and> j \<le> length v \<and> iam_glob (drop j v) (drop (Suc k) p))"
      using assms(1) False Some by (simp add: iam_inv_def)
    have "iam_glob v p \<Longrightarrow> iam_glob (drop (im_item s) v) (drop (im_token s) p)"
      using iam_inv_later [OF assms(1) False Some] whole item by (metis le_antisym)
    moreover have "iam_glob (drop (im_item s) v) (drop (im_token s) p) \<Longrightarrow> iam_glob v p"
      using iam_inv_here [OF assms(1) False Some] whole assms(1) False Some item
      by (auto simp: iam_inv_def)
    ultimately show ?thesis using False end_ by blast
  qed
qed

lemma iam_matches_Some: "iam_resource_matches v p = Some (iam_glob v p)"
  using iam_while [of v p] iam_answer by (auto simp: iam_resource_matches_def)

text \<open>A loop with a decreasing measure stops within that many iterations.\<close>

lemma iterations_bound:
  fixes f :: "'s \<Rightarrow> nat"
  assumes "\<And>s. P s \<Longrightarrow> b s \<Longrightarrow> P (c s) \<and> f (c s) < f s" "P s"
  shows "\<exists>k \<le> f s. \<not> b ((c ^^ k) s)"
  using assms(2)
proof (induction "f s" arbitrary: s rule: less_induct)
  case less
  show ?case
  proof (cases "b s")
    case True
    then have "P (c s)" "f (c s) < f s" using assms(1) less.prems by blast+
    then obtain k where "k \<le> f (c s)" "\<not> b ((c ^^ k) (c s))" using less.hyps by blast
    then show ?thesis using \<open>f (c s) < f s\<close> by (intro exI [of _ "Suc k"]) (auto simp: funpow_swap1)
  next
    case False
    then show ?thesis by (intro exI [of _ 0]) simp
  qed
qed

text \<open>A pattern without wildcards matches itself only.\<close>

lemma iam_glob_literal:
  "\<forall>c \<in> set p. c \<noteq> wild_star \<and> c \<noteq> wild_one \<Longrightarrow> iam_glob v p \<longleftrightarrow> v = p"
  by (induction p arbitrary: v) (auto split: list.splits)

end
