(* ===== verification/Remediation_Templates.thy ===== *)
theory Remediation_Templates
  imports Remediation_Store Iam_Match
begin

text \<open>
  \<open>src/denali/resource_writes/templates.py\<close>: canonical JSON and its hash, \<open>open_finding\<close>, and
  \<open>tighten_inline_policy\<close>, which replaces the wildcard resources of a policy by the models in use.
  The text diff of the two documents is not modelled.
\<close>

section \<open>Results\<close>

fun bind_w :: "'a wres \<Rightarrow> ('a \<Rightarrow> 'b wres) \<Rightarrow> 'b wres" where
  "bind_w (Inl e) f = Inl e"
| "bind_w (Inr x) f = f x"

fun map_w :: "('a \<Rightarrow> 'b wres) \<Rightarrow> 'a list \<Rightarrow> 'b list wres" where
  "map_w f [] = Inr []"
| "map_w f (x # xs) = bind_w (f x) (\<lambda>y. bind_w (map_w f xs) (\<lambda>ys. Inr (y # ys)))"

lemma bind_w_Inr [simp]: "bind_w m f = Inr y \<longleftrightarrow> (\<exists>x. m = Inr x \<and> f x = Inr y)"
  by (cases m) auto

lemma map_w_in: "map_w f xs = Inr ys \<Longrightarrow> x \<in> set xs \<Longrightarrow> \<exists>y. f x = Inr y"
  by (induction xs arbitrary: ys) auto

lemma map_w_Inr: "map_w f xs = Inr ys \<longleftrightarrow> list_all2 (\<lambda>x y. f x = Inr y) xs ys"
  by (induction xs arbitrary: ys) (auto simp: list_all2_Cons1)

abbreviation reject :: "string \<Rightarrow> 'a wres" where
  "reject code \<equiv> Inl (RemediationError code)"

section \<open>Canonical JSON\<close>

text \<open>\<open>fl\<close> is \<open>float.__repr__\<close>.\<close>

fun canonical :: "(pyfloat \<Rightarrow> string) \<Rightarrow> pyval \<Rightarrow> string" where
  "canonical fl PNone = ''null''"
| "canonical fl (PBool b) = (if b then ''true'' else ''false'')"
| "canonical fl (PInt i) = str_int i"
| "canonical fl (PFloat f) = fl f"
| "canonical fl (PStr s) = json_string s"
| "canonical fl (PList xs) = ''['' @ join '','' (map (canonical fl) xs) @ '']''"
| "canonical fl (PDict d) = ''{'' @ join '',''
     (map (\<lambda>(k, t). json_string k @ '':'' @ t) (sort_key fst (map (\<lambda>(k, v). (k, canonical fl v)) d))) @ ''}''"

definition sha256_json :: "(pyfloat \<Rightarrow> string) \<Rightarrow> pyval \<Rightarrow> string" where
  "sha256_json fl v = sha256_hex (canonical fl v)"

section \<open>Reading JSON values\<close>

text \<open>\<open>(v or {})\<close> before a \<open>.get\<close>; a true value that is no dictionary has no such method.\<close>

definition sub_dict :: "pyval \<Rightarrow> attrs wres" where
  "sub_dict v = (if \<not> truthy v then Inr [] else case v of PDict d \<Rightarrow> Inr d
     | _ \<Rightarrow> Inl (PyError (RuntimeError ''AttributeError'')))"

text \<open>\<open>s in v\<close> of a text, and iterating over \<open>v\<close>.\<close>

definition text_in :: "string \<Rightarrow> pyval \<Rightarrow> bool wres" where
  "text_in s v = (case v of PList xs \<Rightarrow> Inr (list_ex (\<lambda>x. x = PStr s) xs) | PStr t \<Rightarrow> Inr (contains s t)
     | PDict d \<Rightarrow> Inr (map_of d s \<noteq> None) | _ \<Rightarrow> Inl (PyError (TypeError ''not a container'')))"

definition py_iter :: "pyval \<Rightarrow> pyval list wres" where
  "py_iter v = (case v of PList xs \<Rightarrow> Inr xs | PStr t \<Rightarrow> Inr (map (\<lambda>c. PStr [c]) t)
     | PDict d \<Rightarrow> Inr (map (PStr \<circ> fst) d) | _ \<Rightarrow> Inl (PyError (TypeError ''not iterable'')))"

text \<open>\<open>x.get(key)\<close> of an element that should be a dictionary.\<close>

definition get_of :: "string \<Rightarrow> pyval \<Rightarrow> pyval wres" where
  "get_of k v = (case v of PDict d \<Rightarrow> Inr (attr_get d k) | _ \<Rightarrow> Inl (PyError (RuntimeError ''AttributeError'')))"

section \<open>The finding\<close>

definition github_action :: string where "github_action = ''github.guardrail_draft_pr''"
definition aws_action :: string where "aws_action = ''aws.tighten_bedrock_inline_policy''"

definition action_rules :: "string \<Rightarrow> string list" where
  "action_rules action =
     (if action = github_action then [''DENALI-REPO-AI-GRD-001'', ''DENALI-REPO-AI-GRD-002'']
      else if action = aws_action then [''DENALI-AWS-AI-IAM-001''] else [])"

definition open_finding :: "attrs \<Rightarrow> string \<Rightarrow> unit wres" where
  "open_finding finding action =
     (if attr_get finding ''rule_uid'' \<notin> PStr ` set (action_rules action)
         \<or> attr_get finding ''state'' \<noteq> PStr ''open'' \<or> attr_get finding ''evaluation_result'' \<noteq> PStr ''fail''
      then reject ''unsupported_or_inactive_finding'' else Inr ())"

section \<open>Model ARNs\<close>

fun strip_prefix :: "string \<Rightarrow> string \<Rightarrow> string option" where
  "strip_prefix [] s = Some s"
| "strip_prefix (c # p) [] = None"
| "strip_prefix (c # p) (x # s) = (if c = x then strip_prefix p s else None)"

definition cut_at :: "char \<Rightarrow> string \<Rightarrow> (string \<times> string) option" where
  "cut_at c s = (case dropWhile (\<lambda>x. x \<noteq> c) s of [] \<Rightarrow> None | _ # r \<Rightarrow> Some (takeWhile (\<lambda>x. x \<noteq> c) s, r))"

datatype model_kind = Foundation_Model | Inference_Profile

definition model_id_char :: "char \<Rightarrow> bool" where
  "model_id_char c \<longleftrightarrow> is_letter c \<or> is_digit c \<or> c \<in> {CHR ''_'', CHR ''.'', CHR '':'', CHR ''-''}"

definition model_tail :: "string \<Rightarrow> (model_kind \<times> string) option" where
  "model_tail s = (case strip_prefix ''foundation-model/'' s of Some m \<Rightarrow> Some (Foundation_Model, m)
     | None \<Rightarrow> map_option (Pair Inference_Profile) (strip_prefix ''inference-profile/'' s))"

text \<open>The regular expression of a model ARN. Its first three groups hold no colon, so they end at the
  next one: partition, account, kind and model.\<close>

definition parse_model_arn :: "string \<Rightarrow> (string \<times> string \<times> model_kind \<times> string) option" where
  "parse_model_arn arn =
     Option.bind (strip_prefix ''arn:'' arn) (\<lambda>s1.
     Option.bind (cut_at (CHR '':'') s1) (\<lambda>(part, s2).
     Option.bind (strip_prefix ''bedrock:'' s2) (\<lambda>s3.
     Option.bind (cut_at (CHR '':'') s3) (\<lambda>(region, s4).
     Option.bind (cut_at (CHR '':'') s4) (\<lambda>(account, s5).
     Option.bind (model_tail s5) (\<lambda>(kind, model).
     if part \<noteq> [] \<and> list_all (\<lambda>c. is_lower_letter c \<or> c = CHR ''-'') part
        \<and> region \<noteq> [] \<and> list_all (\<lambda>c. is_lower_letter c \<or> is_digit c \<or> c = CHR ''-'') region
        \<and> list_all is_digit account \<and> model \<noteq> [] \<and> list_all model_id_char model
     then Some (part, account, kind, model) else None))))))"

section \<open>Tightening an inline policy\<close>

text \<open>\<open>resource[k]\<close> of the leased resource.\<close>

definition get_item :: "string \<Rightarrow> attrs \<Rightarrow> pyval wres" where
  "get_item k d = (case map_of d k of Some v \<Rightarrow> Inr v | None \<Rightarrow> Inl (PyError (KeyError k)))"

definition arn_in_evidence :: "string \<Rightarrow> pyval wres \<Rightarrow> pyval \<Rightarrow> string \<Rightarrow> unit wres" where
  "arn_in_evidence part account model_ids arn = (case parse_model_arn arn of
       None \<Rightarrow> reject ''model_not_in_finding_evidence''
     | Some (p, a, kind, model) \<Rightarrow>
         if p \<noteq> part then reject ''model_not_in_finding_evidence''
         else bind_w account (\<lambda>acc.
           if PStr a \<notin> {PStr [], acc} \<or> kind = Foundation_Model \<and> a \<noteq> []
             \<or> kind = Inference_Profile \<and> PStr a \<noteq> acc
           then reject ''model_not_in_finding_evidence''
           else bind_w (text_in model model_ids) (\<lambda>named.
             if named then Inr ()
             else bind_w (text_in arn model_ids) (\<lambda>listed.
               if listed then Inr () else reject ''model_not_in_finding_evidence''))))"

definition model_arns :: "attrs \<Rightarrow> string list wres" where
  "model_arns parameters = (if set (map fst parameters) \<noteq> {''model_arns''} then reject ''invalid_model_selection''
     else case attr_get parameters ''model_arns'' of
       PList xs \<Rightarrow> if 1 \<le> length xs \<and> length xs \<le> 20 \<and> list_all (\<lambda>x. case x of PStr _ \<Rightarrow> True | _ \<Rightarrow> False) xs
           \<and> distinct xs
         then Inr (map (\<lambda>x. case x of PStr s \<Rightarrow> s | _ \<Rightarrow> []) xs) else reject ''invalid_model_selection''
     | _ \<Rightarrow> reject ''invalid_model_selection'')"

text \<open>A text or a list of texts, as \<open>Action\<close> and \<open>Resource\<close> are written.\<close>

definition text_items :: "pyval \<Rightarrow> string list option" where
  "text_items v = (case v of PStr s \<Rightarrow> Some [s]
     | PList xs \<Rightarrow> if list_all (\<lambda>x. case x of PStr _ \<Rightarrow> True | _ \<Rightarrow> False) xs
         then Some (map (\<lambda>x. case x of PStr s \<Rightarrow> s | _ \<Rightarrow> []) xs) else None
     | _ \<Rightarrow> None)"

definition invoke_action :: "string \<Rightarrow> bool" where
  "invoke_action a \<longleftrightarrow> casefold a \<in> {''bedrock:invokemodel'', ''bedrock:invokemodelwithresponsestream'',
     ''bedrock:converse'', ''bedrock:conversestream''}"

definition is_wildcard :: "string \<Rightarrow> bool" where
  "is_wildcard r \<longleftrightarrow> wild_star \<in> set r \<or> wild_one \<in> set r"

text \<open>One statement: whether it changed, and the statement after.\<close>

definition tighten_statement :: "string list \<Rightarrow> pyval \<Rightarrow> (bool \<times> pyval) wres" where
  "tighten_statement arns statement = (case statement of
       PDict d \<Rightarrow>
         if attr_get d ''Effect'' \<noteq> PStr ''Allow'' then Inr (False, statement)
         else (case (text_items (attr_get d ''Action''), text_items (attr_get d ''Resource'')) of
             (Some actions, Some resources) \<Rightarrow>
               if resources = [] then reject ''policy_shape_not_supported''
               else if \<not> list_ex invoke_action actions then Inr (False, statement)
               else if \<not> list_all invoke_action actions \<or> map_of d ''NotAction'' \<noteq> None \<or> map_of d ''NotResource'' \<noteq> None
                 then reject ''mixed_action_policy_not_supported''
               else if list_ex (contains [CHR 0x24, CHR 0x7B]) resources then reject ''policy_variables_not_supported''
               else let wildcard = filter is_wildcard resources in
                 if wildcard = [] then Inr (False, statement)
                 else if \<not> list_all (\<lambda>arn. list_ex (\<lambda>p. iam_resource_matches arn p = Some True) wildcard) arns
                   then reject ''model_resource_not_subset''
                 else Inr (True, PDict (dict_set ''Resource''
                   (PList (map PStr (sort (remdups (filter (\<lambda>r. r \<notin> set wildcard) resources @ arns))))) d))
           | _ \<Rightarrow> reject ''policy_shape_not_supported'')
     | _ \<Rightarrow> reject ''policy_shape_not_supported'')"

text \<open>Whether the finding lists the policy among the inline policies with matching statements.\<close>

definition policy_listed :: "attrs \<Rightarrow> pyval \<Rightarrow> bool wres" where
  "policy_listed resource m =
     bind_w (get_of ''policy_kind'' m) (\<lambda>kind.
       if kind \<noteq> PStr ''inline'' then Inr False
       else bind_w (get_of ''policy_name'' m) (\<lambda>name.
         bind_w (get_item ''policy_name'' resource) (\<lambda>policy. Inr (py_eq name policy))))"

text \<open>\<open>role.split(":")[1]\<close>.\<close>

definition role_partition :: "pyval \<Rightarrow> string wres" where
  "role_partition role = (case role of
       PStr arn \<Rightarrow> (case split_char (CHR '':'') [] arn of _ # part # _ \<Rightarrow> Inr part
         | _ \<Rightarrow> Inl (PyError (RuntimeError ''IndexError'')))
     | _ \<Rightarrow> Inl (PyError (RuntimeError ''AttributeError'')))"

definition tighten_document :: "(pyfloat \<Rightarrow> string) \<Rightarrow> string list \<Rightarrow> attrs \<Rightarrow> attrs wres" where
  "tighten_document fl arns document = (case attr_get document ''Statement'' of
       PList statements \<Rightarrow>
         if 100 < length statements \<or> 10000 < length (canonical fl (PDict document))
         then reject ''policy_shape_not_supported''
         else bind_w (map_w (tighten_statement arns) statements) (\<lambda>results.
           if True \<notin> set (map fst results) then reject ''policy_has_no_supported_wildcard''
           else Inr (dict_set ''Statement'' (PList (map snd results)) document))
     | _ \<Rightarrow> reject ''policy_shape_not_supported'')"

definition tighten_inline_policy ::
    "(pyfloat \<Rightarrow> string) \<Rightarrow> attrs \<Rightarrow> attrs \<Rightarrow> attrs \<Rightarrow> attrs \<Rightarrow> attrs wres" where
  "tighten_inline_policy fl finding document parameters resource =
     bind_w (open_finding finding aws_action) (\<lambda>_.
     bind_w (model_arns parameters) (\<lambda>selected.
     bind_w (sub_dict (attr_get finding ''evidence'')) (\<lambda>evidence.
     bind_w (sub_dict (attr_get evidence ''payload'')) (\<lambda>payload.
     let ids = attr_get payload ''configured_model_ids'';
         model_ids = (if truthy ids then ids else PList []) in
     bind_w (get_item ''target_role_arn'' resource) (\<lambda>role.
     bind_w (sub_dict (attr_get finding ''attributes'')) (\<lambda>attributes.
     if \<not> py_eq (attr_get attributes ''role_arn'') role then reject ''finding_role_mismatch''
     else bind_w (role_partition role) (\<lambda>part.
     let arns = sort selected in
     bind_w (map_w (arn_in_evidence part (get_item ''account_id'' resource) model_ids) arns) (\<lambda>_.
     bind_w (py_iter (case map_of payload ''matching_policy_statements'' of None \<Rightarrow> PList [] | Some v \<Rightarrow> v)) (\<lambda>listed.
     bind_w (map_w (policy_listed resource) listed) (\<lambda>hits.
     if True \<notin> set hits then reject ''policy_not_in_finding_evidence''
     else tighten_document fl arns document))))))))))"

section \<open>A model ARN is a literal\<close>

lemma strip_prefix_Some: "strip_prefix p s = Some r \<longleftrightarrow> s = p @ r"
  by (induction p s rule: strip_prefix.induct) auto

lemma cut_at_Some: "cut_at c s = Some (a, r) \<Longrightarrow> s = a @ c # r"
  unfolding cut_at_def
  by (cases "dropWhile (\<lambda>x. x \<noteq> c) s")
    (use takeWhile_dropWhile_id [of "\<lambda>x. x \<noteq> c" s] hd_dropWhile [of "\<lambda>x. x \<noteq> c" s] in auto)

lemma model_tail_Some:
  "model_tail s = Some (k, m) \<Longrightarrow> s = ''foundation-model/'' @ m \<or> s = ''inference-profile/'' @ m"
  by (auto simp: model_tail_def strip_prefix_Some split: option.splits)

definition literal_char :: "char \<Rightarrow> bool" where
  "literal_char c \<longleftrightarrow> c \<noteq> wild_star \<and> c \<noteq> wild_one"

lemma literal_chars:
  "is_lower_letter c \<or> c = CHR ''-'' \<Longrightarrow> literal_char c"
  "is_lower_letter c \<or> is_digit c \<or> c = CHR ''-'' \<Longrightarrow> literal_char c"
  "is_digit c \<Longrightarrow> literal_char c" "model_id_char c \<Longrightarrow> literal_char c"
  by (auto simp: literal_char_def is_lower_letter_def is_upper_letter_def is_digit_def model_id_char_def is_letter_def)

lemma parse_model_arn_literal:
  assumes "parse_model_arn arn = Some x"
  shows "\<forall>c \<in> set arn. literal_char c"
proof -
  obtain s1 p s2 s3 r s4 a s5 k m where
      e: "strip_prefix ''arn:'' arn = Some s1" "cut_at (CHR '':'') s1 = Some (p, s2)"
        "strip_prefix ''bedrock:'' s2 = Some s3" "cut_at (CHR '':'') s3 = Some (r, s4)" "cut_at (CHR '':'') s4 = Some (a, s5)"
        "model_tail s5 = Some (k, m)"
      and c: "list_all (\<lambda>c. is_lower_letter c \<or> c = CHR ''-'') p"
        "list_all (\<lambda>c. is_lower_letter c \<or> is_digit c \<or> c = CHR ''-'') r" "list_all is_digit a" "list_all model_id_char m"
    using assms by (auto simp: parse_model_arn_def bind_eq_Some_conv split: if_splits)
  have shape: "arn = ''arn:'' @ p @ '':'' @ ''bedrock:'' @ r @ '':'' @ a @ '':'' @ s5"
      "s5 = ''foundation-model/'' @ m \<or> s5 = ''inference-profile/'' @ m"
    using e cut_at_Some model_tail_Some by (auto simp: strip_prefix_Some)
  have "list_all literal_char p" "list_all literal_char r" "list_all literal_char a" "list_all literal_char m"
    using c literal_chars by (auto simp: list_all_iff)
  then have "list_all literal_char arn"
    using shape(2) by (auto simp: shape(1) literal_char_def)
  then show ?thesis by (simp add: list_all_iff)
qed

lemma arn_in_evidence_literal:
  "arn_in_evidence part account ids arn = Inr x \<Longrightarrow> c \<in> set arn \<Longrightarrow> literal_char c"
  using parse_model_arn_literal by (auto simp: arn_in_evidence_def split: option.splits)

section \<open>What a statement covers\<close>

definition resource_patterns :: "pyval \<Rightarrow> string set" where
  "resource_patterns statement = (case statement of
     PDict d \<Rightarrow> (case text_items (attr_get d ''Resource'') of Some rs \<Rightarrow> set rs | None \<Rightarrow> {}) | _ \<Rightarrow> {})"

definition covers :: "pyval \<Rightarrow> string \<Rightarrow> bool" where
  "covers statement v \<longleftrightarrow> (\<exists>r \<in> resource_patterns statement. iam_glob v r)"

definition same_but_resource :: "pyval \<Rightarrow> pyval \<Rightarrow> bool" where
  "same_but_resource s s' \<longleftrightarrow> (\<exists>d d'. s = PDict d \<and> s' = PDict d' \<and> map fst d' = map fst d
     \<and> (\<forall>k. k \<noteq> ''Resource'' \<longrightarrow> map_of d' k = map_of d k))"

lemma text_items_texts [simp]: "text_items (PList (map PStr xs)) = Some xs"
  by (simp add: text_items_def list_all_iff comp_def)

lemma text_items_key: "text_items (attr_get d k) = Some rs \<Longrightarrow> k \<in> fst ` set d"
proof (cases "map_of d k")
  case (Some v)
  then show ?thesis by (force dest: map_of_SomeD)
qed (simp add: attr_get_def text_items_def)

lemma tighten_statement_changed:
  assumes "tighten_statement arns s = Inr (True, s')" "\<And>a c. a \<in> set arns \<Longrightarrow> c \<in> set a \<Longrightarrow> literal_char c"
  shows "same_but_resource s s'" "\<forall>v. covers s' v \<longrightarrow> covers s v"
    "\<forall>r \<in> resource_patterns s'. \<not> is_wildcard r" "set arns \<subseteq> resource_patterns s'"
    "\<exists>r \<in> resource_patterns s. is_wildcard r"
proof -
  obtain d acts rs where s: "s = PDict d" "text_items (attr_get d ''Action'') = Some acts"
      "text_items (attr_get d ''Resource'') = Some rs" "filter is_wildcard rs \<noteq> []"
      "list_all (\<lambda>arn. list_ex (\<lambda>p. iam_resource_matches arn p = Some True) (filter is_wildcard rs)) arns"
      "s' = PDict (dict_set ''Resource'' (PList (map PStr (sort (remdups
         (filter (\<lambda>r. r \<notin> set (filter is_wildcard rs)) rs @ arns))))) d)"
    using assms(1) by (auto simp: tighten_statement_def Let_def split: pyval.splits option.splits if_splits)
  have old: "resource_patterns s = set rs" by (simp add: resource_patterns_def s(1,3))
  have new: "resource_patterns s' = {r \<in> set rs. \<not> is_wildcard r} \<union> set arns"
    by (auto simp: resource_patterns_def s(6) attr_get_def dict_simps)
  have lit: "\<not> is_wildcard a" "iam_glob v a \<longleftrightarrow> v = a" if "a \<in> set arns" for a v
    using assms(2) [OF that] iam_glob_literal [of a v] by (auto simp: is_wildcard_def literal_char_def)
  show "same_but_resource s s'"
    using text_items_key [OF s(3)] by (auto simp: same_but_resource_def s(1,6) dict_simps update_keys)
  show "\<forall>v. covers s' v \<longrightarrow> covers s v"
  proof (intro allI impI)
    fix v assume "covers s' v"
    then consider r where "r \<in> set rs" "iam_glob v r" | a where "a \<in> set arns" "iam_glob v a"
      by (auto simp: covers_def new)
    then show "covers s v"
    proof cases
      case 2
      then have "v = a" using lit by blast
      then have "\<exists>p \<in> set rs. iam_glob v p"
        using s(5) 2 by (auto simp: list_all_iff list_ex_iff iam_matches_Some)
      then show ?thesis by (simp add: covers_def old)
    qed (auto simp: covers_def old)
  qed
  show "\<forall>r \<in> resource_patterns s'. \<not> is_wildcard r" using lit by (auto simp: new)
  show "set arns \<subseteq> resource_patterns s'" by (simp add: new)
  show "\<exists>r \<in> resource_patterns s. is_wildcard r" using s(4) by (auto simp: old filter_empty_conv)
qed

lemma tighten_statement_kept: "tighten_statement arns s = Inr (False, s') \<Longrightarrow> s' = s"
  by (auto simp: tighten_statement_def Let_def split: pyval.splits option.splits if_splits)

section \<open>The document\<close>

text \<open>How a statement may differ after tightening: only in its resources, which cover less.\<close>

definition narrowed :: "pyval \<Rightarrow> pyval \<Rightarrow> bool" where
  "narrowed s s' \<longleftrightarrow> same_but_resource s s' \<and> (\<forall>v. covers s' v \<longrightarrow> covers s v)
     \<and> (\<forall>r \<in> resource_patterns s'. \<not> is_wildcard r) \<and> (\<exists>r \<in> resource_patterns s. is_wildcard r)"

definition document_narrowed :: "attrs \<Rightarrow> attrs \<Rightarrow> bool" where
  "document_narrowed d d' \<longleftrightarrow> (\<forall>k. k \<noteq> ''Statement'' \<longrightarrow> map_of d' k = map_of d k)
     \<and> (\<exists>ss ss'. attr_get d ''Statement'' = PList ss \<and> attr_get d' ''Statement'' = PList ss'
          \<and> list_all2 (\<lambda>s s'. s' = s \<or> narrowed s s') ss ss' \<and> (\<exists>i < length ss. narrowed (ss ! i) (ss' ! i)))"

lemma tighten_document_narrowed:
  assumes "tighten_document fl arns d = Inr d'" "\<And>a c. a \<in> set arns \<Longrightarrow> c \<in> set a \<Longrightarrow> literal_char c"
  shows "document_narrowed d d'"
proof -
  obtain ss rs where s: "attr_get d ''Statement'' = PList ss" "map_w (tighten_statement arns) ss = Inr rs"
      "True \<in> set (map fst rs)" "d' = dict_set ''Statement'' (PList (map snd rs)) d"
    using assms(1) by (auto simp: tighten_document_def split: pyval.splits if_splits)
  have step: "list_all2 (\<lambda>s r. tighten_statement arns s = Inr r) ss rs" using s(2) by (simp add: map_w_Inr)
  have one: "if fst r then narrowed s (snd r) else snd r = s" if "tighten_statement arns s = Inr r" for s r
    using that tighten_statement_changed [of arns s "snd r"] tighten_statement_kept [of arns s "snd r"] assms(2)
    by (cases r; cases "fst r") (auto simp: narrowed_def)
  have "list_all2 (\<lambda>s s'. s' = s \<or> narrowed s s') ss (map snd rs)"
    unfolding list_all2_map2 by (rule list_all2_mono [OF step]) (metis one)
  moreover have "\<exists>i < length ss. narrowed (ss ! i) (map snd rs ! i)"
  proof -
    obtain i where "i < length rs" "fst (rs ! i)" using s(3) by (auto simp: in_set_conv_nth)
    then show ?thesis using step one by (intro exI [of _ i]) (auto simp: list_all2_conv_all_nth)
  qed
  ultimately show ?thesis using s(1) by (auto simp: document_narrowed_def s(4) attr_get_def dict_simps)
qed

lemma tighten_inline_policy_narrows:
  assumes "tighten_inline_policy fl finding document parameters resource = Inr proposed"
  shows "document_narrowed document proposed" "open_finding finding aws_action = Inr ()"
proof -
  from assms obtain selected part ids xs where run: "open_finding finding aws_action = Inr ()"
      "map_w (arn_in_evidence part (get_item ''account_id'' resource) ids) (sort selected) = Inr xs"
      "tighten_document fl (sort selected) document = Inr proposed"
    unfolding tighten_inline_policy_def by (auto simp: Let_def split: if_splits)
  have "literal_char c" if "arn \<in> set (sort selected)" "c \<in> set arn" for arn c
  proof -
    have "\<exists>x. arn_in_evidence part (get_item ''account_id'' resource) ids arn = Inr x"
      by (rule map_w_in [OF run(2) that(1)])
    then show ?thesis using that(2) arn_in_evidence_literal by blast
  qed
  then show "document_narrowed document proposed" by (rule tighten_document_narrowed [OF run(3)])
  show "open_finding finding aws_action = Inr ()" by (rule run(1))
qed

end
