(* ===== verification/Remediation_Service.thy ===== *)
theory Remediation_Service
  imports Remediation_Templates Remediation_Contract
begin

text \<open>
  \<open>src/denali/resource_writes/service.py\<close> and the AWS provider of \<open>providers.py\<close>. A call of the service
  runs on the tables and on the rest of the world, which only the record \<open>externals\<close> touches: the clock,
  the membership service, the findings, the lease service, the IAM client, and the GitHub provider as
  a whole. An exception keeps the state reached so far.
\<close>

section \<open>Actions\<close>

type_synonym ('w, 'a) svc = "write_db \<times> 'w \<Rightarrow> 'a wres \<times> (write_db \<times> 'w)"

definition ret :: "'a \<Rightarrow> ('w, 'a) svc" where "ret x s = (Inr x, s)"
definition raise_w :: "write_error \<Rightarrow> ('w, 'a) svc" where "raise_w e s = (Inl e, s)"

definition bind_s :: "('w, 'a) svc \<Rightarrow> ('a \<Rightarrow> ('w, 'b) svc) \<Rightarrow> ('w, 'b) svc" where
  "bind_s m f s = (case m s of (Inl e, s') \<Rightarrow> (Inl e, s') | (Inr x, s') \<Rightarrow> f x s')"

definition lift_w :: "'a wres \<Rightarrow> ('w, 'a) svc" where "lift_w r s = (r, s)"

definition guard_s :: "bool \<Rightarrow> string \<Rightarrow> ('w, unit) svc" where
  "guard_s ok code = (if ok then ret () else raise_w (RemediationError code))"

text \<open>A call to the outside, and a transaction of the store.\<close>

definition outside :: "('w \<Rightarrow> 'a wres \<times> 'w) \<Rightarrow> ('w, 'a) svc" where
  "outside f s = (let (r, w) = f (snd s) in (r, (fst s, w)))"

definition in_store :: "(write_db \<Rightarrow> write_db wres) \<Rightarrow> ('w, unit) svc" where
  "in_store f s = (case f (fst s) of Inl e \<Rightarrow> (Inl e, s) | Inr db \<Rightarrow> (Inr (), (db, snd s)))"

definition tables :: "('w, write_db) svc" where "tables s = (Inr (fst s), s)"

section \<open>The outside\<close>

record lease_call =
  lc_org :: string
  lc_grant :: string
  lc_action :: string
  lc_mode :: string
  lc_request :: string
  lc_sha256 :: string
  lc_actor :: string
  lc_reviewer :: "string option"

text \<open>
  \<open>ex_role\<close> is \<open>None\<close> where the service has no membership client. \<open>ex_lease\<close> is \<open>PlatformWriteLeases.lease\<close>,
  whose answer carries the leased resource and the credentials. \<open>ex_get_policy\<close> and \<open>ex_put_policy\<close> are the two
  IAM operations, on the role name and the policy name, \<open>None\<close> and \<open>False\<close> when they raise. The last
  three are the methods of the GitHub provider: its snapshot of a file, its one write, its
  reconciliation.
\<close>

record 'w externals =
  ex_now :: "'w \<Rightarrow> int \<times> 'w"
  ex_role :: "(string \<Rightarrow> string \<Rightarrow> 'w \<Rightarrow> string wres \<times> 'w) option"
  ex_finding :: "string \<Rightarrow> string \<Rightarrow> 'w \<Rightarrow> attrs option wres \<times> 'w"
  ex_lease :: "lease_call \<Rightarrow> 'w \<Rightarrow> attrs wres \<times> 'w"
  ex_get_policy :: "attrs \<Rightarrow> string \<Rightarrow> string \<Rightarrow> 'w \<Rightarrow> pyval option \<times> 'w"
  ex_put_policy :: "attrs \<Rightarrow> string \<Rightarrow> string \<Rightarrow> attrs \<Rightarrow> 'w \<Rightarrow> bool \<times> 'w"
  ex_github_snapshot :: "attrs \<Rightarrow> pyval \<Rightarrow> 'w \<Rightarrow> attrs wres \<times> 'w"
  ex_github_write :: "attrs \<Rightarrow> string \<Rightarrow> attrs \<Rightarrow> string \<Rightarrow> 'w \<Rightarrow> pyval wres \<times> 'w"
  ex_github_reconcile :: "attrs \<Rightarrow> string \<Rightarrow> attrs \<Rightarrow> 'w \<Rightarrow> pyval wres \<times> 'w"

text \<open>
  \<open>sv_diff\<close> is the unified diff of two documents, \<open>sv_patch\<close> is \<open>github_patch\<close> (the new content of a file and
  its diff) and \<open>sv_blob_sha\<close> is \<open>git_blob_sha\<close>.
\<close>

record 'w service =
  sv_ext :: "'w externals"
  sv_enabled :: "string list"
  sv_float :: "pyfloat \<Rightarrow> string"
  sv_diff :: "attrs \<Rightarrow> attrs \<Rightarrow> string"
  sv_patch :: "attrs \<Rightarrow> string \<Rightarrow> attrs \<Rightarrow> (string \<times> string) wres"
  sv_blob_sha :: "string \<Rightarrow> string"

definition clock :: "'w service \<Rightarrow> ('w, int) svc" where
  "clock sv = outside (\<lambda>w. let (t, w') = ex_now (sv_ext sv) w in (Inr t, w'))"

text \<open>\<open>enabled_actions\<close>: the two flags of the environment.\<close>

definition enabled_actions :: "(string \<Rightarrow> string option) \<Rightarrow> string list" where
  "enabled_actions env =
     map snd (filter (\<lambda>(flag, action). casefold (case env flag of Some v \<Rightarrow> v | None \<Rightarrow> ''false'') = ''true'')
       [(''DENALI_ENABLE_GITHUB_RESOURCE_WRITES'', github_action), (''DENALI_ENABLE_AWS_RESOURCE_WRITES'', aws_action)])"

section \<open>Guards\<close>

definition require_admin :: "'w service \<Rightarrow> string \<Rightarrow> string \<Rightarrow> ('w, unit) svc" where
  "require_admin sv org user = (case ex_role (sv_ext sv) of
       None \<Rightarrow> raise_w (RemediationError ''membership_unavailable'')
     | Some role \<Rightarrow> outside (\<lambda>w. case role org user w of
           (Inr r, w') \<Rightarrow> (if r = ''admin'' then Inr () else reject ''live_organization_admin_required'', w')
         | (Inl (RemediationError c), w') \<Rightarrow> (reject c, w')
         | (Inl _, w') \<Rightarrow> (reject ''membership_unavailable'', w')))"

definition require_enabled :: "'w service \<Rightarrow> string \<Rightarrow> ('w, unit) svc" where
  "require_enabled sv action = guard_s (action \<in> set (sv_enabled sv)) ''resource_action_disabled''"

section \<open>The AWS provider\<close>

text \<open>\<open>rsplit("/", 1)[-1]\<close>.\<close>

definition role_name :: "string \<Rightarrow> string" where
  "role_name arn = last (split_char (CHR ''/'') [] arn)"

text \<open>The role and the policy of the leased resource.\<close>

definition resource_texts :: "attrs \<Rightarrow> (string \<times> string) option" where
  "resource_texts resource = (case (attr_get resource ''target_role_arn'', attr_get resource ''policy_name'') of
     (PStr r, PStr p) \<Rightarrow> Some (role_name r, p) | _ \<Rightarrow> None)"

definition leased :: "attrs \<Rightarrow> attrs wres" where
  "leased lease = (case map_of lease ''resource'' of Some (PDict d) \<Rightarrow> Inr d
     | Some _ \<Rightarrow> Inl (PyError (TypeError ''resource'')) | None \<Rightarrow> Inl (PyError (KeyError ''resource'')))"

text \<open>Anything but a dictionary raises inside the \<open>try\<close>.\<close>

definition aws_snapshot :: "'w service \<Rightarrow> attrs \<Rightarrow> attrs \<Rightarrow> ('w, attrs) svc" where
  "aws_snapshot sv lease resource = (case resource_texts resource of
       None \<Rightarrow> raise_w (RemediationError ''aws_policy_read_unavailable'')
     | Some (r, p) \<Rightarrow> outside (\<lambda>w. case ex_get_policy (sv_ext sv) lease r p w of
           (Some (PDict d), w') \<Rightarrow> (Inr d, w') | (_, w') \<Rightarrow> (reject ''aws_policy_read_unavailable'', w')))"

definition doc_sha :: "'w service \<Rightarrow> attrs \<Rightarrow> pyval" where
  "doc_sha sv d = PStr (sha256_json (sv_float sv) (PDict d))"

definition aws_reconcile :: "'w service \<Rightarrow> attrs \<Rightarrow> attrs \<Rightarrow> attrs \<Rightarrow> ('w, pyval) svc" where
  "aws_reconcile sv lease resource plan =
     bind_s (aws_snapshot sv lease resource) (\<lambda>d.
     bind_s (lift_w (get_item ''proposed_sha256'' plan)) (\<lambda>sha.
     bind_s (guard_s (doc_sha sv d = sha) ''aws_write_outcome_manual_resolution'') (\<lambda>_.
     ret (PDict [(''target_role_arn'', attr_get resource ''target_role_arn''),
       (''policy_name'', attr_get resource ''policy_name''), (''policy_sha256'', sha),
       (''external_writer_race_possible'', PBool True)]))))"

definition aws_put :: "'w service \<Rightarrow> attrs \<Rightarrow> attrs \<Rightarrow> attrs \<Rightarrow> ('w, unit) svc" where
  "aws_put sv lease resource proposed = (case resource_texts resource of
       None \<Rightarrow> raise_w (RemediationError ''aws_write_outcome_unknown'')
     | Some (r, p) \<Rightarrow> outside (\<lambda>w. case ex_put_policy (sv_ext sv) lease r p proposed w of
           (True, w') \<Rightarrow> (Inr (), w') | (False, w') \<Rightarrow> (reject ''aws_write_outcome_unknown'', w')))"

definition aws_execute_once :: "'w service \<Rightarrow> attrs \<Rightarrow> attrs \<Rightarrow> attrs \<Rightarrow> attrs \<Rightarrow> ('w, pyval) svc" where
  "aws_execute_once sv lease resource plan proposed =
     bind_s (aws_snapshot sv lease resource) (\<lambda>d.
     bind_s (lift_w (get_item ''before_sha256'' plan)) (\<lambda>sha.
     bind_s (guard_s (doc_sha sv d = sha) ''aws_policy_drift'') (\<lambda>_.
     bind_s (aws_put sv lease resource proposed) (\<lambda>_.
     aws_reconcile sv lease resource plan))))"

section \<open>Plans\<close>

text \<open>The row a plan is built from: of a preview in the making or of a stored request.\<close>

record plan_row =
  pr_id :: string
  pr_tenant :: string
  pr_org :: string
  pr_actor :: string
  pr_finding :: string
  pr_grant :: string
  pr_action :: string
  pr_parameters :: attrs
  pr_reviewer :: "string option"
  pr_sha256 :: "string option"

text \<open>What the provider will write: a file's content or a policy document.\<close>

datatype proposal = Patch string | Policy attrs

definition finding_keys :: "string list" where
  "finding_keys = [''rule_uid'', ''state'', ''evaluation_result'', ''attributes'', ''evidence'', ''resources'']"

definition plan_common :: "'w service \<Rightarrow> attrs \<Rightarrow> attrs \<Rightarrow> string \<Rightarrow> attrs" where
  "plan_common sv finding resource action =
     [(''template_version'', PInt 1),
      (''finding_sha256'', doc_sha sv (map (\<lambda>k. (k, attr_get finding k)) finding_keys)),
      (''resource_sha256'', doc_sha sv resource), (''action'', PStr action)]"

definition aws_plan :: "'w service \<Rightarrow> attrs \<Rightarrow> attrs \<Rightarrow> attrs \<Rightarrow> attrs \<Rightarrow> attrs" where
  "aws_plan sv common document proposed resource = common @
     [(''before_sha256'', doc_sha sv document), (''proposed_sha256'', doc_sha sv proposed),
      (''patch_sha256'', PStr (sha256_hex (sv_diff sv document proposed))),
      (''target_role_arn'', attr_get resource ''target_role_arn''),
      (''policy_name'', attr_get resource ''policy_name''), (''external_writer_race_possible'', PBool True)]"

text \<open>An organisation's finding that is open, and its leased resource.\<close>

definition plan_inputs :: "'w service \<Rightarrow> bool \<Rightarrow> plan_row \<Rightarrow> ('w, attrs \<times> attrs \<times> attrs) svc" where
  "plan_inputs sv execute row =
     bind_s (require_enabled sv (pr_action row)) (\<lambda>_.
     bind_s (require_admin sv (pr_org row) (pr_actor row)) (\<lambda>_.
     bind_s (if \<not> execute then ret () else case pr_reviewer row of
         None \<Rightarrow> raise_w (RemediationError ''independent_review_required'')
       | Some v \<Rightarrow> if v = [] \<or> v = pr_actor row then raise_w (RemediationError ''independent_review_required'')
           else require_admin sv (pr_org row) v) (\<lambda>_.
     bind_s (outside (ex_finding (sv_ext sv) (pr_tenant row) (pr_finding row))) (\<lambda>found.
     case found of None \<Rightarrow> raise_w (RemediationError ''finding_not_found'')
     | Some finding \<Rightarrow>
     if finding = [] then raise_w (RemediationError ''finding_not_found'') else
     bind_s (lift_w (open_finding finding (pr_action row))) (\<lambda>_.
     bind_s (outside (ex_lease (sv_ext sv) \<lparr>lc_org = pr_org row, lc_grant = pr_grant row, lc_action = pr_action row,
         lc_mode = (if execute then ''execute'' else ''preview''), lc_request = pr_id row,
         lc_sha256 = (case pr_sha256 row of Some (c # h) \<Rightarrow> c # h
           | _ \<Rightarrow> sha256_json (sv_float sv) (PDict (pr_parameters row))),
         lc_actor = pr_actor row, lc_reviewer = pr_reviewer row\<rparr>)) (\<lambda>lease.
     bind_s (lift_w (leased lease)) (\<lambda>resource.
     ret (finding, lease, resource))))))))"

definition text_of :: "pyval \<Rightarrow> string wres" where
  "text_of v = (case v of PStr s \<Rightarrow> Inr s | _ \<Rightarrow> Inl (PyError (RuntimeError ''AttributeError'')))"

definition get_default :: "string \<Rightarrow> attrs \<Rightarrow> pyval" where
  "get_default k d = (case map_of d k of None \<Rightarrow> PStr [] | Some v \<Rightarrow> v)"

definition removeprefix :: "string \<Rightarrow> string \<Rightarrow> string" where
  "removeprefix p s = (case strip_prefix p s of None \<Rightarrow> s | Some r \<Rightarrow> r)"

definition github_plan ::
    "'w service \<Rightarrow> attrs \<Rightarrow> attrs \<Rightarrow> attrs \<Rightarrow> attrs \<Rightarrow> attrs \<Rightarrow> ('w, attrs \<times> string) svc" where
  "github_plan sv common finding lease resource parameters =
     bind_s (lift_w (sub_dict (attr_get finding ''attributes''))) (\<lambda>attributes.
     bind_s (lift_w (text_of (get_default ''repository'' attributes))) (\<lambda>repository.
     bind_s (lift_w (bind_w (get_item ''full_name'' resource) text_of)) (\<lambda>name.
     bind_s (guard_s (casefold (removeprefix ''github.com/'' repository) = casefold name) ''finding_repository_mismatch'') (\<lambda>_.
     bind_s (outside (ex_github_snapshot (sv_ext sv) lease (get_default ''source_path'' attributes))) (\<lambda>snapshot.
     bind_s (lift_w (get_item ''base_sha'' snapshot)) (\<lambda>base.
     bind_s (guard_s (py_eq (attr_get attributes ''repository_revision'') base) ''source_evidence_revision_stale'') (\<lambda>_.
     bind_s (lift_w (bind_w (get_item ''content'' snapshot) text_of)) (\<lambda>content.
     bind_s (lift_w (sv_patch sv finding content parameters)) (\<lambda>(new, diff).
     bind_s (lift_w (get_item ''source_path'' attributes)) (\<lambda>path.
     ret (fold (\<lambda>(k, v). dict_set k v) (filter (\<lambda>e. fst e \<noteq> ''content'') snapshot @
         [(''source_path'', path), (''proposed_file_sha'', PStr (sv_blob_sha sv new)),
          (''patch_sha256'', PStr (sha256_hex diff))]) common, new)))))))))))"

definition build_plan :: "'w service \<Rightarrow> bool \<Rightarrow> plan_row \<Rightarrow> ('w, attrs \<times> attrs \<times> attrs \<times> proposal) svc" where
  "build_plan sv execute row =
     bind_s (plan_inputs sv execute row) (\<lambda>(finding, lease, resource).
     let common = plan_common sv finding resource (pr_action row) in
     if pr_action row = github_action then
       bind_s (github_plan sv common finding lease resource (pr_parameters row)) (\<lambda>(plan, content).
       ret (plan, lease, resource, Patch content))
     else
       bind_s (aws_snapshot sv lease resource) (\<lambda>document.
       bind_s (lift_w (tighten_inline_policy (sv_float sv) finding document (pr_parameters row) resource)) (\<lambda>proposed.
       ret (aws_plan sv common document proposed resource, lease, resource, Policy proposed))))"

section \<open>Preview, request, review\<close>

definition preview_lifetime :: int where "preview_lifetime = 15 * micros_per_minute"

text \<open>The preview that \<open>preview\<close> stores under the fresh identifier of its row.\<close>

definition preview_record :: "'w service \<Rightarrow> plan_row \<Rightarrow> attrs \<Rightarrow> int \<Rightarrow> write_preview" where
  "preview_record sv row plan t =
     \<lparr>pv_tenant = pr_tenant row, pv_org = pr_org row, pv_finding = pr_finding row, pv_grant = pr_grant row,
      pv_action = pr_action row, pv_actor = pr_actor row, pv_parameters = PDict (pr_parameters row),
      pv_plan = PDict plan,
      pv_sha256 = sha256_json (sv_float sv) (PDict [(''action'', PStr (pr_action row)), (''plan'', PDict plan),
        (''parameters'', PDict (pr_parameters row))]),
      pv_expires_at = t + preview_lifetime\<rparr>"

definition svc_preview :: "'w service \<Rightarrow> plan_row \<Rightarrow> ('w, write_preview) svc" where
  "svc_preview sv row =
     bind_s (build_plan sv False (row\<lparr>pr_reviewer := None, pr_sha256 := None\<rparr>)) (\<lambda>(plan, _).
     bind_s (clock sv) (\<lambda>t.
     let p = preview_record sv row plan t in
     bind_s (in_store (store_preview (pr_id row) p)) (\<lambda>_. ret p)))"

definition svc_status :: "string \<Rightarrow> string \<Rightarrow> ('w, write_request \<times> write_preview) svc" where
  "svc_status tenant i = bind_s tables (\<lambda>db. case get_request db tenant i of
       None \<Rightarrow> raise_w (RemediationError ''request_not_found'') | Some x \<Rightarrow> ret x)"

definition svc_request ::
    "'w service \<Rightarrow> string \<Rightarrow> string \<Rightarrow> string \<Rightarrow> string \<Rightarrow> string \<Rightarrow> string \<Rightarrow> string \<Rightarrow> string
     \<Rightarrow> ('w, write_request \<times> write_preview) svc" where
  "svc_request sv i tenant org actor pid sha key justification =
     bind_s (require_admin sv org actor) (\<lambda>_.
     bind_s tables (\<lambda>db.
     case preview_of db tenant pid of None \<Rightarrow> raise_w (RemediationError ''preview_not_found'')
     | Some p \<Rightarrow>
       if pv_org p \<noteq> org \<or> pv_sha256 p \<noteq> sha \<or> pv_actor p \<noteq> actor
       then raise_w (RemediationError ''preview_not_found'')
       else bind_s (require_enabled sv (pv_action p)) (\<lambda>_.
         bind_s (clock sv) (\<lambda>t.
         (\<lambda>s. case store_request t i tenant pid actor key justification (fst s) of
            Inl e \<Rightarrow> (Inl e, s) | Inr (db', k, _) \<Rightarrow> svc_status tenant k (db', snd s))))))"

text \<open>The row of a stored request.\<close>

definition stored_row :: "string \<Rightarrow> write_request \<Rightarrow> write_preview \<Rightarrow> plan_row" where
  "stored_row i r p = \<lparr>pr_id = i, pr_tenant = rq_tenant r, pr_org = pv_org p, pr_actor = rq_actor r,
     pr_finding = pv_finding p, pr_grant = rq_grant r, pr_action = pv_action p,
     pr_parameters = (case pv_parameters p of PDict d \<Rightarrow> d | _ \<Rightarrow> []), pr_reviewer = rq_reviewer r,
     pr_sha256 = Some (pv_sha256 p)\<rparr>"

definition svc_review ::
    "'w service \<Rightarrow> string \<Rightarrow> string \<Rightarrow> string \<Rightarrow> string \<Rightarrow> string \<Rightarrow> string \<Rightarrow> ('w, write_request \<times> write_preview) svc" where
  "svc_review sv tenant org actor i decision remark =
     bind_s (require_admin sv org actor) (\<lambda>_.
     bind_s tables (\<lambda>db.
     case get_request db tenant i of None \<Rightarrow> raise_w (RemediationError ''request_not_found'')
     | Some (r, p) \<Rightarrow>
       if pv_org p \<noteq> org then raise_w (RemediationError ''request_not_found'')
       else bind_s (require_enabled sv (pv_action p)) (\<lambda>_.
         bind_s (require_admin sv org (rq_actor r)) (\<lambda>_.
         if actor = rq_actor r then raise_w (RemediationError ''self_approval_forbidden'')
         else bind_s (if decision = ''approved''
             then bind_s (build_plan sv False (stored_row i r p)) (\<lambda>(plan, _).
               guard_s (py_eq (PDict plan) (pv_plan p)) ''preview_drift_requires_new_request'')
             else ret ()) (\<lambda>_.
           bind_s (clock sv) (\<lambda>t.
           bind_s (in_store (store_review t tenant i actor decision remark)) (\<lambda>_. svc_status tenant i)))))))"

section \<open>The worker\<close>

text \<open>What \<open>execute\<close> checks before it records the attempt.\<close>

definition execute_prepare ::
    "'w service \<Rightarrow> string \<Rightarrow> write_request \<Rightarrow> write_preview \<Rightarrow> ('w, attrs \<times> attrs \<times> attrs \<times> proposal) svc" where
  "execute_prepare sv i r p =
     bind_s (clock sv) (\<lambda>t.
     bind_s (guard_s (t < pv_expires_at p) ''preview_expired'') (\<lambda>_.
     bind_s (build_plan sv True (stored_row i r p)) (\<lambda>(plan, lease, resource, pp).
     bind_s (guard_s (py_eq (PDict plan) (pv_plan p)) ''preview_drift_requires_new_request'') (\<lambda>_.
     bind_s (require_admin sv (pv_org p) (rq_actor r)) (\<lambda>_.
     bind_s (require_admin sv (pv_org p) (case rq_reviewer r of Some v \<Rightarrow> v | None \<Rightarrow> [])) (\<lambda>_.
     ret (plan, lease, resource, pp)))))))"

definition provider_execute ::
    "'w service \<Rightarrow> string \<Rightarrow> attrs \<Rightarrow> attrs \<Rightarrow> attrs \<Rightarrow> proposal \<Rightarrow> ('w, pyval) svc" where
  "provider_execute sv i plan lease resource pp = (case pp of
       Patch content \<Rightarrow> outside (ex_github_write (sv_ext sv) lease i plan content)
     | Policy proposed \<Rightarrow> aws_execute_once sv lease resource plan proposed)"

definition execute_body ::
    "'w service \<Rightarrow> string \<Rightarrow> string \<Rightarrow> write_request \<Rightarrow> write_preview \<Rightarrow> ('w, pyval) svc" where
  "execute_body sv nonce i r p =
     bind_s (execute_prepare sv i r p) (\<lambda>(plan, lease, resource, pp).
     bind_s (clock sv) (\<lambda>t.
     bind_s (in_store (mark_provider_attempted t (rq_tenant r) i nonce)) (\<lambda>_.
     provider_execute sv i plan lease resource pp)))"

fun error_code :: "write_error \<Rightarrow> string" where
  "error_code (RemediationError c) = c"
| "error_code _ = ''remediation_execution_failed''"

definition svc_execute :: "'w service \<Rightarrow> string \<Rightarrow> string \<Rightarrow> write_db \<times> 'w \<Rightarrow> write_db \<times> 'w" where
  "svc_execute sv nonce i s =
     (let (now, w1) = ex_now (sv_ext sv) (snd s); (dbnow, w2) = ex_now (sv_ext sv) w1 in
      case claim now dbnow nonce i (fst s) of
        (db1, None) \<Rightarrow> (db1, w2)
      | (db1, Some (r, p)) \<Rightarrow>
          (case execute_body sv nonce i r p (db1, w2) of (res, (db2, w3)) \<Rightarrow>
             let (t, w4) = ex_now (sv_ext sv) w3 in
             (finish t (rq_tenant r) i nonce (map_sum error_code id res) db2, w4)))"

section \<open>Reconciliation\<close>

definition svc_reconcile ::
    "'w service \<Rightarrow> string \<Rightarrow> string \<Rightarrow> string \<Rightarrow> string \<Rightarrow> ('w, write_request \<times> write_preview) svc" where
  "svc_reconcile sv tenant org actor i =
     bind_s (require_admin sv org actor) (\<lambda>_.
     bind_s tables (\<lambda>db.
     case get_request db tenant i of None \<Rightarrow> raise_w (RemediationError ''request_not_found'')
     | Some (r, p) \<Rightarrow>
       if pv_org p \<noteq> org then raise_w (RemediationError ''request_not_found'')
       else bind_s (require_enabled sv (pv_action p)) (\<lambda>_.
         bind_s (clock sv) (\<lambda>t.
         bind_s (guard_s (reconcilable t r) ''request_not_reconcilable'') (\<lambda>_.
         bind_s (require_admin sv org (rq_actor r)) (\<lambda>_.
         bind_s (require_admin sv org (case rq_reviewer r of Some v \<Rightarrow> v | None \<Rightarrow> [])) (\<lambda>_.
         bind_s (outside (ex_lease (sv_ext sv) \<lparr>lc_org = org, lc_grant = rq_grant r, lc_action = pv_action p,
           lc_mode = ''preview'', lc_request = i, lc_sha256 = pv_sha256 p, lc_actor = rq_actor r,
           lc_reviewer = rq_reviewer r\<rparr>)) (\<lambda>lease.
         bind_s (lift_w (leased lease)) (\<lambda>resource.
         let plan = (case pv_plan p of PDict d \<Rightarrow> d | _ \<Rightarrow> []) in
         bind_s (lift_w (get_item ''resource_sha256'' plan)) (\<lambda>sha.
         bind_s (guard_s (doc_sha sv resource = sha) ''resource_grant_changed'') (\<lambda>_.
         bind_s (if pv_action p = github_action then outside (ex_github_reconcile (sv_ext sv) lease i plan)
                 else aws_reconcile sv lease resource plan) (\<lambda>result.
         bind_s (clock sv) (\<lambda>t'.
         bind_s (in_store (reconcile_finish t' tenant i actor result)) (\<lambda>_. svc_status tenant i))))))))))))))"

end
