(* ===== verification/Remediation_Calls.thy ===== *)
theory Remediation_Calls
  imports Remediation_Service
begin

text \<open>
  What a call of the service does to the world and to the tables. The locale \<open>call_order\<close> lifts a
  reflexive, transitive relation on states over the combinators; it is interpreted on the two relations
  of interest, an unchanged provider and a step of the store.
\<close>

section \<open>Relations kept by actions\<close>

definition keeps :: "(write_db \<times> 'w \<Rightarrow> write_db \<times> 'w \<Rightarrow> bool) \<Rightarrow> ('w, 'a) svc \<Rightarrow> bool" where
  "keeps R m \<longleftrightarrow> (\<forall>s. R s (snd (m s)))"

locale call_order =
  fixes R :: "write_db \<times> 'w \<Rightarrow> write_db \<times> 'w \<Rightarrow> bool"
  assumes refl: "R s s" and trans: "R s s' \<Longrightarrow> R s' s'' \<Longrightarrow> R s s''"
begin

lemma ret: "keeps R (ret x)" and raise: "keeps R (raise_w e)" and lift: "keeps R (lift_w r)"
  and read: "keeps R tables" and guard: "keeps R (guard_s b c)"
  by (simp_all add: keeps_def ret_def raise_w_def lift_w_def tables_def guard_s_def refl)

lemma bind: "keeps R m \<Longrightarrow> (\<And>x. keeps R (f x)) \<Longrightarrow> keeps R (bind_s m f)"
  unfolding keeps_def bind_s_def by (auto split: prod.splits sum.splits) (metis snd_conv trans)+

end

section \<open>The two relations\<close>

definition same_view :: "('w \<Rightarrow> 'p) \<Rightarrow> write_db \<times> 'w \<Rightarrow> write_db \<times> 'w \<Rightarrow> bool" where
  "same_view V s s' \<longleftrightarrow> V (snd s) = V (snd s')"

definition store_order :: "write_db \<times> 'w \<Rightarrow> write_db \<times> 'w \<Rightarrow> bool" where
  "store_order s s' \<longleftrightarrow> table_step (fst s) (fst s') \<and> (table_inv (fst s) \<longrightarrow> table_inv (fst s'))"

interpretation view_o: call_order "same_view V" for V
  by unfold_locales (auto simp: same_view_def)

interpretation store_o: call_order store_order
  by unfold_locales (auto simp: store_order_def intro: table_step_trans)

lemma keeps_outside_view: "(\<And>w. V (snd (f w)) = V w) \<Longrightarrow> keeps (same_view V) (outside f)"
  by (auto simp: keeps_def same_view_def outside_def Let_def split: prod.splits) (metis snd_conv)

lemma keeps_outside_store: "keeps store_order (outside f)"
  by (auto simp: keeps_def store_order_def outside_def Let_def split: prod.splits)

lemma keeps_in_store_view: "keeps (same_view V) (in_store f)"
  by (auto simp: keeps_def same_view_def in_store_def split: sum.splits)

lemma keeps_in_store:
  assumes "\<And>db db'. f db = Inr db' \<Longrightarrow> table_step db db' \<and> (table_inv db \<longrightarrow> table_inv db')"
  shows "keeps store_order (in_store f)"
  using assms by (auto simp: keeps_def store_order_def in_store_def split: sum.splits)

text \<open>
  The documented behaviour of the outside: only the two provider writes change what \<open>V\<close> shows of the
  providers.
\<close>

definition reads_only :: "('w \<Rightarrow> 'p) \<Rightarrow> 'w externals \<Rightarrow> bool" where
  "reads_only V e \<longleftrightarrow> (\<forall>w. V (snd (ex_now e w)) = V w)
     \<and> (\<forall>f. ex_role e = Some f \<longrightarrow> (\<forall>a b w. V (snd (f a b w)) = V w))
     \<and> (\<forall>a b w. V (snd (ex_finding e a b w)) = V w) \<and> (\<forall>c w. V (snd (ex_lease e c w)) = V w)
     \<and> (\<forall>l r p w. V (snd (ex_get_policy e l r p w)) = V w)
     \<and> (\<forall>l q w. V (snd (ex_github_snapshot e l q w)) = V w)
     \<and> (\<forall>l i q w. V (snd (ex_github_reconcile e l i q w)) = V w)"

named_theorems quiet "actions that do not change the provider"
named_theorems stepping "actions that step the tables"

lemmas [quiet] = view_o.ret view_o.raise view_o.lift view_o.read view_o.guard view_o.bind keeps_in_store_view
lemmas [stepping] = store_o.ret store_o.raise store_o.lift store_o.read store_o.guard store_o.bind keeps_outside_store

lemma clock_quiet [quiet]: "reads_only V (sv_ext sv) \<Longrightarrow> keeps (same_view V) (clock sv)"
  unfolding clock_def by (rule keeps_outside_view) (simp add: reads_only_def Let_def split: prod.splits, metis snd_conv)

lemma clock_step [stepping]: "keeps store_order (clock sv)"
  unfolding clock_def by (rule keeps_outside_store)

lemma require_admin_quiet [quiet]: "reads_only V (sv_ext sv) \<Longrightarrow> keeps (same_view V) (require_admin sv org user)"
  unfolding require_admin_def
  by (cases "ex_role (sv_ext sv)")
    (auto simp: reads_only_def view_o.raise intro!: keeps_outside_view split: prod.splits sum.splits write_error.splits,
     (metis snd_conv)+)

lemma require_admin_step [stepping]: "keeps store_order (require_admin sv org user)"
  unfolding require_admin_def by (auto simp: store_o.raise keeps_outside_store split: option.splits)

lemma require_enabled_quiet [quiet]: "keeps (same_view V) (require_enabled sv action)"
  and require_enabled_step [stepping]: "keeps store_order (require_enabled sv action)"
  by (simp_all add: require_enabled_def view_o.guard store_o.guard)

lemma aws_snapshot_quiet [quiet]: "reads_only V (sv_ext sv) \<Longrightarrow> keeps (same_view V) (aws_snapshot sv lease resource)"
  unfolding aws_snapshot_def
  by (auto simp: reads_only_def view_o.raise intro!: keeps_outside_view
      split: prod.splits option.splits pyval.splits, (metis snd_conv)+)

lemma aws_snapshot_step [stepping]: "keeps store_order (aws_snapshot sv lease resource)"
  unfolding aws_snapshot_def by (auto simp: store_o.raise keeps_outside_store split: option.splits prod.splits)

lemma aws_reconcile_quiet [quiet]: "reads_only V (sv_ext sv) \<Longrightarrow> keeps (same_view V) (aws_reconcile sv lease resource plan)"
  unfolding aws_reconcile_def by (intro quiet)

lemma aws_reconcile_step [stepping]: "keeps store_order (aws_reconcile sv lease resource plan)"
  unfolding aws_reconcile_def by (intro stepping)

lemma external_quiet [quiet]:
  assumes "reads_only V (sv_ext sv)"
  shows "keeps (same_view V) (outside (ex_finding (sv_ext sv) a b))"
    "keeps (same_view V) (outside (ex_lease (sv_ext sv) c))"
    "keeps (same_view V) (outside (ex_github_snapshot (sv_ext sv) l q'))"
    "keeps (same_view V) (outside (ex_github_reconcile (sv_ext sv) l i q))"
  using assms by (auto simp: reads_only_def intro!: keeps_outside_view)

lemma store_methods_step [stepping]:
  "keeps store_order (in_store (store_preview i p))"
  "keeps store_order (in_store (store_review t tenant i actor decision remark))"
  "keeps store_order (in_store (mark_provider_attempted t tenant i nonce))"
  "keeps store_order (in_store (reconcile_finish t tenant i actor result))"
  by (rule keeps_in_store, metis table_step_preview table_inv_preview store_review_Inr mark_Inr(1,2) reconcile_Inr)+

section \<open>The calls\<close>

lemma plan_inputs_quiet [quiet]: "reads_only V (sv_ext sv) \<Longrightarrow> keeps (same_view V) (plan_inputs sv execute row)"
  unfolding plan_inputs_def by (intro quiet) (auto intro!: quiet split: option.splits)

lemma plan_inputs_step [stepping]: "keeps store_order (plan_inputs sv execute row)"
  unfolding plan_inputs_def by (intro stepping) (auto intro!: stepping split: option.splits)

lemma github_plan_quiet [quiet]:
  "reads_only V (sv_ext sv) \<Longrightarrow> keeps (same_view V) (github_plan sv common finding lease resource parameters)"
  unfolding github_plan_def by (intro quiet) (auto intro!: quiet split: prod.splits)

lemma github_plan_step [stepping]: "keeps store_order (github_plan sv common finding lease resource parameters)"
  unfolding github_plan_def by (intro stepping) (auto intro!: stepping split: prod.splits)

lemma build_plan_quiet [quiet]: "reads_only V (sv_ext sv) \<Longrightarrow> keeps (same_view V) (build_plan sv execute row)"
  unfolding build_plan_def by (intro quiet) (auto intro!: quiet simp: Let_def split: prod.splits)

lemma build_plan_step [stepping]: "keeps store_order (build_plan sv execute row)"
  unfolding build_plan_def by (intro stepping) (auto intro!: stepping simp: Let_def split: prod.splits)

lemma execute_prepare_quiet [quiet]: "reads_only V (sv_ext sv) \<Longrightarrow> keeps (same_view V) (execute_prepare sv i r p)"
  unfolding execute_prepare_def by (intro quiet) (auto intro!: quiet split: prod.splits)

lemma execute_prepare_step [stepping]: "keeps store_order (execute_prepare sv i r p)"
  unfolding execute_prepare_def by (intro stepping) (auto intro!: stepping split: prod.splits)

lemma svc_status_quiet [quiet]: "keeps (same_view V) (svc_status tenant i)"
  unfolding svc_status_def by (intro quiet) (auto intro!: quiet split: option.splits)

lemma svc_status_step [stepping]: "keeps store_order (svc_status tenant i)"
  unfolding svc_status_def by (intro stepping) (auto intro!: stepping split: option.splits)

lemma svc_preview_quiet: "reads_only V (sv_ext sv) \<Longrightarrow> keeps (same_view V) (svc_preview sv row)"
  unfolding svc_preview_def by (intro quiet) (auto intro!: quiet simp: Let_def split: prod.splits)

lemma svc_preview_step: "keeps store_order (svc_preview sv row)"
  unfolding svc_preview_def
  by (intro stepping) (auto intro!: stepping simp: Let_def split: prod.splits)

lemma svc_review_quiet: "reads_only V (sv_ext sv) \<Longrightarrow> keeps (same_view V) (svc_review sv tenant org actor i decision remark)"
  unfolding svc_review_def by (intro quiet) (auto intro!: quiet split: prod.splits option.splits)

lemma svc_review_step: "keeps store_order (svc_review sv tenant org actor i decision remark)"
  unfolding svc_review_def
  by (intro stepping) (auto intro!: stepping split: prod.splits option.splits)

lemma svc_reconcile_quiet: "reads_only V (sv_ext sv) \<Longrightarrow> keeps (same_view V) (svc_reconcile sv tenant org actor i)"
  unfolding svc_reconcile_def by (intro quiet) (auto intro!: quiet simp: Let_def split: prod.splits option.splits)

lemma svc_reconcile_step: "keeps store_order (svc_reconcile sv tenant org actor i)"
  unfolding svc_reconcile_def
  by (intro stepping) (auto intro!: stepping simp: Let_def split: prod.splits option.splits)

lemma keeps_store_request_view:
  "keeps (same_view V) (\<lambda>s. case store_request t i tenant pid actor key j (fst s) of
     Inl e \<Rightarrow> (Inl e, s) | Inr (db', k, _) \<Rightarrow> svc_status tenant k (db', snd s))"
  using svc_status_quiet [of V tenant]
  by (fastforce simp: keeps_def same_view_def split: sum.splits prod.splits)

lemma keeps_store_request:
  "keeps store_order (\<lambda>s. case store_request t i tenant pid actor key j (fst s) of
     Inl e \<Rightarrow> (Inl e, s) | Inr (db', k, _) \<Rightarrow> svc_status tenant k (db', snd s))"
proof -
  have "store_order s (snd (svc_status tenant k (db', snd s)))"
    if "store_request t i tenant pid actor key j (fst s) = Inr (db', k, r)" for s db' k r
  proof -
    have "request_db t i tenant pid actor key j (fst s) = Inr db'" by (simp add: request_db_def that)
    then have "store_order s (db', snd s)" using request_db_Inr by (auto simp: store_order_def)
    moreover have "store_order (db', snd s) (snd (svc_status tenant k (db', snd s)))"
      using svc_status_step [of tenant k] unfolding keeps_def by blast
    ultimately show ?thesis by (rule store_o.trans)
  qed
  then show ?thesis by (auto simp: keeps_def store_o.refl split: sum.splits prod.splits)
qed

lemma svc_request_quiet:
  "reads_only V (sv_ext sv) \<Longrightarrow> keeps (same_view V) (svc_request sv i tenant org actor pid sha key j)"
  unfolding svc_request_def
  by (intro quiet) (auto intro!: quiet keeps_store_request_view split: option.splits)

lemma svc_request_step: "keeps store_order (svc_request sv i tenant org actor pid sha key j)"
  unfolding svc_request_def
  by (intro stepping) (auto intro!: stepping keeps_store_request split: option.splits)

section \<open>What a call has established when it goes on\<close>

lemma bind_s_Inr: "bind_s m f s = (Inr y, s') \<longleftrightarrow> (\<exists>x s1. m s = (Inr x, s1) \<and> f x s1 = (Inr y, s'))"
  by (auto simp: bind_s_def split: prod.splits sum.splits)

lemma bind_change:
  assumes "keeps (same_view V) m" "\<not> same_view V s (snd (bind_s m f s))"
  shows "\<exists>x s1. m s = (Inr x, s1) \<and> same_view V s s1 \<and> \<not> same_view V s1 (snd (f x s1)) \<and> bind_s m f s = f x s1"
proof -
  obtain res s1 where m: "m s = (res, s1)" by (cases "m s")
  have same: "same_view V s s1" using assms(1) m by (metis keeps_def snd_conv)
  show ?thesis
  proof (cases res)
    case (Inl e)
    then show ?thesis using assms(2) m same by (simp add: bind_s_def)
  next
    case (Inr x)
    then have eq: "bind_s m f s = f x s1" by (simp add: bind_s_def m)
    then show ?thesis using assms(2) m same Inr by (auto simp: same_view_def)
  qed
qed

lemma guard_s_Inr [simp]: "guard_s ok code s = (Inr x, s') \<longleftrightarrow> ok \<and> s' = s"
  by (auto simp: guard_s_def ret_def raise_w_def)

lemma ret_Inr [simp]: "ret x s = (Inr y, s') \<longleftrightarrow> y = x \<and> s' = s"
  by (auto simp: ret_def)

lemma lift_w_Inr [simp]: "lift_w r s = (Inr y, s') \<longleftrightarrow> r = Inr y \<and> s' = s"
  by (auto simp: lift_w_def)

lemma raise_w_Inr [simp]: "raise_w e s \<noteq> (Inr y, s')"
  by (simp add: raise_w_def)

text \<open>The answer of a quiet action comes with an unchanged view.\<close>

lemma quiet_same: "keeps (same_view V) m \<Longrightarrow> m s = (r, s') \<Longrightarrow> V (snd s') = V (snd s)"
  unfolding keeps_def same_view_def by (metis snd_conv)

lemma outside_Inr: "outside f s = (Inr x, s') \<longleftrightarrow> (\<exists>w. f (snd s) = (Inr x, w) \<and> s' = (fst s, w))"
  by (auto simp: outside_def Let_def split: prod.splits)

text \<open>The membership service has answered that a user is an administrator.\<close>

definition admin_seen :: "'w service \<Rightarrow> string \<Rightarrow> string \<Rightarrow> bool" where
  "admin_seen sv org user \<longleftrightarrow> (\<exists>role w. ex_role (sv_ext sv) = Some role \<and> fst (role org user w) = Inr ''admin'')"

lemma require_admin_Inr: "require_admin sv org user s = (Inr x, s') \<Longrightarrow> admin_seen sv org user"
  by (auto simp: require_admin_def admin_seen_def outside_Inr
      split: option.splits prod.splits sum.splits write_error.splits if_splits) (metis fst_conv)+

text \<open>The lease service has given a lease for the write of a row.\<close>

definition lease_given :: "'w service \<Rightarrow> string \<Rightarrow> string \<Rightarrow> string \<Rightarrow> string \<Rightarrow> string \<Rightarrow> string option \<Rightarrow> attrs \<Rightarrow> bool" where
  "lease_given sv i org grant action actor reviewer lease \<longleftrightarrow> (\<exists>c w. lc_org c = org \<and> lc_grant c = grant \<and> lc_action c = action
     \<and> lc_mode c = ''execute'' \<and> lc_request c = i \<and> lc_actor c = actor \<and> lc_reviewer c = reviewer
     \<and> fst (ex_lease (sv_ext sv) c w) = Inr lease)"

lemma plan_inputs_Inr:
  assumes "plan_inputs sv True row s = (Inr (finding, lease, resource), s')"
  shows "pr_action row \<in> set (sv_enabled sv)" "\<exists>v. pr_reviewer row = Some v \<and> v \<noteq> pr_actor row"
    "leased lease = Inr resource"
    "lease_given sv (pr_id row) (pr_org row) (pr_grant row) (pr_action row) (pr_actor row) (pr_reviewer row) lease"
proof -
  show "pr_action row \<in> set (sv_enabled sv)" "\<exists>v. pr_reviewer row = Some v \<and> v \<noteq> pr_actor row"
    "leased lease = Inr resource"
    using assms by (auto simp: plan_inputs_def bind_s_Inr require_enabled_def split: option.splits if_splits)
  obtain h s1 s2 where "outside (ex_lease (sv_ext sv) \<lparr>lc_org = pr_org row, lc_grant = pr_grant row,
      lc_action = pr_action row, lc_mode = ''execute'', lc_request = pr_id row, lc_sha256 = h, lc_actor = pr_actor row,
      lc_reviewer = pr_reviewer row\<rparr>) s1 = (Inr lease, s2)"
    using assms by (fastforce simp: plan_inputs_def bind_s_Inr split: option.splits if_splits)
  then show "lease_given sv (pr_id row) (pr_org row) (pr_grant row) (pr_action row) (pr_actor row) (pr_reviewer row) lease"
    unfolding lease_given_def outside_Inr by (metis fst_conv lease_call.select_convs)
qed

text \<open>The policy of a role, as a lease reads it.\<close>

definition policy_read :: "'w service \<Rightarrow> attrs \<Rightarrow> string \<Rightarrow> string \<Rightarrow> 'w \<Rightarrow> attrs \<Rightarrow> bool" where
  "policy_read sv lease arn name w d \<longleftrightarrow> fst (ex_get_policy (sv_ext sv) lease (role_name arn) name w) = Some (PDict d)"

lemma aws_snapshot_Inr:
  assumes "aws_snapshot sv lease resource s = (Inr d, s')"
  shows "\<exists>arn name. attr_get resource ''target_role_arn'' = PStr arn \<and> attr_get resource ''policy_name'' = PStr name
    \<and> policy_read sv lease arn name (snd s) d
    \<and> snd s' = snd (ex_get_policy (sv_ext sv) lease (role_name arn) name (snd s))"
  using assms by (auto simp: aws_snapshot_def resource_texts_def policy_read_def outside_Inr
      split: option.splits pyval.splits prod.splits)

lemma build_plan_Inr:
  assumes "build_plan sv True row s = (Inr (plan, lease, resource, pp), s')"
  shows "pr_action row \<in> set (sv_enabled sv)" "\<exists>v. pr_reviewer row = Some v \<and> v \<noteq> pr_actor row"
    "lease_given sv (pr_id row) (pr_org row) (pr_grant row) (pr_action row) (pr_actor row) (pr_reviewer row) lease"
proof -
  obtain finding s1 where inputs: "plan_inputs sv True row s = (Inr (finding, lease, resource), s1)"
    using assms by (fastforce simp: build_plan_def bind_s_Inr Let_def split: prod.splits if_splits)
  show "pr_action row \<in> set (sv_enabled sv)" "\<exists>v. pr_reviewer row = Some v \<and> v \<noteq> pr_actor row"
    "lease_given sv (pr_id row) (pr_org row) (pr_grant row) (pr_action row) (pr_actor row) (pr_reviewer row) lease"
    by (rule plan_inputs_Inr [OF inputs])+
qed

text \<open>What the provider will write agrees with the plan: a file's content by its blob hash, a policy by
  its hash, beside the hash of the policy that was read and that it narrows.\<close>

definition content_planned :: "'w service \<Rightarrow> attrs \<Rightarrow> string \<Rightarrow> bool" where
  "content_planned sv plan content \<longleftrightarrow> map_of plan ''proposed_file_sha'' = Some (PStr (sv_blob_sha sv content))"

definition policy_planned :: "'w service \<Rightarrow> attrs \<Rightarrow> string \<Rightarrow> string \<Rightarrow> attrs \<Rightarrow> attrs \<Rightarrow> bool" where
  "policy_planned sv plan arn name document proposed \<longleftrightarrow>
     map_of plan ''target_role_arn'' = Some (PStr arn) \<and> map_of plan ''policy_name'' = Some (PStr name)
     \<and> map_of plan ''before_sha256'' = Some (doc_sha sv document) \<and> map_of plan ''proposed_sha256'' = Some (doc_sha sv proposed)
     \<and> document_narrowed document proposed"

lemma github_plan_Inr:
  assumes "github_plan sv common finding lease resource parameters s = (Inr (plan, content), s')"
  shows "content_planned sv plan content"
  using assms by (auto simp: github_plan_def bind_s_Inr content_planned_def dict_simps split: prod.splits)

lemma build_plan_github:
  assumes "build_plan sv True row s = (Inr (plan, lease, resource, pp), s')" "pr_action row = github_action"
  shows "\<exists>content. pp = Patch content \<and> content_planned sv plan content"
  using assms by (auto simp: build_plan_def bind_s_Inr Let_def dest!: github_plan_Inr split: prod.splits)

lemma build_plan_aws:
  assumes "reads_only V (sv_ext sv)" "build_plan sv True row s = (Inr (plan, lease, resource, pp), s')"
    and "pr_action row \<noteq> github_action"
  shows "\<exists>arn name document proposed w1. pp = Policy proposed \<and> policy_planned sv plan arn name document proposed
    \<and> attr_get resource ''target_role_arn'' = PStr arn \<and> attr_get resource ''policy_name'' = PStr name
    \<and> V w1 = V (snd s) \<and> policy_read sv lease arn name w1 document"
proof -
  obtain finding document proposed s1 s2 where run: "plan_inputs sv True row s = (Inr (finding, lease, resource), s1)"
      "aws_snapshot sv lease resource s1 = (Inr document, s2)"
      "tighten_inline_policy (sv_float sv) finding document (pr_parameters row) resource = Inr proposed"
      "pp = Policy proposed" "plan = aws_plan sv (plan_common sv finding resource (pr_action row)) document proposed resource"
    using assms(2,3) by (auto simp: build_plan_def bind_s_Inr Let_def split: prod.splits)
  obtain arn name where read: "attr_get resource ''target_role_arn'' = PStr arn" "attr_get resource ''policy_name'' = PStr name"
      "policy_read sv lease arn name (snd s1) document"
    using aws_snapshot_Inr [OF run(2)] by blast
  have "policy_planned sv plan arn name document proposed"
    using tighten_inline_policy_narrows(1) [OF run(3)] read(1,2)
    by (simp add: policy_planned_def run(5) aws_plan_def plan_common_def)
  then show ?thesis using run(4) read quiet_same [OF plan_inputs_quiet [OF assms(1)] run(1)] by blast
qed

lemma execute_prepare_Inr:
  assumes "reads_only V (sv_ext sv)" "execute_prepare sv i r p s = (Inr (plan, lease, resource, pp), s')"
  shows "py_eq (PDict plan) (pv_plan p)" "admin_seen sv (pv_org p) (rq_actor r)"
    "admin_seen sv (pv_org p) (case rq_reviewer r of Some v \<Rightarrow> v | None \<Rightarrow> [])"
    "\<exists>s1 s2. build_plan sv True (stored_row i r p) s1 = (Inr (plan, lease, resource, pp), s2) \<and> V (snd s1) = V (snd s)"
proof -
  show "py_eq (PDict plan) (pv_plan p)" "admin_seen sv (pv_org p) (rq_actor r)"
    "admin_seen sv (pv_org p) (case rq_reviewer r of Some v \<Rightarrow> v | None \<Rightarrow> [])"
    using assms(2) by (auto simp: execute_prepare_def bind_s_Inr dest: require_admin_Inr split: prod.splits)
  obtain t s1 s2 where "clock sv s = (Inr t, s1)" "build_plan sv True (stored_row i r p) s1 = (Inr (plan, lease, resource, pp), s2)"
    using assms(2) by (auto simp: execute_prepare_def bind_s_Inr split: prod.splits)
  then show "\<exists>s1 s2. build_plan sv True (stored_row i r p) s1 = (Inr (plan, lease, resource, pp), s2) \<and> V (snd s1) = V (snd s)"
    using quiet_same [OF clock_quiet [OF assms(1)]] by blast
qed

section \<open>The provider write\<close>

lemma aws_put_write:
  assumes "attr_get resource ''target_role_arn'' = PStr arn" "attr_get resource ''policy_name'' = PStr name"
  shows "snd (snd (aws_put sv lease resource proposed s)) = snd (ex_put_policy (sv_ext sv) lease (role_name arn) name proposed (snd s))"
  using assms by (auto simp: aws_put_def resource_texts_def outside_def Let_def split: prod.splits bool.splits)

lemma bind_quiet_after:
  assumes "\<And>x. keeps (same_view V) (f x)"
  shows "V (snd (snd (bind_s m f s))) = V (snd (snd (m s)))"
  using assms by (auto simp: bind_s_def keeps_def same_view_def split: prod.splits sum.splits)

text \<open>The write of a policy comes right after a read of it whose hash is the planned one.\<close>

lemma aws_execute_write:
  assumes "reads_only V (sv_ext sv)" "\<not> same_view V s (snd (aws_execute_once sv lease resource plan proposed s))"
    and res: "attr_get resource ''target_role_arn'' = PStr arn" "attr_get resource ''policy_name'' = PStr name"
  shows "\<exists>current. policy_read sv lease arn name (snd s) current \<and> map_of plan ''before_sha256'' = Some (doc_sha sv current)
    \<and> V (snd (snd (aws_execute_once sv lease resource plan proposed s)))
      = V (snd (ex_put_policy (sv_ext sv) lease (role_name arn) name proposed
          (snd (ex_get_policy (sv_ext sv) lease (role_name arn) name (snd s)))))"
proof -
  let ?rest = "bind_s (aws_put sv lease resource proposed) (\<lambda>_. aws_reconcile sv lease resource plan)"
  from bind_change [OF aws_snapshot_quiet [OF assms(1)] assms(2) [unfolded aws_execute_once_def]]
  obtain d s1 where 1: "aws_snapshot sv lease resource s = (Inr d, s1)"
      "\<not> same_view V s1 (snd (bind_s (lift_w (get_item ''before_sha256'' plan))
        (\<lambda>sha. bind_s (guard_s (doc_sha sv d = sha) ''aws_policy_drift'') (\<lambda>_. ?rest)) s1))"
      "aws_execute_once sv lease resource plan proposed s = bind_s (lift_w (get_item ''before_sha256'' plan))
        (\<lambda>sha. bind_s (guard_s (doc_sha sv d = sha) ''aws_policy_drift'') (\<lambda>_. ?rest)) s1"
    unfolding aws_execute_once_def by blast
  from bind_change [OF view_o.lift 1(2)] obtain sha s2 where 2: "lift_w (get_item ''before_sha256'' plan) s1 = (Inr sha, s2)"
      "\<not> same_view V s2 (snd (bind_s (guard_s (doc_sha sv d = sha) ''aws_policy_drift'') (\<lambda>_. ?rest) s2))"
      "aws_execute_once sv lease resource plan proposed s
        = bind_s (guard_s (doc_sha sv d = sha) ''aws_policy_drift'') (\<lambda>_. ?rest) s2"
    unfolding 1(3) by blast
  from bind_change [OF view_o.guard 2(2)] obtain x s3 where 3: "guard_s (doc_sha sv d = sha) ''aws_policy_drift'' s2 = (Inr x, s3)"
      "aws_execute_once sv lease resource plan proposed s = ?rest s3"
    unfolding 2(3) by blast
  have s3: "s3 = s1" "get_item ''before_sha256'' plan = Inr (doc_sha sv d)" using 2(1) 3(1) by auto
  have "V (snd (snd (?rest s3))) = V (snd (snd (aws_put sv lease resource proposed s3)))"
    by (rule bind_quiet_after) (intro quiet assms(1))
  moreover have "policy_read sv lease arn name (snd s) d"
      "snd s1 = snd (ex_get_policy (sv_ext sv) lease (role_name arn) name (snd s))"
    using aws_snapshot_Inr [OF 1(1)] res by auto
  ultimately show ?thesis using s3 3(2) aws_put_write [OF res, of sv lease proposed s1]
    by (auto simp: get_item_def split: option.splits)
qed

section \<open>Executing a request\<close>

lemma approved_before_claim:
  assumes "take_lease now dbnow nonce i (abandon_expired dbnow i (fail_expired dbnow i db)) = Some (db', r)"
  shows "\<exists>r0. get_req db i = Some r0 \<and> rq_state r0 = APPROVED \<and> rq_phase r0 = NOT_STARTED
    \<and> r = r0\<lparr>rq_state := RUNNING, rq_nonce := Some nonce, rq_lease_expires := Some (now + lease_duration)\<rparr>"
  using assms
  by (auto simp: take_lease_def abandon_expired_def fail_expired_def Let_def split: option.splits if_splits)

lemma abandon_previews [simp]: "wd_previews (abandon_expired dbnow i (fail_expired dbnow i db)) = wd_previews db"
  by (auto simp: abandon_expired_def fail_expired_def split: option.splits)

lemma take_lease_previews: "take_lease now dbnow nonce i db = Some (db', r) \<Longrightarrow> wd_previews db' = wd_previews db"
  by (auto simp: take_lease_def Let_def split: option.splits if_splits)

lemma claim_Some:
  assumes "claim now dbnow nonce i db = (db', Some (r, p))"
  shows "\<exists>r0. get_req db i = Some r0 \<and> rq_state r0 = APPROVED \<and> rq_phase r0 = NOT_STARTED
    \<and> rq_reviewer r = rq_reviewer r0 \<and> rq_actor r = rq_actor r0 \<and> rq_grant r = rq_grant r0 \<and> get_pv db (rq_preview r0) = Some p"
proof -
  obtain db2 r2 where t: "take_lease now dbnow nonce i (abandon_expired dbnow i (fail_expired dbnow i db)) = Some (db2, r2)"
      "get_request db2 (rq_tenant r2) i = Some (r, p)"
    using assms by (auto simp: claim_def Let_def split: option.splits)
  have r: "r = r2" using take_lease_Some(3) [OF t(1)] get_request_SomeD [OF t(2)] by simp
  have "get_pv db2 (rq_preview r) = Some p"
    using t(2) by (auto simp: get_request_def preview_of_def split: option.splits if_splits)
  then have "get_pv db (rq_preview r) = Some p" using take_lease_previews [OF t(1)] by simp
  then show ?thesis using approved_before_claim [OF t(1)] r by auto
qed

lemma execute_body_write:
  assumes "reads_only V (sv_ext sv)" "\<not> same_view V s (snd (execute_body sv nonce i r p s))"
  shows "\<exists>plan lease resource pp s2 s3. execute_prepare sv i r p s = (Inr (plan, lease, resource, pp), s2)
    \<and> same_view V s s3 \<and> \<not> same_view V s3 (snd (provider_execute sv i plan lease resource pp s3))
    \<and> snd (execute_body sv nonce i r p s) = snd (provider_execute sv i plan lease resource pp s3)"
proof -
  let ?k = "\<lambda>(plan, lease, resource, pp). bind_s (clock sv) (\<lambda>t.
     bind_s (in_store (mark_provider_attempted t (rq_tenant r) i nonce)) (\<lambda>_.
     provider_execute sv i plan lease resource pp))"
  from bind_change [OF execute_prepare_quiet [OF assms(1)] assms(2) [unfolded execute_body_def]]
  obtain plan lease resource pp s1 where 1: "execute_prepare sv i r p s = (Inr (plan, lease, resource, pp), s1)"
      "same_view V s s1" "\<not> same_view V s1 (snd (?k (plan, lease, resource, pp) s1))"
      "execute_body sv nonce i r p s = ?k (plan, lease, resource, pp) s1"
    unfolding execute_body_def by (metis prod_cases4)
  from bind_change [OF clock_quiet [OF assms(1)] 1(3) [unfolded prod.case]] obtain t s2 where 2: "same_view V s1 s2"
      "\<not> same_view V s2 (snd (bind_s (in_store (mark_provider_attempted t (rq_tenant r) i nonce)) (\<lambda>_.
        provider_execute sv i plan lease resource pp) s2))"
      "execute_body sv nonce i r p s = bind_s (in_store (mark_provider_attempted t (rq_tenant r) i nonce)) (\<lambda>_.
        provider_execute sv i plan lease resource pp) s2"
    unfolding 1(4) prod.case by blast
  from bind_change [OF keeps_in_store_view 2(2)] obtain s3 where 3: "same_view V s2 s3"
      "\<not> same_view V s3 (snd (provider_execute sv i plan lease resource pp s3))"
      "execute_body sv nonce i r p s = provider_execute sv i plan lease resource pp s3"
    unfolding 2(3) by blast
  have "same_view V s s3" using 1(2) 2(1) 3(1) by (simp add: same_view_def)
  then show ?thesis using 1(1) 3(2,3) by metis
qed

lemma provider_execute_step: "keeps store_order (provider_execute sv i plan lease resource pp)"
  unfolding provider_execute_def aws_execute_once_def aws_put_def
  by (cases pp) (auto intro!: stepping simp: raise_w_def split: option.splits)

lemma execute_body_step: "keeps store_order (execute_body sv nonce i r p)"
  unfolding execute_body_def by (intro stepping) (auto intro!: stepping provider_execute_step split: prod.splits)

lemma svc_execute_step: "store_order s (svc_execute sv nonce i s)"
proof -
  have claimed: "store_order (db, w) (fst (claim now dbnow nonce i db), w')" for db and w w' :: 'a and now dbnow
    by (simp add: store_order_def claim_m.steps claim_m.keeps)
  have finished: "store_order (db, w) (finish t tenant i nonce x db, w')" for db and w w' :: 'a and t tenant x
    by (simp add: store_order_def finish_m.steps finish_m.keeps)
  obtain now w1 dbnow w2 where clocks: "ex_now (sv_ext sv) (snd s) = (now, w1)" "ex_now (sv_ext sv) w1 = (dbnow, w2)"
    by (metis surj_pair)
  obtain db1 found where c: "claim now dbnow nonce i (fst s) = (db1, found)" by (cases "claim now dbnow nonce i (fst s)")
  have s1: "store_order s (db1, w2)" using claimed [of "fst s" "snd s" now dbnow w2] by (simp add: c)
  show ?thesis
  proof (cases found)
    case None
    then show ?thesis using s1 by (simp add: svc_execute_def clocks c)
  next
    case (Some rp)
    obtain r p where rp: "found = Some (r, p)" using Some by (cases rp) simp
    obtain res db2 w3 where out: "execute_body sv nonce i r p (db1, w2) = (res, (db2, w3))"
      by (metis surj_pair)
    have s2: "store_order (db1, w2) (db2, w3)" using execute_body_step [of sv nonce i r p] out
      unfolding keeps_def by (metis snd_conv)
    obtain t w4 where "ex_now (sv_ext sv) w3 = (t, w4)" by (cases "ex_now (sv_ext sv) w3")
    then show ?thesis using store_o.trans [OF s1 store_o.trans [OF s2 finished]]
      by (simp add: svc_execute_def clocks c rp out)
  qed
qed

end
