(* ===== verification/Service_Props.thy ===== *)
theory Service_Props
  imports Remediation_Calls
begin

text \<open>The properties of the wildcard match, of the tightened policies and of the service.\<close>

section \<open>The wildcard match\<close>

text \<open>
  C22. The backtracking loop of \<open>_iam_resource_matches\<close> always ends, and its answer is the reading of
  the pattern: \<open>*\<close> is any text, \<open>?\<close> any character, every other character itself.
\<close>

theorem iam_match_correct: "iam_resource_matches v p = Some (iam_glob v p)"
  by (rule iam_matches_Some)

text \<open>
  C40. The loop stops after at most \<open>(length p + 1) * (length v + 1)\<^sup>2\<close> iterations, whatever the number of
  stars, so a bounded policy cannot make it run exponentially long.
\<close>

theorem iam_match_bound:
  "\<exists>k \<le> (length p + 1) * (length v + 1)\<^sup>2. \<not> iam_more v ((iam_step v p ^^ k) iam_init)"
proof -
  have "\<exists>k \<le> iam_measure v p iam_init. \<not> iam_more v ((iam_step v p ^^ k) iam_init)"
    by (rule iterations_bound [where P = "iam_inv v p"]) (simp_all add: iam_step_inv iam_step_measure iam_inv_init)
  then show ?thesis using iam_measure_init [of v p] by (meson order_trans)
qed

theorem iam_match_bound_witness:
  "\<exists>k \<le> 32. \<not> iam_more ''aab'' ((iam_step ''aab'' ''*'' ^^ k) iam_init)"
  using iam_match_bound [of "''*''" "''aab''"] by (simp add: power2_eq_square numeral_eq_Suc)

section \<open>A demonstration\<close>

definition demo_arn :: string where "demo_arn = ''arn:aws:bedrock:us-east-1::foundation-model/m''"

definition demo_finding :: attrs where
  "demo_finding = [(''rule_uid'', PStr ''DENALI-AWS-AI-IAM-001''), (''state'', PStr ''open''),
     (''evaluation_result'', PStr ''fail''), (''attributes'', PDict [(''role_arn'', PStr ''arn:aws:iam::1:role/r'')]),
     (''evidence'', PDict [(''payload'', PDict [(''configured_model_ids'', PList [PStr ''m'']),
       (''matching_policy_statements'', PList [PDict [(''policy_kind'', PStr ''inline''), (''policy_name'', PStr ''p'')]])])])]"

definition demo_resource :: attrs where
  "demo_resource = [(''target_role_arn'', PStr ''arn:aws:iam::1:role/r''), (''policy_name'', PStr ''p''),
     (''account_id'', PStr ''1'')]"

definition demo_statement :: "pyval \<Rightarrow> pyval" where
  "demo_statement res = PDict [(''Effect'', PStr ''Allow''), (''Action'', PStr ''bedrock:InvokeModel''), (''Resource'', res)]"

definition demo_document :: attrs where
  "demo_document = [(''Version'', PStr ''2012-10-17''), (''Statement'', PList [demo_statement (PStr ''*'')])]"

definition demo_proposed :: attrs where
  "demo_proposed = [(''Version'', PStr ''2012-10-17''), (''Statement'', PList [demo_statement (PList [PStr demo_arn])])]"

definition demo_parameters :: attrs where "demo_parameters = [(''model_arns'', PList [PStr demo_arn])]"

definition demo_float :: "pyfloat \<Rightarrow> string" where "demo_float f = ''0.0''"

lemma demo_tighten:
  "tighten_inline_policy demo_float demo_finding demo_document demo_parameters demo_resource = Inr demo_proposed"
  by code_simp

section \<open>Tightening a policy\<close>

text \<open>
  C20. When \<open>tighten_inline_policy\<close> proposes a document, the document is the old one but for the
  resources of some statements, at least one: each such statement had wildcard resources, has none
  now, and covers no resource that it did not cover before.
\<close>

theorem tightened_policy_narrows:
  assumes "tighten_inline_policy fl finding document parameters resource = Inr proposed"
  shows "document_narrowed document proposed"
  by (rule tighten_inline_policy_narrows(1) [OF assms])

theorem tightened_policy_narrows_witness:
  "document_narrowed demo_document demo_proposed \<and> demo_proposed \<noteq> demo_document"
proof -
  have "demo_proposed \<noteq> demo_document" by (simp add: demo_proposed_def demo_document_def demo_statement_def)
  then show ?thesis using tightened_policy_narrows [OF demo_tighten] by blast
qed

section \<open>The service\<close>

definition demo_externals :: "attrs list externals" where
  "demo_externals = \<lparr>ex_now = (\<lambda>w. (0, w)), ex_role = Some (\<lambda>org user w. (Inr ''admin'', w)),
     ex_finding = (\<lambda>tenant i w. (Inr (Some demo_finding), w)),
     ex_lease = (\<lambda>c w. (Inr [(''resource'', PDict demo_resource)], w)),
     ex_get_policy = (\<lambda>l r p w. (Some (PDict (case w of [] \<Rightarrow> demo_document | d # _ \<Rightarrow> d)), w)),
     ex_put_policy = (\<lambda>l r p d w. (True, d # w)),
     ex_github_snapshot = (\<lambda>l q w. (reject ''unavailable'', w)),
     ex_github_write = (\<lambda>l i q c w. (reject ''unavailable'', w)),
     ex_github_reconcile = (\<lambda>l i q w. (reject ''unavailable'', w))\<rparr>"

definition demo_service :: "attrs list service" where
  "demo_service = \<lparr>sv_ext = demo_externals, sv_enabled = [aws_action], sv_float = demo_float,
     sv_diff = (\<lambda>a b. ''diff''), sv_patch = (\<lambda>f c q. reject ''unavailable''), sv_blob_sha = (\<lambda>c. ''sha'')\<rparr>"

definition demo_plan :: attrs where
  "demo_plan = aws_plan demo_service (plan_common demo_service demo_finding demo_resource aws_action)
     demo_document demo_proposed demo_resource"

definition demo_aws_preview :: write_preview where
  "demo_aws_preview = \<lparr>pv_tenant = ''t'', pv_org = ''o'', pv_finding = ''f'', pv_grant = ''g'', pv_action = aws_action,
     pv_actor = ''alice'', pv_parameters = PDict demo_parameters, pv_plan = PDict demo_plan, pv_sha256 = ''h'',
     pv_expires_at = 100\<rparr>"

definition demo_aws_request :: write_request where
  "demo_aws_request = \<lparr>rq_tenant = ''t'', rq_preview = ''p'', rq_key = ''key-12345'', rq_hash = ''x'',
     rq_justification = ''why'', rq_actor = ''alice'', rq_reviewer = Some ''bob'', rq_note = Some ''ok'',
     rq_state = APPROVED, rq_phase = NOT_STARTED, rq_grant = ''g'', rq_nonce = None, rq_lease_expires = None,
     rq_attempted_at = None, rq_result = None, rq_error = None, rq_call_id = None\<rparr>"

definition demo_aws_db :: write_db where
  "demo_aws_db = \<lparr>wd_previews = [(''p'', demo_aws_preview)], wd_requests = [(''r'', demo_aws_request)], wd_audit = []\<rparr>"

lemma demo_reads_only: "reads_only id (sv_ext demo_service)"
  by (simp add: reads_only_def demo_service_def demo_externals_def)

lemma demo_inputs:
  assumes "pr_action row = aws_action" "pr_reviewer row = Some ''bob''" "pr_actor row = ''alice''"
  shows "plan_inputs demo_service True row s =
    (Inr (demo_finding, [(''resource'', PDict demo_resource)], demo_resource), s)"
proof -
  have "open_finding demo_finding aws_action = Inr ()" by code_simp
  moreover have "demo_finding \<noteq> []" by (simp add: demo_finding_def)
  ultimately show ?thesis using assms
    by (simp add: plan_inputs_def require_enabled_def require_admin_def guard_s_def ret_def outside_def lift_w_def
      leased_def bind_s_def demo_service_def demo_externals_def)
qed

lemma demo_build_plan:
  assumes "pr_action row = aws_action" "pr_reviewer row = Some ''bob''" "pr_actor row = ''alice''"
    "pr_parameters row = demo_parameters"
  shows "build_plan demo_service True row (db, []) =
    (Inr (demo_plan, [(''resource'', PDict demo_resource)], demo_resource, Policy demo_proposed), (db, []))"
proof -
  have "aws_snapshot demo_service lease demo_resource (db, []) = (Inr demo_document, (db, []))" for lease
    by (simp add: aws_snapshot_def resource_texts_def demo_resource_def attr_get_def outside_def demo_service_def
      demo_externals_def)
  moreover have "tighten_inline_policy (sv_float demo_service) demo_finding demo_document demo_parameters demo_resource
      = Inr demo_proposed"
    using demo_tighten by (simp add: demo_service_def)
  moreover have "aws_action \<noteq> github_action" by (simp add: aws_action_def github_action_def)
  ultimately show ?thesis using assms
    by (simp add: build_plan_def demo_inputs bind_s_def Let_def lift_w_def ret_def demo_plan_def)
qed

lemma demo_plan_eq: "py_eq (PDict demo_plan) (PDict demo_plan)"
  by (simp add: demo_plan_def aws_plan_def plan_common_def doc_sha_def demo_resource_def attr_get_def feq.simps)

lemma demo_execute: "V (snd (svc_execute demo_service ''n'' ''r'' (demo_aws_db, []))) = V [demo_proposed]"
proof -
  have "get_req demo_aws_db ''r'' = Some demo_aws_request" by (simp add: demo_aws_db_def)
  then obtain db where c: "claim 0 0 ''n'' ''r'' demo_aws_db = (db, Some (leased_request 0 ''n'' demo_aws_request, demo_aws_preview))"
      "get_req db ''r'' = Some (leased_request 0 ''n'' demo_aws_request)" "wd_previews db = wd_previews demo_aws_db"
    using claim_approved [of demo_aws_db "''r''" demo_aws_request demo_aws_preview 0 0 "''n''"]
    by (auto simp: demo_aws_request_def demo_aws_preview_def demo_aws_db_def)
  define r where "r = leased_request 0 ''n'' demo_aws_request"
  have r: "rq_reviewer r = Some ''bob''" "rq_actor r = ''alice''" by (simp_all add: r_def demo_aws_request_def)
  obtain db' where m: "mark_provider_attempted 0 (rq_tenant r) ''r'' ''n'' db = Inr db'"
    using mark_leased [OF c(2), of "''n''" demo_aws_preview 0 lease_duration] c(3)
    by (auto simp: demo_aws_request_def demo_aws_preview_def demo_aws_db_def lease_duration_def micros_per_minute_def r_def)
  have prep: "execute_prepare demo_service ''r'' r demo_aws_preview (db, []) =
      (Inr (demo_plan, [(''resource'', PDict demo_resource)], demo_resource, Policy demo_proposed), (db, []))"
    using demo_build_plan [of "stored_row ''r'' r demo_aws_preview" db] r demo_plan_eq
    by (simp add: execute_prepare_def bind_s_def clock_def outside_def guard_s_def ret_def stored_row_def
      demo_aws_preview_def require_admin_def demo_service_def demo_externals_def)
  have put: "snd (snd (provider_execute demo_service ''r'' demo_plan lease demo_resource (Policy demo_proposed) (db', [])))
      = [demo_proposed]" for lease
  proof -
    have "get_item ''before_sha256'' demo_plan = Inr (doc_sha demo_service demo_document)"
      "get_item ''proposed_sha256'' demo_plan = Inr (doc_sha demo_service demo_proposed)"
      by (simp_all add: demo_plan_def aws_plan_def plan_common_def get_item_def)
    then show ?thesis
      by (simp add: provider_execute_def aws_execute_once_def aws_snapshot_def aws_put_def aws_reconcile_def
        bind_s_def guard_s_def ret_def lift_w_def outside_def resource_texts_def demo_resource_def attr_get_def
        demo_service_def demo_externals_def)
  qed
  have clock: "ex_now (sv_ext demo_service) w = (0, w)" for w
    by (simp add: demo_service_def demo_externals_def)
  obtain res db2 w2 where out: "provider_execute demo_service ''r'' demo_plan [(''resource'', PDict demo_resource)]
      demo_resource (Policy demo_proposed) (db', []) = (res, db2, w2)"
    by (metis surj_pair)
  moreover have "w2 = [demo_proposed]" using put [of "[(''resource'', PDict demo_resource)]"] out by simp
  ultimately show ?thesis
    by (simp add: svc_execute_def clock Let_def c(1) r_def [symmetric] execute_body_def bind_s_def prep clock_def
      outside_def in_store_def m)
qed

text \<open>A dictionary equal to another holds the same texts.\<close>

lemma py_eq_texts:
  assumes "py_eq (PDict d) v"
  shows "\<exists>e. v = PDict e \<and> (\<forall>k t. map_of d k = Some (PStr t) \<longrightarrow> map_of e k = Some (PStr t))"
proof -
  obtain e where e: "v = PDict e" "\<forall>p \<in> set d. case map_of e (fst p) of None \<Rightarrow> False | Some w \<Rightarrow> py_eq (snd p) w"
    using assms by (auto split: pyval.splits)
  have "map_of e k = Some (PStr t)" if "map_of d k = Some (PStr t)" for k t
    using bspec [OF e(2) map_of_SomeD [OF that]] by (auto split: option.splits)
  then show ?thesis using e(1) by blast
qed

lemma planned_approved:
  assumes "\<forall>k t. map_of plan k = Some (PStr t) \<longrightarrow> map_of approved k = Some (PStr t)"
  shows "content_planned sv plan content \<Longrightarrow> content_planned sv approved content"
    "policy_planned sv plan arn name document proposed \<Longrightarrow> policy_planned sv approved arn name document proposed"
  using assms by (auto simp: content_planned_def policy_planned_def doc_sha_def)

text \<open>
  The one write on GitHub: the content whose blob hash the approved plan has. The one write on AWS: under the
  role and the policy name of the approved plan, a document with the hash of the plan, which narrows the
  policy that was read there; another read there right before the write gave the hash of that policy again.
\<close>

definition file_written :: "('w \<Rightarrow> 'p) \<Rightarrow> 'w service \<Rightarrow> string \<Rightarrow> attrs \<Rightarrow> attrs \<Rightarrow> 'w \<Rightarrow> 'p \<Rightarrow> bool" where
  "file_written V sv i approved lease w after \<longleftrightarrow> (\<exists>content plan w0. content_planned sv approved content
     \<and> py_eq (PDict plan) (PDict approved) \<and> V w0 = V w \<and> after = V (snd (ex_github_write (sv_ext sv) lease i plan content w0)))"

definition policy_written :: "('w \<Rightarrow> 'p) \<Rightarrow> 'w service \<Rightarrow> attrs \<Rightarrow> attrs \<Rightarrow> 'w \<Rightarrow> 'p \<Rightarrow> bool" where
  "policy_written V sv approved lease w after \<longleftrightarrow> (\<exists>arn name document current proposed w1 w2.
     policy_planned sv approved arn name document proposed
     \<and> V w1 = V w \<and> policy_read sv lease arn name w1 document
     \<and> V w2 = V w \<and> policy_read sv lease arn name w2 current \<and> doc_sha sv current = doc_sha sv document
     \<and> after = V (snd (ex_put_policy (sv_ext sv) lease (role_name arn) name proposed
         (snd (ex_get_policy (sv_ext sv) lease (role_name arn) name w2)))))"

lemma planned_write:
  assumes "reads_only V (sv_ext sv)" "build_plan sv True (stored_row i r p) s = (Inr (plan, lease, resource, pp), s')"
    and "py_eq (PDict plan) (PDict approved)" "V (snd s) = V w" "V (snd s3) = V w"
    and "\<not> same_view V s3 (snd (provider_execute sv i plan lease resource pp s3))"
  shows "if pv_action p = github_action
    then file_written V sv i approved lease w (V (snd (snd (provider_execute sv i plan lease resource pp s3))))
    else policy_written V sv approved lease w (V (snd (snd (provider_execute sv i plan lease resource pp s3))))"
proof -
  have texts: "\<forall>k t. map_of plan k = Some (PStr t) \<longrightarrow> map_of approved k = Some (PStr t)"
    using py_eq_texts [OF assms(3)] by blast
  have action: "pr_action (stored_row i r p) = pv_action p" by (simp add: stored_row_def)
  show ?thesis
  proof (cases "pv_action p = github_action")
    case True
    obtain content where pp: "pp = Patch content" "content_planned sv plan content"
      using build_plan_github [OF assms(2)] True action by metis
    have "snd (snd (provider_execute sv i plan lease resource pp s3)) = snd (ex_github_write (sv_ext sv) lease i plan content (snd s3))"
      by (simp add: pp(1) provider_execute_def outside_def Let_def split: prod.splits)
    then have "file_written V sv i approved lease w (V (snd (snd (provider_execute sv i plan lease resource pp s3))))"
      unfolding file_written_def using planned_approved(1) [OF texts pp(2)] assms(3,5) by metis
    with True show ?thesis by simp
  next
    case False
    obtain arn name document proposed w1 where pp: "pp = Policy proposed" "policy_planned sv plan arn name document proposed"
        "attr_get resource ''target_role_arn'' = PStr arn" "attr_get resource ''policy_name'' = PStr name"
        "V w1 = V (snd s)" "policy_read sv lease arn name w1 document"
      using build_plan_aws [OF assms(1,2)] False action by metis
    have run: "provider_execute sv i plan lease resource pp s3 = aws_execute_once sv lease resource plan proposed s3"
      by (simp add: pp(1) provider_execute_def)
    obtain current where current: "policy_read sv lease arn name (snd s3) current"
        "map_of plan ''before_sha256'' = Some (doc_sha sv current)"
        "V (snd (snd (aws_execute_once sv lease resource plan proposed s3)))
           = V (snd (ex_put_policy (sv_ext sv) lease (role_name arn) name proposed
               (snd (ex_get_policy (sv_ext sv) lease (role_name arn) name (snd s3)))))"
      using aws_execute_write [OF assms(1) assms(6) [unfolded run] pp(3,4)] by blast
    have "doc_sha sv current = doc_sha sv document" using current(2) pp(2) by (simp add: policy_planned_def)
    then have "policy_written V sv approved lease w (V (snd (snd (provider_execute sv i plan lease resource pp s3))))"
      unfolding policy_written_def run using planned_approved(2) [OF texts pp(2)] pp(5,6) current(1,3) assms(4,5) by metis
    with False show ?thesis by simp
  qed
qed

text \<open>
  C2. Let \<open>V\<close> show what only the providers' writes change. When \<open>execute\<close> changed it, the request had been
  approved, by a person other than its author, and had not been started; its action is enabled, both people
  were seen to be administrators of the organisation, and the lease service gave a lease on the request's grant
  in mode \<open>execute\<close>. Exactly one write was made under that lease, the one of the approved plan. On GitHub it
  is a content with the blob hash of the plan. On AWS it goes to the role and the policy name of the plan and
  is a document with the hash of the plan, which narrows the policy read there; a second read there directly
  before the write gave a policy with the same hash, the one the plan recorded.
\<close>

theorem execute_writes_approved:
  assumes "reads_only V (sv_ext sv)" and "V (snd (svc_execute sv nonce i (db, w))) \<noteq> V w"
  shows "\<exists>r p v approved lease. get_req db i = Some r \<and> rq_state r = APPROVED \<and> rq_phase r = NOT_STARTED
    \<and> rq_reviewer r = Some v \<and> v \<noteq> rq_actor r
    \<and> get_pv db (rq_preview r) = Some p \<and> pv_plan p = PDict approved \<and> pv_action p \<in> set (sv_enabled sv)
    \<and> admin_seen sv (pv_org p) (rq_actor r) \<and> admin_seen sv (pv_org p) v
    \<and> lease_given sv i (pv_org p) (rq_grant r) (pv_action p) (rq_actor r) (Some v) lease
    \<and> (if pv_action p = github_action
       then file_written V sv i approved lease w (V (snd (svc_execute sv nonce i (db, w))))
       else policy_written V sv approved lease w (V (snd (svc_execute sv nonce i (db, w)))))"
proof -
  have now: "V (snd (ex_now (sv_ext sv) w)) = V w" for w using assms(1) by (simp add: reads_only_def)
  obtain now w1 dbnow w2 where clocks: "ex_now (sv_ext sv) w = (now, w1)" "ex_now (sv_ext sv) w1 = (dbnow, w2)"
    by (metis surj_pair)
  have w2: "V w2 = V w" using now [of w] now [of w1] by (simp add: clocks)
  obtain db1 found where c: "claim now dbnow nonce i db = (db1, found)" by (cases "claim now dbnow nonce i db")
  obtain r p where rp: "found = Some (r, p)" using assms(2) w2 by (cases found) (auto simp: svc_execute_def clocks c)
  let ?s = "(db1, w2)" let ?out = "execute_body sv nonce i r p ?s"
  have out: "V (snd (svc_execute sv nonce i (db, w))) = V (snd (snd ?out))"
    using now by (simp add: svc_execute_def clocks c rp Let_def split: prod.splits) (metis snd_conv)
  then have "\<not> same_view V ?s (snd ?out)" using assms(2) w2 by (simp add: same_view_def)
  then obtain plan lease resource pp s2 s3 where b:
      "execute_prepare sv i r p ?s = (Inr (plan, lease, resource, pp), s2)" "same_view V ?s s3"
      "\<not> same_view V s3 (snd (provider_execute sv i plan lease resource pp s3))"
      "snd ?out = snd (provider_execute sv i plan lease resource pp s3)"
    using execute_body_write [OF assms(1)] by blast
  note prepared = execute_prepare_Inr [OF assms(1) b(1)]
  obtain s4 s5 where bp: "build_plan sv True (stored_row i r p) s4 = (Inr (plan, lease, resource, pp), s5)" "V (snd s4) = V w"
    using prepared(4) w2 by auto
  obtain approved where approved: "pv_plan p = PDict approved" using py_eq_texts [OF prepared(1)] by blast
  have "V (snd s3) = V w" using b(2) w2 by (simp add: same_view_def)
  from planned_write [OF assms(1) bp(1) prepared(1) [unfolded approved] bp(2) this b(3)]
  have written: "if pv_action p = github_action
       then file_written V sv i approved lease w (V (snd (svc_execute sv nonce i (db, w))))
       else policy_written V sv approved lease w (V (snd (svc_execute sv nonce i (db, w))))"
    unfolding out b(4) .
  obtain v where v: "rq_reviewer r = Some v" "v \<noteq> rq_actor r" and enabled: "pv_action p \<in> set (sv_enabled sv)"
    using build_plan_Inr(1,2) [OF bp(1)] by (auto simp: stored_row_def)
  have lease: "lease_given sv i (pv_org p) (rq_grant r) (pv_action p) (rq_actor r) (Some v) lease"
    using build_plan_Inr(3) [OF bp(1)] v by (simp add: stored_row_def)
  show ?thesis using claim_Some [OF c [unfolded rp]] approved written v enabled lease prepared(2,3) by (metis option.simps(5))
qed

theorem execute_writes_approved_witness:
  "id (snd (svc_execute demo_service ''n'' ''r'' (demo_aws_db, []))) \<noteq> [] \<and>
   policy_written id demo_service demo_plan [(''resource'', PDict demo_resource)] [] [demo_proposed]"
proof -
  have changed: "id (snd (svc_execute demo_service ''n'' ''r'' (demo_aws_db, []))) \<noteq> id []"
    using demo_execute [of id] by simp
  obtain r p v approved lease where "get_req demo_aws_db ''r'' = Some r" "get_pv demo_aws_db (rq_preview r) = Some p"
      "pv_plan p = PDict approved"
      "lease_given demo_service ''r'' (pv_org p) (rq_grant r) (pv_action p) (rq_actor r) (Some v) lease"
      "if pv_action p = github_action
       then file_written id demo_service ''r'' approved lease [] (id (snd (svc_execute demo_service ''n'' ''r'' (demo_aws_db, []))))
       else policy_written id demo_service approved lease [] (id (snd (svc_execute demo_service ''n'' ''r'' (demo_aws_db, []))))"
    using execute_writes_approved [OF demo_reads_only changed] by blast
  moreover from this have "p = demo_aws_preview" "approved = demo_plan" "lease = [(''resource'', PDict demo_resource)]"
    by (auto simp: demo_aws_db_def demo_aws_request_def demo_aws_preview_def lease_given_def demo_service_def demo_externals_def)
  moreover have "aws_action \<noteq> github_action" by (simp add: aws_action_def github_action_def)
  ultimately show ?thesis using changed demo_execute [of id] by (simp add: demo_aws_preview_def)
qed

text \<open>
  Preview, request, review and reconciliation never change what a provider holds, whatever they
  answer.
\<close>

theorem other_calls_only_read:
  assumes "reads_only V (sv_ext sv)"
  shows "V (snd (snd (svc_preview sv row s))) = V (snd s)
    \<and> V (snd (snd (svc_request sv i tenant org actor pid sha key j s))) = V (snd s)
    \<and> V (snd (snd (svc_review sv tenant org actor i decision remark s))) = V (snd s)
    \<and> V (snd (snd (svc_reconcile sv tenant org actor i s))) = V (snd s)"
  using svc_preview_quiet [OF assms, of row] svc_request_quiet [OF assms, of i tenant org actor pid sha key j]
    svc_review_quiet [OF assms, of tenant org actor i decision remark] svc_reconcile_quiet [OF assms, of tenant org actor i]
  unfolding keeps_def same_view_def by metis

theorem other_calls_only_read_witness:
  "id (snd (snd (svc_reconcile demo_service ''t'' ''o'' ''bob'' ''r'' (demo_aws_db, [])))) = []"
  using other_calls_only_read [OF demo_reads_only, of undefined "(demo_aws_db, [])"] by simp

text \<open>Every call implements the contract of the store, so the facts on its tables hold through the service.\<close>

lemma service_steps_store:
  "store_order s (snd (svc_preview sv row s))" "store_order s (snd (svc_request sv i tenant org actor pid sha key j s))"
  "store_order s (snd (svc_review sv tenant org actor i decision remark s))"
  "store_order s (svc_execute sv nonce i s)" "store_order s (snd (svc_reconcile sv tenant org actor i s))"
  using svc_preview_step [of sv row] svc_request_step [of sv i tenant org actor pid sha key j]
    svc_review_step [of sv tenant org actor i decision remark] svc_execute_step [of s sv nonce i]
    svc_reconcile_step [of sv tenant org actor i]
  by (cases s, simp add: keeps_def)+

end
