(* ===== verification/Static_Cfn.thy ===== *)
theory Static_Cfn
  imports Py_Value
begin

text \<open>
  \<open>src/denali/connectors/static_deployment_values.py\<close>: bounds on template documents, the reading of YAML
  nodes, and the static resolution of CloudFormation expressions with its depth and its budget. The YAML
  parser (\<open>yaml.compose\<close>) and \<open>json.loads\<close> are outside: the document functions start from the node tree
  and from the parsed pairs.
\<close>

section \<open>Bounds of a document\<close>

definition max_nodes :: nat where "max_nodes = 50000"
definition max_depth :: nat where "max_depth = 32"
definition max_value_length :: nat where "max_value_length = 1024"
definition max_parts :: nat where "max_parts = 128"

text \<open>\<open>_json_preflight\<close>: \<open>quoted\<close>, \<open>escaped\<close>, \<open>depth\<close> and \<open>nodes\<close>; \<open>False\<close> is the \<open>ValueError\<close>.\<close>

fun preflight :: "bool \<Rightarrow> bool \<Rightarrow> int \<Rightarrow> nat \<Rightarrow> string \<Rightarrow> bool" where
  "preflight quoted escaped depth nodes [] = True"
| "preflight quoted escaped depth nodes (c # s) =
     (if quoted then
        (if escaped then preflight True False depth nodes s
         else if c = CHR 0x5C then preflight True True depth nodes s
         else preflight (c \<noteq> CHR 0x22) False depth nodes s)
      else
        let quoted' = (c = CHR 0x22);
            opening = (c = CHR 0x5B \<or> c = CHR 0x7B);
            depth' = (if opening then depth + 1 else if c = CHR 0x5D \<or> c = CHR 0x7D then depth - 1 else depth);
            nodes' = (if opening \<or> c = CHR '','' \<or> c = CHR '':'' then nodes + 1 else nodes)
        in if int max_depth < depth' \<or> max_nodes < nodes' then False
           else preflight quoted' escaped depth' nodes' s)"

definition json_preflight :: "string \<Rightarrow> bool" where
  "json_preflight text = preflight False False 0 0 text"

text \<open>\<open>_unique_object\<close>, the hook for the pairs of an object; \<open>None\<close> is the \<open>ValueError\<close>.\<close>

fun unique_object_from :: "attrs \<Rightarrow> attrs \<Rightarrow> attrs option" where
  "unique_object_from result [] = Some result"
| "unique_object_from result ((key, v) # pairs) =
     (if map_of result key \<noteq> None then None else unique_object_from (dict_set key v result) pairs)"

definition unique_object :: "attrs \<Rightarrow> attrs option" where
  "unique_object pairs = unique_object_from [] pairs"

text \<open>\<open>_bounded_json\<close>: the count after the value, \<open>None\<close> when a bound is exceeded.\<close>

fun json_children :: "pyval \<Rightarrow> pyval list" where
  "json_children (PDict d) = map snd d"
| "json_children (PList xs) = xs"
| "json_children _ = []"

lemma json_children_size: "c \<in> set (json_children v) \<Longrightarrow> size c < size v"
proof (cases v)
  case (PList xs)
  assume "c \<in> set (json_children v)"
  then show ?thesis using PList by (auto simp: less_Suc_eq_le size_list_estimation')
next
  case (PDict d)
  assume "c \<in> set (json_children v)"
  then obtain k where "(k, c) \<in> set d" using PDict by auto
  then have "size c \<le> size_list (size_prod (\<lambda>x. 0) size) d"
    by (intro size_list_estimation' [of "(k, c)"]) auto
  then show ?thesis using PDict by simp
qed simp_all

function bounded_json :: "pyval \<Rightarrow> nat \<Rightarrow> nat \<Rightarrow> nat option" where
  "bounded_json v depth count =
     (if max_depth < depth \<or> max_nodes < count + 1 then None
      else fold (\<lambda>c acc. Option.bind acc (bounded_json c (depth + 1))) (json_children v) (Some (count + 1)))"
  by pat_completeness auto
termination
  by (relation "measure (\<lambda>(v, depth, count). size v)") (auto simp: json_children_size)

declare bounded_json.simps [simp del]

section \<open>YAML nodes\<close>

text \<open>A composed node: its identity, its tag, and its content.\<close>

datatype yaml_node =
    Scalar_Node nat string string
  | Sequence_Node nat string "yaml_node list"
  | Mapping_Node nat string "(yaml_node \<times> yaml_node) list"

fun node_id :: "yaml_node \<Rightarrow> nat" where
  "node_id (Scalar_Node i _ _) = i" | "node_id (Sequence_Node i _ _) = i" | "node_id (Mapping_Node i _ _) = i"

fun node_tag :: "yaml_node \<Rightarrow> string" where
  "node_tag (Scalar_Node _ t _) = t" | "node_tag (Sequence_Node _ t _) = t" | "node_tag (Mapping_Node _ t _) = t"

definition yaml_tag :: "string \<Rightarrow> string" where
  "yaml_tag kind = ''tag:yaml.org,2002:'' @ kind"

definition normal_tag :: "string \<Rightarrow> bool" where
  "normal_tag t \<longleftrightarrow> t \<in> yaml_tag ` {''str'', ''seq'', ''map'', ''int'', ''float'', ''bool'', ''null'', ''timestamp''}"

text \<open>The tail of \<open>_yaml_value\<close>: a tag \<open>!Name\<close> is the intrinsic of that name.\<close>

definition tagged_value :: "string \<Rightarrow> pyval \<Rightarrow> pyval \<Rightarrow> pyval option" where
  "tagged_value t payload v =
     (case t of
        c # name \<Rightarrow> if c = CHR 0x21 then Some (PDict [(if name = ''Ref'' then ''Ref'' else ''Fn::'' @ name, payload)])
          else if startswith t (yaml_tag []) then Some v else None
      | [] \<Rightarrow> None)"

fun literal_key :: "yaml_node \<Rightarrow> string option" where
  "literal_key (Scalar_Node _ t s) = (if t = yaml_tag ''str'' then Some s else None)"
| "literal_key _ = None"

text \<open>The state of the traversal is the set of the nodes seen and their count.\<close>

type_synonym 'a walk = "nat set \<times> nat \<Rightarrow> ('a \<times> (nat set \<times> nat)) option"

definition visit :: "yaml_node \<Rightarrow> nat \<Rightarrow> nat set \<times> nat \<Rightarrow> (nat set \<times> nat) option" where
  "visit node depth st = (case st of (seen, count) \<Rightarrow>
     if max_depth < depth \<or> max_nodes < count + 1 \<or> node_id node \<in> seen then None
     else if \<not> startswith (node_tag node) [CHR 0x21] \<and> \<not> normal_tag (node_tag node) then None
     else Some (insert (node_id node) seen, count + 1))"

fun yaml_value :: "nat \<Rightarrow> yaml_node \<Rightarrow> pyval walk"
  and yaml_values :: "nat \<Rightarrow> yaml_node list \<Rightarrow> pyval list walk"
  and yaml_pairs :: "nat \<Rightarrow> (yaml_node \<times> yaml_node) list \<Rightarrow> attrs walk" where
  "yaml_value depth (Scalar_Node i t s) st =
     Option.bind (visit (Scalar_Node i t s) depth st) (\<lambda>st1.
     map_option (\<lambda>v. (v, st1)) (tagged_value t (PStr s) (if t = yaml_tag ''str'' then PStr s else PNone)))"
| "yaml_value depth (Sequence_Node i t ns) st =
     Option.bind (visit (Sequence_Node i t ns) depth st) (\<lambda>st1.
     Option.bind (yaml_values (depth + 1) ns st1) (\<lambda>(vs, st2).
     map_option (\<lambda>v. (v, st2)) (tagged_value t (PList vs) (PList vs))))"
| "yaml_value depth (Mapping_Node i t ps) st =
     Option.bind (visit (Mapping_Node i t ps) depth st) (\<lambda>st1.
     Option.bind (yaml_pairs (depth + 1) ps st1) (\<lambda>(pairs, st2).
     Option.bind (unique_object pairs) (\<lambda>d.
     map_option (\<lambda>v. (v, st2)) (tagged_value t (PDict d) (PDict d)))))"
| "yaml_values depth [] st = Some ([], st)"
| "yaml_values depth (n # ns) st =
     Option.bind (yaml_value depth n st) (\<lambda>(v, st1).
     Option.bind (yaml_values depth ns st1) (\<lambda>(vs, st2). Some (v # vs, st2)))"
| "yaml_pairs depth [] st = Some ([], st)"
| "yaml_pairs depth ((k, n) # ps) st =
     Option.bind (literal_key k) (\<lambda>key.
     Option.bind (yaml_value depth n st) (\<lambda>(v, st1).
     Option.bind (yaml_pairs depth ps st1) (\<lambda>(vs, st2). Some ((key, v) # vs, st2))))"

text \<open>\<open>cloudformation_document\<close> after the parser; \<open>Inl\<close> is its \<open>ValueError\<close>. A document that is no template is
  \<open>None\<close>.\<close>

definition template_document :: "pyval \<Rightarrow> attrs option" where
  "template_document v = (case v of
     PDict d \<Rightarrow> (case map_of d ''Resources'' of Some (PDict _) \<Rightarrow> Some d | _ \<Rightarrow> None) | _ \<Rightarrow> None)"

definition max_template_bytes :: nat where "max_template_bytes = 2000000"

definition yaml_document :: "string \<Rightarrow> (string \<Rightarrow> yaml_node option option) \<Rightarrow> attrs option res" where
  "yaml_document text compose =
     (if max_template_bytes < length text then Inl (ValueError ''CloudFormation template exceeds the static parsing limit'')
      else case compose text of
          None \<Rightarrow> Inl (ValueError ''CloudFormation template could not be statically parsed'')
        | Some None \<Rightarrow> Inr None
        | Some (Some node) \<Rightarrow> (case yaml_value 0 node ({}, 0) of
              None \<Rightarrow> Inl (ValueError ''CloudFormation template could not be statically parsed'')
            | Some (v, _) \<Rightarrow> Inr (template_document v)))"

definition json_document :: "string \<Rightarrow> (string \<Rightarrow> pyval option) \<Rightarrow> attrs option res" where
  "json_document text loads =
     (if max_template_bytes < length text then Inl (ValueError ''CloudFormation template exceeds the static parsing limit'')
      else if \<not> json_preflight text then Inl (ValueError ''CloudFormation template could not be statically parsed'')
      else case loads text of
          None \<Rightarrow> Inl (ValueError ''CloudFormation template could not be statically parsed'')
        | Some v \<Rightarrow> (case bounded_json v 0 0 of
              None \<Rightarrow> Inl (ValueError ''CloudFormation template could not be statically parsed'')
            | Some _ \<Rightarrow> Inr (template_document v)))"

section \<open>Resolving an expression\<close>

datatype static_state = Literal | Unknown | Ambiguous

record static_value =
  sv_value :: "string option"
  sv_state :: static_state

definition no_value :: static_value where "no_value = \<lparr>sv_value = None, sv_state = Unknown\<rparr>"

definition literal_text :: "string \<Rightarrow> bool" where
  "literal_text t \<longleftrightarrow> 0 < length t \<and> length t \<le> max_value_length \<and> \<not> list_ex (\<lambda>c. (of_char c :: nat) < 32) t
     \<and> \<not> contains [CHR 0x24, CHR 0x7B] t \<and> \<not> contains [CHR 0x7B, CHR 0x7B] t \<and> \<not> contains ''Token['' t"

definition literal_value :: "string option \<Rightarrow> static_value" where
  "literal_value v = (case v of
     Some t \<Rightarrow> if literal_text t then \<lparr>sv_value = Some t, sv_state = Literal\<rparr> else no_value | None \<Rightarrow> no_value)"

text \<open>The matches of \<open>\$\{([^{}]+)\}\<close> in a text, between the characters that are kept.\<close>

definition brace_char :: "char \<Rightarrow> bool" where
  "brace_char c \<longleftrightarrow> c = CHR 0x7B \<or> c = CHR 0x7D"

function substitutions :: "string \<Rightarrow> (char + string) list" where
  "substitutions [] = []"
| "substitutions (c # s) =
     (let key = takeWhile (Not \<circ> brace_char) (tl s); rest = dropWhile (Not \<circ> brace_char) (tl s) in
      if c = CHR 0x24 \<and> s \<noteq> [] \<and> hd s = CHR 0x7B \<and> key \<noteq> [] \<and> rest \<noteq> [] \<and> hd rest = CHR 0x7D
      then Inr key # substitutions (tl rest) else Inl c # substitutions s)"
  by pat_completeness auto
termination
proof (relation "measure length", goal_cases)
  case (2 c s key rest)
  have "length rest \<le> length (tl s)" unfolding 2(2) by (rule length_dropWhile_le)
  then show ?case using 2(3) by simp
qed auto

text \<open>
  The budget is threaded; \<open>None\<close> is \<open>StaticResolutionLimit\<close>. \<open>map_cfn\<close> resolves the elements of a list in
  their order.
\<close>

type_synonym 'a cfn = "int \<Rightarrow> ('a \<times> int) option"

primrec map_cfn :: "('a \<Rightarrow> 'b cfn) \<Rightarrow> 'a list \<Rightarrow> 'b list cfn" where
  "map_cfn f [] b = Some ([], b)"
| "map_cfn f (x # xs) b = Option.bind (f x b) (\<lambda>(y, b1). map_option (\<lambda>(ys, b2). (y # ys, b2)) (map_cfn f xs b1))"

text \<open>\<open>found = found.get(key) if isinstance(found, dict) else None\<close> along the keys.\<close>

definition find_in_map :: "pyval \<Rightarrow> string list \<Rightarrow> pyval" where
  "find_in_map mappings keys =
     fold (\<lambda>key found. case found of PDict d \<Rightarrow> attr_get d key | _ \<Rightarrow> PNone) keys mappings"

text \<open>The text of a \<open>Fn::Sub\<close> and its variables.\<close>

definition sub_parts :: "pyval \<Rightarrow> (string \<times> attrs) option" where
  "sub_parts e = (case e of
     PStr t \<Rightarrow> Some (t, [])
   | PList [PStr t, PDict d] \<Rightarrow> Some (t, d)
   | _ \<Rightarrow> None)"

definition join_parts :: "pyval \<Rightarrow> (string \<times> pyval list) option" where
  "join_parts e = (case e of PList [PStr sep, PList items] \<Rightarrow>
     if length sep \<le> max_value_length \<and> length items \<le> max_parts then Some (sep, items) else None | _ \<Rightarrow> None)"

definition joined :: "string \<Rightarrow> static_value list \<Rightarrow> static_value" where
  "joined sep parts = (if list_ex (\<lambda>x. sv_value x = None) parts then no_value
     else literal_value (Some (join sep (List.map_filter sv_value parts))))"

definition either_branch :: "static_value \<Rightarrow> static_value \<Rightarrow> static_value" where
  "either_branch yes no = (if sv_value yes \<noteq> None \<and> yes = no then yes
     else \<lparr>sv_value = None, sv_state = (if sv_value yes \<noteq> None \<and> sv_value no \<noteq> None then Ambiguous else Unknown)\<rparr>)"

text \<open>One key decides which intrinsic a dictionary is; each is tested in the order of the code.\<close>

function cfn_value ::
    "(string \<times> string) list \<Rightarrow> attrs \<Rightarrow> nat \<Rightarrow> string list list \<Rightarrow> pyval \<Rightarrow> static_value cfn" where
  "cfn_value bindings mappings depth path v budget =
     (if max_depth < depth \<or> budget - 1 < 0 then None
      else let b = budget - 1; resolve = (\<lambda>item. cfn_value bindings mappings (depth + 1) path item) in
      case v of
        PStr t \<Rightarrow> Some (literal_value (Some t), b)
      | PDict [(k, e)] \<Rightarrow>
          if k = ''Ref'' then
            Some (case e of PStr name \<Rightarrow> literal_value (map_of bindings name) | _ \<Rightarrow> no_value, b)
          else if k = ''Fn::Sub'' then
            (case sub_parts e of
               None \<Rightarrow> Some (no_value, b)
             | Some (text, variables) \<Rightarrow>
                 if max_value_length < length text \<or> max_parts < length variables then Some (no_value, b)
                 else map_option (\<lambda>(parts, b'). (joined [] parts, b'))
                   (map_cfn (\<lambda>part b. case part of
                        Inl c \<Rightarrow> Some (\<lparr>sv_value = Some [c], sv_state = Literal\<rparr>, b)
                      | Inr key \<Rightarrow> (case map_of variables key of
                            Some item \<Rightarrow> resolve item b
                          | None \<Rightarrow> Some (literal_value (map_of bindings key), b))) (substitutions text) b))
          else if k = ''Fn::Join'' then
            (case join_parts e of
               None \<Rightarrow> Some (no_value, b)
             | Some (sep, items) \<Rightarrow> map_option (\<lambda>(parts, b'). (joined sep parts, b')) (map_cfn resolve items b))
          else if k = ''Fn::FindInMap'' then
            (case e of
               PList [x, y, z] \<Rightarrow> Option.bind (map_cfn resolve [x, y, z] b) (\<lambda>(found, b').
                 if list_ex (\<lambda>r. sv_value r = None) found then Some (no_value, b')
                 else let keys = List.map_filter sv_value found in
                   if keys \<in> set path then Some (no_value, b')
                   else cfn_value bindings mappings (depth + 1) (keys # path) (find_in_map (PDict mappings) keys) b')
             | _ \<Rightarrow> Some (no_value, b))
          else if k = ''Fn::If'' then
            (case e of
               PList [c, x, y] \<Rightarrow> Option.bind (resolve x b) (\<lambda>(yes, b1).
                 map_option (\<lambda>(no, b2). (either_branch yes no, b2)) (resolve y b1))
             | _ \<Rightarrow> Some (no_value, b))
          else Some (no_value, b)
      | _ \<Rightarrow> Some (no_value, b))"
  by pat_completeness auto
termination
  by (relation "measure (\<lambda>(bindings, mappings, depth, path, v, budget). max_depth + 1 - depth)") auto

declare cfn_value.simps [simp del]

text \<open>\<open>cloudformation_value\<close> as its callers call it.\<close>

definition initial_budget :: int where "initial_budget = 4096"

definition cloudformation_value :: "(string \<times> string) list \<Rightarrow> attrs \<Rightarrow> pyval \<Rightarrow> static_value option" where
  "cloudformation_value bindings mappings v = map_option fst (cfn_value bindings mappings 0 [] v initial_budget)"

end
