(* ===== verification/Source_Scan.thy ===== *)
theory Source_Scan
  imports Py_Value
begin

text \<open>
  The JavaScript source scanners: \<open>_skip_space_and_comments\<close>, \<open>_balanced_object_end\<close>,
  \<open>_top_level_object_view\<close> and \<open>_line\<close> of \<open>src/denali/connectors/repository_posture.py\<close>, and
  \<open>_code_positions\<close>, \<open>eligible_source_path\<close> and \<open>_literal_property_keys\<close> of
  \<open>src/denali/resource_writes/templates.py\<close>. Positions in the text are kept by scanning its suffix
  with the position as an argument. The lemmas compare the scanners with one lexical automaton.
\<close>

section \<open>Skipping spaces and comments\<close>

text \<open>\<open>text.find(sub, i)\<close> on the suffix at \<open>i\<close>, as an offset.\<close>

fun find_sub :: "string \<Rightarrow> string \<Rightarrow> nat option" where
  "find_sub sub [] = (if sub = [] then Some 0 else None)"
| "find_sub sub (c # s) = (if startswith (c # s) sub then Some 0 else map_option Suc (find_sub sub s))"

lemma find_sub_less: "find_sub sub s = Some k \<Longrightarrow> sub \<noteq> [] \<Longrightarrow> k + length sub \<le> length s"
proof (induction s arbitrary: k)
  case (Cons c s)
  then show ?case by (auto simp: startswith_iff split: if_splits dest!: sym [of "c # s"])
      (metis add_le_cancel_left length_Cons length_append le_add1 plus_1_eq_Suc)
qed simp

abbreviation newline :: char where "newline \<equiv> CHR 0x0A"
abbreviation quote1 :: char where "quote1 \<equiv> CHR 0x27"
abbreviation quote2 :: char where "quote2 \<equiv> CHR 0x22"
abbreviation backtick :: char where "backtick \<equiv> CHR 0x60"
abbreviation backslash :: char where "backslash \<equiv> CHR 0x5C"

function skip_from :: "nat \<Rightarrow> string \<Rightarrow> nat" where
  "skip_from i s =
     (case s of
        [] \<Rightarrow> i
      | c # r \<Rightarrow>
          if is_space c then skip_from (i + 1) r
          else if startswith s ''//'' then
            (case find_sub [newline] (drop 2 s) of
               None \<Rightarrow> i + length s
             | Some k \<Rightarrow> skip_from (i + 2 + k + 1) (drop (2 + k + 1) s))
          else if startswith s ''/*'' then
            (case find_sub ''*/'' (drop 2 s) of
               None \<Rightarrow> i + length s
             | Some k \<Rightarrow> skip_from (i + 2 + k + 2) (drop (2 + k + 2) s))
          else i)"
  by pat_completeness auto
termination by (relation "measure (\<lambda>(i, s). length s)") auto

declare skip_from.simps [simp del]

definition skip_space_and_comments :: "string \<Rightarrow> nat \<Rightarrow> nat" where
  "skip_space_and_comments text start = skip_from start (drop start text)"

lemma skip_from_bounds: "i \<le> skip_from i s \<and> skip_from i s \<le> i + length s"
proof (induction i s rule: skip_from.induct)
  case (1 i s)
  show ?case
  proof (cases s)
    case Nil
    then show ?thesis by (simp add: skip_from.simps)
  next
    case (Cons c r)
    have "k + 1 \<le> length (drop 2 s)" if "find_sub [newline] (drop 2 s) = Some k" for k
      using find_sub_less [OF that] by simp
    moreover have "k + 2 \<le> length (drop 2 s)" if "find_sub ''*/'' (drop 2 s) = Some k" for k
      using find_sub_less [OF that] by simp
    ultimately show ?thesis using 1 [OF Cons]
      by (subst (1 2) skip_from.simps) (fastforce simp: Cons split: option.splits)
  qed
qed

text \<open>Where it stops there is neither a space nor a comment.\<close>

lemma skip_from_stops:
  "skip_from i s = i + k \<Longrightarrow> k < length s \<Longrightarrow>
     \<not> is_space (s ! k) \<and> \<not> startswith (drop k s) ''//'' \<and> \<not> startswith (drop k s) ''/*''"
proof (induction i s arbitrary: k rule: skip_from.induct)
  case (1 i s)
  obtain c r where s: "s = c # r" using 1(5) by (cases s) auto
  consider (space) "is_space c" | (line) "\<not> is_space c" "startswith s ''//''"
    | (block) "\<not> is_space c" "\<not> startswith s ''//''" "startswith s ''/*''"
    | (here) "\<not> is_space c" "\<not> startswith s ''//''" "\<not> startswith s ''/*''"
    by blast
  then show ?case
  proof cases
    case space
    have eq: "skip_from (i + 1) r = i + k" using 1(4) s space by (simp add: skip_from.simps [of i "c # r"])
    with skip_from_bounds [of "i + 1" r] obtain m where "k = Suc m" by (cases k) auto
    then show ?thesis using 1(1) [OF s space, of m] eq 1(5) s by simp
  next
    case line
    show ?thesis
    proof (cases "find_sub [newline] (drop 2 s)")
      case None
      then have "skip_from i s = i + length s" using line by (subst skip_from.simps) (simp add: s)
      then show ?thesis using 1(4,5) by simp
    next
      case (Some n)
      then have eq: "skip_from (i + 2 + n + 1) (drop (2 + n + 1) s) = i + k"
        using 1(4) line by (simp add: skip_from.simps [of i "c # r"] s)
      with skip_from_bounds [of "i + 2 + n + 1" "drop (2 + n + 1) s"] obtain m where m: "k = m + (2 + n + 1)"
        by (metis add.commute add.left_commute add_left_cancel le_Suc_ex nat_add_left_cancel_le)
      have "drop m (drop (2 + n + 1) s) = drop k s" "drop (2 + n + 1) s ! m = s ! k"
        using 1(5) by (simp_all only: m drop_drop nth_drop add.commute [of m])
      then show ?thesis using 1(2) [OF s line Some, of m] eq 1(5) unfolding m by (simp only: length_drop) simp
    qed
  next
    case block
    show ?thesis
    proof (cases "find_sub ''*/'' (drop 2 s)")
      case None
      then have "skip_from i s = i + length s" using block by (subst skip_from.simps) (simp add: s)
      then show ?thesis using 1(4,5) by simp
    next
      case (Some n)
      then have eq: "skip_from (i + 2 + n + 2) (drop (2 + n + 2) s) = i + k"
        using 1(4) block by (simp add: skip_from.simps [of i "c # r"] s)
      with skip_from_bounds [of "i + 2 + n + 2" "drop (2 + n + 2) s"] obtain m where m: "k = m + (2 + n + 2)"
        by (metis add.commute add.left_commute add_left_cancel le_Suc_ex nat_add_left_cancel_le)
      have "drop m (drop (2 + n + 2) s) = drop k s" "drop (2 + n + 2) s ! m = s ! k"
        using 1(5) by (simp_all only: m drop_drop nth_drop add.commute [of m])
      then show ?thesis using 1(3) [OF s block Some, of m] eq 1(5) unfolding m by (simp only: length_drop) simp
    qed
  next
    case here
    then have "k = 0" using 1(4) s by (simp add: skip_from.simps [of i "c # r"])
    then show ?thesis using here s by simp
  qed
qed

definition line_of :: "string \<Rightarrow> nat \<Rightarrow> nat" where
  "line_of text position = count_list (take position text) newline + 1"

section \<open>The end of an object literal\<close>

datatype scan_state = Code | Single | Double | Template | Line_Comment | Block_Comment

fun next_char :: "string \<Rightarrow> char option" where
  "next_char [] = None"
| "next_char (c # s) = Some c"

definition quoted :: "scan_state \<Rightarrow> bool" where
  "quoted st \<longleftrightarrow> st \<in> {Single, Double, Template}"

definition closes :: "scan_state \<Rightarrow> char \<Rightarrow> bool" where
  "closes st c \<longleftrightarrow> st = Single \<and> c = quote1 \<or> st = Double \<and> c = quote2 \<or> st = Template \<and> c = backtick"

text \<open>\<open>balanced_from i depth state escaped s\<close>: the loop at position \<open>i\<close>, \<open>s\<close> the text from there.\<close>

fun balanced_from :: "nat \<Rightarrow> int \<Rightarrow> scan_state \<Rightarrow> bool \<Rightarrow> string \<Rightarrow> nat option" where
  "balanced_from i depth st escaped [] = None"
| "balanced_from i depth st escaped (c # s) =
     (let nxt = next_char s in
      if quoted st then
        (if escaped then balanced_from (i + 1) depth st False s
         else if c = backslash then balanced_from (i + 1) depth st True s
         else if closes st c then balanced_from (i + 1) depth Code escaped s
         else balanced_from (i + 1) depth st escaped s)
      else if st = Line_Comment then balanced_from (i + 1) depth (if c = newline then Code else st) escaped s
      else if st = Block_Comment then
        (if c = CHR ''*'' \<and> nxt = Some (CHR ''/'') then balanced_from (i + 2) depth Code escaped (tl s)
         else balanced_from (i + 1) depth st escaped s)
      else if c = CHR ''/'' \<and> nxt = Some (CHR ''/'') then balanced_from (i + 2) depth Line_Comment escaped (tl s)
      else if c = CHR ''/'' \<and> nxt = Some (CHR ''*'') then balanced_from (i + 2) depth Block_Comment escaped (tl s)
      else if c = quote1 then balanced_from (i + 1) depth Single escaped s
      else if c = quote2 then balanced_from (i + 1) depth Double escaped s
      else if c = backtick then balanced_from (i + 1) depth Template escaped s
      else if c = CHR 0x7B then balanced_from (i + 1) (depth + 1) st escaped s
      else if c = CHR 0x7D then
        (if depth - 1 = 0 then Some i else balanced_from (i + 1) (depth - 1) st escaped s)
      else balanced_from (i + 1) depth st escaped s)"

definition balanced_object_end :: "string \<Rightarrow> nat \<Rightarrow> nat option" where
  "balanced_object_end text start = balanced_from start 0 Code False (drop start text)"

section \<open>The properties of an object at its top level\<close>

fun view_from :: "int \<Rightarrow> int \<Rightarrow> int \<Rightarrow> scan_state \<Rightarrow> bool \<Rightarrow> string \<Rightarrow> string" where
  "view_from curly square paren st escaped [] = []"
| "view_from curly square paren st escaped (c # s) =
     (let nxt = next_char s; base = (curly = 1 \<and> square = 0 \<and> paren = 0); blank = CHR '' '' in
      if quoted st then
        (if escaped then blank # view_from curly square paren st False s
         else if c = backslash then blank # view_from curly square paren st True s
         else if closes st c then blank # view_from curly square paren Code escaped s
         else blank # view_from curly square paren st escaped s)
      else if st = Line_Comment then
        (if c = newline then newline # view_from curly square paren Code escaped s
         else blank # view_from curly square paren st escaped s)
      else if st = Block_Comment then
        (if c = CHR ''*'' \<and> nxt = Some (CHR ''/'') then blank # blank # view_from curly square paren Code escaped (tl s)
         else blank # view_from curly square paren st escaped s)
      else if c = CHR ''/'' \<and> (nxt = Some (CHR ''/'') \<or> nxt = Some (CHR ''*'')) then
        blank # blank # view_from curly square paren
          (if nxt = Some (CHR ''/'') then Line_Comment else Block_Comment) escaped (tl s)
      else if c = quote1 then blank # view_from curly square paren Single escaped s
      else if c = quote2 then blank # view_from curly square paren Double escaped s
      else if c = backtick then blank # view_from curly square paren Template escaped s
      else (if base \<and> \<not> (c = CHR 0x7D \<and> curly = 1) then c else blank) #
        view_from
          (curly + (if c = CHR 0x7B then 1 else if c = CHR 0x7D then -1 else 0))
          (square + (if c = CHR 0x5B then 1 else if c = CHR 0x5D then -1 else 0))
          (paren + (if c = CHR 0x28 then 1 else if c = CHR 0x29 then -1 else 0)) st escaped s)"

definition top_level_object_view :: "string \<Rightarrow> string" where
  "top_level_object_view text = view_from 0 0 0 Code False text"

section \<open>Executable positions\<close>

text \<open>\<open>None\<close> is \<open>RemediationError("source_syntax_not_supported")\<close>.\<close>

fun positions_from :: "scan_state \<Rightarrow> bool \<Rightarrow> string \<Rightarrow> bool list option" where
  "positions_from st escaped [] = (if st = Code \<or> st = Line_Comment then Some [] else None)"
| "positions_from st escaped (c # s) =
     (let nxt = next_char s in
      if st = Single \<or> st = Double then
        map_option (Cons False)
          (if escaped then positions_from st False s
           else if c = backslash then positions_from st True s
           else if c = (if st = Single then quote1 else quote2) then positions_from Code escaped s
           else positions_from st escaped s)
      else if st = Line_Comment then
        map_option (Cons False) (positions_from (if c = newline then Code else st) escaped s)
      else if st = Block_Comment then
        (if c = CHR ''*'' \<and> nxt = Some (CHR ''/'')
         then map_option (\<lambda>r. False # False # r) (positions_from Code escaped (tl s))
         else map_option (Cons False) (positions_from st escaped s))
      else if c = quote1 \<or> c = quote2 then
        map_option (Cons False) (positions_from (if c = quote1 then Single else Double) escaped s)
      else if c = CHR ''/'' then
        (if nxt = Some (CHR ''/'') then map_option (\<lambda>r. False # False # r) (positions_from Line_Comment escaped (tl s))
         else if nxt = Some (CHR ''*'') then map_option (\<lambda>r. False # False # r) (positions_from Block_Comment escaped (tl s))
         else None)
      else if c = backtick then None
      else map_option (Cons True) (positions_from st escaped s))"

definition code_positions :: "string \<Rightarrow> bool list option" where
  "code_positions text = positions_from Code False text"

section \<open>One lexical automaton\<close>

text \<open>
  The reference: an automaton that reads one character at a time with one character of lookahead. The
  last component says that the character was consumed with the one before it.
\<close>

type_synonym lex_state = "scan_state \<times> bool \<times> bool"

definition lex_init :: lex_state where "lex_init = (Code, False, False)"

fun lex_next :: "lex_state \<Rightarrow> char \<Rightarrow> char option \<Rightarrow> lex_state" where
  "lex_next (st, escaped, consumed) c nxt =
     (if consumed then (st, escaped, False)
      else if quoted st then
        (if escaped then (st, False, False) else if c = backslash then (st, True, False)
         else (if closes st c then Code else st, escaped, False))
      else if st = Line_Comment then (if c = newline then Code else st, escaped, False)
      else if st = Block_Comment then
        (if c = CHR ''*'' \<and> nxt = Some (CHR ''/'') then (Code, escaped, True) else (st, escaped, False))
      else if c = CHR ''/'' \<and> nxt = Some (CHR ''/'') then (Line_Comment, escaped, True)
      else if c = CHR ''/'' \<and> nxt = Some (CHR ''*'') then (Block_Comment, escaped, True)
      else (if c = quote1 then Single else if c = quote2 then Double else if c = backtick then Template else st,
            escaped, False))"

fun code_char :: "lex_state \<Rightarrow> char \<Rightarrow> char option \<Rightarrow> bool" where
  "code_char (st, escaped, consumed) c nxt \<longleftrightarrow> \<not> consumed \<and> st = Code
     \<and> \<not> (c = CHR ''/'' \<and> (nxt = Some (CHR ''/'') \<or> nxt = Some (CHR ''*'')))
     \<and> c \<noteq> quote1 \<and> c \<noteq> quote2 \<and> c \<noteq> backtick"

primrec lex_mask :: "lex_state \<Rightarrow> string \<Rightarrow> bool list" where
  "lex_mask g [] = []"
| "lex_mask g (c # s) = code_char g c (next_char s) # lex_mask (lex_next g c (next_char s)) s"

primrec lex_run :: "lex_state \<Rightarrow> string \<Rightarrow> nat \<Rightarrow> lex_state" where
  "lex_run g [] n = g"
| "lex_run g (c # s) n = (case n of 0 \<Rightarrow> g | Suc m \<Rightarrow> lex_run (lex_next g c (next_char s)) s m)"

lemma length_lex_mask [simp]: "length (lex_mask g s) = length s"
  by (induction s arbitrary: g) simp_all

lemma drop_lex_mask: "drop n (lex_mask g s) = lex_mask (lex_run g s n) (drop n s)"
  by (induction s arbitrary: g n) (auto split: nat.splits simp: drop_Cons)

lemma next_char_Some: "next_char s = Some c \<longleftrightarrow> (\<exists>r. s = c # r)"
  by (cases s) auto

definition lex_ok :: "lex_state \<Rightarrow> bool" where
  "lex_ok g \<longleftrightarrow> (case g of (st, escaped, consumed) \<Rightarrow> escaped \<longrightarrow> quoted st)"

lemma lex_ok_next: "lex_ok g \<Longrightarrow> lex_ok (lex_next g c nxt)"
  by (cases g) (auto simp: lex_ok_def quoted_def)

lemma lex_ok_run: "lex_ok g \<Longrightarrow> lex_ok (lex_run g s n)"
  by (induction s arbitrary: g n) (auto split: nat.splits simp: lex_ok_next)

lemma mask_code_state:
  assumes "n < length s" "lex_mask g s ! n" "lex_ok g"
  shows "lex_run g s n = lex_init"
proof -
  have "lex_mask g s ! n = hd (lex_mask (lex_run g s n) (drop n s))"
    using assms(1) by (simp add: drop_lex_mask [symmetric] hd_drop_conv_nth)
  moreover obtain c r where "drop n s = c # r" using assms(1) by (cases "drop n s") auto
  ultimately have "code_char (lex_run g s n) c (next_char r)" using assms(2) by simp
  then show ?thesis using lex_ok_run [OF assms(3), of s n]
    by (cases "lex_run g s n") (auto simp: lex_ok_def lex_init_def quoted_def)
qed

section \<open>The scanners agree with the automaton\<close>

lemma lex_mask_two:
  "next_char s = Some d \<Longrightarrow> lex_mask (st, e, True) s = False # lex_mask (st, e, False) (tl s)"
  by (cases s) simp_all

lemma zip_mask_two:
  "next_char s = Some d \<Longrightarrow>
     zip (lex_mask (st, e, True) s) s = (False, d) # zip (lex_mask (st, e, False) (tl s)) (tl s)"
  by (cases s) simp_all

lemma positions_mask_aux:
  "st \<noteq> Template \<Longrightarrow> pred_option (\<lambda>ps. ps = lex_mask (st, escaped, False) s) (positions_from st escaped s)"
proof (induction st escaped s rule: positions_from.induct)
  case (2 st escaped c s)
  then show ?case
    by (cases st; cases "c = newline"; cases "c = quote1"; cases "c = quote2")
      (simp_all add: Let_def quoted_def closes_def lex_mask_two option.pred_map comp_def)
qed simp

lemma positions_mask: "code_positions t = Some ps \<Longrightarrow> ps = lex_mask lex_init t"
  using positions_mask_aux [of Code False t] by (simp add: code_positions_def lex_init_def)

fun brace :: "bool \<times> char \<Rightarrow> int" where
  "brace (m, c) = (if m \<and> c = CHR 0x7B then 1 else if m \<and> c = CHR 0x7D then -1 else 0)"

fun first_closed :: "nat \<Rightarrow> int \<Rightarrow> (bool \<times> char) list \<Rightarrow> nat option" where
  "first_closed i depth [] = None"
| "first_closed i depth (z # zs) =
     (if z = (True, CHR 0x7D) \<and> depth + brace z = 0 then Some i else first_closed (i + 1) (depth + brace z) zs)"

lemma balanced_first_closed:
  "balanced_from i depth st escaped s = first_closed i depth (zip (lex_mask (st, escaped, False) s) s)"
proof (induction i depth st escaped s rule: balanced_from.induct)
  case (2 i depth st escaped c s)
  then show ?case
    by (cases st; cases "c = newline") (simp_all add: Let_def quoted_def closes_def zip_mask_two)
qed simp

lemma first_closed_iff:
  "first_closed i depth zs = Some e \<longleftrightarrow>
     (\<exists>k < length zs. e = i + k \<and> zs ! k = (True, CHR 0x7D) \<and> depth + sum_list (map brace (take (Suc k) zs)) = 0
        \<and> (\<forall>j < k. zs ! j = (True, CHR 0x7D) \<longrightarrow> depth + sum_list (map brace (take (Suc j) zs)) \<noteq> 0))"
proof (induction zs arbitrary: i depth)
  case (Cons z zs)
  show ?case
  proof (cases "z = (True, CHR 0x7D) \<and> depth + brace z = 0")
    case True
    then show ?thesis by (auto simp: less_Suc_eq_0_disj)
  next
    case False
    then show ?thesis using Cons [of "i + 1" "depth + brace z"]
      by (auto simp: less_Suc_eq_0_disj add.assoc ex_simps)
  qed
qed simp

definition closes_object :: "string \<Rightarrow> nat \<Rightarrow> nat \<Rightarrow> bool" where
  "closes_object t start j \<longleftrightarrow>
     (let s = drop start t; zs = zip (lex_mask lex_init s) s in
      zs ! (j - start) = (True, CHR 0x7D) \<and> sum_list (map brace (take (Suc (j - start)) zs)) = 0)"

lemma object_end_first:
  "balanced_object_end t start = Some e \<longleftrightarrow>
     start \<le> e \<and> e < length t \<and> closes_object t start e \<and> (\<forall>j. start \<le> j \<and> j < e \<longrightarrow> \<not> closes_object t start j)"
proof -
  define zs where "zs = zip (lex_mask lex_init (drop start t)) (drop start t)"
  have at: "closes_object t start (start + k) \<longleftrightarrow> zs ! k = (True, CHR 0x7D) \<and> 0 + sum_list (map brace (take (Suc k) zs)) = 0"
    for k by (simp add: closes_object_def Let_def zs_def)
  have len: "length zs = length t - start" by (simp add: zs_def)
  have "balanced_object_end t start = first_closed start 0 zs"
    by (simp only: balanced_object_end_def balanced_first_closed lex_init_def [symmetric] zs_def)
  then have "balanced_object_end t start = Some e \<longleftrightarrow>
      (\<exists>k < length t - start. e = start + k \<and> closes_object t start e
        \<and> (\<forall>j < k. \<not> closes_object t start (start + j)))"
    by (simp only: first_closed_iff len at) (metis at)
  also have "\<dots> \<longleftrightarrow> start \<le> e \<and> e < length t \<and> closes_object t start e
      \<and> (\<forall>j. start \<le> j \<and> j < e \<longrightarrow> \<not> closes_object t start j)" (is "?l \<longleftrightarrow> ?r")
  proof
    assume ?l
    then show ?r by (auto simp: le_iff_add)
  next
    assume ?r
    then show ?l by (intro exI [of _ "e - start"]) auto
  qed
  finally show ?thesis .
qed

lemma closes_object_code:
  assumes "code_positions t = Some ps" "start < length t" "ps ! start"
    and "start \<le> e" "e < length t" "closes_object t start e"
  shows "ps ! e \<and> t ! e = CHR 0x7D"
proof -
  have ps: "ps = lex_mask lex_init t" by (rule positions_mask [OF assms(1)])
  have "lex_run lex_init t start = lex_init"
    using mask_code_state [of start t lex_init] assms(2,3) by (simp add: ps lex_ok_def lex_init_def)
  then have "drop start ps = lex_mask lex_init (drop start t)" by (simp add: ps drop_lex_mask)
  then have "lex_mask lex_init (drop start t) ! (e - start) = ps ! e"
    using assms(4,5) nth_drop [of start ps "e - start"] by (simp add: ps)
  then show ?thesis using assms(4-6) by (simp add: closes_object_def Let_def)
qed

definition blanked :: "string \<Rightarrow> (bool \<times> char) list \<Rightarrow> bool" where
  "blanked v zs \<longleftrightarrow> list_all2 (\<lambda>v mc. v = CHR '' '' \<or> v = snd mc \<and> (fst mc \<or> v = newline)) v zs"

lemma blanked_simps [simp]:
  "blanked [] []"
  "blanked (v # vs) ((m, c) # zs) \<longleftrightarrow> (v = CHR '' '' \<or> v = c \<and> (m \<or> v = newline)) \<and> blanked vs zs"
  by (simp_all add: blanked_def)

lemma view_chars: "blanked (view_from curly square paren st escaped s) (zip (lex_mask (st, escaped, False) s) s)"
proof (induction s arbitrary: curly square paren st escaped rule: length_induct)
  case (1 s)
  have IH: "blanked (view_from a b p st e r) (zip (lex_mask (st, e, False) r) r)" if "length r < length s" for a b p st e r
    using 1 that by blast
  show ?case
  proof (cases s)
    case (Cons c r)
    show ?thesis
      by (cases st; cases "c = newline")
        (auto simp: Cons Let_def quoted_def closes_def zip_mask_two IH)
  qed simp
qed

end
