(* ===== verification/Source_Keys.thy ===== *)
theory Source_Keys
  imports Source_Scan
begin

text \<open>
  \<open>_literal_property_keys\<close> and \<open>eligible_source_path\<close> of \<open>src/denali/resource_writes/templates.py\<close>,
  and the properties of the source scanners.
\<close>

section \<open>The path of a patched file\<close>

definition path_char :: "char \<Rightarrow> bool" where
  "path_char c \<longleftrightarrow> is_letter c \<or> is_digit c \<or> c \<in> {CHR ''_'', CHR ''.'', CHR ''/'', CHR ''-''}"

text \<open>\<open>(?:src|app|lib)/[A-Za-z0-9_./-]+\.(?:js|ts)\<close>: a prefix and a suffix of fixed length.\<close>

definition path_format :: "string \<Rightarrow> bool" where
  "path_format p \<longleftrightarrow> 8 \<le> length p \<and> take 4 p \<in> {''src/'', ''app/'', ''lib/''}
     \<and> drop (length p - 3) p \<in> {''.js'', ''.ts''} \<and> list_all path_char (take (length p - 7) (drop 4 p))"

definition eligible_source_path :: "pyval \<Rightarrow> bool" where
  "eligible_source_path path = (case path of
     PStr p \<Rightarrow> path_format p \<and> list_all (\<lambda>part. part \<notin>
       {'''', ''.'', ''..'', ''vendor'', ''generated'', ''node_modules''}) (split_char (CHR ''/'') [] p)
   | _ \<Rightarrow> False)"

section \<open>The keys of a literal object\<close>

definition ident_start :: "char \<Rightarrow> bool" where
  "ident_start c \<longleftrightarrow> is_letter c \<or> c = CHR ''_'' \<or> c = CHR 0x24"

definition ident_char :: "char \<Rightarrow> bool" where
  "ident_char c \<longleftrightarrow> ident_start c \<or> is_digit c"

text \<open>\<open>re.match(r"[A-Za-z_$][A-Za-z0-9_$]*", s)\<close>.\<close>

fun ident_prefix :: "string \<Rightarrow> string option" where
  "ident_prefix [] = None"
| "ident_prefix (c # s) = (if ident_start c then Some (c # takeWhile ident_char s) else None)"

type_synonym depths = "int \<times> int \<times> int"

text \<open>The counts of open brackets; a closing bracket without its opening is an error.\<close>

fun bracket_step :: "depths \<Rightarrow> char \<Rightarrow> depths option" where
  "bracket_step (curly, square, paren) c =
     (if c = CHR 0x7B then Some (curly + 1, square, paren)
      else if c = CHR 0x5B then Some (curly, square + 1, paren)
      else if c = CHR 0x28 then Some (curly, square, paren + 1)
      else if c = CHR 0x7D then (if curly \<le> 0 then None else Some (curly - 1, square, paren))
      else if c = CHR 0x5D then (if square \<le> 0 then None else Some (curly, square - 1, paren))
      else if c = CHR 0x29 then (if paren \<le> 0 then None else Some (curly, square, paren - 1))
      else Some (curly, square, paren))"

text \<open>The inner loop: the position where the value ends, at a comma outside all brackets or at
  \<open>e\<close>. \<open>None\<close> is \<open>source_property_shape_not_supported\<close>.\<close>

function scan_value :: "string \<Rightarrow> bool list \<Rightarrow> nat \<Rightarrow> depths \<Rightarrow> nat \<Rightarrow> (nat \<times> depths) option" where
  "scan_value t ps e d pos =
     (if pos < e then
        (if ps ! pos then
           (case bracket_step d (t ! pos) of
              None \<Rightarrow> None
            | Some d' \<Rightarrow>
                if t ! pos = CHR '','' \<and> d = (0, 0, 0) then Some (pos + 1, d)
                else scan_value t ps e d' (pos + 1))
         else scan_value t ps e d (pos + 1))
      else Some (pos, d))"
  by pat_completeness auto
termination by (relation "measure (\<lambda>(t, ps, e, d, pos). e - pos)") auto

declare scan_value.simps [simp del]

lemma scan_value_bounds:
  "scan_value t ps e d pos = Some (pos', d') \<Longrightarrow> pos \<le> e \<Longrightarrow> pos \<le> pos' \<and> pos' \<le> e"
proof (induction t ps e d pos rule: scan_value.induct)
  case (1 t ps e d pos)
  show ?case
  proof (cases "pos < e \<and> ps ! pos")
    case True
    then obtain d1 where "bracket_step d (t ! pos) = Some d1"
      using 1(3) by (auto simp: scan_value.simps [of t ps e d] split: option.splits)
    then show ?thesis using 1(1) [of d1] 1(3) True
      by (auto simp: scan_value.simps [of t ps e d] split: if_splits)
  next
    case False
    then show ?thesis using 1(2-4) by (auto simp: scan_value.simps [of t ps e d] split: if_splits)
  qed
qed

lemma skip_ge: "pos \<le> skip_space_and_comments t pos"
  using skip_from_bounds by (simp add: skip_space_and_comments_def)

function property_keys :: "string \<Rightarrow> nat \<Rightarrow> bool list \<Rightarrow> string list \<Rightarrow> nat \<Rightarrow> string list option" where
  "property_keys t e ps keys pos =
     (let p0 = skip_space_and_comments t pos in
      if p0 = e then Some keys
      else case ident_prefix (take (e - p0) (drop p0 t)) of
          None \<Rightarrow> None
        | Some key \<Rightarrow>
            if \<not> ps ! p0 then None
            else let p1 = skip_space_and_comments t (p0 + length key) in
              if e \<le> p1 \<or> t ! p1 \<noteq> CHR '':'' \<or> key \<in> set keys then None
              else let p2 = skip_space_and_comments t (p1 + 1) in
                if e \<le> p2 \<or> t ! p2 = CHR '','' then None
                else case scan_value t ps e (0, 0, 0) p2 of
                    None \<Rightarrow> None
                  | Some (p3, d) \<Rightarrow>
                      if p3 = e \<and> d \<noteq> (0, 0, 0) then None else property_keys t e ps (keys @ [key]) p3)"
  by pat_completeness auto

termination
proof (relation "measure (\<lambda>(t, e, ps, keys, pos). e - pos)")
  fix t e ps keys pos p0 key p1 p2 p3d p3 d
  assume *: "p0 = skip_space_and_comments t pos" "p1 = skip_space_and_comments t (p0 + length key)"
    "\<not> (e \<le> p1 \<or> t ! p1 \<noteq> CHR '':'' \<or> key \<in> set keys)" "p2 = skip_space_and_comments t (p1 + 1)"
    "\<not> (e \<le> p2 \<or> t ! p2 = CHR '','')" "scan_value t ps e (0, 0, 0) p2 = Some p3d" "(p3, d) = p3d"
  have "pos \<le> p0" "p0 + length key \<le> p1" "p1 + 1 \<le> p2" using *(1,2,4) skip_ge by blast+
  moreover have "p2 \<le> p3" using scan_value_bounds [of t ps e "(0, 0, 0)" p2 p3 d] *(5,6,7) by simp
  ultimately show "((t, e, ps, keys @ [key], p3), t, e, ps, keys, pos) \<in> measure (\<lambda>(t, e, ps, keys, pos). e - pos)"
    using *(5) by auto
qed auto

declare property_keys.simps [simp del]

definition literal_property_keys :: "string \<Rightarrow> nat \<Rightarrow> nat \<Rightarrow> bool list \<Rightarrow> string list option" where
  "literal_property_keys t start e ps = property_keys t e ps [] (start + 1)"

definition js_ident :: "string \<Rightarrow> bool" where
  "js_ident k \<longleftrightarrow> (\<exists>c s. k = c # s \<and> ident_start c \<and> list_all ident_char s)"

lemma ident_prefix_js_ident: "ident_prefix s = Some k \<Longrightarrow> js_ident k"
  by (cases s) (auto simp: js_ident_def list_all_iff dest: set_takeWhileD split: if_splits)

lemma property_keys_sound:
  "property_keys t e ps keys pos = Some ks \<Longrightarrow> distinct keys \<Longrightarrow> list_all js_ident keys \<Longrightarrow>
     distinct ks \<and> list_all js_ident ks"
proof (induction t e ps keys pos rule: property_keys.induct)
  case (1 t e ps keys pos)
  let ?p0 = "skip_space_and_comments t pos"
  show ?case
  proof (cases "?p0 = e")
    case True
    then show ?thesis using 1(2-4) by (simp add: property_keys.simps [of t e ps keys pos] Let_def)
  next
    case False
    then obtain key where key: "ident_prefix (take (e - ?p0) (drop ?p0 t)) = Some key"
      using 1(2) by (auto simp: property_keys.simps [of t e ps keys pos] Let_def split: option.splits)
    let ?p1 = "skip_space_and_comments t (?p0 + length key)"
    let ?p2 = "skip_space_and_comments t (?p1 + 1)"
    have p: "ps ! ?p0" "\<not> (e \<le> ?p1 \<or> t ! ?p1 \<noteq> CHR '':'' \<or> key \<in> set keys)" "\<not> (e \<le> ?p2 \<or> t ! ?p2 = CHR '','')"
      using 1(2) False key by (auto simp: property_keys.simps [of t e ps keys pos] Let_def split: if_splits)
    then obtain p3 d where p3: "scan_value t ps e (0, 0, 0) ?p2 = Some (p3, d)"
      using 1(2) False key by (auto simp: property_keys.simps [of t e ps keys pos] Let_def split: option.splits)
    have d: "\<not> (p3 = e \<and> d \<noteq> (0, 0, 0))" and run: "property_keys t e ps (keys @ [key]) p3 = Some ks"
      using 1(2) False key p p3
      by (auto simp: property_keys.simps [of t e ps keys pos] Let_def split: if_splits)
    show ?thesis
      using 1(1) [OF refl False key _ refl p(2) refl p(3) p3 refl d run] p 1(3,4)
        ident_prefix_js_ident [OF key] by simp
  qed
qed

end
