(* ===== verification/Static_Js.thy ===== *)
theory Static_Js
  imports Static_Cfn Source_Keys
begin

text \<open>
  \<open>src/denali/connectors/static_javascript_strings.py\<close>: the tokens of a JavaScript source, string
  literals, the members of an object literal, and the resolution of one property from string literals and
  module constants. A \<open>None\<close> is the \<open>None\<close> of the code or one of the exceptions that
  \<open>javascript_string_property\<close> turns into it. A resolved text is a list of code points, since the
  escapes of a literal reach beyond the characters of the source.
\<close>

section \<open>Tokens\<close>

record js_token =
  tk_value :: string
  tk_start :: nat
  tk_end :: nat
  tk_depth :: nat
  tk_string :: bool

text \<open>The length of a quoted text after its opening quote, the closing quote included.\<close>

fun scan_quoted :: "char \<Rightarrow> string \<Rightarrow> nat option" where
  "scan_quoted q [] = None"
| "scan_quoted q (c # s) =
     (if c = backslash then map_option ((+) 2) (scan_quoted q (tl s))
      else if c = q then Some 1 else map_option Suc (scan_quoted q s))"

definition js_quote :: "char \<Rightarrow> bool" where
  "js_quote c \<longleftrightarrow> c \<in> {quote1, quote2, backtick}"

fun token_length :: "string \<Rightarrow> nat option" where
  "token_length [] = None"
| "token_length (c # s) =
     (if js_quote c then map_option Suc (scan_quoted c s)
      else case ident_prefix (c # s) of Some k \<Rightarrow> Some (length k) | None \<Rightarrow> Some 1)"

definition partner :: "string \<Rightarrow> string option" where
  "partner v = (if v = '')'' then Some ''('' else if v = [CHR 0x7D] then Some [CHR 0x7B]
     else if v = '']'' then Some ''['' else None)"

definition opens :: "string \<Rightarrow> bool" where
  "opens v \<longleftrightarrow> v \<in> {''('', [CHR 0x7B], ''[''}"

lemma scan_quoted_le: "scan_quoted q s = Some k \<Longrightarrow> 0 < k \<and> k \<le> length s"
proof (induction q s arbitrary: k rule: scan_quoted.induct)
  case (2 q c s)
  then show ?case by (cases s) (fastforce split: if_splits)+
qed simp

lemma token_length_le: "token_length s = Some k \<Longrightarrow> 0 < k \<and> k \<le> length s"
  by (cases s) (auto split: if_splits option.splits dest!: scan_quoted_le simp: length_takeWhile_le)

declare token_length.simps [simp del]

definition max_tokens :: nat where "max_tokens = 50000"

text \<open>\<open>_tokens\<close> on the suffix \<open>s\<close> at the index \<open>i\<close>, after \<open>n\<close> tokens, with the open brackets in
  \<open>stack\<close>.\<close>

function tokens_from :: "nat \<Rightarrow> string list \<Rightarrow> nat \<Rightarrow> string \<Rightarrow> js_token list option" where
  "tokens_from i stack n s =
     (case s of
        [] \<Rightarrow> if stack = [] then Some [] else None
      | c # r \<Rightarrow>
          if is_space c then tokens_from (i + 1) stack n r
          else if startswith s ''//'' then
            (case find_sub [newline] (drop 2 s) of
               None \<Rightarrow> tokens_from (i + length s) stack n []
             | Some k \<Rightarrow> tokens_from (i + 2 + k) stack n (drop (2 + k) s))
          else if startswith s ''/*'' then
            (case find_sub ''*/'' (drop 2 s) of
               None \<Rightarrow> None
             | Some k \<Rightarrow> tokens_from (i + 2 + k + 2) stack n (drop (2 + k + 2) s))
          else case token_length s of
              None \<Rightarrow> None
            | Some k \<Rightarrow>
                let v = take k s; q = js_quote c; closing = (\<not> q \<and> partner v \<noteq> None) in
                if closing \<and> (stack = [] \<or> Some (hd stack) \<noteq> partner v) then None
                else let rest = (if closing then tl stack else stack);
                         t = \<lparr>tk_value = v, tk_start = i, tk_end = i + k, tk_depth = length rest, tk_string = q\<rparr>;
                         stack' = (if \<not> q \<and> opens v then v # rest else rest) in
                  if \<not> q \<and> v = ''/'' \<or> max_tokens < n + 1 then None
                  else map_option (Cons t) (tokens_from (i + k) stack' (n + 1) (drop k s)))"
  by pat_completeness auto
termination
  by (relation "measure (\<lambda>(i, stack, n, s). length s)") (auto dest: token_length_le)

declare tokens_from.simps [simp del]

definition js_tokens :: "string \<Rightarrow> js_token list option" where
  "js_tokens source = tokens_from 0 [] 0 source"

section \<open>String literals\<close>

type_synonym code = "nat list"

definition codes :: "string \<Rightarrow> code" where "codes s = map of_char s"

definition hex_value :: "char \<Rightarrow> nat option" where
  "hex_value c = (let n = of_char c in
     if 48 \<le> n \<and> n \<le> 57 then Some (n - 48) else if 97 \<le> n \<and> n \<le> 102 then Some (n - 87)
     else if 65 \<le> n \<and> n \<le> 70 then Some (n - 55) else None)"

definition hex4 :: "string \<Rightarrow> nat option" where
  "hex4 s = (case s of
     a # b # c # d # _ \<Rightarrow> (case (hex_value a, hex_value b, hex_value c, hex_value d) of
       (Some w, Some x, Some y, Some z) \<Rightarrow> Some (4096 * w + 256 * x + 16 * y + z) | _ \<Rightarrow> None)
   | _ \<Rightarrow> None)"

definition simple_escape :: "char \<Rightarrow> nat option" where
  "simple_escape c = map_of [(quote2, 34), (backslash, 92), (CHR ''/'', 47), (CHR ''b'', 8), (CHR ''f'', 12),
     (CHR ''n'', 10), (CHR ''r'', 13), (CHR ''t'', 9)] c"

definition low_surrogate :: "string \<Rightarrow> nat option" where
  "low_surrogate s = (if startswith s (backslash # ''u'') then
     (case hex4 (drop 2 s) of Some m \<Rightarrow> if 0xDC00 \<le> m \<and> m \<le> 0xDFFF then Some m else None | None \<Rightarrow> None) else None)"

text \<open>\<open>json.loads\<close> of a quoted text, given what is between its quotes.\<close>

function json_chars :: "string \<Rightarrow> code option" where
  "json_chars s = (case s of
     [] \<Rightarrow> Some []
   | c # r \<Rightarrow>
       if c = quote2 \<or> of_char c < (32::nat) then None
       else if c \<noteq> backslash then map_option (Cons (of_char c)) (json_chars r)
       else case r of
           [] \<Rightarrow> None
         | e # r' \<Rightarrow>
             if e = CHR ''u'' then
               (case hex4 r' of
                  None \<Rightarrow> None
                | Some n \<Rightarrow>
                    if 0xD800 \<le> n \<and> n \<le> 0xDBFF \<and> low_surrogate (drop 4 r') \<noteq> None then
                      map_option (Cons (0x10000 + 0x400 * (n - 0xD800) + (the (low_surrogate (drop 4 r')) - 0xDC00)))
                        (json_chars (drop 10 r'))
                    else map_option (Cons n) (json_chars (drop 4 r')))
             else (case simple_escape e of None \<Rightarrow> None | Some n \<Rightarrow> map_option (Cons n) (json_chars r')))"
  by pat_completeness auto
termination by (relation "measure length") auto

declare json_chars.simps [simp del]

definition string_literal :: "string \<Rightarrow> code option" where
  "string_literal v =
     (if length v < 2 \<or> hd v \<noteq> last v then None
      else if hd v = quote2 then json_chars (butlast (tl v))
      else if hd v \<in> {quote1, backtick} \<and> backslash \<notin> set v then Some (codes (butlast (tl v))) else None)"

definition js_identifier :: "string \<Rightarrow> bool" where
  "js_identifier k \<longleftrightarrow> ident_prefix k = Some k"

section \<open>Module constants\<close>

text \<open>The tokens of an initialiser, up to the semicolon at depth 0; none of them may reach \<open>limit\<close>.\<close>

fun initialiser :: "nat \<Rightarrow> js_token list \<Rightarrow> js_token list option" where
  "initialiser limit [] = Some []"
| "initialiser limit (t # ts) =
     (if tk_depth t = 0 \<and> tk_value t = '';'' then Some []
      else if limit \<le> tk_start t then None else map_option (Cons t) (initialiser limit ts))"

definition names :: "string \<Rightarrow> js_token \<Rightarrow> bool" where
  "names name t \<longleftrightarrow> \<not> tk_string t \<and> tk_value t = name"

definition declarations :: "js_token list \<Rightarrow> string \<Rightarrow> nat list" where
  "declarations ts name = filter (\<lambda>i. names name (ts ! i) \<and>
     tk_value (ts ! (i - 1)) \<in> {''const'', ''let'', ''var'', ''function'', ''class''}) [1..<length ts]"

text \<open>A token after which an assignment or an increment follows.\<close>

definition assigned :: "js_token list \<Rightarrow> string \<Rightarrow> nat \<Rightarrow> bool" where
  "assigned ts name start \<longleftrightarrow> list_ex (\<lambda>p.
     names name (ts ! p) \<and> tk_start (ts ! p) \<noteq> start \<and>
     (let w = tk_value (ts ! (p + 1)) in w = ''='' \<or>
        (w \<in> {''+'', ''-''} \<and> p + 2 < length ts \<and> tk_value (ts ! (p + 2)) \<in> {w, ''=''})))
     [0..<length ts - 1]"

text \<open>The checks of \<open>_binding\<close>: the position of the one declaration and its initialiser.\<close>

definition module_const :: "js_token list \<Rightarrow> string \<Rightarrow> nat \<Rightarrow> (nat \<times> js_token list) option" where
  "module_const ts name limit = (case declarations ts name of
     [i] \<Rightarrow> let d = ts ! i in
       if tk_value (ts ! (i - 1)) \<noteq> ''const'' \<or> tk_depth d \<noteq> 0 \<or> limit \<le> tk_start d
         \<or> length (filter (\<lambda>t. names name t \<and> tk_start t < limit) ts) \<noteq> 1
         \<or> length ts \<le> i + 1 \<or> tk_value (ts ! (i + 1)) \<noteq> ''='' \<or> assigned ts name (tk_start d) then None
       else map_option (Pair (tk_start d)) (initialiser limit (drop (i + 2) ts))
   | _ \<Rightarrow> None)"

section \<open>Expressions\<close>

definition max_terms :: nat where "max_terms = 256"
definition max_output :: nat where "max_output = 1024"
definition max_names :: nat where "max_names = 16"

definition dollar_brace :: code where "dollar_brace = [36, 123]"

definition code_contains :: "code \<Rightarrow> code \<Rightarrow> bool" where
  "code_contains sub v \<longleftrightarrow> list_ex (\<lambda>i. take (length sub) (drop i v) = sub) [0..<Suc (length v)]"

text \<open>One operand. \<open>resolve\<close> resolves an identifier; after a failed substitution the code goes on with the
  others, but its result is \<open>None\<close> whatever they give, and so is that of every caller.\<close>

definition js_term :: "(string \<Rightarrow> code cfn) \<Rightarrow> js_token \<Rightarrow> code cfn" where
  "js_term resolve t b =
     (if tk_string t then
        (case string_literal (tk_value t) of
           None \<Rightarrow> None
         | Some v \<Rightarrow>
             if hd (tk_value t) = backtick then
               Option.bind (map_cfn (\<lambda>part b. case part of
                   Inl c \<Rightarrow> Some ([of_char c], b)
                 | Inr key \<Rightarrow> if js_identifier key then resolve key b else None)
                 (substitutions (butlast (tl (tk_value t)))) b) (\<lambda>(vs, b').
               if code_contains dollar_brace (concat vs) then None else Some (concat vs, b'))
             else Some (v, b))
      else if js_identifier (tk_value t) then resolve (tk_value t) b else None)"

fun js_terms :: "(string \<Rightarrow> code cfn) \<Rightarrow> bool \<Rightarrow> code list \<Rightarrow> js_token list \<Rightarrow> code cfn" where
  "js_terms resolve expect vs [] b = (if expect then None else Some (concat vs, b))"
| "js_terms resolve False vs (t # ts) b =
     (if tk_value t \<noteq> ''+'' \<or> tk_string t then None else js_terms resolve True vs ts b)"
| "js_terms resolve True vs (t # ts) b =
     Option.bind (js_term resolve t b) (\<lambda>(v, b').
       if max_output < sum_list (map length (vs @ [v])) then None
       else js_terms resolve False (vs @ [v]) ts b')"

definition js_expression :: "(string \<Rightarrow> code cfn) \<Rightarrow> js_token list \<Rightarrow> code cfn" where
  "js_expression resolve parts b =
     (if parts = [] \<or> max_terms < length parts then None else js_terms resolve True [] parts b)"

function js_binding :: "js_token list \<Rightarrow> nat \<Rightarrow> string list \<Rightarrow> string \<Rightarrow> code cfn" where
  "js_binding ts limit seen name budget =
     (if budget - 1 < 0 \<or> name \<in> set seen \<or> max_names \<le> length seen then None
      else case module_const ts name limit of
          None \<Rightarrow> None
        | Some (start, parts) \<Rightarrow>
            js_expression (\<lambda>key b. js_binding ts start (name # seen) key b) parts (budget - 1))"
  by pat_completeness auto
termination
  by (relation "measure (\<lambda>(ts, limit, seen, name, budget). max_names - length seen)") auto

declare js_binding.simps [simp del]

section \<open>The property of an object literal\<close>

text \<open>The expressions of the members with the key, \<open>None\<close> where the code gives up.\<close>

function object_members :: "code \<Rightarrow> nat \<Rightarrow> js_token list \<Rightarrow> js_token list list option" where
  "object_members key depth [] = Some []"
| "object_members key depth (t # ts) =
     (if tk_depth t \<noteq> depth \<or> tk_value t = '','' then object_members key depth ts
      else if tk_value t \<in> {''.'', ''[''} then None
      else let rest = takeWhile (\<lambda>u. \<not> (tk_depth u = depth \<and> tk_value u = '','')) ts;
               name = (if tk_string t then string_literal (tk_value t) else Some (codes (tk_value t)));
               plain = (rest \<noteq> [] \<and> tk_value (hd rest) = '':'');
               shorthand = (rest = [] \<and> \<not> tk_string t \<and> js_identifier (tk_value t)) in
        if \<not> plain \<and> \<not> shorthand then None
        else map_option ((@) (if name = Some key then [if plain then tl rest else [t]] else []))
          (object_members key depth (drop (length rest + 1) ts)))"
  by pat_completeness auto
termination by (relation "measure (\<lambda>(key, depth, ts). length ts)") auto

definition initial_names_budget :: int where "initial_names_budget = 256"

definition plain_output :: "code \<Rightarrow> bool" where
  "plain_output v \<longleftrightarrow> v \<noteq> [] \<and> length v \<le> max_output \<and> \<not> list_ex (\<lambda>n. n < 32) v \<and>
     \<not> code_contains dollar_brace v \<and> \<not> code_contains (codes ''Token['') v"

definition javascript_string_property :: "string \<Rightarrow> nat \<Rightarrow> nat \<Rightarrow> string \<Rightarrow> code option" where
  "javascript_string_property source object_start object_end key =
     Option.bind (js_tokens source) (\<lambda>ts.
     Option.bind (find (\<lambda>t. tk_start t = object_start) ts) (\<lambda>opening.
     if tk_value opening \<noteq> [CHR 0x7B] then None
     else case object_members (codes key) (tk_depth opening + 1)
         (filter (\<lambda>t. object_start < tk_start t \<and> tk_start t < object_end) ts) of
       Some [parts] \<Rightarrow>
         (case js_expression (js_binding ts object_start []) parts initial_names_budget of
            Some (v, _) \<Rightarrow> if plain_output v then Some v else None
          | None \<Rightarrow> None)
     | _ \<Rightarrow> None))"

end
