(* ===== verification/Static_Cfn_Props.thy ===== *)
theory Static_Cfn_Props
  imports Static_Cfn
begin

text \<open>
  The static resolution of CloudFormation expressions against the meaning of the intrinsics
  (\<open>cfn_denotes\<close>), its budget, the bound of JSON documents and the reading of YAML nodes.
\<close>

section \<open>The meaning of an expression\<close>

text \<open>
  What a template expression is at deployment, under the outcome \<open>cond\<close> of its conditions. The two
  dictionaries are the parameters given and the mappings of the template.
\<close>

inductive cfn_denotes :: "(pyval \<Rightarrow> bool) \<Rightarrow> (string \<times> string) list \<Rightarrow> attrs \<Rightarrow> pyval \<Rightarrow> string \<Rightarrow> bool"
  and part_denotes :: "(pyval \<Rightarrow> bool) \<Rightarrow> (string \<times> string) list \<Rightarrow> attrs \<Rightarrow> attrs \<Rightarrow> char + string \<Rightarrow> string \<Rightarrow> bool"
  for cond bindings mappings where
  Text: "cfn_denotes cond bindings mappings (PStr t) t"
| Ref: "map_of bindings name = Some t \<Longrightarrow> cfn_denotes cond bindings mappings (PDict [(''Ref'', PStr name)]) t"
| Sub: "sub_parts e = Some (body, variables) \<Longrightarrow>
    list_all2 (part_denotes cond bindings mappings variables) (substitutions body) ts \<Longrightarrow>
    cfn_denotes cond bindings mappings (PDict [(''Fn::Sub'', e)]) (concat ts)"
| Join: "join_parts e = Some (sep, items) \<Longrightarrow> list_all2 (cfn_denotes cond bindings mappings) items ts \<Longrightarrow>
    cfn_denotes cond bindings mappings (PDict [(''Fn::Join'', e)]) (join sep ts)"
| Find: "cfn_denotes cond bindings mappings x a \<Longrightarrow> cfn_denotes cond bindings mappings y b \<Longrightarrow>
    cfn_denotes cond bindings mappings z c \<Longrightarrow>
    cfn_denotes cond bindings mappings (find_in_map (PDict mappings) [a, b, c]) t \<Longrightarrow>
    cfn_denotes cond bindings mappings (PDict [(''Fn::FindInMap'', PList [x, y, z])]) t"
| If: "cfn_denotes cond bindings mappings (if cond c then x else y) t \<Longrightarrow>
    cfn_denotes cond bindings mappings (PDict [(''Fn::If'', PList [c, x, y])]) t"
| Kept: "part_denotes cond bindings mappings variables (Inl c) [c]"
| Variable: "map_of variables key = Some item \<Longrightarrow> cfn_denotes cond bindings mappings item t \<Longrightarrow>
    part_denotes cond bindings mappings variables (Inr key) t"
| Parameter: "map_of variables key = None \<Longrightarrow> map_of bindings key = Some t \<Longrightarrow>
    part_denotes cond bindings mappings variables (Inr key) t"

section \<open>Lists of results\<close>

lemma map_cfn_results: "map_cfn f xs b = Some (ys, b') \<Longrightarrow> list_all2 (\<lambda>x y. \<exists>b1 b2. f x b1 = Some (y, b2)) xs ys"
proof (induction xs arbitrary: ys b)
  case (Cons x xs)
  then show ?case by (auto simp: bind_eq_Some_conv)
qed simp

lemma map_cfn_budget:
  assumes "\<And>x b y b'. f x b = Some (y, b') \<Longrightarrow> 0 \<le> b \<Longrightarrow> 0 \<le> b' \<and> b' \<le> b"
  shows "map_cfn f xs b = Some (ys, b') \<Longrightarrow> 0 \<le> b \<Longrightarrow> 0 \<le> b' \<and> b' \<le> b"
proof (induction xs arbitrary: ys b)
  case (Cons x xs)
  then show ?case by (auto simp: bind_eq_Some_conv) (metis assms order_trans)+
qed simp

lemma literal_value_Some: "sv_value (literal_value v) = Some t \<longleftrightarrow> v = Some t \<and> literal_text t"
  by (auto simp: literal_value_def no_value_def split: option.splits)

lemma map_filter_all_Some:
  "\<not> list_ex (\<lambda>x. g x = None) xs \<Longrightarrow> list_all2 (\<lambda>x t. g x = Some t) xs (List.map_filter g xs)"
  by (induction xs) (auto simp: List.map_filter_simps)

lemma joined_Some:
  assumes "sv_value (joined sep parts) = Some t"
  obtains ts where "list_all2 (\<lambda>x t. sv_value x = Some t) parts ts" "t = join sep ts" "literal_text t"
proof (cases "list_ex (\<lambda>x. sv_value x = None) parts")
  case False
  then show ?thesis using assms that [OF map_filter_all_Some [OF False]]
    by (auto simp: joined_def literal_value_Some)
qed (use assms in \<open>simp add: joined_def no_value_def\<close>)

lemma join_empty [simp]: "join [] ts = concat ts"
  by (induction "[]::string" ts rule: join.induct) simp_all

text \<open>A resolved value is a literal text, and only then.\<close>

definition well_stated :: "static_value \<Rightarrow> bool" where
  "well_stated r \<longleftrightarrow> (case sv_value r of Some t \<Rightarrow> sv_state r = Literal \<and> literal_text t | None \<Rightarrow> sv_state r \<noteq> Literal)"

lemma well_stated_simps [simp]:
  "well_stated no_value" "well_stated (literal_value v)" "well_stated (joined sep parts)"
  "well_stated yes \<Longrightarrow> well_stated (either_branch yes no)"
  by (auto simp: well_stated_def no_value_def literal_value_def joined_def either_branch_def split: option.splits)

section \<open>One step of the resolution\<close>

text \<open>The cases in which \<open>cfn_value\<close> returns, with the results of the calls it makes one level down.\<close>

lemma cfn_value_ok:
  assumes "cfn_value bindings mappings depth path v budget = Some (r, b')"
  shows "depth \<le> max_depth" "0 \<le> budget - 1"
  using assms by (auto simp: cfn_value.simps [of bindings mappings depth path v budget] split: if_splits)

lemma cfn_value_one:
  assumes "depth \<le> max_depth" "0 \<le> budget - 1"
  shows "cfn_value bindings mappings depth path (PDict [(k, e)]) budget =
     (let b = budget - 1; resolve = (\<lambda>item. cfn_value bindings mappings (depth + 1) path item) in
          if k = ''Ref'' then
            Some (case e of PStr name \<Rightarrow> literal_value (map_of bindings name) | _ \<Rightarrow> no_value, b)
          else if k = ''Fn::Sub'' then
            (case sub_parts e of
               None \<Rightarrow> Some (no_value, b)
             | Some (text, variables) \<Rightarrow>
                 if max_value_length < length text \<or> max_parts < length variables then Some (no_value, b)
                 else map_option (\<lambda>(parts, b'). (joined [] parts, b'))
                   (map_cfn (\<lambda>part b. case part of
                        Inl c \<Rightarrow> Some (\<lparr>sv_value = Some [c], sv_state = Literal\<rparr>, b)
                      | Inr key \<Rightarrow> (case map_of variables key of
                            Some item \<Rightarrow> resolve item b
                          | None \<Rightarrow> Some (literal_value (map_of bindings key), b))) (substitutions text) b))
          else if k = ''Fn::Join'' then
            (case join_parts e of
               None \<Rightarrow> Some (no_value, b)
             | Some (sep, items) \<Rightarrow> map_option (\<lambda>(parts, b'). (joined sep parts, b')) (map_cfn resolve items b))
          else if k = ''Fn::FindInMap'' then
            (case e of
               PList [x, y, z] \<Rightarrow> Option.bind (map_cfn resolve [x, y, z] b) (\<lambda>(found, b').
                 if list_ex (\<lambda>r. sv_value r = None) found then Some (no_value, b')
                 else let keys = List.map_filter sv_value found in
                   if keys \<in> set path then Some (no_value, b')
                   else cfn_value bindings mappings (depth + 1) (keys # path) (find_in_map (PDict mappings) keys) b')
             | _ \<Rightarrow> Some (no_value, b))
          else if k = ''Fn::If'' then
            (case e of
               PList [c, x, y] \<Rightarrow> Option.bind (resolve x b) (\<lambda>(yes, b1).
                 map_option (\<lambda>(no, b2). (either_branch yes no, b2)) (resolve y b1))
             | _ \<Rightarrow> Some (no_value, b))
          else Some (no_value, b))"
  using assms by (subst cfn_value.simps) (simp add: Let_def)

lemma cfn_value_other:
  assumes "depth \<le> max_depth" "0 \<le> budget - 1" "\<And>k e. d \<noteq> [(k, e)]"
  shows "cfn_value bindings mappings depth path (PDict d) budget = Some (no_value, budget - 1)"
  using assms by (subst cfn_value.simps) (auto simp: Let_def split: list.splits)

lemma cfn_value_plain:
  assumes "depth \<le> max_depth" "0 \<le> budget - 1" "\<forall>d. v \<noteq> PDict d"
  shows "cfn_value bindings mappings depth path v budget =
    Some (case v of PStr t \<Rightarrow> literal_value (Some t) | _ \<Rightarrow> no_value, budget - 1)"
  using assms by (subst cfn_value.simps) (cases v; simp)

lemma dict_one_cases:
  obtains (single) k e where "d = [(k, e)]" | (other) "\<And>k e. d \<noteq> [(k, e)]"
  by blast

lemma cfn_value_cases:
  assumes run: "cfn_value bindings mappings depth path v budget = Some (r, b')"
  obtains (none) "r = no_value" "0 \<le> b'" "b' = budget - 1"
  | (plain) t where "v = PStr t" "r = literal_value (Some t)" "b' = budget - 1" "0 \<le> b'"
  | (ref) name where "v = PDict [(''Ref'', PStr name)]" "r = literal_value (map_of bindings name)" "b' = budget - 1" "0 \<le> b'"
  | (sub) e body variables parts where "v = PDict [(''Fn::Sub'', e)]" "sub_parts e = Some (body, variables)"
      "r = joined [] parts"
      "map_cfn (\<lambda>part b. case part of
           Inl c \<Rightarrow> Some (\<lparr>sv_value = Some [c], sv_state = Literal\<rparr>, b)
         | Inr key \<Rightarrow> (case map_of variables key of
               Some item \<Rightarrow> cfn_value bindings mappings (depth + 1) path item b
             | None \<Rightarrow> Some (literal_value (map_of bindings key), b))) (substitutions body) (budget - 1) = Some (parts, b')"
      "0 \<le> budget - 1"
  | (join) e sep items parts where "v = PDict [(''Fn::Join'', e)]" "join_parts e = Some (sep, items)"
      "r = joined sep parts"
      "map_cfn (cfn_value bindings mappings (depth + 1) path) items (budget - 1) = Some (parts, b')" "0 \<le> budget - 1"
  | (unfound) x y z found where "v = PDict [(''Fn::FindInMap'', PList [x, y, z])]" "r = no_value" "0 \<le> budget - 1"
      "map_cfn (cfn_value bindings mappings (depth + 1) path) [x, y, z] (budget - 1) = Some (found, b')"
  | (found) x y z found b2 where "v = PDict [(''Fn::FindInMap'', PList [x, y, z])]"
      "map_cfn (cfn_value bindings mappings (depth + 1) path) [x, y, z] (budget - 1) = Some (found, b2)"
      "list_all2 (\<lambda>x t. sv_value x = Some t) found (List.map_filter sv_value found)"
      "cfn_value bindings mappings (depth + 1) (List.map_filter sv_value found # path)
         (find_in_map (PDict mappings) (List.map_filter sv_value found)) b2 = Some (r, b')" "0 \<le> budget - 1"
  | (branch) c x y yes no b2 where "v = PDict [(''Fn::If'', PList [c, x, y])]" "r = either_branch yes no"
      "cfn_value bindings mappings (depth + 1) path x (budget - 1) = Some (yes, b2)"
      "cfn_value bindings mappings (depth + 1) path y b2 = Some (no, b')" "0 \<le> budget - 1"
proof (cases "\<exists>d. v = PDict d")
  case True
  then obtain d where PDict: "v = PDict d" by blast
  note ok = cfn_value_ok [OF run]
  show ?thesis
  proof (cases d rule: dict_one_cases)
    case other
    then have "cfn_value bindings mappings depth path (PDict d) budget = Some (no_value, budget - 1)"
      by (rule cfn_value_other [OF ok])
    then have "r = no_value" "b' = budget - 1" using run unfolding PDict by simp_all
    then show ?thesis using ok(2) by (intro none) simp_all
  next
    case (single k e)
    note step = run [unfolded PDict single cfn_value_one [OF ok]]
    consider "k = ''Ref''" | "k = ''Fn::Sub''" | "k = ''Fn::Join''" | "k = ''Fn::FindInMap''" | "k = ''Fn::If''"
      | "k \<notin> {''Ref'', ''Fn::Sub'', ''Fn::Join'', ''Fn::FindInMap'', ''Fn::If''}" by blast
    then show ?thesis
    proof cases
      case 1
      have "(case e of PStr name \<Rightarrow> literal_value (map_of bindings name) | _ \<Rightarrow> no_value) = r" "budget - 1 = b'"
        using step unfolding 1 by simp_all
      then show ?thesis using ok(2) PDict [unfolded single 1] by (cases e) (auto intro: none ref)
    next
      case 2
      show ?thesis
      proof (cases "sub_parts e")
        case None
        then have "r = no_value" "b' = budget - 1" using step unfolding 2 by simp_all
        then show ?thesis using ok(2) by (intro none) simp_all
      next
        case (Some p)
        obtain body variables where parts: "sub_parts e = Some (body, variables)" using Some by (cases p) simp
        show ?thesis
        proof (cases "max_value_length < length body \<or> max_parts < length variables")
          case True
          then have "r = no_value" "b' = budget - 1" using step parts unfolding 2 by simp_all
          then show ?thesis using ok(2) by (intro none) simp_all
        next
          case False
          with step parts show ?thesis unfolding 2
            by (auto simp: Let_def simp del: One_nat_def add_Suc_right
                intro: sub [OF PDict [unfolded single 2] parts _ _ ok(2)] simp del: diff_ge_0_iff_ge)
        qed
      qed
    next
      case 3
      show ?thesis
      proof (cases "join_parts e")
        case None
        then have "r = no_value" "b' = budget - 1" using step unfolding 3 by simp_all
        then show ?thesis using ok(2) by (intro none) simp_all
      next
        case (Some p)
        obtain sep items where parts: "join_parts e = Some (sep, items)" using Some by (cases p) simp
        then show ?thesis using step unfolding 3
          by (auto simp: Let_def simp del: One_nat_def add_Suc_right intro: join [OF PDict [unfolded single 3] parts _ _ ok(2)])
      qed
    next
      case 4
      show ?thesis
      proof (cases "\<exists>x y z. e = PList [x, y, z]")
        case True
        then obtain x y z where e: "e = PList [x, y, z]" by blast
        obtain fs b2 where fs: "map_cfn (cfn_value bindings mappings (depth + 1) path) [x, y, z] (budget - 1) = Some (fs, b2)"
          and rest: "(if list_ex (\<lambda>r. sv_value r = None) fs then Some (no_value, b2)
                 else let keys = List.map_filter sv_value fs in
                   if keys \<in> set path then Some (no_value, b2)
                   else cfn_value bindings mappings (depth + 1) (keys # path) (find_in_map (PDict mappings) keys) b2) = Some (r, b')"
          using step unfolding 4 e by (simp add: Let_def bind_eq_Some_conv del: map_cfn.simps One_nat_def add_Suc_right) blast
        note vdef = PDict [unfolded single 4 e]
        show ?thesis
        proof (cases "list_ex (\<lambda>r. sv_value r = None) fs \<or> List.map_filter sv_value fs \<in> set path")
          case True
          then have "r = no_value" "b' = b2" using rest by (auto simp: Let_def split: if_splits)
          then show ?thesis using fs by (intro unfound [OF vdef _ ok(2)]) simp_all
        next
          case False
          then show ?thesis using rest map_filter_all_Some [of sv_value fs]
            by (intro found [OF vdef fs _ _ ok(2)]) (simp_all add: Let_def)
        qed
      next
        case False
        then have "no_value = r" "budget - 1 = b'"
          using step unfolding 4 by (auto simp: Let_def simp del: map_cfn.simps split: pyval.splits list.splits)
        then show ?thesis using ok(2) by (intro none) simp_all
      qed
    next
      case 5
      show ?thesis
      proof (cases "\<exists>c x y. e = PList [c, x, y]")
        case True
        then obtain c x y where e: "e = PList [c, x, y]" by blast
        show ?thesis using step unfolding 5 e
          by (auto simp: Let_def bind_eq_Some_conv simp del: One_nat_def add_Suc_right
              intro: branch [OF PDict [unfolded single 5 e] _ _ _ ok(2)])
      next
        case False
        then have "no_value = r" "budget - 1 = b'"
          using step unfolding 5 by (auto simp: Let_def split: pyval.splits list.splits)
        then show ?thesis using ok(2) by (intro none) simp_all
      qed
    next
      case 6
      then have "r = no_value" "b' = budget - 1" using step by simp_all
      then show ?thesis using ok(2) by (intro none) simp_all
    qed
  qed
next
  case False
  note ok = cfn_value_ok [OF run]
  have "(case v of PStr t \<Rightarrow> literal_value (Some t) | _ \<Rightarrow> no_value) = r" "budget - 1 = b'"
    using run cfn_value_plain [OF ok] False by auto
  then show ?thesis using ok(2) by (cases v) (auto intro: none plain)
qed

text \<open>The meaning of an expression is unique once the conditions are settled.\<close>

inductive_cases denotes_str: "cfn_denotes cond bindings mappings (PStr x) t"
inductive_cases denotes_ref: "cfn_denotes cond bindings mappings (PDict [(''Ref'', PStr name)]) t"
inductive_cases denotes_sub: "cfn_denotes cond bindings mappings (PDict [(''Fn::Sub'', e)]) t"
inductive_cases denotes_join: "cfn_denotes cond bindings mappings (PDict [(''Fn::Join'', e)]) t"
inductive_cases denotes_find: "cfn_denotes cond bindings mappings (PDict [(''Fn::FindInMap'', PList [x, y, z])]) t"
inductive_cases denotes_if: "cfn_denotes cond bindings mappings (PDict [(''Fn::If'', PList [c, x, y])]) t"
inductive_cases denotes_kept: "part_denotes cond bindings mappings variables (Inl c) t"
inductive_cases denotes_key: "part_denotes cond bindings mappings variables (Inr key) t"

lemma list_all2_unique:
  "list_all2 (\<lambda>x y. \<forall>z. P x z \<longrightarrow> y = z) xs ys \<Longrightarrow> list_all2 P xs zs \<Longrightarrow> ys = zs"
  by (induction xs ys arbitrary: zs rule: list_all2_induct) (auto simp: list_all2_Cons1)

lemma denotes_unique:
  "cfn_denotes cond bindings mappings v t \<Longrightarrow> (\<forall>u. cfn_denotes cond bindings mappings v u \<longrightarrow> t = u)"
  "part_denotes cond bindings mappings variables part s \<Longrightarrow>
     (\<forall>u. part_denotes cond bindings mappings variables part u \<longrightarrow> s = u)"
proof (induction rule: cfn_denotes_part_denotes.inducts)
  case (Sub e body variables ts)
  have "list_all2 (\<lambda>x y. \<forall>z. part_denotes cond bindings mappings variables x z \<longrightarrow> y = z) (substitutions body) ts"
    using Sub(2) by (rule list_all2_mono) auto
  then show ?case using Sub(1) by (auto elim!: denotes_sub dest: list_all2_unique)
next
  case (Join e sep items ts)
  have "list_all2 (\<lambda>x y. \<forall>z. cfn_denotes cond bindings mappings x z \<longrightarrow> y = z) items ts"
    using Join(2) by (rule list_all2_mono) auto
  then show ?case using Join(1) by (auto elim!: denotes_join dest: list_all2_unique)
next
  case (Find x a y b z c t)
  show ?case
  proof (intro allI impI)
    fix u
    assume "cfn_denotes cond bindings mappings (PDict [(''Fn::FindInMap'', PList [x, y, z])]) u"
    then have "\<exists>a' b' c'. cfn_denotes cond bindings mappings x a' \<and> cfn_denotes cond bindings mappings y b' \<and>
        cfn_denotes cond bindings mappings z c' \<and>
        cfn_denotes cond bindings mappings (find_in_map (PDict mappings) [a', b', c']) u"
      by (rule denotes_find) blast
    then show "t = u" using Find.IH by blast
  qed
next
  case (Variable variables key item t)
  then show ?case by (metis denotes_key option.distinct(1) option.inject)
next
  case (Parameter variables key t)
  then show ?case by (metis denotes_key option.distinct(1) option.inject)
next
  case (If c x y t)
  then show ?case by (metis denotes_if)
qed (auto elim!: denotes_str denotes_ref denotes_kept)

section \<open>Soundness and budget\<close>

lemma literal_denotes: "sv_value (literal_value v) = Some t \<Longrightarrow> v = Some t"
  by (simp add: literal_value_Some)

lemma map_cfn_denotes:
  assumes "map_cfn f xs b = Some (rs, b')" "list_all2 (\<lambda>r t. sv_value r = Some t) rs ts"
    "\<And>x b r b' t. x \<in> set xs \<Longrightarrow> f x b = Some (r, b') \<Longrightarrow> sv_value r = Some t \<Longrightarrow> P x t"
  shows "list_all2 P xs ts"
  using assms
proof (induction xs arbitrary: b rs ts)
  case (Cons x xs)
  obtain r b1 rs' where x: "f x b = Some (r, b1)" "map_cfn f xs b1 = Some (rs', b')" "rs = r # rs'"
    using Cons.prems(1) by (auto simp: bind_eq_Some_conv)
  obtain t ts' where t: "ts = t # ts'" "sv_value r = Some t" "list_all2 (\<lambda>r t. sv_value r = Some t) rs' ts'"
    using Cons.prems(2) x(3) by (auto simp: list_all2_Cons1)
  show ?case unfolding t(1) using Cons.IH [OF x(2) t(3)] Cons.prems(3) x(1) t(2) by auto
qed simp

lemma cfn_value_sound:
  "cfn_value bindings mappings depth path v budget = Some (r, b') \<Longrightarrow> sv_value r = Some t \<Longrightarrow>
   cfn_denotes cond bindings mappings v t"
proof (induction "max_depth + 1 - depth" arbitrary: depth path v budget r b' t rule: less_induct)
  case less
  have IH: "cfn_value bindings mappings (depth + 1) q u b = Some (s, c) \<Longrightarrow> sv_value s = Some y \<Longrightarrow>
      cfn_denotes cond bindings mappings u y" for q u b s c y
    using cfn_value_ok(1) [OF less.prems(1)] by (intro less.hyps [of "depth + 1"]) auto
  note IH_Suc = IH [unfolded Suc_eq_plus1 [symmetric]]
  show ?case using less.prems(1)
  proof (cases rule: cfn_value_cases)
    case none
    then show ?thesis using less.prems(2) by (simp add: no_value_def)
  next
    case (plain u)
    then show ?thesis using literal_denotes [of "Some u"] less.prems(2) by (auto intro: Text)
  next
    case (ref name)
    then show ?thesis using literal_denotes less.prems(2) by (auto intro: Ref)
  next
    case (sub e body variables parts)
    obtain ts where ts: "list_all2 (\<lambda>x t. sv_value x = Some t) parts ts" "t = concat ts"
      using joined_Some [of "[]" parts t] sub(3) less.prems(2) by auto
    have "list_all2 (part_denotes cond bindings mappings variables) (substitutions body) ts"
      using sub(4) ts(1) by (rule map_cfn_denotes)
        (auto split: sum.splits option.splits intro: Kept Variable Parameter IH_Suc dest: literal_denotes)
    then show ?thesis using sub(1,2) ts(2) by (auto intro: Sub)
  next
    case (join e sep items parts)
    obtain ts where ts: "list_all2 (\<lambda>x t. sv_value x = Some t) parts ts" "t = join sep ts"
      using joined_Some [of sep parts t] join(3) less.prems(2) by auto
    have "list_all2 (cfn_denotes cond bindings mappings) items ts"
      using join(4) ts(1) by (rule map_cfn_denotes) (rule IH)
    then show ?thesis using join(1,2) ts(2) by (auto intro: Join)
  next
    case (unfound x y z found)
    then show ?thesis using less.prems(2) by (simp add: no_value_def)
  next
    case (found x y z fs b2)
    have "list_all2 (cfn_denotes cond bindings mappings) [x, y, z] (List.map_filter sv_value fs)"
      using found(2,3) by (rule map_cfn_denotes) (rule IH)
    then obtain k1 k2 k3 where keys: "List.map_filter sv_value fs = [k1, k2, k3]"
      "cfn_denotes cond bindings mappings x k1" "cfn_denotes cond bindings mappings y k2"
      "cfn_denotes cond bindings mappings z k3" by (auto simp: list_all2_Cons1)
    have "cfn_denotes cond bindings mappings (find_in_map (PDict mappings) [k1, k2, k3]) t"
      using IH [OF found(4) less.prems(2)] keys(1) by simp
    then show ?thesis unfolding found(1) using keys(2-4) by (rule Find [rotated 3])
  next
    case (branch c x y yes no b2)
    have "sv_value yes = Some t" "sv_value no = Some t"
      using branch(2) less.prems(2) by (auto simp: either_branch_def split: if_splits)
    then show ?thesis unfolding branch(1) using IH [OF branch(3)] IH [OF branch(4)] by (auto intro: If)
  qed
qed

lemma cfn_value_spends:
  "cfn_value bindings mappings depth path v budget = Some (r, b') \<Longrightarrow> 0 \<le> b' \<and> b' < budget"
proof (induction "max_depth + 1 - depth" arbitrary: depth path v budget r b' rule: less_induct)
  case less
  have IH: "cfn_value bindings mappings (depth + 1) q u b = Some (s, c) \<Longrightarrow> 0 \<le> b \<Longrightarrow> 0 \<le> c \<and> c \<le> b" for q u b s c
    using cfn_value_ok(1) [OF less.prems] less.hyps [of "depth + 1" q u b s c] by (auto simp: Suc_diff_le)
  have all: "map_cfn (cfn_value bindings mappings (depth + 1) path) xs b = Some (ys, c) \<Longrightarrow> 0 \<le> b \<Longrightarrow> 0 \<le> c \<and> c \<le> b"
    for xs b ys c
    by (rule map_cfn_budget [of "cfn_value bindings mappings (depth + 1) path"]) (rule IH)
  note IH_Suc = IH [unfolded Suc_eq_plus1 [symmetric]]
  show ?case using less.prems
  proof (cases rule: cfn_value_cases)
    case (sub e body variables parts)
    have "0 \<le> b' \<and> b' \<le> budget - 1"
      using _ sub(4,5) by (rule map_cfn_budget) (auto split: sum.splits option.splits dest: IH_Suc)
    then show ?thesis by simp
  next
    case (join e sep items parts)
    then show ?thesis using all [OF join(4,5)] by simp
  next
    case (unfound x y z found)
    then show ?thesis using all [OF unfound(4,3)] by simp
  next
    case (found x y z fs b2)
    then show ?thesis using all [OF found(2,5)] IH [OF found(4)] by simp
  next
    case (branch c x y yes no b2)
    then show ?thesis using IH [OF branch(3,5)] IH [OF branch(4)] by simp
  qed simp_all
qed

lemma cfn_value_well_stated:
  "cfn_value bindings mappings depth path v budget = Some (r, b') \<Longrightarrow> well_stated r"
proof (induction "max_depth + 1 - depth" arbitrary: depth path v budget r b' rule: less_induct)
  case less
  have IH: "cfn_value bindings mappings (depth + 1) q u b = Some (s, c) \<Longrightarrow> well_stated s" for q u b s c
    using cfn_value_ok(1) [OF less.prems] less.hyps [of "depth + 1" q u b s c] by auto
  show ?case using less.prems
    by (cases rule: cfn_value_cases) (auto intro: IH [unfolded Suc_eq_plus1 [symmetric]] well_stated_simps(4))
qed

section \<open>The bound of a JSON document\<close>

text \<open>The nodes of a document and its nesting.\<close>

function json_nodes :: "pyval \<Rightarrow> nat" where
  "json_nodes v = Suc (sum_list (map json_nodes (json_children v)))"
  by pat_completeness auto
termination
  by (relation "measure size") (auto simp: json_children_size)

function json_height :: "pyval \<Rightarrow> nat" where
  "json_height v = foldr (\<lambda>c h. max (Suc (json_height c)) h) (json_children v) 0"
  by pat_completeness auto
termination
  by (relation "measure size") (auto simp: json_children_size)

declare json_nodes.simps [simp del] json_height.simps [simp del]

lemma foldr_max_le: "foldr (\<lambda>c h. max (Suc (f c)) h) cs 0 \<le> (n::nat) \<longleftrightarrow> (\<forall>c\<in>set cs. Suc (f c) \<le> n)"
  by (induction cs) auto

lemma bounded_fold:
  assumes "\<And>c n. c \<in> set cs \<Longrightarrow> bounded_json c (Suc d) n =
      (if Suc d + json_height c \<le> max_depth \<and> n + json_nodes c \<le> max_nodes then Some (n + json_nodes c) else None)"
    and "m \<le> max_nodes"
  shows "fold (\<lambda>c acc. Option.bind acc (bounded_json c (Suc d))) cs (Some m) =
      (if (\<forall>c\<in>set cs. Suc d + json_height c \<le> max_depth) \<and> m + sum_list (map json_nodes cs) \<le> max_nodes
       then Some (m + sum_list (map json_nodes cs)) else None)"
  using assms
proof (induction cs arbitrary: m)
  case (Cons c cs)
  have none: "fold (\<lambda>c acc. Option.bind acc (bounded_json c (Suc d))) cs None = None" for cs
    by (induction cs) simp_all
  show ?case
  proof (cases "Suc d + json_height c \<le> max_depth \<and> m + json_nodes c \<le> max_nodes")
    case True
    then show ?thesis using Cons.IH [of "m + json_nodes c"] Cons.prems(1) by (auto simp: add.assoc)
  next
    case False
    then show ?thesis using Cons.prems(1) [of c m] by (auto simp: none)
  qed
qed simp

text \<open>
  The bound on a parsed JSON document, which the code checks while it walks the document with a shared
  counter, is exactly: at most 32 levels below the root and at most 50000 values, keys not counted.
\<close>

theorem bounded_json_exact:
  "bounded_json v 0 0 = (if json_height v \<le> 32 \<and> json_nodes v \<le> 50000 then Some (json_nodes v) else None)"
proof -
  have "bounded_json v d n = (if d + json_height v \<le> max_depth \<and> n + json_nodes v \<le> max_nodes
      then Some (n + json_nodes v) else None)" for d n
  proof (induction v arbitrary: d n rule: measure_induct_rule [of size])
    case (less v)
    have step: "fold (\<lambda>c acc. Option.bind acc (bounded_json c (Suc d))) (json_children v) (Some (Suc n)) =
      (if (\<forall>c\<in>set (json_children v). Suc d + json_height c \<le> max_depth) \<and>
          Suc n + sum_list (map json_nodes (json_children v)) \<le> max_nodes
       then Some (Suc n + sum_list (map json_nodes (json_children v))) else None)" if "Suc n \<le> max_nodes"
      by (rule bounded_fold [OF less.IH that]) (rule json_children_size)
    have height: "d + json_height v \<le> max_depth \<longleftrightarrow>
        d \<le> max_depth \<and> (\<forall>c\<in>set (json_children v). Suc d + json_height c \<le> max_depth)"
      using foldr_max_le [of json_height "json_children v" "max_depth - d"]
      unfolding json_height.simps [of v] by auto
    show ?case unfolding height json_nodes.simps [of v]
      by (subst bounded_json.simps) (auto simp: step)
  qed
  from this [of 0 0] show ?thesis by (simp add: max_depth_def max_nodes_def)
qed

section \<open>YAML documents\<close>

lemma unique_object_from_append:
  "distinct (map fst d) \<Longrightarrow>
   unique_object_from d pairs = (if distinct (map fst (d @ pairs)) then Some (d @ pairs) else None)"
proof (induction pairs arbitrary: d)
  case (Cons p pairs)
  obtain k v where p: "p = (k, v)" by (cases p)
  show ?case
  proof (cases "k \<in> fst ` set d")
    case True
    then show ?thesis using p by (auto simp: map_of_eq_None_iff)
  next
    case False
    then have set: "dict_set k v d = d @ [(k, v)]" by (induction d) auto
    show ?thesis using Cons.IH [of "d @ [(k, v)]"] Cons.prems False p
      by (auto simp: set map_of_eq_None_iff dest!: map_of_SomeD)
  qed
qed simp

lemma unique_object_iff: "unique_object pairs = (if distinct (map fst pairs) then Some pairs else None)"
  by (simp add: unique_object_def unique_object_from_append)

text \<open>The documents made of texts, sequences and dictionaries with distinct keys.\<close>

fun plain_document :: "pyval \<Rightarrow> bool" where
  "plain_document (PStr s) = True"
| "plain_document (PList vs) = (\<forall>v\<in>set vs. plain_document v)"
| "plain_document (PDict ps) = (distinct (map fst ps) \<and> (\<forall>p\<in>set ps. plain_document (snd p)))"
| "plain_document _ = False"

text \<open>The node tree of such a document, with its nodes numbered in the order of the traversal.\<close>

fun yaml_tree :: "nat \<Rightarrow> pyval \<Rightarrow> yaml_node \<times> nat"
  and yaml_trees :: "nat \<Rightarrow> pyval list \<Rightarrow> yaml_node list \<times> nat"
  and yaml_entries :: "nat \<Rightarrow> attrs \<Rightarrow> (yaml_node \<times> yaml_node) list \<times> nat" where
  "yaml_tree i (PStr s) = (Scalar_Node i (yaml_tag ''str'') s, Suc i)"
| "yaml_tree i (PList vs) = (let (ns, j) = yaml_trees (Suc i) vs in (Sequence_Node i (yaml_tag ''seq'') ns, j))"
| "yaml_tree i (PDict ps) = (let (es, j) = yaml_entries (Suc i) ps in (Mapping_Node i (yaml_tag ''map'') es, j))"
| "yaml_tree i _ = (Scalar_Node i (yaml_tag ''null'') [], Suc i)"
| "yaml_trees i [] = ([], i)"
| "yaml_trees i (v # vs) = (let (n, j) = yaml_tree i v; (ns, k) = yaml_trees j vs in (n # ns, k))"
| "yaml_entries i [] = ([], i)"
| "yaml_entries i ((key, v) # ps) =
     (let (n, j) = yaml_tree (Suc i) v; (es, k) = yaml_entries j ps
      in ((Scalar_Node i (yaml_tag ''str'') key, n) # es, k))"

definition fits :: "nat \<Rightarrow> nat \<Rightarrow> pyval list \<Rightarrow> bool" where
  "fits depth count vs \<longleftrightarrow> (\<forall>v\<in>set vs. depth + json_height v \<le> max_depth) \<and>
     count + sum_list (map json_nodes vs) \<le> max_nodes"

lemma json_counts [simp]:
  "json_nodes (PStr s) = 1" "json_nodes (PList vs) = Suc (sum_list (map json_nodes vs))"
  "json_nodes (PDict ps) = Suc (sum_list (map json_nodes (map snd ps)))"
  by (simp_all add: json_nodes.simps)

lemma json_heights:
  "json_height (PStr s) = 0" "json_height (PList vs) = foldr (\<lambda>c h. max (Suc (json_height c)) h) vs 0"
  "json_height (PDict ps) = foldr (\<lambda>c h. max (Suc (json_height c)) h) (map snd ps) 0"
  by (simp_all add: json_height.simps [of "PStr s"] json_height.simps [of "PList vs"] json_height.simps [of "PDict ps"])

lemma fits_child:
  "fits d c [PList vs] \<Longrightarrow> fits (Suc d) (Suc c) vs"
  "fits d c [PDict ps] \<Longrightarrow> fits (Suc d) (Suc c) (map snd ps)"
  using foldr_max_le [of json_height vs "max_depth - d"] foldr_max_le [of json_height "map snd ps" "max_depth - d"]
  by (auto simp: fits_def json_heights)

lemma fits_Cons: "fits d c (v # vs) \<Longrightarrow> fits d c [v] \<and> fits d (c + json_nodes v) vs"
  by (auto simp: fits_def)

lemma visit_new:
  "fits d c [v] \<Longrightarrow> \<forall>s\<in>seen. s < node_id n \<Longrightarrow> normal_tag (node_tag n) \<Longrightarrow>
   visit n d (seen, c) = Some (insert (node_id n) seen, Suc c)"
  by (auto simp: visit_def fits_def json_nodes.simps [of v])

lemma normal_tags [simp]: "normal_tag (yaml_tag ''str'')" "normal_tag (yaml_tag ''seq'')" "normal_tag (yaml_tag ''map'')"
  by (simp_all add: normal_tag_def)

lemma tagged_plain [simp]: "tagged_value (yaml_tag kind) payload v = Some v"
  by (simp add: tagged_value_def yaml_tag_def startswith_def)

lemma yaml_tree_read:
  "fits d c [v] \<Longrightarrow> plain_document v \<Longrightarrow> \<forall>s\<in>seen. s < i \<Longrightarrow>
     \<exists>seen'. yaml_value d (fst (yaml_tree i v)) (seen, c) = Some (v, (seen', c + json_nodes v)) \<and>
       (\<forall>s\<in>seen'. s < snd (yaml_tree i v))"
  "fits d c vs \<Longrightarrow> \<forall>v\<in>set vs. plain_document v \<Longrightarrow> \<forall>s\<in>seen. s < i \<Longrightarrow>
     \<exists>seen'. yaml_values d (fst (yaml_trees i vs)) (seen, c) = Some (vs, (seen', c + sum_list (map json_nodes vs))) \<and>
       (\<forall>s\<in>seen'. s < snd (yaml_trees i vs))"
  "fits d c (map snd ps) \<Longrightarrow> \<forall>p\<in>set ps. plain_document (snd p) \<Longrightarrow> \<forall>s\<in>seen. s < i \<Longrightarrow>
     \<exists>seen'. yaml_pairs d (fst (yaml_entries i ps)) (seen, c) =
         Some (ps, (seen', c + sum_list (map json_nodes (map snd ps)))) \<and>
       (\<forall>s\<in>seen'. s < snd (yaml_entries i ps))"
proof (induction i v and i vs and i ps arbitrary: d c seen and d c seen and d c seen
    rule: yaml_tree_yaml_trees_yaml_entries.induct)
  case (1 i s)
  then show ?case using visit_new [of d c "PStr s" seen "Scalar_Node i (yaml_tag ''str'') s"] by auto
next
  case (2 i vs)
  obtain ns j where t: "yaml_trees (Suc i) vs = (ns, j)" by fastforce
  have v: "visit (Sequence_Node i (yaml_tag ''seq'') ns) d (seen, c) = Some (insert i seen, Suc c)"
    using visit_new [OF 2(2), of seen "Sequence_Node i (yaml_tag ''seq'') ns"] 2(4) by simp
  show ?case using 2(1) [OF fits_child(1) [OF 2(2)], of "insert i seen"] 2(3,4) t v
    by (auto simp: less_Suc_eq)
next
  case (3 i ps)
  obtain es j where t: "yaml_entries (Suc i) ps = (es, j)" by fastforce
  have v: "visit (Mapping_Node i (yaml_tag ''map'') es) d (seen, c) = Some (insert i seen, Suc c)"
    using visit_new [OF 3(2), of seen "Mapping_Node i (yaml_tag ''map'') es"] 3(4) by simp
  show ?case using 3(1) [OF fits_child(2) [OF 3(2)], of "insert i seen"] 3(3,4) t v
    by (auto simp: less_Suc_eq unique_object_iff)
next
  case (6 i v vs)
  obtain n j where n: "yaml_tree i v = (n, j)" by fastforce
  obtain ns k where ns: "yaml_trees j vs = (ns, k)" by fastforce
  obtain seen1 where r: "yaml_value d n (seen, c) = Some (v, (seen1, c + json_nodes v))" "\<forall>s\<in>seen1. s < j"
    using 6(1) [of d c seen] 6(3-5) fits_Cons [OF 6(3)] n by auto
  show ?case using 6(2) [OF n [symmetric] refl, of d "c + json_nodes v" seen1] 6(4) fits_Cons [OF 6(3)] n ns r
    by (auto simp: add.assoc)
next
  case (8 i key v ps)
  obtain n j where n: "yaml_tree (Suc i) v = (n, j)" by fastforce
  obtain ns k where ns: "yaml_entries j ps = (ns, k)" by fastforce
  have less: "\<forall>s\<in>seen. s < Suc i" using 8(5) by auto
  have fits: "fits d c [v]" "fits d (c + json_nodes v) (map snd ps)"
    using fits_Cons [of d c v "map snd ps"] 8(3) by simp_all
  obtain seen1 where r: "yaml_value d n (seen, c) = Some (v, (seen1, c + json_nodes v))" "\<forall>s\<in>seen1. s < j"
    using 8(1) [OF fits(1) _ less] 8(4) n by auto
  show ?case using 8(2) [OF n [symmetric] refl fits(2), of seen1] 8(4) n ns r
    by (auto simp: add.assoc)
qed auto

section \<open>Properties\<close>

text \<open>
  C35. Reading the YAML node tree of a document of texts, sequences and dictionaries (with distinct keys,
  within the depth and node bounds) gives the document back.
\<close>

theorem yaml_roundtrip:
  assumes "plain_document v" "json_height v \<le> 32" "json_nodes v \<le> 50000"
  shows "map_option fst (yaml_value 0 (fst (yaml_tree i v)) ({}, 0)) = Some v"
  using yaml_tree_read(1) [of 0 0 v "{}" i] assms
  by (auto simp: fits_def max_depth_def max_nodes_def)

theorem yaml_roundtrip_witness:
  "map_option fst (yaml_value 0 (fst (yaml_tree 0 (PDict [(''Resources'', PDict [(''Bucket'', PList [PStr ''a''])])]))) ({}, 0))
    = Some (PDict [(''Resources'', PDict [(''Bucket'', PList [PStr ''a''])])])"
  by (rule yaml_roundtrip) (simp_all add: json_heights)

text \<open>
  C33. A template expression that resolves to a text does so with the state \<open>literal\<close>, the text has no
  control character, no unresolved reference and at most 1024 characters, and it is the one text the
  expression can have at deployment, however the conditions of the template come out.
\<close>

theorem template_value_meaning:
  assumes "cloudformation_value bindings mappings v = Some r" "sv_value r = Some t"
  shows "sv_state r = Literal \<and> literal_text t \<and> (\<forall>cond u. cfn_denotes cond bindings mappings v u \<longleftrightarrow> u = t)"
proof -
  obtain b where run: "cfn_value bindings mappings 0 [] v initial_budget = Some (r, b)"
    using assms(1) by (auto simp: cloudformation_value_def)
  have "cfn_denotes cond bindings mappings v t" for cond
    using run assms(2) by (rule cfn_value_sound)
  then show ?thesis using cfn_value_well_stated [OF run] assms(2) denotes_unique(1)
    by (fastforce simp: well_stated_def)
qed

theorem template_value_meaning_witness:
  "\<forall>u. cfn_denotes (\<lambda>_. True) [(''Env'', ''prod'')] [] (PDict [(''Fn::Sub'', PStr ''app-${Env}'')]) u \<longleftrightarrow> u = ''app-prod''"
proof -
  have "cloudformation_value [(''Env'', ''prod'')] [] (PDict [(''Fn::Sub'', PStr ''app-${Env}'')]) =
      Some \<lparr>sv_value = Some ''app-prod'', sv_state = Literal\<rparr>" by code_simp
  from template_value_meaning [OF this] show ?thesis by simp
qed

text \<open>
  Every evaluation of an expression costs at least one unit of the budget that is shared by the whole
  expression, and a result is only given within the depth bound with the budget not overdrawn.
\<close>

theorem template_value_budget:
  assumes "cfn_value bindings mappings depth path v budget = Some (r, b')"
  shows "depth \<le> 32 \<and> 0 \<le> b' \<and> b' < budget"
  using cfn_value_spends [OF assms] cfn_value_ok(1) [OF assms] by (simp add: max_depth_def)

theorem template_value_budget_witness: "(32::nat) \<le> 32 \<and> (0::int) \<le> 0 \<and> (0::int) < 1"
proof -
  have "cfn_value [] [] 32 [] (PStr ''a'') 1 = Some (\<lparr>sv_value = Some ''a'', sv_state = Literal\<rparr>, 0)" by code_simp
  from template_value_budget [OF this] show ?thesis .
qed

end
