(* ===== verification/Static_Js_Props.thy ===== *)
theory Static_Js_Props
  imports Static_Js Static_Cfn_Props "HOL-Library.Code_Target_Nat"
begin

text \<open>
  The tokens of a source against the scanner of the posture detectors, and the resolved text of a property
  against the meaning of its expression.
\<close>

section \<open>Tokens\<close>

text \<open>What a token list says of a source, from the position \<open>i\<close> inside \<open>d\<close> open brackets.\<close>

definition closing_token :: "js_token \<Rightarrow> bool" where
  "closing_token t \<longleftrightarrow> \<not> tk_string t \<and> partner (tk_value t) \<noteq> None"

definition opening_token :: "js_token \<Rightarrow> bool" where
  "opening_token t \<longleftrightarrow> \<not> tk_string t \<and> opens (tk_value t)"

fun tokenised :: "string \<Rightarrow> nat \<Rightarrow> nat \<Rightarrow> js_token list \<Rightarrow> bool" where
  "tokenised src i d [] \<longleftrightarrow> skip_space_and_comments src i = length src \<and> d = 0"
| "tokenised src i d (t # ts) \<longleftrightarrow>
     tk_start t = skip_space_and_comments src i \<and> tk_start t < tk_end t \<and> tk_end t \<le> length src \<and>
     tk_value t = take (tk_end t - tk_start t) (drop (tk_start t) src) \<and>
     (tk_string t \<longleftrightarrow> js_quote (src ! tk_start t)) \<and>
     (if closing_token t then 0 < d \<and> tk_depth t = d - 1 else tk_depth t = d) \<and>
     tokenised src (tk_end t) (if opening_token t then tk_depth t + 1 else tk_depth t) ts"

lemma skip_from_Nil [simp]: "skip_from i [] = i"
  by (simp add: skip_from.simps)

lemma skip_from_space: "is_space c \<Longrightarrow> skip_from i (c # r) = skip_from (i + 1) r"
  by (subst skip_from.simps) simp

lemma skip_from_here:
  "\<not> is_space (hd s) \<Longrightarrow> \<not> startswith s ''//'' \<Longrightarrow> \<not> startswith s ''/*'' \<Longrightarrow> skip_from i s = i"
  by (cases s) (simp_all add: skip_from.simps [of i s] skip_from.simps)

lemma find_sub_startswith: "find_sub sub s = Some k \<Longrightarrow> startswith (drop k s) sub"
proof (induction s arbitrary: k)
  case (Cons c s)
  then show ?case by (auto split: if_splits)
qed (simp add: startswith_def split: if_splits)

lemma skip_from_line:
  assumes "\<not> is_space c" "startswith (c # r) ''//''"
  shows "skip_from i (c # r) = (case find_sub [newline] (drop 2 (c # r)) of
     None \<Rightarrow> i + length (c # r) | Some k \<Rightarrow> skip_from (i + 2 + k) (drop (2 + k) (c # r)))"
proof (cases "find_sub [newline] (drop 2 (c # r))")
  case (Some k)
  obtain rest where rest: "drop k (drop 2 (c # r)) = newline # rest"
    using find_sub_startswith [OF Some] by (auto simp: startswith_iff)
  then have "drop (2 + k) (c # r) = newline # rest" by (simp add: add.commute)
  moreover from this have "drop (2 + k + 1) (c # r) = rest"
    by (metis drop_drop drop_Suc_Cons drop0 add.commute plus_1_eq_Suc)
  moreover have "is_space newline" by (simp add: is_space_def)
  ultimately show ?thesis using assms Some skip_from_space [of newline "i + 2 + k" rest]
    by (subst skip_from.simps) (simp del: drop_Suc_Cons)
qed (use assms in \<open>simp add: skip_from.simps [of i "c # r"]\<close>)

lemma skip_from_block:
  assumes "\<not> is_space c" "\<not> startswith (c # r) ''//''" "startswith (c # r) ''/*''"
    "find_sub ''*/'' (drop 2 (c # r)) = Some k"
  shows "skip_from i (c # r) = skip_from (i + 2 + k + 2) (drop (2 + k + 2) (c # r))"
  using assms by (subst skip_from.simps) simp

lemma tokenised_skip:
  "skip_space_and_comments src i = skip_space_and_comments src j \<Longrightarrow> tokenised src i d ts = tokenised src j d ts"
  by (cases ts) simp_all

lemma hd_drop_eq: "drop i src = c # r \<Longrightarrow> src ! i = c \<and> i < length src \<and> drop (i + n) src = drop n (c # r)"
  by (metis add.commute drop_all drop_drop hd_drop_conv_nth leI list.distinct(1) list.sel(1))

lemma tokens_from_Nil: "tokens_from i stack n [] = (if stack = [] then Some [] else None)"
  by (subst tokens_from.simps) simp

lemma tokens_from_space: "is_space c \<Longrightarrow> tokens_from i stack n (c # r) = tokens_from (i + 1) stack n r"
  by (subst tokens_from.simps) simp

lemma tokens_from_line:
  "\<not> is_space c \<Longrightarrow> startswith (c # r) ''//'' \<Longrightarrow> tokens_from i stack n (c # r) =
     (case find_sub [newline] (drop 2 (c # r)) of
        None \<Rightarrow> tokens_from (i + length (c # r)) stack n []
      | Some k \<Rightarrow> tokens_from (i + 2 + k) stack n (drop (2 + k) (c # r)))"
  by (subst tokens_from.simps) (simp del: drop_Suc_Cons)

lemma tokens_from_block:
  "\<not> is_space c \<Longrightarrow> \<not> startswith (c # r) ''//'' \<Longrightarrow> startswith (c # r) ''/*'' \<Longrightarrow> tokens_from i stack n (c # r) =
     (case find_sub ''*/'' (drop 2 (c # r)) of
        None \<Rightarrow> None
      | Some k \<Rightarrow> tokens_from (i + 2 + k + 2) stack n (drop (2 + k + 2) (c # r)))"
  by (subst tokens_from.simps) (simp del: drop_Suc_Cons)

lemma tokens_from_token:
  assumes "\<not> is_space c" "\<not> startswith (c # r) ''//''" "\<not> startswith (c # r) ''/*''" "token_length (c # r) = Some k"
  shows "tokens_from i stack n (c # r) =
    (let v = take k (c # r); q = js_quote c; closing = (\<not> q \<and> partner v \<noteq> None) in
     if closing \<and> (stack = [] \<or> Some (hd stack) \<noteq> partner v) then None
     else let rest = (if closing then tl stack else stack);
              t = \<lparr>tk_value = v, tk_start = i, tk_end = i + k, tk_depth = length rest, tk_string = q\<rparr>;
              stack' = (if \<not> q \<and> opens v then v # rest else rest) in
       if \<not> q \<and> v = ''/'' \<or> max_tokens < n + 1 then None
       else map_option (Cons t) (tokens_from (i + k) stack' (n + 1) (drop k (c # r))))"
  using assms by (subst tokens_from.simps) (simp only: list.case option.case if_False)

lemma tokens_from_tokenised:
  "tokens_from i stack n s = Some ts \<Longrightarrow> s = drop i src \<Longrightarrow> i \<le> length src \<Longrightarrow> n \<le> max_tokens \<Longrightarrow>
   tokenised src i (length stack) ts \<and> n + length ts \<le> max_tokens"
proof (induction i stack n s arbitrary: ts rule: tokens_from.induct)
  case (1 i stack n s)
  have skip: "skip_space_and_comments src j = skip_from j (drop j src)" for j
    by (simp add: skip_space_and_comments_def)
  show ?case
  proof (cases s)
    case Nil
    then show ?thesis using 1(6-9) by (auto simp: tokens_from_Nil skip split: if_splits)
  next
    case (Cons c r)
    have at_i: "src ! i = c" "i < length src" "\<And>n. drop (i + n) src = drop n (c # r)"
      using hd_drop_eq [of i src c r] 1(7) Cons by auto
    have len: "length src = i + length s" using 1(7) at_i(2) by simp
    have here_skip: "skip_space_and_comments src i = skip_from i (c # r)"
      unfolding skip 1(7) [symmetric] Cons ..
    consider (space) "is_space c" | (line) "\<not> is_space c" "startswith s ''//''"
      | (block) "\<not> is_space c" "\<not> startswith s ''//''" "startswith s ''/*''"
      | (here) "\<not> is_space c" "\<not> startswith s ''//''" "\<not> startswith s ''/*''"
      by blast
    then show ?thesis
    proof cases
      case space
      have r: "r = drop (i + 1) src" using at_i(3) [of 1] by simp
      have eq: "skip_space_and_comments src i = skip_space_and_comments src (i + 1)"
        unfolding here_skip skip_from_space [OF space] unfolding skip r [symmetric] ..
      have "tokens_from (i + 1) stack n r = Some ts"
        using 1(6) unfolding Cons tokens_from_space [OF space] .
      then show ?thesis unfolding tokenised_skip [OF eq] using 1(9) at_i(2) by (intro 1(1) [OF Cons space _ r]) simp_all
    next
      case line
      show ?thesis
      proof (cases "find_sub [newline] (drop 2 s)")
        case None
        have run: "tokens_from (i + length s) stack n [] = Some ts"
          using 1(6) None unfolding Cons tokens_from_line [OF line [unfolded Cons]] by (simp del: drop_Suc_Cons)
        have eq: "skip_space_and_comments src i = skip_space_and_comments src (i + length s)"
          unfolding here_skip skip_from_line [OF line [unfolded Cons]] using None Cons len by (simp add: skip del: drop_Suc_Cons)
        show ?thesis unfolding tokenised_skip [OF eq] using len 1(9) by (intro 1(2) [OF Cons line None run]) simp_all
      next
        case (Some k)
        have le: "k + 1 \<le> length (drop 2 s)" using find_sub_less [OF Some] by simp
        have run: "tokens_from (i + 2 + k) stack n (drop (2 + k) s) = Some ts"
          using 1(6) Some unfolding Cons tokens_from_line [OF line [unfolded Cons]] by (simp del: drop_Suc_Cons)
        have d: "drop (2 + k) s = drop (i + 2 + k) src"
          using at_i(3) [of "2 + k"] Cons by (simp add: add.assoc)
        have eq: "skip_space_and_comments src i = skip_space_and_comments src (i + 2 + k)"
          unfolding here_skip skip_from_line [OF line [unfolded Cons]] unfolding Cons [symmetric] Some unfolding skip d [symmetric] by simp
        show ?thesis unfolding tokenised_skip [OF eq] using len le 1(9) by (intro 1(3) [OF Cons line Some run d]) simp_all
      qed
    next
      case block
      then obtain k where Some: "find_sub ''*/'' (drop 2 s) = Some k"
        using 1(6) unfolding Cons tokens_from_block [OF block [unfolded Cons]]
        by (auto simp del: drop_Suc_Cons split: option.splits)
      have le: "k + 2 \<le> length (drop 2 s)" using find_sub_less [OF Some] by simp
      have run: "tokens_from (i + 2 + k + 2) stack n (drop (2 + k + 2) s) = Some ts"
        using 1(6) Some unfolding Cons tokens_from_block [OF block [unfolded Cons]] by (simp del: drop_Suc_Cons)
      have d: "drop (2 + k + 2) s = drop (i + 2 + k + 2) src"
        using at_i(3) [of "2 + k + 2"] Cons by (simp add: add.assoc)
      have eq: "skip_space_and_comments src i = skip_space_and_comments src (i + 2 + k + 2)"
        unfolding here_skip skip_from_block [OF block [unfolded Cons] Some [unfolded Cons]] unfolding Cons [symmetric] unfolding skip d [symmetric] by simp
      show ?thesis unfolding tokenised_skip [OF eq] using len le 1(9) by (intro 1(4) [OF Cons block Some run d]) simp_all
    next
      case here
      define q where "q = js_quote c"
      obtain k where Some: "token_length s = Some k"
        using 1(6) here unfolding Cons tokens_from.simps [of i stack n "c # r"] by (auto split: option.splits)
      define closing where "closing \<longleftrightarrow> \<not> q \<and> partner (take k s) \<noteq> None"
      define rest where "rest = (if closing then tl stack else stack)"
      define t where "t = \<lparr>tk_value = take k s, tk_start = i, tk_end = i + k, tk_depth = length rest, tk_string = q\<rparr>"
      define stack' where "stack' = (if \<not> q \<and> opens (take k s) then take k s # rest else rest)"
      have ok: "\<not> (closing \<and> (stack = [] \<or> Some (hd stack) \<noteq> partner (take k s)))"
          "\<not> (\<not> q \<and> take k s = ''/'' \<or> max_tokens < n + 1)"
        and run: "map_option (Cons t) (tokens_from (i + k) stack' (n + 1) (drop k s)) = Some ts"
        using 1(6) unfolding Cons tokens_from_token [OF here [unfolded Cons] Some [unfolded Cons]] Let_def
        unfolding Cons [symmetric] q_def [symmetric] closing_def [symmetric] rest_def [symmetric]
          t_def [symmetric] stack'_def [symmetric]
        by (simp_all split: if_splits)
      obtain us where us: "ts = t # us" "tokens_from (i + k) stack' (n + 1) (drop k s) = Some us"
        using run by auto
      have le: "0 < k" "k \<le> length s" using token_length_le [OF Some] by auto
      have d: "drop k s = drop (i + k) src" using at_i(3) Cons by simp
      have start: "skip_space_and_comments src i = i"
        unfolding here_skip using here Cons by (intro skip_from_here) simp_all
      have IH: "tokenised src (i + k) (length stack') us \<and> n + 1 + length us \<le> max_tokens"
        using len le ok(2)
        by (intro 1(5) [OF Cons here Some refl q_def closing_def ok(1) rest_def t_def stack'_def ok(2) us(2) d]) simp_all
      have slice: "take k s = take k (drop i src)" using 1(7) by simp
      have tok: "tk_value t = take k s" "tk_start t = i" "tk_end t = i + k" "tk_string t = q" "tk_depth t = length rest"
        by (simp_all add: t_def)
      have kinds: "closing_token t = closing" "opening_token t \<longleftrightarrow> \<not> q \<and> opens (take k s)"
        by (simp_all add: closing_token_def opening_token_def tok closing_def)
      have depth: "if closing then 0 < length stack \<and> length rest = length stack - 1 else length rest = length stack"
        using ok(1) by (simp add: rest_def)
      have "length stack' = (if \<not> q \<and> opens (take k s) then length rest + 1 else length rest)"
        by (simp add: stack'_def)
      then have IH': "tokenised src (i + k) (if \<not> q \<and> opens (take k s) then length rest + 1 else length rest) us"
        using IH by simp
      show ?thesis unfolding us(1) tokenised.simps tok kinds start at_i(1)
        using IH IH' le len depth slice q_def by simp
    qed
  qed
qed

text \<open>
  The tokens of a source are slices of it in their order, with exactly the spaces and comments skipped
  between them that the scanner of the posture detectors skips; the depth of a token is the number of
  brackets open around it, every bracket is closed at the end, and there are at most 50000 tokens.
\<close>

theorem tokens_partition:
  assumes "js_tokens source = Some ts"
  shows "tokenised source 0 0 ts \<and> length ts \<le> 50000"
  using tokens_from_tokenised [of 0 "[]" 0 source ts source] assms by (simp add: js_tokens_def max_tokens_def)

theorem tokens_partition_witness:
  "\<exists>ts. js_tokens ''f(a /* x */)'' = Some ts \<and> length ts = 4 \<and> tokenised ''f(a /* x */)'' 0 0 ts \<and> length ts \<le> 50000"
proof -
  let ?ts = "the (js_tokens ''f(a /* x */)'')"
  have ts: "js_tokens ''f(a /* x */)'' = Some ?ts \<and> length ?ts = 4"
    by (simp add: js_tokens_def tokens_from.simps token_length.simps is_space_def startswith_def js_quote_def
        ident_start_def ident_char_def is_letter_def is_lower_letter_def is_upper_letter_def is_digit_def
        partner_def opens_def max_tokens_def)
  show ?thesis by (rule exI [of _ ?ts]) (use ts tokens_partition [of "''f(a /* x */)''" ?ts] in blast)
qed

section \<open>Module constants\<close>

text \<open>
  What makes a name a module constant before the position \<open>limit\<close>, as a reading of the token list: it is declared
  at depth 0 by \<open>const\<close> and followed by \<open>=\<close>, its initialiser \<open>parts\<close> runs to the first semicolon at
  depth 0 and stays before \<open>limit\<close>; no other occurrence of the name follows a declaration keyword, none stands
  before \<open>limit\<close>, and none is assigned, incremented or decremented.
\<close>

definition semicolon :: "js_token \<Rightarrow> bool" where
  "semicolon t \<longleftrightarrow> tk_depth t = 0 \<and> tk_value t = '';''"

definition declared_at :: "js_token list \<Rightarrow> string \<Rightarrow> nat \<Rightarrow> bool" where
  "declared_at ts name i \<longleftrightarrow> 0 < i \<and> i < length ts \<and> names name (ts ! i) \<and>
     tk_value (ts ! (i - 1)) \<in> {''const'', ''let'', ''var'', ''function'', ''class''}"

definition changed_after :: "js_token list \<Rightarrow> string \<Rightarrow> nat \<Rightarrow> bool" where
  "changed_after ts name start \<longleftrightarrow> (\<exists>xs t u ys. ts = xs @ t # u # ys \<and> names name t \<and> tk_start t \<noteq> start \<and>
     (tk_value u = ''='' \<or> tk_value u \<in> {''+'', ''-''} \<and> ys \<noteq> [] \<and> tk_value (hd ys) \<in> {tk_value u, ''=''}))"

definition module_constant :: "js_token list \<Rightarrow> string \<Rightarrow> nat \<Rightarrow> nat \<Rightarrow> js_token list \<Rightarrow> bool" where
  "module_constant ts name limit start parts \<longleftrightarrow> (\<exists>xs k d e ys. ts = xs @ [k, d, e] @ parts @ ys
     \<and> tk_value k = ''const'' \<and> names name d \<and> tk_depth d = 0 \<and> tk_start d = start \<and> start < limit \<and> tk_value e = ''=''
     \<and> (\<forall>t\<in>set parts. \<not> semicolon t \<and> tk_start t < limit) \<and> (ys = [] \<or> semicolon (hd ys))
     \<and> (\<forall>i. declared_at ts name i \<longrightarrow> i = length xs + 1)
     \<and> (\<forall>i<length ts. names name (ts ! i) \<and> tk_start (ts ! i) < limit \<longrightarrow> i = length xs + 1)
     \<and> \<not> changed_after ts name start)"

lemma initialiser_iff:
  "initialiser limit ts = Some parts \<longleftrightarrow> (\<exists>ys. ts = parts @ ys \<and>
     (\<forall>t\<in>set parts. \<not> semicolon t \<and> tk_start t < limit) \<and> (ys = [] \<or> semicolon (hd ys)))"
proof (induction ts arbitrary: parts)
  case (Cons t ts)
  show ?case
  proof (cases "semicolon t")
    case True
    then show ?thesis by (cases parts) (auto simp: semicolon_def)
  next
    case False
    then show ?thesis using Cons.IH by (cases parts) (auto simp: semicolon_def)
  qed
qed auto

lemma filter_upt_single: "filter P [a..<b] = [i] \<longleftrightarrow> (\<forall>j. a \<le> j \<and> j < b \<and> P j \<longleftrightarrow> j = i)"
proof
  assume "filter P [a..<b] = [i]"
  then have "set (filter P [a..<b]) = {i}" by simp
  then show "\<forall>j. a \<le> j \<and> j < b \<and> P j \<longleftrightarrow> j = i" by (auto simp: set_eq_iff)
next
  assume "\<forall>j. a \<le> j \<and> j < b \<and> P j \<longleftrightarrow> j = i"
  then have single: "set (filter P [a..<b]) = {i}" by auto
  then have "length (filter P [a..<b]) = 1" using distinct_card [of "filter P [a..<b]"] by simp
  then obtain x where "filter P [a..<b] = [x]" unfolding One_nat_def length_Suc_conv length_0_conv by blast
  with single show "filter P [a..<b] = [i]" by simp
qed

lemma declarations_single:
  "declarations ts name = [i] \<longleftrightarrow> declared_at ts name i \<and> (\<forall>j. declared_at ts name j \<longrightarrow> j = i)"
  unfolding declarations_def filter_upt_single by (auto simp: declared_at_def Suc_le_eq)

lemma occurrences_single:
  assumes "i < length ts" "P (ts ! i)"
  shows "length (filter P ts) = 1 \<longleftrightarrow> (\<forall>j<length ts. P (ts ! j) \<longrightarrow> j = i)"
proof -
  have "length (filter P ts) = card {j. j < length ts \<and> P (ts ! j)}" by (rule length_filter_conv_card)
  moreover have "card {j. j < length ts \<and> P (ts ! j)} = 1 \<longleftrightarrow> {j. j < length ts \<and> P (ts ! j)} = {i}"
  proof
    assume "card {j. j < length ts \<and> P (ts ! j)} = 1"
    then obtain x where x: "{j. j < length ts \<and> P (ts ! j)} = {x}" by (rule card_1_singletonE)
    have "i \<in> {j. j < length ts \<and> P (ts ! j)}" using assms by simp
    with x show "{j. j < length ts \<and> P (ts ! j)} = {i}" by simp
  qed simp
  moreover have "{j. j < length ts \<and> P (ts ! j)} = {i} \<longleftrightarrow> (\<forall>j<length ts. P (ts ! j) \<longrightarrow> j = i)"
    using assms unfolding set_eq_iff mem_Collect_eq singleton_iff by blast
  ultimately show ?thesis by simp
qed

lemma assigned_iff: "assigned ts name start \<longleftrightarrow> changed_after ts name start"
proof
  assume "assigned ts name start"
  then obtain p where "p \<in> set [0..<length ts - 1]" and p: "names name (ts ! p)" "tk_start (ts ! p) \<noteq> start"
      "tk_value (ts ! (p + 1)) = ''='' \<or> (tk_value (ts ! (p + 1)) \<in> {''+'', ''-''} \<and> p + 2 < length ts \<and>
         tk_value (ts ! (p + 2)) \<in> {tk_value (ts ! (p + 1)), ''=''})"
    unfolding assigned_def list_ex_iff Let_def by blast
  then have len: "p + 1 < length ts" by auto
  show "changed_after ts name start"
    unfolding changed_after_def
  proof (intro exI conjI)
    show "ts = take p ts @ ts ! p # ts ! (p + 1) # drop (p + 2) ts" using len by (simp add: Cons_nth_drop_Suc)
    show "tk_value (ts ! (p + 1)) = ''='' \<or> tk_value (ts ! (p + 1)) \<in> {''+'', ''-''} \<and> drop (p + 2) ts \<noteq> [] \<and>
       tk_value (hd (drop (p + 2) ts)) \<in> {tk_value (ts ! (p + 1)), ''=''}"
      using p(3) by (auto simp: hd_drop_conv_nth)
  qed (use p in simp_all)
next
  assume "changed_after ts name start"
  then obtain xs t u ys where s: "ts = xs @ t # u # ys" "names name t" "tk_start t \<noteq> start"
      "tk_value u = ''='' \<or> tk_value u \<in> {''+'', ''-''} \<and> ys \<noteq> [] \<and> tk_value (hd ys) \<in> {tk_value u, ''=''}"
    unfolding changed_after_def by blast
  then have "ts ! length xs = t" "ts ! (length xs + 1) = u" "length xs + 1 < length ts"
      "ys \<noteq> [] \<Longrightarrow> length xs + 2 < length ts \<and> ts ! (length xs + 2) = hd ys"
    by (simp_all add: nth_append hd_conv_nth)
  then show "assigned ts name start"
    using s unfolding assigned_def list_ex_iff Let_def by (intro bexI [of _ "length xs"]) auto
qed

lemma module_const_iff: "module_const ts name limit = Some (start, parts) \<longleftrightarrow> module_constant ts name limit start parts"
proof
  assume run: "module_const ts name limit = Some (start, parts)"
  then obtain i where i: "declarations ts name = [i]" by (auto simp: module_const_def split: list.splits)
  then have only: "declared_at ts name i" "\<And>j. declared_at ts name j \<Longrightarrow> j = i" by (auto simp: declarations_single)
  from run i have g: "tk_value (ts ! (i - 1)) = ''const''" "tk_depth (ts ! i) = 0" "tk_start (ts ! i) = start" "start < limit"
      "length (filter (\<lambda>t. names name t \<and> tk_start t < limit) ts) = 1" "i + 1 < length ts" "tk_value (ts ! (i + 1)) = ''=''"
      "\<not> assigned ts name start" "initialiser limit (drop (i + 2) ts) = Some parts"
    by (auto simp: module_const_def Let_def split: if_splits)
  obtain ys where ys: "drop (i + 2) ts = parts @ ys" "\<forall>t\<in>set parts. \<not> semicolon t \<and> tk_start t < limit"
      "ys = [] \<or> semicolon (hd ys)"
    using g(9) by (auto simp: initialiser_iff)
  have i0: "0 < i" "names name (ts ! i)" using only(1) by (auto simp: declared_at_def)
  have "ts = take (i - 1) ts @ [ts ! (i - 1), ts ! i, ts ! (i + 1)] @ drop (i + 2) ts"
    using g(6) i0(1) by (cases i) (simp_all add: Cons_nth_drop_Suc)
  then have split: "ts = take (i - 1) ts @ [ts ! (i - 1), ts ! i, ts ! (i + 1)] @ parts @ ys" unfolding ys(1) .
  have len: "length (take (i - 1) ts) + 1 = i" using g(6) i0(1) by simp
  have once: "\<forall>j<length ts. names name (ts ! j) \<and> tk_start (ts ! j) < limit \<longrightarrow> j = i"
  proof -
    have "i < length ts" "names name (ts ! i) \<and> tk_start (ts ! i) < limit" using g(3,4,6) i0(2) by simp_all
    from occurrences_single [of i ts "\<lambda>t. names name t \<and> tk_start t < limit", OF this] g(5) show ?thesis by blast
  qed
  show "module_constant ts name limit start parts"
    unfolding module_constant_def
  proof (intro exI conjI)
    show "ts = take (i - 1) ts @ [ts ! (i - 1), ts ! i, ts ! (i + 1)] @ parts @ ys" by (rule split)
    show "\<forall>j. declared_at ts name j \<longrightarrow> j = length (take (i - 1) ts) + 1" using only(2) unfolding len by blast
    show "\<forall>j<length ts. names name (ts ! j) \<and> tk_start (ts ! j) < limit \<longrightarrow> j = length (take (i - 1) ts) + 1"
      using once unfolding len .
    show "\<not> changed_after ts name start" using g(8) unfolding assigned_iff .
  qed (fact g i0 ys)+
next
  assume "module_constant ts name limit start parts"
  then obtain xs k d e ys where c: "ts = xs @ [k, d, e] @ parts @ ys"
      "tk_value k = ''const''" "names name d" "tk_depth d = 0" "tk_start d = start" "start < limit" "tk_value e = ''=''"
      "\<forall>t\<in>set parts. \<not> semicolon t \<and> tk_start t < limit" "ys = [] \<or> semicolon (hd ys)"
      "\<forall>i. declared_at ts name i \<longrightarrow> i = length xs + 1"
      "\<forall>i<length ts. names name (ts ! i) \<and> tk_start (ts ! i) < limit \<longrightarrow> i = length xs + 1"
      "\<not> changed_after ts name start"
    unfolding module_constant_def by blast
  let ?i = "length xs + 1"
  have at: "ts ! (?i - 1) = k" "ts ! ?i = d" "ts ! (?i + 1) = e" "?i + 1 < length ts" "drop (?i + 2) ts = parts @ ys"
    by (simp_all add: c(1) nth_append)
  have "declared_at ts name ?i" unfolding declared_at_def at(1,2) using c(2,3) at(4) by simp
  then have decl: "declarations ts name = [?i]" unfolding declarations_single using c(10) by blast
  have "length (filter (\<lambda>t. names name t \<and> tk_start t < limit) ts) = 1"
  proof -
    have "?i < length ts" "names name (ts ! ?i) \<and> tk_start (ts ! ?i) < limit" unfolding at(2) using at(4) c(3,5,6) by simp_all
    from occurrences_single [of ?i ts "\<lambda>t. names name t \<and> tk_start t < limit", OF this] c(11) show ?thesis by blast
  qed
  moreover have "initialiser limit (drop (?i + 2) ts) = Some parts" unfolding at(5) initialiser_iff using c(8,9) by blast
  ultimately show "module_const ts name limit = Some (start, parts)"
    unfolding module_const_def decl list.case Let_def at(1-3) assigned_iff using c(2,4-7,12) at(4) by simp
qed

section \<open>The members of an object literal\<close>

text \<open>
  A reading of \<open>javascript_string_property\<close> without its loop. The body of a literal is cut at the commas of
  its depth; a piece counts from its first token of that depth on, and empty pieces do not count. A member
  is legible when it does not begin with a spread or a computed key and is \<open>key: expression\<close> or a bare name.
\<close>

fun pieces :: "('a \<Rightarrow> bool) \<Rightarrow> 'a list \<Rightarrow> 'a list list" where
  "pieces P [] = [[]]"
| "pieces P (x # xs) = (if P x then [] # pieces P xs else (x # hd (pieces P xs)) # tl (pieces P xs))"

definition comma_at :: "nat \<Rightarrow> js_token \<Rightarrow> bool" where
  "comma_at depth t \<longleftrightarrow> tk_depth t = depth \<and> tk_value t = '',''"

definition members :: "nat \<Rightarrow> js_token list \<Rightarrow> js_token list list" where
  "members depth body = filter (\<lambda>m. m \<noteq> []) (map (dropWhile (\<lambda>t. tk_depth t \<noteq> depth)) (pieces (comma_at depth) body))"

definition member_plain :: "js_token list \<Rightarrow> bool" where
  "member_plain m \<longleftrightarrow> (\<exists>t c rest. m = t # c # rest \<and> tk_value c = '':'')"

definition member_bare :: "js_token list \<Rightarrow> bool" where
  "member_bare m \<longleftrightarrow> (\<exists>t. m = [t] \<and> \<not> tk_string t \<and> js_identifier (tk_value t))"

definition member_legible :: "js_token list \<Rightarrow> bool" where
  "member_legible m \<longleftrightarrow> tk_value (hd m) \<notin> {''.'', ''[''} \<and> (member_plain m \<or> member_bare m)"

definition member_named :: "code \<Rightarrow> js_token list \<Rightarrow> bool" where
  "member_named key m \<longleftrightarrow>
     (if tk_string (hd m) then string_literal (tk_value (hd m)) else Some (codes (tk_value (hd m)))) = Some key"

definition member_value :: "js_token list \<Rightarrow> js_token list" where
  "member_value m = (if member_plain m then drop 2 m else m)"

lemma pieces_nonempty [simp]: "pieces P xs \<noteq> []"
  by (cases xs) auto

lemma pieces_unfold:
  "pieces P xs = takeWhile (\<lambda>x. \<not> P x) xs #
     (case dropWhile (\<lambda>x. \<not> P x) xs of [] \<Rightarrow> [] | _ # ys \<Rightarrow> pieces P ys)"
  by (induction xs) (auto split: list.split)

lemma members_skip:
  assumes "tk_depth t \<noteq> depth \<or> tk_value t = '',''"
  shows "members depth (t # ts) = members depth ts"
proof (cases "comma_at depth t")
  case False
  then have "tk_depth t \<noteq> depth" using assms by (simp add: comma_at_def)
  with False show ?thesis by (cases "pieces (comma_at depth) ts") (simp_all add: members_def)
qed (simp add: members_def)

lemma members_take:
  assumes "tk_depth t = depth" "tk_value t \<noteq> '',''"
  shows "members depth (t # ts) = (t # takeWhile (\<lambda>u. \<not> comma_at depth u) ts) #
     members depth (drop (length (takeWhile (\<lambda>u. \<not> comma_at depth u) ts) + 1) ts)"
proof -
  have drop: "drop (length (takeWhile P xs) + 1) xs = tl (dropWhile P xs)" for P and xs :: "js_token list"
    by (induction xs) auto
  have "\<not> comma_at depth t" using assms by (simp add: comma_at_def)
  note cut = pieces_unfold [of "comma_at depth" "t # ts"] this assms(1)
  show ?thesis
  proof (cases "dropWhile (\<lambda>u. \<not> comma_at depth u) ts")
    case Nil
    show ?thesis unfolding drop members_def cut(1) by (simp add: cut(2,3) Nil del: dropWhile_eq_Nil_conv)
  next
    case (Cons u us)
    show ?thesis unfolding drop members_def cut(1) by (simp add: cut(2,3) Cons)
  qed
qed

lemma object_members_iff:
  "object_members key depth ts = Some ps \<longleftrightarrow>
     (\<forall>m\<in>set (members depth ts). member_legible m) \<and> ps = map member_value (filter (member_named key) (members depth ts))"
proof (induction key depth ts arbitrary: ps rule: object_members.induct)
  case (1 key depth)
  then show ?case by (auto simp: members_def)
next
  case (2 key depth t ts)
  show ?case
  proof (cases "tk_depth t \<noteq> depth \<or> tk_value t = '',''")
    case True
    then show ?thesis using 2(1) [OF True] by (simp only: object_members.simps if_True members_skip [OF True])
  next
    case False
    define rest where "rest = takeWhile (\<lambda>u. \<not> comma_at depth u) ts"
    have take: "members depth (t # ts) = (t # rest) # members depth (drop (length rest + 1) ts)"
      using members_take [of t depth ts] False by (simp add: rest_def)
    have body: "takeWhile (\<lambda>u. \<not> (tk_depth u = depth \<and> tk_value u = '','')) ts = rest" by (simp add: rest_def comma_at_def)
    have plain: "member_plain (t # rest) \<longleftrightarrow> rest \<noteq> [] \<and> tk_value (hd rest) = '':''"
      by (cases rest) (simp_all add: member_plain_def)
    have bare: "member_bare (t # rest) \<longleftrightarrow> rest = [] \<and> \<not> tk_string t \<and> js_identifier (tk_value t)"
      by (auto simp: member_bare_def)
    show ?thesis
    proof (cases "member_legible (t # rest)")
      case illegible: False
      then have "tk_value t \<in> {''.'', ''[''} \<or>
          \<not> (rest \<noteq> [] \<and> tk_value (hd rest) = '':'') \<and> \<not> (rest = [] \<and> \<not> tk_string t \<and> js_identifier (tk_value t))"
        unfolding member_legible_def plain bare list.sel(1) by blast
      then have "object_members key depth (t # ts) = None"
        unfolding object_members.simps body Let_def if_not_P [OF False] by presburger
      then show ?thesis using illegible unfolding take by simp
    next
      case True
      then have ok: "tk_value t \<notin> {''.'', ''[''}" "\<not> (\<not> (rest \<noteq> [] \<and> tk_value (hd rest) = '':'') \<and> \<not> (rest = [] \<and> \<not> tk_string t \<and> js_identifier (tk_value t)))"
        unfolding member_legible_def plain bare by auto
      have expr: "member_value (t # rest) = (if rest \<noteq> [] \<and> tk_value (hd rest) = '':'' then tl rest else [t])"
        using ok(2) by (auto simp: member_value_def plain drop_Suc)
      have run: "object_members key depth (t # ts) = map_option ((@) (if member_named key (t # rest) then [member_value (t # rest)] else []))
          (object_members key depth (drop (length rest + 1) ts))"
        unfolding object_members.simps body Let_def if_not_P [OF False] if_not_P [OF ok(1)] if_not_P [OF ok(2)] expr member_named_def
          list.sel(1) ..
      have IH: "object_members key depth (drop (length rest + 1) ts) = Some qs \<longleftrightarrow>
          (\<forall>m\<in>set (members depth (drop (length rest + 1) ts)). member_legible m) \<and>
          qs = map member_value (filter (member_named key) (members depth (drop (length rest + 1) ts)))" for qs
        using False ok by (intro 2(2) [OF False _ body [symmetric] refl refl refl]) auto
      show ?thesis unfolding run take using True IH by auto
    qed
  qed
qed

section \<open>The meaning of an expression\<close>

text \<open>
  A name means the value of the initialiser of its module constant, a template the concatenation of its
  characters and substitutions, a sum the concatenation of its operands. There is no budget here.
\<close>

inductive const_means :: "js_token list \<Rightarrow> nat \<Rightarrow> string \<Rightarrow> code \<Rightarrow> bool"
  and piece_means :: "js_token list \<Rightarrow> nat \<Rightarrow> char + string \<Rightarrow> code \<Rightarrow> bool"
  and term_means :: "js_token list \<Rightarrow> nat \<Rightarrow> js_token \<Rightarrow> code \<Rightarrow> bool"
  and sum_means :: "js_token list \<Rightarrow> nat \<Rightarrow> js_token list \<Rightarrow> code \<Rightarrow> bool"
  for ts where
  Const: "module_constant ts name limit start parts \<Longrightarrow> sum_means ts start parts v \<Longrightarrow>
    const_means ts limit name v"
| Char_Piece: "piece_means ts limit (Inl c) [of_char c]"
| Name_Piece: "js_identifier name \<Longrightarrow> const_means ts limit name v \<Longrightarrow> piece_means ts limit (Inr name) v"
| Quoted: "tk_string t \<Longrightarrow> hd (tk_value t) \<noteq> backtick \<Longrightarrow> string_literal (tk_value t) = Some v \<Longrightarrow>
    term_means ts limit t v"
| Template: "tk_string t \<Longrightarrow> hd (tk_value t) = backtick \<Longrightarrow> string_literal (tk_value t) \<noteq> None \<Longrightarrow>
    list_all2 (piece_means ts limit) (substitutions (butlast (tl (tk_value t)))) vs \<Longrightarrow>
    term_means ts limit t (concat vs)"
| Name: "\<not> tk_string t \<Longrightarrow> js_identifier (tk_value t) \<Longrightarrow> const_means ts limit (tk_value t) v \<Longrightarrow>
    term_means ts limit t v"
| Single: "term_means ts limit t v \<Longrightarrow> sum_means ts limit [t] v"
| Plus: "term_means ts limit t v \<Longrightarrow> \<not> tk_string p \<Longrightarrow> tk_value p = ''+'' \<Longrightarrow> sum_means ts limit us w \<Longrightarrow>
    sum_means ts limit (t # p # us) (v @ w)"

inductive_cases const_meansE: "const_means ts limit name v"
inductive_cases piece_charE: "piece_means ts limit (Inl c) v"
inductive_cases piece_nameE: "piece_means ts limit (Inr name) v"
inductive_cases term_meansE: "term_means ts limit t v"
inductive_cases sum_singleE: "sum_means ts limit [t] v"
inductive_cases sum_plusE: "sum_means ts limit (t # p # us) v"

lemma means_unique:
  "const_means ts limit name v \<Longrightarrow> (\<forall>u. const_means ts limit name u \<longrightarrow> v = u)"
  "piece_means ts limit part v \<Longrightarrow> (\<forall>u. piece_means ts limit part u \<longrightarrow> v = u)"
  "term_means ts limit t v \<Longrightarrow> (\<forall>u. term_means ts limit t u \<longrightarrow> v = u)"
  "sum_means ts limit parts v \<Longrightarrow> (\<forall>u. sum_means ts limit parts u \<longrightarrow> v = u)"
proof (induction rule: const_means_piece_means_term_means_sum_means.inducts)
  case (Const name limit start parts v)
  show ?case
  proof (intro allI impI)
    fix u
    assume "const_means ts limit name u"
    then obtain start' parts' where "module_constant ts name limit start' parts'" "sum_means ts start' parts' u"
      by (rule const_meansE) blast
    then show "v = u" using Const by (simp add: module_const_iff [symmetric])
  qed
next
  case (Template t limit vs)
  have "list_all2 (\<lambda>x y. \<forall>z. piece_means ts limit x z \<longrightarrow> y = z) (substitutions (butlast (tl (tk_value t)))) vs"
    using Template(4) by (rule list_all2_mono) auto
  then show ?case using Template(1,2) by (auto elim!: term_meansE dest: list_all2_unique)
next
  case (Plus limit t v p us w)
  show ?case
  proof (intro allI impI)
    fix u
    assume "sum_means ts limit (t # p # us) u"
    then obtain v' w' where "u = v' @ w'" "term_means ts limit t v'" "sum_means ts limit us w'"
      by (rule sum_plusE) auto
    then show "v @ w = u" using Plus.IH by blast
  qed
next
  case (Char_Piece limit c)
  then show ?case by (blast elim: piece_charE)
next
  case (Name_Piece name limit v)
  then show ?case by (blast elim: piece_nameE)
next
  case (Quoted t limit v)
  then show ?case by (auto elim!: term_meansE)
next
  case (Name t limit v)
  have "const_means ts limit (tk_value t) u" if "term_means ts limit t u" for u
    using that Name.hyps(1) by (cases rule: term_meansE) simp_all
  then show ?case using Name.IH by blast
next
  case (Single limit t v)
  then show ?case by (blast elim: sum_singleE)
qed

section \<open>Soundness of the resolution\<close>

definition resolves :: "js_token list \<Rightarrow> nat \<Rightarrow> (string \<Rightarrow> code cfn) \<Rightarrow> bool" where
  "resolves ts limit resolve \<longleftrightarrow> (\<forall>name b v b'. resolve name b = Some (v, b') \<longrightarrow> const_means ts limit name v)"

lemma resolvesD: "resolves ts limit resolve \<Longrightarrow> resolve name b = Some (v, b') \<Longrightarrow> const_means ts limit name v"
  unfolding resolves_def by blast

lemma js_term_means:
  assumes sound: "resolves ts limit resolve" and run: "js_term resolve t b = Some (v, b')"
  shows "term_means ts limit t v"
proof (cases "tk_string t \<and> hd (tk_value t) = backtick")
  case True
  obtain vs where vs: "map_cfn (\<lambda>part b. case part of Inl c \<Rightarrow> Some ([of_char c], b)
        | Inr key \<Rightarrow> if js_identifier key then resolve key b else None)
        (substitutions (butlast (tl (tk_value t)))) b = Some (vs, b')" "v = concat vs"
      and literal: "string_literal (tk_value t) \<noteq> None"
    using run True by (auto simp: js_term_def bind_eq_Some_conv split: option.splits if_splits)
  have "list_all2 (piece_means ts limit) (substitutions (butlast (tl (tk_value t)))) vs"
    using map_cfn_results [OF vs(1)]
  proof (rule list_all2_mono)
    fix part w
    assume "\<exists>b1 b2. (case part of Inl c \<Rightarrow> Some ([of_char c], b1)
        | Inr key \<Rightarrow> if js_identifier key then resolve key b1 else None) = Some (w, b2)"
    then show "piece_means ts limit part w"
      using sound by (cases part) (auto split: if_splits intro: Char_Piece Name_Piece resolvesD)
  qed
  then show ?thesis using True literal vs(2) by (auto intro: Template)
next
  case False
  then show ?thesis using run sound
    by (auto simp: js_term_def split: option.splits if_splits intro: Quoted Name resolvesD)
qed

lemma js_terms_means:
  "resolves ts limit resolve \<Longrightarrow> js_terms resolve expect vs parts b = Some (v, b') \<Longrightarrow>
   (if expect then \<exists>w. v = concat vs @ w \<and> sum_means ts limit parts w
    else parts = [] \<and> v = concat vs \<or>
      (\<exists>p us w. parts = p # us \<and> \<not> tk_string p \<and> tk_value p = ''+'' \<and> v = concat vs @ w \<and> sum_means ts limit us w))"
proof (induction resolve expect vs parts b arbitrary: v b' rule: js_terms.induct)
  case (1 resolve expect vs b)
  then show ?case by (simp split: if_splits)
next
  case (2 resolve vs t us b)
  then show ?case by (auto split: if_splits)
next
  case (3 resolve vs t us b)
  obtain w b1 where t: "js_term resolve t b = Some (w, b1)" and
      rest: "js_terms resolve False (vs @ [w]) us b1 = Some (v, b')" and len: "\<not> max_output < sum_list (map length (vs @ [w]))"
    using 3(3) by (auto simp: bind_eq_Some_conv split: if_splits)
  have m: "term_means ts limit t w" using 3(2) t by (rule js_term_means)
  show ?case using 3(1) [OF t refl len 3(2) rest] m by (auto intro: Single Plus)
qed

lemma js_expression_means:
  "resolves ts limit resolve \<Longrightarrow> js_expression resolve parts b = Some (v, b') \<Longrightarrow> sum_means ts limit parts v"
  using js_terms_means [of ts limit resolve True "[]" parts b v b'] by (simp add: js_expression_def split: if_splits)

lemma js_binding_sound: "resolves ts limit (js_binding ts limit seen)"
proof (induction "max_names - length seen" arbitrary: limit seen rule: less_induct)
  case less
  have "const_means ts limit name v" if run: "js_binding ts limit seen name b = Some (v, b')" for name b v b'
  proof -
    obtain start parts where step: "length seen < max_names" "module_const ts name limit = Some (start, parts)"
        "js_expression (\<lambda>key b. js_binding ts start (name # seen) key b) parts (b - 1) = Some (v, b')"
      using run by (subst (asm) js_binding.simps) (auto split: if_splits option.splits)
    have "resolves ts start (js_binding ts start (name # seen))"
      using step(1) by (intro less.hyps) simp
    then have "sum_means ts start parts v" using step(3) by (rule js_expression_means)
    with step(2) [unfolded module_const_iff] show ?thesis by (rule Const)
  qed
  then show ?case by (simp add: resolves_def)
qed

lemma code_contains_iff: "code_contains sub v \<longleftrightarrow> (\<exists>xs ys. v = xs @ sub @ ys)"
proof
  assume "code_contains sub v"
  then obtain i where "take (length sub) (drop i v) = sub" by (auto simp: code_contains_def list_ex_iff)
  then have "v = take i v @ sub @ drop (length sub) (drop i v)" by (metis append_take_drop_id)
  then show "\<exists>xs ys. v = xs @ sub @ ys" by blast
next
  assume "\<exists>xs ys. v = xs @ sub @ ys"
  then obtain xs ys where "v = xs @ sub @ ys" by blast
  then show "code_contains sub v" unfolding code_contains_def list_ex_iff by (intro bexI [of _ "length xs"]) auto
qed

lemma plain_output_text:
  assumes "plain_output v"
  shows "0 < length v" "length v \<le> 1024" "\<forall>c\<in>set v. 32 \<le> c"
    "\<nexists>xs ys. v = xs @ codes [CHR 0x24, CHR 0x7B] @ ys" "\<nexists>xs ys. v = xs @ codes ''Token['' @ ys"
proof -
  have brace: "dollar_brace = codes [CHR 0x24, CHR 0x7B]" by (simp add: dollar_brace_def codes_def)
  show "0 < length v" "length v \<le> 1024" "\<forall>c\<in>set v. 32 \<le> c"
    using assms by (auto simp: plain_output_def max_output_def list_ex_iff not_less)
  show "\<nexists>xs ys. v = xs @ codes [CHR 0x24, CHR 0x7B] @ ys" "\<nexists>xs ys. v = xs @ codes ''Token['' @ ys"
    using assms unfolding plain_output_def code_contains_iff brace by blast+
qed


text \<open>A regular source: a constant, a template and a sum, beside another member.\<close>

definition regular_source :: string where
  "regular_source = ''const a = `x`; f({m: g(1), n: a + `y`});''"

lemma regular_resolved: "javascript_string_property regular_source 17 37 ''n'' = Some (codes ''xy'')"
  by code_simp


text \<open>
  A declaration without initialiser, or with another one first, that comes after the use is not seen as
  a shadowing one: below \<open>a\<close> is undefined inside the function, since \<open>var\<close> declarations are hoisted.
\<close>

definition hoisted_source :: string where
  "hoisted_source = ''const a = `x`; function h() { f({n: a}); var b, a; }''"

lemma hoisted_declaration_missed:
  "javascript_string_property hoisted_source 32 37 ''n'' = Some (codes ''x'')"
  by code_simp

end
