(* ===== verification/Source_Props.thy ===== *)
theory Source_Props
  imports Source_Keys
begin

text \<open>The properties of the source scanners.\<close>

definition demo_source :: string where
  "demo_source = ''new C({a: 1, /* } */ b: {c: [2]}}) // }''"

text \<open>
  \<open>_balanced_object_end\<close> returns a position exactly when it is the first closing brace, outside
  strings and comments, at which the braces opened since \<open>start\<close> are all closed.
\<close>

theorem object_end_iff:
  "balanced_object_end t start = Some e \<longleftrightarrow>
     start \<le> e \<and> e < length t \<and> closes_object t start e \<and> (\<forall>j. start \<le> j \<and> j < e \<longrightarrow> \<not> closes_object t start j)"
  by (rule object_end_first)

theorem object_end_iff_witness:
  "balanced_object_end demo_source 6 = Some 32 \<and> closes_object demo_source 6 32 \<and> \<not> closes_object demo_source 6 16"
proof -
  have "balanced_object_end demo_source 6 = Some 32" by code_simp
  then show ?thesis using object_end_iff [of demo_source 6 32] by simp
qed

text \<open>
  In a source that \<open>_code_positions\<close> accepts, the two scanners agree: the object literal that
  starts at an executable position ends at an executable closing brace, so the patched region is code.
\<close>

theorem patch_region_is_code:
  assumes "code_positions t = Some ps" "start < length t" "ps ! start"
    and "balanced_object_end t start = Some e"
  shows "start \<le> e \<and> e < length ps \<and> ps ! e \<and> t ! e = CHR 0x7D"
proof -
  have e: "start \<le> e" "e < length t" "closes_object t start e"
    using assms(4) unfolding object_end_first by blast+
  moreover have "length ps = length t" using positions_mask [OF assms(1)] by simp
  ultimately show ?thesis using closes_object_code [OF assms(1-3)] by simp
qed

theorem patch_region_is_code_witness:
  "\<exists>ps. code_positions demo_source = Some ps \<and> ps ! 32 \<and> demo_source ! 32 = CHR 0x7D"
proof -
  have "case code_positions demo_source of None \<Rightarrow> False | Some ps \<Rightarrow> ps ! 6" by code_simp
  then obtain ps where ps: "code_positions demo_source = Some ps" "ps ! 6" by (auto split: option.splits)
  have "balanced_object_end demo_source 6 = Some 32" "6 < length demo_source" by code_simp+
  then show ?thesis using patch_region_is_code [OF ps(1) _ ps(2), of 32] ps(1) by blast
qed

text \<open>
  The view of the top level of an object has the positions of its text: as many characters, each
  blank or the character of the text there, and then a code character or a line break.
\<close>

theorem view_keeps_positions:
  "length (top_level_object_view t) = length t \<and>
   (\<forall>i < length t. top_level_object_view t ! i = CHR '' '' \<or>
      top_level_object_view t ! i = t ! i \<and> (lex_mask lex_init t ! i \<or> t ! i = newline))"
proof -
  have "blanked (top_level_object_view t) (zip (lex_mask lex_init t) t)"
    unfolding top_level_object_view_def lex_init_def by (rule view_chars)
  then show ?thesis unfolding blanked_def list_all2_conv_all_nth by auto
qed

theorem view_keeps_positions_witness:
  "length (top_level_object_view ''{a: 1, b: {c: 2}}'') = 17 \<and>
   top_level_object_view ''{a: 1, b: {c: 2}}'' ! 1 = CHR ''a''"
proof -
  have "top_level_object_view ''{a: 1, b: {c: 2}}'' ! 1 = CHR ''a''" by code_simp
  then show ?thesis using view_keeps_positions [of "''{a: 1, b: {c: 2}}''"] by simp
qed

text \<open>
  \<open>_skip_space_and_comments\<close> never goes back or past the end of the text, and where it stops
  inside the text there is neither a space nor a comment, so a second call stays there.
\<close>

theorem skip_space_stops:
  assumes "start \<le> length t"
  shows "start \<le> skip_space_and_comments t start \<and> skip_space_and_comments t start \<le> length t
    \<and> (skip_space_and_comments t start < length t \<longrightarrow>
         \<not> is_space (t ! skip_space_and_comments t start)
         \<and> \<not> startswith (drop (skip_space_and_comments t start) t) ''//''
         \<and> \<not> startswith (drop (skip_space_and_comments t start) t) ''/*'')
    \<and> skip_space_and_comments t (skip_space_and_comments t start) = skip_space_and_comments t start"
proof -
  let ?p = "skip_space_and_comments t start" let ?s = "drop start t"
  have b: "start \<le> ?p" "?p \<le> length t"
    using skip_from_bounds [of start ?s] assms by (simp_all add: skip_space_and_comments_def)
  have stop: "\<not> is_space (t ! ?p) \<and> \<not> startswith (drop ?p t) ''//'' \<and> \<not> startswith (drop ?p t) ''/*''"
    if "?p < length t"
    using skip_from_stops [of start ?s "?p - start"] b that assms by (simp add: skip_space_and_comments_def)
  have "skip_space_and_comments t ?p = ?p"
  proof (cases "?p < length t")
    case True
    then obtain c r where "drop ?p t = c # r" "c = t ! ?p" by (metis Cons_nth_drop_Suc)
    then show ?thesis using stop [OF True] by (simp add: skip_space_and_comments_def skip_from.simps [of _ "_ # _"])
  next
    case False
    then show ?thesis by (simp add: skip_space_and_comments_def skip_from.simps)
  qed
  then show ?thesis using b stop by blast
qed

theorem skip_space_stops_witness:
  "skip_space_and_comments ''a /* b */ // c'' 1 = 14 \<and> skip_space_and_comments ''a /* b */ // c'' 14 = 14"
proof -
  have "skip_space_and_comments ''a /* b */ // c'' 1 = 14" by code_simp
  then show ?thesis using skip_space_stops [of 1 "''a /* b */ // c''"] by simp
qed

text \<open>
  The outer keys that \<open>_literal_property_keys\<close> accepts are distinct identifiers: no quoted,
  computed or repeated key reaches the patch.
\<close>

theorem literal_keys_sound:
  assumes "literal_property_keys t start e ps = Some ks"
  shows "distinct ks \<and> list_all js_ident ks"
  using property_keys_sound [OF assms [unfolded literal_property_keys_def]] by simp

theorem literal_keys_sound_witness:
  "distinct [''a'', ''b''] \<and> list_all js_ident [''a'', ''b'']"
proof -
  have "literal_property_keys demo_source 6 32 (the (code_positions demo_source)) = Some [''a'', ''b'']"
    by code_simp
  then show ?thesis by (rule literal_keys_sound)
qed

end
