(* ===== verification/Ingest_Table.thy ===== *)
theory Ingest_Table
  imports Findings
begin

text \<open>
  The tables of the evidence store as dictionaries from their unique keys, the two statements the ingest
  methods issue against them (\<open>INSERT ... ON CONFLICT DO UPDATE\<close> and \<open>UPDATE ... WHERE\<close>), and the
  interface of a table that is reconciled with snapshots of its source.
\<close>

section \<open>Statements\<close>

type_synonym ('k, 'r) table = "('k \<times> 'r) list"

text \<open>\<open>f\<close> gives the new row from the stored one of the key, if any.\<close>

definition upsert :: "'k \<Rightarrow> ('r option \<Rightarrow> 'r) \<Rightarrow> ('k, 'r) table \<Rightarrow> ('k, 'r) table" where
  "upsert k f t = dict_set k (f (map_of t k)) t"

definition update_where :: "('k \<Rightarrow> 'r \<Rightarrow> bool) \<Rightarrow> ('k \<Rightarrow> 'r \<Rightarrow> 'r) \<Rightarrow> ('k, 'r) table \<Rightarrow> ('k, 'r) table" where
  "update_where P f t = map (\<lambda>(k, r). (k, if P k r then f k r else r)) t"

text \<open>\<open>rowcount\<close> of the update.\<close>

definition count_where :: "('k \<Rightarrow> 'r \<Rightarrow> bool) \<Rightarrow> ('k, 'r) table \<Rightarrow> nat" where
  "count_where P t = length (filter (\<lambda>(k, r). P k r) t)"

named_theorems table_simps "lookups after the statements of the store"

lemma map_of_upsert [table_simps]: "map_of (upsert k f t) = (map_of t)(k \<mapsto> f (map_of t k))"
  by (simp add: upsert_def dict_simps)

lemma map_of_update_where [table_simps]:
  "map_of (update_where P f t) k = map_option (\<lambda>r. if P k r then f k r else r) (map_of t k)"
  by (induction t) (auto simp: update_where_def)

lemma keys_update_where [simp]: "map fst (update_where P f t) = map fst t"
  by (induction t) (auto simp: update_where_def)

lemma distinct_upsert: "distinct (map fst t) \<Longrightarrow> distinct (map fst (upsert k f t))"
  by (simp add: upsert_def distinct_update)

lemma count_where_map_of:
  assumes "distinct (map fst t)"
  shows "count_where P t = card {k. \<exists>r. map_of t k = Some r \<and> P k r}"
proof -
  have "distinct (map fst (filter (\<lambda>(k, r). P k r) t))" using assms by (rule distinct_map_filter)
  then have "count_where P t = card (set (map fst (filter (\<lambda>(k, r). P k r) t)))"
    unfolding count_where_def by (simp only: distinct_card length_map)
  also have "set (map fst (filter (\<lambda>(k, r). P k r) t)) = {k. \<exists>r. map_of t k = Some r \<and> P k r}"
    using assms by (force simp: map_of_eq_Some_iff)
  finally show ?thesis .
qed

section \<open>Upserts of many rows\<close>

text \<open>\<open>f x\<close> is the new row of the key \<open>key x\<close>. The last element of a key decides.\<close>

lemma map_of_fold_upsert_other:
  "\<forall>x \<in> set xs. key x \<noteq> k \<Longrightarrow> map_of (fold (\<lambda>x. upsert (key x) (f x)) xs t) k = map_of t k"
  by (induction xs arbitrary: t) (auto simp: table_simps)

lemma map_of_fold_upsert_in:
  "k \<in> key ` set xs \<Longrightarrow> \<exists>x\<in>set xs. key x = k \<and> (\<exists>old. map_of (fold (\<lambda>x. upsert (key x) (f x)) xs t) k = Some (f x old))"
proof (induction xs arbitrary: t)
  case (Cons x xs)
  show ?case
  proof (cases "k \<in> key ` set xs")
    case True
    then show ?thesis using Cons.IH [of "upsert (key x) (f x) t"] by auto
  next
    case False
    then have "map_of (fold (\<lambda>x. upsert (key x) (f x)) xs (upsert (key x) (f x) t)) k = map_of (upsert (key x) (f x) t) k"
      by (intro map_of_fold_upsert_other) auto
    then show ?thesis using Cons.prems False by (auto simp: table_simps)
  qed
qed simp

lemma distinct_fold_upsert:
  "distinct (map fst t) \<Longrightarrow> distinct (map fst (fold (\<lambda>x. upsert (key x) (f x)) xs t))"
  by (induction xs arbitrary: t) (simp_all add: distinct_upsert)

section \<open>Tables reconciled with snapshots\<close>

text \<open>
  A row says which source reported it, in which run it was reported last, and whether it counts as
  present. A snapshot of a source upserts the rows it reports under its run and then closes the rows of
  the source that the run did not report.
\<close>

locale snapshot_table =
  fixes source_of :: "'k \<Rightarrow> 'r \<Rightarrow> 's"
    and run_of :: "'r \<Rightarrow> string"
    and present :: "'r \<Rightarrow> bool"
    and close :: "'r \<Rightarrow> 'r"
  assumes close_absent: "\<not> present (close r)"
    and close_source: "source_of k (close r) = source_of k r"
    and close_run: "run_of (close r) = run_of r"
begin

abbreviation missing :: "'s \<Rightarrow> string \<Rightarrow> 'k \<Rightarrow> 'r \<Rightarrow> bool" where
  "missing s run k r \<equiv> source_of k r = s \<and> present r \<and> run_of r \<noteq> run"

lemma closed_lookup:
  "map_of (update_where (missing s run) (\<lambda>k. close) t) k =
     map_option (\<lambda>r. if missing s run k r then close r else r) (map_of t k)"
  by (simp add: table_simps)

text \<open>What is present after closing is what the run reported.\<close>

lemma present_after_close:
  assumes "map_of (update_where (missing s run) (\<lambda>k. close) t) k = Some r" "source_of k r = s" "present r"
  shows "map_of t k = Some r \<and> run_of r = run"
  using assms close_absent by (auto simp: closed_lookup split: if_splits) metis

lemma close_other_source:
  assumes "map_of t k = Some r" "source_of k r \<noteq> s"
  shows "map_of (update_where (missing s run) (\<lambda>k. close) t) k = Some r"
  using assms by (simp add: closed_lookup)

lemma close_keeps_reported:
  assumes "map_of t k = Some r" "run_of r = run"
  shows "map_of (update_where (missing s run) (\<lambda>k. close) t) k = Some r"
  using assms by (simp add: closed_lookup)

lemma close_only_closes:
  assumes "map_of t k = Some r"
  shows "\<exists>r'. map_of (update_where (missing s run) (\<lambda>k. close) t) k = Some r' \<and> (r' = r \<or> r' = close r \<and> source_of k r = s)"
  using assms by (simp add: closed_lookup)

text \<open>
  After a snapshot that reports the elements \<open>xs\<close> under a new run, the rows of a closed source that are
  present are exactly the rows of those of its elements.
\<close>

lemma snapshot_exact:
  assumes reports: "\<And>x old. x \<in> set xs \<Longrightarrow> run_of (f x old) = run \<and> present (f x old) \<and> source_of (key x) (f x old) = src x"
    and same: "\<And>x y. x \<in> set xs \<Longrightarrow> y \<in> set xs \<Longrightarrow> key x = key y \<Longrightarrow> src x = src y"
    and fresh: "\<And>r. map_of t k = Some r \<Longrightarrow> source_of k r = s \<Longrightarrow> run_of r \<noteq> run"
  shows "(\<exists>r. map_of (update_where (missing s run) (\<lambda>k. close) (fold (\<lambda>x. upsert (key x) (f x)) xs t)) k = Some r \<and>
       source_of k r = s \<and> present r) \<longleftrightarrow> (\<exists>x\<in>set xs. key x = k \<and> src x = s)"
    (is "?after \<longleftrightarrow> _")
proof
  assume "\<exists>x\<in>set xs. key x = k \<and> src x = s"
  then obtain y where y: "y \<in> set xs" "key y = k" "src y = s" by blast
  then obtain x old where
    x: "x \<in> set xs" "key x = k" "map_of (fold (\<lambda>x. upsert (key x) (f x)) xs t) k = Some (f x old)"
    using map_of_fold_upsert_in [of k key xs f t] by blast
  have "src x = s" using same [OF x(1) y(1)] x(2) y(2,3) by simp
  then show ?after using close_keeps_reported [OF x(3)] reports [OF x(1)] x(2) by blast
next
  assume ?after
  then obtain r where r: "map_of (fold (\<lambda>x. upsert (key x) (f x)) xs t) k = Some r" "source_of k r = s" "run_of r = run"
    using present_after_close by blast
  show "\<exists>x\<in>set xs. key x = k \<and> src x = s"
  proof (cases "k \<in> key ` set xs")
    case True
    then obtain x old where "x \<in> set xs" "key x = k" "r = f x old"
      using map_of_fold_upsert_in [of k key xs f t] r(1) by auto
    then show ?thesis using reports [of x old] r(2) by auto
  next
    case False
    then have "map_of t k = Some r" using r(1) map_of_fold_upsert_other [of xs key k f t] by fastforce
    then show ?thesis using fresh r(2,3) by blast
  qed
qed

end

end
