(* ===== verification/Ingest_Inventory.thy ===== *)
theory Ingest_Inventory
  imports Ingest_Table
begin

text \<open>
  \<open>PostgresInventoryRepository.ingest\<close> of \<open>src/denali/store/repository.py\<close> with the statements it issues:
  runs and their coverage, assets, asset and relationship assertions, withdrawal of what a complete plane
  no longer reports, and the lifecycle of assets. A generated \<open>id\<close> of an asset is its unique key (tenant
  and reference). The operation's last statement, the refresh of the links between vulnerabilities and
  assets, needs the vulnerability tables: it is \<open>ingest_linked\<close> in \<open>Ingest_Vulnerabilities\<close>.
\<close>

section \<open>The tables\<close>

type_synonym asset_id = "string \<times> asset_ref"

record asset_row =
  as_governance :: governance_status
  as_lifecycle :: lifecycle_state
  as_owner :: "string option"
  as_notes :: "string option"
  as_first_seen_at :: int
  as_last_seen_at :: int
  as_last_changed_at :: int

text \<open>Where an assertion comes from: the columns of its key that name tenant, connector, connection and scope.\<close>

type_synonym source_key = "string \<times> string \<times> string \<times> string"

record assertion_key =
  ak_source :: source_key
  ak_asset :: asset_id
  ak_plane :: string
  ak_type :: assertion_type

record assertion_row =
  ax_confidence :: pyfloat
  ax_display_name :: string
  ax_attributes :: attrs
  ax_evidence :: evidence
  ax_lifecycle :: lifecycle_state
  ax_first_seen_at :: int
  ax_last_seen_at :: int
  ax_run :: string
  ax_withdrawn_at :: "int option"

record relation_key =
  rk_source :: source_key
  rk_from :: asset_id
  rk_to :: asset_id
  rk_kind :: relationship_kind
  rk_plane :: string
  rk_type :: assertion_type

record relation_row =
  rx_category :: relationship_category
  rx_confidence :: pyfloat
  rx_attributes :: attrs
  rx_evidence :: evidence
  rx_principal :: "asset_id option"
  rx_agent :: "asset_id option"
  rx_first_seen_at :: int
  rx_last_seen_at :: int
  rx_run :: string
  rx_withdrawn_at :: "int option"

text \<open>Tenant, connector, connection and run; then with plane and scope.\<close>

type_synonym run_key = "string \<times> string \<times> string \<times> string"

record run_row =
  rn_scope_key :: string
  rn_collected_at :: int

record run_coverage =
  rc_state :: coverage_state
  rc_detail :: "string option"
  rc_collected_at :: int

record inv_db =
  db_runs :: "(run_key, run_row) table"
  db_coverage :: "(run_key \<times> string \<times> string, run_coverage) table"
  db_assets :: "(asset_id, asset_row) table"
  db_assertions :: "(assertion_key, assertion_row) table"
  db_relations :: "(relation_key, relation_row) table"

section \<open>Runs and coverage\<close>

definition batch_run :: "string \<Rightarrow> 'a batch_header_scheme \<Rightarrow> run_key" where
  "batch_run tenant b = (tenant, bh_connector_id b, bh_connection_id b, bh_run_id b)"

definition batch_source :: "string \<Rightarrow> 'a batch_header_scheme \<Rightarrow> source_key" where
  "batch_source tenant b = (tenant, bh_connector_id b, bh_connection_id b, bh_scope_key b)"

abbreviation collected :: "'a batch_header_scheme \<Rightarrow> int" where
  "collected b \<equiv> instant (bh_collected_at b)"

text \<open>The run is inserted once; a coverage row is replaced.\<close>

definition insert_run_row :: "string \<Rightarrow> 'a batch_header_scheme \<Rightarrow> (run_key, run_row) table \<Rightarrow> (run_key, run_row) table" where
  "insert_run_row tenant b = upsert (batch_run tenant b) (\<lambda>old. case old of
     Some r \<Rightarrow> r | None \<Rightarrow> \<lparr>rn_scope_key = bh_scope_key b, rn_collected_at = collected b\<rparr>)"

definition insert_coverage ::
    "string \<Rightarrow> 'a batch_header_scheme \<Rightarrow> coverage \<Rightarrow>
     (run_key \<times> string \<times> string, run_coverage) table \<Rightarrow> (run_key \<times> string \<times> string, run_coverage) table" where
  "insert_coverage tenant b c = upsert (batch_run tenant b, cov_plane c, cov_scope c)
     (\<lambda>_. \<lparr>rc_state = cov_state c, rc_detail = cov_detail c, rc_collected_at = collected b\<rparr>)"

definition insert_run :: "string \<Rightarrow> 'a batch_header_scheme \<Rightarrow> inv_db \<Rightarrow> inv_db" where
  "insert_run tenant b db = db\<lparr>db_runs := insert_run_row tenant b (db_runs db),
     db_coverage := fold (insert_coverage tenant b) (bh_coverage b) (db_coverage db)\<rparr>"

section \<open>Assets\<close>

definition seen_asset :: "int \<Rightarrow> asset_row option \<Rightarrow> asset_row" where
  "seen_asset t old = (case old of
     None \<Rightarrow> \<lparr>as_governance = GOV_UNREVIEWED, as_lifecycle = LC_ACTIVE, as_owner = None, as_notes = None,
              as_first_seen_at = t, as_last_seen_at = t, as_last_changed_at = t\<rparr>
   | Some r \<Rightarrow> r\<lparr>as_last_seen_at := max (as_last_seen_at r) t\<rparr>)"

definition ensure_asset :: "string \<Rightarrow> asset_ref \<Rightarrow> int \<Rightarrow> inv_db \<Rightarrow> inv_db" where
  "ensure_asset tenant ref seen_at db =
     db\<lparr>db_assets := upsert (tenant, ref) (seen_asset seen_at) (db_assets db)\<rparr>"

definition optional_asset :: "string \<Rightarrow> asset_ref option \<Rightarrow> int \<Rightarrow> inv_db \<Rightarrow> inv_db" where
  "optional_asset tenant ref seen_at db = (case ref of None \<Rightarrow> db | Some r \<Rightarrow> ensure_asset tenant r seen_at db)"

section \<open>Assertions\<close>

definition assertion_key_of :: "string \<Rightarrow> inventory_batch \<Rightarrow> asset_assertion \<Rightarrow> assertion_key" where
  "assertion_key_of tenant b a = \<lparr>ak_source = batch_source tenant b, ak_asset = (tenant, aa_asset a),
     ak_plane = aa_coverage_plane a, ak_type = aa_assertion_type a\<rparr>"

definition assertion_row_of :: "inventory_batch \<Rightarrow> asset_assertion \<Rightarrow> assertion_row option \<Rightarrow> assertion_row" where
  "assertion_row_of b a old = \<lparr>ax_confidence = aa_confidence a, ax_display_name = aa_display_name a,
     ax_attributes = aa_attributes a, ax_evidence = aa_evidence a, ax_lifecycle = aa_lifecycle a,
     ax_first_seen_at = (case old of None \<Rightarrow> collected b | Some r \<Rightarrow> ax_first_seen_at r),
     ax_last_seen_at = collected b, ax_run = bh_run_id b, ax_withdrawn_at = None\<rparr>"

definition upsert_asset_assertion :: "string \<Rightarrow> inventory_batch \<Rightarrow> asset_assertion \<Rightarrow> inv_db \<Rightarrow> inv_db" where
  "upsert_asset_assertion tenant b a db =
     db\<lparr>db_assertions := upsert (assertion_key_of tenant b a) (assertion_row_of b a) (db_assertions db)\<rparr>"

definition relation_key_of :: "string \<Rightarrow> inventory_batch \<Rightarrow> relationship_assertion \<Rightarrow> relation_key" where
  "relation_key_of tenant b r = \<lparr>rk_source = batch_source tenant b, rk_from = (tenant, ra_source r),
     rk_to = (tenant, ra_target r), rk_kind = ra_kind r, rk_plane = ra_coverage_plane r, rk_type = ra_assertion_type r\<rparr>"

definition relation_row_of ::
    "string \<Rightarrow> inventory_batch \<Rightarrow> relationship_assertion \<Rightarrow> relation_row option \<Rightarrow> relation_row" where
  "relation_row_of tenant b r old =
     \<lparr>rx_category = (case old of None \<Rightarrow> ra_category r | Some x \<Rightarrow> rx_category x),
      rx_confidence = ra_confidence r, rx_attributes = ra_attributes r, rx_evidence = ra_evidence r,
      rx_principal = map_option (Pair tenant) (ra_principal_ref r),
      rx_agent = map_option (Pair tenant) (ra_agent_ref r),
      rx_first_seen_at = (case old of None \<Rightarrow> collected b | Some x \<Rightarrow> rx_first_seen_at x),
      rx_last_seen_at = collected b, rx_run = bh_run_id b, rx_withdrawn_at = None\<rparr>"

definition upsert_relationship :: "string \<Rightarrow> inventory_batch \<Rightarrow> relationship_assertion \<Rightarrow> inv_db \<Rightarrow> inv_db" where
  "upsert_relationship tenant b r db =
     db\<lparr>db_relations := upsert (relation_key_of tenant b r) (relation_row_of tenant b r) (db_relations db)\<rparr>"

section \<open>Withdrawal\<close>

definition assertion_origin :: "assertion_key \<Rightarrow> assertion_row \<Rightarrow> source_key \<times> string" where
  "assertion_origin k r = (ak_source k, ak_plane k)"

definition assertion_active :: "assertion_row \<Rightarrow> bool" where
  "assertion_active r \<longleftrightarrow> ax_withdrawn_at r = None"

definition withdraw_assertion :: "int \<Rightarrow> assertion_row \<Rightarrow> assertion_row" where
  "withdraw_assertion t r = r\<lparr>ax_withdrawn_at := Some t, ax_lifecycle := LC_WITHDRAWN\<rparr>"

definition assertion_missing :: "string \<Rightarrow> inventory_batch \<Rightarrow> string \<Rightarrow> assertion_key \<Rightarrow> assertion_row \<Rightarrow> bool" where
  "assertion_missing tenant b plane k r \<longleftrightarrow>
     assertion_origin k r = (batch_source tenant b, plane) \<and> assertion_active r \<and> ax_run r \<noteq> bh_run_id b"

definition withdraw_missing_assets :: "string \<Rightarrow> inventory_batch \<Rightarrow> string \<Rightarrow> inv_db \<Rightarrow> inv_db \<times> nat" where
  "withdraw_missing_assets tenant b plane db =
     (db\<lparr>db_assertions := update_where (assertion_missing tenant b plane)
           (\<lambda>k. withdraw_assertion (collected b)) (db_assertions db)\<rparr>,
      count_where (assertion_missing tenant b plane) (db_assertions db))"

definition relation_origin :: "relation_key \<Rightarrow> relation_row \<Rightarrow> source_key \<times> string" where
  "relation_origin k r = (rk_source k, rk_plane k)"

definition relation_active :: "relation_row \<Rightarrow> bool" where
  "relation_active r \<longleftrightarrow> rx_withdrawn_at r = None"

definition withdraw_relation :: "int \<Rightarrow> relation_row \<Rightarrow> relation_row" where
  "withdraw_relation t r = r\<lparr>rx_withdrawn_at := Some t\<rparr>"

definition relation_missing :: "string \<Rightarrow> inventory_batch \<Rightarrow> string \<Rightarrow> relation_key \<Rightarrow> relation_row \<Rightarrow> bool" where
  "relation_missing tenant b plane k r \<longleftrightarrow>
     relation_origin k r = (batch_source tenant b, plane) \<and> relation_active r \<and> rx_run r \<noteq> bh_run_id b"

definition withdraw_missing_relationships :: "string \<Rightarrow> inventory_batch \<Rightarrow> string \<Rightarrow> inv_db \<Rightarrow> inv_db \<times> nat" where
  "withdraw_missing_relationships tenant b plane db =
     (db\<lparr>db_relations := update_where (relation_missing tenant b plane)
           (\<lambda>k. withdraw_relation (collected b)) (db_relations db)\<rparr>,
      count_where (relation_missing tenant b plane) (db_relations db))"

definition asset_supported :: "inv_db \<Rightarrow> asset_id \<Rightarrow> bool" where
  "asset_supported db i \<longleftrightarrow>
     list_ex (\<lambda>(k, r). fst (ak_source k) = fst i \<and> ak_asset k = i \<and> assertion_active r) (db_assertions db) \<or>
     list_ex (\<lambda>(k, r). fst (rk_source k) = fst i \<and> (rk_from k = i \<or> rk_to k = i) \<and> relation_active r) (db_relations db)"

definition refresh_asset_lifecycle :: "string \<Rightarrow> inv_db \<Rightarrow> inv_db" where
  "refresh_asset_lifecycle tenant db = db\<lparr>db_assets := update_where (\<lambda>i r. fst i = tenant)
     (\<lambda>i r. r\<lparr>as_lifecycle := if asset_supported db i then LC_ACTIVE else LC_WITHDRAWN\<rparr>) (db_assets db)\<rparr>"

section \<open>The method\<close>

text \<open>The loop bodies. \<open>asset_ids\<close> is the dictionary of the references already resolved.\<close>

definition ingest_asset :: "string \<Rightarrow> inventory_batch \<Rightarrow> asset_assertion \<Rightarrow> inv_db \<times> asset_ref list \<Rightarrow> inv_db \<times> asset_ref list" where
  "ingest_asset tenant b a = (\<lambda>(db, asset_ids).
     (upsert_asset_assertion tenant b a (ensure_asset tenant (aa_asset a) (collected b) db),
      List.insert (aa_asset a) asset_ids))"

definition resolve_asset :: "string \<Rightarrow> inventory_batch \<Rightarrow> asset_ref \<Rightarrow> inv_db \<times> asset_ref list \<Rightarrow> inv_db \<times> asset_ref list" where
  "resolve_asset tenant b ref = (\<lambda>(db, asset_ids).
     if ref \<in> set asset_ids then (db, asset_ids)
     else (ensure_asset tenant ref (collected b) db, List.insert ref asset_ids))"

definition ingest_relationship ::
    "string \<Rightarrow> inventory_batch \<Rightarrow> relationship_assertion \<Rightarrow> inv_db \<times> asset_ref list \<Rightarrow> inv_db \<times> asset_ref list" where
  "ingest_relationship tenant b r st =
     (let (db, asset_ids) = resolve_asset tenant b (ra_target r) (resolve_asset tenant b (ra_source r) st);
          db1 = optional_asset tenant (ra_principal_ref r) (collected b) db;
          db2 = optional_asset tenant (ra_agent_ref r) (collected b) db1
      in (upsert_relationship tenant b r db2, asset_ids))"

definition reconcile_plane :: "string \<Rightarrow> inventory_batch \<Rightarrow> coverage \<Rightarrow> inv_db \<times> nat \<times> nat \<Rightarrow> inv_db \<times> nat \<times> nat" where
  "reconcile_plane tenant b c = (\<lambda>(db, na, nr).
     if cov_state c \<noteq> COMPLETE then (db, na, nr)
     else let (db1, n1) = withdraw_missing_assets tenant b (cov_plane c) db;
              (db2, n2) = withdraw_missing_relationships tenant b (cov_plane c) db1
          in (db2, na + n1, nr + n2))"

record ingest_result =
  ig_assets :: nat
  ig_relationships :: nat
  ig_withdrawn_assets :: nat
  ig_withdrawn_relationships :: nat

definition recorded :: "string \<Rightarrow> inventory_batch \<Rightarrow> inv_db \<Rightarrow> inv_db" where
  "recorded tenant b db = fst (fold (ingest_relationship tenant b) (ib_relationships b)
     (fold (ingest_asset tenant b) (ib_assets b) (insert_run tenant b db, [])))"

definition ingest :: "string \<Rightarrow> inventory_batch \<Rightarrow> inv_db \<Rightarrow> inv_db \<times> ingest_result" where
  "ingest tenant b db =
     (let (db1, na, nr) = fold (reconcile_plane tenant b) (bh_coverage b) (recorded tenant b db, 0, 0)
      in (refresh_asset_lifecycle tenant db1,
          \<lparr>ig_assets = length (ib_assets b), ig_relationships = length (ib_relationships b),
           ig_withdrawn_assets = na, ig_withdrawn_relationships = nr\<rparr>))"

section \<open>Governance\<close>

text \<open>\<open>set_governance\<close>: the status is checked before the statement; \<open>None\<close> when no row is updated.\<close>

fun governance_of :: "string \<Rightarrow> governance_status option" where
  "governance_of s = (if s = ''approved'' then Some GOV_APPROVED else if s = ''unreviewed'' then Some GOV_UNREVIEWED
     else if s = ''unwanted'' then Some GOV_UNWANTED else None)"

definition set_governance ::
    "string \<Rightarrow> asset_id \<Rightarrow> string \<Rightarrow> string option \<Rightarrow> string option \<Rightarrow> inv_db \<Rightarrow> (inv_db \<times> asset_row option) res" where
  "set_governance tenant i status owner notes db = (case governance_of status of
     None \<Rightarrow> Inl (ValueError ''unsupported governance status'')
   | Some g \<Rightarrow>
       let db' = db\<lparr>db_assets := update_where (\<lambda>j r. fst j = tenant \<and> j = i)
             (\<lambda>j r. r\<lparr>as_governance := g, as_owner := owner, as_notes := notes\<rparr>) (db_assets db)\<rparr>
       in Inr (db', if fst i = tenant then map_of (db_assets db') i else None))"

section \<open>The two tables of assertions as snapshot tables\<close>

interpretation assertions: snapshot_table assertion_origin ax_run assertion_active "withdraw_assertion t" for t
  by unfold_locales (simp_all add: assertion_origin_def assertion_active_def withdraw_assertion_def)

interpretation relations: snapshot_table relation_origin rx_run relation_active "withdraw_relation t" for t
  by unfold_locales (simp_all add: relation_origin_def relation_active_def withdraw_relation_def)

end
