(* ===== verification/Ingest_Props.thy ===== *)
theory Ingest_Props
  imports Ingest_Inventory
begin

text \<open>
  What \<open>ingest\<close> leaves in the tables: the lookups of the assertions and relations after the loops, the
  lifecycle of the assets, and the reconciliation of a plane.
\<close>

section \<open>The tables after the loops\<close>

lemma ingest_asset_tables:
  "db_assertions (fst (fold (ingest_asset tenant b) as st)) =
     fold (\<lambda>a. upsert (assertion_key_of tenant b a) (assertion_row_of b a)) as (db_assertions (fst st))"
  "db_relations (fst (fold (ingest_asset tenant b) as st)) = db_relations (fst st)"
  by (induction as arbitrary: st)
    (simp_all add: ingest_asset_def upsert_asset_assertion_def ensure_asset_def split_beta)

lemma resolve_tables [simp]:
  "db_assertions (fst (resolve_asset tenant b ref st)) = db_assertions (fst st)"
  "db_relations (fst (resolve_asset tenant b ref st)) = db_relations (fst st)"
  by (simp_all add: resolve_asset_def ensure_asset_def split_beta)

lemma optional_tables [simp]:
  "db_assertions (optional_asset tenant ref t db) = db_assertions db"
  "db_relations (optional_asset tenant ref t db) = db_relations db"
  by (simp_all add: optional_asset_def ensure_asset_def split: option.splits)

lemma ingest_relationship_tables:
  "db_assertions (fst (fold (ingest_relationship tenant b) rs st)) = db_assertions (fst st)"
  "db_relations (fst (fold (ingest_relationship tenant b) rs st)) =
     fold (\<lambda>r. upsert (relation_key_of tenant b r) (relation_row_of tenant b r)) rs (db_relations (fst st))"
  by (induction rs arbitrary: st) (simp_all add: ingest_relationship_def upsert_relationship_def Let_def split_beta)

lemma recorded_tables:
  "db_assertions (recorded tenant b db) =
     fold (\<lambda>a. upsert (assertion_key_of tenant b a) (assertion_row_of b a)) (ib_assets b) (db_assertions db)"
  "db_relations (recorded tenant b db) =
     fold (\<lambda>r. upsert (relation_key_of tenant b r) (relation_row_of tenant b r)) (ib_relationships b) (db_relations db)"
  by (simp_all add: recorded_def ingest_relationship_tables ingest_asset_tables insert_run_def)

text \<open>The planes the loop over the coverage withdraws in.\<close>

definition complete_planes :: "'a batch_header_scheme \<Rightarrow> string set" where
  "complete_planes b = {cov_plane c |c. c \<in> set (bh_coverage b) \<and> cov_state c = COMPLETE}"

definition complete_in :: "coverage list \<Rightarrow> string set" where
  "complete_in cs = {cov_plane c |c. c \<in> set cs \<and> cov_state c = COMPLETE}"

lemma complete_in_simps [simp]:
  "complete_in [] = {}"
  "complete_in (c # cs) = (if cov_state c = COMPLETE then insert (cov_plane c) (complete_in cs) else complete_in cs)"
  by (auto simp: complete_in_def)

lemma reconcile_assertion:
  "map_of (db_assertions (fst (fold (reconcile_plane tenant b) cs st))) k =
     map_option (\<lambda>r. if ak_plane k \<in> complete_in cs \<and> assertion_missing tenant b (ak_plane k) k r
        then withdraw_assertion (collected b) r else r) (map_of (db_assertions (fst st)) k)"
proof (induction cs arbitrary: st)
  case Nil
  then show ?case by (cases "map_of (db_assertions (fst st)) k") simp_all
next
  case (Cons c cs)
  then show ?case
    by (cases "map_of (db_assertions (fst st)) k")
      (auto simp: reconcile_plane_def withdraw_missing_assets_def withdraw_missing_relationships_def split_beta
        table_simps assertion_missing_def assertion_origin_def assertion_active_def withdraw_assertion_def)
qed

lemma reconcile_relation:
  "map_of (db_relations (fst (fold (reconcile_plane tenant b) cs st))) k =
     map_option (\<lambda>r. if rk_plane k \<in> complete_in cs \<and> relation_missing tenant b (rk_plane k) k r
        then withdraw_relation (collected b) r else r) (map_of (db_relations (fst st)) k)"
proof (induction cs arbitrary: st)
  case Nil
  then show ?case by (cases "map_of (db_relations (fst st)) k") simp_all
next
  case (Cons c cs)
  then show ?case
    by (cases "map_of (db_relations (fst st)) k")
      (auto simp: reconcile_plane_def withdraw_missing_assets_def withdraw_missing_relationships_def split_beta
        table_simps relation_missing_def relation_origin_def relation_active_def withdraw_relation_def)
qed

lemma refresh_tables [simp]:
  "db_assertions (refresh_asset_lifecycle tenant db) = db_assertions db"
  "db_relations (refresh_asset_lifecycle tenant db) = db_relations db"
  by (simp_all add: refresh_asset_lifecycle_def)

lemma ingest_fst:
  "fst (ingest tenant b db) =
     refresh_asset_lifecycle tenant (fst (fold (reconcile_plane tenant b) (bh_coverage b) (recorded tenant b db, 0, 0)))"
  by (simp add: ingest_def Let_def split_beta)

lemma ingest_assertion:
  "map_of (db_assertions (fst (ingest tenant b db))) k =
     map_option (\<lambda>r. if ak_plane k \<in> complete_in (bh_coverage b) \<and> assertion_missing tenant b (ak_plane k) k r
        then withdraw_assertion (collected b) r else r) (map_of (db_assertions (recorded tenant b db)) k)"
  by (simp add: ingest_fst reconcile_assertion)

lemma ingest_relation:
  "map_of (db_relations (fst (ingest tenant b db))) k =
     map_option (\<lambda>r. if rk_plane k \<in> complete_in (bh_coverage b) \<and> relation_missing tenant b (rk_plane k) k r
        then withdraw_relation (collected b) r else r) (map_of (db_relations (recorded tenant b db)) k)"
  by (simp add: ingest_fst reconcile_relation)

section \<open>Reconciliation of a plane\<close>

definition active_assertions :: "inv_db \<Rightarrow> source_key \<Rightarrow> string \<Rightarrow> assertion_key set" where
  "active_assertions db s plane = {k. ak_source k = s \<and> ak_plane k = plane \<and>
     (\<exists>r. map_of (db_assertions db) k = Some r \<and> assertion_active r)}"

definition active_relations :: "inv_db \<Rightarrow> source_key \<Rightarrow> string \<Rightarrow> relation_key set" where
  "active_relations db s plane = {k. rk_source k = s \<and> rk_plane k = plane \<and>
     (\<exists>r. map_of (db_relations db) k = Some r \<and> relation_active r)}"

text \<open>The run of the batch has not reported to its source before.\<close>

definition fresh_run :: "string \<Rightarrow> inventory_batch \<Rightarrow> inv_db \<Rightarrow> bool" where
  "fresh_run tenant b db \<longleftrightarrow>
     list_all (\<lambda>(k, r). ak_source k = batch_source tenant b \<longrightarrow> ax_run r \<noteq> bh_run_id b) (db_assertions db) \<and>
     list_all (\<lambda>(k, r). rk_source k = batch_source tenant b \<longrightarrow> rx_run r \<noteq> bh_run_id b) (db_relations db)"

lemma reported_assertion:
  "ax_run (assertion_row_of b a old) = bh_run_id b \<and> assertion_active (assertion_row_of b a old) \<and>
   assertion_origin (assertion_key_of tenant b a) (assertion_row_of b a old) = (batch_source tenant b, aa_coverage_plane a)"
  by (simp add: assertion_row_of_def assertion_active_def assertion_origin_def assertion_key_of_def)

lemma reported_relation:
  "rx_run (relation_row_of tenant b r old) = bh_run_id b \<and> relation_active (relation_row_of tenant b r old) \<and>
   relation_origin (relation_key_of tenant b r) (relation_row_of tenant b r old) = (batch_source tenant b, ra_coverage_plane r)"
  by (simp add: relation_row_of_def relation_active_def relation_origin_def relation_key_of_def)

lemma closed_plane_assertion:
  assumes "plane \<in> complete_in (bh_coverage b)" "ak_plane k = plane"
  shows "map_of (db_assertions (fst (ingest tenant b db))) k =
    map_of (update_where (\<lambda>k r. assertion_origin k r = (batch_source tenant b, plane) \<and> assertion_active r \<and> ax_run r \<noteq> bh_run_id b)
      (\<lambda>k. withdraw_assertion (collected b)) (db_assertions (recorded tenant b db))) k"
  using assms by (simp add: ingest_assertion table_simps assertion_missing_def)

lemma closed_plane_relation:
  assumes "plane \<in> complete_in (bh_coverage b)" "rk_plane k = plane"
  shows "map_of (db_relations (fst (ingest tenant b db))) k =
    map_of (update_where (\<lambda>k r. relation_origin k r = (batch_source tenant b, plane) \<and> relation_active r \<and> rx_run r \<noteq> bh_run_id b)
      (\<lambda>k. withdraw_relation (collected b)) (db_relations (recorded tenant b db))) k"
  using assms by (simp add: ingest_relation table_simps relation_missing_def)

lemma closed_plane_exact:
  assumes plane: "plane \<in> complete_in (bh_coverage b)" and fresh: "fresh_run tenant b db"
  shows "active_assertions (fst (ingest tenant b db)) (batch_source tenant b) plane =
      assertion_key_of tenant b ` {a \<in> set (ib_assets b). aa_coverage_plane a = plane}"
    and "active_relations (fst (ingest tenant b db)) (batch_source tenant b) plane =
      relation_key_of tenant b ` {r \<in> set (ib_relationships b). ra_coverage_plane r = plane}"
proof -
  have "k \<in> active_assertions (fst (ingest tenant b db)) (batch_source tenant b) plane \<longleftrightarrow>
      k \<in> assertion_key_of tenant b ` {a \<in> set (ib_assets b). aa_coverage_plane a = plane}" for k
  proof (cases "ak_source k = batch_source tenant b \<and> ak_plane k = plane")
    case True
    note exact = assertions.snapshot_exact [where xs = "ib_assets b" and f = "assertion_row_of b" and
      key = "assertion_key_of tenant b" and src = "\<lambda>a. (batch_source tenant b, aa_coverage_plane a)" and
      t = "db_assertions db" and k = k and s = "(batch_source tenant b, plane)" and run = "bh_run_id b" and
      ta = "collected b"]
    have "(\<exists>r. map_of (db_assertions (fst (ingest tenant b db))) k = Some r \<and>
        assertion_origin k r = (batch_source tenant b, plane) \<and> assertion_active r) \<longleftrightarrow>
        (\<exists>a\<in>set (ib_assets b). assertion_key_of tenant b a = k \<and>
          (batch_source tenant b, aa_coverage_plane a) = (batch_source tenant b, plane))"
      unfolding closed_plane_assertion [OF plane conjunct2 [OF True]] recorded_tables
    proof (rule exact)
      show "ax_run r \<noteq> bh_run_id b" if "map_of (db_assertions db) k = Some r" for r
        using fresh map_of_SomeD [OF that] True by (auto simp: fresh_run_def list_all_iff)
    qed (auto simp: reported_assertion assertion_key_of_def assertion_origin_def)
    then show ?thesis using True by (auto simp: active_assertions_def assertion_origin_def)
  next
    case False
    then show ?thesis by (auto simp: active_assertions_def assertion_key_of_def)
  qed
  then show "active_assertions (fst (ingest tenant b db)) (batch_source tenant b) plane =
      assertion_key_of tenant b ` {a \<in> set (ib_assets b). aa_coverage_plane a = plane}" by blast
  have "k \<in> active_relations (fst (ingest tenant b db)) (batch_source tenant b) plane \<longleftrightarrow>
      k \<in> relation_key_of tenant b ` {r \<in> set (ib_relationships b). ra_coverage_plane r = plane}" for k
  proof (cases "rk_source k = batch_source tenant b \<and> rk_plane k = plane")
    case True
    note exact = relations.snapshot_exact [where xs = "ib_relationships b" and f = "relation_row_of tenant b" and
      key = "relation_key_of tenant b" and src = "\<lambda>r. (batch_source tenant b, ra_coverage_plane r)" and
      t = "db_relations db" and k = k and s = "(batch_source tenant b, plane)" and run = "bh_run_id b" and
      ta = "collected b"]
    have "(\<exists>r. map_of (db_relations (fst (ingest tenant b db))) k = Some r \<and>
        relation_origin k r = (batch_source tenant b, plane) \<and> relation_active r) \<longleftrightarrow>
        (\<exists>r\<in>set (ib_relationships b). relation_key_of tenant b r = k \<and>
          (batch_source tenant b, ra_coverage_plane r) = (batch_source tenant b, plane))"
      unfolding closed_plane_relation [OF plane conjunct2 [OF True]] recorded_tables
    proof (rule exact)
      show "rx_run r \<noteq> bh_run_id b" if "map_of (db_relations db) k = Some r" for r
        using fresh map_of_SomeD [OF that] True by (auto simp: fresh_run_def list_all_iff)
    qed (auto simp: reported_relation relation_key_of_def relation_origin_def)
    then show ?thesis using True by (auto simp: active_relations_def relation_origin_def)
  next
    case False
    then show ?thesis by (auto simp: active_relations_def relation_key_of_def)
  qed
  then show "active_relations (fst (ingest tenant b db)) (batch_source tenant b) plane =
      relation_key_of tenant b ` {r \<in> set (ib_relationships b). ra_coverage_plane r = plane}" by blast
qed

section \<open>Properties\<close>

text \<open>A batch of one agent, and a store that holds another agent of the same source.\<close>

definition sample_evidence :: evidence where
  "sample_evidence = \<lparr>ev_source_type = ''scan'', ev_locator = ''x'', ev_observed_at = Aware 5 0, ev_payload = []\<rparr>"

definition sample_assertion :: "string \<Rightarrow> asset_assertion" where
  "sample_assertion n = \<lparr>aa_asset = \<lparr>ar_kind = AI_AGENT, ar_natural_key = n\<rparr>, aa_coverage_plane = ''agents'',
     aa_display_name = n, aa_assertion_type = OBSERVED, aa_confidence = f_1_0, aa_evidence = sample_evidence,
     aa_attributes = [], aa_lifecycle = LC_ACTIVE\<rparr>"

definition sample_batch :: "string \<Rightarrow> coverage_state list \<Rightarrow> string list \<Rightarrow> inventory_batch" where
  "sample_batch run states ns = \<lparr>bh_connector_id = ''c'', bh_connection_id = ''n'', bh_run_id = run,
     bh_scope_key = ''s'', bh_collected_at = Aware 5 0,
     bh_coverage = map (\<lambda>(i, st). \<lparr>cov_plane = ''agents'', cov_state = st, cov_scope = str_nat i, cov_detail = None\<rparr>)
       (List.enumerate 0 states),
     ib_assets = map sample_assertion ns, ib_relationships = []\<rparr>"

definition empty_inv :: inv_db where
  "empty_inv = \<lparr>db_runs = [], db_coverage = [], db_assets = [], db_assertions = [], db_relations = []\<rparr>"

definition sample_store :: inv_db where
  "sample_store = fst (ingest ''t'' (sample_batch ''r1'' [COMPLETE] [''a'']) empty_inv)"

text \<open>
  C8. When a batch of a new run has a complete coverage row for a plane, the active assertions and
  relationships of its source in that plane afterwards are exactly the ones the batch reports there.
\<close>

theorem ingest_reconciles:
  assumes "\<exists>c\<in>set (bh_coverage b). cov_plane c = plane \<and> cov_state c = COMPLETE" "fresh_run tenant b db"
  shows "active_assertions (fst (ingest tenant b db)) (batch_source tenant b) plane =
      assertion_key_of tenant b ` {a \<in> set (ib_assets b). aa_coverage_plane a = plane} \<and>
    active_relations (fst (ingest tenant b db)) (batch_source tenant b) plane =
      relation_key_of tenant b ` {r \<in> set (ib_relationships b). ra_coverage_plane r = plane}"
proof -
  have "plane \<in> complete_in (bh_coverage b)" using assms(1) by (auto simp: complete_in_def)
  then show ?thesis using closed_plane_exact [OF _ assms(2)] by blast
qed

theorem ingest_reconciles_witness:
  "active_assertions (fst (ingest ''t'' (sample_batch ''r2'' [COMPLETE] [''b'']) sample_store)) (''t'', ''c'', ''n'', ''s'') ''agents''
    = {\<lparr>ak_source = (''t'', ''c'', ''n'', ''s''), ak_asset = (''t'', \<lparr>ar_kind = AI_AGENT, ar_natural_key = ''b''\<rparr>),
        ak_plane = ''agents'', ak_type = OBSERVED\<rparr>}"
proof -
  have cov: "\<exists>c\<in>set (bh_coverage (sample_batch ''r2'' [COMPLETE] [''b''])). cov_plane c = ''agents'' \<and> cov_state c = COMPLETE"
    by (simp add: sample_batch_def)
  have fresh: "fresh_run ''t'' (sample_batch ''r2'' [COMPLETE] [''b'']) sample_store" by code_simp
  have src: "batch_source ''t'' (sample_batch ''r2'' [COMPLETE] [''b'']) = (''t'', ''c'', ''n'', ''s'')"
    by (simp add: sample_batch_def batch_source_def)
  have "assertion_key_of ''t'' (sample_batch ''r2'' [COMPLETE] [''b'']) `
      {a \<in> set (ib_assets (sample_batch ''r2'' [COMPLETE] [''b''])). aa_coverage_plane a = ''agents''} =
    {\<lparr>ak_source = (''t'', ''c'', ''n'', ''s''), ak_asset = (''t'', \<lparr>ar_kind = AI_AGENT, ar_natural_key = ''b''\<rparr>),
        ak_plane = ''agents'', ak_type = OBSERVED\<rparr>}"
  proof -
    have one: "ib_assets (sample_batch ''r2'' [COMPLETE] [''b'']) = [sample_assertion ''b'']"
      by (simp add: sample_batch_def)
    have "aa_coverage_plane (sample_assertion ''b'') = ''agents''" by (simp add: sample_assertion_def)
    then have "{a \<in> set [sample_assertion ''b'']. aa_coverage_plane a = ''agents''} = {sample_assertion ''b''}" by auto
    then show ?thesis unfolding one
      by (simp add: assertion_key_of_def src) (simp add: sample_assertion_def)
  qed
  then show ?thesis using ingest_reconciles [OF cov fresh] unfolding src by simp
qed

text \<open>
  Ingest never deletes an assertion or moves the time it was first seen; it leaves the assertions of
  other tenants, connectors, connections and scopes as they are; and it withdraws an assertion only if a
  coverage row of its plane is complete and the batch does not report it.
\<close>

theorem ingest_withdraws_only:
  assumes "map_of (db_assertions db) k = Some r"
  shows "\<exists>r'. map_of (db_assertions (fst (ingest tenant b db))) k = Some r' \<and>
      ax_first_seen_at r' = ax_first_seen_at r \<and>
      (ak_source k \<noteq> batch_source tenant b \<longrightarrow> r' = r) \<and>
      (assertion_active r \<and> \<not> assertion_active r' \<longrightarrow>
        (\<exists>c\<in>set (bh_coverage b). cov_plane c = ak_plane k \<and> cov_state c = COMPLETE) \<and>
        k \<notin> assertion_key_of tenant b ` set (ib_assets b))"
proof (cases "k \<in> assertion_key_of tenant b ` set (ib_assets b)")
  case True
  have first: "\<exists>a r1. map_of (fold (\<lambda>a. upsert (assertion_key_of tenant b a) (assertion_row_of b a)) as t) k = Some r1 \<and>
      ax_first_seen_at r1 = ax_first_seen_at r" if "map_of t k = Some r0" "ax_first_seen_at r0 = ax_first_seen_at r" for as t r0
    using that
  proof (induction as arbitrary: t r0)
    case (Cons a as)
    let ?t = "upsert (assertion_key_of tenant b a) (assertion_row_of b a) t"
    obtain r1 where "map_of ?t k = Some r1" "ax_first_seen_at r1 = ax_first_seen_at r"
      using Cons.prems by (cases "k = assertion_key_of tenant b a") (auto simp: table_simps assertion_row_of_def)
    then show ?case using Cons.IH [of ?t r1] by simp
  qed simp
  obtain a old where a: "a \<in> set (ib_assets b)" "assertion_key_of tenant b a = k"
      "map_of (db_assertions (recorded tenant b db)) k = Some (assertion_row_of b a old)"
    using map_of_fold_upsert_in [OF True, of "assertion_row_of b" "db_assertions db"] unfolding recorded_tables by blast
  have "map_of (db_assertions (fst (ingest tenant b db))) k = Some (assertion_row_of b a old)"
    using a(3) by (simp add: ingest_assertion assertion_missing_def reported_assertion)
  moreover have "ax_first_seen_at (assertion_row_of b a old) = ax_first_seen_at r"
    using first [OF assms refl, of "ib_assets b"] a(3) by (simp add: recorded_tables)
  moreover have "ak_source k = batch_source tenant b" using a(2) by (auto simp: assertion_key_of_def)
  ultimately show ?thesis by (auto simp: reported_assertion)
next
  case False
  then have "map_of (db_assertions (recorded tenant b db)) k = Some r"
    using map_of_fold_upsert_other [of "ib_assets b" "assertion_key_of tenant b" k "assertion_row_of b" "db_assertions db"] assms
    unfolding recorded_tables by fastforce
  then show ?thesis using False
    by (auto simp: ingest_assertion assertion_missing_def assertion_origin_def withdraw_assertion_def complete_in_def)
qed

theorem ingest_withdraws_only_witness:
  "\<exists>r'. map_of (db_assertions (fst (ingest ''u'' (sample_batch ''r2'' [COMPLETE] []) sample_store)))
      (assertion_key_of ''t'' (sample_batch ''r1'' [COMPLETE] []) (sample_assertion ''a'')) = Some r' \<and> assertion_active r'"
proof -
  let ?k = "assertion_key_of ''t'' (sample_batch ''r1'' [COMPLETE] []) (sample_assertion ''a'')"
  let ?r = "assertion_row_of (sample_batch ''r1'' [COMPLETE] []) (sample_assertion ''a'') None"
  have row: "map_of (db_assertions sample_store) ?k = Some ?r" by code_simp
  have src: "ak_source ?k \<noteq> batch_source ''u'' (sample_batch ''r2'' [COMPLETE] [])" by code_simp
  show ?thesis using ingest_withdraws_only [OF row, of "''u''" "sample_batch ''r2'' [COMPLETE] []"] src
    by (auto simp: reported_assertion)
qed

text \<open>
  C37. A batch may cover one plane twice, completely in one scope and partially in another. The domain then
  denies withdrawal in the plane (\<open>may_withdraw\<close>), but ingest withdraws there all the same.
\<close>

theorem mixed_coverage_withdraws:
  "\<exists>b db k r. new_InventoryBatch b = Inr b \<and> \<not> may_withdraw b (ak_plane k) \<and>
     map_of (db_assertions db) k = Some r \<and> assertion_active r \<and>
     (\<exists>r'. map_of (db_assertions (fst (ingest tenant b db))) k = Some r' \<and> \<not> assertion_active r')"
proof -
  let ?b = "sample_batch ''r2'' [COMPLETE, PARTIAL] []"
  let ?a = "sample_batch ''r1'' [COMPLETE] [''a'']"
  let ?k = "assertion_key_of tenant ?a (sample_assertion ''a'')"
  let ?r = "assertion_row_of ?a (sample_assertion ''a'') None"
  let ?db = "empty_inv\<lparr>db_assertions := [(?k, ?r)]\<rparr>"
  have valid: "new_InventoryBatch ?b = Inr ?b" by code_simp
  have mixed: "\<not> may_withdraw ?b ''agents''" by code_simp
  have plane: "ak_plane ?k = ''agents''" by (simp add: assertion_key_of_def sample_assertion_def)
  have row: "map_of (db_assertions ?db) ?k = Some ?r" by simp
  have "map_of (db_assertions (fst (ingest tenant ?b ?db))) ?k = Some (withdraw_assertion 5 ?r)"
    by (simp add: ingest_assertion recorded_tables sample_batch_def assertion_missing_def assertion_origin_def
        assertion_key_of_def sample_assertion_def batch_source_def assertion_active_def assertion_row_of_def)
  then show ?thesis using valid mixed plane row
    by (intro exI [of _ ?b] exI [of _ ?db] exI [of _ ?k] exI [of _ ?r])
      (simp add: reported_assertion withdraw_assertion_def assertion_active_def assertion_row_of_def)
qed

end
