(* ===== verification/Github_Tree.thy ===== *)
theory Github_Tree
  imports Py_Value
begin

text \<open>
  The repository tree of \<open>src/denali/connectors/github_repository.py\<close>: which paths are analysed,
  validation of one page of a git tree (\<open>_validated_tree_page\<close>), and the walk that splits truncated pages
  (\<open>_walk_tree\<close>). The provider is the argument \<open>fetch\<close>: \<open>fetch n sha recursive\<close> is the answer to the
  request number \<open>n\<close> of the walk for the tree \<open>sha\<close>, or the error \<open>self._json\<close> raises.
\<close>

section \<open>Errors\<close>

datatype gh_error = Source_Error string | Budget_Reached string | Claim_Lost | Other_Error string

type_synonym 'a gh = "gh_error + 'a"

fun bind_gh :: "'a gh \<Rightarrow> ('a \<Rightarrow> 'b gh) \<Rightarrow> 'b gh" where
  "bind_gh (Inl e) f = Inl e"
| "bind_gh (Inr x) f = f x"

lemma bind_gh_Inr [simp]: "bind_gh m f = Inr y \<longleftrightarrow> (\<exists>x. m = Inr x \<and> f x = Inr y)"
  by (cases m) auto

section \<open>Paths\<close>

text \<open>\<open>PurePosixPath(value).parts\<close> of a relative path, and \<open>.suffix\<close> of a name.\<close>

definition path_parts :: "string \<Rightarrow> string list" where
  "path_parts s = filter (\<lambda>p. p \<noteq> [] \<and> p \<noteq> ''.'') (split_char (CHR ''/'') [] s)"

definition is_absolute :: "string \<Rightarrow> bool" where
  "is_absolute s \<longleftrightarrow> startswith s ''/''"

definition as_posix :: "string list \<Rightarrow> string" where
  "as_posix parts = (if parts = [] then ''.'' else join ''/'' parts)"

definition name_suffix :: "string \<Rightarrow> string" where
  "name_suffix name = (let r = takeWhile (\<lambda>c. c \<noteq> CHR ''.'') (rev name); i = length name - length r - 1 in
     if CHR ''.'' \<in> set name \<and> 0 < i \<and> r \<noteq> [] then drop i name else [])"

definition safe_repository_path :: "string \<Rightarrow> string option" where
  "safe_repository_path s =
     (if s = [] \<or> CHR 0x5C \<in> set s \<or> CHR 0x00 \<in> set s then None
      else if is_absolute s \<or> (\<exists>p\<in>set (path_parts s). p \<in> {[], ''.'', ''..''}) then None
      else Some (as_posix (path_parts s)))"

definition excluded_parts :: "string list" where
  "excluded_parts = [''.git'', ''.hg'', ''.venv'', ''build'', ''dist'', ''fixtures'', ''node_modules'', ''test'', ''tests'', ''vendor'']"

definition source_suffixes :: "string list" where
  "source_suffixes = [''.py'', ''.ts'', ''.tsx'', ''.js'', ''.jsx'', ''.mjs'', ''.cjs'', ''.mts'', ''.cts'', ''.tf'',
     ''.bicep'', ''.json'', ''.yaml'', ''.yml'']"

definition skipped_part :: "string \<Rightarrow> bool" where
  "skipped_part p \<longleftrightarrow> p \<in> set excluded_parts \<or> startswith p ''.''"

definition endswith :: "string \<Rightarrow> string \<Rightarrow> bool" where
  "endswith s t \<longleftrightarrow> length t \<le> length s \<and> drop (length s - length t) s = t"

definition is_dependency_manifest :: "string \<Rightarrow> bool" where
  "is_dependency_manifest name \<longleftrightarrow> casefold name \<in> {''package.json'', ''pyproject.toml''} \<or>
     startswith (casefold name) ''requirements'' \<and> endswith (casefold name) ''.txt''"

definition eligible_name :: "string \<Rightarrow> bool" where
  "eligible_name name \<longleftrightarrow> \<not> contains ''.generated.'' (casefold name) \<and>
     (casefold (name_suffix name) \<in> set source_suffixes \<or> name \<in> {''mcp.json'', ''claude_desktop_config.json''} \<or>
      is_dependency_manifest name \<or> startswith (casefold name) ''dockerfile'' \<or> endswith name ''.assets.json'')"

definition eligible_path :: "string \<Rightarrow> bool" where
  "eligible_path path = (let parts = path_parts path in
     \<not> list_ex skipped_part (butlast parts) \<and> eligible_name (last parts))"

text \<open>\<open>_generic_json\<close> and \<open>_analysis_priority\<close> of a path.\<close>

definition path_name :: "string \<Rightarrow> string" where
  "path_name path = (if path_parts path = [] then [] else last (path_parts path))"

definition generic_json :: "string \<Rightarrow> bool" where
  "generic_json path = (let name = casefold (path_name path) in
     endswith name ''.json'' \<and> \<not> is_dependency_manifest name \<and>
     name \<notin> {''mcp.json'', ''claude_desktop_config.json''} \<and> \<not> endswith name ''.assets.json'')"

definition analysis_priority :: "string \<Rightarrow> nat" where
  "analysis_priority path = (let name = path_name path; suffix = casefold (name_suffix name) in
     if is_dependency_manifest name \<or> suffix \<in> {''.tf'', ''.bicep'', ''.yaml'', ''.yml''} then 0
     else if suffix \<in> {''.py'', ''.ts'', ''.tsx'', ''.js'', ''.jsx'', ''.mjs'', ''.cjs'', ''.mts'', ''.cts''} then 1 else 2)"

text \<open>\<open>_BLOB_SHA.fullmatch\<close> and \<open>_COMMIT_SHA.fullmatch\<close>.\<close>

definition is_sha :: "string \<Rightarrow> bool" where
  "is_sha s \<longleftrightarrow> 40 \<le> length s \<and> length s \<le> 64 \<and>
     list_all (\<lambda>c. is_digit c \<or> (let n = of_char c :: nat in 97 \<le> n \<and> n \<le> 102)) s"

definition printable :: "string \<Rightarrow> bool" where
  "printable s \<longleftrightarrow> list_all (\<lambda>c. 32 \<le> (of_char c :: nat)) s"

section \<open>One page\<close>

definition max_tree_entries :: nat where "max_tree_entries = 20000"
definition max_tree_requests :: nat where "max_tree_requests = 256"
definition max_tree_walk_depth :: nat where "max_tree_walk_depth = 64"
definition max_tree_inspected_entries :: nat where "max_tree_inspected_entries = 100000"

record page =
  pg_blobs :: "attrs list"
  pg_directories :: "(string \<times> string) list"
  pg_relevant :: nat
  pg_seen :: "string list"

definition child_path :: "string \<Rightarrow> string \<Rightarrow> string" where
  "child_path prefix name = (if prefix = [] then name else prefix @ ''/'' @ name)"

definition bad_tree_name :: "bool \<Rightarrow> string \<Rightarrow> bool" where
  "bad_tree_name recursive name \<longleftrightarrow> name \<in> {[], ''.'', ''..''} \<or> safe_repository_path name \<noteq> Some name \<or>
     \<not> printable name \<or> \<not> recursive \<and> CHR ''/'' \<in> set name \<or> list_ex (\<lambda>p. 255 < length p) (path_parts name)"

text \<open>What one entry adds after its path is accepted.\<close>

definition tree_kind :: "string \<Rightarrow> attrs \<Rightarrow> page \<Rightarrow> page gh" where
  "tree_kind path child pg =
     (let parts = path_parts path; kind = attr_get child ''type''; mode = attr_get child ''mode'' in
      if list_ex skipped_part (butlast parts) then Inr pg
      else if kind = PStr ''tree'' then
        if mode \<noteq> PStr ''040000'' then Inl (Source_Error ''invalid_tree_mode'')
        else if skipped_part (last parts) then Inr pg
        else (case attr_get child ''sha'' of
            PStr sha \<Rightarrow> if is_sha sha
              then Inr (pg\<lparr>pg_directories := pg_directories pg @ [(path, sha)], pg_relevant := pg_relevant pg + 1\<rparr>)
              else Inl (Source_Error ''invalid_tree_identity'')
          | _ \<Rightarrow> Inl (Source_Error ''invalid_tree_identity''))
      else if kind = PStr ''blob'' then
        if mode = PStr ''120000'' then Inr pg
        else if mode \<noteq> PStr ''100644'' \<and> mode \<noteq> PStr ''100755'' then Inl (Source_Error ''invalid_tree_mode'')
        else if \<not> eligible_path path then Inr pg
        else (case (attr_get child ''sha'', attr_get child ''size'') of
            (PStr sha, PInt bytes) \<Rightarrow> if is_sha sha \<and> 0 \<le> bytes
              then Inr (pg\<lparr>pg_blobs := pg_blobs pg @ [dict_set ''path'' (PStr path) child], pg_relevant := pg_relevant pg + 1\<rparr>)
              else Inl (Source_Error ''invalid_blob_identity'')
          | _ \<Rightarrow> Inl (Source_Error ''invalid_blob_identity''))
      else if kind = PStr ''commit'' \<and> mode = PStr ''160000'' then Inr pg
      else Inl (Source_Error ''invalid_tree_entry''))"

definition tree_child :: "string \<Rightarrow> bool \<Rightarrow> pyval \<Rightarrow> page \<Rightarrow> page gh" where
  "tree_child prefix recursive v pg = (case v of
     PDict child \<Rightarrow> (case attr_get child ''path'' of
         PStr name \<Rightarrow>
           if bad_tree_name recursive name then Inl (Source_Error ''invalid_tree_path'')
           else let path = child_path prefix name in
             if 1024 < length path \<or> path \<in> set (pg_seen pg) then Inl (Source_Error ''invalid_tree_path'')
             else if max_tree_walk_depth + 1 < length (path_parts path) then
               Inl (Source_Error ''repository_tree_request_limit_exceeded'')
             else tree_kind path child (pg\<lparr>pg_seen := path # pg_seen pg\<rparr>)
       | _ \<Rightarrow> Inl (Source_Error ''invalid_tree_path''))
   | _ \<Rightarrow> Inl (Source_Error ''invalid_tree_entry''))"

fun tree_children :: "string \<Rightarrow> bool \<Rightarrow> pyval list \<Rightarrow> page \<Rightarrow> page gh" where
  "tree_children prefix recursive [] pg = Inr pg"
| "tree_children prefix recursive (v # vs) pg =
     bind_gh (tree_child prefix recursive v pg) (tree_children prefix recursive vs)"

definition validated_tree_page :: "pyval list \<Rightarrow> string \<Rightarrow> bool \<Rightarrow> string list \<Rightarrow> page gh" where
  "validated_tree_page children prefix recursive seen =
     tree_children prefix recursive children \<lparr>pg_blobs = [], pg_directories = [], pg_relevant = 0, pg_seen = seen\<rparr>"

section \<open>The walk\<close>

record walk =
  wa_pending :: "(string \<times> string \<times> bool) list"
  wa_entries :: "attrs list"
  wa_paths :: "string list"
  wa_inspected :: nat
  wa_relevant :: nat

text \<open>What the loop does with the answer to request number \<open>n\<close>, counted from 1.\<close>

definition walk_answer :: "nat \<Rightarrow> string \<Rightarrow> string \<Rightarrow> bool \<Rightarrow> attrs \<Rightarrow> walk \<Rightarrow> walk gh" where
  "walk_answer n prefix sha recursive payload w =
     (case (attr_get payload ''tree'', attr_get payload ''sha'') of
        (PList children, PStr observed) \<Rightarrow>
          if \<not> is_sha observed \<or> prefix \<noteq> [] \<and> observed \<noteq> sha then Inl (Source_Error ''repository_tree_incomplete'')
          else let inspected = wa_inspected w + length children in
            if max_tree_inspected_entries < inspected then Inl (Source_Error ''repository_tree_inspection_limit_exceeded'')
            else if attr_get payload ''truncated'' = PBool True \<and> recursive then
              Inr (w\<lparr>wa_pending := (prefix, sha, False) # wa_pending w, wa_inspected := inspected\<rparr>)
            else if attr_get payload ''truncated'' \<noteq> PBool False then Inl (Source_Error ''repository_tree_incomplete'')
            else bind_gh (validated_tree_page children prefix recursive (wa_paths w)) (\<lambda>pg.
              let relevant = wa_relevant w + pg_relevant pg in
              if max_tree_entries < relevant then Inl (Source_Error ''repository_tree_limit_exceeded'')
              else let w1 = w\<lparr>wa_entries := wa_entries w @ pg_blobs pg, wa_paths := pg_seen pg,
                               wa_inspected := inspected, wa_relevant := relevant\<rparr> in
                if recursive then Inr w1
                else if max_tree_requests < length (wa_pending w) + length (pg_directories pg) + n then
                  Inl (Source_Error ''repository_tree_request_limit_exceeded'')
                else Inr (w1\<lparr>wa_pending := wa_pending w @ map (\<lambda>(path, child). (path, child, True)) (pg_directories pg)\<rparr>))
      | _ \<Rightarrow> Inl (Source_Error ''repository_tree_incomplete''))"

text \<open>\<open>left\<close> is how many requests are left; the loop ends when it is spent.\<close>

fun walk_loop :: "(nat \<Rightarrow> string \<Rightarrow> bool \<Rightarrow> attrs gh) \<Rightarrow> nat \<Rightarrow> walk \<Rightarrow> attrs list gh" where
  "walk_loop fetch 0 w =
     (if wa_pending w = [] then Inr (wa_entries w) else Inl (Source_Error ''repository_tree_request_limit_exceeded''))"
| "walk_loop fetch (Suc left) w = (case wa_pending w of
     [] \<Rightarrow> Inr (wa_entries w)
   | (prefix, sha, recursive) # rest \<Rightarrow>
       bind_gh (fetch (max_tree_requests - left) sha recursive) (\<lambda>payload.
         bind_gh (walk_answer (max_tree_requests - left) prefix sha recursive payload (w\<lparr>wa_pending := rest\<rparr>))
           (walk_loop fetch left)))"

definition walk_tree :: "(nat \<Rightarrow> string \<Rightarrow> bool \<Rightarrow> attrs gh) \<Rightarrow> string \<Rightarrow> attrs list gh" where
  "walk_tree fetch commit = walk_loop fetch max_tree_requests
     \<lparr>wa_pending = [([], commit, False)], wa_entries = [], wa_paths = [], wa_inspected = 0, wa_relevant = 0\<rparr>"

end
