(* ===== verification/Github_Checkpoint.thy ===== *)
theory Github_Checkpoint
  imports Github_Tree Remediation_Templates Inventory
begin

text \<open>
  The boundary and the checkpoint of a resumable collection in
  \<open>src/denali/connectors/github_repository.py\<close>: \<open>github_collection_boundary_hash\<close>, \<open>_validated_checkpoint\<close>,
  \<open>_validate_checkpoint_result\<close>, with \<open>_repository_boundary\<close> of \<open>src/denali/connections/github.py\<close>, and the
  retry seed of \<open>src/denali/store/repository.py\<close> that reads an earlier checkpoint. \<open>fl\<close> is
  \<open>float.__repr__\<close> and \<open>str_of\<close> is \<open>str\<close> on values that are no texts.
\<close>

section \<open>Repository identities\<close>

definition alnum :: "char \<Rightarrow> bool" where
  "alnum c \<longleftrightarrow> is_letter c \<or> is_digit c"

definition valid_github_login :: "string \<Rightarrow> bool" where
  "valid_github_login s \<longleftrightarrow> s \<noteq> [] \<and> length s \<le> 39 \<and> alnum (hd s) \<and> alnum (last s) \<and>
     list_all (\<lambda>c. alnum c \<or> c = CHR ''-'') s"

text \<open>\<open>_GITHUB_REPOSITORY.fullmatch\<close>, with the owner and the repository.\<close>

definition split_full_name :: "string \<Rightarrow> (string \<times> string) option" where
  "split_full_name s = (case split_char (CHR ''/'') [] s of
     [owner, name] \<Rightarrow> if valid_github_login owner \<and> 1 \<le> length name \<and> length name \<le> 100 \<and>
         list_all (\<lambda>c. alnum c \<or> c \<in> {CHR ''_'', CHR ''.'', CHR ''-''}) name then Some (owner, name) else None
   | _ \<Rightarrow> None)"

text \<open>\<open>str(d.get(key, ""))\<close>, and \<open>isinstance(v, int)\<close>, which booleans satisfy.\<close>

definition text_of :: "(pyval \<Rightarrow> string) \<Rightarrow> attrs \<Rightarrow> string \<Rightarrow> string" where
  "text_of str_of d k = (case map_of d k of None \<Rightarrow> [] | Some v \<Rightarrow> py_str str_of v)"

definition int_like :: "pyval \<Rightarrow> int option" where
  "int_like v = (case v of PInt i \<Rightarrow> Some i | PBool b \<Rightarrow> Some (if b then 1 else 0) | _ \<Rightarrow> None)"

definition positive_int :: "pyval \<Rightarrow> bool" where
  "positive_int v \<longleftrightarrow> (case int_like v of Some i \<Rightarrow> 0 < i | None \<Rightarrow> False)"

definition default_branch_of :: "(pyval \<Rightarrow> string) \<Rightarrow> attrs \<Rightarrow> pyval" where
  "default_branch_of str_of d = (let v = attr_get d ''default_branch'';
     t = take 255 (if truthy v then py_str str_of v else []) in if t = [] then PNone else PStr t)"

definition repository_boundary :: "(pyval \<Rightarrow> string) \<Rightarrow> attrs \<Rightarrow> attrs option" where
  "repository_boundary str_of d =
     (let node_id = text_of str_of d ''node_id''; full_name = text_of str_of d ''full_name''; name = text_of str_of d ''name'' in
      case (split_full_name full_name, attr_get d ''owner'') of
        (Some (full_owner, full_repository), PDict owner) \<Rightarrow>
          let login = text_of str_of owner ''login'' in
          if \<not> positive_int (attr_get d ''id'') \<or> node_id = [] \<or> 200 < length node_id \<or> name = [] \<or> 100 < length name then None
          else if \<not> positive_int (attr_get owner ''id'') \<or> \<not> valid_github_login login \<or>
            casefold full_owner \<noteq> casefold login \<or> casefold full_repository \<noteq> casefold name then None
          else Some [(''id'', attr_get d ''id''), (''node_id'', PStr node_id), (''name'', PStr name),
            (''full_name'', PStr full_name), (''owner_id'', attr_get owner ''id''), (''owner_login'', PStr login),
            (''private'', PBool (truthy (attr_get d ''private''))), (''archived'', PBool (truthy (attr_get d ''archived''))),
            (''default_branch'', default_branch_of str_of d)]
      | _ \<Rightarrow> None)"

section \<open>The boundary hash\<close>

definition github_scopes :: "string list" where
  "github_scopes = [''github.repository_metadata'', ''github.repository_contents'', ''github.actions_workflows'']"

definition is_int :: "pyval \<Rightarrow> bool" where
  "is_int v \<longleftrightarrow> (case v of PInt i \<Rightarrow> True | _ \<Rightarrow> False)"

definition int_of :: "pyval \<Rightarrow> int" where
  "int_of v = (case v of PInt i \<Rightarrow> i | _ \<Rightarrow> 0)"

definition saved_int :: "pyval \<Rightarrow> bool" where
  "saved_int v \<longleftrightarrow> (case v of PInt i \<Rightarrow> 0 < i | _ \<Rightarrow> False)"

text \<open>\<open>full_name.rsplit("/", 1)[-1]\<close>.\<close>

definition last_part :: "string \<Rightarrow> string" where
  "last_part s = last (split_char (CHR ''/'') [] s)"

text \<open>The identity of one saved repository, \<open>None\<close> when its boundary is invalid.\<close>

definition repository_identity :: "(pyval \<Rightarrow> string) \<Rightarrow> pyval \<Rightarrow> attrs \<Rightarrow> attrs option" where
  "repository_identity str_of account item =
     (case (attr_get item ''id'', attr_get item ''owner_id'', attr_get item ''full_name'') of
        (PInt i, PInt owner, PStr full_name) \<Rightarrow>
          (case repository_boundary str_of
             (dict_set ''owner'' (PDict [(''id'', PInt owner), (''login'', attr_get item ''owner_login'')])
               (dict_set ''name'' (PStr (last_part full_name)) item)) of
             None \<Rightarrow> None
           | Some n \<Rightarrow>
               if attr_get n ''owner_id'' \<noteq> account then None
               else Some (map (\<lambda>k. (k, attr_get n k)) [''id'', ''node_id'', ''full_name'', ''owner_id'', ''owner_login'']))
      | _ \<Rightarrow> None)"

definition dict_items :: "pyval list \<Rightarrow> attrs list option" where
  "dict_items vs = (if list_all (\<lambda>v. case v of PDict d \<Rightarrow> True | _ \<Rightarrow> False) vs
     then Some (map (\<lambda>v. case v of PDict d \<Rightarrow> d | _ \<Rightarrow> []) vs) else None)"

text \<open>\<open>connection["configuration"]["repositories"]\<close> when every element is a dictionary.\<close>

definition selected_repositories :: "attrs \<Rightarrow> attrs list option" where
  "selected_repositories connection = (case attr_get connection ''configuration'' of
     PDict configuration \<Rightarrow> (case attr_get configuration ''repositories'' of PList vs \<Rightarrow> dict_items vs | _ \<Rightarrow> None)
   | _ \<Rightarrow> None)"

definition valid_scopes :: "pyval \<Rightarrow> string list option" where
  "valid_scopes v = (case v of
     PList xs \<Rightarrow>
       let ss = map (\<lambda>x. case x of PStr s \<Rightarrow> s | _ \<Rightarrow> []) xs in
       if PStr ''github.repository_contents'' \<in> set xs \<and> list_all (\<lambda>x. case x of PStr s \<Rightarrow> s \<in> set github_scopes | _ \<Rightarrow> False) xs \<and>
         distinct ss then Some ss else None
   | _ \<Rightarrow> None)"

definition boundary_hash :: "(pyfloat \<Rightarrow> string) \<Rightarrow> (pyval \<Rightarrow> string) \<Rightarrow> string \<Rightarrow> attrs \<Rightarrow> string gh" where
  "boundary_hash fl str_of tenant connection =
     (case (attr_get connection ''credential_reference'', attr_get connection ''configuration'') of
        (PDict reference, PDict configuration) \<Rightarrow>
          if attr_get connection ''provider'' \<noteq> PStr ''github'' \<or> attr_get connection ''lifecycle_state'' \<noteq> PStr ''active'' \<or>
            \<not> saved_int (attr_get reference ''installation_id'') \<or> \<not> saved_int (attr_get configuration ''account_id'') then
            Inl (Source_Error ''invalid_collection_boundary'')
          else (case (attr_get configuration ''repositories'', valid_scopes (attr_get connection ''declared_scopes'')) of
              (PList vs, Some scopes) \<Rightarrow>
                if vs = [] \<or> 500 < length vs then Inl (Source_Error ''invalid_collection_boundary'')
                else (case dict_items vs of
                    None \<Rightarrow> Inl (Source_Error ''invalid_repository_boundary'')
                  | Some items \<Rightarrow>
                      let ids = map (repository_identity str_of (attr_get configuration ''account_id'')) items in
                      if None \<in> set ids \<or> \<not> distinct (map (\<lambda>n. attr_get (the n) ''id'') ids) then
                        Inl (Source_Error ''invalid_repository_boundary'')
                      else Inr (sha256_json fl (PDict
                        [(''collection_policy'', PStr ''github-resumable-source-v1''), (''tenant_id'', PStr tenant),
                         (''connection_id'', PStr (text_of str_of connection ''id'')),
                         (''credential_type'', attr_get connection ''credential_type''),
                         (''installation_id'', attr_get reference ''installation_id''),
                         (''app_id'', attr_get reference ''app_id''), (''app_slug'', attr_get reference ''app_slug''),
                         (''platform_connection_id'', attr_get reference ''platform_connection_id''),
                         (''account_id'', attr_get configuration ''account_id''),
                         (''account_login'', attr_get configuration ''account_login''),
                         (''repositories'', PList (map PDict (sort_key (\<lambda>n. int_of (attr_get n ''id'')) (map the ids)))),
                         (''scopes'', PList (map PStr (sort scopes)))])))
            | _ \<Rightarrow> Inl (Source_Error ''invalid_collection_boundary''))
      | _ \<Rightarrow> Inl (Source_Error ''invalid_collection_boundary''))"

section \<open>Results of a repository\<close>

definition max_repository_interruption_count :: int where "max_repository_interruption_count = 3"
definition max_selected_files :: int where "max_selected_files = 2000"
definition max_total_bytes :: int where "max_total_bytes = 25000000"

definition terminal_source_errors :: "string list" where
  "terminal_source_errors = [''installation_account_mismatch'', ''invalid_repository_boundary'',
     ''repository_identity_mismatch'', ''invalid_immutable_revision'', ''repository_tree_incomplete'',
     ''repository_tree_limit_exceeded'', ''invalid_blob_identity'', ''repository_blob_limit_exceeded'',
     ''invalid_blob_response'', ''invalid_blob_encoding'', ''blob_size_mismatch'', ''repository_byte_limit_exceeded'',
     ''repository_tree_request_limit_exceeded'', ''repository_tree_inspection_limit_exceeded'', ''invalid_tree_entry'',
     ''invalid_tree_path'', ''invalid_tree_mode'', ''invalid_tree_identity'', ''invalid_github_response'',
     ''github_permission_denied'', ''github_resource_not_found'', ''github_conflict'', ''invalid_default_branch'',
     ''github_collection_retry_limit_reached'']"

definition count_keys :: "string list" where
  "count_keys = [''files'', ''bytes'', ''source_assets'', ''inventory_assets'', ''inventory_relationships'',
     ''posture_findings'', ''deployment_relationships'']"

definition base_keys :: "string list" where "base_keys = [''repository_id'', ''repository'', ''state'']"
definition coverage_keys :: "string list" where "coverage_keys = [''source'', ''inventory'', ''posture'', ''correlation'']"
definition correlation_keys :: "string list" where
  "correlation_keys = [''declarations'', ''proven'', ''ambiguous'', ''unmatched'', ''targets_evaluated'']"
definition coverage_states :: "string list" where
  "coverage_states = [''complete'', ''partial'', ''failed'', ''not_supported'', ''unknown'']"

definition keys_of :: "attrs \<Rightarrow> string set" where
  "keys_of d = fst ` set d"

definition int_within :: "int \<Rightarrow> pyval \<Rightarrow> bool" where
  "int_within n v \<longleftrightarrow> (case v of PInt i \<Rightarrow> 0 \<le> i \<and> i \<le> n | _ \<Rightarrow> False)"

definition one_of :: "string list \<Rightarrow> pyval \<Rightarrow> bool" where
  "one_of ss v \<longleftrightarrow> (case v of PStr s \<Rightarrow> s \<in> set ss | _ \<Rightarrow> False)"

definition has :: "attrs \<Rightarrow> string \<Rightarrow> bool" where
  "has d k \<longleftrightarrow> k \<in> keys_of d"

text \<open>A sub-dictionary that defaults to the empty one.\<close>

definition sub_attrs :: "attrs \<Rightarrow> string \<Rightarrow> attrs option" where
  "sub_attrs d k = (if \<not> has d k then Some [] else case attr_get d k of PDict e \<Rightarrow> Some e | _ \<Rightarrow> None)"

definition retry_limit_reached :: "attrs \<Rightarrow> bool" where
  "retry_limit_reached r \<longleftrightarrow> attr_get r ''detail'' = PStr ''github_collection_retry_limit_reached''"

definition result_fields_ok :: "attrs \<Rightarrow> attrs \<Rightarrow> pyval \<Rightarrow> bool" where
  "result_fields_ok r selected revision \<longleftrightarrow>
     keys_of r \<subseteq> set count_keys \<union> {''repository_id'', ''repository'', ''state'', ''revision'', ''detail'', ''coverage'',
       ''correlation'', ''ignored_inputs''} \<and>
     is_int (attr_get r ''repository_id'') \<and> attr_get r ''repository_id'' = attr_get selected ''id'' \<and>
     attr_get r ''repository'' = attr_get selected ''full_name'' \<and>
     one_of [''complete'', ''partial'', ''failed''] (attr_get r ''state'') \<and>
     \<not> (attr_get r ''state'' \<noteq> PStr ''failed'' \<and> revision = PNone \<and> \<not> retry_limit_reached r) \<and>
     \<not> (retry_limit_reached r \<and> attr_get r ''state'' \<noteq> PStr ''partial'') \<and>
     \<not> (has r ''revision'' \<and> attr_get r ''revision'' \<noteq> revision) \<and>
     list_all (\<lambda>k. has r k \<longrightarrow> int_within 1000000000 (attr_get r k)) count_keys \<and>
     \<not> (has r ''files'' \<and> max_selected_files < int_of (attr_get r ''files'')) \<and>
     \<not> (has r ''bytes'' \<and> max_total_bytes < int_of (attr_get r ''bytes'')) \<and>
     \<not> (has r ''detail'' \<and> \<not> one_of terminal_source_errors (attr_get r ''detail''))"

definition result_parts_ok :: "attrs \<Rightarrow> bool" where
  "result_parts_ok r \<longleftrightarrow> (case (sub_attrs r ''coverage'', sub_attrs r ''correlation'', sub_attrs r ''ignored_inputs'') of
     (Some coverage, Some correlation, Some ignored) \<Rightarrow>
       keys_of coverage \<subseteq> set coverage_keys \<and> list_all (one_of coverage_states \<circ> snd) coverage \<and>
       keys_of correlation \<subseteq> set correlation_keys \<and> list_all (int_within 1000000000 \<circ> snd) correlation \<and>
       keys_of ignored \<subseteq> {''non_analysis_json''} \<and> list_all (int_within (int max_tree_entries) \<circ> snd) ignored
   | _ \<Rightarrow> False)"

definition result_shape_ok :: "attrs \<Rightarrow> pyval \<Rightarrow> bool" where
  "result_shape_ok r revision \<longleftrightarrow>
     (if attr_get r ''state'' = PStr ''failed'' then keys_of r = set base_keys \<union> {''detail''}
      else if retry_limit_reached r then
        keys_of r = set base_keys \<union> {''detail'', ''files'', ''bytes''} \<union> (if truthy revision then {''revision''} else {}) \<and>
        attr_get r ''files'' = PInt 0 \<and> attr_get r ''bytes'' = PInt 0
      else
        (let coverage = the (sub_attrs r ''coverage''); correlation = the (sub_attrs r ''correlation'') in
         keys_of r = set base_keys \<union> set count_keys \<union> {''revision'', ''coverage'', ''correlation''} \<union>
           (if has r ''ignored_inputs'' then {''ignored_inputs''} else {}) \<and>
         attr_get r ''revision'' = revision \<and> keys_of coverage = set coverage_keys \<and>
         keys_of correlation = set correlation_keys \<and>
         (attr_get r ''state'' = PStr ''complete'') = list_all (\<lambda>(k, v). v = PStr ''complete'') coverage))"

definition valid_result :: "pyval \<Rightarrow> attrs \<Rightarrow> pyval \<Rightarrow> bool" where
  "valid_result v selected revision \<longleftrightarrow> (case v of
     PDict r \<Rightarrow> result_fields_ok r selected revision \<and> result_parts_ok r \<and> result_shape_ok r revision
   | _ \<Rightarrow> False)"

section \<open>Checkpoints\<close>

definition str_id :: "(pyval \<Rightarrow> string) \<Rightarrow> pyval \<Rightarrow> string" where
  "str_id str_of v = (case v of PInt i \<Rightarrow> str_int i | _ \<Rightarrow> py_str str_of v)"

definition valid_branch :: "pyval \<Rightarrow> bool" where
  "valid_branch v \<longleftrightarrow> (case v of PNone \<Rightarrow> True | PStr s \<Rightarrow> s \<noteq> [] \<and> length s \<le> 255 \<and> printable s | _ \<Rightarrow> False)"

definition valid_pin :: "attrs \<Rightarrow> bool" where
  "valid_pin p \<longleftrightarrow> (has p ''revision'' \<or> has p ''default_branch'' \<longrightarrow>
     has p ''revision'' \<and> has p ''default_branch'' \<and> valid_branch (attr_get p ''default_branch'') \<and>
     (case attr_get p ''revision'' of
        PStr s \<Rightarrow> s = ''empty'' \<or> is_sha s \<and> attr_get p ''default_branch'' \<noteq> PNone
      | _ \<Rightarrow> False))"

definition valid_progress :: "attrs \<Rightarrow> pyval \<Rightarrow> bool" where
  "valid_progress selected v \<longleftrightarrow> (case v of
     PDict p \<Rightarrow> keys_of p \<subseteq> {''revision'', ''default_branch'', ''result'', ''interruption_count''} \<and>
       (has p ''interruption_count'' \<longrightarrow> int_within max_repository_interruption_count (attr_get p ''interruption_count'')) \<and>
       valid_pin p \<and> (has p ''result'' \<longrightarrow> valid_result (attr_get p ''result'') selected (attr_get p ''revision''))
   | _ \<Rightarrow> False)"

text \<open>\<open>{str(item["id"]): item for item in selected}\<close>.\<close>

definition by_id :: "attrs list \<Rightarrow> (string \<times> attrs) list" where
  "by_id selected = dict_of (\<lambda>item. str_int (int_of (attr_get item ''id''))) selected"

text \<open>The state of the result saved for a repository.\<close>

definition saved_state :: "attrs \<Rightarrow> string \<Rightarrow> pyval" where
  "saved_state repositories key = (case map_of repositories key of
     Some (PDict p) \<Rightarrow> (case attr_get p ''result'' of PDict r \<Rightarrow> attr_get r ''state'' | _ \<Rightarrow> PNone)
   | _ \<Rightarrow> PNone)"

definition retained_ids :: "attrs \<Rightarrow> pyval list option" where
  "retained_ids checkpoint = (if \<not> has checkpoint ''retained_repository_ids'' then Some []
     else case attr_get checkpoint ''retained_repository_ids'' of PList vs \<Rightarrow> Some vs | _ \<Rightarrow> None)"

definition valid_retained :: "attrs list \<Rightarrow> pyval list \<Rightarrow> bool" where
  "valid_retained selected vs \<longleftrightarrow>
     list_all (\<lambda>v. is_int v \<and> map_of (by_id selected) (str_int (int_of v)) \<noteq> None) vs \<and> distinct vs"

definition boundary_changed :: "attrs \<Rightarrow> string \<Rightarrow> attrs list \<Rightarrow> bool" where
  "boundary_changed checkpoint hash selected \<longleftrightarrow>
     \<not> {''boundary_hash'', ''repositories''} \<subseteq> keys_of checkpoint \<or>
     \<not> keys_of checkpoint \<subseteq> {''boundary_hash'', ''repositories'', ''repository_count'', ''retained_repository_ids''} \<or>
     attr_get checkpoint ''boundary_hash'' \<noteq> PStr hash \<or>
     (case attr_get checkpoint ''repositories'' of PDict d \<Rightarrow> False | _ \<Rightarrow> True) \<or>
     has checkpoint ''repository_count'' \<and> attr_get checkpoint ''repository_count'' \<noteq> PInt (int (length selected))"

definition validated_checkpoint :: "attrs \<Rightarrow> string \<Rightarrow> attrs list \<Rightarrow> attrs gh" where
  "validated_checkpoint checkpoint hash selected =
     (if checkpoint = [] then
        Inr [(''boundary_hash'', PStr hash), (''repository_count'', PInt (int (length selected))), (''repositories'', PDict [])]
      else if boundary_changed checkpoint hash selected then Inl (Source_Error ''collection_checkpoint_boundary_changed'')
      else case (retained_ids checkpoint, attr_get checkpoint ''repositories'') of
        (Some retained, PDict repositories) \<Rightarrow>
          if \<not> valid_retained selected retained \<or>
            \<not> list_all (\<lambda>(key, v). case map_of (by_id selected) key of Some item \<Rightarrow> valid_progress item v | None \<Rightarrow> False) repositories \<or>
            \<not> list_all (\<lambda>v. saved_state repositories (str_int (int_of v)) = PStr ''complete'') retained
          then Inl (Source_Error ''invalid_collection_checkpoint'')
          else Inr (dict_set ''repository_count'' (PInt (int (length selected))) checkpoint)
      | _ \<Rightarrow> Inl (Source_Error ''invalid_collection_checkpoint''))"

section \<open>The seed of a retry\<close>

fun nat_of_digits :: "nat \<Rightarrow> string \<Rightarrow> nat" where
  "nat_of_digits n [] = n"
| "nat_of_digits n (c # s) = nat_of_digits (10 * n + (of_char c - 48)) s"

definition retry_seed ::
    "(pyfloat \<Rightarrow> string) \<Rightarrow> (pyval \<Rightarrow> string) \<Rightarrow> string \<Rightarrow> attrs \<Rightarrow> attrs \<Rightarrow> (attrs \<times> attrs) res" where
  "retry_seed fl str_of tenant target previous =
     (let incompatible = ValueError ''no compatible collection checkpoint'' in
      if previous = [] then Inl incompatible
      else case (boundary_hash fl str_of tenant target, selected_repositories target) of
        (Inr hash, Some selected) \<Rightarrow> (case validated_checkpoint previous hash selected of
            Inl e \<Rightarrow> Inl incompatible
          | Inr saved \<Rightarrow>
              let repositories = (case attr_get saved ''repositories'' of PDict d \<Rightarrow> d | _ \<Rightarrow> []);
                  retained = filter (\<lambda>(key, v). saved_state [(key, v)] key = PStr ''complete'') repositories;
                  n = int (length selected); m = int (length retained) in
              if m = n then Inl (ValueError ''no incomplete repositories'')
              else Inr
                ([(''boundary_hash'', attr_get saved ''boundary_hash''), (''repository_count'', PInt n),
                  (''repositories'', PDict retained),
                  (''retained_repository_ids'', PList (map PInt (sort (map (\<lambda>(key, v). int (nat_of_digits 0 key)) retained))))],
                 [(''connection_id'', PStr (text_of str_of target ''id'')), (''state'', PStr ''running''),
                  (''repository_count'', PInt n), (''selected_repository_count'', PInt n),
                  (''completed_repository_count'', PInt m),
                  (''repositories'', PList (map (\<lambda>(key, v). case v of PDict p \<Rightarrow> attr_get p ''result'' | _ \<Rightarrow> PNone) retained)),
                  (''failed_count'', PInt 0), (''partial_count'', PInt 0), (''retained_repository_count'', PInt m),
                  (''retry_repository_count'', PInt (n - m)), (''refreshed_repository_count'', PInt 0)]))
      | _ \<Rightarrow> Inl incompatible)"

end
