(* ===== verification/Collection_Jobs.thy ===== *)
theory Collection_Jobs
  imports Ingest_Inventory Github_Checkpoint
begin

text \<open>
  The durable collection jobs of \<open>src/denali/store/repository.py\<close>: creation, claims with a lease and a
  generation, the fenced updates of resumable GitHub jobs, the unfenced ones of the other kinds, recovery,
  and the fence around evidence writes. \<open>now\<close> is the time of the transaction in microseconds. \<open>fl\<close> is
  \<open>float.__repr__\<close> and \<open>str_of\<close> is \<open>str\<close> on values that are no texts.
\<close>

section \<open>The tables\<close>

datatype job_state = JS_QUEUED | JS_RUNNING | JS_SUCCEEDED | JS_FAILED

record job_row =
  jb_tenant :: string
  jb_connection :: string
  jb_kind :: string
  jb_state :: job_state
  jb_attempts :: int
  jb_retries :: int
  jb_continuations :: int
  jb_lease :: "int option"
  jb_available :: int
  jb_created :: int
  jb_updated :: int
  jb_started :: "int option"
  jb_completed :: "int option"
  jb_call :: "string option"
  jb_error :: "string option"
  jb_checkpoint :: attrs
  jb_result :: "attrs option"

record validation_row =
  vj_tenant :: string
  vj_connection :: string
  vj_state :: job_state
  vj_attempts :: int
  vj_lease :: "int option"
  vj_started :: "int option"
  vj_completed :: "int option"
  vj_call :: "string option"
  vj_error :: "string option"

record connection_row =
  cn_provider :: string
  cn_lifecycle :: string
  cn_health :: string
  cn_credential_type :: pyval
  cn_credential_reference :: pyval
  cn_configuration :: attrs
  cn_scopes :: "string list"

record job_db =
  jd_connections :: "(string \<times> string, connection_row) table"
  jd_jobs :: "(string, job_row) table"
  jd_validations :: "(string, validation_row) table"

definition github_kind :: string where "github_kind = ''github_source''"

definition collection_kinds :: "string list" where
  "collection_kinds = [''entra_ai'', ''aws_deployments'', ''aws_agent_runtime'', ''azure_deployments'',
     ''azure_agent_runtime'', ''gcp_deployments'', ''github_source'', ''azure_repos_source'', ''google_workspace_ai'']"

definition seconds :: "int \<Rightarrow> int" where "seconds n = n * 1000000"
definition run_window :: int where "run_window = seconds (48 * 3600)"
definition dispatch_window :: int where "dispatch_window = seconds (30 * 60)"

definition unfinished :: "job_row \<Rightarrow> bool" where
  "unfinished j \<longleftrightarrow> jb_state j \<in> {JS_QUEUED, JS_RUNNING}"

text \<open>\<open>lease_expires_at < now()\<close> and \<open>> now()\<close>, both false without a lease.\<close>

definition lease_over :: "int \<Rightarrow> job_row \<Rightarrow> bool" where
  "lease_over now j \<longleftrightarrow> (case jb_lease j of Some t \<Rightarrow> t < now | None \<Rightarrow> False)"

definition lease_live :: "int \<Rightarrow> job_row \<Rightarrow> bool" where
  "lease_live now j \<longleftrightarrow> (case jb_lease j of Some t \<Rightarrow> now < t | None \<Rightarrow> False)"

definition provider_of :: "job_db \<Rightarrow> job_row \<Rightarrow> connection_row option" where
  "provider_of db j = map_of (jd_connections db) (jb_tenant j, jb_connection j)"

definition active_github :: "job_db \<Rightarrow> job_row \<Rightarrow> bool" where
  "active_github db j \<longleftrightarrow> (case provider_of db j of
     Some c \<Rightarrow> cn_provider c = ''github'' \<and> cn_lifecycle c = ''active'' | None \<Rightarrow> False)"

definition update_jobs :: "(string \<Rightarrow> job_row \<Rightarrow> bool) \<Rightarrow> (job_row \<Rightarrow> job_row) \<Rightarrow> job_db \<Rightarrow> job_db" where
  "update_jobs P f db = db\<lparr>jd_jobs := update_where P (\<lambda>_. f) (jd_jobs db)\<rparr>"

text \<open>The assignments of every terminal failure; \<open>updated_at\<close> is set where the code sets it.\<close>

definition failed_job :: "int \<Rightarrow> string \<Rightarrow> job_row \<Rightarrow> job_row" where
  "failed_job now summary j = j\<lparr>jb_state := JS_FAILED, jb_completed := Some now, jb_lease := None,
     jb_error := Some summary\<rparr>"

definition touched_failed_job :: "int \<Rightarrow> string \<Rightarrow> job_row \<Rightarrow> job_row" where
  "touched_failed_job now summary j = (failed_job now summary j)\<lparr>jb_updated := now\<rparr>"

section \<open>Checkpoints as JSON\<close>

text \<open>\<open>json.dumps(value, allow_nan=False)\<close>, \<open>None\<close> when it raises; the text is ASCII.\<close>

fun dump_json :: "(pyfloat \<Rightarrow> string) \<Rightarrow> pyval \<Rightarrow> string option" where
  "dump_json fl PNone = Some ''null''"
| "dump_json fl (PBool b) = Some (if b then ''true'' else ''false'')"
| "dump_json fl (PInt i) = Some (str_int i)"
| "dump_json fl (PFloat f) = (case f of Fin q \<Rightarrow> Some (fl f) | _ \<Rightarrow> None)"
| "dump_json fl (PStr s) = Some (json_string s)"
| "dump_json fl (PList xs) = (let ts = map (dump_json fl) xs in
     if None \<in> set ts then None else Some (''['' @ join '','' (map the ts) @ '']''))"
| "dump_json fl (PDict d) = (let ts = map (\<lambda>(k, v). (k, dump_json fl v)) d in
     if None \<in> snd ` set ts then None
     else Some (''{'' @ join '','' (map (\<lambda>(k, t). json_string k @ '':'' @ the t) ts) @ ''}''))"

definition max_checkpoint_bytes :: nat where "max_checkpoint_bytes = 2000000"

definition checkpoint_json :: "(pyfloat \<Rightarrow> string) \<Rightarrow> attrs \<Rightarrow> string res" where
  "checkpoint_json fl value = (case dump_json fl (PDict value) of
     None \<Rightarrow> Inl (ValueError ''collection checkpoint must contain JSON metadata'')
   | Some encoded \<Rightarrow>
       if max_checkpoint_bytes < length encoded then
         Inl (ValueError ''collection checkpoint metadata exceeds its safety limit'')
       else Inr encoded)"

section \<open>Creation\<close>

definition new_job :: "int \<Rightarrow> string \<Rightarrow> string \<Rightarrow> string \<Rightarrow> attrs \<Rightarrow> attrs \<Rightarrow> job_row" where
  "new_job now tenant conn kind checkpoint result =
     \<lparr>jb_tenant = tenant, jb_connection = conn, jb_kind = kind, jb_state = JS_QUEUED, jb_attempts = 0,
      jb_retries = 0, jb_continuations = 0, jb_lease = None, jb_available = now, jb_created = now,
      jb_updated = now, jb_started = None, jb_completed = None, jb_call = None, jb_error = None,
      jb_checkpoint = checkpoint, jb_result = Some result\<rparr>"

definition of_connection :: "string \<Rightarrow> string \<Rightarrow> string \<Rightarrow> job_row \<Rightarrow> bool" where
  "of_connection tenant conn kind j \<longleftrightarrow> jb_tenant j = tenant \<and> jb_connection j = conn \<and> jb_kind j = kind"

definition active_jobs :: "string \<Rightarrow> string \<Rightarrow> string \<Rightarrow> job_db \<Rightarrow> (string \<times> job_row) list" where
  "active_jobs tenant conn kind db = filter (\<lambda>(i, j). of_connection tenant conn kind j \<and> unfinished j) (jd_jobs db)"

text \<open>\<open>ORDER BY created_at DESC, id DESC LIMIT 1\<close>.\<close>

definition newest_job :: "(string \<times> job_row) list \<Rightarrow> (string \<times> job_row) option" where
  "newest_job js = (case rev (sort_key (\<lambda>(i, j). (jb_created j, i)) js) of [] \<Rightarrow> None | x # _ \<Rightarrow> Some x)"

definition expire_legacy_jobs :: "int \<Rightarrow> string \<Rightarrow> string \<Rightarrow> string \<Rightarrow> job_db \<Rightarrow> job_db" where
  "expire_legacy_jobs now tenant conn kind = update_jobs
     (\<lambda>i j. of_connection tenant conn kind j \<and> jb_kind j \<noteq> github_kind \<and>
        (jb_state j = JS_RUNNING \<and> lease_over now j \<or> jb_state j = JS_QUEUED \<and> jb_created j < now - dispatch_window))
     (\<lambda>j. failed_job now (if jb_state j = JS_QUEUED then ''Collection dispatch timed out.''
        else ''Collection worker lease expired.'') j)"

text \<open>The row as the dictionary that the seed of a retry reads.\<close>

definition target_attrs :: "string \<Rightarrow> connection_row \<Rightarrow> attrs" where
  "target_attrs conn c = [(''id'', PStr conn), (''provider'', PStr (cn_provider c)), (''lifecycle_state'', PStr (cn_lifecycle c)),
     (''credential_type'', cn_credential_type c), (''credential_reference'', cn_credential_reference c),
     (''configuration'', PDict (cn_configuration c)), (''declared_scopes'', PList (map PStr (cn_scopes c)))]"

text \<open>\<open>new_id\<close> is the generated id. The two results are the job and whether it was created.\<close>

definition create_collection_job ::
    "(pyfloat \<Rightarrow> string) \<Rightarrow> (pyval \<Rightarrow> string) \<Rightarrow> int \<Rightarrow> string \<Rightarrow> string \<Rightarrow> string \<Rightarrow> string \<Rightarrow>
     bool \<Rightarrow> string option \<Rightarrow> job_db \<Rightarrow> (job_db \<times> (string \<times> job_row) \<times> bool) res" where
  "create_collection_job fl str_of now new_id tenant conn kind retry_incomplete retry_of db =
     (if retry_incomplete \<and> kind \<noteq> github_kind then
        Inl (ValueError ''incomplete retry is available only for GitHub source collection'')
      else case map_of (jd_connections db) (tenant, conn) of
        None \<Rightarrow> Inl (ValueError ''connection is no longer active'')
      | Some target \<Rightarrow>
        if cn_lifecycle target \<noteq> ''active'' then Inl (ValueError ''connection is no longer active'')
        else if retry_incomplete \<and> active_jobs tenant conn github_kind db \<noteq> [] then
          Inr (db, hd (active_jobs tenant conn github_kind db), False)
        else bind_res
          (if retry_incomplete then
             (case newest_job (filter (\<lambda>(i, j). of_connection tenant conn github_kind j \<and> \<not> unfinished j) (jd_jobs db)) of
                None \<Rightarrow> Inl (ValueError ''retry result is no longer current'')
              | Some (i, previous) \<Rightarrow>
                  if Some i \<noteq> retry_of then Inl (ValueError ''retry result is no longer current'')
                  else retry_seed fl str_of tenant (target_attrs conn target) (jb_checkpoint previous))
           else Inr ([], []))
          (\<lambda>(checkpoint, result).
             let db1 = expire_legacy_jobs now tenant conn kind db in
             bind_res (checkpoint_json fl checkpoint) (\<lambda>_. bind_res (checkpoint_json fl result) (\<lambda>_.
             if kind \<notin> set collection_kinds then Inl (RuntimeError ''collection_kind'')
             else if active_jobs tenant conn kind db1 = [] then
               let j = new_job now tenant conn kind checkpoint result
               in Inr (db1\<lparr>jd_jobs := jd_jobs db1 @ [(new_id, j)]\<rparr>, (new_id, j), True)
             else case newest_job (active_jobs tenant conn kind db1) of
               Some j \<Rightarrow> Inr (db1, j, False)
             | None \<Rightarrow> Inl (RuntimeError ''unable to create or find the connection collection job'')))))"

section \<open>Claims\<close>

definition claimable :: "int \<Rightarrow> connection_row \<Rightarrow> string \<Rightarrow> string \<Rightarrow> job_row \<Rightarrow> bool" where
  "claimable now c job i j \<longleftrightarrow> i = job \<and> jb_available j \<le> now \<and>
     (jb_kind j \<noteq> github_kind \<or> cn_lifecycle c = ''active'') \<and>
     (jb_state j = JS_QUEUED \<or> jb_state j = JS_RUNNING \<and> lease_over now j)"

definition claimed_job :: "int \<Rightarrow> int \<Rightarrow> job_row \<Rightarrow> job_row" where
  "claimed_job now lease_seconds j = j\<lparr>jb_state := JS_RUNNING,
     jb_started := (case jb_started j of None \<Rightarrow> Some now | Some t \<Rightarrow> Some t),
     jb_attempts := jb_attempts j + 1,
     jb_retries := jb_retries j + (if jb_kind j = github_kind \<and> jb_state j = JS_RUNNING then 1 else 0),
     jb_updated := now, jb_lease := Some (now + seconds lease_seconds)\<rparr>"

text \<open>The three terminal transitions that a claim performs first, and the claim itself.\<close>

definition fail_stale_github :: "int \<Rightarrow> connection_row \<Rightarrow> string \<Rightarrow> job_db \<Rightarrow> job_db" where
  "fail_stale_github now c job db =
     (let db1 = update_jobs (\<lambda>i j. i = job \<and> jb_kind j = github_kind \<and> unfinished j \<and> jb_created j \<le> now - run_window)
            (touched_failed_job now ''GitHub collection exceeded its resumable run window.'') db;
          db2 = (if cn_lifecycle c \<noteq> ''active'' then
            update_jobs (\<lambda>i j. i = job \<and> jb_kind j = github_kind \<and> unfinished j)
              (touched_failed_job now ''Connection is unavailable for collection.'') db1 else db1)
      in update_jobs (\<lambda>i j. i = job \<and> jb_kind j = github_kind \<and> jb_state j = JS_RUNNING \<and> lease_over now j \<and> 2 \<le> jb_retries j)
           (\<lambda>j. (touched_failed_job now ''Collection worker lease repeatedly expired.'' j)\<lparr>jb_retries := jb_retries j + 1\<rparr>) db2)"

definition claim_collection_job :: "int \<Rightarrow> string \<Rightarrow> int \<Rightarrow> job_db \<Rightarrow> (job_db \<times> job_row option) res" where
  "claim_collection_job now job lease_seconds db =
     (if \<not> (1 \<le> lease_seconds \<and> lease_seconds \<le> 86400) then Inl (ValueError ''invalid collection worker lease'')
      else case map_of (jd_jobs db) job of
        None \<Rightarrow> Inr (db, None)
      | Some j \<Rightarrow> (case provider_of db j of
            None \<Rightarrow> Inr (db, None)
          | Some c \<Rightarrow>
              if jb_kind j = github_kind \<and> cn_provider c \<noteq> ''github'' then
                Inr (update_jobs (\<lambda>i j. i = job \<and> jb_kind j = github_kind \<and> unfinished j)
                  (touched_failed_job now ''Collection kind does not belong to the connection provider.'') db, None)
              else let db1 = fail_stale_github now c job db;
                       db2 = update_jobs (claimable now c job) (claimed_job now lease_seconds) db1
                   in Inr (db2, case map_of (jd_jobs db1) job of
                        Some j1 \<Rightarrow> if claimable now c job job j1 then map_of (jd_jobs db2) job else None
                      | None \<Rightarrow> None)))"

section \<open>The fence\<close>

definition current_claim :: "int \<Rightarrow> string \<Rightarrow> int \<Rightarrow> string \<Rightarrow> job_row \<Rightarrow> bool" where
  "current_claim now job generation i j \<longleftrightarrow> i = job \<and> jb_kind j = github_kind \<and> jb_state j = JS_RUNNING \<and>
     jb_attempts j = generation \<and> lease_live now j \<and> now - run_window < jb_created j"

definition collection_job_is_current :: "int \<Rightarrow> string \<Rightarrow> int \<Rightarrow> job_db \<Rightarrow> bool" where
  "collection_job_is_current now job generation db \<longleftrightarrow>
     list_ex (\<lambda>(i, j). current_claim now job generation i j \<and> active_github db j) (jd_jobs db)"

text \<open>The answer is the new state of the job, \<open>None\<close> when no row was updated.\<close>

definition update_resumable ::
    "int \<Rightarrow> string \<Rightarrow> int \<Rightarrow> (job_row \<Rightarrow> job_row) \<Rightarrow> job_db \<Rightarrow> (job_db \<times> job_state option) res" where
  "update_resumable now job generation assignments db =
     (if generation < 1 then Inl (ValueError ''invalid collection claim generation'')
      else case map_of (jd_jobs db) job of
        None \<Rightarrow> Inr (db, None)
      | Some j \<Rightarrow>
          if \<not> active_github db j \<or> \<not> current_claim now job generation job j then Inr (db, None)
          else let f = (\<lambda>j. (assignments j)\<lparr>jb_updated := now\<rparr>)
               in Inr (update_jobs (current_claim now job generation) f db, Some (jb_state (f j))))"

section \<open>Fenced updates of a resumable job\<close>

definition result_state :: "pyval \<Rightarrow> string option" where
  "result_state v = (case v of PDict d \<Rightarrow> (case attr_get d ''result'' of
     PDict r \<Rightarrow> (case attr_get r ''state'' of PStr s \<Rightarrow> Some s | _ \<Rightarrow> None) | _ \<Rightarrow> None) | _ \<Rightarrow> None)"

text \<open>The states of the finished repositories of a checkpoint.\<close>

definition completed_states :: "attrs \<Rightarrow> string list" where
  "completed_states checkpoint = (case attr_get checkpoint ''repositories'' of
     PDict repositories \<Rightarrow> filter (\<lambda>s. s \<in> {''complete'', ''partial'', ''failed''})
       (List.map_filter (result_state \<circ> snd) repositories)
   | _ \<Rightarrow> [])"

definition counter :: "attrs option \<Rightarrow> string \<Rightarrow> int" where
  "counter r k = (case r of Some d \<Rightarrow> (case attr_get d k of PInt n \<Rightarrow> n | _ \<Rightarrow> 0) | None \<Rightarrow> 0)"

definition repository_count :: "job_db \<Rightarrow> job_row \<Rightarrow> int" where
  "repository_count db j = (case provider_of db j of
     Some c \<Rightarrow> (case attr_get (cn_configuration c) ''repositories'' of PList xs \<Rightarrow> int (length xs) | _ \<Rightarrow> 0)
   | None \<Rightarrow> 0)"

definition dict_merge :: "attrs \<Rightarrow> attrs \<Rightarrow> attrs" where
  "dict_merge d e = fold (\<lambda>(k, v). dict_set k v) e d"

definition checkpoint_saved :: "job_db \<Rightarrow> attrs \<Rightarrow> job_row \<Rightarrow> job_row" where
  "checkpoint_saved db checkpoint j =
     (let states = completed_states checkpoint; n = int (length states) in
      j\<lparr>jb_checkpoint := checkpoint,
        jb_retries := (if counter (jb_result j) ''completed_repository_count'' < n then 0 else jb_retries j),
        jb_result := Some (dict_merge (case jb_result j of None \<Rightarrow> [] | Some r \<Rightarrow> r)
          [(''state'', PStr ''running''), (''completed_repository_count'', PInt n),
           (''failed_count'', PInt (int (length (filter (\<lambda>s. s = ''failed'') states)))),
           (''partial_count'', PInt (int (length (filter (\<lambda>s. s = ''partial'') states)))),
           (''repository_count'', PInt (repository_count db j))])\<rparr>)"

definition save_collection_checkpoint ::
    "(pyfloat \<Rightarrow> string) \<Rightarrow> int \<Rightarrow> string \<Rightarrow> int \<Rightarrow> attrs \<Rightarrow> job_db \<Rightarrow> (job_db \<times> job_state option) res" where
  "save_collection_checkpoint fl now job generation checkpoint db =
     bind_res (checkpoint_json fl checkpoint)
       (\<lambda>_. update_resumable now job generation (checkpoint_saved db checkpoint) db)"

definition bad_delay :: "int \<Rightarrow> bool" where
  "bad_delay s \<longleftrightarrow> \<not> (0 \<le> s \<and> s \<le> 86400)"

definition deferred :: "int \<Rightarrow> attrs \<Rightarrow> attrs \<Rightarrow> int \<Rightarrow> job_row \<Rightarrow> job_row" where
  "deferred now checkpoint result delay j = j\<lparr>jb_checkpoint := checkpoint, jb_result := Some result,
     jb_state := JS_QUEUED, jb_continuations := jb_continuations j + 1, jb_available := now + seconds delay,
     jb_lease := None, jb_call := None, jb_error := None\<rparr>"

definition defer_collection_job ::
    "(pyfloat \<Rightarrow> string) \<Rightarrow> int \<Rightarrow> string \<Rightarrow> int \<Rightarrow> attrs \<Rightarrow> attrs \<Rightarrow> int \<Rightarrow> job_db \<Rightarrow> (job_db \<times> job_state option) res" where
  "defer_collection_job fl now job generation checkpoint result delay db =
     (if bad_delay delay then Inl (ValueError ''invalid collection continuation delay'')
      else bind_res (checkpoint_json fl checkpoint) (\<lambda>_. bind_res (checkpoint_json fl result)
        (\<lambda>_. update_resumable now job generation (deferred now checkpoint result delay) db)))"

definition succeeded :: "int \<Rightarrow> attrs \<Rightarrow> job_row \<Rightarrow> job_row" where
  "succeeded now result j = j\<lparr>jb_state := JS_SUCCEEDED, jb_result := Some result, jb_completed := Some now,
     jb_lease := None, jb_error := None\<rparr>"

definition complete_resumable_job ::
    "(pyfloat \<Rightarrow> string) \<Rightarrow> int \<Rightarrow> string \<Rightarrow> int \<Rightarrow> attrs \<Rightarrow> job_db \<Rightarrow> (job_db \<times> job_state option) res" where
  "complete_resumable_job fl now job generation result db =
     bind_res (checkpoint_json fl result) (\<lambda>_. update_resumable now job generation (succeeded now result) db)"

definition retried :: "int \<Rightarrow> string \<Rightarrow> int \<Rightarrow> int \<Rightarrow> job_row \<Rightarrow> job_row" where
  "retried now summary max_attempts delay j =
     (let again = (jb_retries j + 1 < max_attempts) in
      j\<lparr>jb_retries := jb_retries j + 1, jb_state := (if again then JS_QUEUED else JS_FAILED),
        jb_completed := (if again then None else Some now), jb_available := now + seconds delay,
        jb_lease := None, jb_call := None, jb_error := Some (take 500 summary)\<rparr>)"

definition retry_resumable_job ::
    "int \<Rightarrow> string \<Rightarrow> int \<Rightarrow> string \<Rightarrow> int \<Rightarrow> int \<Rightarrow> job_db \<Rightarrow> (job_db \<times> job_state option) res" where
  "retry_resumable_job now job generation summary max_attempts delay db =
     (if \<not> (1 \<le> max_attempts \<and> max_attempts \<le> 5) then
        Inl (ValueError ''collection attempts must be between 1 and 5'')
      else if bad_delay delay then Inl (ValueError ''invalid collection continuation delay'')
      else update_resumable now job generation (retried now summary max_attempts delay) db)"

section \<open>Recovery of lost GitHub jobs\<close>

text \<open>\<open>ORDER BY ... LIMIT limit\<close>.\<close>

definition order_limit :: "(string \<times> job_row \<Rightarrow> 'a::linorder) \<Rightarrow> int \<Rightarrow> (string \<times> job_row) list \<Rightarrow> string list" where
  "order_limit key limit js = map fst (take (nat limit) (sort_key key js))"

definition lost_github :: "int \<Rightarrow> job_db \<Rightarrow> job_row \<Rightarrow> bool" where
  "lost_github now db j \<longleftrightarrow> jb_kind j = github_kind \<and> unfinished j \<and> (case provider_of db j of
     Some c \<Rightarrow> cn_lifecycle c \<noteq> ''active'' \<or> cn_provider c \<noteq> ''github'' \<or> jb_created j \<le> now - run_window
   | None \<Rightarrow> False)"

definition due_github :: "int \<Rightarrow> job_db \<Rightarrow> job_row \<Rightarrow> bool" where
  "due_github now db j \<longleftrightarrow> jb_kind j = github_kind \<and> jb_available j \<le> now \<and> now - run_window < jb_created j \<and>
     active_github db j \<and> (jb_state j = JS_QUEUED \<or> jb_state j = JS_RUNNING \<and> lease_over now j)"

definition fail_lost_github :: "int \<Rightarrow> int \<Rightarrow> job_db \<Rightarrow> job_db" where
  "fail_lost_github now limit db =
     (let lost = order_limit (\<lambda>(i, j). (jb_updated j, i)) limit (filter (\<lambda>(i, j). lost_github now db j) (jd_jobs db))
      in update_jobs (\<lambda>i j. i \<in> set lost \<and> unfinished j)
           (\<lambda>j. touched_failed_job now (if jb_created j \<le> now - run_window
              then ''GitHub collection exceeded its resumable run window.''
              else ''Connection is unavailable for collection.'') j) db)"

definition list_due_github_collection_jobs :: "int \<Rightarrow> int \<Rightarrow> job_db \<Rightarrow> (job_db \<times> string list) res" where
  "list_due_github_collection_jobs now limit db =
     (if \<not> (1 \<le> limit \<and> limit \<le> 500) then Inl (ValueError ''collection recovery limit must be between 1 and 500'')
      else let db1 = fail_lost_github now limit db
           in Inr (db1, order_limit (\<lambda>(i, j). (jb_available j, jb_updated j, i)) limit
                (filter (\<lambda>(i, j). due_github now db1 j) (jd_jobs db1))))"

section \<open>Updates without a fence\<close>

text \<open>\<open>connection_collection_status\<close> expires overdue jobs of other kinds before it reads.\<close>

definition poll_collection_status :: "int \<Rightarrow> string \<Rightarrow> string \<Rightarrow> string \<Rightarrow> job_db \<Rightarrow> job_db" where
  "poll_collection_status now tenant conn kind = expire_legacy_jobs now tenant conn kind"

definition set_collection_call_id :: "string \<Rightarrow> string \<Rightarrow> job_db \<Rightarrow> job_db" where
  "set_collection_call_id job call = update_jobs (\<lambda>i j. i = job \<and> unfinished j) (\<lambda>j. j\<lparr>jb_call := Some call\<rparr>)"

definition fail_collection_job :: "int \<Rightarrow> string \<Rightarrow> string \<Rightarrow> job_db \<Rightarrow> job_db" where
  "fail_collection_job now job summary =
     update_jobs (\<lambda>i j. i = job \<and> unfinished j) (failed_job now (take 500 summary))"

definition complete_collection_job :: "int \<Rightarrow> string \<Rightarrow> attrs \<Rightarrow> job_db \<Rightarrow> job_db" where
  "complete_collection_job now job result =
     update_jobs (\<lambda>i j. i = job \<and> jb_state j = JS_RUNNING) (succeeded now result)"

definition failure_recorded :: "int \<Rightarrow> string \<Rightarrow> int \<Rightarrow> job_row \<Rightarrow> job_row" where
  "failure_recorded now summary max_attempts j =
     (let again = jb_attempts j < max_attempts in
      j\<lparr>jb_state := (if again then JS_QUEUED else JS_FAILED), jb_completed := (if again then None else Some now),
        jb_lease := None, jb_error := Some (take 500 summary)\<rparr>)"

text \<open>The answer is whether the job is queued again.\<close>

definition record_collection_failure :: "int \<Rightarrow> string \<Rightarrow> string \<Rightarrow> int \<Rightarrow> job_db \<Rightarrow> job_db \<times> bool" where
  "record_collection_failure now job summary max_attempts db =
     (update_jobs (\<lambda>i j. i = job \<and> jb_state j = JS_RUNNING) (failure_recorded now summary max_attempts) db,
      case map_of (jd_jobs db) job of
        Some j \<Rightarrow> jb_state j = JS_RUNNING \<and> jb_attempts j < max_attempts | None \<Rightarrow> False)"

section \<open>Validation jobs\<close>

definition update_validations :: "(string \<Rightarrow> validation_row \<Rightarrow> bool) \<Rightarrow> (validation_row \<Rightarrow> validation_row) \<Rightarrow> job_db \<Rightarrow> job_db" where
  "update_validations P f db = db\<lparr>jd_validations := update_where P (\<lambda>_. f) (jd_validations db)\<rparr>"

definition validation_unfinished :: "validation_row \<Rightarrow> bool" where
  "validation_unfinished v \<longleftrightarrow> vj_state v \<in> {JS_QUEUED, JS_RUNNING}"

definition validation_claimable :: "int \<Rightarrow> string \<Rightarrow> string \<Rightarrow> validation_row \<Rightarrow> bool" where
  "validation_claimable now job i v \<longleftrightarrow> i = job \<and> (vj_state v = JS_QUEUED \<or>
     vj_state v = JS_RUNNING \<and> (case vj_lease v of Some t \<Rightarrow> t < now | None \<Rightarrow> False))"

definition claimed_validation :: "int \<Rightarrow> int \<Rightarrow> validation_row \<Rightarrow> validation_row" where
  "claimed_validation now lease_seconds v = v\<lparr>vj_state := JS_RUNNING,
     vj_started := (case vj_started v of None \<Rightarrow> Some now | Some t \<Rightarrow> Some t),
     vj_attempts := vj_attempts v + 1, vj_lease := Some (now + seconds lease_seconds)\<rparr>"

definition claim_validation_job :: "int \<Rightarrow> string \<Rightarrow> int \<Rightarrow> job_db \<Rightarrow> job_db \<times> validation_row option" where
  "claim_validation_job now job lease_seconds db =
     (update_validations (validation_claimable now job) (claimed_validation now lease_seconds) db,
      case map_of (jd_validations db) job of
        Some v \<Rightarrow> if validation_claimable now job job v then Some (claimed_validation now lease_seconds v) else None
      | None \<Rightarrow> None)"

definition set_validation_call_id :: "string \<Rightarrow> string \<Rightarrow> job_db \<Rightarrow> job_db" where
  "set_validation_call_id job call =
     update_validations (\<lambda>i v. i = job \<and> validation_unfinished v) (\<lambda>v. v\<lparr>vj_call := Some call\<rparr>)"

definition complete_validation_job :: "int \<Rightarrow> string \<Rightarrow> job_db \<Rightarrow> job_db" where
  "complete_validation_job now job = update_validations (\<lambda>i v. i = job \<and> vj_state v = JS_RUNNING)
     (\<lambda>v. v\<lparr>vj_state := JS_SUCCEEDED, vj_completed := Some now, vj_lease := None, vj_error := None\<rparr>)"

definition fail_validation_job :: "int \<Rightarrow> string \<Rightarrow> string \<Rightarrow> job_db \<Rightarrow> job_db" where
  "fail_validation_job now job summary = update_validations (\<lambda>i v. i = job \<and> validation_unfinished v)
     (\<lambda>v. v\<lparr>vj_state := JS_FAILED, vj_completed := Some now, vj_lease := None, vj_error := Some (take 500 summary)\<rparr>)"

section \<open>Disabling and deleting a connection\<close>

definition connection_busy :: "string \<Rightarrow> string \<Rightarrow> job_db \<Rightarrow> bool" where
  "connection_busy tenant conn db \<longleftrightarrow>
     list_ex (\<lambda>(i, v). vj_tenant v = tenant \<and> vj_connection v = conn \<and> validation_unfinished v) (jd_validations db) \<or>
     list_ex (\<lambda>(i, j). jb_tenant j = tenant \<and> jb_connection j = conn \<and> unfinished j) (jd_jobs db)"

text \<open>The answer is the connection after the update; \<open>None\<close> when it is unknown or busy.\<close>

definition disable_connection :: "string \<Rightarrow> string \<Rightarrow> job_db \<Rightarrow> job_db \<times> connection_row option" where
  "disable_connection tenant conn db =
     (if map_of (jd_connections db) (tenant, conn) = None \<or> connection_busy tenant conn db then (db, None)
      else let db1 = db\<lparr>jd_connections := update_where (\<lambda>k c. k = (tenant, conn))
             (\<lambda>k c. c\<lparr>cn_lifecycle := ''disabled'', cn_health := ''disabled''\<rparr>) (jd_connections db)\<rparr>
           in (db1, map_of (jd_connections db1) (tenant, conn)))"

text \<open>Deleting the row deletes its jobs, by the foreign keys of both job tables.\<close>

definition delete_connection :: "string \<Rightarrow> string \<Rightarrow> job_db \<Rightarrow> job_db \<times> string" where
  "delete_connection tenant conn db = (case map_of (jd_connections db) (tenant, conn) of
     None \<Rightarrow> (db, ''not_found'')
   | Some c \<Rightarrow>
       if cn_lifecycle c \<noteq> ''disabled'' then (db, ''active'')
       else (\<lparr>jd_connections = filter (\<lambda>(k, c). k \<noteq> (tenant, conn)) (jd_connections db),
              jd_jobs = filter (\<lambda>(i, j). (jb_tenant j, jb_connection j) \<noteq> (tenant, conn)) (jd_jobs db),
              jd_validations = filter (\<lambda>(i, v). (vj_tenant v, vj_connection v) \<noteq> (tenant, conn)) (jd_validations db)\<rparr>,
             ''deleted''))"

section \<open>Evidence writes of a claimed worker\<close>

text \<open>A repository bound to a claim checks it in the transaction of every ingest.\<close>

definition for_collection_claim :: "string \<Rightarrow> int \<Rightarrow> (string \<times> int) option res" where
  "for_collection_claim job generation =
     (if generation < 1 then Inl (ValueError ''invalid collection claim generation'') else Inr (Some (job, generation)))"

definition assert_collection_claim :: "int \<Rightarrow> string \<Rightarrow> string \<Rightarrow> (string \<times> int) option \<Rightarrow> job_db \<Rightarrow> unit res" where
  "assert_collection_claim now tenant conn bound db = (case bound of
     None \<Rightarrow> Inr ()
   | Some (job, generation) \<Rightarrow>
       if (case map_of (jd_connections db) (tenant, conn) of
             Some c \<Rightarrow> cn_provider c = ''github'' \<and> cn_lifecycle c = ''active'' | None \<Rightarrow> False) \<and>
          list_ex (\<lambda>(i, j). jb_tenant j = tenant \<and> jb_connection j = conn \<and> current_claim now job generation i j)
            (jd_jobs db)
       then Inr ()
       else Inl (RuntimeError ''collection worker claim is no longer current''))"

definition ingest_claimed ::
    "int \<Rightarrow> string \<Rightarrow> (string \<times> int) option \<Rightarrow> inventory_batch \<Rightarrow> job_db \<Rightarrow> inv_db \<Rightarrow> (inv_db \<times> ingest_result) res" where
  "ingest_claimed now tenant bound b jobs db =
     bind_res (assert_collection_claim now tenant (bh_connection_id b) bound jobs) (\<lambda>_. Inr (ingest tenant b db))"

end
