(* ===== verification/Collection_Machine.thy ===== *)
theory Collection_Machine
  imports Collection_Jobs
begin

text \<open>
  The interface of an operation on the job table, its interpretations by the operations of
  \<open>Collection_Jobs\<close>, and the machine in which any number of workers, callers and pollers interleave. The
  log of the machine holds the claims and the transactions that passed the fence, in their order.
\<close>

declare map_of_eq_Some_iff [simp del]

section \<open>Operations on the job table\<close>

text \<open>A finished job never changes; an unfinished one keeps its queue.\<close>

definition row_evolves :: "job_row \<Rightarrow> job_row \<Rightarrow> bool" where
  "row_evolves j j' \<longleftrightarrow> jb_tenant j' = jb_tenant j \<and> jb_connection j' = jb_connection j \<and> jb_kind j' = jb_kind j \<and>
     jb_created j' = jb_created j \<and> (unfinished j \<or> j' = j)"

lemma row_evolves_refl [simp]: "row_evolves j j"
  by (simp add: row_evolves_def)

lemma row_evolves_unfinished: "row_evolves j j' \<Longrightarrow> unfinished j' \<Longrightarrow> unfinished j"
  by (auto simp: row_evolves_def)

lemma row_evolves_trans: "row_evolves j j' \<Longrightarrow> row_evolves j' j'' \<Longrightarrow> row_evolves j j''"
  by (auto simp: row_evolves_def)

abbreviation job_of :: "job_db \<Rightarrow> string \<Rightarrow> job_row option" where
  "job_of db \<equiv> map_of (jd_jobs db)"

abbreviation keyed :: "job_db \<Rightarrow> bool" where
  "keyed db \<equiv> distinct (map fst (jd_jobs db))"

definition same_queue :: "job_row \<Rightarrow> job_row \<Rightarrow> bool" where
  "same_queue j k \<longleftrightarrow> jb_tenant j = jb_tenant k \<and> jb_connection j = jb_connection k \<and> jb_kind j = jb_kind k"

definition one_active :: "job_db \<Rightarrow> bool" where
  "one_active db \<longleftrightarrow> (\<forall>i k j j'. job_of db i = Some j \<longrightarrow> job_of db k = Some j' \<longrightarrow> unfinished j \<longrightarrow> unfinished j' \<longrightarrow>
     same_queue j j' \<longrightarrow> i = k)"

locale job_operation =
  fixes op :: "job_db \<Rightarrow> job_db"
  assumes from_row: "keyed db \<Longrightarrow> job_of (op db) i = Some j' \<Longrightarrow> \<exists>j. job_of db i = Some j \<and> row_evolves j j'"
    and keeps_keys: "keyed db \<Longrightarrow> keyed (op db)"
begin

lemma keeps_one_active: "keyed db \<Longrightarrow> one_active db \<Longrightarrow> one_active (op db)"
  unfolding one_active_def
proof (intro allI impI)
  fix i k j' l'
  assume *: "keyed db" "job_of (op db) i = Some j'" "job_of (op db) k = Some l'" "unfinished j'" "unfinished l'"
    "same_queue j' l'"
    and inv: "\<forall>i k j j'. job_of db i = Some j \<longrightarrow> job_of db k = Some j' \<longrightarrow> unfinished j \<longrightarrow> unfinished j' \<longrightarrow>
      same_queue j j' \<longrightarrow> i = k"
  obtain j l where "job_of db i = Some j" "row_evolves j j'" "job_of db k = Some l" "row_evolves l l'"
    using from_row [OF *(1,2)] from_row [OF *(1,3)] by blast
  moreover from this have "same_queue j l" using *(6) by (auto simp: row_evolves_def same_queue_def)
  ultimately show "i = k" using inv *(4,5) row_evolves_unfinished by blast
qed

lemma keeps_finished:
  assumes "keyed db" "job_of db i = Some j" "\<not> unfinished j"
  shows "job_of (op db) i = None \<or> job_of (op db) i = Some j"
proof (cases "job_of (op db) i")
  case (Some j')
  then show ?thesis using from_row [OF assms(1) Some] assms(2,3) by (auto simp: row_evolves_def)
qed simp

end

text \<open>Every operation but a claim leaves the generation of a job alone.\<close>

locale job_update = job_operation +
  assumes same_attempts: "keyed db \<Longrightarrow> job_of (op db) i = Some j' \<Longrightarrow> job_of db i = Some j \<Longrightarrow> jb_attempts j' = jb_attempts j"

lemma update_jobs_operation:
  assumes "\<And>i j. P i j \<Longrightarrow> row_evolves j (f j)"
  shows "job_operation (update_jobs P f)"
  by unfold_locales (use assms in \<open>auto simp: update_jobs_def table_simps split: if_splits\<close>)

lemma job_updateI:
  assumes "\<And>db i j'. keyed db \<Longrightarrow> job_of (op db) i = Some j' \<Longrightarrow>
      \<exists>j. job_of db i = Some j \<and> row_evolves j j' \<and> jb_attempts j' = jb_attempts j"
    and "\<And>db. keyed db \<Longrightarrow> keyed (op db)"
  shows "job_update op"
  by unfold_locales (use assms in \<open>blast, blast, fastforce\<close>)

lemma update_jobs_update:
  assumes "\<And>i j. P i j \<Longrightarrow> row_evolves j (f j) \<and> jb_attempts (f j) = jb_attempts j"
  shows "job_update (update_jobs P f)"
  by (rule job_updateI) (use assms in \<open>auto simp: update_jobs_def table_simps split: if_splits\<close>)

lemma job_update_rows:
  assumes "job_update op" "keyed db" "job_of (op db) i = Some j'"
  shows "\<exists>j. job_of db i = Some j \<and> row_evolves j j' \<and> jb_attempts j' = jb_attempts j"
  using job_operation.from_row [OF job_update.axioms(1)] job_update.same_attempts assms by blast

lemma job_update_comp:
  assumes f: "job_update f" and g: "job_update g"
  shows "job_update (\<lambda>db. g (f db))"
proof (rule job_updateI)
  fix db i j'
  assume db: "keyed db" and j': "job_of (g (f db)) i = Some j'"
  have "keyed (f db)" using f db job_operation.keeps_keys job_update.axioms(1) by blast
  then show "\<exists>j. job_of db i = Some j \<and> row_evolves j j' \<and> jb_attempts j' = jb_attempts j"
    using job_update_rows [OF g _ j'] job_update_rows [OF f db] row_evolves_trans by fastforce
next
  show "keyed (g (f db))" if "keyed db" for db
    using that f g job_operation.keeps_keys job_update.axioms(1) by blast
qed

text \<open>An update that depends on the table it updates.\<close>

lemma job_update_by:
  assumes "\<And>x. job_update (op x)"
  shows "job_update (\<lambda>db. op (h db) db)"
proof (rule job_updateI)
  fix db i j'
  show "\<exists>j. job_of db i = Some j \<and> row_evolves j j' \<and> jb_attempts j' = jb_attempts j"
    if "keyed db" "job_of (op (h db) db) i = Some j'"
    using that job_update_rows [OF assms] by blast
  show "keyed (op (h db) db)" if "keyed db"
    using that assms job_operation.keeps_keys job_update.axioms(1) by blast
qed

lemma job_update_same_jobs: "(\<And>db. jd_jobs (op db) = jd_jobs db) \<Longrightarrow> job_update op"
  by (rule job_updateI) auto

section \<open>The operations of the model\<close>

lemma finished_update [simp]:
  "row_evolves j (failed_job now s j) \<longleftrightarrow> unfinished j \<or> failed_job now s j = j"
  "row_evolves j (touched_failed_job now s j) \<longleftrightarrow> unfinished j \<or> touched_failed_job now s j = j"
  by (simp_all add: row_evolves_def failed_job_def touched_failed_job_def)

lemma finished_attempts [simp]:
  "jb_attempts (failed_job now s j) = jb_attempts j" "jb_attempts (touched_failed_job now s j) = jb_attempts j"
  by (simp_all add: failed_job_def touched_failed_job_def)

lemma running_unfinished [intro]: "jb_state j = JS_RUNNING \<Longrightarrow> unfinished j" "jb_state j = JS_QUEUED \<Longrightarrow> unfinished j"
  by (simp_all add: unfinished_def)

interpretation fail_op: job_update "fail_collection_job now job summary" for now job summary
  unfolding fail_collection_job_def by (rule update_jobs_update) simp

interpretation call_id_op: job_update "set_collection_call_id job call" for job call
  unfolding set_collection_call_id_def by (rule update_jobs_update) (simp add: row_evolves_def)

interpretation complete_op: job_update "complete_collection_job now job result" for now job result
  unfolding complete_collection_job_def by (rule update_jobs_update) (auto simp: row_evolves_def succeeded_def)

interpretation failure_op: job_update "\<lambda>db. fst (record_collection_failure now job summary n db)" for now job summary n
  unfolding record_collection_failure_def fst_conv
  by (rule update_jobs_update) (auto simp: row_evolves_def failure_recorded_def Let_def)

interpretation poll_op: job_update "poll_collection_status now tenant conn kind" for now tenant conn kind
  unfolding poll_collection_status_def expire_legacy_jobs_def
  by (rule update_jobs_update) auto

interpretation validation_op: job_update "update_validations P f" for P f
  by (rule job_update_same_jobs) (simp add: update_validations_def)

interpretation lost_op: job_update "fail_lost_github now limit" for now limit
  unfolding fail_lost_github_def Let_def
  by (rule job_update_by [where op = "\<lambda>lost. update_jobs (\<lambda>i j. i \<in> set lost \<and> unfinished j) (f :: job_row \<Rightarrow> job_row)" for f])
    (rule update_jobs_update, simp)

interpretation disable_op: job_update "\<lambda>db. fst (disable_connection tenant conn db)" for tenant conn
  by (rule job_update_same_jobs) (simp add: disable_connection_def Let_def)

lemma map_of_filter_rows:
  "distinct (map fst t) \<Longrightarrow> map_of (filter P t) k = Some r \<Longrightarrow> map_of t k = Some r"
  by (simp add: map_of_eq_Some_iff distinct_map_filter)

lemma distinct_filter_rows [simp]: "distinct (map fst t) \<Longrightarrow> distinct (map fst (filter P t))"
  by (rule distinct_map_filter)

interpretation delete_op: job_update "\<lambda>db. fst (delete_connection tenant conn db)" for tenant conn
proof (rule job_updateI)
  fix db i j'
  show "\<exists>j. job_of db i = Some j \<and> row_evolves j j' \<and> jb_attempts j' = jb_attempts j"
    if "keyed db" "job_of (fst (delete_connection tenant conn db)) i = Some j'"
    using that by (auto simp: delete_connection_def dest: map_of_filter_rows split: option.splits if_splits)
  show "keyed (fst (delete_connection tenant conn db))" if "keyed db"
    using that by (simp add: delete_connection_def split: option.splits)
qed

interpretation stale_op: job_update "fail_stale_github now c job" for now c job
proof -
  let ?a = "update_jobs (\<lambda>i j. i = job \<and> jb_kind j = github_kind \<and> unfinished j \<and> jb_created j \<le> now - run_window)
            (touched_failed_job now ''GitHub collection exceeded its resumable run window.'')"
  let ?b = "update_jobs (\<lambda>i j. i = job \<and> jb_kind j = github_kind \<and> unfinished j)
              (touched_failed_job now ''Connection is unavailable for collection.'')"
  let ?c = "update_jobs (\<lambda>i j. i = job \<and> jb_kind j = github_kind \<and> jb_state j = JS_RUNNING \<and> lease_over now j \<and> 2 \<le> jb_retries j)
           (\<lambda>j. (touched_failed_job now ''Collection worker lease repeatedly expired.'' j)\<lparr>jb_retries := jb_retries j + 1\<rparr>)"
  have a: "job_update ?a" by (rule update_jobs_update) simp
  have b: "job_update ?b" by (rule update_jobs_update) simp
  have c: "job_update ?c"
    by (rule update_jobs_update) (auto simp: row_evolves_def touched_failed_job_def failed_job_def)
  have "fail_stale_github now c job = (if cn_lifecycle c \<noteq> ''active'' then (\<lambda>db. ?c (?b (?a db))) else (\<lambda>db. ?c (?a db)))"
    by (simp add: fail_stale_github_def Let_def fun_eq_iff)
  moreover have "job_update (\<lambda>db. ?c (?a db))" by (rule job_update_comp [OF a c])
  moreover have "job_update (\<lambda>db. ?c (?b (?a db)))" by (rule job_update_comp [OF job_update_comp [OF a b] c])
  ultimately show "job_update (fail_stale_github now c job)" by presburger
qed

section \<open>The updates of a claimed worker\<close>

datatype resumable_call = Save attrs | Defer attrs attrs int | Finish_Job attrs | Retry string int int

fun run_resumable :: "(pyfloat \<Rightarrow> string) \<Rightarrow> int \<Rightarrow> string \<Rightarrow> int \<Rightarrow> resumable_call \<Rightarrow> job_db \<Rightarrow> (job_db \<times> job_state option) res" where
  "run_resumable fl now job g (Save checkpoint) db = save_collection_checkpoint fl now job g checkpoint db"
| "run_resumable fl now job g (Defer checkpoint result delay) db = defer_collection_job fl now job g checkpoint result delay db"
| "run_resumable fl now job g (Finish_Job result) db = complete_resumable_job fl now job g result db"
| "run_resumable fl now job g (Retry summary n delay) db = retry_resumable_job now job g summary n delay db"

definition committed :: "job_db \<Rightarrow> (job_db \<times> 'a) res \<Rightarrow> job_db" where
  "committed db r = (case r of Inl e \<Rightarrow> db | Inr (db', a) \<Rightarrow> db')"

definition assignments_of :: "int \<Rightarrow> resumable_call \<Rightarrow> job_db \<Rightarrow> job_row \<Rightarrow> job_row" where
  "assignments_of now call db = (case call of Save c \<Rightarrow> checkpoint_saved db c | Defer c r d \<Rightarrow> deferred now c r d
     | Finish_Job r \<Rightarrow> succeeded now r | Retry s n d \<Rightarrow> retried now s n d)"

lemma assignments_keep:
  "jb_attempts (assignments_of now call db j) = jb_attempts j"
  "unfinished j \<Longrightarrow> row_evolves j ((assignments_of now call db j)\<lparr>jb_updated := now\<rparr>)"
  by (cases call; simp add: assignments_of_def checkpoint_saved_def deferred_def succeeded_def retried_def Let_def row_evolves_def)+

text \<open>Either nothing happens, or the claim is current and its row alone is updated.\<close>

lemma run_resumable_Inr:
  assumes "run_resumable fl now job g call db = Inr (db', out)"
  shows "db' = db \<and> out = None \<or>
    1 \<le> g \<and> (\<exists>j. job_of db job = Some j \<and> active_github db j \<and> current_claim now job g job j) \<and>
    db' = update_jobs (current_claim now job g) (\<lambda>j. (assignments_of now call db j)\<lparr>jb_updated := now\<rparr>) db"
proof -
  have "update_resumable now job g (assignments_of now call db) db = Inr (db', out)"
    using assms by (cases call) (auto simp: save_collection_checkpoint_def defer_collection_job_def
        complete_resumable_job_def retry_resumable_job_def assignments_of_def bind_res_Inr split: if_splits)
  then show ?thesis by (auto simp: update_resumable_def Let_def split: if_splits option.splits)
qed

interpretation resumable_op: job_update "\<lambda>db. committed db (run_resumable fl now job g call db)" for fl now job g call
proof -
  have *: "committed db (run_resumable fl now job g call db) = db \<or> committed db (run_resumable fl now job g call db) =
      update_jobs (current_claim now job g) (\<lambda>j. (assignments_of now call db j)\<lparr>jb_updated := now\<rparr>) db" for db
    by (auto simp: committed_def dest!: run_resumable_Inr split: sum.split)
  have up: "job_update (update_jobs (current_claim now job g) (\<lambda>j. (assignments_of now call db j)\<lparr>jb_updated := now\<rparr>))" for db
    by (rule update_jobs_update) (auto simp: current_claim_def assignments_keep running_unfinished)
  show "job_update (\<lambda>db. committed db (run_resumable fl now job g call db))"
  proof (rule job_updateI)
    fix db i j'
    assume "keyed db" "job_of (committed db (run_resumable fl now job g call db)) i = Some j'"
    then show "\<exists>j. job_of db i = Some j \<and> row_evolves j j' \<and> jb_attempts j' = jb_attempts j"
      using * [of db] job_update_rows [OF up] by (metis row_evolves_refl)
  next
    fix db
    assume "keyed db"
    then show "keyed (committed db (run_resumable fl now job g call db))"
      using * [of db] job_operation.keeps_keys [OF job_update.axioms(1) [OF up]] by metis
  qed
qed

section \<open>Claims\<close>

lemma claimed_unfinished: "claimable now c job i j \<Longrightarrow> unfinished j"
  by (auto simp: claimable_def)

lemma claim_rows: "job_operation (update_jobs (claimable now c job) (claimed_job now lease))"
  by (rule update_jobs_operation) (simp add: row_evolves_def claimed_unfinished claimed_job_def)

lemma claim_lookup:
  "job_of (update_jobs (claimable now c job) (claimed_job now lease) db) i =
     (if i = job then map_option (\<lambda>j. if claimable now c job job j then claimed_job now lease j else j) (job_of db job)
      else job_of db i)"
  by (auto simp: update_jobs_def table_simps claimable_def option.map_ident)

text \<open>A claim that returns a row is an update of that row after the terminal transitions; another one is not a claim.\<close>

lemma claim_cases:
  assumes "claim_collection_job now job lease db = Inr (db', out)"
  obtains (Same) "db' = db" "out = None"
    | (Foreign) s where "out = None"
        "db' = update_jobs (\<lambda>i j. i = job \<and> jb_kind j = github_kind \<and> unfinished j) (touched_failed_job now s) db"
    | (Claim) c where "db' = update_jobs (claimable now c job) (claimed_job now lease) (fail_stale_github now c job db)"
        "out = (case job_of (fail_stale_github now c job db) job of
           Some j \<Rightarrow> if claimable now c job job j then Some (claimed_job now lease j) else None | None \<Rightarrow> None)"
proof -
  have "db' = db \<and> out = None \<or>
     out = None \<and> (\<exists>s. db' = update_jobs (\<lambda>i j. i = job \<and> jb_kind j = github_kind \<and> unfinished j) (touched_failed_job now s) db) \<or>
     (\<exists>c. db' = update_jobs (claimable now c job) (claimed_job now lease) (fail_stale_github now c job db) \<and>
       out = (case job_of (fail_stale_github now c job db) job of
         Some j \<Rightarrow> if claimable now c job job j then Some (claimed_job now lease j) else None | None \<Rightarrow> None))"
    using assms by (auto simp: claim_collection_job_def Let_def claim_lookup split: if_splits option.splits)
  then show thesis using that by blast
qed

lemma foreign_update:
  "job_update (update_jobs (\<lambda>i j. i = job \<and> jb_kind j = github_kind \<and> unfinished j) (touched_failed_job now s))"
  by (rule update_jobs_update) simp

lemma claim_result:
  assumes "keyed db" "claim_collection_job now job lease db = Inr (db', out)"
  shows "keyed db' \<and> (\<forall>i j'. job_of db' i = Some j' \<longrightarrow>
    (\<exists>j. job_of db i = Some j \<and> row_evolves j j' \<and>
      jb_attempts j' = jb_attempts j + (if i = job \<and> out \<noteq> None then 1 else 0)))"
  using assms(2)
proof (cases rule: claim_cases)
  case (Foreign s)
  then show ?thesis
    using assms(1) job_update_rows [OF foreign_update] job_operation.keeps_keys [OF job_update.axioms(1) [OF foreign_update]]
    by simp
next
  case (Claim c)
  let ?db = "fail_stale_github now c job db"
  have keyed: "keyed ?db" using assms(1) by (rule stale_op.keeps_keys)
  have "\<exists>j. job_of db i = Some j \<and> row_evolves j j' \<and>
      jb_attempts j' = jb_attempts j + (if i = job \<and> out \<noteq> None then 1 else 0)" if j': "job_of db' i = Some j'" for i j'
  proof -
    obtain k where k: "job_of ?db i = Some k" "row_evolves k j'"
      using job_operation.from_row [OF claim_rows keyed] j' unfolding Claim(1) by blast
    obtain j where j: "job_of db i = Some j" "row_evolves j k" "jb_attempts k = jb_attempts j"
      using job_update_rows [OF stale_op.job_update_axioms assms(1) k(1)] by blast
    have "jb_attempts j' = jb_attempts k + (if i = job \<and> out \<noteq> None then 1 else 0)"
      using j' k(1) unfolding Claim claim_lookup by (auto simp: claimed_job_def split: if_splits)
    then show ?thesis using j k(2) row_evolves_trans by auto
  qed
  then show ?thesis using job_operation.keeps_keys [OF claim_rows keyed] unfolding Claim(1) by blast
qed (use assms(1) in auto)

lemma claim_returns:
  assumes "claim_collection_job now job lease db = Inr (db', Some j)"
  shows "job_of db' job = Some j"
  using assms by (cases rule: claim_cases) (auto simp: claim_lookup split: option.splits if_splits)

interpretation claim_op: job_operation "\<lambda>db. committed db (claim_collection_job now job lease db)" for now job lease
proof (unfold_locales, goal_cases)
  case (1 db i j')
  show ?case
  proof (cases "claim_collection_job now job lease db")
    case (Inr r)
    then show ?thesis using 1 claim_result [OF 1(1), of now job lease "fst r" "snd r"]
      by (simp add: committed_def case_prod_beta) blast
  qed (use 1 in \<open>simp add: committed_def\<close>)
next
  case (2 db)
  then show ?case by (cases "claim_collection_job now job lease db") (auto simp: committed_def dest!: claim_result [OF 2])
qed

section \<open>Creation\<close>

lemma create_cases:
  assumes "create_collection_job fl str_of now new_id tenant conn kind retry retry_of db = Inr (db', (i, j), made)"
  obtains (Found) "\<not> made" "db' = db \<or> db' = expire_legacy_jobs now tenant conn kind db"
    | (Made) cp r where "made" "i = new_id" "j = new_job now tenant conn kind cp r"
        "active_jobs tenant conn kind (expire_legacy_jobs now tenant conn kind db) = []"
        "db' = (expire_legacy_jobs now tenant conn kind db)
           \<lparr>jd_jobs := jd_jobs (expire_legacy_jobs now tenant conn kind db) @ [(new_id, j)]\<rparr>"
proof -
  let ?db = "expire_legacy_jobs now tenant conn kind db"
  have "\<not> made \<and> (db' = db \<or> db' = ?db) \<or> (\<exists>cp r. made \<and> i = new_id \<and> j = new_job now tenant conn kind cp r \<and>
      active_jobs tenant conn kind ?db = [] \<and> db' = ?db\<lparr>jd_jobs := jd_jobs ?db @ [(new_id, j)]\<rparr>)"
    using assms unfolding create_collection_job_def
    by (simp add: bind_res_Inr Let_def split: if_split_asm option.split_asm prod.split_asm) blast+
  then show thesis using that by blast
qed

section \<open>The machine\<close>

text \<open>The calls that neither claim nor pass a fence, and any change to the connections by other code.\<close>

datatype other_call =
    Fail_Call string string
  | Call_Id_Call string string
  | Complete_Call string attrs
  | Failure_Call string string int
  | Poll_Call string string string
  | Recover_Call int
  | Disable_Call string string
  | Delete_Call string string
  | Validation_Call "string \<Rightarrow> validation_row \<Rightarrow> bool" "validation_row \<Rightarrow> validation_row"
  | Connections_Call "(string \<times> string, connection_row) table"

fun run_other :: "int \<Rightarrow> other_call \<Rightarrow> job_db \<Rightarrow> job_db" where
  "run_other now (Fail_Call job summary) db = fail_collection_job now job summary db"
| "run_other now (Call_Id_Call job call) db = set_collection_call_id job call db"
| "run_other now (Complete_Call job result) db = complete_collection_job now job result db"
| "run_other now (Failure_Call job summary n) db = fst (record_collection_failure now job summary n db)"
| "run_other now (Poll_Call tenant conn kind) db = poll_collection_status now tenant conn kind db"
| "run_other now (Recover_Call limit) db = committed db (list_due_github_collection_jobs now limit db)"
| "run_other now (Disable_Call tenant conn) db = fst (disable_connection tenant conn db)"
| "run_other now (Delete_Call tenant conn) db = fst (delete_connection tenant conn db)"
| "run_other now (Validation_Call P f) db = update_validations P f db"
| "run_other now (Connections_Call t) db = db\<lparr>jd_connections := t\<rparr>"

lemma run_other_calls:
  "run_other now (Fail_Call job summary) = fail_collection_job now job summary"
  "run_other now (Call_Id_Call job c) = set_collection_call_id job c"
  "run_other now (Complete_Call job result) = complete_collection_job now job result"
  "run_other now (Failure_Call job summary n) = (\<lambda>db. fst (record_collection_failure now job summary n db))"
  "run_other now (Poll_Call tenant conn kind) = poll_collection_status now tenant conn kind"
  "run_other now (Disable_Call tenant conn) = (\<lambda>db. fst (disable_connection tenant conn db))"
  "run_other now (Delete_Call tenant conn) = (\<lambda>db. fst (delete_connection tenant conn db))"
  "run_other now (Validation_Call P f) = update_validations P f"
  by (simp_all add: fun_eq_iff)

interpretation other_op: job_update "run_other now call" for now call
proof (cases call)
  case (Recover_Call limit)
  then have "run_other now call = (if 1 \<le> limit \<and> limit \<le> 500 then fail_lost_github now limit else id)"
    by (auto simp: fun_eq_iff committed_def list_due_github_collection_jobs_def Let_def)
  moreover have "job_update id" by (rule job_update_same_jobs) simp
  ultimately show "job_update (run_other now call)" by (simp add: lost_op.job_update_axioms)
next
  case (Connections_Call t)
  then show "job_update (run_other now call)" by (intro job_update_same_jobs) simp
qed (simp_all add: run_other_calls fail_op.job_update_axioms call_id_op.job_update_axioms complete_op.job_update_axioms
  failure_op.job_update_axioms poll_op.job_update_axioms disable_op.job_update_axioms delete_op.job_update_axioms
  validation_op.job_update_axioms)

datatype job_event = Claimed string int | Fenced string int

text \<open>
  \<open>co_ids\<close> are the generated ids used so far. Of an ingest of findings only the fence in front of it concerns
  the machine.
\<close>

record collector =
  co_jobs :: job_db
  co_inv :: inv_db
  co_ids :: "string list"
  co_log :: "job_event list"

inductive co_step :: "collector \<Rightarrow> collector \<Rightarrow> bool" where
  Create: "create_collection_job fl str_of now i tenant conn kind retry retry_of (co_jobs c) = Inr (db', r, made) \<Longrightarrow>
    i \<notin> set (co_ids c) \<Longrightarrow> co_step c (c\<lparr>co_jobs := db', co_ids := i # co_ids c\<rparr>)"
| Claim: "claim_collection_job now job lease (co_jobs c) = Inr (db', Some j) \<Longrightarrow>
    co_step c (c\<lparr>co_jobs := db', co_log := co_log c @ [Claimed job (jb_attempts j)]\<rparr>)"
| No_Claim: "claim_collection_job now job lease (co_jobs c) = Inr (db', None) \<Longrightarrow>
    co_step c (c\<lparr>co_jobs := db'\<rparr>)"
| Update: "run_resumable fl now job g call (co_jobs c) = Inr (db', Some st) \<Longrightarrow>
    co_step c (c\<lparr>co_jobs := db', co_log := co_log c @ [Fenced job g]\<rparr>)"
| No_Update: "run_resumable fl now job g call (co_jobs c) = Inr (db', None) \<Longrightarrow>
    co_step c (c\<lparr>co_jobs := db'\<rparr>)"
| Evidence: "for_collection_claim job g = Inr cl \<Longrightarrow>
    ingest_claimed now tenant cl b (co_jobs c) (co_inv c) = Inr (inv', r) \<Longrightarrow>
    co_step c (c\<lparr>co_inv := inv', co_log := co_log c @ [Fenced job g]\<rparr>)"
| Findings: "for_collection_claim job g = Inr cl \<Longrightarrow>
    assert_collection_claim now tenant conn cl (co_jobs c) = Inr () \<Longrightarrow>
    co_step c (c\<lparr>co_log := co_log c @ [Fenced job g]\<rparr>)"
| Other: "co_step c (c\<lparr>co_jobs := run_other now call (co_jobs c)\<rparr>)"

abbreviation co_steps :: "collector \<Rightarrow> collector \<Rightarrow> bool" where
  "co_steps \<equiv> co_step\<^sup>*\<^sup>*"

definition co_init :: "inv_db \<Rightarrow> collector" where
  "co_init ev = \<lparr>co_jobs = \<lparr>jd_connections = [], jd_jobs = [], jd_validations = []\<rparr>, co_inv = ev, co_ids = [], co_log = []\<rparr>"

section \<open>Invariants\<close>

text \<open>The generations of the claims of a job, in order.\<close>

definition claims_of :: "string \<Rightarrow> job_event list \<Rightarrow> int list" where
  "claims_of job = List.map_filter (\<lambda>e. case e of Claimed i g \<Rightarrow> if i = job then Some g else None | Fenced i g \<Rightarrow> None)"

lemma claims_of_append [simp]:
  "claims_of job [] = []" "claims_of job (xs @ ys) = claims_of job xs @ claims_of job ys"
  "claims_of job [Claimed i g] = (if i = job then [g] else [])" "claims_of job [Fenced i g] = []"
  by (simp_all add: claims_of_def List.map_filter_def)

definition co_keyed :: "collector \<Rightarrow> bool" where
  "co_keyed c \<longleftrightarrow> keyed (co_jobs c) \<and> fst ` set (jd_jobs (co_jobs c)) \<subseteq> set (co_ids c)"

text \<open>A job in the table has been claimed as often as its row counts; an id not used yet has no claims.\<close>

definition co_counted :: "collector \<Rightarrow> bool" where
  "co_counted c \<longleftrightarrow>
     (\<forall>i j. job_of (co_jobs c) i = Some j \<longrightarrow> 0 \<le> jb_attempts j \<and> claims_of i (co_log c) = [1..jb_attempts j]) \<and>
     (\<forall>i. i \<notin> set (co_ids c) \<longrightarrow> claims_of i (co_log c) = [])"

definition co_fenced :: "collector \<Rightarrow> bool" where
  "co_fenced c \<longleftrightarrow> (\<forall>xs ys job g. co_log c = xs @ Fenced job g # ys \<longrightarrow> 1 \<le> g \<and> claims_of job xs = [1..g])"

text \<open>What a step does to the rows: the effect of every step but the two that create or claim.\<close>

definition rows_kept :: "job_db \<Rightarrow> job_db \<Rightarrow> bool" where
  "rows_kept db db' \<longleftrightarrow> keyed db' \<and> (\<forall>i j'. job_of db' i = Some j' \<longrightarrow>
     (\<exists>j. job_of db i = Some j \<and> row_evolves j j' \<and> jb_attempts j' = jb_attempts j))"

lemma rows_kept_refl: "keyed db \<Longrightarrow> rows_kept db db"
  by (auto simp: rows_kept_def)

lemma job_update_kept: "job_update op \<Longrightarrow> keyed db \<Longrightarrow> rows_kept db (op db)"
  unfolding rows_kept_def using job_update_rows job_operation.keeps_keys [OF job_update.axioms(1)] by blast

lemma claim_nothing_kept:
  assumes "claim_collection_job now job lease db = Inr (db', None)" "keyed db"
  shows "rows_kept db db'"
  using claim_result [OF assms(2,1)] unfolding rows_kept_def by simp

lemma run_resumable_kept:
  assumes "run_resumable fl now job g call db = Inr (db', out)" "keyed db"
  shows "rows_kept db db'"
  using job_update_kept [OF resumable_op.job_update_axioms assms(2), of fl now job g call] assms(1)
  by (simp add: committed_def)

text \<open>A step that creates: the new row is queued, unclaimed, and the only active one of its queue.\<close>

lemma create_kept:
  assumes "create_collection_job fl str_of now i tenant conn kind retry retry_of db = Inr (db', r, made)"
    and "keyed db" "i \<notin> fst ` set (jd_jobs db)"
  shows "rows_kept db db' \<or> (\<exists>db1 cp d. rows_kept db db1 \<and> i \<notin> fst ` set (jd_jobs db1) \<and> active_jobs tenant conn kind db1 = [] \<and>
    jd_jobs db' = jd_jobs db1 @ [(i, new_job now tenant conn kind cp d)])"
proof -
  obtain i' j' where r: "r = (i', j')" by (cases r)
  have poll: "rows_kept db (expire_legacy_jobs now tenant conn kind db)"
    using job_update_kept [OF poll_op.job_update_axioms assms(2)] unfolding poll_collection_status_def .
  show ?thesis
    using assms(1) unfolding r
  proof (cases rule: create_cases)
    case Found
    then show ?thesis using poll rows_kept_refl [OF assms(2)] by auto
  next
    case (Made cp d)
    have "map fst (jd_jobs (expire_legacy_jobs now tenant conn kind db)) = map fst (jd_jobs db)"
      by (simp add: expire_legacy_jobs_def update_jobs_def)
    then have "i \<notin> fst ` set (jd_jobs (expire_legacy_jobs now tenant conn kind db))"
      using assms(3) by (metis list.set_map)
    then show ?thesis using poll Made by auto
  qed
qed

lemma unknown_job: "i \<notin> fst ` set (jd_jobs db) \<longleftrightarrow> job_of db i = None"
  by (simp add: map_of_eq_None_iff)

subsection \<open>Keys\<close>

definition jobs_of :: "job_db \<Rightarrow> string set" where
  "jobs_of db = {i. job_of db i \<noteq> None}"

lemma co_keyed_alt: "co_keyed c \<longleftrightarrow> keyed (co_jobs c) \<and> jobs_of (co_jobs c) \<subseteq> set (co_ids c)"
  by (auto simp: co_keyed_def jobs_of_def map_of_eq_None_iff)

lemma rows_kept_jobs: "rows_kept db db' \<Longrightarrow> keyed db' \<and> jobs_of db' \<subseteq> jobs_of db"
  unfolding rows_kept_def jobs_of_def by blast

lemma claim_jobs:
  "keyed db \<Longrightarrow> claim_collection_job now job lease db = Inr (db', out) \<Longrightarrow> keyed db' \<and> jobs_of db' \<subseteq> jobs_of db"
  using claim_result unfolding jobs_of_def by blast

lemma co_step_keyed:
  assumes "co_step c c'" "co_keyed c"
  shows "co_keyed c'"
  using assms
proof (induction rule: co_step.induct)
  case (Create fl str_of now i tenant conn kind retry retry_of c db' r made)
  have "i \<notin> fst ` set (jd_jobs (co_jobs c))" using Create(2,3) by (auto simp: co_keyed_def)
  then consider "rows_kept (co_jobs c) db'"
    | db1 j where "rows_kept (co_jobs c) db1" "i \<notin> fst ` set (jd_jobs db1)" "jd_jobs db' = jd_jobs db1 @ [(i, j)]"
    using create_kept [OF Create(1)] Create(3) by (auto simp: co_keyed_def)
  then show ?case
  proof cases
    case 1
    then show ?thesis using rows_kept_jobs Create(3) by (fastforce simp: co_keyed_alt)
  next
    case 2
    then have "jobs_of db' \<subseteq> insert i (jobs_of db1)" by (auto simp: jobs_of_def map_add_def split: if_splits option.splits)
    moreover have "keyed db'" using 2 rows_kept_jobs by auto
    ultimately show ?thesis using rows_kept_jobs [OF 2(1)] Create(3) by (auto simp: co_keyed_alt)
  qed
next
  case (Claim now job lease c db' j)
  then show ?case using claim_jobs [of "co_jobs c"] by (fastforce simp: co_keyed_alt)
next
  case (No_Claim now job lease c db')
  then show ?case using rows_kept_jobs [OF claim_nothing_kept] by (fastforce simp: co_keyed_alt)
next
  case (Update fl now job g call c db' st)
  then show ?case using rows_kept_jobs [OF run_resumable_kept] by (fastforce simp: co_keyed_alt)
next
  case (No_Update fl now job g call c db')
  then show ?case using rows_kept_jobs [OF run_resumable_kept] by (fastforce simp: co_keyed_alt)
next
  case (Other c now call)
  then show ?case using rows_kept_jobs [OF job_update_kept [OF other_op.job_update_axioms]] by (fastforce simp: co_keyed_alt)
qed (simp_all add: co_keyed_def)

subsection \<open>Generations\<close>

lemma rows_kept_counted:
  assumes "rows_kept (co_jobs c) db'" "co_counted c" "set (co_ids c) \<subseteq> set ids"
    "\<And>i. claims_of i evs = claims_of i (co_log c)"
  shows "co_counted (c\<lparr>co_jobs := db', co_ids := ids, co_log := evs\<rparr>)"
proof -
  have "0 \<le> jb_attempts j' \<and> claims_of i evs = [1..jb_attempts j']" if j': "job_of db' i = Some j'" for i j'
  proof -
    obtain j where "job_of (co_jobs c) i = Some j" "jb_attempts j' = jb_attempts j"
      using assms(1) j' unfolding rows_kept_def by blast
    then show ?thesis using assms(2,4) unfolding co_counted_def by simp
  qed
  moreover have "claims_of i evs = []" if "i \<notin> set ids" for i
    using assms(2-4) that unfolding co_counted_def by auto
  ultimately show ?thesis by (simp add: co_counted_def)
qed

lemma co_step_counted:
  assumes "co_step c c'" "co_keyed c" "co_counted c"
  shows "co_counted c'"
  using assms
proof (induction rule: co_step.induct)
  case (Create fl str_of now i tenant conn kind retry retry_of c db' r made)
  have new: "i \<notin> fst ` set (jd_jobs (co_jobs c))" "claims_of i (co_log c) = []"
    using Create(2-4) by (auto simp: co_keyed_def co_counted_def)
  then consider "rows_kept (co_jobs c) db'"
    | db1 cp d where "rows_kept (co_jobs c) db1" "i \<notin> fst ` set (jd_jobs db1)"
      "jd_jobs db' = jd_jobs db1 @ [(i, new_job now tenant conn kind cp d)]"
    using create_kept [OF Create(1)] Create(3) by (auto simp: co_keyed_def)
  then show ?case
  proof cases
    case 1
    then show ?thesis using rows_kept_counted [OF 1 Create(4), of "i # co_ids c" "co_log c"] by auto
  next
    case 2
    have kept: "co_counted (c\<lparr>co_jobs := db1, co_ids := i # co_ids c, co_log := co_log c\<rparr>)"
      using rows_kept_counted [OF 2(1) Create(4), of "i # co_ids c" "co_log c"] by auto
    have "job_of db' k = Some j \<Longrightarrow> job_of db1 k = Some j \<or> k = i \<and> jb_attempts j = 0" for k j
      using 2(2,3) by (auto simp: map_add_def new_job_def split: option.splits if_splits)
    then show ?thesis using kept new(2) unfolding co_counted_def by fastforce
  qed
next
  case (Claim now job lease c db' j)
  have keyed: "keyed (co_jobs c)" using Claim(2) by (simp add: co_keyed_def)
  have out: "job_of db' job = Some j" using Claim(1) by (rule claim_returns)
  have rows: "\<exists>k. job_of (co_jobs c) i = Some k \<and> jb_attempts k' = jb_attempts k + (if i = job then 1 else 0)"
    if k': "job_of db' i = Some k'" for i k'
  proof -
    obtain k where "job_of (co_jobs c) i = Some k"
      "jb_attempts k' = jb_attempts k + (if i = job \<and> Some j \<noteq> None then 1 else 0)"
      using claim_result [OF keyed Claim(1)] k' by blast
    then show ?thesis by auto
  qed
  have "0 \<le> jb_attempts k' \<and> claims_of i (co_log c @ [Claimed job (jb_attempts j)]) = [1..jb_attempts k']"
    if k': "job_of db' i = Some k'" for i k'
  proof -
    obtain k where k: "job_of (co_jobs c) i = Some k" "jb_attempts k' = jb_attempts k + (if i = job then 1 else 0)"
      using rows [OF k'] by blast
    then have "0 \<le> jb_attempts k" "claims_of i (co_log c) = [1..jb_attempts k]"
      using Claim(3) by (auto simp: co_counted_def)
    then show ?thesis using k' out k by (auto simp: upto_rec2)
  qed
  moreover have "claims_of i (co_log c @ [Claimed job (jb_attempts j)]) = []" if "i \<notin> set (co_ids c)" for i
  proof -
    obtain k where "job_of (co_jobs c) job = Some k" using rows [OF out] by blast
    then have "job \<in> set (co_ids c)" using Claim(2) by (auto simp: co_keyed_alt jobs_of_def)
    then show ?thesis using Claim(3) that by (auto simp: co_counted_def)
  qed
  ultimately show ?case by (simp add: co_counted_def)
next
  case (No_Claim now job lease c db')
  then show ?case using rows_kept_counted [OF claim_nothing_kept [OF No_Claim(1)], of "co_ids c" "co_log c"]
    by (simp add: co_keyed_def)
next
  case (Update fl now job g call c db' st)
  then show ?case
    using rows_kept_counted [OF run_resumable_kept [OF Update(1)], of "co_ids c" "co_log c @ [Fenced job g]"]
    by (simp add: co_keyed_def)
next
  case (No_Update fl now job g call c db')
  then show ?case using rows_kept_counted [OF run_resumable_kept [OF No_Update(1)], of "co_ids c" "co_log c"]
    by (simp add: co_keyed_def)
next
  case (Other c now call)
  then show ?case
    using rows_kept_counted [OF job_update_kept [OF other_op.job_update_axioms [of now call]], where c = c and ids = "co_ids c" and evs = "co_log c"]
    by (simp add: co_keyed_def)
qed (simp_all add: co_counted_def)

lemma co_steps_inv:
  "co_steps (co_init ev) c \<Longrightarrow> co_keyed c \<and> co_counted c"
proof (induction rule: rtranclp_induct)
  case base
  show ?case by (simp add: co_init_def co_keyed_def co_counted_def)
next
  case (step c c')
  then show ?case using co_step_keyed co_step_counted by blast
qed

subsection \<open>The fence\<close>

lemma passes_fence:
  assumes "co_keyed c" "co_counted c" "(job, j) \<in> set (jd_jobs (co_jobs c))" "jb_attempts j = g"
  shows "claims_of job (co_log c) = [1..g]"
  using assms unfolding co_counted_def co_keyed_def by (metis map_of_is_SomeI)

lemma claim_passes:
  assumes "for_collection_claim job g = Inr cl" "assert_collection_claim now tenant conn cl jobs = Inr ()"
  shows "1 \<le> g \<and> (\<exists>j. (job, j) \<in> set (jd_jobs jobs) \<and> jb_attempts j = g)"
  using assms by (auto simp: for_collection_claim_def assert_collection_claim_def list_ex_iff current_claim_def split: if_splits)

lemma evidence_passes:
  assumes "for_collection_claim job g = Inr cl" "ingest_claimed now tenant cl b jobs ev = Inr r"
  shows "1 \<le> g \<and> (\<exists>j. (job, j) \<in> set (jd_jobs jobs) \<and> jb_attempts j = g)"
proof -
  have "assert_collection_claim now tenant (bh_connection_id b) cl jobs = Inr ()"
    using assms(2) by (simp add: ingest_claimed_def bind_res_Inr)
  then show ?thesis by (rule claim_passes [OF assms(1)])
qed

lemma update_passes:
  assumes "run_resumable fl now job g call jobs = Inr (db', Some st)"
  shows "1 \<le> g \<and> (\<exists>j. (job, j) \<in> set (jd_jobs jobs) \<and> jb_attempts j = g)"
  using run_resumable_Inr [OF assms] by (auto simp: current_claim_def dest: map_of_SomeD)

lemma fenced_append:
  assumes "co_fenced c" "claims_of job (co_log c) = [1..g]" "1 \<le> g"
  shows "co_fenced (c\<lparr>co_log := co_log c @ [Fenced job g]\<rparr>)"
proof -
  have "1 \<le> h \<and> claims_of i xs = [1..h]" if "co_log c @ [Fenced job g] = xs @ Fenced i h # ys" for xs ys i h
    using that assms by (cases ys rule: rev_cases) (auto simp: co_fenced_def)
  then show ?thesis by (simp add: co_fenced_def)
qed

lemma claimed_append:
  assumes "co_fenced c"
  shows "co_fenced (c\<lparr>co_log := co_log c @ [Claimed job n]\<rparr>)"
proof -
  have "1 \<le> h \<and> claims_of i xs = [1..h]" if "co_log c @ [Claimed job n] = xs @ Fenced i h # ys" for xs ys i h
    using that assms by (cases ys rule: rev_cases) (auto simp: co_fenced_def)
  then show ?thesis by (simp add: co_fenced_def)
qed

lemma fenced_jobs [simp]:
  "co_fenced (c\<lparr>co_jobs := db\<rparr>) = co_fenced c" "co_fenced (c\<lparr>co_inv := ev\<rparr>) = co_fenced c"
  "co_fenced (c\<lparr>co_jobs := db, co_ids := ids\<rparr>) = co_fenced c"
  "co_fenced (c\<lparr>co_jobs := db, co_log := evs\<rparr>) = co_fenced (c\<lparr>co_log := evs\<rparr>)"
  "co_fenced (c\<lparr>co_inv := ev, co_log := evs\<rparr>) = co_fenced (c\<lparr>co_log := evs\<rparr>)"
  by (simp_all add: co_fenced_def)

lemma co_step_fenced:
  assumes "co_step c c'" "co_keyed c" "co_counted c" "co_fenced c"
  shows "co_fenced c'"
  using assms
proof (induction rule: co_step.induct)
  case (Update fl now job g call c db' st)
  then show ?case using update_passes [OF Update(1)] passes_fence fenced_append by auto
next
  case (Evidence job g cl now tenant b c ev r)
  then show ?case using evidence_passes [OF Evidence(1,2)] passes_fence fenced_append by auto
next
  case (Findings job g cl now tenant conn c)
  then show ?case using claim_passes [OF Findings(1,2)] passes_fence fenced_append by auto
qed (simp_all add: claimed_append)

lemma co_steps_fenced: "co_steps (co_init ev) c \<Longrightarrow> co_fenced c"
proof (induction rule: rtranclp_induct)
  case base
  show ?case by (simp add: co_init_def co_fenced_def)
next
  case (step c c')
  then show ?case using co_steps_inv co_step_fenced by blast
qed

end
