(* ===== verification/Collection_Worker.thy ===== *)
theory Collection_Worker
  imports Collection_Machine
begin

text \<open>
  \<open>src/denali/api/collection.py\<close>: the worker that claims a collection job and runs its collector, the
  schedulers that dispatch jobs, and the queries of \<open>src/denali/store/repository.py\<close> that list due runtime
  targets. A worker runs against the tables of \<open>Collection_Machine\<close>: between two of its database calls other
  workers may do anything, and every call may fail before it ran or after it was committed.
\<close>

section \<open>The world of a worker\<close>

text \<open>A database call works, is refused with an exception, or is committed and its answer is lost.\<close>

datatype fault = Works | Refused string | Unacknowledged string

text \<open>
  What a resumable collector does, as a tree: it saves checkpoints and writes evidence, goes on with the
  answer or the name of the exception, and returns a result or raises.
\<close>

datatype collecting =
    Returns attrs
  | Raises string
  | Saves attrs "string + bool \<Rightarrow> collecting"
  | Writes string inventory_batch "string + ingest_result \<Rightarrow> collecting"
  | Writes_Findings string string "string + unit \<Rightarrow> collecting"

text \<open>\<open>cr_resumable\<close> is the method \<open>collect_resumable\<close>, which not every collector has.\<close>

record collector_impl =
  cr_collect :: "string \<Rightarrow> connection_row \<Rightarrow> string + attrs"
  cr_resumable :: "(string \<Rightarrow> connection_row \<Rightarrow> attrs \<Rightarrow> collecting) option"

text \<open>
  The call number \<open>n\<close> finds the tables as \<open>wo_others n\<close> leaves them, at the time \<open>wo_clock n\<close>. \<open>wo_settings\<close>
  resolves the settings of a connection that moved to the control plane. \<open>wo_succeeded\<close> and \<open>wo_dispatch\<close>
  are the callbacks, with the exception they raise. \<open>wo_int\<close> is \<open>int\<close> on values that are no integers.
\<close>

record world =
  wo_clock :: "nat \<Rightarrow> int"
  wo_others :: "nat \<Rightarrow> collector \<Rightarrow> collector"
  wo_fault :: "nat \<Rightarrow> fault"
  wo_settings :: "connection_row \<Rightarrow> string + connection_row"
  wo_collectors :: "string \<Rightarrow> collector_impl option"
  wo_succeeded :: "(string \<Rightarrow> string \<Rightarrow> string \<Rightarrow> attrs \<Rightarrow> string option) option"
  wo_dispatch :: "(nat \<Rightarrow> string option) option"
  wo_int :: "pyval \<Rightarrow> string + int"
  wo_float :: "pyfloat \<Rightarrow> string"

text \<open>What a worker itself did, in order.\<close>

datatype own_event = Own_Claim job_row | Own_Fenced int | Own_Unfenced | Dispatched bool

record worker =
  wk_tables :: collector
  wk_calls :: nat
  wk_checkpoint :: attrs
  wk_own :: "own_event list"

type_synonym 'a work = "worker \<Rightarrow> worker \<times> (string + 'a)"

definition yield :: "'a \<Rightarrow> 'a work" where "yield x w = (w, Inr x)"
definition fail_with :: "string \<Rightarrow> 'a work" where "fail_with e w = (w, Inl e)"

definition and_then :: "'a work \<Rightarrow> ('a \<Rightarrow> 'b work) \<Rightarrow> 'b work" where
  "and_then m f w = (case m w of (w', Inl e) \<Rightarrow> (w', Inl e) | (w', Inr x) \<Rightarrow> f x w')"

text \<open>\<open>try\<close> with \<open>except Exception\<close>: the handler gets the name of the class.\<close>

definition attempt :: "'a work \<Rightarrow> (string \<Rightarrow> 'a work) \<Rightarrow> 'a work" where
  "attempt m h w = (case m w of (w', Inl e) \<Rightarrow> h e w' | (w', Inr x) \<Rightarrow> (w', Inr x))"

definition note_own :: "own_event \<Rightarrow> worker \<Rightarrow> worker" where
  "note_own e w = w\<lparr>wk_own := wk_own w @ [e]\<rparr>"

section \<open>Calls of the repository\<close>

definition class_of :: "py_error \<Rightarrow> string" where
  "class_of e = (case e of ValueError m \<Rightarrow> ''ValueError'' | KeyError m \<Rightarrow> ''KeyError'' | TypeError m \<Rightarrow> ''TypeError''
     | RuntimeError m \<Rightarrow> ''RuntimeError'')"

text \<open>One transaction; the events are noted when it commits.\<close>

definition call_db :: "world \<Rightarrow> (int \<Rightarrow> collector \<Rightarrow> (collector \<times> own_event list \<times> 'a) res) \<Rightarrow> 'a work" where
  "call_db wo op w =
     (let n = wk_calls w; c = wo_others wo n (wk_tables w); w1 = w\<lparr>wk_tables := c, wk_calls := n + 1\<rparr> in
      case wo_fault wo n of
        Refused e \<Rightarrow> (w1, Inl e)
      | fault \<Rightarrow> (case op (wo_clock wo n) c of
            Inl e \<Rightarrow> (w1, Inl (class_of e))
          | Inr (c', own, x) \<Rightarrow>
              (w1\<lparr>wk_tables := c', wk_own := wk_own w @ own\<rparr>, case fault of Unacknowledged e \<Rightarrow> Inl e | _ \<Rightarrow> Inr x)))"

definition claim_op :: "string \<Rightarrow> int \<Rightarrow> int \<Rightarrow> collector \<Rightarrow> (collector \<times> own_event list \<times> job_row option) res" where
  "claim_op job lease now c = bind_res (claim_collection_job now job lease (co_jobs c)) (\<lambda>(db, out). Inr (case out of
     Some j \<Rightarrow> (c\<lparr>co_jobs := db, co_log := co_log c @ [Claimed job (jb_attempts j)]\<rparr>, [Own_Claim j], out)
   | None \<Rightarrow> (c\<lparr>co_jobs := db\<rparr>, [], out)))"

definition resumable_call_op ::
    "(pyfloat \<Rightarrow> string) \<Rightarrow> string \<Rightarrow> int \<Rightarrow> resumable_call \<Rightarrow> int \<Rightarrow> collector \<Rightarrow> (collector \<times> own_event list \<times> bool) res" where
  "resumable_call_op fl job g call now c = bind_res (run_resumable fl now job g call (co_jobs c)) (\<lambda>(db, out). Inr (case out of
     Some st \<Rightarrow> (c\<lparr>co_jobs := db, co_log := co_log c @ [Fenced job g]\<rparr>, [Own_Fenced g], True)
   | None \<Rightarrow> (c\<lparr>co_jobs := db\<rparr>, [], False)))"

definition current_op :: "string \<Rightarrow> int \<Rightarrow> int \<Rightarrow> collector \<Rightarrow> (collector \<times> own_event list \<times> bool) res" where
  "current_op job g now c = Inr (c, [], collection_job_is_current now job g (co_jobs c))"

definition target_op :: "string \<Rightarrow> string \<Rightarrow> int \<Rightarrow> collector \<Rightarrow> (collector \<times> own_event list \<times> connection_row option) res" where
  "target_op tenant conn now c = Inr (c, [], map_of (jd_connections (co_jobs c)) (tenant, conn))"

definition complete_op :: "string \<Rightarrow> attrs \<Rightarrow> int \<Rightarrow> collector \<Rightarrow> (collector \<times> own_event list \<times> unit) res" where
  "complete_op job result now c =
     Inr (c\<lparr>co_jobs := run_other now (Complete_Call job result) (co_jobs c)\<rparr>, [Own_Unfenced], ())"

definition failure_op :: "string \<Rightarrow> string \<Rightarrow> int \<Rightarrow> int \<Rightarrow> collector \<Rightarrow> (collector \<times> own_event list \<times> bool) res" where
  "failure_op job summary max_attempts now c =
     Inr (c\<lparr>co_jobs := run_other now (Failure_Call job summary max_attempts) (co_jobs c)\<rparr>, [Own_Unfenced],
       snd (record_collection_failure now job summary max_attempts (co_jobs c)))"

text \<open>The ingest methods of a repository that \<open>for_collection_claim\<close> bound to the claim.\<close>

definition evidence_op ::
    "string \<Rightarrow> int \<Rightarrow> string \<Rightarrow> inventory_batch \<Rightarrow> int \<Rightarrow> collector \<Rightarrow> (collector \<times> own_event list \<times> ingest_result) res" where
  "evidence_op job g tenant b now c = bind_res (for_collection_claim job g) (\<lambda>cl.
     bind_res (ingest_claimed now tenant cl b (co_jobs c) (co_inv c)) (\<lambda>(inv, r).
       Inr (c\<lparr>co_inv := inv, co_log := co_log c @ [Fenced job g]\<rparr>, [Own_Fenced g], r)))"

definition findings_op ::
    "string \<Rightarrow> int \<Rightarrow> string \<Rightarrow> string \<Rightarrow> int \<Rightarrow> collector \<Rightarrow> (collector \<times> own_event list \<times> unit) res" where
  "findings_op job g tenant conn now c = bind_res (for_collection_claim job g) (\<lambda>cl.
     bind_res (assert_collection_claim now tenant conn cl (co_jobs c)) (\<lambda>_.
       Inr (c\<lparr>co_log := co_log c @ [Fenced job g]\<rparr>, [Own_Fenced g], ())))"

definition get_validation_target :: "world \<Rightarrow> string \<Rightarrow> string \<Rightarrow> connection_row option work" where
  "get_validation_target wo tenant conn = and_then (call_db wo (target_op tenant conn)) (\<lambda>row w. (w, case row of
     None \<Rightarrow> Inr None | Some r \<Rightarrow> (case wo_settings wo r of Inl e \<Rightarrow> Inl e | Inr r' \<Rightarrow> Inr (Some r'))))"

section \<open>A slice of a resumable collection\<close>

text \<open>The closure \<open>save_checkpoint\<close>: the checkpoint of the worker is the last one that was accepted.\<close>

definition save_checkpoint :: "world \<Rightarrow> string \<Rightarrow> int \<Rightarrow> attrs \<Rightarrow> bool work" where
  "save_checkpoint wo job g value = and_then (call_db wo (resumable_call_op (wo_float wo) job g (Save value)))
     (\<lambda>ok w. (if ok then w\<lparr>wk_checkpoint := value\<rparr> else w, Inr ok))"

text \<open>The answer of a call, an exception included, goes back to the collector.\<close>

definition answer :: "'a work \<Rightarrow> (string + 'a) work" where
  "answer m w = (case m w of (w', r) \<Rightarrow> (w', Inr r))"

primrec run_collect :: "world \<Rightarrow> string \<Rightarrow> int \<Rightarrow> collecting \<Rightarrow> attrs work" where
  "run_collect wo job g (Returns result) = yield result"
| "run_collect wo job g (Raises e) = fail_with e"
| "run_collect wo job g (Saves value k) =
     and_then (answer (save_checkpoint wo job g value)) (\<lambda>r. run_collect wo job g (k r))"
| "run_collect wo job g (Writes tenant b k) =
     and_then (answer (call_db wo (evidence_op job g tenant b))) (\<lambda>r. run_collect wo job g (k r))"
| "run_collect wo job g (Writes_Findings tenant conn k) =
     and_then (answer (call_db wo (findings_op job g tenant conn))) (\<lambda>r. run_collect wo job g (k r))"

text \<open>A dispatch that fails is no failure: the recovery poll finds the continuation.\<close>

definition dispatch_github_continuation :: "world \<Rightarrow> bool work" where
  "dispatch_github_continuation wo w = (case wo_dispatch wo of
     None \<Rightarrow> (w, Inr False)
   | Some dispatch \<Rightarrow> (let ok = (dispatch (wk_calls w) = None) in (note_own (Dispatched ok) w, Inr ok)))"

definition failure_summary :: "string \<Rightarrow> string" where
  "failure_summary error_type = ''Collection worker could not complete the declared read planes ('' @ error_type @ '').''"

definition retry_delay :: "world \<Rightarrow> attrs \<Rightarrow> string + int" where
  "retry_delay wo result = (case map_of result ''retry_after_seconds'' of
     None \<Rightarrow> Inr 0 | Some (PInt n) \<Rightarrow> Inr (max 0 (min 7200 n))
   | Some v \<Rightarrow> (case wo_int wo v of Inl e \<Rightarrow> Inl e | Inr n \<Rightarrow> Inr (max 0 (min 7200 n))))"

definition run_hook :: "world \<Rightarrow> job_row \<Rightarrow> attrs \<Rightarrow> unit work" where
  "run_hook wo j result = (case wo_succeeded wo of
     None \<Rightarrow> yield ()
   | Some hook \<Rightarrow> (case hook (jb_tenant j) (jb_connection j) (jb_kind j) result of None \<Rightarrow> yield () | Some e \<Rightarrow> fail_with e))"

definition finish_slice :: "world \<Rightarrow> string \<Rightarrow> job_row \<Rightarrow> attrs \<Rightarrow> unit work" where
  "finish_slice wo job j result = (let g = jb_attempts j; fl = wo_float wo in
     if truthy (attr_get result ''resume_pending'') then
       (case retry_delay wo result of
          Inl e \<Rightarrow> fail_with e
        | Inr delay \<Rightarrow> (\<lambda>w. and_then (call_db wo (resumable_call_op fl job g (Defer (wk_checkpoint w) result delay))) (\<lambda>queued.
            if queued \<and> delay = 0 then and_then (dispatch_github_continuation wo) (\<lambda>_. yield ()) else yield ()) w))
     else and_then (call_db wo (current_op job g)) (\<lambda>current.
       if \<not> current then yield ()
       else and_then (run_hook wo j result) (\<lambda>_.
         and_then (call_db wo (resumable_call_op fl job g (Finish_Job result))) (\<lambda>_. yield ()))))"

definition retry_if_current :: "world \<Rightarrow> string \<Rightarrow> job_row \<Rightarrow> int \<Rightarrow> string \<Rightarrow> unit work" where
  "retry_if_current wo job j max_attempts e = (let g = jb_attempts j in
     and_then (call_db wo (current_op job g)) (\<lambda>current.
       if current then and_then (call_db wo (resumable_call_op (wo_float wo) job g (Retry (failure_summary e) max_attempts 30)))
         (\<lambda>_. yield ())
       else yield ()))"

definition run_github_collection_slice ::
    "world \<Rightarrow> string \<Rightarrow> job_row \<Rightarrow> int \<Rightarrow> (attrs \<Rightarrow> collecting) \<Rightarrow> unit work" where
  "run_github_collection_slice wo job j max_attempts collect =
     attempt
       (and_then (\<lambda>w. (w\<lparr>wk_checkpoint := jb_checkpoint j\<rparr>,
            case for_collection_claim job (jb_attempts j) of Inl e \<Rightarrow> Inl (class_of e) | Inr cl \<Rightarrow> Inr ()))
         (\<lambda>_. and_then (run_collect wo job (jb_attempts j) (collect (jb_checkpoint j))) (finish_slice wo job j)))
       (retry_if_current wo job j max_attempts)"

section \<open>The worker\<close>

definition kinds_by_provider :: "string \<Rightarrow> string list" where
  "kinds_by_provider p = (case map_of
     [(''aws'', [''aws_deployments'', ''aws_agent_runtime'']), (''azure'', [''azure_deployments'', ''azure_agent_runtime'']),
      (''entra'', [''entra_ai'']), (''gcp'', [''gcp_deployments'']), (''github'', [''github_source'']),
      (''azure_repos'', [''azure_repos_source'']), (''google_workspace'', [''google_workspace_ai''])] p of
     None \<Rightarrow> [] | Some ks \<Rightarrow> ks)"

text \<open>\<open>True\<close> says that another attempt follows.\<close>

definition run_target :: "world \<Rightarrow> bool \<Rightarrow> string \<Rightarrow> int \<Rightarrow> job_row \<Rightarrow> bool work" where
  "run_target wo resumable_github job max_attempts j =
     and_then (get_validation_target wo (jb_tenant j) (jb_connection j)) (\<lambda>row. case row of
       None \<Rightarrow> fail_with ''RuntimeError''
     | Some target \<Rightarrow>
         if cn_lifecycle target \<noteq> ''active'' \<or> jb_kind j \<notin> set (kinds_by_provider (cn_provider target)) then
           fail_with ''RuntimeError''
         else (case wo_collectors wo (jb_kind j) of
           None \<Rightarrow> fail_with ''RuntimeError''
         | Some impl \<Rightarrow>
             if resumable_github \<and> jb_kind j = github_kind \<and> cr_resumable impl \<noteq> None then
               attempt (and_then (run_github_collection_slice wo job j max_attempts
                   (the (cr_resumable impl) (jb_tenant j) target)) (\<lambda>_. yield False))
                 (\<lambda>e. yield False)
             else (case cr_collect impl (jb_tenant j) target of
               Inl e \<Rightarrow> fail_with e
             | Inr result \<Rightarrow> and_then (run_hook wo j result) (\<lambda>_.
                 and_then (call_db wo (complete_op job result)) (\<lambda>_. yield False)))))"

definition handle_failure :: "world \<Rightarrow> bool \<Rightarrow> string \<Rightarrow> int \<Rightarrow> job_row \<Rightarrow> string \<Rightarrow> bool work" where
  "handle_failure wo resumable_github job max_attempts j e =
     (if resumable_github \<and> jb_kind j = github_kind then
        attempt (and_then (retry_if_current wo job j max_attempts e) (\<lambda>_. yield False)) (\<lambda>_. yield False)
      else call_db wo (failure_op job (failure_summary e) max_attempts))"

definition run_attempt :: "world \<Rightarrow> bool \<Rightarrow> string \<Rightarrow> int \<Rightarrow> job_row \<Rightarrow> bool work" where
  "run_attempt wo resumable_github job max_attempts j =
     attempt (run_target wo resumable_github job max_attempts j) (handle_failure wo resumable_github job max_attempts j)"

primrec durable_loop :: "world \<Rightarrow> bool \<Rightarrow> string \<Rightarrow> int \<Rightarrow> int \<Rightarrow> nat \<Rightarrow> unit work" where
  "durable_loop wo resumable_github job lease max_attempts 0 = yield ()"
| "durable_loop wo resumable_github job lease max_attempts (Suc n) =
     and_then (call_db wo (claim_op job lease)) (\<lambda>claimed. case claimed of
       None \<Rightarrow> yield ()
     | Some j \<Rightarrow> and_then (run_attempt wo resumable_github job max_attempts j) (\<lambda>again.
         if again then durable_loop wo resumable_github job lease max_attempts n else yield ()))"

definition run_durable_collection_job :: "world \<Rightarrow> bool \<Rightarrow> string \<Rightarrow> int \<Rightarrow> int \<Rightarrow> unit work" where
  "run_durable_collection_job wo resumable_github job lease max_attempts =
     (if \<not> (1 \<le> max_attempts \<and> max_attempts \<le> 5) then fail_with ''ValueError''
      else durable_loop wo resumable_github job lease max_attempts (nat max_attempts))"

section \<open>Scheduling\<close>

text \<open>\<open>dispatch\<close> gives the exception it raises; the counts are those of the report.\<close>

definition dispatch_all :: "('a \<Rightarrow> string option) \<Rightarrow> 'a list \<Rightarrow> attrs" where
  "dispatch_all dispatch refs = (let queued = length (filter (\<lambda>r. dispatch r = None) refs) in
     [(''eligible'', PInt (int (length refs))), (''queued'', PInt (int queued)),
      (''failed'', PInt (int (length refs - queued)))])"

definition queue_due_github_collection_jobs ::
    "int \<Rightarrow> (string \<Rightarrow> string option) \<Rightarrow> int \<Rightarrow> job_db \<Rightarrow> (job_db \<times> attrs) res" where
  "queue_due_github_collection_jobs now dispatch limit db =
     bind_res (list_due_github_collection_jobs now limit db) (\<lambda>(db', jobs). Inr (db', dispatch_all dispatch jobs))"

text \<open>The newest job of a queue, if there is one, must be older than the interval.\<close>

definition due_target :: "int \<Rightarrow> int \<Rightarrow> string \<Rightarrow> string \<Rightarrow> string \<Rightarrow> job_db \<Rightarrow> (string \<times> string) \<times> connection_row \<Rightarrow> bool" where
  "due_target now minutes provider scope kind db r = (case r of ((tenant, conn), c) \<Rightarrow>
     cn_provider c = provider \<and> cn_lifecycle c = ''active'' \<and> cn_health c = ''healthy'' \<and> scope \<in> set (cn_scopes c) \<and>
     active_jobs tenant conn kind db = [] \<and>
     list_all (\<lambda>(i, j). of_connection tenant conn kind j \<longrightarrow> jb_created j < now - seconds (60 * minutes)) (jd_jobs db))"

definition list_due_runtime ::
    "string \<Rightarrow> string \<Rightarrow> string \<Rightarrow> int \<Rightarrow> int \<Rightarrow> int \<Rightarrow> job_db \<Rightarrow> (string \<times> string) list res" where
  "list_due_runtime provider scope kind now minutes limit db =
     (if \<not> (1 \<le> minutes \<and> minutes \<le> 60) then
        Inl (ValueError ''runtime collection interval must be between 1 and 60 minutes'')
      else if \<not> (1 \<le> limit \<and> limit \<le> 500) then
        Inl (ValueError ''runtime collection target limit must be between 1 and 500'')
      else let rows = sort (map fst (filter (due_target now minutes provider scope kind db) (jd_connections db))) in
        if limit < int (length rows) then
          Inl (RuntimeError ''runtime collection target boundary exceeds the configured limit'')
        else Inr rows)"

definition list_due_aws_agent_runtime_connections :: "int \<Rightarrow> int \<Rightarrow> int \<Rightarrow> job_db \<Rightarrow> (string \<times> string) list res" where
  "list_due_aws_agent_runtime_connections = list_due_runtime ''aws'' ''aws.agent_runtime_activity'' ''aws_agent_runtime''"

definition list_due_azure_agent_runtime_connections :: "int \<Rightarrow> int \<Rightarrow> int \<Rightarrow> job_db \<Rightarrow> (string \<times> string) list res" where
  "list_due_azure_agent_runtime_connections = list_due_runtime ''azure'' ''azure.agent_runtime_activity'' ''azure_agent_runtime''"

definition queue_due_aws_agent_runtime_collections ::
    "int \<Rightarrow> (string \<times> string \<Rightarrow> string option) \<Rightarrow> int \<Rightarrow> int \<Rightarrow> job_db \<Rightarrow> attrs res" where
  "queue_due_aws_agent_runtime_collections now queue minutes limit db =
     bind_res (list_due_aws_agent_runtime_connections now minutes limit db) (\<lambda>refs. Inr (dispatch_all queue refs))"

definition queue_due_azure_agent_runtime_collections ::
    "int \<Rightarrow> (string \<times> string \<Rightarrow> string option) \<Rightarrow> int \<Rightarrow> int \<Rightarrow> job_db \<Rightarrow> attrs res" where
  "queue_due_azure_agent_runtime_collections now queue minutes limit db =
     bind_res (list_due_azure_agent_runtime_connections now minutes limit db) (\<lambda>refs. Inr (dispatch_all queue refs))"

end
