(* ===== verification/Collection_Props.thy ===== *)
theory Collection_Props
  imports Collection_Machine
begin

text \<open>
  What the durable collection queue guarantees: fencing of superseded workers, one active job per queue,
  finality of finished jobs, and recovery of lost ones.
\<close>

section \<open>One active job, and finality\<close>

lemma rows_kept_one_active:
  assumes "rows_kept db db'" "one_active db"
  shows "one_active db'"
  unfolding one_active_def
proof (intro allI impI)
  fix i k j j'
  assume *: "job_of db' i = Some j" "job_of db' k = Some j'" "unfinished j" "unfinished j'" "same_queue j j'"
  obtain l l' where "job_of db i = Some l" "row_evolves l j" "job_of db k = Some l'" "row_evolves l' j'"
    using assms(1) *(1,2) unfolding rows_kept_def by blast
  moreover from this have "same_queue l l'" using *(5) by (auto simp: row_evolves_def same_queue_def)
  ultimately show "i = k" using assms(2) *(3,4) row_evolves_unfinished unfolding one_active_def by blast
qed

lemma no_active_jobs:
  assumes "active_jobs tenant conn kind db = []" "job_of db i = Some j" "of_connection tenant conn kind j"
  shows "\<not> unfinished j"
  using assms map_of_SomeD [OF assms(2)] by (auto simp: active_jobs_def filter_empty_conv)

lemma add_job_one_active:
  assumes "one_active db" "active_jobs tenant conn kind db = []" "i \<notin> fst ` set (jd_jobs db)"
    and "jd_jobs db' = jd_jobs db @ [(i, new_job now tenant conn kind cp d)]"
  shows "one_active db'"
proof -
  have new: "k = i \<and> j = new_job now tenant conn kind cp d \<or> job_of db k = Some j \<and> k \<noteq> i" if "job_of db' k = Some j" for k j
    using that assms(3,4) unknown_job [of i db] by (auto simp: map_add_def split: option.splits if_splits)
  have queue: "of_connection tenant conn kind j"
    if "same_queue j (new_job now tenant conn kind cp d) \<or> same_queue (new_job now tenant conn kind cp d) j" for j
    using that by (auto simp: same_queue_def of_connection_def new_job_def)
  show ?thesis
    unfolding one_active_def using new queue no_active_jobs [OF assms(2)] assms(1) unfolding one_active_def by metis
qed

lemma claim_kept_one_active:
  assumes "claim_collection_job now job lease db = Inr (db', out)" "keyed db" "one_active db"
  shows "one_active db'"
  using claim_op.keeps_one_active [OF assms(2,3), of now job lease] assms(1) by (simp add: committed_def)

lemma co_step_one_active:
  assumes "co_step c c'" "co_keyed c" "one_active (co_jobs c)"
  shows "one_active (co_jobs c')"
  using assms
proof (induction rule: co_step.induct)
  case (Create fl str_of now i tenant conn kind retry retry_of c db' r made)
  have "i \<notin> fst ` set (jd_jobs (co_jobs c))" "keyed (co_jobs c)" using Create(2,3) by (auto simp: co_keyed_def)
  then show ?case
    using create_kept [OF Create(1)] rows_kept_one_active [OF _ Create(4)] add_job_one_active by simp blast
next
  case (Claim now job lease c db' j)
  then show ?case using claim_kept_one_active by (simp add: co_keyed_def)
next
  case (No_Claim now job lease c db')
  then show ?case using claim_kept_one_active by (simp add: co_keyed_def)
next
  case (Update fl now job g call c db' st)
  then show ?case using rows_kept_one_active [OF run_resumable_kept [OF Update(1)]] by (simp add: co_keyed_def)
next
  case (No_Update fl now job g call c db')
  then show ?case using rows_kept_one_active [OF run_resumable_kept [OF No_Update(1)]] by (simp add: co_keyed_def)
next
  case (Other c now call)
  then show ?case using other_op.keeps_one_active by (simp add: co_keyed_def)
qed simp_all

lemma rows_kept_finished:
  assumes "rows_kept db db'" "job_of db i = Some j" "\<not> unfinished j"
  shows "job_of db' i = None \<or> job_of db' i = Some j"
proof (cases "job_of db' i")
  case (Some j')
  then obtain k where "job_of db i = Some k" "row_evolves k j'" using assms(1) unfolding rows_kept_def by blast
  then show ?thesis using Some assms(2,3) by (simp add: row_evolves_def)
qed simp

lemma claim_kept_finished:
  assumes "claim_collection_job now job lease db = Inr (db', out)" "keyed db" "job_of db i = Some j" "\<not> unfinished j"
  shows "job_of db' i = None \<or> job_of db' i = Some j"
  using claim_op.keeps_finished [OF assms(2-4), of now job lease] assms(1) by (simp add: committed_def)

lemma co_step_finished:
  assumes "co_step c c'" "co_keyed c" "i \<in> set (co_ids c)"
    "job_of (co_jobs c) i = None \<or> job_of (co_jobs c) i = Some j" "\<not> unfinished j"
  shows "i \<in> set (co_ids c') \<and> (job_of (co_jobs c') i = None \<or> job_of (co_jobs c') i = Some j)"
proof -
  have gone: "job_of db' i = None" if "rows_kept (co_jobs c) db'" "job_of (co_jobs c) i = None" for db'
    using rows_kept_jobs [OF that(1)] that(2) by (auto simp: jobs_of_def)
  have kept: "job_of db' i = None \<or> job_of db' i = Some j" if "rows_kept (co_jobs c) db'" for db'
    using assms(4) gone [OF that] rows_kept_finished [OF that _ assms(5)] by blast
  have claim: "job_of db' i = None \<or> job_of db' i = Some j"
    if "claim_collection_job now job lease (co_jobs c) = Inr (db', out)" for now job lease db' out
    using assms(2,4) claim_kept_finished [OF that _ _ assms(5)] claim_jobs [OF _ that]
    by (auto simp: co_keyed_def jobs_of_def)
  show ?thesis
    using assms(1)
  proof (cases rule: co_step.cases)
    case (Create fl str_of now k tenant conn kind retry retry_of db' r made)
    have k: "k \<notin> fst ` set (jd_jobs (co_jobs c))" "k \<noteq> i" "keyed (co_jobs c)"
      using Create assms(2,3) by (auto simp: co_keyed_def)
    then have "job_of db' i = None \<or> job_of db' i = Some j"
      using create_kept [OF Create(2) k(3) k(1)]
    proof (elim disjE exE conjE)
      fix db1 cp d
      assume "rows_kept (co_jobs c) db1" "jd_jobs db' = jd_jobs db1 @ [(k, new_job now tenant conn kind cp d)]"
      then show ?thesis using kept [of db1] k(2) by (auto simp: map_add_def)
    qed (rule kept)
    then show ?thesis using Create assms(3) by simp
  next
    case (Claim now job lease db' r)
    then show ?thesis using claim assms(3) by simp
  next
    case (No_Claim now job lease db')
    then show ?thesis using claim assms(3) by simp
  next
    case (Update fl now job g call db' st)
    then show ?thesis using kept [OF run_resumable_kept [OF Update(2)]] assms(2,3) by (simp add: co_keyed_def)
  next
    case (No_Update fl now job g call db')
    then show ?thesis using kept [OF run_resumable_kept [OF No_Update(2)]] assms(2,3) by (simp add: co_keyed_def)
  next
    case (Other now call)
    then show ?thesis
      using kept [OF job_update_kept [OF other_op.job_update_axioms [of now call]]] assms(2,3) by (simp add: co_keyed_def)
  qed (use assms in auto)
qed

lemma co_steps_finished:
  assumes "co_steps c c'" "co_keyed c" "i \<in> set (co_ids c)"
    "job_of (co_jobs c) i = None \<or> job_of (co_jobs c) i = Some j" "\<not> unfinished j"
  shows "job_of (co_jobs c') i = None \<or> job_of (co_jobs c') i = Some j"
proof -
  have "co_keyed c' \<and> i \<in> set (co_ids c') \<and> (job_of (co_jobs c') i = None \<or> job_of (co_jobs c') i = Some j)"
    using assms(1)
  proof (induction rule: rtranclp_induct)
    case base
    show ?case using assms by simp
  next
    case (step d e)
    then show ?case using co_step_keyed [OF step(2)] co_step_finished [OF step(2) _ _ _ assms(5)] by blast
  qed
  then show ?thesis by blast
qed

section \<open>Recovery\<close>

text \<open>The state of a job after the terminal transitions of its claim, when it is due.\<close>

lemma due_not_stale:
  assumes "due_github now db j" "job_of db i = Some j" "provider_of db j = Some c"
  shows "job_of (fail_stale_github now c i db) i = Some (if jb_state j = JS_RUNNING \<and> 2 \<le> jb_retries j
    then (touched_failed_job now ''Collection worker lease repeatedly expired.'' j)\<lparr>jb_retries := jb_retries j + 1\<rparr> else j)"
  using assms by (auto simp: fail_stale_github_def update_jobs_def table_simps due_github_def active_github_def)

lemma listed_due:
  assumes "list_due_github_collection_jobs now limit db = Inr (db', ids)" "i \<in> set ids" "keyed db"
  obtains j where "job_of db' i = Some j" "due_github now db' j"
proof -
  let ?js = "filter (\<lambda>(i, j). due_github now db' j) (jd_jobs db')"
  have ids: "db' = fail_lost_github now limit db"
    "ids = order_limit (\<lambda>(i, j). (jb_available j, jb_updated j, i)) limit ?js"
    using assms(1) by (auto simp: list_due_github_collection_jobs_def Let_def split: if_splits)
  have "i \<in> fst ` set ?js" using assms(2) unfolding ids(2) order_limit_def
    by (metis (no_types, lifting) image_set set_sort set_take_subset image_mono subsetD)
  then obtain j where "(i, j) \<in> set (jd_jobs db')" "due_github now db' j" by auto
  moreover have "keyed db'" using lost_op.keeps_keys assms(3) unfolding ids(1) by blast
  ultimately show thesis using that by simp
qed

section \<open>A sample run\<close>

definition sample_jobs :: "(string \<times> job_row) list \<Rightarrow> job_db" where
  "sample_jobs js = \<lparr>jd_connections = [((''t'', ''c''), \<lparr>cn_provider = ''github'', cn_lifecycle = ''active'',
     cn_health = ''healthy'',
     cn_credential_type = PNone, cn_credential_reference = PNone, cn_configuration = [], cn_scopes = []\<rparr>)], jd_jobs = js, jd_validations = []\<rparr>"

definition queued_sample :: job_row where
  "queued_sample = new_job 0 ''t'' ''c'' ''github_source'' [] []"

definition claimed_sample :: job_row where
  "claimed_sample = claimed_job 1 60 queued_sample"

definition done_sample :: job_row where
  "done_sample = (succeeded 2 [] claimed_sample)\<lparr>jb_updated := 2\<rparr>"

definition sample_evidence :: inv_db where
  "sample_evidence = \<lparr>db_runs = [], db_coverage = [], db_assets = [], db_assertions = [], db_relations = []\<rparr>"

definition sample_collector :: "(string \<times> job_row) list \<Rightarrow> string list \<Rightarrow> job_event list \<Rightarrow> collector" where
  "sample_collector js ids evs = \<lparr>co_jobs = sample_jobs js, co_inv = sample_evidence, co_ids = ids, co_log = evs\<rparr>"

abbreviation sample_start :: collector where
  "sample_start \<equiv> co_init sample_evidence"

abbreviation sample_queued :: collector where
  "sample_queued \<equiv> sample_collector [(''j'', queued_sample)] [''j''] []"

abbreviation sample_claimed :: collector where
  "sample_claimed \<equiv> sample_collector [(''j'', claimed_sample)] [''j''] [Claimed ''j'' 1]"

abbreviation sample_done :: collector where
  "sample_done \<equiv> sample_collector [(''j'', done_sample)] [''j''] [Claimed ''j'' 1, Fenced ''j'' 1]"

lemma empty_checkpoint [simp]: "checkpoint_json fl [] = Inr ''{}''"
  by (simp add: checkpoint_json_def max_checkpoint_bytes_def)

lemmas sample_defs = sample_collector_def sample_jobs_def queued_sample_def claimed_sample_def done_sample_def
  new_job_def claimed_job_def succeeded_def seconds_def github_kind_def update_jobs_def update_where_def

lemma sample_connected: "co_step sample_start (sample_collector [] [] [])"
  using co_step.Other [of sample_start 0 "Connections_Call (jd_connections (sample_jobs []))"]
  by (simp add: co_init_def sample_collector_def sample_jobs_def)

lemma sample_created: "co_step (sample_collector [] [] []) sample_queued"
proof -
  have "create_collection_job (\<lambda>_. []) (\<lambda>_. []) 0 ''j'' ''t'' ''c'' ''github_source'' False None
      (sample_jobs []) = Inr (sample_jobs [(''j'', queued_sample)], (''j'', queued_sample), True)"
    by (simp add: create_collection_job_def expire_legacy_jobs_def active_jobs_def sample_defs collection_kinds_def Let_def)
  then show ?thesis
    using co_step.Create [where c = "sample_collector [] [] []" and db' = "sample_jobs [(''j'', queued_sample)]"
        and r = "(''j'', queued_sample)" and i = "''j''"]
    by (fastforce simp: sample_collector_def)
qed

lemma sample_claims: "co_step sample_queued sample_claimed"
proof -
  have "claim_collection_job 1 ''j'' 60 (sample_jobs [(''j'', queued_sample)]) =
      Inr (sample_jobs [(''j'', claimed_sample)], Some claimed_sample)"
    by (simp add: claim_collection_job_def provider_of_def fail_stale_github_def claimable_def lease_over_def
        unfinished_def run_window_def sample_defs)
  then show ?thesis
    using co_step.Claim [where c = sample_queued and db' = "sample_jobs [(''j'', claimed_sample)]" and job = "''j''"
        and j = claimed_sample]
    by (simp add: sample_collector_def) (simp add: sample_defs)
qed

lemma sample_finishes: "co_step sample_claimed sample_done"
proof -
  have "run_resumable (\<lambda>_. []) 2 ''j'' 1 (Finish_Job []) (sample_jobs [(''j'', claimed_sample)]) =
      Inr (sample_jobs [(''j'', done_sample)], Some JS_SUCCEEDED)"
    by (simp add: complete_resumable_job_def update_resumable_def active_github_def provider_of_def current_claim_def
        lease_live_def run_window_def Let_def sample_defs)
  then show ?thesis
    using co_step.Update [where c = sample_claimed and db' = "sample_jobs [(''j'', done_sample)]" and job = "''j''" and g = 1]
    by (simp add: sample_collector_def del: run_resumable.simps)
qed

lemma sample_run:
  "co_steps sample_start sample_queued" "co_steps sample_start sample_claimed" "co_steps sample_start sample_done"
proof -
  show queued: "co_steps sample_start sample_queued"
    by (rule rtranclp.rtrancl_into_rtrancl [OF r_into_rtranclp [where r = co_step, OF sample_connected] sample_created])
  show claimed: "co_steps sample_start sample_claimed" using queued sample_claims by (rule rtranclp.rtrancl_into_rtrancl)
  show "co_steps sample_start sample_done" using claimed sample_finishes by (rule rtranclp.rtrancl_into_rtrancl)
qed

section \<open>Properties\<close>



text \<open>
  C29. At most one job of a tenant, connection and kind is queued or running, however the operations
  interleave.
\<close>

theorem one_active_job:
  assumes "co_steps (co_init ev) c"
  shows "one_active (co_jobs c)"
  using assms
proof (induction rule: rtranclp_induct)
  case base
  show ?case by (simp add: co_init_def one_active_def)
next
  case (step c c')
  then show ?case using co_step_one_active co_steps_inv by blast
qed

theorem one_active_job_witness: "one_active (co_jobs sample_claimed)"
  using one_active_job [OF sample_run(2)] .

text \<open>
  A job that succeeded or failed is final: whatever is called afterwards, its row never changes again,
  except that deleting its connection deletes it.
\<close>

theorem finished_job_is_final:
  assumes "co_steps (co_init ev) c" "co_steps c c'" "job_of (co_jobs c) i = Some j"
    "jb_state j = JS_SUCCEEDED \<or> jb_state j = JS_FAILED"
  shows "job_of (co_jobs c') i \<in> {None, Some j}"
proof -
  have keyed: "co_keyed c" using co_steps_inv [OF assms(1)] by blast
  then have "i \<in> set (co_ids c)" using assms(3) by (auto simp: co_keyed_alt jobs_of_def)
  moreover have "\<not> unfinished j" using assms(4) by (auto simp: unfinished_def)
  ultimately show ?thesis using co_steps_finished [OF assms(2) keyed] assms(3) by blast
qed

theorem finished_job_is_final_witness: "job_of (co_jobs sample_done) ''j'' \<in> {None, Some done_sample}"
  by (rule finished_job_is_final [OF sample_run(3) rtranclp.rtrancl_refl])
    (simp_all add: sample_collector_def sample_jobs_def done_sample_def succeeded_def)

text \<open>
  C32. No GitHub job is lost. Whatever the recovery poll lists, a claim at the same time takes over with the
  next generation and a new lease, or, when its lease is over and its retry counter has reached two, ends it as
  failed; the counter counts lost leases and failed slices since the last progress.
\<close>

theorem recovered_job_is_claimed:
  assumes "co_steps (co_init ev) c" "list_due_github_collection_jobs now limit (co_jobs c) = Inr (db, ids)" "i \<in> set ids"
    "1 \<le> lease" "lease \<le> 86400"
  shows "\<exists>k db' out. job_of db i = Some k \<and> claim_collection_job now i lease db = Inr (db', out) \<and>
    (case out of
       Some j \<Rightarrow> job_of db' i = Some j \<and> jb_state j = JS_RUNNING \<and> jb_attempts j = jb_attempts k + 1 \<and>
         jb_lease j = Some (now + seconds lease)
     | None \<Rightarrow> jb_state k = JS_RUNNING \<and> 2 \<le> jb_retries k \<and> (\<exists>j. job_of db' i = Some j \<and> jb_state j = JS_FAILED))"
proof -
  have "keyed (co_jobs c)" using co_steps_inv [OF assms(1)] by (simp add: co_keyed_def)
  then obtain k where k: "job_of db i = Some k" "due_github now db k" using listed_due [OF assms(2,3)] by blast
  then obtain p where p: "provider_of db k = Some p" "cn_provider p = ''github''" "cn_lifecycle p = ''active''"
    by (auto simp: due_github_def active_github_def split: option.splits)
  let ?db = "fail_stale_github now p i db"
  let ?db' = "update_jobs (claimable now p i) (claimed_job now lease) ?db"
  have claim: "claim_collection_job now i lease db = Inr (?db', case job_of ?db i of
      Some j \<Rightarrow> if claimable now p i i j then job_of ?db' i else None | None \<Rightarrow> None)"
    using assms(4,5) k(1) p by (simp add: claim_collection_job_def Let_def)
  note stale = due_not_stale [OF k(2,1) p(1)]
  show ?thesis
  proof (cases "jb_state k = JS_RUNNING \<and> 2 \<le> jb_retries k")
    case True
    then show ?thesis using claim k(1) stale
      by (auto simp: claim_lookup claimable_def touched_failed_job_def failed_job_def)
  next
    case False
    then have "claimable now p i i k" "job_of ?db i = Some k"
      using k(2) p stale by (auto simp: claimable_def due_github_def)
    then show ?thesis using claim k(1) by (auto simp: claim_lookup claimed_job_def)
  qed
qed

theorem recovered_job_is_claimed_witness:
  "\<exists>k db' out. job_of (sample_jobs [(''j'', queued_sample)]) ''j'' = Some k \<and>
    claim_collection_job 1 ''j'' 60 (sample_jobs [(''j'', queued_sample)]) = Inr (db', out)"
proof -
  have "list_due_github_collection_jobs 1 100 (co_jobs sample_queued) = Inr (sample_jobs [(''j'', queued_sample)], [''j''])"
    by (simp add: list_due_github_collection_jobs_def fail_lost_github_def lost_github_def due_github_def order_limit_def
        active_github_def provider_of_def run_window_def unfinished_def sample_defs)
  then show ?thesis using recovered_job_is_claimed [OF sample_run(1), of 1 100 _ "[''j'']" "''j''" 60] by fastforce
qed

end
