(* ===== verification/Collection_Worker_Props.thy ===== *)
theory Collection_Worker_Props
  imports Collection_Worker Collection_Props
begin

text \<open>
  What a worker does to the job table and to its own claim: it only takes steps of the machine, a GitHub
  worker writes under its claim alone, an undisturbed worker never leaves its job running, and a collector
  that always fails uses up exactly the attempts of its job.
\<close>

section \<open>Relations that every action of a worker respects\<close>

definition obeys :: "(worker \<Rightarrow> worker \<Rightarrow> bool) \<Rightarrow> 'a work \<Rightarrow> bool" where
  "obeys R m \<longleftrightarrow> (\<forall>w. R w (fst (m w)))"

lemma obeys_result: "obeys R m \<Longrightarrow> m w = (w', r) \<Longrightarrow> R w w'"
  unfolding obeys_def by (metis fst_conv)

text \<open>What one slice may call.\<close>

locale slice_order =
  fixes R :: "worker \<Rightarrow> worker \<Rightarrow> bool" and wo :: world and job :: string and g :: int
  assumes reflexive: "R w w"
    and transitive: "R w w' \<Longrightarrow> R w' w'' \<Longrightarrow> R w w''"
    and checkpoint: "R w (w\<lparr>wk_checkpoint := v\<rparr>)"
    and dispatched: "R w (note_own (Dispatched ok) w)"
    and resumable: "obeys R (call_db wo (resumable_call_op (wo_float wo) job g call))"
    and current: "obeys R (call_db wo (current_op job g))"
    and evidence: "obeys R (call_db wo (evidence_op job g tenant b))"
    and findings: "obeys R (call_db wo (findings_op job g tenant conn))"
begin

lemma same: "(\<And>w. fst (m w) = w) \<Longrightarrow> obeys R m"
  by (simp add: obeys_def reflexive)

lemma sequence: "obeys R m \<Longrightarrow> (\<And>x. obeys R (f x)) \<Longrightarrow> obeys R (and_then m f)"
  unfolding obeys_def and_then_def by (auto split: prod.split sum.split) (metis fst_conv transitive)+

lemma handled: "obeys R m \<Longrightarrow> (\<And>e. obeys R (h e)) \<Longrightarrow> obeys R (attempt m h)"
  unfolding obeys_def attempt_def by (auto split: prod.split sum.split) (metis fst_conv transitive)+

lemma answered: "obeys R m \<Longrightarrow> obeys R (answer m)"
  unfolding obeys_def answer_def by (auto split: prod.split) (metis fst_conv)

lemma choice: "obeys R m \<Longrightarrow> obeys R m' \<Longrightarrow> obeys R (if b then m else m')"
  by simp

lemma silent: "obeys R (yield x)" "obeys R (fail_with e)" "obeys R (run_hook wo j result)"
  by (rule same; simp add: yield_def fail_with_def run_hook_def split: option.split)+

lemma saved: "obeys R (save_checkpoint wo job g v)"
  unfolding save_checkpoint_def by (rule sequence [OF resumable]) (simp add: obeys_def checkpoint reflexive)

lemma collected: "obeys R (run_collect wo job g t)"
  by (induction t) (auto simp: silent intro: sequence answered saved evidence findings)

lemma dispatch: "obeys R (dispatch_github_continuation wo)"
  by (auto simp: obeys_def dispatch_github_continuation_def Let_def reflexive dispatched split: option.split)

lemma reading: "(\<And>w. obeys R (m w)) \<Longrightarrow> obeys R (\<lambda>w. m w w)"
  by (simp add: obeys_def)

lemma finished:
  assumes "jb_attempts j = g"
  shows "obeys R (finish_slice wo job j result)"
proof -
  have "obeys R (\<lambda>w. and_then (call_db wo (resumable_call_op (wo_float wo) job g (Defer (wk_checkpoint w) result delay)))
      (\<lambda>queued. if queued \<and> delay = 0 then and_then (dispatch_github_continuation wo) (\<lambda>_. yield ()) else yield ()) w)" for delay
    by (rule reading) (intro sequence resumable choice dispatch silent)
  then show ?thesis
    unfolding finish_slice_def Let_def assms
    by (auto simp: silent split: sum.split intro!: sequence current silent resumable)
qed

lemma retried:
  assumes "jb_attempts j = g"
  shows "obeys R (retry_if_current wo job j n e)"
  unfolding retry_if_current_def Let_def assms by (intro sequence choice current resumable silent)

lemma slice: "jb_attempts j = g \<Longrightarrow> obeys R (run_github_collection_slice wo job j n collect)"
proof -
  assume g: "jb_attempts j = g"
  have "obeys R (\<lambda>w. (w\<lparr>wk_checkpoint := jb_checkpoint j\<rparr>,
      case for_collection_claim job g of Inl e \<Rightarrow> Inl (class_of e) | Inr cl \<Rightarrow> Inr ()))"
    by (simp add: obeys_def checkpoint)
  then show ?thesis
    unfolding run_github_collection_slice_def g by (intro handled sequence collected finished [OF g] retried [OF g])
qed

end

text \<open>Of every generation, with the calls of the other kinds of jobs.\<close>

locale worker_order =
  fixes R :: "worker \<Rightarrow> worker \<Rightarrow> bool" and wo :: world and job :: string
  assumes slices: "slice_order R wo job g"
    and claim: "obeys R (call_db wo (claim_op job lease))"
    and target: "obeys R (call_db wo (target_op tenant conn))"
    and complete: "obeys R (call_db wo (complete_op job result))"
    and failure: "obeys R (call_db wo (failure_op job summary n))"
begin

lemmas combine = slice_order.sequence [OF slices] slice_order.handled [OF slices] slice_order.silent [OF slices]

lemma got_target: "obeys R (get_validation_target wo tenant conn)"
proof -
  have "obeys R (\<lambda>w. (w, r :: string + connection_row option))" for r
    by (rule slice_order.same [OF slices]) simp
  then show ?thesis unfolding get_validation_target_def by (intro combine(1) target)
qed

lemma ran: "obeys R (run_target wo res job n j)"
  unfolding run_target_def
  by (auto intro!: combine got_target complete slice_order.slice [OF slices] split: option.split sum.split)

lemma handled_failure: "obeys R (handle_failure wo res job n j e)"
  unfolding handle_failure_def by (auto intro!: combine failure slice_order.retried [OF slices])

lemma attempted: "obeys R (run_attempt wo res job n j)"
  unfolding run_attempt_def by (rule combine(2) [OF ran handled_failure])

lemma looped: "obeys R (durable_loop wo res job lease n k)"
  by (induction k) (auto intro!: combine claim attempted split: option.split)

lemma worked: "obeys R (run_durable_collection_job wo res job lease n)"
  unfolding run_durable_collection_job_def by (auto intro!: combine looped)

end

section \<open>Interpretations\<close>

subsection \<open>Steps of the machine\<close>

definition by_machine :: "world \<Rightarrow> bool" where
  "by_machine wo \<longleftrightarrow> (\<forall>n c. co_steps c (wo_others wo n c))"

definition machine_order :: "world \<Rightarrow> worker \<Rightarrow> worker \<Rightarrow> bool" where
  "machine_order wo w w' \<longleftrightarrow> (by_machine wo \<longrightarrow> co_steps (wk_tables w) (wk_tables w'))"

lemma call_machine:
  assumes "\<And>now c c' own x. op now c = Inr (c', own, x) \<Longrightarrow> co_step\<^sup>*\<^sup>* c c'"
  shows "obeys (machine_order wo) (call_db wo op)"
  unfolding obeys_def machine_order_def
proof (intro allI impI)
  fix w :: worker
  assume m: "by_machine wo"
  let ?c = "wo_others wo (wk_calls w) (wk_tables w)"
  have "co_steps (wk_tables w) ?c" using m by (simp add: by_machine_def)
  moreover have "wk_tables (fst (call_db wo op w)) = ?c \<or>
      (\<exists>c' own x. op (wo_clock wo (wk_calls w)) ?c = Inr (c', own, x) \<and> wk_tables (fst (call_db wo op w)) = c')"
    by (auto simp: call_db_def Let_def split: fault.split sum.split prod.split)
  ultimately show "co_steps (wk_tables w) (wk_tables (fst (call_db wo op w)))"
    using assms by (metis rtranclp_trans)
qed

lemma op_steps:
  "claim_op job lease now c = Inr (c', own, x) \<Longrightarrow> co_steps c c'"
  "resumable_call_op fl job g call now c = Inr (c', own, y) \<Longrightarrow> co_steps c c'"
  "current_op job g now c = Inr (c', own, y) \<Longrightarrow> co_steps c c'"
  "target_op tenant conn now c = Inr (c', own, z) \<Longrightarrow> co_steps c c'"
  "complete_op job result now c = Inr (c', own, u) \<Longrightarrow> co_steps c c'"
  "failure_op job summary n now c = Inr (c', own, y) \<Longrightarrow> co_steps c c'"
  "evidence_op job g tenant b now c = Inr (c', own, v) \<Longrightarrow> co_steps c c'"
  "findings_op job g tenant conn now c = Inr (c', own, u) \<Longrightarrow> co_steps c c'"
  by (auto simp: claim_op_def resumable_call_op_def current_op_def target_op_def complete_op_def failure_op_def
      evidence_op_def findings_op_def bind_res_Inr split: option.splits
      simp del: run_other.simps run_resumable.simps intro!: r_into_rtranclp intro: co_step.intros)

interpretation machine: worker_order "machine_order wo" wo job for wo job
proof unfold_locales
  show "machine_order wo w w''" if "machine_order wo w w'" "machine_order wo w' w''" for w w' w''
    using that by (auto simp: machine_order_def)
qed (auto simp: machine_order_def note_own_def intro!: call_machine dest: op_steps)

subsection \<open>What a slice itself writes\<close>

definition fenced_order :: "int \<Rightarrow> worker \<Rightarrow> worker \<Rightarrow> bool" where
  "fenced_order g w w' \<longleftrightarrow> (\<exists>es. wk_own w' = wk_own w @ es \<and> set es \<subseteq> {Own_Fenced g, Dispatched True, Dispatched False})"

lemma call_own:
  assumes "\<And>now c c' own x. op now c = Inr (c', own, x) \<Longrightarrow> set own \<subseteq> {Own_Fenced g}"
  shows "obeys (fenced_order g) (call_db wo op)"
  unfolding obeys_def fenced_order_def call_db_def
  using assms by (auto simp: Let_def split: fault.split sum.split prod.split) blast+

interpretation fenced: slice_order "fenced_order g" wo job g for g wo job
proof unfold_locales
  show "fenced_order g w w''" if "fenced_order g w w'" "fenced_order g w' w''" for w w' w''
    using that by (fastforce simp: fenced_order_def)
  show "fenced_order g w (note_own (Dispatched ok) w)" for w ok
    by (cases ok) (auto simp: fenced_order_def note_own_def)
qed (auto simp: fenced_order_def resumable_call_op_def current_op_def evidence_op_def findings_op_def bind_res_Inr
    intro!: call_own split: option.splits)

section \<open>An undisturbed worker\<close>

definition undisturbed :: "world \<Rightarrow> bool" where
  "undisturbed wo \<longleftrightarrow> (\<forall>n c. wo_others wo n c = c) \<and> (\<forall>n. wo_fault wo n = Works)"

definition worked :: "(worker \<Rightarrow> bool) \<Rightarrow> 'a work \<Rightarrow> ('a \<Rightarrow> worker \<Rightarrow> bool) \<Rightarrow> (worker \<Rightarrow> bool) \<Rightarrow> bool" where
  "worked P m Q E \<longleftrightarrow> (\<forall>w. P w \<longrightarrow> (case m w of (w', Inr x) \<Rightarrow> Q x w' | (w', Inl e) \<Rightarrow> E w'))"

lemma worked_and_then: "worked P m Q E \<Longrightarrow> (\<And>x. worked (Q x) (f x) R E) \<Longrightarrow> worked P (and_then m f) R E"
  by (fastforce simp: worked_def and_then_def split: prod.splits sum.splits)

lemma worked_attempt: "worked P m Q E \<Longrightarrow> (\<And>e. worked E (h e) Q F) \<Longrightarrow> worked P (attempt m h) Q F"
  by (fastforce simp: worked_def attempt_def split: prod.splits sum.splits)

lemma worked_answer: "worked P m (\<lambda>_. Q) Q \<Longrightarrow> worked P (answer m) (\<lambda>_. Q) E"
  by (fastforce simp: worked_def answer_def split: prod.splits sum.splits)

lemma worked_yield: "(\<And>w. P w \<Longrightarrow> Q x w) \<Longrightarrow> worked P (yield x) Q E"
  by (simp add: worked_def yield_def)

lemma worked_fail: "(\<And>w. P w \<Longrightarrow> E w) \<Longrightarrow> worked P (fail_with e) Q E"
  by (simp add: worked_def fail_with_def)

lemma worked_nothing: "worked (\<lambda>_. False) m Q E"
  by (simp add: worked_def)

lemma worked_weaken:
  "worked P m Q E \<Longrightarrow> (\<And>w. P' w \<Longrightarrow> P w) \<Longrightarrow> (\<And>x w. Q x w \<Longrightarrow> Q' x w) \<Longrightarrow> (\<And>w. E w \<Longrightarrow> E' w) \<Longrightarrow> worked P' m Q' E'"
  by (fastforce simp: worked_def split: prod.splits sum.splits)

lemma worked_hook: "worked P (run_hook wo j result) (\<lambda>_. P) P"
  by (auto simp: run_hook_def intro: worked_yield worked_fail split: option.split)

text \<open>A call that meets no fault.\<close>

lemma worked_call:
  assumes "undisturbed wo" "\<And>w now. P w \<Longrightarrow> now = wo_clock wo (wk_calls w) \<Longrightarrow> (case op now (wk_tables w) of
      Inl e \<Rightarrow> E (w\<lparr>wk_calls := wk_calls w + 1\<rparr>)
    | Inr (c, own, x) \<Rightarrow> Q x (w\<lparr>wk_calls := wk_calls w + 1, wk_tables := c, wk_own := wk_own w @ own\<rparr>))"
  shows "worked P (call_db wo op) Q E"
  unfolding worked_def
proof (intro allI impI)
  fix w assume "P w"
  note * = assms(2) [OF this refl]
  have "wo_others wo n c = c" "wo_fault wo n = Works" for n c using assms(1) by (simp_all add: undisturbed_def)
  then show "case call_db wo op w of (w', Inl e) \<Rightarrow> E w' | (w', Inr x) \<Rightarrow> Q x w'"
    using * by (auto simp: call_db_def Let_def split: sum.splits)
qed

abbreviation jobs :: "worker \<Rightarrow> job_db" where
  "jobs w \<equiv> co_jobs (wk_tables w)"

text \<open>The row of the job, and two facts on it: the worker holds the claim \<open>g\<close> at all times, or nobody runs the job.\<close>

definition row_is :: "string \<Rightarrow> (job_row \<Rightarrow> bool) \<Rightarrow> worker \<Rightarrow> bool" where
  "row_is job P w \<longleftrightarrow> keyed (jobs w) \<and> (\<exists>j. job_of (jobs w) job = Some j \<and> P j)"

abbreviation settled :: "string \<Rightarrow> int \<Rightarrow> worker \<Rightarrow> bool" where
  "settled job c \<equiv> row_is job (\<lambda>j. jb_state j \<noteq> JS_RUNNING \<and> 0 \<le> jb_attempts j \<and> jb_created j = c)"

abbreviation present :: "string \<Rightarrow> int \<Rightarrow> worker \<Rightarrow> bool" where
  "present job c \<equiv> row_is job (\<lambda>j. 0 \<le> jb_attempts j \<and> jb_created j = c)"

definition holds :: "world \<Rightarrow> string \<Rightarrow> int \<Rightarrow> int \<Rightarrow> worker \<Rightarrow> bool" where
  "holds wo job g c w \<longleftrightarrow> 1 \<le> g \<and> row_is job (\<lambda>j. active_github (jobs w) j \<and>
     (\<forall>n. current_claim (wo_clock wo n) job g job j) \<and> jb_created j = c) w"

lemma row_is_calls [simp]:
  "row_is job P (w\<lparr>wk_calls := n\<rparr>) = row_is job P w" "row_is job P (w\<lparr>wk_checkpoint := v\<rparr>) = row_is job P w"
  "row_is job P (w\<lparr>wk_own := es\<rparr>) = row_is job P w"
  "row_is job P (w\<lparr>wk_calls := n, wk_own := es\<rparr>) = row_is job P w"
  by (simp_all add: row_is_def)

lemma holds_calls [simp]:
  "holds wo job g c (w\<lparr>wk_calls := n\<rparr>) = holds wo job g c w" "holds wo job g c (w\<lparr>wk_checkpoint := v\<rparr>) = holds wo job g c w"
  "holds wo job g c (w\<lparr>wk_own := es\<rparr>) = holds wo job g c w"
  "holds wo job g c (w\<lparr>wk_calls := n, wk_own := es\<rparr>) = holds wo job g c w"
  by (simp_all add: holds_def row_is_def)

lemma holds_present: "holds wo job g c w \<Longrightarrow> present job c w"
  by (auto simp: holds_def row_is_def current_claim_def)

lemma settled_present: "settled job c w \<Longrightarrow> present job c w"
  by (auto simp: row_is_def)

subsection \<open>The calls of a claim that is current\<close>

lemma update_jobs_lookup:
  "job_of (update_jobs P f db) i = map_option (\<lambda>j. if P i j then f j else j) (job_of db i)"
  "keyed (update_jobs P f db) = keyed db"
  "jd_connections (update_jobs P f db) = jd_connections db"
  by (auto simp: update_jobs_def table_simps)

lemma run_held:
  assumes "job_of db job = Some j" "active_github db j" "current_claim now job g job j" "1 \<le> g"
    "run_resumable fl now job g call db = Inr (db', out)"
  shows "db' = update_jobs (current_claim now job g) (\<lambda>j. (assignments_of now call db j)\<lparr>jb_updated := now\<rparr>) db \<and> out \<noteq> None"
proof -
  have "update_resumable now job g (assignments_of now call db) db = Inr (db', out)"
    using assms(5) by (cases call) (auto simp: save_collection_checkpoint_def defer_collection_job_def
        complete_resumable_job_def retry_resumable_job_def assignments_of_def bind_res_Inr split: if_splits)
  then show ?thesis using assms(1-4) by (auto simp: update_resumable_def Let_def)
qed

definition ends :: "resumable_call \<Rightarrow> bool" where
  "ends call \<longleftrightarrow> (case call of Save v \<Rightarrow> False | _ \<Rightarrow> True)"

lemma assignments_end:
  "ends call \<Longrightarrow> jb_state (assignments_of now call db j) \<noteq> JS_RUNNING"
  "jb_created (assignments_of now call db j) = jb_created j"
  by (cases call; simp add: ends_def assignments_of_def checkpoint_saved_def deferred_def succeeded_def retried_def Let_def)+

lemma assignments_save:
  "current_claim t job g job ((assignments_of now (Save v) db j)\<lparr>jb_updated := now\<rparr>) = current_claim t job g job j"
  "jb_tenant (assignments_of now (Save v) db j) = jb_tenant j"
  "jb_connection (assignments_of now (Save v) db j) = jb_connection j"
  by (simp_all add: assignments_of_def checkpoint_saved_def current_claim_def lease_live_def Let_def)

lemma worked_ends:
  assumes "undisturbed wo" "ends call"
  shows "worked (holds wo job g c) (call_db wo (resumable_call_op (wo_float wo) job g call)) (\<lambda>_. settled job c) (holds wo job g c)"
proof (rule worked_call [OF assms(1)])
  fix w now assume "holds wo job g c w" and now: "now = wo_clock wo (wk_calls w)"
  then obtain j where j: "1 \<le> g" "keyed (jobs w)" "job_of (jobs w) job = Some j" "active_github (jobs w) j"
    "current_claim now job g job j" "jb_created j = c" and h: "holds wo job g c w"
    by (auto simp: holds_def row_is_def)
  show "case resumable_call_op (wo_float wo) job g call now (wk_tables w) of
      Inl e \<Rightarrow> holds wo job g c (w\<lparr>wk_calls := wk_calls w + 1\<rparr>)
    | Inr (c', own, x) \<Rightarrow> settled job c (w\<lparr>wk_calls := wk_calls w + 1, wk_tables := c', wk_own := wk_own w @ own\<rparr>)"
  proof (cases "run_resumable (wo_float wo) now job g call (jobs w)")
    case (Inl e)
    then show ?thesis using h by (simp add: resumable_call_op_def)
  next
    case (Inr r)
    obtain db' out where r: "r = (db', out)" by (cases r)
    note held = run_held [OF j(3-5,1) Inr [unfolded r]]
    have "0 \<le> jb_attempts j" using j(1,5) by (simp add: current_claim_def)
    then show ?thesis using Inr r held j assms(2)
      by (auto simp: resumable_call_op_def row_is_def update_jobs_lookup assignments_end assignments_keep)
  qed
qed

lemma worked_save:
  assumes "undisturbed wo"
  shows "worked (holds wo job g c) (call_db wo (resumable_call_op (wo_float wo) job g (Save v))) (\<lambda>_. holds wo job g c) (holds wo job g c)"
proof (rule worked_call [OF assms(1)])
  fix w now assume "holds wo job g c w" and now: "now = wo_clock wo (wk_calls w)"
  then obtain j where j: "1 \<le> g" "keyed (jobs w)" "job_of (jobs w) job = Some j" "active_github (jobs w) j"
    "current_claim now job g job j" "jb_created j = c" "\<And>n. current_claim (wo_clock wo n) job g job j" and h: "holds wo job g c w"
    by (auto simp: holds_def row_is_def)
  show "case resumable_call_op (wo_float wo) job g (Save v) now (wk_tables w) of
      Inl e \<Rightarrow> holds wo job g c (w\<lparr>wk_calls := wk_calls w + 1\<rparr>)
    | Inr (c', own, x) \<Rightarrow> holds wo job g c (w\<lparr>wk_calls := wk_calls w + 1, wk_tables := c', wk_own := wk_own w @ own\<rparr>)"
  proof (cases "run_resumable (wo_float wo) now job g (Save v) (jobs w)")
    case (Inl e)
    then show ?thesis using h by (simp add: resumable_call_op_def)
  next
    case (Inr r)
    obtain db' out where r: "r = (db', out)" by (cases r)
    note held = run_held [OF j(3-5,1) Inr [unfolded r]]
    let ?j = "(assignments_of now (Save v) (jobs w) j)\<lparr>jb_updated := now\<rparr>"
    have "active_github db' ?j"
      using j(4) held by (simp add: active_github_def provider_of_def update_jobs_lookup assignments_save)
    moreover have "job_of db' job = Some ?j" "keyed db'" using j held by (auto simp: update_jobs_lookup)
    ultimately show ?thesis using Inr r held j(1,6,7)
      by (auto simp: resumable_call_op_def holds_def row_is_def assignments_end assignments_save simp del: run_resumable.simps)
  qed
qed

lemma worked_current:
  assumes "undisturbed wo"
  shows "worked (holds wo job g c) (call_db wo (current_op job g)) (\<lambda>current w. current \<and> holds wo job g c w) E"
proof (rule worked_call [OF assms(1)])
  fix w now assume h: "holds wo job g c w" and now: "now = wo_clock wo (wk_calls w)"
  then obtain j where "job_of (jobs w) job = Some j" "active_github (jobs w) j" "current_claim now job g job j"
    by (auto simp: holds_def row_is_def)
  then have "collection_job_is_current now job g (jobs w)"
    unfolding collection_job_is_current_def list_ex_iff by (auto dest!: map_of_SomeD)
  then show "case current_op job g now (wk_tables w) of
      Inl e \<Rightarrow> E (w\<lparr>wk_calls := wk_calls w + 1\<rparr>)
    | Inr (c', own, x) \<Rightarrow> x \<and> holds wo job g c (w\<lparr>wk_calls := wk_calls w + 1, wk_tables := c', wk_own := wk_own w @ own\<rparr>)"
    using h by (simp add: current_op_def holds_def row_is_def)
qed

lemma worked_evidence:
  assumes "undisturbed wo"
  shows "worked (holds wo job g c) (call_db wo (evidence_op job g tenant b)) (\<lambda>_. holds wo job g c) (holds wo job g c)"
    "worked (holds wo job g c) (call_db wo (findings_op job g tenant conn)) (\<lambda>_. holds wo job g c) (holds wo job g c)"
  by (rule worked_call [OF assms];
      auto simp: evidence_op_def findings_op_def holds_def row_is_def bind_res_Inr bind_res_Inl split: sum.split)+

subsection \<open>A slice\<close>

lemma worked_collect:
  assumes "undisturbed wo"
  shows "worked (holds wo job g c) (run_collect wo job g t) (\<lambda>_. holds wo job g c) (holds wo job g c)"
proof (induction t)
  case (Saves v k)
  have "worked (holds wo job g c) (save_checkpoint wo job g v) (\<lambda>_. holds wo job g c) (holds wo job g c)"
    unfolding save_checkpoint_def by (rule worked_and_then [OF worked_save [OF assms]]) (auto simp: worked_def)
  then show ?case using Saves by (auto intro!: worked_and_then [OF worked_answer])
next
  case (Writes tenant b k)
  then show ?case by (auto intro!: worked_and_then [OF worked_answer] worked_evidence [OF assms])
next
  case (Writes_Findings tenant conn k)
  then show ?case by (auto intro!: worked_and_then [OF worked_answer] worked_evidence [OF assms])
qed (auto intro: worked_yield worked_fail)

lemma worked_dispatch: "worked (row_is job P) (dispatch_github_continuation wo) (\<lambda>_. row_is job P) E"
  by (auto simp: worked_def dispatch_github_continuation_def note_own_def Let_def split: option.split)

lemma worked_finish:
  assumes "undisturbed wo" "jb_attempts j = g"
  shows "worked (holds wo job g c) (finish_slice wo job j result) (\<lambda>_. settled job c) (holds wo job g c)"
proof -
  note step = worked_ends [OF assms(1)]
  have deferral: "worked (holds wo job g c) (\<lambda>w. and_then (call_db wo (resumable_call_op (wo_float wo) job g (Defer (wk_checkpoint w) result delay)))
      (\<lambda>queued. if queued \<and> delay = 0 then and_then (dispatch_github_continuation wo) (\<lambda>_. yield ()) else yield ()) w)
      (\<lambda>_. settled job c) (holds wo job g c)" for delay
  proof -
    have "worked (holds wo job g c) (and_then (call_db wo (resumable_call_op (wo_float wo) job g (Defer v result delay)))
      (\<lambda>queued. if queued \<and> delay = 0 then and_then (dispatch_github_continuation wo) (\<lambda>_. yield ()) else yield ()))
      (\<lambda>_. settled job c) (holds wo job g c)" for v
      by (rule worked_and_then [OF step]) (auto simp: ends_def intro: worked_and_then [OF worked_dispatch] worked_yield)
    then show ?thesis by (simp add: worked_def)
  qed
  have finish: "worked (holds wo job g c) (and_then (run_hook wo j result) (\<lambda>_.
      and_then (call_db wo (resumable_call_op (wo_float wo) job g (Finish_Job result))) (\<lambda>_. yield ())))
      (\<lambda>_. settled job c) (holds wo job g c)"
    by (rule worked_and_then [OF worked_hook], rule worked_and_then [OF step]) (auto simp: ends_def intro: worked_yield)
  have "worked (holds wo job g c) (and_then (call_db wo (current_op job g)) (\<lambda>current. if \<not> current then yield ()
      else and_then (run_hook wo j result) (\<lambda>_.
      and_then (call_db wo (resumable_call_op (wo_float wo) job g (Finish_Job result))) (\<lambda>_. yield ()))))
      (\<lambda>_. settled job c) (holds wo job g c)"
  proof (rule worked_and_then [OF worked_current [OF assms(1)]])
    fix x
    show "worked (\<lambda>w. x \<and> holds wo job g c w) (if \<not> x then yield () else and_then (run_hook wo j result) (\<lambda>_.
      and_then (call_db wo (resumable_call_op (wo_float wo) job g (Finish_Job result))) (\<lambda>_. yield ())))
      (\<lambda>_. settled job c) (holds wo job g c)"
      using finish by (cases x) (simp_all add: worked_def)
  qed
  then show ?thesis
    unfolding finish_slice_def Let_def assms(2) by (auto split: sum.split intro: worked_fail deferral)
qed

lemma run_retry: "1 \<le> n \<Longrightarrow> n \<le> 5 \<Longrightarrow> 1 \<le> g \<Longrightarrow> \<exists>r. run_resumable fl now job g (Retry s n 30) db = Inr r"
  by (auto simp: retry_resumable_job_def bad_delay_def update_resumable_def Let_def split: option.split)

lemma worked_no_error:
  assumes "worked P m Q E" "\<And>w. P w \<Longrightarrow> \<exists>w' x. m w = (w', Inr x)"
  shows "worked P m Q F"
  using assms by (fastforce simp: worked_def)

lemma worked_retry:
  assumes wo: "undisturbed wo" and g: "jb_attempts j = g" and n: "1 \<le> n" "n \<le> 5"
  shows "worked (holds wo job g c) (retry_if_current wo job j n e) (\<lambda>_. settled job c) (\<lambda>_. False)"
proof -
  let ?retry = "call_db wo (resumable_call_op (wo_float wo) job g (Retry (failure_summary e) n 30))"
  have "\<exists>w' x. ?retry w = (w', Inr x)" if "holds wo job g c w" for w
  proof -
    have "1 \<le> g" using that by (simp add: holds_def)
    then obtain r where "run_resumable (wo_float wo) (wo_clock wo (wk_calls w)) job g (Retry (failure_summary e) n 30) (jobs w) = Inr r"
      using run_retry n by blast
    then show ?thesis using wo
      by (cases r) (auto simp: call_db_def resumable_call_op_def undisturbed_def Let_def simp del: run_resumable.simps split: option.split)
  qed
  then have retry: "worked (holds wo job g c) ?retry (\<lambda>_. settled job c) (\<lambda>_. False)"
    by (intro worked_no_error [OF worked_ends [OF wo]]) (auto simp: ends_def)
  show ?thesis
    unfolding retry_if_current_def Let_def g
  proof (rule worked_and_then [OF worked_current [OF wo]])
    fix x
    show "worked (\<lambda>w. x \<and> holds wo job g c w) (if x then and_then ?retry (\<lambda>_. yield ()) else yield ()) (\<lambda>_. settled job c) (\<lambda>_. False)"
    proof (cases x)
      case True
      have "worked (holds wo job g c) (and_then ?retry (\<lambda>_. yield ())) (\<lambda>_. settled job c) (\<lambda>_. False)"
        by (rule worked_and_then [OF retry]) (auto intro: worked_yield)
      with True show ?thesis by simp
    qed (simp add: worked_def)
  qed
qed

lemma worked_slice:
  assumes "undisturbed wo" "jb_attempts j = g" "1 \<le> n" "n \<le> 5"
  shows "worked (holds wo job g c) (run_github_collection_slice wo job j n collect) (\<lambda>_. settled job c) (\<lambda>_. False)"
  unfolding run_github_collection_slice_def assms(2)
proof (rule worked_attempt [OF _ worked_retry [OF assms]])
  show "worked (holds wo job g c) (and_then (\<lambda>w. (w\<lparr>wk_checkpoint := jb_checkpoint j\<rparr>,
            case for_collection_claim job g of Inl e \<Rightarrow> Inl (class_of e) | Inr cl \<Rightarrow> Inr ()))
         (\<lambda>_. and_then (run_collect wo job g (collect (jb_checkpoint j))) (finish_slice wo job j)))
     (\<lambda>_. settled job c) (holds wo job g c)"
    by (rule worked_and_then [OF _ worked_and_then [OF worked_collect [OF assms(1)] worked_finish [OF assms(1,2)]]])
      (auto simp: worked_def split: sum.split)
qed

subsection \<open>The attempts\<close>

lemma row_updated:
  assumes "row_is job P w" "\<And>j. P j \<Longrightarrow> Q (if R job j then f j else j)"
  shows "row_is job Q (w\<lparr>wk_calls := n, wk_tables := (wk_tables w)\<lparr>co_jobs := update_jobs R f (jobs w)\<rparr>\<rparr>)"
proof -
  obtain j where "keyed (jobs w)" "job_of (jobs w) job = Some j" "P j" using assms(1) by (auto simp: row_is_def)
  then show ?thesis using assms(2) [of j] by (simp add: row_is_def update_jobs_lookup)
qed

lemma worked_complete:
  assumes "undisturbed wo"
  shows "worked (present job c) (call_db wo (complete_op job result)) (\<lambda>_. settled job c) E"
  by (rule worked_call [OF assms])
    (simp add: complete_op_def complete_collection_job_def, erule row_updated, simp add: succeeded_def)

lemma worked_failure:
  assumes "undisturbed wo"
  shows "worked (present job c) (call_db wo (failure_op job s n)) (\<lambda>_. settled job c) E"
  by (rule worked_call [OF assms])
    (simp add: failure_op_def record_collection_failure_def, erule row_updated, simp add: failure_recorded_def Let_def)

lemma worked_target:
  assumes "undisturbed wo" "\<And>w n. P w \<Longrightarrow> P (w\<lparr>wk_calls := n\<rparr>)"
  shows "worked P (get_validation_target wo tenant conn) (\<lambda>_. P) P"
proof -
  have "worked P (call_db wo (target_op tenant conn)) (\<lambda>_. P) P"
    by (rule worked_call [OF assms(1)]) (simp add: target_op_def assms(2))
  then show ?thesis
    unfolding get_validation_target_def by (rule worked_and_then) (auto simp: worked_def split: option.split sum.split)
qed

lemma worked_impl:
  assumes wo: "undisturbed wo" and P: "\<And>w n. P w \<Longrightarrow> P (w\<lparr>wk_calls := n\<rparr>)" "\<And>w. P w \<Longrightarrow> present job c w"
    and slice: "\<And>collect. res \<and> jb_kind j = github_kind \<Longrightarrow>
      worked P (run_github_collection_slice wo job j n collect) (\<lambda>_. settled job c) (\<lambda>_. False)"
  shows "worked P (run_target wo res job n j) (\<lambda>_. settled job c) P"
proof -
  have fenced: "worked P (attempt (and_then (run_github_collection_slice wo job j n collect) (\<lambda>_. yield False)) (\<lambda>e. yield False))
      (\<lambda>_. settled job c) P" if "res \<and> jb_kind j = github_kind" for collect
    by (rule worked_attempt [where E = "\<lambda>_. False", OF worked_and_then [OF slice [OF that]]]) (auto intro: worked_yield worked_nothing)
  have legacy: "worked P (and_then (run_hook wo j result) (\<lambda>_. and_then (call_db wo (complete_op job result)) (\<lambda>_. yield False)))
      (\<lambda>_. settled job c) P" for result
  proof -
    have "worked P (call_db wo (complete_op job result)) (\<lambda>_. settled job c) P"
      by (rule worked_weaken [OF worked_complete [OF wo]]) (auto intro: P(2))
    then show ?thesis
      by (intro worked_and_then [OF worked_hook] worked_and_then [where f = "\<lambda>_. yield False"]) (auto intro: worked_yield)
  qed
  show ?thesis
    unfolding run_target_def
    by (rule worked_and_then [OF worked_target [where P = P, OF wo P(1)]])
      (use fenced legacy in \<open>auto intro: worked_fail split: option.split sum.split\<close>)
qed

lemma worked_run_attempt:
  assumes wo: "undisturbed wo" and n: "1 \<le> n" "n \<le> 5"
    and P: "P = (if jb_kind j = github_kind then holds wo job (jb_attempts j) c else present job c)"
  shows "worked P (run_attempt wo res job n j) (\<lambda>_. settled job c) (\<lambda>_. False)"
  unfolding run_attempt_def
proof (rule worked_attempt)
  show "worked P (run_target wo res job n j) (\<lambda>_. settled job c) P"
    by (rule worked_impl [OF wo]) (auto simp: P holds_present worked_slice [OF wo refl n] split: if_splits)
next
  fix e
  have retry: "worked P (attempt (and_then (retry_if_current wo job j n e) (\<lambda>_. yield False)) (\<lambda>_. yield False))
      (\<lambda>_. settled job c) (\<lambda>_. False)" if "jb_kind j = github_kind"
    unfolding P if_P [OF that]
    by (rule worked_attempt [where E = "\<lambda>_. False", OF worked_and_then [OF worked_retry [OF wo refl n]]])
      (auto intro: worked_yield worked_nothing)
  have fail: "worked P (call_db wo (failure_op job s n)) (\<lambda>_. settled job c) (\<lambda>_. False)" for s
    by (rule worked_weaken [OF worked_failure [OF wo]]) (auto simp: P holds_present split: if_splits)
  show "worked P (handle_failure wo res job n j e) (\<lambda>_. settled job c) (\<lambda>_. False)"
    using retry fail by (simp add: handle_failure_def)
qed

subsection \<open>The claim\<close>

lemma claim_provider:
  assumes "claim_collection_job now job lease db = Inr (db', Some r)"
  shows "\<exists>j c. job_of db job = Some j \<and> provider_of db j = Some c \<and> (jb_kind j = github_kind \<longrightarrow> cn_provider c = ''github'') \<and>
    claimable now c job job j \<and> r = claimed_job now lease j \<and> jd_connections db' = jd_connections db \<and>
    (jb_kind j = github_kind \<longrightarrow> now - run_window < jb_created j)"
proof -
  obtain j c where j: "job_of db job = Some j" "provider_of db j = Some c" "jb_kind j = github_kind \<longrightarrow> cn_provider c = ''github''"
    using assms by (auto simp: claim_collection_job_def split: if_splits option.splits)
  let ?db = "fail_stale_github now c job db"
  have claim: "db' = update_jobs (claimable now c job) (claimed_job now lease) ?db"
    "(case job_of ?db job of Some j1 \<Rightarrow> if claimable now c job job j1 then job_of db' job else None | None \<Rightarrow> None) = Some r"
    using assms j by (auto simp: claim_collection_job_def Let_def split: if_splits)
  obtain j1 where j1: "job_of ?db job = Some j1" "claimable now c job job j1" "r = claimed_job now lease j1"
    using claim by (auto simp: claim_lookup split: option.splits if_splits)
  have "j1 = j \<and> (jb_kind j = github_kind \<longrightarrow> now - run_window < jb_created j)"
    using j1(1,2) j(1) by (auto simp: fail_stale_github_def update_jobs_lookup claimable_def touched_failed_job_def failed_job_def
        unfinished_def Let_def split: if_splits)
  moreover have "jd_connections db' = jd_connections db"
    unfolding claim(1) by (simp add: update_jobs_lookup fail_stale_github_def Let_def)
  ultimately show ?thesis using j j1 by auto
qed

lemma stale_row:
  assumes "job_of db job = Some j" "jb_state j \<noteq> JS_RUNNING"
  shows "\<exists>k. job_of (fail_stale_github now c job db) job = Some k \<and> jb_state k \<noteq> JS_RUNNING \<and>
    jb_created k = jb_created j \<and> jb_attempts k = jb_attempts j"
  using assms by (auto simp: fail_stale_github_def update_jobs_lookup touched_failed_job_def failed_job_def Let_def)

lemma claim_row:
  assumes claim: "claim_collection_job now job lease db = Inr (db', out)" and db: "keyed db" "job_of db job = Some j"
    and j: "jb_state j \<noteq> JS_RUNNING" "0 \<le> jb_attempts j"
  shows "\<exists>j'. keyed db' \<and> job_of db' job = Some j' \<and> jb_created j' = jb_created j \<and> 0 \<le> jb_attempts j' \<and>
    (case out of None \<Rightarrow> jb_state j' \<noteq> JS_RUNNING
     | Some r \<Rightarrow> r = j' \<and> j' = claimed_job now lease j \<and> (jb_kind j = github_kind \<longrightarrow> active_github db' j' \<and> now - run_window < jb_created j))"
proof (cases out)
  case None
  from claim show ?thesis
  proof (cases rule: claim_cases)
    case (Claim c)
    obtain k where k: "job_of (fail_stale_github now c job db) job = Some k" "jb_state k \<noteq> JS_RUNNING"
        "jb_created k = jb_created j" "jb_attempts k = jb_attempts j"
      using stale_row [OF db(2) j(1), of now c] by blast
    have "\<not> claimable now c job job k"
      using Claim(2) None k(1) by (simp add: Claim(1) claim_lookup split: if_splits)
    then have "job_of db' job = Some k" using k(1) unfolding Claim(1) by (simp add: claim_lookup)
    moreover have "keyed db'" using claim_jobs [OF db(1) claim] by simp
    ultimately show ?thesis using None j(2) k(2-4) by simp
  qed (use None db j in \<open>auto simp: update_jobs_lookup touched_failed_job_def failed_job_def\<close>)
next
  case (Some r)
  obtain k c where k: "job_of db job = Some k" "provider_of db k = Some c" "jb_kind k = github_kind \<longrightarrow> cn_provider c = ''github''"
    "claimable now c job job k" "r = claimed_job now lease k" "jd_connections db' = jd_connections db"
    "jb_kind k = github_kind \<longrightarrow> now - run_window < jb_created k"
    using claim_provider [OF claim [unfolded Some]] by auto
  have "k = j" using k(1) db(2) by simp
  moreover have "job_of db' job = Some r" using claim Some by (intro claim_returns [of now job lease db]) simp
  moreover have "keyed db'" using claim_jobs [OF db(1) claim] by simp
  ultimately show ?thesis using Some k j(2)
    by (auto simp: claimed_job_def active_github_def provider_of_def claimable_def)
qed

lemma worked_claim:
  assumes wo: "undisturbed wo" "\<And>m k. wo_clock wo m < wo_clock wo k + seconds lease" "\<And>m. wo_clock wo m - run_window < c"
    and lease: "1 \<le> lease" "lease \<le> 86400"
  shows "worked (settled job c) (call_db wo (claim_op job lease)) (\<lambda>out. case out of None \<Rightarrow> settled job c
    | Some j \<Rightarrow> if jb_kind j = github_kind then holds wo job (jb_attempts j) c else present job c) (\<lambda>_. False)"
proof (rule worked_call [OF wo(1)])
  fix w now assume s: "settled job c w" and now: "now = wo_clock wo (wk_calls w)"
  then obtain j where j: "keyed (jobs w)" "job_of (jobs w) job = Some j" "jb_state j \<noteq> JS_RUNNING" "0 \<le> jb_attempts j" "jb_created j = c"
    by (auto simp: row_is_def)
  show "case claim_op job lease now (wk_tables w) of
      Inl e \<Rightarrow> False
    | Inr (c', own, x) \<Rightarrow> (case x of None \<Rightarrow> settled job c
        | Some j \<Rightarrow> if jb_kind j = github_kind then holds wo job (jb_attempts j) c else present job c)
        (w\<lparr>wk_calls := wk_calls w + 1, wk_tables := c', wk_own := wk_own w @ own\<rparr>)"
  proof (cases "claim_collection_job now job lease (jobs w)")
    case (Inl e)
    then show ?thesis using lease by (auto simp: claim_collection_job_def Let_def split: if_splits option.splits)
  next
    case (Inr r)
    obtain db' out where r: "r = (db', out)" by (cases r)
    note row = claim_row [OF Inr [unfolded r] j(1-4)]
    have "lease_live t (claimed_job now lease j)" if "t < now + seconds lease" for t
      using that by (simp add: lease_live_def claimed_job_def)
    then have live: "lease_live (wo_clock wo n) (claimed_job now lease j)" for n using wo(2) now by simp
    show ?thesis
    proof (cases out)
      case None
      then show ?thesis using row Inr r j(5) by (auto simp: claim_op_def row_is_def)
    next
      case (Some k)
      then have k: "keyed db'" "job_of db' job = Some k" "k = claimed_job now lease j"
        "jb_kind j = github_kind \<longrightarrow> active_github db' k"
        using row by auto
      have "current_claim (wo_clock wo n) job (jb_attempts k) job k" if "jb_kind j = github_kind" for n
        using live [of n] wo(3) [of n] j(5) that by (simp add: current_claim_def k(3)) (simp add: claimed_job_def)
      then show ?thesis using k Some Inr r j(4,5)
        by (auto simp: claim_op_def row_is_def holds_def) (simp_all add: claimed_job_def)
    qed
  qed
qed

lemma worked_loop:
  assumes wo: "undisturbed wo" "\<And>m k. wo_clock wo m < wo_clock wo k + seconds lease" "\<And>m. wo_clock wo m - run_window < c"
    and lease: "1 \<le> lease" "lease \<le> 86400" and n: "1 \<le> n" "n \<le> 5"
  shows "worked (settled job c) (durable_loop wo res job lease n k) (\<lambda>_. settled job c) (\<lambda>_. False)"
proof (induction k)
  case (Suc k)
  show ?case
    unfolding durable_loop.simps
  proof (rule worked_and_then [OF worked_claim [OF wo lease]])
    fix out
    show "worked (case out of None \<Rightarrow> settled job c | Some j \<Rightarrow> if jb_kind j = github_kind then holds wo job (jb_attempts j) c else present job c)
      (case out of None \<Rightarrow> yield () | Some j \<Rightarrow> and_then (run_attempt wo res job n j)
        (\<lambda>again. if again then durable_loop wo res job lease n k else yield ()))
      (\<lambda>_. settled job c) (\<lambda>_. False)"
    proof (cases out)
      case (Some j)
      show ?thesis unfolding Some option.case
        by (rule worked_and_then [OF worked_run_attempt [OF wo(1) n refl]]) (auto intro: Suc worked_yield)
    qed (simp add: worked_yield)
  qed
qed (simp add: worked_yield)

lemma kept_state:
  assumes "co_steps (co_init ev) c" "job_of (co_jobs c) job = Some j"
  shows "keyed (co_jobs c)" "0 \<le> jb_attempts j"
  using co_steps_inv [OF assms(1)] assms(2) by (auto simp: co_keyed_def co_counted_def)

section \<open>What a GitHub worker writes\<close>

definition sliced :: "world \<Rightarrow> bool" where
  "sliced wo \<longleftrightarrow> (case wo_collectors wo github_kind of Some impl \<Rightarrow> cr_resumable impl \<noteq> None | None \<Rightarrow> True)"

lemma fenced_attempt:
  assumes "sliced wo" "jb_kind j = github_kind"
  shows "obeys (fenced_order (jb_attempts j)) (run_attempt wo True job n j)"
proof -
  note combine = fenced.sequence fenced.handled fenced.silent
  have target: "obeys (fenced_order g) (get_validation_target wo tenant conn)" for g tenant conn
  proof -
    have "obeys (fenced_order g) (call_db wo (target_op tenant conn))" by (rule call_own) (simp add: target_op_def)
    then show ?thesis unfolding get_validation_target_def by (rule combine(1)) (rule fenced.same, simp)
  qed
  have run: "obeys (fenced_order (jb_attempts j)) (run_target wo True job n j)"
    unfolding run_target_def using assms
    by (auto simp: sliced_def intro!: combine target fenced.slice split: option.splits)
  have handle: "obeys (fenced_order (jb_attempts j)) (handle_failure wo True job n j e)" for e
    unfolding handle_failure_def using assms(2) by (auto intro!: combine fenced.retried)
  show ?thesis unfolding run_attempt_def by (rule fenced.handled [OF run handle])
qed

lemma github_no_repeat:
  assumes "jb_kind j = github_kind" "run_attempt wo True job n j w = (w', Inr again)" "sliced wo"
  shows "\<not> again"
  using assms
  by (auto simp: run_attempt_def run_target_def handle_failure_def attempt_def and_then_def yield_def fail_with_def sliced_def
      split: prod.splits sum.splits option.splits if_splits)

subsection \<open>What a worker did only grows\<close>

definition own_order :: "worker \<Rightarrow> worker \<Rightarrow> bool" where
  "own_order w w' \<longleftrightarrow> (\<exists>es. wk_own w' = wk_own w @ es)"

lemma call_grows: "obeys own_order (call_db wo op)"
  by (auto simp: obeys_def own_order_def call_db_def Let_def split: fault.split sum.split prod.split)

interpretation growing: worker_order own_order wo job for wo job
proof unfold_locales
  show "own_order w w''" if "own_order w w'" "own_order w' w''" for w w' w''
    using that by (auto simp: own_order_def)
qed (auto simp: own_order_def note_own_def intro: call_grows)

lemma claim_own:
  assumes "call_db wo (claim_op job lease) w = (w1, r)"
  shows "wk_own w1 = wk_own w \<and> (\<forall>j. r \<noteq> Inr (Some j)) \<or>
    (\<exists>j. wk_own w1 = wk_own w @ [Own_Claim j] \<and> (r = Inr (Some j) \<or> (\<exists>e. r = Inl e)))"
  using assms
  by (auto simp: call_db_def claim_op_def Let_def bind_res_Inr bind_res_Inl split: fault.splits sum.splits prod.splits option.splits)

section \<open>A collector that fails\<close>

text \<open>The collector of a job of another kind than GitHub, on its active connection, raises \<open>e\<close>.\<close>

definition collector_fails :: "world \<Rightarrow> job_db \<Rightarrow> job_row \<Rightarrow> string \<Rightarrow> bool" where
  "collector_fails wo db j e \<longleftrightarrow> jb_kind j \<noteq> github_kind \<and> (\<exists>c target impl. provider_of db j = Some c \<and>
     wo_settings wo c = Inr target \<and> cn_lifecycle target = ''active'' \<and> jb_kind j \<in> set (kinds_by_provider (cn_provider target)) \<and>
     wo_collectors wo (jb_kind j) = Some impl \<and> cr_collect impl (jb_tenant j) target = Inl e)"

lemma undisturbed_call:
  "undisturbed wo \<Longrightarrow> call_db wo op w = (case op (wo_clock wo (wk_calls w)) (wk_tables w) of
     Inl e \<Rightarrow> (w\<lparr>wk_calls := wk_calls w + 1\<rparr>, Inl (class_of e))
   | Inr (c, own, x) \<Rightarrow> (w\<lparr>wk_calls := wk_calls w + 1, wk_tables := c, wk_own := wk_own w @ own\<rparr>, Inr x))"
  by (auto simp: undisturbed_def call_db_def Let_def split: sum.split)

lemma claim_queued:
  assumes "job_of db job = Some j" "jb_state j = JS_QUEUED" "jb_kind j \<noteq> github_kind" "provider_of db j = Some c"
    and "jb_available j \<le> now" "1 \<le> lease" "lease \<le> 86400"
  shows "\<exists>db'. claim_collection_job now job lease db = Inr (db', Some (claimed_job now lease j)) \<and>
    job_of db' job = Some (claimed_job now lease j) \<and> jd_connections db' = jd_connections db"
proof -
  let ?db = "fail_stale_github now c job db"
  have stale: "job_of ?db job = Some j" "jd_connections ?db = jd_connections db"
    using assms(1,3) by (auto simp: fail_stale_github_def update_jobs_lookup Let_def)
  have able: "claimable now c job job j" using assms(2,3,5) by (simp add: claimable_def)
  show ?thesis using assms(1,3,4,6,7) stale able
    by (simp add: claim_collection_job_def Let_def update_jobs_lookup)
qed

lemma failing_attempt:
  assumes wo: "undisturbed wo" "1 \<le> lease" "lease \<le> 86400"
    and j: "job_of (jobs w) job = Some j" "jb_state j = JS_QUEUED" "jb_available j \<le> wo_clock wo (wk_calls w)"
      "collector_fails wo (jobs w) j e"
  shows "\<exists>now later w'. and_then (call_db wo (claim_op job lease)) (\<lambda>claimed. case claimed of None \<Rightarrow> yield ()
      | Some j \<Rightarrow> and_then (run_attempt wo res job n j) (\<lambda>again. if again then durable_loop wo res job lease n k else yield ())) w
      = (if jb_attempts j + 1 < n then durable_loop wo res job lease n k else yield ()) w' \<and>
    job_of (jobs w') job = Some (failure_recorded later (failure_summary e) n (claimed_job now lease j)) \<and>
    jd_connections (jobs w') = jd_connections (jobs w) \<and>
    wk_own w' = wk_own w @ [Own_Claim (claimed_job now lease j), Own_Unfenced]"
proof -
  let ?now = "wo_clock wo (wk_calls w)" and ?later = "wo_clock wo (wk_calls w + 2)"
  let ?row = "claimed_job ?now lease j"
  obtain c target impl where c: "jb_kind j \<noteq> github_kind" "provider_of (jobs w) j = Some c" "wo_settings wo c = Inr target"
      "cn_lifecycle target = ''active''" "jb_kind j \<in> set (kinds_by_provider (cn_provider target))"
      "wo_collectors wo (jb_kind j) = Some impl" "cr_collect impl (jb_tenant j) target = Inl e"
    using j(4) by (auto simp: collector_fails_def)
  obtain db' where claim: "claim_collection_job ?now job lease (jobs w) = Inr (db', Some ?row)"
      "job_of db' job = Some ?row" "jd_connections db' = jd_connections (jobs w)"
    using claim_queued [OF j(1,2) c(1,2) j(3) wo(2,3)] by blast
  define w1 where "w1 = w\<lparr>wk_calls := wk_calls w + 1, wk_tables := (wk_tables w)\<lparr>co_jobs := db',
      co_log := co_log (wk_tables w) @ [Claimed job (jb_attempts ?row)]\<rparr>, wk_own := wk_own w @ [Own_Claim ?row]\<rparr>"
  have claimed: "call_db wo (claim_op job lease) w = (w1, Inr (Some ?row))"
    by (simp add: undisturbed_call [OF wo(1)] claim_op_def claim(1) w1_def)
  have row: "jb_kind ?row = jb_kind j" "jb_tenant ?row = jb_tenant j" "jb_connection ?row = jb_connection j"
      "jb_state ?row = JS_RUNNING" "jb_attempts ?row = jb_attempts j + 1"
    by (simp_all add: claimed_job_def)
  define w2 where "w2 = w1\<lparr>wk_calls := wk_calls w1 + 1\<rparr>"
  have "call_db wo (target_op (jb_tenant j) (jb_connection j)) w1 = (w2, Inr (Some c))"
    using c(2) by (simp add: undisturbed_call [OF wo(1)] target_op_def w1_def w2_def claim(3) provider_of_def)
  then have target: "run_target wo res job n ?row w1 = (w2, Inl e)"
    using c(1,3-7) by (simp add: run_target_def get_validation_target_def and_then_def row fail_with_def)
  let ?w3 = "w2\<lparr>wk_calls := wk_calls w2 + 1, wk_tables := (wk_tables w2)\<lparr>co_jobs :=
      fst (record_collection_failure ?later job (failure_summary e) n db')\<rparr>, wk_own := wk_own w2 @ [Own_Unfenced]\<rparr>"
  have failed: "run_attempt wo res job n ?row w1 = (?w3, Inr (jb_attempts j + 1 < n))"
  proof -
    have "handle_failure wo res job n ?row e w2 = (?w3, Inr (jb_attempts j + 1 < n))"
      using c(1) by (simp add: handle_failure_def row undisturbed_call [OF wo(1)] failure_op_def record_collection_failure_def
        claim(2) w1_def w2_def)
    then show ?thesis by (simp only: run_attempt_def attempt_def target prod.case sum.case)
  qed
  have after: "job_of (jobs ?w3) job = Some (failure_recorded ?later (failure_summary e) n ?row)"
      "jd_connections (jobs ?w3) = jd_connections (jobs w)" "wk_own ?w3 = wk_own w @ [Own_Claim ?row, Own_Unfenced]"
    by (simp_all add: record_collection_failure_def update_jobs_lookup claim(2,3) row w1_def w2_def)
  have "and_then (call_db wo (claim_op job lease)) (\<lambda>claimed. case claimed of None \<Rightarrow> yield ()
      | Some j \<Rightarrow> and_then (run_attempt wo res job n j) (\<lambda>again. if again then durable_loop wo res job lease n k else yield ())) w
      = (if jb_attempts j + 1 < n then durable_loop wo res job lease n k else yield ()) ?w3"
    by (simp add: and_then_def claimed failed)
  with after show ?thesis by blast
qed

lemma failing_loop:
  assumes wo: "undisturbed wo" "1 \<le> lease" "lease \<le> 86400"
    and j: "job_of (jobs w) job = Some j" "jb_state j = JS_QUEUED" "jb_attempts j < n" "\<forall>k. jb_available j \<le> wo_clock wo k"
      "collector_fails wo (jobs w) j e"
    and k: "n - jb_attempts j \<le> int k" and run: "durable_loop wo res job lease n k w = (w', r)"
  shows "r = Inr () \<and> (\<exists>j' rows. job_of (jobs w') job = Some j' \<and> jb_state j' = JS_FAILED \<and> jb_attempts j' = n \<and>
    jb_lease j' = None \<and> jb_error j' = Some (take 500 (failure_summary e)) \<and>
    wk_own w' = wk_own w @ concat (map (\<lambda>row. [Own_Claim row, Own_Unfenced]) rows) \<and>
    map jb_attempts rows = [jb_attempts j + 1..n])"
  using j k run
proof (induction k arbitrary: w j)
  case 0
  then show ?case by simp
next
  case (Suc k)
  obtain now later w3 where step: "(if jb_attempts j + 1 < n then durable_loop wo res job lease n k else yield ()) w3 = (w', r)"
      "job_of (jobs w3) job = Some (failure_recorded later (failure_summary e) n (claimed_job now lease j))"
      "jd_connections (jobs w3) = jd_connections (jobs w)"
      "wk_own w3 = wk_own w @ [Own_Claim (claimed_job now lease j), Own_Unfenced]"
    using failing_attempt [OF wo Suc.prems(1,2) spec [OF Suc.prems(4)] Suc.prems(5), of res n k] Suc.prems(7)
    by (auto simp: durable_loop.simps)
  let ?j = "failure_recorded later (failure_summary e) n (claimed_job now lease j)"
  have same: "jb_attempts ?j = jb_attempts j + 1" "jb_available ?j = jb_available j" "jb_kind ?j = jb_kind j"
      "jb_tenant ?j = jb_tenant j" "jb_connection ?j = jb_connection j" "jb_lease ?j = None"
      "jb_error ?j = Some (take 500 (failure_summary e))"
      "jb_state ?j = (if jb_attempts j + 1 < n then JS_QUEUED else JS_FAILED)" "jb_attempts (claimed_job now lease j) = jb_attempts j + 1"
    by (simp_all add: failure_recorded_def claimed_job_def Let_def)
  show ?case
  proof (cases "jb_attempts j + 1 < n")
    case False
    then have "jb_attempts j + 1 = n" using Suc.prems(3) by simp
    then show ?thesis using step same False
      by (auto simp: yield_def intro!: exI [of _ "[claimed_job now lease j]"])
  next
    case True
    have "collector_fails wo (jobs w3) ?j e" using Suc.prems(5) unfolding collector_fails_def same provider_of_def step(3) .
    then have rest: "r = Inr () \<and> (\<exists>j' rows. job_of (jobs w') job = Some j' \<and> jb_state j' = JS_FAILED \<and> jb_attempts j' = n \<and>
        jb_lease j' = None \<and> jb_error j' = Some (take 500 (failure_summary e)) \<and>
        wk_own w' = wk_own w3 @ concat (map (\<lambda>row. [Own_Claim row, Own_Unfenced]) rows) \<and>
        map jb_attempts rows = [jb_attempts ?j + 1..n])"
      using Suc.prems(4,6) step(1) True same by (intro Suc.IH [OF step(2)]) simp_all
    then obtain j' rows where "r = Inr ()" "job_of (jobs w') job = Some j'" "jb_state j' = JS_FAILED" "jb_attempts j' = n"
        "jb_lease j' = None" "jb_error j' = Some (take 500 (failure_summary e))"
        "wk_own w' = wk_own w @ concat (map (\<lambda>row. [Own_Claim row, Own_Unfenced]) (claimed_job now lease j # rows))"
        "map jb_attempts rows = [jb_attempts ?j + 1..n]"
      unfolding step(4) by auto
    moreover from this have "map jb_attempts (claimed_job now lease j # rows) = [jb_attempts j + 1..n]"
      using True same by (simp add: upto_rec1 [of "jb_attempts j + 1" n])
    ultimately show ?thesis by blast
  qed
qed

section \<open>A sample world\<close>

definition sample_world :: world where
  "sample_world = \<lparr>wo_clock = (\<lambda>n. 1), wo_others = (\<lambda>n c. c), wo_fault = (\<lambda>n. Works), wo_settings = Inr,
     wo_collectors = (\<lambda>k. Some \<lparr>cr_collect = (\<lambda>t c. Inr []), cr_resumable = Some (\<lambda>t c v. Saves [] (\<lambda>r. Returns []))\<rparr>),
     wo_succeeded = None, wo_dispatch = None, wo_int = (\<lambda>v. Inl ''TypeError''), wo_float = (\<lambda>f. [])\<rparr>"

definition sample_worker :: worker where
  "sample_worker = \<lparr>wk_tables = sample_queued, wk_calls = 0, wk_checkpoint = [], wk_own = []\<rparr>"

definition sample_end :: "worker \<times> (string + unit)" where
  "sample_end = run_durable_collection_job sample_world True ''j'' 60 3 sample_worker"

text \<open>A collector of AWS deployments that is throttled every time.\<close>

definition failing_world :: world where
  "failing_world = \<lparr>wo_clock = (\<lambda>n. 1), wo_others = (\<lambda>n c. c), wo_fault = (\<lambda>n. Works), wo_settings = Inr,
     wo_collectors = (\<lambda>k. Some \<lparr>cr_collect = (\<lambda>t c. Inl ''Throttled''), cr_resumable = None\<rparr>),
     wo_succeeded = None, wo_dispatch = None, wo_int = (\<lambda>v. Inl ''TypeError''), wo_float = (\<lambda>f. [])\<rparr>"

definition failing_row :: job_row where
  "failing_row = new_job 0 ''t'' ''c'' ''aws_deployments'' [] []"

definition failing_worker :: worker where
  "failing_worker = \<lparr>wk_tables = \<lparr>co_jobs = \<lparr>jd_connections = [((''t'', ''c''), \<lparr>cn_provider = ''aws'', cn_lifecycle = ''active'',
       cn_health = ''healthy'', cn_credential_type = PNone, cn_credential_reference = PNone, cn_configuration = [], cn_scopes = []\<rparr>)],
     jd_jobs = [(''j'', failing_row)], jd_validations = []\<rparr>, co_inv = sample_evidence, co_ids = [''j''], co_log = []\<rparr>,
     wk_calls = 0, wk_checkpoint = [], wk_own = []\<rparr>"

definition failing_end :: "worker \<times> (string + unit)" where
  "failing_end = run_durable_collection_job failing_world True ''j'' 60 3 failing_worker"

section \<open>Properties\<close>

text \<open>Whatever fails and whatever others do between its calls, a worker takes steps of the machine.\<close>

lemma worker_steps_machine:
  assumes "\<forall>n c. co_steps c (wo_others wo n c)" "run_durable_collection_job wo res job lease n w = (w', r)"
  shows "co_steps (wk_tables w) (wk_tables w')"
  using obeys_result [OF machine.worked assms(2)] assms(1) by (simp add: machine_order_def by_machine_def)

text \<open>
  C7. A collector that fails uses up its attempts and no more. When the database works, nobody else touches the
  tables, and the collector of a queued job of another kind than GitHub raises \<open>e\<close> every time, a worker claims
  the job once for every attempt that is left, with consecutive generations, records each failure, and leaves the
  job failed after the last one, with its lease given up and the summary of \<open>e\<close>.
\<close>

theorem failing_job_exhausts_attempts:
  assumes "\<forall>k c. wo_others wo k c = c" "\<forall>k. wo_fault wo k = Works" "1 \<le> lease" "lease \<le> 86400" "1 \<le> n" "n \<le> 5"
    and "job_of (jobs w) job = Some j" "jb_state j = JS_QUEUED" "0 \<le> jb_attempts j" "jb_attempts j < n"
    and "\<forall>k. jb_available j \<le> wo_clock wo k" "collector_fails wo (jobs w) j e"
    and "run_durable_collection_job wo res job lease n w = (w', r)"
  shows "r = Inr () \<and> (\<exists>j' rows. job_of (jobs w') job = Some j' \<and> jb_state j' = JS_FAILED \<and> jb_attempts j' = n \<and>
    jb_lease j' = None \<and> jb_error j' = Some (take 500 (failure_summary e)) \<and>
    wk_own w' = wk_own w @ concat (map (\<lambda>row. [Own_Claim row, Own_Unfenced]) rows) \<and>
    map jb_attempts rows = [jb_attempts j + 1..n])"
proof -
  have "undisturbed wo" using assms(1,2) by (simp add: undisturbed_def)
  moreover have "n - jb_attempts j \<le> int (nat n)" using assms(5,9) by simp
  moreover have "durable_loop wo res job lease n (nat n) w = (w', r)"
    using assms(5,6,13) by (simp add: run_durable_collection_job_def)
  ultimately show ?thesis
    using failing_loop [of wo lease w job j n e "nat n" res w' r] assms(3,4,7,8,10-12) by blast
qed

theorem failing_job_exhausts_attempts_witness:
  "\<exists>j'. job_of (jobs (fst failing_end)) ''j'' = Some j' \<and> jb_state j' = JS_FAILED \<and> jb_attempts j' = 3 \<and>
     jb_error j' = Some ''Collection worker could not complete the declared read planes (Throttled).''"
proof -
  have "\<exists>j' rows. job_of (jobs (fst failing_end)) ''j'' = Some j' \<and> jb_state j' = JS_FAILED \<and> jb_attempts j' = 3 \<and>
    jb_lease j' = None \<and> jb_error j' = Some (take 500 (failure_summary ''Throttled'')) \<and>
    wk_own (fst failing_end) = wk_own failing_worker @ concat (map (\<lambda>row. [Own_Claim row, Own_Unfenced]) rows) \<and>
    map jb_attempts rows = [jb_attempts failing_row + 1..3]"
    by (rule failing_job_exhausts_attempts [of failing_world 60 3 failing_worker "''j''" failing_row "''Throttled''" True _ "snd failing_end", THEN conjunct2])
      (simp_all add: failing_end_def failing_world_def failing_worker_def failing_row_def collector_fails_def new_job_def
        provider_of_def github_kind_def kinds_by_provider_def)
  then show ?thesis by (auto simp: failure_summary_def)
qed



text \<open>
  C6. An undisturbed worker leaves no job behind. When the database works, nobody else touches the tables, and the
  run ends within the lease and the run window, a worker returns normally and the job it was given is not
  running afterwards: whatever the collector does, the job is finished, or queued for its next slice or attempt.
\<close>

theorem worker_releases_job:
  assumes "\<forall>n c. wo_others wo n c = c" "\<forall>n. wo_fault wo n = Works"
    and "co_steps (co_init ev) (wk_tables w)" "job_of (co_jobs (wk_tables w)) job = Some j" "jb_state j \<noteq> JS_RUNNING"
    and "\<forall>m k. wo_clock wo m < wo_clock wo k + seconds lease" "\<forall>m. wo_clock wo m - run_window < jb_created j"
    and "1 \<le> lease" "lease \<le> 86400" "1 \<le> n" "n \<le> 5"
    and "run_durable_collection_job wo res job lease n w = (w', r)"
  shows "r = Inr () \<and> (\<exists>j'. job_of (co_jobs (wk_tables w')) job = Some j' \<and> jb_state j' \<noteq> JS_RUNNING)"
proof -
  have "settled job (jb_created j) w"
    using kept_state [OF assms(3,4)] assms(4,5) by (simp add: row_is_def)
  moreover have "undisturbed wo" using assms(1,2) by (simp add: undisturbed_def)
  then have "worked (settled job (jb_created j)) (durable_loop wo res job lease n (nat n)) (\<lambda>_. settled job (jb_created j)) (\<lambda>_. False)"
    using assms(6,7) by (intro worked_loop assms(8-11)) auto
  ultimately show ?thesis using assms(10-12)
    by (cases r) (fastforce simp: run_durable_collection_job_def worked_def row_is_def)+
qed

theorem worker_releases_job_witness:
  "snd sample_end = Inr () \<and> (\<exists>j'. job_of (co_jobs (wk_tables (fst sample_end))) ''j'' = Some j' \<and> jb_state j' \<noteq> JS_RUNNING)"
  using worker_releases_job [of sample_world sample_evidence sample_worker "''j''" queued_sample 60 3 True "fst sample_end" "snd sample_end"]
    sample_run(1)
  by (simp add: sample_end_def sample_world_def sample_worker_def sample_collector_def sample_jobs_def queued_sample_def
      new_job_def seconds_def run_window_def)

end
