(* ===== verification/Github_Walk.thy ===== *)
theory Github_Walk
  imports Github_Tree "HOL-Library.Multiset"
begin

text \<open>
  The tree walk against git trees: the abstract repository is a tree of named nodes, the provider answers
  with listings of its directories, and the walk returns exactly the files the connector analyses.
\<close>

section \<open>Repositories\<close>

text \<open>A file has a name, a mode, a blob and a size; a submodule only a name.\<close>

datatype gnode = File string string string int | Sub string string "gnode list" | Submodule string

fun node_name :: "gnode \<Rightarrow> string" where
  "node_name (File n m s z) = n"
| "node_name (Sub n s ks) = n"
| "node_name (Submodule n) = n"

definition tree_entry :: "string \<Rightarrow> gnode \<Rightarrow> attrs" where
  "tree_entry q k = (case k of
     File n m s z \<Rightarrow> [(''path'', PStr (child_path q n)), (''mode'', PStr m), (''type'', PStr ''blob''), (''sha'', PStr s), (''size'', PInt z)]
   | Sub n s ks \<Rightarrow> [(''path'', PStr (child_path q n)), (''mode'', PStr ''040000''), (''type'', PStr ''tree''), (''sha'', PStr s)]
   | Submodule n \<Rightarrow> [(''path'', PStr (child_path q n)), (''mode'', PStr ''160000''), (''type'', PStr ''commit'')])"

text \<open>The recursive listing of a directory, with paths relative to it.\<close>

fun node_listing :: "string \<Rightarrow> gnode \<Rightarrow> attrs list" where
  "node_listing q (Sub n s ks) = tree_entry q (Sub n s ks) # concat (map (node_listing (child_path q n)) ks)"
| "node_listing q k = [tree_entry q k]"

lemmas node_listing_induct = node_listing.induct [case_names Tree Blob Link]

definition dir_listing :: "bool \<Rightarrow> gnode list \<Rightarrow> attrs list" where
  "dir_listing recursive ks = (if recursive then concat (map (node_listing []) ks) else map (tree_entry []) ks)"

text \<open>An answer may hold more fields than the ones that are read.\<close>

definition same_entry :: "pyval \<Rightarrow> attrs \<Rightarrow> bool" where
  "same_entry v e \<longleftrightarrow> (\<exists>d. v = PDict d \<and>
     (\<forall>f\<in>{''path'', ''mode'', ''type'', ''sha'', ''size''}. attr_get d f = attr_get e f))"

definition honest_answer :: "(string \<Rightarrow> gnode list) \<Rightarrow> string \<Rightarrow> bool \<Rightarrow> attrs \<Rightarrow> bool" where
  "honest_answer objects sha recursive d \<longleftrightarrow> (attr_get d ''truncated'' = PBool False \<longrightarrow>
     (\<exists>vs. attr_get d ''tree'' = PList vs \<and> list_all2 same_entry vs (dir_listing recursive (objects sha))))"

text \<open>A tree is stored under the name of its directory entry, and names are single path components.\<close>

fun stored :: "(string \<Rightarrow> gnode list) \<Rightarrow> gnode \<Rightarrow> bool" where
  "stored objects (Sub n s ks) \<longleftrightarrow> objects s = ks \<and> list_all (stored objects) ks"
| "stored objects k \<longleftrightarrow> True"

definition component :: "string \<Rightarrow> bool" where
  "component n \<longleftrightarrow> n \<noteq> [] \<and> n \<noteq> ''.'' \<and> CHR ''/'' \<notin> set n"

fun named :: "gnode \<Rightarrow> bool" where
  "named (Sub n s ks) \<longleftrightarrow> component n \<and> list_all named ks"
| "named k \<longleftrightarrow> component (node_name k)"

text \<open>The files the connector analyses, by the rules of the documentation: no symbolic links, nothing below a
  skipped directory, and only the names it knows.\<close>

type_synonym file_key = "pyval \<times> pyval \<times> pyval \<times> pyval"

fun analysed :: "string \<Rightarrow> gnode \<Rightarrow> file_key list" where
  "analysed q (File n m s z) = (if m \<noteq> ''120000'' \<and> eligible_name n
     then [(PStr (child_path q n), PStr m, PStr s, PInt z)] else [])"
| "analysed q (Sub n s ks) = (if skipped_part n then [] else concat (map (analysed (child_path q n)) ks))"
| "analysed q (Submodule n) = []"

definition file_of :: "attrs \<Rightarrow> file_key" where
  "file_of d = (attr_get d ''path'', attr_get d ''mode'', attr_get d ''sha'', attr_get d ''size'')"

section \<open>Paths of components\<close>

lemma split_char_append:
  "split_char c acc (a @ c # b) = split_char c acc a @ split_char c [] b"
  by (induction c acc a rule: split_char.induct) auto

lemma split_char_plain: "c \<notin> set n \<Longrightarrow> split_char c acc n = [rev acc @ n]"
  by (induction n arbitrary: acc) auto

lemma path_parts_component [simp]: "component n \<Longrightarrow> path_parts n = [n]"
  by (simp add: path_parts_def component_def split_char_plain)

lemma path_parts_child [simp]: "component n \<Longrightarrow> path_parts (child_path q n) = path_parts q @ [n]"
proof (cases "q = []")
  case False
  assume "component n"
  then have "split_char (CHR ''/'') [] (q @ ''/'' @ n) = split_char (CHR ''/'') [] q @ [n]"
    using split_char_append [of "CHR ''/''" "[]" q n] by (simp add: component_def split_char_plain)
  then show ?thesis using False \<open>component n\<close> by (simp add: child_path_def path_parts_def component_def)
qed (simp add: child_path_def path_parts_def component_def split_char_plain)

definition sub_path :: "string \<Rightarrow> string \<Rightarrow> string" where
  "sub_path p r = (if r = [] then p else child_path p r)"

lemma sub_path_child: "component n \<Longrightarrow> child_path p (child_path r n) = child_path (sub_path p r) n"
  "component n \<Longrightarrow> sub_path p (child_path r n) = child_path (sub_path p r) n"
  by (auto simp: child_path_def component_def sub_path_def)

lemma sub_path_Nil [simp]: "sub_path p [] = p"
  by (simp add: sub_path_def)

definition clean :: "string \<Rightarrow> bool" where
  "clean q \<longleftrightarrow> \<not> list_ex skipped_part (path_parts q)"

lemma clean_Nil [simp]: "clean []"
  by (simp add: clean_def path_parts_def)

lemma clean_child [simp]: "component n \<Longrightarrow> clean (child_path q n) \<longleftrightarrow> clean q \<and> \<not> skipped_part n"
  by (auto simp: clean_def)

lemma eligible_child [simp]: "component n \<Longrightarrow> eligible_path (child_path q n) \<longleftrightarrow> clean q \<and> eligible_name n"
  by (simp add: eligible_path_def clean_def Let_def)

section \<open>Pages\<close>

text \<open>What one entry of a directory adds to the page, when it is accepted.\<close>

definition file_added :: "string \<Rightarrow> gnode \<Rightarrow> file_key list" where
  "file_added q k = (case k of File n m s z \<Rightarrow> if clean q then analysed q k else [] | _ \<Rightarrow> [])"

definition dir_added :: "string \<Rightarrow> gnode \<Rightarrow> (string \<times> string) list" where
  "dir_added q k = (case k of Sub n s ks \<Rightarrow> if clean q \<and> \<not> skipped_part n then [(child_path q n, s)] else [] | _ \<Rightarrow> [])"

lemma same_entryD:
  assumes "same_entry (PDict d) e" "f \<in> {''path'', ''mode'', ''type'', ''sha'', ''size''}"
  shows "attr_get d f = attr_get e f"
  using assms by (auto simp: same_entry_def)

lemma attr_get_simps [simp]: "attr_get ((k, v) # d) k' = (if k = k' then v else attr_get d k')" "attr_get [] k' = PNone"
  by (simp_all add: attr_get_def)

lemma attr_get_set [simp]: "attr_get (dict_set k v d) k' = (if k = k' then v else attr_get d k')"
  by (simp add: attr_get_def dict_simps)

lemma tree_child_adds:
  assumes "tree_child prefix recursive v pg = Inr pg'" "same_entry v (tree_entry r k)" "component (node_name k)"
  shows "map file_of (pg_blobs pg') = map file_of (pg_blobs pg) @ file_added (sub_path prefix r) k \<and>
    pg_directories pg' = pg_directories pg @ dir_added (sub_path prefix r) k"
proof -
  obtain d where d: "v = PDict d" using assms(2) by (auto simp: same_entry_def)
  note f = same_entryD [OF assms(2) [unfolded d]]
  have q: "child_path prefix (child_path r (node_name k)) = child_path (sub_path prefix r) (node_name k)"
    using sub_path_child(1) assms(3) by blast
  have path: "attr_get d ''path'' = PStr (child_path r (node_name k))"
    using f [of "''path''"] by (cases k) (simp_all add: tree_entry_def)
  obtain pg1 where kind: "tree_kind (child_path (sub_path prefix r) (node_name k)) d pg1 = Inr pg'"
    and pg1: "pg_blobs pg1 = pg_blobs pg" "pg_directories pg1 = pg_directories pg"
    using assms(1) path unfolding d by (auto simp: tree_child_def Let_def q split: if_splits)
  show ?thesis
  proof (cases k)
    case (File n m s z)
    then show ?thesis
      using kind pg1 assms(3) f [of "''mode''"] f [of "''type''"] f [of "''sha''"] f [of "''size''"]
      by (auto simp: tree_kind_def Let_def tree_entry_def file_added_def dir_added_def file_of_def clean_def
          split: if_splits)
  next
    case (Sub n s ks)
    then show ?thesis
      using kind pg1 assms(3) f [of "''mode''"] f [of "''type''"] f [of "''sha''"]
      by (auto simp: tree_kind_def Let_def tree_entry_def file_added_def dir_added_def clean_def split: if_splits)
  next
    case (Submodule n)
    then show ?thesis
      using kind pg1 assms(3) f [of "''mode''"] f [of "''type''"]
      by (auto simp: tree_kind_def Let_def tree_entry_def file_added_def dir_added_def split: if_splits)
  qed
qed

lemma bind_gh_assoc: "bind_gh (bind_gh m f) g = bind_gh m (\<lambda>x. bind_gh (f x) g)"
  by (cases m) simp_all

lemma tree_children_append:
  "tree_children p rc (xs @ ys) = (\<lambda>pg. bind_gh (tree_children p rc xs pg) (tree_children p rc ys))"
proof (induction xs)
  case (Cons x xs)
  show ?case by (rule ext) (simp add: Cons.IH bind_gh_assoc)
qed simp

lemma flat_page_adds:
  assumes "tree_children prefix recursive vs pg = Inr pg'" "list_all2 same_entry vs (map (tree_entry r) ks)" "list_all named ks"
  shows "map file_of (pg_blobs pg') = map file_of (pg_blobs pg) @ concat (map (file_added (sub_path prefix r)) ks) \<and>
    pg_directories pg' = pg_directories pg @ concat (map (dir_added (sub_path prefix r)) ks)"
  using assms
proof (induction ks arbitrary: vs pg)
  case (Cons k ks)
  obtain v vs' where v: "vs = v # vs'" "same_entry v (tree_entry r k)" "list_all2 same_entry vs' (map (tree_entry r) ks)"
    using Cons.prems(2) by (auto simp: list_all2_Cons2)
  obtain pg1 where pg1: "tree_child prefix recursive v pg = Inr pg1" "tree_children prefix recursive vs' pg1 = Inr pg'"
    using Cons.prems(1) unfolding v(1) by auto
  have "component (node_name k)" using Cons.prems(3) by (cases k) auto
  then show ?case using tree_child_adds [OF pg1(1) v(2)] Cons.IH [OF pg1(2) v(3)] Cons.prems(3) by auto
qed simp

definition files_below :: "string \<Rightarrow> gnode \<Rightarrow> file_key list" where
  "files_below q k = (if clean q then analysed q k else [])"

lemma files_below_cases [simp]: "clean q \<Longrightarrow> files_below q = analysed q" "\<not> clean q \<Longrightarrow> files_below q = (\<lambda>k. [])"
  by (simp_all add: fun_eq_iff files_below_def)

lemma listings_add:
  assumes "\<And>k vs pg pg'. k \<in> set ks \<Longrightarrow> tree_children prefix True vs pg = Inr pg' \<Longrightarrow>
      list_all2 same_entry vs (node_listing r k) \<Longrightarrow>
      map file_of (pg_blobs pg') = map file_of (pg_blobs pg) @ files_below (sub_path prefix r) k"
    and "tree_children prefix True vs pg = Inr pg'" "list_all2 same_entry vs (concat (map (node_listing r) ks))"
  shows "map file_of (pg_blobs pg') = map file_of (pg_blobs pg) @ concat (map (files_below (sub_path prefix r)) ks)"
  using assms
proof (induction ks arbitrary: vs pg)
  case (Cons k ks)
  obtain us ws where v: "vs = us @ ws" "list_all2 same_entry us (node_listing r k)"
    "list_all2 same_entry ws (concat (map (node_listing r) ks))"
    using Cons.prems(3) by (auto simp: list_all2_append2)
  obtain pg1 where pg1: "tree_children prefix True us pg = Inr pg1" "tree_children prefix True ws pg1 = Inr pg'"
    using Cons.prems(2) unfolding v(1) tree_children_append by auto
  have "map file_of (pg_blobs pg1) = map file_of (pg_blobs pg) @ files_below (sub_path prefix r) k"
    using Cons.prems(1) [OF _ pg1(1) v(2)] by simp
  moreover have "map file_of (pg_blobs pg') = map file_of (pg_blobs pg1) @ concat (map (files_below (sub_path prefix r)) ks)"
    using Cons.IH [OF _ pg1(2) v(3)] Cons.prems(1) by (metis list.set_intros(2))
  ultimately show ?case by simp
qed simp

lemma node_page_adds:
  assumes "tree_children prefix True vs pg = Inr pg'" "list_all2 same_entry vs (node_listing r k)" "named k"
  shows "map file_of (pg_blobs pg') = map file_of (pg_blobs pg) @ files_below (sub_path prefix r) k"
  using assms
proof (induction r k arbitrary: vs pg pg' rule: node_listing_induct)
  case (Tree r n s ks)
  obtain v vs' where v: "vs = v # vs'" "same_entry v (tree_entry r (Sub n s ks))"
    "list_all2 same_entry vs' (concat (map (node_listing (child_path r n)) ks))"
    using Tree(3) by (auto simp: list_all2_Cons2)
  obtain pg1 where pg1: "tree_child prefix True v pg = Inr pg1" "tree_children prefix True vs' pg1 = Inr pg'"
    using Tree(2) unfolding v(1) by auto
  have n: "component n" "list_all named ks" using Tree(4) by auto
  have "map file_of (pg_blobs pg1) = map file_of (pg_blobs pg)"
    using tree_child_adds [OF pg1(1) v(2)] n by (simp add: file_added_def)
  moreover have "map file_of (pg_blobs pg') = map file_of (pg_blobs pg1) @
      concat (map (files_below (sub_path prefix (child_path r n))) ks)"
    using listings_add [OF Tree(1) pg1(2) v(3)] n(2) by (simp add: list_all_iff)
  moreover have "concat (map (files_below (sub_path prefix (child_path r n))) ks) = files_below (sub_path prefix r) (Sub n s ks)"
    using n(1) by (cases "clean (child_path (sub_path prefix r) n)") (auto simp: files_below_def sub_path_child)
  ultimately show ?case by simp
next
  case (Blob r n m s z)
  then show ?case using flat_page_adds [of prefix True vs pg pg' r "[File n m s z]"]
    by (simp add: file_added_def files_below_def)
next
  case (Link r n)
  then show ?case using flat_page_adds [of prefix True vs pg pg' r "[Submodule n]"]
    by (simp add: file_added_def files_below_def)
qed

section \<open>The walk\<close>

text \<open>The files below a pending directory.\<close>

definition pending_files :: "(string \<Rightarrow> gnode list) \<Rightarrow> string \<times> string \<times> bool \<Rightarrow> file_key list" where
  "pending_files objects = (\<lambda>(q, sha, recursive). concat (map (files_below q) (objects sha)))"

definition walk_files :: "(string \<Rightarrow> gnode list) \<Rightarrow> walk \<Rightarrow> file_key multiset" where
  "walk_files objects w = mset (map file_of (wa_entries w)) + mset (concat (map (pending_files objects) (wa_pending w)))"

definition good_tree :: "(string \<Rightarrow> gnode list) \<Rightarrow> gnode list \<Rightarrow> bool" where
  "good_tree objects ks \<longleftrightarrow> list_all (stored objects) ks \<and> list_all named ks"

definition good_walk :: "(string \<Rightarrow> gnode list) \<Rightarrow> walk \<Rightarrow> bool" where
  "good_walk objects w \<longleftrightarrow> (\<forall>(q, sha, r) \<in> set (wa_pending w). good_tree objects (objects sha))"

lemma sub_good:
  assumes "good_tree objects ks" "Sub n s js \<in> set ks"
  shows "good_tree objects (objects s)"
proof -
  have "stored objects (Sub n s js)" "named (Sub n s js)" using assms by (auto simp: good_tree_def list_all_iff)
  then show ?thesis by (auto simp: good_tree_def)
qed

lemma recursive_page_exact:
  assumes "validated_tree_page vs q True seen = Inr pg" "list_all2 same_entry vs (dir_listing True (objects sha))"
    "good_tree objects (objects sha)"
  shows "map file_of (pg_blobs pg) = pending_files objects (q, sha, r)"
  using listings_add [where r = "[]" and prefix = q and vs = vs and ks = "objects sha", OF node_page_adds] assms
  by (auto simp: validated_tree_page_def dir_listing_def pending_files_def good_tree_def list_all_iff)

lemma flat_page_exact:
  assumes "validated_tree_page vs q False seen = Inr pg" "list_all2 same_entry vs (dir_listing False (objects sha))"
    "good_tree objects (objects sha)"
  shows "mset (map file_of (pg_blobs pg)) +
      mset (concat (map (pending_files objects) (map (\<lambda>(p, s). (p, s, True)) (pg_directories pg)))) =
      mset (pending_files objects (q, sha, r))" (is "?files pg = _")
    and "\<forall>(p, s)\<in>set (pg_directories pg). good_tree objects (objects s)"
proof -
  have adds: "map file_of (pg_blobs pg) = concat (map (file_added q) (objects sha))"
    "pg_directories pg = concat (map (dir_added q) (objects sha))"
    using flat_page_adds [of q False vs _ pg "[]" "objects sha"] assms
    by (auto simp: validated_tree_page_def dir_listing_def good_tree_def)
  have node: "mset (file_added q k) + mset (concat (map (pending_files objects) (map (\<lambda>(p, s). (p, s, True)) (dir_added q k)))) =
      mset (files_below q k)" if "stored objects k" "named k" for k
    using that by (cases k; cases "clean q") (auto simp: file_added_def dir_added_def pending_files_def)
  have "mset (concat (map (file_added q) ks)) +
      mset (concat (map (pending_files objects) (map (\<lambda>(p, s). (p, s, True)) (concat (map (dir_added q) ks))))) =
      mset (concat (map (files_below q) ks))" if "list_all (stored objects) ks" "list_all named ks" for ks
    using that by (induction ks) (simp_all add: node [symmetric])
  then show "?files pg = mset (pending_files objects (q, sha, r))"
    using assms(3) unfolding adds by (simp add: good_tree_def pending_files_def)
  show "\<forall>(p, s)\<in>set (pg_directories pg). good_tree objects (objects s)"
    using sub_good [OF assms(3)] unfolding adds by (auto simp: dir_added_def split: gnode.splits if_splits)
qed

text \<open>The two ways an answer is accepted: a truncated recursive page is asked for again, any other page is used.\<close>

lemma walk_answer_cases:
  assumes "walk_answer n q sha r payload w = Inr w'"
  obtains (Split) "r" "attr_get payload ''truncated'' = PBool True" "wa_pending w' = (q, sha, False) # wa_pending w"
      "wa_entries w' = wa_entries w"
    | (Page) children pg where "attr_get payload ''truncated'' = PBool False" "attr_get payload ''tree'' = PList children"
      "validated_tree_page children q r (wa_paths w) = Inr pg" "wa_entries w' = wa_entries w @ pg_blobs pg"
      "wa_pending w' = wa_pending w @ (if r then [] else map (\<lambda>(path, child). (path, child, True)) (pg_directories pg))"
proof -
  obtain children where tree: "attr_get payload ''tree'' = PList children"
    using assms by (auto simp: walk_answer_def split: pyval.splits)
  show thesis
  proof (cases "attr_get payload ''truncated'' = PBool True \<and> r")
    case True
    then have "wa_pending w' = (q, sha, False) # wa_pending w" "wa_entries w' = wa_entries w"
      using assms tree by (auto simp: walk_answer_def Let_def split: pyval.splits if_splits)
    then show thesis using Split True by blast
  next
    case False
    then obtain pg where "attr_get payload ''truncated'' = PBool False"
      "validated_tree_page children q r (wa_paths w) = Inr pg" "wa_entries w' = wa_entries w @ pg_blobs pg"
      "wa_pending w' = wa_pending w @ (if r then [] else map (\<lambda>(path, child). (path, child, True)) (pg_directories pg))"
      using assms tree by (cases r) (auto simp: walk_answer_def Let_def split: pyval.splits if_splits)
    then show thesis using Page tree by blast
  qed
qed

lemma answer_exact:
  assumes "walk_answer n q sha r payload (w\<lparr>wa_pending := rest\<rparr>) = Inr w'" "wa_pending w = (q, sha, r) # rest"
    and "good_walk objects w" "honest_answer objects sha r payload"
  shows "good_walk objects w' \<and> walk_files objects w' = walk_files objects w"
proof -
  have good: "good_tree objects (objects sha)" using assms(2,3) by (simp add: good_walk_def)
  show ?thesis
    using assms(1)
  proof (cases rule: walk_answer_cases)
    case Split
    then show ?thesis using assms(2,3) by (simp add: good_walk_def walk_files_def pending_files_def)
  next
    case (Page children pg)
    then have listing: "list_all2 same_entry children (dir_listing r (objects sha))"
      using assms(4) by (simp add: honest_answer_def)
    show ?thesis
    proof (cases r)
      case True
      then have "validated_tree_page children q True (wa_paths w) = Inr pg"
        "list_all2 same_entry children (dir_listing True (objects sha))" using Page(3) listing by simp_all
      then have "map file_of (pg_blobs pg) = pending_files objects (q, sha, r)" using good by (rule recursive_page_exact)
      then show ?thesis using True Page assms(2,3) by (simp add: good_walk_def walk_files_def)
    next
      case False
      then have "validated_tree_page children q False (wa_paths w) = Inr pg"
        "list_all2 same_entry children (dir_listing False (objects sha))" using Page(3) listing by simp_all
      from flat_page_exact [OF this good] show ?thesis
        using Page assms(2,3) False by (auto simp: good_walk_def walk_files_def)
    qed
  qed
qed

lemma walk_loop_exact:
  assumes "walk_loop fetch left w = Inr entries" "good_walk objects w"
    and "\<And>n sha r d. fetch n sha r = Inr d \<Longrightarrow> honest_answer objects sha r d"
  shows "mset (map file_of entries) = walk_files objects w"
  using assms(1,2)
proof (induction left arbitrary: w)
  case 0
  then show ?case by (auto simp: walk_files_def split: if_splits)
next
  case (Suc left)
  show ?case
  proof (cases "wa_pending w")
    case Nil
    then show ?thesis using Suc.prems by (simp add: walk_files_def)
  next
    case (Cons p rest)
    obtain q sha r where p: "p = (q, sha, r)" by (cases p)
    obtain payload w' where *: "fetch (max_tree_requests - left) sha r = Inr payload"
      "walk_answer (max_tree_requests - left) q sha r payload (w\<lparr>wa_pending := rest\<rparr>) = Inr w'"
      "walk_loop fetch left w' = Inr entries"
      using Suc.prems(1) unfolding Cons p walk_loop.simps by auto
    have "good_walk objects w' \<and> walk_files objects w' = walk_files objects w"
      by (rule answer_exact [OF *(2) Cons [unfolded p] Suc.prems(2) assms(3) [OF *(1)]])
    then show ?thesis using Suc.IH [OF *(3)] by simp
  qed
qed

section \<open>A walk that returns\<close>

definition valid_name :: "string \<Rightarrow> bool" where
  "valid_name n \<longleftrightarrow> component n \<and> n \<noteq> ''..'' \<and> CHR 0x5C \<notin> set n \<and> CHR 0x00 \<notin> set n \<and> printable n \<and> length n \<le> 255"

fun valid_node :: "gnode \<Rightarrow> bool" where
  "valid_node (File n m s z) \<longleftrightarrow> valid_name n \<and> m \<in> {''100644'', ''100755'', ''120000''} \<and> is_sha s \<and> 0 \<le> z"
| "valid_node (Sub n s ks) \<longleftrightarrow> valid_name n \<and> is_sha s \<and> list_all valid_node ks"
| "valid_node (Submodule n) \<longleftrightarrow> valid_name n"

fun node_paths :: "string \<Rightarrow> gnode \<Rightarrow> string list" where
  "node_paths q (Sub n s ks) = child_path q n # concat (map (node_paths (child_path q n)) ks)"
| "node_paths q k = [child_path q (node_name k)]"

definition path_fits :: "string \<Rightarrow> bool" where
  "path_fits p \<longleftrightarrow> length p \<le> 1024 \<and> length (path_parts p) \<le> max_tree_walk_depth + 1"

text \<open>Relative paths in a listing: the joins of valid names.\<close>

inductive relative :: "string \<Rightarrow> bool" where
  "relative []"
| "relative r \<Longrightarrow> valid_name n \<Longrightarrow> relative (child_path r n)"

lemma valid_component: "valid_name n \<Longrightarrow> component n"
  by (simp add: valid_name_def)

lemma join_snoc: "ns \<noteq> [] \<Longrightarrow> join ''/'' (ns @ [n]) = join ''/'' ns @ ''/'' @ n"
  by (induction ns rule: induct_list012) auto

lemma relative_join: "relative r \<Longrightarrow> join ''/'' (path_parts r) = r \<and> (\<forall>p\<in>set (path_parts r). valid_name p)"
proof (induction rule: relative.induct)
  case (2 r n)
  have "join ''/'' (path_parts r @ [n]) = child_path r n"
  proof (cases "path_parts r = []")
    case True
    then have "r = []" using 2 by simp
    then show ?thesis using True by (simp add: child_path_def)
  next
    case False
    then have "r \<noteq> []" by (auto simp: path_parts_def)
    then show ?thesis using False 2 join_snoc [OF False, of n] by (simp add: child_path_def)
  qed
  then show ?case using 2 by (simp add: valid_component)
qed (simp add: path_parts_def)

lemma relative_chars:
  assumes "relative r" "c \<in> set r"
  shows "c = CHR ''/'' \<or> c \<noteq> CHR 0x5C \<and> c \<noteq> CHR 0x00 \<and> 32 \<le> (of_char c :: nat)"
  using assms
proof (induction rule: relative.induct)
  case (2 r n)
  then show ?case by (auto simp: child_path_def valid_name_def printable_def list_all_iff split: if_splits)
qed simp

lemma relative_head: "relative r \<Longrightarrow> r \<noteq> [] \<Longrightarrow> hd r \<noteq> CHR ''/''"
proof (induction rule: relative.induct)
  case (2 r n)
  then show ?case by (cases "r = []") (auto simp: child_path_def valid_name_def component_def neq_Nil_conv)
qed simp

lemma valid_name_neq: "valid_name x \<Longrightarrow> x \<noteq> [] \<and> x \<noteq> ''.'' \<and> x \<noteq> ''..''" "valid_name x \<Longrightarrow> length x \<le> 255"
  by (simp_all add: valid_name_def component_def)

lemma safe_pathI:
  assumes "s \<noteq> []" "CHR 0x5C \<notin> set s" "CHR 0x00 \<notin> set s" "\<not> is_absolute s" "path_parts s \<noteq> []"
    "\<And>x. x \<in> set (path_parts s) \<Longrightarrow> x \<noteq> [] \<and> x \<noteq> ''.'' \<and> x \<noteq> ''..''" "join ''/'' (path_parts s) = s"
  shows "safe_repository_path s = Some s"
  using assms by (auto simp: safe_repository_path_def as_posix_def)

lemma relative_accepted:
  assumes "relative r" "valid_name n"
  shows "\<not> bad_tree_name True (child_path r n)"
proof -
  have rel: "relative (child_path r n)" using assms by (rule relative.intros)
  let ?p = "child_path r n"
  have n: "component n" "n \<noteq> ''..''" using assms(2) by (simp_all add: valid_name_def)
  have parts: "join ''/'' (path_parts ?p) = ?p" "\<forall>x\<in>set (path_parts ?p). valid_name x"
    using relative_join [OF rel] by blast+
  have last: "path_parts ?p = path_parts r @ [n]" using n(1) by simp
  have ne: "?p \<noteq> []" "?p \<noteq> ''.''" "?p \<noteq> ''..''"
  proof -
    have *: "path_parts ''..'' = [''..'']" by (simp add: path_parts_def)
    show "?p \<noteq> []" "?p \<noteq> ''.''" using last by (auto simp: path_parts_def)
    show "?p \<noteq> ''..''" using last n(2) * by auto
  qed
  have "hd ?p \<noteq> CHR ''/''" using relative_head [OF rel ne(1)] .
  then have "\<not> is_absolute ?p" using ne(1) by (cases ?p) (auto simp: is_absolute_def startswith_def)
  moreover have "CHR 0x5C \<notin> set ?p" "CHR 0x00 \<notin> set ?p" using relative_chars [OF rel] by force+
  moreover have "x \<noteq> [] \<and> x \<noteq> ''.'' \<and> x \<noteq> ''..''" if "x \<in> set (path_parts ?p)" for x
    using that parts(2) valid_name_neq by blast
  moreover have "path_parts ?p \<noteq> []" using last by simp
  ultimately have "safe_repository_path ?p = Some ?p" using ne(1) parts(1) by (intro safe_pathI) simp_all
  moreover have "printable ?p" using relative_chars [OF rel] by (fastforce simp: printable_def list_all_iff)
  moreover have "\<not> list_ex (\<lambda>p. 255 < length p) (path_parts ?p)"
    using parts(2) valid_name_neq unfolding list_ex_iff by (meson linorder_not_le)
  ultimately show ?thesis using ne by (simp add: bad_tree_name_def)
qed

text \<open>An entry that is accepted on a page, with its path.\<close>

definition entry_ok :: "string \<Rightarrow> bool \<Rightarrow> pyval \<Rightarrow> string \<Rightarrow> bool" where
  "entry_ok prefix recursive v path \<longleftrightarrow> (\<exists>r k. same_entry v (tree_entry r k) \<and> valid_node k \<and> relative r \<and>
     (recursive \<or> r = []) \<and> path = child_path (sub_path prefix r) (node_name k) \<and> path_fits path)"

lemma valid_node_name: "valid_node k \<Longrightarrow> valid_name (node_name k)"
  by (cases k) auto

lemma tree_kind_returns:
  assumes "same_entry (PDict d) (tree_entry r k)" "valid_node k"
  shows "\<exists>pg'. tree_kind path d pg = Inr pg' \<and> pg_seen pg' = pg_seen pg \<and> pg_relevant pg' \<le> pg_relevant pg + 1"
proof -
  note f = same_entryD [OF assms(1)]
  show ?thesis
    using assms(2) f [of "''mode''"] f [of "''type''"] f [of "''sha''"] f [of "''size''"]
    by (cases k) (auto simp: tree_kind_def Let_def tree_entry_def)
qed

lemma tree_child_returns:
  assumes "entry_ok prefix recursive v path" "path \<notin> set (pg_seen pg)"
  shows "\<exists>pg'. tree_child prefix recursive v pg = Inr pg' \<and> pg_seen pg' = path # pg_seen pg \<and>
    pg_relevant pg' \<le> pg_relevant pg + 1"
proof -
  obtain r k where k: "same_entry v (tree_entry r k)" "valid_node k" "relative r" "recursive \<or> r = []"
    "path = child_path (sub_path prefix r) (node_name k)" "path_fits path"
    using assms(1) unfolding entry_ok_def by blast
  obtain d where d: "v = PDict d" using k(1) by (auto simp: same_entry_def)
  have name: "attr_get d ''path'' = PStr (child_path r (node_name k))"
    using same_entryD [OF k(1) [unfolded d], of "''path''"] by (cases k) (simp_all add: tree_entry_def)
  have comp: "component (node_name k)" using k(2) valid_node_name valid_component by blast
  have "\<not> bad_tree_name True (child_path r (node_name k))"
    using k(2,3) valid_node_name relative_accepted by blast
  then have ok: "\<not> bad_tree_name recursive (child_path r (node_name k))"
    using k(4) comp by (auto simp: bad_tree_name_def child_path_def component_def)
  have path: "child_path prefix (child_path r (node_name k)) = path" using k(5) comp sub_path_child(1) by simp
  show ?thesis
    using tree_kind_returns [OF k(1) [unfolded d] k(2), of path "pg\<lparr>pg_seen := path # pg_seen pg\<rparr>"] assms(2) k(6)
    by (auto simp: tree_child_def d name ok path Let_def path_fits_def)
qed

lemma tree_children_return:
  assumes "list_all2 (entry_ok prefix recursive) vs paths" "distinct paths" "set paths \<inter> set (pg_seen pg) = {}"
  shows "\<exists>pg'. tree_children prefix recursive vs pg = Inr pg' \<and> set (pg_seen pg') = set paths \<union> set (pg_seen pg) \<and>
    pg_relevant pg' \<le> pg_relevant pg + length paths"
  using assms
proof (induction vs paths arbitrary: pg rule: list_all2_induct)
  case (Cons v vs path paths)
  obtain pg1 where pg1: "tree_child prefix recursive v pg = Inr pg1" "pg_seen pg1 = path # pg_seen pg"
    "pg_relevant pg1 \<le> pg_relevant pg + 1"
    using tree_child_returns [OF Cons(1), of pg] Cons.prems by auto
  have "set paths \<inter> set (pg_seen pg1) = {}" using Cons.prems pg1(2) by auto
  then obtain pg' where "tree_children prefix recursive vs pg1 = Inr pg'"
    "set (pg_seen pg') = set paths \<union> set (pg_seen pg1)" "pg_relevant pg' \<le> pg_relevant pg1 + length paths"
    using Cons.IH [of pg1] Cons.prems(1) by auto
  then show ?case using pg1 by auto
qed auto

lemma list_all2_concat_map:
  assumes "list_all2 P vs (concat (map f ks))" "\<And>k us. k \<in> set ks \<Longrightarrow> list_all2 P us (f k) \<Longrightarrow> list_all2 Q us (g k)"
  shows "list_all2 Q vs (concat (map g ks))"
  using assms
proof (induction ks arbitrary: vs)
  case (Cons k ks)
  obtain us ws where "vs = us @ ws" "list_all2 P us (f k)" "list_all2 P ws (concat (map f ks))"
    using Cons.prems(1) by (auto simp: list_all2_append2)
  then show ?case using Cons.IH [of ws] Cons.prems(2) by (auto intro!: list_all2_appendI)
qed simp

lemma listing_ok:
  assumes "list_all2 same_entry vs (node_listing r k)" "valid_node k" "relative r"
    "list_all path_fits (node_paths (sub_path prefix r) k)"
  shows "list_all2 (entry_ok prefix True) vs (node_paths (sub_path prefix r) k)"
  using assms
proof (induction r k arbitrary: vs rule: node_listing_induct)
  case (Tree r n s ks)
  obtain v us where v: "vs = v # us" "same_entry v (tree_entry r (Sub n s ks))"
    "list_all2 same_entry us (concat (map (node_listing (child_path r n)) ks))"
    using Tree(2) by (auto simp: list_all2_Cons2)
  have name: "valid_name n" "component n" using Tree(3) valid_component by auto
  have sub: "sub_path prefix (child_path r n) = child_path (sub_path prefix r) n" using sub_path_child(2) [OF name(2)] .
  have "list_all2 (entry_ok prefix True) us (concat (map (node_paths (child_path (sub_path prefix r) n)) ks))"
  proof (rule list_all2_concat_map [OF v(3)])
    fix k ws
    assume "k \<in> set ks" "list_all2 same_entry ws (node_listing (child_path r n) k)"
    then show "list_all2 (entry_ok prefix True) ws (node_paths (child_path (sub_path prefix r) n) k)"
      using Tree(1) [of k ws] Tree(3-5) name relative.intros(2) unfolding sub by (auto simp: list_all_iff)
  qed
  moreover have "entry_ok prefix True v (child_path (sub_path prefix r) n)"
    unfolding entry_ok_def using v(2) Tree(3-5) by (intro exI [of _ r] exI [of _ "Sub n s ks"]) simp
  ultimately show ?case using v(1) by simp
next
  case (Blob r n m s z)
  then show ?case unfolding entry_ok_def
    by (auto simp: list_all2_Cons2 entry_ok_def intro!: exI [of _ r] exI [of _ "File n m s z"])
next
  case (Link r n)
  then show ?case by (auto simp: list_all2_Cons2 entry_ok_def intro!: exI [of _ r] exI [of _ "Submodule n"])
qed

text \<open>A provider that answers every request, never truncates and echoes the tree it was asked for.\<close>

definition full_answer :: "(string \<Rightarrow> gnode list) \<Rightarrow> string \<Rightarrow> bool \<Rightarrow> attrs \<Rightarrow> bool" where
  "full_answer objects sha recursive d \<longleftrightarrow> attr_get d ''truncated'' = PBool False \<and>
     (\<exists>observed. attr_get d ''sha'' = PStr observed \<and> is_sha observed \<and> (recursive \<longrightarrow> observed = sha)) \<and>
     (\<exists>vs. attr_get d ''tree'' = PList vs \<and> list_all2 same_entry vs (dir_listing recursive (objects sha)))"

definition below :: "(string \<Rightarrow> gnode list) \<Rightarrow> string \<times> string \<Rightarrow> string list" where
  "below objects = (\<lambda>(q, s). concat (map (node_paths q) (objects s)))"

definition dir_fits :: "(string \<Rightarrow> gnode list) \<Rightarrow> string \<times> string \<Rightarrow> bool" where
  "dir_fits objects = (\<lambda>(q, s). is_sha s \<and> list_all valid_node (objects s) \<and> list_all path_fits (below objects (q, s)))"

lemma page_returns:
  assumes "list_all2 (entry_ok q recursive) vs paths" "distinct paths" "set paths \<inter> set seen = {}"
  obtains pg where "validated_tree_page vs q recursive seen = Inr pg" "set (pg_seen pg) = set paths \<union> set seen"
    "pg_relevant pg \<le> length paths"
proof -
  let ?pg = "\<lparr>pg_blobs = [], pg_directories = [], pg_relevant = 0, pg_seen = seen\<rparr>"
  have "set paths \<inter> set (pg_seen ?pg) = {}" using assms(3) by simp
  from tree_children_return [OF assms(1,2) this] show thesis
    using that by (auto simp: validated_tree_page_def)
qed

lemma recursive_answer_returns:
  assumes "full_answer objects sha True d" "dir_fits objects (q, sha)" "distinct (below objects (q, sha))"
    and "set (below objects (q, sha)) \<inter> set (wa_paths w) = {}"
    and "wa_inspected w + length (below objects (q, sha)) \<le> max_tree_inspected_entries"
    and "wa_relevant w + length (below objects (q, sha)) \<le> max_tree_entries"
  shows "\<exists>w'. walk_answer n q sha True d w = Inr w' \<and> wa_pending w' = wa_pending w \<and>
    set (wa_paths w') = set (below objects (q, sha)) \<union> set (wa_paths w) \<and>
    wa_inspected w' = wa_inspected w + length (below objects (q, sha)) \<and>
    wa_relevant w' \<le> wa_relevant w + length (below objects (q, sha))"
proof -
  obtain vs where vs: "attr_get d ''truncated'' = PBool False" "attr_get d ''tree'' = PList vs" "attr_get d ''sha'' = PStr sha"
    "is_sha sha" "list_all2 same_entry vs (concat (map (node_listing []) (objects sha)))"
    using assms(1) unfolding full_answer_def dir_listing_def by auto
  have ok: "list_all2 (entry_ok q True) vs (below objects (q, sha))"
    unfolding below_def prod.case
    by (rule list_all2_concat_map [OF vs(5)])
      (use assms(2) listing_ok [where r = "[]" and prefix = q] relative.intros(1) in
        \<open>auto simp: dir_fits_def below_def list_all_iff\<close>)
  obtain pg where pg: "validated_tree_page vs q True (wa_paths w) = Inr pg"
    "set (pg_seen pg) = set (below objects (q, sha)) \<union> set (wa_paths w)"
    "pg_relevant pg \<le> length (below objects (q, sha))"
    using page_returns [OF ok assms(3,4)] .
  show ?thesis
    using vs pg assms(5,6) list_all2_lengthD [OF ok] by (auto simp: walk_answer_def Let_def)
qed

lemma pending_returns:
  assumes "\<And>n sha r. r \<longrightarrow> is_sha sha \<Longrightarrow> \<exists>d. fetch n sha r = Inr d \<and> full_answer objects sha r d"
    and "wa_pending w = map (\<lambda>(q, s). (q, s, True)) ds" "length ds \<le> left" "list_all (dir_fits objects) ds"
    and "distinct (concat (map (below objects) ds))" "set (concat (map (below objects) ds)) \<inter> set (wa_paths w) = {}"
    and "wa_inspected w + length (concat (map (below objects) ds)) \<le> max_tree_inspected_entries"
    and "wa_relevant w + length (concat (map (below objects) ds)) \<le> max_tree_entries"
  shows "\<exists>entries. walk_loop fetch left w = Inr entries"
  using assms(2-)
proof (induction ds arbitrary: w left)
  case Nil
  then show ?case by (cases left) auto
next
  case (Cons p ds)
  obtain q s where p: "p = (q, s)" by (cases p)
  obtain m where left: "left = Suc m" using Cons.prems(2) by (cases left) auto
  have "is_sha s" using Cons.prems(3) p by (simp add: dir_fits_def)
  then obtain d where d: "fetch (max_tree_requests - m) s True = Inr d" "full_answer objects s True d"
    using assms(1) by blast
  let ?w = "w\<lparr>wa_pending := map (\<lambda>(q, s). (q, s, True)) ds\<rparr>"
  obtain w' where w': "walk_answer (max_tree_requests - m) q s True d ?w = Inr w'" "wa_pending w' = wa_pending ?w"
    "set (wa_paths w') = set (below objects (q, s)) \<union> set (wa_paths ?w)"
    "wa_inspected w' = wa_inspected ?w + length (below objects (q, s))"
    "wa_relevant w' \<le> wa_relevant ?w + length (below objects (q, s))"
    using recursive_answer_returns [OF d(2), of q ?w "max_tree_requests - m"] Cons.prems p by auto
  have "\<exists>entries. walk_loop fetch m w' = Inr entries"
    by (rule Cons.IH) (use Cons.prems w' p left in auto)
  then show ?case using Cons.prems(1) d(1) w'(1) unfolding left p by simp
qed

text \<open>The whole repository lies within the bounds of the connector.\<close>

definition fits :: "gnode list \<Rightarrow> bool" where
  "fits repo \<longleftrightarrow> list_all valid_node repo \<and> list_all path_fits (concat (map (node_paths []) repo)) \<and>
     distinct (concat (map (node_paths []) repo)) \<and> length (concat (map (node_paths []) repo)) \<le> max_tree_entries \<and>
     length (filter (\<lambda>k. case k of Sub n s ks \<Rightarrow> \<not> skipped_part n | _ \<Rightarrow> False) repo) < max_tree_requests"

lemma root_dirs: "concat (map (dir_added []) repo) =
    map (\<lambda>k. case k of Sub n s ks \<Rightarrow> (n, s) | _ \<Rightarrow> ([], [])) (filter (\<lambda>k. case k of Sub n s ks \<Rightarrow> \<not> skipped_part n | _ \<Rightarrow> False) repo)"
  by (induction repo) (auto simp: dir_added_def child_path_def split: gnode.splits)

lemma below_root:
  assumes "list_all (stored objects) repo"
  shows "mset (map (child_path [] \<circ> node_name) repo) + mset (concat (map (below objects) (concat (map (dir_added []) repo))))
    \<subseteq># mset (concat (map (node_paths []) repo))"
  using assms
proof (induction repo)
  case (Cons k repo)
  have "mset [child_path [] (node_name k)] + mset (concat (map (below objects) (dir_added [] k))) \<subseteq># mset (node_paths [] k)"
    using Cons.prems by (cases k) (auto simp: dir_added_def below_def child_path_def)
  from subset_mset.add_mono [OF this Cons.IH] show ?case using Cons.prems by (simp add: ac_simps)
qed simp

lemma valid_named: "valid_node k \<Longrightarrow> named k"
  by (induction k) (auto simp: list_all_iff valid_component)

lemma own_path: "child_path q (node_name k) \<in> set (node_paths q k)"
  by (cases k) simp_all

lemma distinct_mset_sub: "mset xs \<subseteq># mset ys \<Longrightarrow> distinct ys \<Longrightarrow> distinct xs"
  unfolding distinct_count_atmost_1
proof (intro allI)
  fix a
  assume sub: "mset xs \<subseteq># mset ys" and one: "\<forall>a. count (mset ys) a = (if a \<in> set ys then 1 else 0)"
  have "count (mset xs) a \<le> 1" using mset_subset_eq_count [OF sub, of a] one by (metis le_trans zero_le_one order_refl)
  then show "count (mset xs) a = (if a \<in> set xs then 1 else 0)"
    by (cases "a \<in> set xs") (auto simp: count_mset_0_iff le_Suc_eq)
qed

lemma valid_sub:
  assumes "list_all (stored objects) ks" "list_all valid_node ks" "Sub n s js \<in> set ks"
  shows "list_all valid_node (objects s)"
proof -
  have "stored objects (Sub n s js)" "valid_node (Sub n s js)" using assms by (auto simp: list_all_iff)
  then show ?thesis by auto
qed

lemma flat_answer_returns:
  assumes "full_answer objects commit False d" "list_all valid_node (objects commit)"
    and "list_all path_fits (map (child_path [] \<circ> node_name) (objects commit))"
    and "distinct (map (child_path [] \<circ> node_name) (objects commit))"
    and "length (objects commit) \<le> max_tree_entries"
    and "length (concat (map (dir_added []) (objects commit))) < max_tree_requests"
    and "list_all named (objects commit)"
    and "w = \<lparr>wa_pending = [], wa_entries = [], wa_paths = [], wa_inspected = 0, wa_relevant = 0\<rparr>"
  shows "\<exists>w'. walk_answer 1 [] commit False d w = Inr w' \<and>
    wa_pending w' = map (\<lambda>(q, s). (q, s, True)) (concat (map (dir_added []) (objects commit))) \<and>
    set (wa_paths w') = set (map (child_path [] \<circ> node_name) (objects commit)) \<and>
    wa_inspected w' = length (objects commit) \<and> wa_relevant w' \<le> length (objects commit)"
proof -
  let ?repo = "objects commit" let ?paths = "map (child_path [] \<circ> node_name) ?repo"
  obtain vs observed where vs: "attr_get d ''truncated'' = PBool False" "attr_get d ''tree'' = PList vs"
    "attr_get d ''sha'' = PStr observed" "is_sha observed" "list_all2 same_entry vs (map (tree_entry []) ?repo)"
    using assms(1) unfolding full_answer_def dir_listing_def by auto
  have one: "entry_ok [] False v (child_path [] (node_name k))"
    if "k \<in> set ?repo" "same_entry v (tree_entry [] k)" for v k
    using that assms(2,3) relative.intros(1) unfolding entry_ok_def list_all_iff by (intro exI [of _ "[]"] exI [of _ k]) auto
  have ok: "list_all2 (entry_ok [] False) vs ?paths"
    using vs(5) one unfolding list_all2_conv_all_nth by (auto intro!: one nth_mem)
  obtain pg where pg: "validated_tree_page vs [] False [] = Inr pg" "set (pg_seen pg) = set ?paths"
    "pg_relevant pg \<le> length ?paths"
    using page_returns [OF ok assms(4), of "[]"] by auto
  have dirs: "pg_directories pg = concat (map (dir_added []) ?repo)"
    using flat_page_adds [of "[]" False vs _ pg "[]" ?repo] pg(1) vs(5) assms(7) by (auto simp: validated_tree_page_def)
  have "max_tree_entries \<le> max_tree_inspected_entries" by (simp add: max_tree_entries_def max_tree_inspected_entries_def)
  then show ?thesis
    using vs pg assms(5,6,8) dirs list_all2_lengthD [OF ok] by (auto simp: walk_answer_def Let_def)
qed

lemma walk_first:
  assumes "max_tree_requests = Suc left" "fetch 1 commit False = Inr d"
    and "walk_answer 1 [] commit False d \<lparr>wa_pending = [], wa_entries = [], wa_paths = [], wa_inspected = 0, wa_relevant = 0\<rparr> = Inr w'"
  shows "walk_tree fetch commit = walk_loop fetch left w'"
proof -
  have start: "max_tree_requests - left = 1" using assms(1) by simp
  have "walk_loop fetch (Suc left) \<lparr>wa_pending = [([], commit, False)], wa_entries = [], wa_paths = [], wa_inspected = 0, wa_relevant = 0\<rparr> =
    walk_loop fetch left w'" using assms(2,3) start by simp
  then show ?thesis by (simp only: walk_tree_def assms(1))
qed

lemma walk_returns:
  assumes "\<And>n sha r. r \<longrightarrow> is_sha sha \<Longrightarrow> \<exists>d. fetch n sha r = Inr d \<and> full_answer objects sha r d"
    and "list_all (stored objects) (objects commit)" "fits (objects commit)"
  shows "\<exists>entries. walk_tree fetch commit = Inr entries"
proof -
  let ?repo = "objects commit" let ?dirs = "concat (map (dir_added []) ?repo)"
  let ?all = "concat (map (node_paths []) ?repo)" let ?flat = "map (child_path [] \<circ> node_name) ?repo"
  let ?below = "concat (map (below objects) ?dirs)"
  have sub: "mset (?flat @ ?below) \<subseteq># mset ?all" using below_root [OF assms(2)] by simp
  have dist: "distinct (?flat @ ?below)" using distinct_mset_sub [OF sub] assms(3) by (simp add: fits_def)
  have len: "length (?flat @ ?below) \<le> max_tree_entries"
    using size_mset_mono [OF sub] assms(3) by (simp add: fits_def)
  have paths: "set (?flat @ ?below) \<subseteq> set ?all" using set_mset_mono [OF sub] by simp
  have fit: "list_all path_fits (?flat @ ?below)" using assms(3) paths unfolding fits_def list_all_iff by blast
  have valid: "list_all valid_node ?repo" using assms(3) by (simp add: fits_def)
  have dirs: "list_all (dir_fits objects) ?dirs"
  proof -
    have "list_all valid_node (objects s)" if "(q, s) \<in> set ?dirs" for q s
      using that valid_sub [OF assms(2) valid] by (auto simp: dir_added_def split: gnode.splits if_splits)
    moreover have "list_all path_fits (below objects (q, s))" if "(q, s) \<in> set ?dirs" for q s
      using that fit by (auto simp: list_all_iff)
    moreover have "is_sha s" if "(q, s) \<in> set ?dirs" for q s
      using that valid by (auto simp: dir_added_def list_all_iff split: gnode.splits if_splits)
    ultimately have "dir_fits objects p" if "p \<in> set ?dirs" for p
      using that by (cases p) (simp add: dir_fits_def)
    then show ?thesis unfolding list_all_iff by blast
  qed
  have count: "length ?dirs < max_tree_requests" using assms(3) unfolding root_dirs fits_def by simp
  let ?w = "\<lparr>wa_pending = [], wa_entries = [], wa_paths = [], wa_inspected = 0, wa_relevant = 0\<rparr> :: walk"
  obtain d where d: "fetch 1 commit False = Inr d" "full_answer objects commit False d"
    using assms(1) [of False commit 1] by auto
  have named: "list_all named ?repo" using valid valid_named by (simp add: list_all_iff)
  obtain w' where w': "walk_answer 1 [] commit False d ?w = Inr w'"
    "wa_pending w' = map (\<lambda>(q, s). (q, s, True)) ?dirs" "set (wa_paths w') = set ?flat"
    "wa_inspected w' = length ?repo" "wa_relevant w' \<le> length ?repo"
    using flat_answer_returns [OF d(2) valid _ _ _ count named refl] fit dist len by auto
  have "\<exists>entries. walk_loop fetch 255 w' = Inr entries"
    by (rule pending_returns [OF assms(1) w'(2) _ dirs])
      (use dist len count w'(3-5) in \<open>auto simp: max_tree_requests_def max_tree_entries_def max_tree_inspected_entries_def\<close>)
  moreover have "max_tree_requests = Suc 255" by (simp add: max_tree_requests_def)
  ultimately show ?thesis using walk_first [of 255 fetch commit d w'] d(1) w'(1) by metis
qed

section \<open>Properties\<close>

text \<open>
  C15. When the provider answers truthfully, a walk that returns has found exactly the files to analyse: every
  regular file with a known name and no skipped directory above it, once, with its mode, blob and size,
  whichever pages were truncated. For a repository within the bounds, served in full, the walk returns.
\<close>

theorem tree_walk_exact:
  assumes "list_all (stored objects) (objects commit)" "list_all named (objects commit)"
    and "\<And>n sha r d. fetch n sha r = Inr d \<Longrightarrow> honest_answer objects sha r d"
  shows "(walk_tree fetch commit = Inr entries \<longrightarrow>
      mset (map file_of entries) = mset (concat (map (analysed []) (objects commit)))) \<and>
    (fits (objects commit) \<and>
      (\<forall>n sha r. (r \<longrightarrow> is_sha sha) \<longrightarrow> (\<exists>d. fetch n sha r = Inr d \<and> full_answer objects sha r d)) \<longrightarrow>
      (\<exists>found. walk_tree fetch commit = Inr found))"
proof (intro conjI impI)
  let ?w = "\<lparr>wa_pending = [([], commit, False)], wa_entries = [], wa_paths = [], wa_inspected = 0, wa_relevant = 0\<rparr> :: walk"
  assume "walk_tree fetch commit = Inr entries"
  then have "walk_loop fetch max_tree_requests ?w = Inr entries" by (simp add: walk_tree_def)
  moreover have "good_walk objects ?w" using assms(1,2) by (simp add: good_walk_def good_tree_def)
  ultimately have "mset (map file_of entries) = walk_files objects ?w" using assms(3) by (rule walk_loop_exact)
  then show "mset (map file_of entries) = mset (concat (map (analysed []) (objects commit)))"
    by (simp add: walk_files_def pending_files_def)
next
  assume "fits (objects commit) \<and>
    (\<forall>n sha r. (r \<longrightarrow> is_sha sha) \<longrightarrow> (\<exists>d. fetch n sha r = Inr d \<and> full_answer objects sha r d))"
  then show "\<exists>found. walk_tree fetch commit = Inr found" using assms(1) by (intro walk_returns) blast+
qed

definition sample_sha :: string where "sample_sha = replicate 40 (CHR ''a'')"

definition sample_repository :: "string \<Rightarrow> gnode list" where
  "sample_repository sha = (if sha = ''c'' then
     [File ''a.py'' ''100644'' sample_sha 3, Sub ''src'' sample_sha [File ''b.ts'' ''100755'' sample_sha 4, Submodule ''m''],
      Sub ''vendor'' sample_sha [File ''b.ts'' ''100755'' sample_sha 4, Submodule ''m'']]
     else [File ''b.ts'' ''100755'' sample_sha 4, Submodule ''m''])"

definition sample_answer :: "nat \<Rightarrow> string \<Rightarrow> bool \<Rightarrow> attrs gh" where
  "sample_answer n sha recursive = Inr [(''sha'', PStr (if is_sha sha then sha else sample_sha)),
     (''tree'', PList (map PDict (dir_listing recursive (sample_repository sha)))), (''truncated'', PBool False)]"

lemma sample_full: "r \<longrightarrow> is_sha sha \<Longrightarrow> sample_answer n sha r = Inr d \<Longrightarrow> full_answer sample_repository sha r d"
proof -
  have "is_sha sample_sha" by (simp add: is_sha_def sample_sha_def list_all_iff is_digit_def)
  moreover have "list_all2 same_entry (map PDict es) es" for es by (induction es) (simp_all add: same_entry_def)
  ultimately show "r \<longrightarrow> is_sha sha \<Longrightarrow> sample_answer n sha r = Inr d \<Longrightarrow> full_answer sample_repository sha r d"
    by (auto simp: sample_answer_def full_answer_def)
qed

theorem tree_walk_exact_witness:
  "\<exists>entries. walk_tree sample_answer ''c'' = Inr entries \<and>
     mset (map file_of entries) = mset (concat (map (analysed []) (sample_repository ''c'')))"
proof -
  have "sample_sha \<noteq> ''c''" by code_simp
  then have stored: "list_all (stored sample_repository) (sample_repository ''c'')" "list_all named (sample_repository ''c'')"
    by (simp_all add: sample_repository_def component_def)
  have honest: "honest_answer sample_repository sha r d" if "sample_answer n sha r = Inr d" for n sha r d
  proof -
    have "list_all2 same_entry (map PDict es) es" for es by (induction es) (simp_all add: same_entry_def)
    then show ?thesis using that by (auto simp: sample_answer_def honest_answer_def)
  qed
  have small: "fits (sample_repository ''c'')" by code_simp
  have served: "\<forall>n sha r. (r \<longrightarrow> is_sha sha) \<longrightarrow>
      (\<exists>d. sample_answer n sha r = Inr d \<and> full_answer sample_repository sha r d)"
  proof (intro allI impI)
    fix n sha r
    assume sha: "r \<longrightarrow> is_sha sha"
    obtain d where d: "sample_answer n sha r = Inr d" by (simp add: sample_answer_def)
    then show "\<exists>d. sample_answer n sha r = Inr d \<and> full_answer sample_repository sha r d"
      using sample_full [OF sha d] by blast
  qed
  have "fits (sample_repository ''c'') \<and> (\<forall>n sha r. (r \<longrightarrow> is_sha sha) \<longrightarrow>
      (\<exists>d. sample_answer n sha r = Inr d \<and> full_answer sample_repository sha r d)) \<longrightarrow>
      (\<exists>found. walk_tree sample_answer ''c'' = Inr found)"
    by (rule conjunct2 [OF tree_walk_exact [of sample_repository "''c''" sample_answer, OF stored honest]])
  from mp [OF this conjI [OF small served]] obtain found where found: "walk_tree sample_answer ''c'' = Inr found" ..
  have "walk_tree sample_answer ''c'' = Inr found \<longrightarrow>
      mset (map file_of found) = mset (concat (map (analysed []) (sample_repository ''c'')))"
    by (rule conjunct1 [OF tree_walk_exact [of sample_repository "''c''" sample_answer, OF stored honest]])
  from mp [OF this found] found show ?thesis by (intro exI conjI)
qed

end
