(* ===== verification/Github_Json.thy ===== *)
theory Github_Json
  imports Github_Tree Static_Cfn_Props
begin

text \<open>
  The JSON preflight and relevance check of \<open>src/denali/connectors/github_repository.py\<close>:
  \<open>_bounded_json_structure\<close> and \<open>_json_analysis_relevance\<close>. \<open>json.loads\<close> with the strict hooks (repeated
  keys and non-finite constants rejected) is the argument \<open>parse\<close>, \<open>None\<close> when it raises.
\<close>

section \<open>The structure preflight\<close>

definition max_json_structure_items :: nat where "max_json_structure_items = 100000"
definition max_json_structure_depth :: nat where "max_json_structure_depth = 64"

record json_scan =
  js_stack :: "char list"
  js_quoted :: bool
  js_escaped :: bool
  js_atom :: bool
  js_items :: nat

definition closing :: "char \<Rightarrow> char" where
  "closing c = (if c = CHR ''['' then CHR '']'' else CHR ''}'')"

text \<open>One character; \<open>None\<close> is the early \<open>return False\<close>.\<close>

definition json_step :: "char \<Rightarrow> json_scan \<Rightarrow> json_scan option" where
  "json_step c j =
     (if js_quoted j then
        Some (if js_escaped j then j\<lparr>js_escaped := False\<rparr>
              else if c = CHR 0x5C then j\<lparr>js_escaped := True\<rparr>
              else if c = CHR 0x22 then j\<lparr>js_quoted := False\<rparr> else j)
      else if is_space c then Some (j\<lparr>js_atom := False\<rparr>)
      else case
        (if c = CHR 0x22 then Some (j\<lparr>js_quoted := True, js_atom := False, js_items := js_items j + 1\<rparr>)
         else if c = CHR ''['' \<or> c = CHR ''{'' then
           (if max_json_structure_depth < length (c # js_stack j) then None
            else Some (j\<lparr>js_stack := c # js_stack j, js_atom := False, js_items := js_items j + 1\<rparr>))
         else if c = CHR '']'' \<or> c = CHR ''}'' then
           (case js_stack j of [] \<Rightarrow> None
            | b # rest \<Rightarrow> if closing b \<noteq> c then None else Some (j\<lparr>js_stack := rest, js_atom := False\<rparr>))
         else if c = CHR '','' \<or> c = CHR '':'' then Some (j\<lparr>js_atom := False, js_items := js_items j + 1\<rparr>)
         else if \<not> js_atom j then Some (j\<lparr>js_atom := True, js_items := js_items j + 1\<rparr>)
         else Some j)
      of None \<Rightarrow> None
      | Some j' \<Rightarrow> if max_json_structure_items < js_items j' then None else Some j')"

fun json_scan_text :: "string \<Rightarrow> json_scan \<Rightarrow> json_scan option" where
  "json_scan_text [] j = Some j"
| "json_scan_text (c # s) j = (case json_step c j of None \<Rightarrow> None | Some j' \<Rightarrow> json_scan_text s j')"

definition bounded_json_structure :: "string \<Rightarrow> bool" where
  "bounded_json_structure s =
     (case json_scan_text s \<lparr>js_stack = [], js_quoted = False, js_escaped = False, js_atom = False, js_items = 0\<rparr> of
        None \<Rightarrow> False
      | Some j \<Rightarrow> \<not> js_quoted j \<and> js_stack j = [])"

section \<open>Relevance\<close>

definition max_json_inspection_bytes :: nat where "max_json_inspection_bytes = 8000000"

definition configuration_keys :: "string list" where
  "configuration_keys = [''mcp'', ''mcpservers'', ''mcpconfig'', ''servers'', ''provider'', ''providers'', ''models'',
     ''model'', ''modelid'', ''modelname'', ''llm'', ''inference'', ''openai'', ''anthropic'', ''bedrock'', ''vertexai'',
     ''azureopenai'', ''aiconfig'', ''agents'', ''agent'', ''tools'', ''tool'', ''dependencies'', ''devdependencies'',
     ''peerdependencies'', ''optionaldependencies'']"

definition configuration_key :: "string \<Rightarrow> bool" where
  "configuration_key key \<longleftrightarrow>
     casefold (filter (\<lambda>c. c \<noteq> CHR ''-'' \<and> c \<noteq> CHR ''_'') key) \<in> set configuration_keys"

text \<open>
  The loop over the values still to inspect, the last one first; \<open>left\<close> is how many inspections are left.
  \<open>Some True\<close> is relevant, \<open>Some False\<close> irrelevant, \<open>None\<close> undecided.
\<close>

fun relevance_loop :: "nat \<Rightarrow> pyval list \<Rightarrow> bool option" where
  "relevance_loop left [] = Some False"
| "relevance_loop 0 (v # pending) = None"
| "relevance_loop (Suc left) (v # pending) = (case v of
     PDict d \<Rightarrow> if list_ex (\<lambda>(k, _). configuration_key k) d then Some True
       else relevance_loop left (rev (map snd d) @ pending)
   | PList xs \<Rightarrow> relevance_loop left (rev xs @ pending)
   | _ \<Rightarrow> relevance_loop left pending)"

definition json_analysis_relevance :: "(string \<Rightarrow> pyval option) \<Rightarrow> string \<Rightarrow> bool option" where
  "json_analysis_relevance parse content =
     (if max_json_inspection_bytes < length content then None
      else if \<not> bounded_json_structure content then None
      else case parse content of
        None \<Rightarrow> None
      | Some v \<Rightarrow>
          if (case v of PDict d \<Rightarrow> list_ex (\<lambda>(k, _). k \<in> {''Resources'', ''resources'', ''id''}) d | _ \<Rightarrow> False)
          then Some True else relevance_loop max_tree_inspected_entries [v])"

section \<open>Reference definition\<close>

text \<open>A configuration key anywhere in a document.\<close>

function configured :: "pyval \<Rightarrow> bool" where
  "configured v \<longleftrightarrow> (case v of PDict d \<Rightarrow> list_ex (\<lambda>(k, _). configuration_key k) d | _ \<Rightarrow> False) \<or>
     list_ex configured (json_children v)"
  by pat_completeness auto
termination
  by (relation "measure size") (auto simp: json_children_size)

declare configured.simps [simp del]

lemma children_simps [simp]:
  "json_nodes (PDict d) = Suc (sum_list (map json_nodes (map snd d)))" "json_nodes (PList xs) = Suc (sum_list (map json_nodes xs))"
  "json_nodes PNone = 1" "json_nodes (PBool b) = 1" "json_nodes (PInt i) = 1" "json_nodes (PFloat f) = 1" "json_nodes (PStr t) = 1"
  "configured (PDict d) \<longleftrightarrow> list_ex (\<lambda>(k, _). configuration_key k) d \<or> list_ex configured (map snd d)"
  "configured (PList xs) \<longleftrightarrow> list_ex configured xs"
  "\<not> configured PNone" "\<not> configured (PBool b)" "\<not> configured (PInt i)" "\<not> configured (PFloat f)" "\<not> configured (PStr t)"
  by (simp_all add: json_nodes.simps [of "PDict d"] json_nodes.simps [of "PList xs"] json_nodes.simps [of PNone]
      json_nodes.simps [of "PBool b"] json_nodes.simps [of "PInt i"] json_nodes.simps [of "PFloat f"] json_nodes.simps [of "PStr t"]
      configured.simps [of "PDict d"] configured.simps [of "PList xs"] configured.simps [of PNone]
      configured.simps [of "PBool b"] configured.simps [of "PInt i"] configured.simps [of "PFloat f"] configured.simps [of "PStr t"])

text \<open>The loop answers irrelevant exactly when it has seen every value and none is a configuration.\<close>

lemma sum_map_rev: "sum_list (map f (rev xs)) = sum_list (map f (xs :: 'a list))" for f :: "'a \<Rightarrow> nat"
  by (simp add: rev_map [symmetric])

lemma relevance_loop_False:
  "relevance_loop left vs = Some False \<longleftrightarrow> sum_list (map json_nodes vs) \<le> left \<and> \<not> list_ex configured vs"
proof (induction left vs rule: relevance_loop.induct)
  case (2 v vs)
  have "0 < json_nodes v" by (simp add: json_nodes.simps)
  then show ?case by simp
next
  case (3 left v vs)
  then show ?case by (cases v) (auto simp: sum_map_rev list_ex_iff)
qed simp

lemma relevance_loop_True:
  "relevance_loop left vs = Some True \<Longrightarrow> list_ex configured vs"
proof (induction left vs rule: relevance_loop.induct)
  case (3 left v vs)
  then show ?case by (cases v) (auto simp: list_ex_iff split: if_splits)
qed simp_all

end
