(* ===== verification/Github_Files.thy ===== *)
theory Github_Files
  imports Github_Json
begin

text \<open>
  The bounded retrieval of a repository in \<open>src/denali/connectors/github_repository.py\<close>: which entries of the
  tree are candidates (\<open>_snapshot\<close>), the decoding of a blob, and \<open>_resumable_files\<close>, which inspects them in
  batches. \<open>fetch\<close> is what the blob request of an entry gives or raises, \<open>parse\<close> the strict JSON decoder and
  \<open>b64\<close> the strict base64 decoder. \<open>ext n k\<close> is what the budget shows at the check \<open>k\<close> of batch \<open>n\<close>: its
  blocked code, and whether the deadline has passed. Sizes are those of the tree, in bytes.
\<close>

section \<open>Candidates\<close>

definition max_blob_bytes :: int where "max_blob_bytes = 2000000"
definition inspection_bytes :: int where "inspection_bytes = 8000000"
definition inspection_total_bytes :: int where "inspection_total_bytes = 256000000"
definition selected_files_limit :: nat where "selected_files_limit = 2000"
definition total_bytes_limit :: int where "total_bytes_limit = 25000000"
definition fetch_workers :: nat where "fetch_workers = 8"

type_synonym entry = "string \<times> string \<times> int"

definition bytes_text :: string where "bytes_text = ''2000000''"

text \<open>One blob of the tree: skipped, a warning, a candidate, or an error.\<close>

definition candidate :: "attrs \<Rightarrow> (string list \<times> entry list) gh" where
  "candidate e = (if attr_get e ''type'' \<noteq> PStr ''blob'' then Inr ([], [])
     else case attr_get e ''path'' of
       PStr value \<Rightarrow> (case safe_repository_path value of
           None \<Rightarrow> Inr ([], [])
         | Some path \<Rightarrow>
             if attr_get e ''mode'' \<noteq> PStr ''100644'' \<and> attr_get e ''mode'' \<noteq> PStr ''100755'' \<or> \<not> eligible_path path then Inr ([], [])
             else (case attr_get e ''sha'' of
                 PStr sha \<Rightarrow>
                   if \<not> is_sha sha then Inl (Source_Error ''invalid_blob_identity'')
                   else (case attr_get e ''size'' of
                       PInt bytes \<Rightarrow>
                         if bytes < 0 then Inl (Source_Error ''repository_blob_limit_exceeded'')
                         else if (if generic_json path then inspection_bytes else max_blob_bytes) < bytes then
                           Inr ([path @ '': larger than '' @ bytes_text @ '' bytes''], [])
                         else Inr ([], [(path, sha, bytes)])
                     | PBool b \<Rightarrow> Inr ([], [(path, sha, if b then 1 else 0)])
                     | _ \<Rightarrow> Inl (Source_Error ''repository_blob_limit_exceeded''))
               | _ \<Rightarrow> Inl (Source_Error ''invalid_blob_identity'')))
     | _ \<Rightarrow> Inr ([], []))"

fun candidates :: "attrs list \<Rightarrow> (string list \<times> entry list) gh" where
  "candidates [] = Inr ([], [])"
| "candidates (e # es) = bind_gh (candidate e) (\<lambda>(ws, xs). bind_gh (candidates es) (\<lambda>(ws', xs'). Inr (ws @ ws', xs @ xs')))"

definition sorted_candidates :: "entry list \<Rightarrow> entry list" where
  "sorted_candidates = sort_key (\<lambda>(path, _, _). (analysis_priority path, path))"

section \<open>A blob\<close>

definition blob_content :: "(string \<Rightarrow> string option) \<Rightarrow> (pyval \<Rightarrow> string) \<Rightarrow> entry \<Rightarrow> attrs \<Rightarrow> string gh" where
  "blob_content b64 str_of = (\<lambda>(path, sha, bytes) blob.
     if attr_get blob ''sha'' \<noteq> PStr sha \<or> attr_get blob ''encoding'' \<noteq> PStr ''base64'' then
       Inl (Source_Error ''invalid_blob_response'')
     else let encoded = filter (\<lambda>c. \<not> is_space c)
         (case map_of blob ''content'' of None \<Rightarrow> [] | Some v \<Rightarrow> py_str str_of v) in
       if 4 * ((bytes + 2) div 3) < int (length encoded) then Inl (Source_Error ''blob_size_mismatch'')
       else case b64 encoded of
         None \<Rightarrow> Inl (Source_Error ''invalid_blob_encoding'')
       | Some content \<Rightarrow>
           if int (length content) \<noteq> bytes then Inl (Source_Error ''blob_size_mismatch'') else Inr content)"

section \<open>Batches\<close>

record files_state =
  fs_files :: "(string \<times> string) list"
  fs_warnings :: "string list"
  fs_ignored :: nat
  fs_total :: int
  fs_inspected :: int
  fs_file_skipped :: nat
  fs_byte_skipped :: nat
  fs_verified :: nat

definition files_full :: "files_state \<Rightarrow> bool" where
  "files_full st \<longleftrightarrow> selected_files_limit \<le> length (fs_files st)"

text \<open>What the inner loop does with the next entry: \<open>k\<close> entries are in the batch, \<open>large\<close> of them above the blob
  bound.\<close>

datatype batch_decision = Stop_Batch | Skip files_state | Take files_state nat

definition decide :: "entry \<Rightarrow> nat \<Rightarrow> nat \<Rightarrow> files_state \<Rightarrow> batch_decision" where
  "decide = (\<lambda>(path, sha, bytes) k large st.
     if fetch_workers \<le> k \<or> max_blob_bytes < bytes \<and> 2 \<le> large then Stop_Batch
     else if generic_json path then
       if inspection_total_bytes < fs_inspected st + bytes then
         Skip (st\<lparr>fs_warnings := fs_warnings st @ [path @ '': JSON inspection byte limit exceeded'']\<rparr>)
       else Take (st\<lparr>fs_inspected := fs_inspected st + bytes\<rparr>) (if max_blob_bytes < bytes then large + 1 else large)
     else if files_full st then Skip (st\<lparr>fs_file_skipped := fs_file_skipped st + 1\<rparr>)
     else if total_bytes_limit < fs_total st + bytes then Skip (st\<lparr>fs_byte_skipped := fs_byte_skipped st + 1\<rparr>)
     else Take st (if max_blob_bytes < bytes then large + 1 else large))"

text \<open>The batch, the entries after it, and the state.\<close>

fun take_batch :: "entry list \<Rightarrow> nat \<Rightarrow> nat \<Rightarrow> files_state \<Rightarrow> entry list \<times> entry list \<times> files_state" where
  "take_batch [] k large st = ([], [], st)"
| "take_batch (e # es) k large st = (case decide e k large st of
     Stop_Batch \<Rightarrow> ([], e # es, st)
   | Skip st' \<Rightarrow> take_batch es k large st'
   | Take st' large' \<Rightarrow> let (batch, rest, st2) = take_batch es (k + 1) large' st' in (e # batch, rest, st2))"

text \<open>One verified input.\<close>

definition add_file :: "string \<Rightarrow> string \<Rightarrow> files_state \<Rightarrow> files_state" where
  "add_file path content st =
     (if max_blob_bytes < int (length content) then
        st\<lparr>fs_warnings := fs_warnings st @ [path @ '': larger than '' @ bytes_text @ '' bytes'']\<rparr>
      else if files_full st then st\<lparr>fs_file_skipped := fs_file_skipped st + 1\<rparr>
      else if total_bytes_limit < fs_total st + int (length content) then st\<lparr>fs_byte_skipped := fs_byte_skipped st + 1\<rparr>
      else st\<lparr>fs_files := fs_files st @ [(path, content)], fs_total := fs_total st + int (length content)\<rparr>)"

definition inspect :: "(string \<Rightarrow> pyval option) \<Rightarrow> string \<Rightarrow> string \<Rightarrow> files_state \<Rightarrow> files_state" where
  "inspect parse path content st0 =
     (let st = st0\<lparr>fs_verified := fs_verified st0 + 1\<rparr> in
      if generic_json path then
        (case json_analysis_relevance parse content of
           Some False \<Rightarrow> st\<lparr>fs_ignored := fs_ignored st + 1\<rparr>
         | None \<Rightarrow> st\<lparr>fs_warnings := fs_warnings st @ [path @ '': JSON analysis relevance is unknown'']\<rparr>
         | Some True \<Rightarrow> add_file path content st)
      else if endswith (casefold path) ''.json'' \<and> \<not> bounded_json_structure content then
        st\<lparr>fs_warnings := fs_warnings st @ [path @ '': JSON structure exceeds safe analysis limits'']\<rparr>
      else add_file path content st)"

fun inspect_all :: "(string \<Rightarrow> pyval option) \<Rightarrow> (entry \<times> string gh) list \<Rightarrow> files_state \<Rightarrow> files_state" where
  "inspect_all parse [] st = st"
| "inspect_all parse (((path, sha, bytes), Inr content) # items) st = inspect_all parse items (inspect parse path content st)"
| "inspect_all parse ((e, Inl err) # items) st = inspect_all parse items st"

section \<open>Stops\<close>

definition stop_list :: "string gh list \<Rightarrow> string list" where
  "stop_list rs = List.map_filter (\<lambda>r. case r of Inl (Budget_Reached code) \<Rightarrow> Some code | _ \<Rightarrow> None) rs"

text \<open>What a worker raises, which is no budget stop.\<close>

definition raised :: "string gh list \<Rightarrow> gh_error option" where
  "raised rs = (case List.map_filter (\<lambda>r. case r of Inl (Budget_Reached code) \<Rightarrow> None | Inl e \<Rightarrow> Some e | Inr c \<Rightarrow> None) rs of
     [] \<Rightarrow> None | e # _ \<Rightarrow> Some e)"

definition first_sorted :: "string list \<Rightarrow> string" where
  "first_sorted codes = hd (sort codes)"

definition external_stop :: "string list \<Rightarrow> string option \<times> bool \<Rightarrow> gh_error option" where
  "external_stop stops = (\<lambda>(blocked, late).
     let rate = filter (\<lambda>c. c \<in> {''github_rate_limited'', ''github_rate_limit_reserve_reached''})
       (stops @ (case blocked of None \<Rightarrow> [] | Some c \<Rightarrow> [c])) in
     if rate \<noteq> [] then Some (Budget_Reached (first_sorted rate))
     else if ''github_collection_deadline_reached'' \<in> set stops \<or> late then
       Some (Budget_Reached ''github_collection_deadline_reached'')
     else None)"

definition budget_code :: string where "budget_code = ''github_request_budget_reached''"

section \<open>The loop\<close>

definition limit_warning :: "nat \<Rightarrow> string" where
  "limit_warning n = ''repository analysis file limit reached; '' @ str_nat n @ '' remaining candidates were not inspected''"

definition stop_warning :: "nat \<Rightarrow> string" where
  "stop_warning n = ''GitHub per-repository request safety limit reached (github_request_budget_reached); '' @ str_nat n @
     '' remaining candidates were not inspected''"

lemma take_batch_shorter: "length (fst (snd (take_batch es k large st))) \<le> length es"
  by (induction es k large st rule: take_batch.induct)
    (auto simp: Let_def split_beta split: batch_decision.split)

lemma decide_first: "decide e 0 0 st \<noteq> Stop_Batch"
  by (cases e) (simp add: decide_def fetch_workers_def)

lemma take_batch_progress: "es \<noteq> [] \<Longrightarrow> length (fst (snd (take_batch es 0 0 st))) < length es"
proof (cases es)
  case (Cons e rest)
  then show ?thesis
    using take_batch_shorter [of rest] decide_first [of e st]
    by (cases "decide e 0 0 st") (auto simp: Let_def split_beta less_Suc_eq_le)
qed simp

function files_loop ::
    "(string \<Rightarrow> pyval option) \<Rightarrow> (entry \<Rightarrow> string gh) \<Rightarrow> (nat \<Rightarrow> nat \<Rightarrow> string option \<times> bool) \<Rightarrow> nat \<Rightarrow>
     entry list \<Rightarrow> files_state \<Rightarrow> files_state gh" where
  "files_loop parse fetch ext n es st =
     (if es = [] then Inr st
      else if files_full st then Inr (st\<lparr>fs_warnings := limit_warning (length es) # fs_warnings st\<rparr>)
      else let (batch, rest, st1) = take_batch es 0 0 st; fetched = map fetch batch; stops = stop_list fetched in
        case raised fetched of
          Some e \<Rightarrow> Inl e
        | None \<Rightarrow>
            if stops \<noteq> [] \<and> external_stop stops (ext n 0) \<noteq> None then Inl (the (external_stop stops (ext n 0)))
            else if stops \<noteq> [] \<and> set stops \<noteq> {budget_code} then Inl (Budget_Reached (first_sorted stops))
            else let st2 = inspect_all parse (zip batch fetched) st1 in
              if stops = [] then files_loop parse fetch ext (n + 1) rest st2
              else if external_stop stops (ext n 1) \<noteq> None then Inl (the (external_stop stops (ext n 1)))
              else if fs_verified st2 = 0 then Inl (Budget_Reached budget_code)
              else Inr (st2\<lparr>fs_warnings := stop_warning (length stops + length rest) # fs_warnings st2\<rparr>))"
  by pat_completeness auto
termination
proof (relation "measure (\<lambda>(_, _, _, _, es, _). length es)", simp, goal_cases)
  case (1 parse fetch ext n es st x batch y rest st1)
  then have "take_batch es 0 0 st = (batch, rest, st1)" "es \<noteq> []" by simp_all
  then show ?case using take_batch_progress [of es st] by simp
qed

declare files_loop.simps [simp del]

definition skipped_warning :: "files_state \<Rightarrow> string" where
  "skipped_warning st = ''repository analysis budget selected '' @ str_nat (length (fs_files st)) @ '' relevant files; '' @
     str_nat (fs_file_skipped st) @ '' exceeded the file budget and '' @ str_nat (fs_byte_skipped st) @ '' exceeded the byte budget''"

definition empty_files :: files_state where
  "empty_files = \<lparr>fs_files = [], fs_warnings = [], fs_ignored = 0, fs_total = 0, fs_inspected = 0, fs_file_skipped = 0,
     fs_byte_skipped = 0, fs_verified = 0\<rparr>"

definition resumable_files ::
    "(string \<Rightarrow> pyval option) \<Rightarrow> (entry \<Rightarrow> string gh) \<Rightarrow> (nat \<Rightarrow> nat \<Rightarrow> string option \<times> bool) \<Rightarrow> entry list \<Rightarrow>
     ((string \<times> string) list \<times> string list \<times> nat) gh" where
  "resumable_files parse fetch ext es = bind_gh (files_loop parse fetch ext 0 es empty_files) (\<lambda>st.
     Inr (fs_files st, (if fs_file_skipped st \<noteq> 0 \<or> fs_byte_skipped st \<noteq> 0 then [skipped_warning st] else []) @ fs_warnings st,
       fs_ignored st))"

end
