(* ===== verification/Github_Budget.thy ===== *)
theory Github_Budget
  imports Github_Tree
begin

text \<open>
  The request budget of \<open>src/denali/connectors/github_repository.py\<close> (\<open>_GitHubRequestBudget\<close>) and the two
  retry loops that draw on it, \<open>_json\<close> and \<open>_budgeted_call\<close>, with the classification of their errors. Every
  method of the budget runs under its lock, so threads interleave whole operations. Clock readings are
  integers; the status codes for which \<open>raise_for_status\<close> raises are the argument \<open>raises\<close>.
\<close>

section \<open>The budget\<close>

record budget =
  bg_limit :: int
  bg_reserve :: int
  bg_deadline :: int
  bg_requests :: int
  bg_remaining :: "int option"
  bg_reached :: bool
  bg_blocked :: "string option"
  bg_retry_after :: "int option"

definition new_budget :: "int \<Rightarrow> int \<Rightarrow> int \<Rightarrow> budget" where
  "new_budget limit reserve deadline = \<lparr>bg_limit = limit, bg_reserve = reserve, bg_deadline = deadline,
     bg_requests = 0, bg_remaining = None, bg_reached = False, bg_blocked = None, bg_retry_after = None\<rparr>"

definition max_resume_delay :: int where "max_resume_delay = 3660"
definition snapshot_metadata_requests :: int where "snapshot_metadata_requests = 4"
definition min_useful_requests :: int where "min_useful_requests = snapshot_metadata_requests + 1"

definition reserve_code :: string where "reserve_code = ''github_rate_limit_reserve_reached''"
definition limited_code :: string where "limited_code = ''github_rate_limited''"

text \<open>The budget after the call, and the code it raises.\<close>

definition acquire :: "int \<Rightarrow> budget \<Rightarrow> budget \<times> string option" where
  "acquire now b = (case bg_blocked b of
     Some code \<Rightarrow> (b, Some code)
   | None \<Rightarrow>
       if bg_deadline b \<le> now then (b\<lparr>bg_reached := True\<rparr>, Some ''github_collection_deadline_reached'')
       else if bg_limit b \<le> bg_requests b then (b\<lparr>bg_reached := True\<rparr>, Some ''github_request_budget_reached'')
       else if (case bg_remaining b of None \<Rightarrow> False | Some r \<Rightarrow> r \<le> bg_reserve b) then
         (b\<lparr>bg_reached := True\<rparr>, Some reserve_code)
       else (b\<lparr>bg_requests := bg_requests b + 1, bg_reached := bg_reached b \<or> bg_limit b \<le> bg_requests b + 1\<rparr>, None))"

text \<open>
  \<open>int(text)\<close>: blanks around it, a sign, digits with single underscores between them.
\<close>

fun digits_value :: "nat \<Rightarrow> string \<Rightarrow> nat option" where
  "digits_value n [] = Some n"
| "digits_value n [c] = (if is_digit c then Some (10 * n + (of_char c - 48)) else None)"
| "digits_value n (c # d # s) = (if \<not> is_digit c then None
     else if d = CHR ''_'' then (if s = [] then None else digits_value (10 * n + (of_char c - 48)) s)
     else digits_value (10 * n + (of_char c - 48)) (d # s))"

definition py_int :: "string \<Rightarrow> int option" where
  "py_int text = (case strip text of
     [] \<Rightarrow> None
   | c # s \<Rightarrow>
       if c = CHR ''-'' \<or> c = CHR ''+'' then
         (if s = [] then None else map_option (\<lambda>n. if c = CHR ''-'' then - int n else int n) (digits_value 0 s))
       else map_option int (digits_value 0 (c # s)))"

definition optional_nonnegative_int :: "string option \<Rightarrow> int option" where
  "optional_nonnegative_int v = (case v of None \<Rightarrow> None | Some s \<Rightarrow>
     (case py_int s of Some i \<Rightarrow> if 0 \<le> i then Some i else None | None \<Rightarrow> None))"

type_synonym headers = "(string \<times> string) list"

text \<open>\<open>{str(key).lower(): str(value) for key, value in headers.items()}.get(name)\<close>.\<close>

definition header :: "headers \<Rightarrow> string \<Rightarrow> string option" where
  "header hs name = map_of (rev (map (\<lambda>(k, v). (casefold k, v)) hs)) name"

definition observed_remaining :: "headers \<Rightarrow> int option" where
  "observed_remaining hs = optional_nonnegative_int (header hs ''x-ratelimit-remaining'')"

text \<open>The delay a response asks for; \<open>epoch\<close> is \<open>int(datetime.now(UTC).timestamp())\<close>.\<close>

definition observed_delay :: "headers \<Rightarrow> int \<Rightarrow> int option" where
  "observed_delay hs epoch =
     (let retry = optional_nonnegative_int (header hs ''retry-after'') in
      case optional_nonnegative_int (header hs ''x-ratelimit-reset'') of
        None \<Rightarrow> retry
      | Some reset \<Rightarrow> Some (max (case retry of None \<Rightarrow> 0 | Some r \<Rightarrow> r) (max 0 (reset - epoch) + 60)))"

definition observe :: "headers \<Rightarrow> int \<Rightarrow> budget \<Rightarrow> budget" where
  "observe hs epoch b0 =
     (let b = (case observed_delay hs epoch of
         None \<Rightarrow> b0
       | Some d \<Rightarrow> b0\<lparr>bg_retry_after := Some (max 60 (min max_resume_delay d))\<rparr>) in
      case observed_remaining hs of
        None \<Rightarrow> b
      | Some r \<Rightarrow>
          let left = (case bg_remaining b of None \<Rightarrow> r | Some q \<Rightarrow> min q r); b1 = b\<lparr>bg_remaining := Some left\<rparr> in
          if left \<le> bg_reserve b then b1\<lparr>bg_reached := True, bg_blocked := Some reserve_code\<rparr> else b1)"

definition block :: "string \<Rightarrow> budget \<Rightarrow> budget" where
  "block code b = b\<lparr>bg_reached := True, bg_blocked := Some code\<rparr>"

definition capacity :: "budget \<Rightarrow> int" where
  "capacity b = (let own = max 0 (bg_limit b - bg_requests b) in
     case bg_remaining b of None \<Rightarrow> own | Some r \<Rightarrow> min own (max 0 (r - bg_reserve b)))"

definition blob_allowance :: "int \<Rightarrow> budget \<Rightarrow> int" where
  "blob_allowance repositories b =
     (let later = max 0 (repositories - 1) * min_useful_requests in
      if capacity b \<le> later then 0 else 1 + (capacity b - later - 1) div max 1 repositories)"

section \<open>Errors\<close>

record http_response =
  hr_status :: int
  hr_headers :: headers
  hr_body :: "pyval option"

text \<open>An exception of the client: whether it is a timeout, and its \<open>response\<close> attribute.\<close>

record client_error =
  ce_timeout :: bool
  ce_response :: "http_response option"

definition github_request_error_code :: "client_error \<Rightarrow> string" where
  "github_request_error_code e =
     (let status = map_option hr_status (ce_response e);
          hs = (case ce_response e of None \<Rightarrow> [] | Some r \<Rightarrow> hr_headers r) in
      if status = Some 429 \<or> status = Some 403 \<and> header hs ''x-ratelimit-remaining'' = Some ''0'' \<or>
        (case header hs ''retry-after'' of None \<Rightarrow> False | Some v \<Rightarrow> v \<noteq> []) then limited_code
      else if status = Some 403 then ''github_permission_denied''
      else if status = Some 404 then ''github_resource_not_found''
      else if status = Some 409 then ''github_conflict''
      else if (case status of None \<Rightarrow> False | Some s \<Rightarrow> 500 \<le> s) then ''github_upstream_unavailable''
      else if ce_timeout e then ''github_timeout''
      else ''github_api_request_failed'')"

section \<open>The retry loops\<close>

text \<open>\<open>None\<close> is \<open>continue\<close>, \<open>Some\<close> how the attempt ends the loop.\<close>

definition retry_github_error :: "string \<Rightarrow> bool \<Rightarrow> gh_error \<Rightarrow> budget \<Rightarrow> budget \<times> 'a gh option" where
  "retry_github_error code last_attempt otherwise b =
     (if code = limited_code then (block limited_code b, Some (Inl (Budget_Reached limited_code)))
      else if code \<in> {''github_timeout'', ''github_upstream_unavailable''} \<and> \<not> last_attempt then (b, None)
      else (b, Some (Inl otherwise)))"

text \<open>What happens to one request: the clock at \<open>acquire\<close>, the wall clock at \<open>observe\<close>, and the outcome.\<close>

datatype 'a reply = Reply 'a | Raised client_error

record 'a attempt =
  at_clock :: int
  at_epoch :: int
  at_reply :: "'a reply"

definition json_attempt :: "(int \<Rightarrow> bool) \<Rightarrow> http_response attempt \<Rightarrow> bool \<Rightarrow> budget \<Rightarrow> budget \<times> attrs gh option" where
  "json_attempt raises a last_attempt b = (case acquire (at_clock a) b of
     (b1, Some code) \<Rightarrow> (b1, Some (Inl (Budget_Reached code)))
   | (b1, None) \<Rightarrow> (case at_reply a of
         Raised e \<Rightarrow> (let code = github_request_error_code e in retry_github_error code last_attempt (Source_Error code) b1)
       | Reply r \<Rightarrow>
           let b2 = observe (hr_headers r) (at_epoch a) b1 in
           if raises (hr_status r) then
             (let code = github_request_error_code \<lparr>ce_timeout = False, ce_response = Some r\<rparr> in
              retry_github_error code last_attempt (Source_Error code) b2)
           else (case hr_body r of
               None \<Rightarrow> (b2, Some (Inl (Source_Error ''github_api_request_failed'')))
             | Some (PDict d) \<Rightarrow> (b2, Some (Inr d))
             | Some v \<Rightarrow> (b2, Some (Inl (Source_Error ''invalid_github_response''))))))"

definition call_attempt :: "'a attempt \<Rightarrow> bool \<Rightarrow> budget \<Rightarrow> budget \<times> 'a gh option" where
  "call_attempt a last_attempt b = (case acquire (at_clock a) b of
     (b1, Some code) \<Rightarrow> (b1, Some (Inl (Budget_Reached code)))
   | (b1, None) \<Rightarrow> (case at_reply a of
         Reply x \<Rightarrow> (b1, Some (Inr x))
       | Raised e \<Rightarrow>
           let b2 = (case ce_response e of None \<Rightarrow> b1 | Some r \<Rightarrow> observe (hr_headers r) (at_epoch a) b1);
               code = github_request_error_code e in
           retry_github_error code last_attempt (Other_Error code) b2))"

text \<open>\<open>for attempt in range(3)\<close>; the attempts are numbered from 0.\<close>

fun attempt_loop :: "(nat \<Rightarrow> bool \<Rightarrow> budget \<Rightarrow> budget \<times> 'a gh option) \<Rightarrow> nat \<Rightarrow> nat \<Rightarrow> budget \<Rightarrow> budget \<times> 'a gh" where
  "attempt_loop try n 0 b = (b, Inl (Other_Error ''github_api_request_failed''))"
| "attempt_loop try n (Suc left) b = (case try n (left = 0) b of
     (b1, Some r) \<Rightarrow> (b1, r)
   | (b1, None) \<Rightarrow> attempt_loop try (n + 1) left b1)"

definition json_call :: "(int \<Rightarrow> bool) \<Rightarrow> (nat \<Rightarrow> http_response attempt) \<Rightarrow> budget \<Rightarrow> budget \<times> attrs gh" where
  "json_call raises replies = attempt_loop (\<lambda>n. json_attempt raises (replies n)) 0 3"

definition budgeted_call :: "(nat \<Rightarrow> 'a attempt) \<Rightarrow> budget \<Rightarrow> budget \<times> 'a gh" where
  "budgeted_call replies = attempt_loop (\<lambda>n. call_attempt (replies n)) 0 3"

section \<open>Interleaved operations\<close>

datatype budget_op = Acquire int | Observe headers int | Block string

text \<open>The operation, and whether it granted a request.\<close>

fun run_op :: "budget_op \<Rightarrow> budget \<Rightarrow> budget \<times> bool" where
  "run_op (Acquire now) b = (let (b1, e) = acquire now b in (b1, e = None))"
| "run_op (Observe hs epoch) b = (observe hs epoch b, False)"
| "run_op (Block code) b = (block code b, False)"

fun run_ops :: "budget_op list \<Rightarrow> budget \<Rightarrow> budget \<times> bool list" where
  "run_ops [] b = (b, [])"
| "run_ops (x # xs) b = (let (b1, g) = run_op x b; (b2, gs) = run_ops xs b1 in (b2, g # gs))"

text \<open>The reference: a request may be sent when nothing blocks it.\<close>

fun blocks :: "int \<Rightarrow> budget_op \<Rightarrow> bool" where
  "blocks reserve (Acquire now) = False"
| "blocks reserve (Observe hs epoch) = (case observed_remaining hs of None \<Rightarrow> False | Some r \<Rightarrow> r \<le> reserve)"
| "blocks reserve (Block code) = True"

fun in_time :: "int \<Rightarrow> budget_op \<Rightarrow> bool" where
  "in_time deadline (Acquire now) = (now < deadline)"
| "in_time deadline (Observe hs epoch) = False"
| "in_time deadline (Block code) = False"

text \<open>
  What a rule with no state of its own answers: the operations of \<open>past\<close> were answered by the list
  \<open>granted\<close>.
\<close>

definition may_send :: "int \<Rightarrow> int \<Rightarrow> int \<Rightarrow> budget_op list \<Rightarrow> bool list \<Rightarrow> budget_op \<Rightarrow> bool" where
  "may_send limit reserve deadline past granted x \<longleftrightarrow> in_time deadline x \<and> \<not> list_ex (blocks reserve) past \<and>
     int (length (filter id granted)) < limit"

definition budget_holds :: "int \<Rightarrow> int \<Rightarrow> int \<Rightarrow> budget_op list \<Rightarrow> bool list \<Rightarrow> budget \<Rightarrow> bool" where
  "budget_holds limit reserve deadline past granted b \<longleftrightarrow> bg_limit b = limit \<and> bg_reserve b = reserve \<and>
     bg_deadline b = deadline \<and> bg_requests b = int (length (filter id granted)) \<and>
     (bg_blocked b \<noteq> None \<longleftrightarrow> list_ex (blocks reserve) past) \<and>
     (bg_blocked b = None \<longrightarrow> (\<forall>r. bg_remaining b = Some r \<longrightarrow> reserve < r))"

lemma budget_holds_new: "budget_holds limit reserve deadline [] [] (new_budget limit reserve deadline)"
  by (simp add: budget_holds_def new_budget_def)

lemma budget_holds_step:
  assumes "budget_holds limit reserve deadline past granted b" "run_op x b = (b', g)"
  shows "g = may_send limit reserve deadline past granted x \<and>
    budget_holds limit reserve deadline (past @ [x]) (granted @ [g]) b'"
proof (cases x)
  case (Acquire now)
  then show ?thesis using assms
    by (cases "bg_blocked b"; cases "bg_remaining b")
      (auto simp: budget_holds_def may_send_def acquire_def Let_def split: if_splits)
next
  case (Observe hs epoch)
  then show ?thesis using assms
    by (cases "observed_delay hs epoch"; cases "observed_remaining hs"; cases "bg_remaining b"; cases "bg_blocked b")
      (auto simp: budget_holds_def may_send_def observe_def Let_def min_def split: if_splits)
next
  case (Block code)
  then show ?thesis using assms by (auto simp: budget_holds_def may_send_def block_def)
qed

lemma run_ops_length: "length (snd (run_ops xs b)) = length xs"
  by (induction xs arbitrary: b) (simp_all add: Let_def split_beta)

lemma run_ops_grants:
  assumes "budget_holds limit reserve deadline past granted b" "i < length xs"
  shows "snd (run_ops xs b) ! i \<longleftrightarrow>
    may_send limit reserve deadline (past @ take i xs) (granted @ take i (snd (run_ops xs b))) (xs ! i)"
  using assms
proof (induction xs arbitrary: past granted b i)
  case (Cons x xs)
  obtain b1 g where x: "run_op x b = (b1, g)" by fastforce
  note step = budget_holds_step [OF Cons.prems(1) x]
  show ?case
  proof (cases i)
    case 0
    then show ?thesis using step x by (simp add: split_beta)
  next
    case (Suc k)
    then have "snd (run_ops xs b1) ! k \<longleftrightarrow> may_send limit reserve deadline ((past @ [x]) @ take k xs)
      ((granted @ [g]) @ take k (snd (run_ops xs b1))) (xs ! k)"
      using Cons.IH step Cons.prems(2) by (metis Suc_less_eq length_Cons)
    then show ?thesis using Suc x by (simp add: split_beta)
  qed
qed simp

text \<open>
  C36. Whatever the threads interleave, a call to acquire is granted exactly when it is before the deadline,
  fewer than the limit were granted, no provider response has shown the reserve and nothing blocked the
  connection.
\<close>

theorem budget_grants_iff:
  assumes "i < length xs"
  shows "snd (run_ops xs (new_budget limit reserve deadline)) ! i \<longleftrightarrow>
    (\<exists>now. xs ! i = Acquire now \<and> now < deadline) \<and>
    int (card {k. k < i \<and> snd (run_ops xs (new_budget limit reserve deadline)) ! k}) < limit \<and>
    (\<forall>k. \<not> (k < i \<and> blocks reserve (xs ! k)))"
proof -
  let ?gs = "snd (run_ops xs (new_budget limit reserve deadline))"
  have len: "length (take i ?gs) = i" using assms by (simp add: run_ops_length)
  have "length (filter id (take i ?gs)) = card {k. k < i \<and> ?gs ! k}"
    unfolding length_filter_conv_card len by (rule arg_cong [of _ _ card]) auto
  moreover have "in_time deadline (xs ! i) \<longleftrightarrow> (\<exists>now. xs ! i = Acquire now \<and> now < deadline)"
    by (cases "xs ! i") auto
  moreover have "list_ex (blocks reserve) (take i xs) \<longleftrightarrow> (\<exists>k. k < i \<and> blocks reserve (xs ! k))"
    using assms by (simp add: list_ex_length) (metis less_trans nth_take)
  ultimately show ?thesis using run_ops_grants [OF budget_holds_new assms, of limit reserve deadline]
    by (auto simp: may_send_def)
qed

theorem budget_grants_iff_witness:
  "snd (run_ops [Acquire 3, Observe [(''X-RateLimit-Remaining'', ''500'')] 0, Acquire 4] (new_budget 4000 500 100)) ! 0 \<and>
   \<not> snd (run_ops [Acquire 3, Observe [(''X-RateLimit-Remaining'', ''500'')] 0, Acquire 4] (new_budget 4000 500 100)) ! 2"
proof (rule conjI)
  let ?xs = "[Acquire 3, Observe [(''X-RateLimit-Remaining'', ''500'')] 0, Acquire 4]"
  show "snd (run_ops ?xs (new_budget 4000 500 100)) ! 0" by (subst budget_grants_iff) simp_all
  have "blocks 500 (?xs ! 1)" by code_simp
  then show "\<not> snd (run_ops ?xs (new_budget 4000 500 100)) ! 2"
    using budget_grants_iff [of 2 ?xs 4000 500 100] by (auto dest: spec [of _ 1])
qed

end
