(* ===== verification/Github_Snapshot.thy ===== *)
theory Github_Snapshot
  imports Github_Files Github_Budget Github_Checkpoint Findings
begin

text \<open>
  One snapshot of a repository in \<open>src/denali/connectors/github_repository.py\<close>: \<open>_snapshot\<close> of a resumable
  collection from the identity check to the files, the source batch, and the coverage a partial snapshot
  leaves to the connectors. What \<open>self._json\<close> and \<open>self._budgeted_call\<close> give is a record of answers; the
  callback \<open>on_revision\<close> works on a state of its own.
\<close>

section \<open>Actions\<close>

text \<open>Code that changes a state and may raise: the state survives the exception.\<close>

type_synonym ('s, 'a) act = "'s \<Rightarrow> 's \<times> 'a gh"

definition give :: "'a \<Rightarrow> ('s, 'a) act" where "give x s = (s, Inr x)"
definition raise_gh :: "gh_error \<Rightarrow> ('s, 'a) act" where "raise_gh e s = (s, Inl e)"
definition lift_gh :: "'a gh \<Rightarrow> ('s, 'a) act" where "lift_gh m s = (s, m)"

definition bind_act :: "('s, 'a) act \<Rightarrow> ('a \<Rightarrow> ('s, 'b) act) \<Rightarrow> ('s, 'b) act" where
  "bind_act m f s = (case m s of (s1, Inl e) \<Rightarrow> (s1, Inl e) | (s1, Inr x) \<Rightarrow> f x s1)"

text \<open>An \<open>AttributeError\<close>, a \<open>ValueError\<close> and the like, as \<open>_github_request_error_code\<close> names them.\<close>

definition unexpected :: gh_error where "unexpected = Other_Error ''github_api_request_failed''"

definition of_res :: "'a res \<Rightarrow> 'a gh" where
  "of_res m = (case m of Inl e \<Rightarrow> Inl unexpected | Inr x \<Rightarrow> Inr x)"

section \<open>The snapshot\<close>

record snapshot =
  sn_repository_id :: pyval
  sn_repository_name :: string
  sn_default_branch :: pyval
  sn_commit :: string
  sn_remote :: string
  sn_locator :: string
  sn_files :: "(string \<times> string) list"
  sn_warnings :: "string list"
  sn_detail :: "string option"
  sn_ignored :: nat

definition total_bytes :: "snapshot \<Rightarrow> int" where
  "total_bytes sn = (\<Sum>f\<leftarrow>sn_files sn. int (length (snd f)))"

definition canonical_repository :: "string \<Rightarrow> string" where
  "canonical_repository full_name = ''github.com/'' @ full_name"

definition empty_snapshot :: "(pyval \<Rightarrow> string) \<Rightarrow> pyval \<Rightarrow> string \<Rightarrow> pyval \<Rightarrow> snapshot" where
  "empty_snapshot str_of i full_name branch =
     \<lparr>sn_repository_id = i, sn_repository_name = canonical_repository full_name, sn_default_branch = branch,
      sn_commit = ''empty'', sn_remote = ''https://github.com/'' @ full_name @ ''.git'',
      sn_locator = ''github://repositories/'' @ py_str str_of i @ ''/empty'', sn_files = [], sn_warnings = [],
      sn_detail = Some ''repository_empty'', sn_ignored = 0\<rparr>"

record github_answers =
  ga_installation :: "attrs gh"
  ga_token :: "unit gh"
  ga_metadata :: "attrs gh"
  ga_ref :: "attrs gh"
  ga_tree :: "attrs gh"
  ga_walk :: "nat \<Rightarrow> string \<Rightarrow> bool \<Rightarrow> attrs gh"
  ga_blob :: "entry \<Rightarrow> attrs gh"
  ga_external :: "nat \<Rightarrow> nat \<Rightarrow> string option \<times> bool"

definition same_repository :: "(pyval \<Rightarrow> string) \<Rightarrow> attrs \<Rightarrow> attrs \<Rightarrow> string \<Rightarrow> bool" where
  "same_repository str_of metadata item full_name \<longleftrightarrow>
     py_eq (attr_get metadata ''id'') (attr_get item ''id'') \<and>
     text_of str_of metadata ''node_id'' = text_of str_of item ''node_id'' \<and>
     casefold (text_of str_of metadata ''full_name'') = casefold full_name \<and>
     (case attr_get metadata ''owner'' of
        PDict owner \<Rightarrow> py_eq (attr_get owner ''id'') (attr_get item ''owner_id'') \<and>
          casefold (text_of str_of owner ''login'') = casefold (text_of str_of item ''owner_login'')
      | _ \<Rightarrow> False)"

text \<open>The branch and the commit to read, \<open>None\<close> for an empty repository.\<close>

definition nonempty_text :: "pyval \<Rightarrow> bool" where
  "nonempty_text v \<longleftrightarrow> (case v of PStr s \<Rightarrow> s \<noteq> [] | _ \<Rightarrow> False)"

definition commit_of :: "pyval \<Rightarrow> string gh" where
  "commit_of v = (case v of PStr s \<Rightarrow> if is_sha s then Inr s else Inl (Source_Error ''invalid_immutable_revision'')
     | _ \<Rightarrow> Inl (Source_Error ''invalid_immutable_revision''))"

definition ref_commit :: "attrs \<Rightarrow> pyval gh" where
  "ref_commit ref = (case map_of ref ''object'' of
     None \<Rightarrow> Inr PNone
   | Some (PDict d) \<Rightarrow> Inr (attr_get d ''sha'')
   | Some v \<Rightarrow> Inl unexpected)"

definition resolve_revision ::
    "(string \<Rightarrow> pyval \<Rightarrow> ('s, unit) act) \<Rightarrow> github_answers \<Rightarrow> attrs \<Rightarrow> pyval \<Rightarrow> pyval \<Rightarrow> ('s, pyval \<times> string option) act" where
  "resolve_revision pin ga metadata pinned pinned_branch =
     (let branch = (if pinned \<noteq> PNone then pinned_branch else attr_get metadata ''default_branch'') in
      if pinned = PStr ''empty'' then give (branch, None)
      else if pinned = PNone then
        if \<not> nonempty_text branch then bind_act (pin ''empty'' PNone) (\<lambda>_. give (PNone, None))
        else (case ga_ref ga of
            Inl e \<Rightarrow> if e = Source_Error ''github_conflict'' then bind_act (pin ''empty'' branch) (\<lambda>_. give (branch, None))
              else raise_gh e
          | Inr ref \<Rightarrow> bind_act (lift_gh (bind_gh (ref_commit ref) commit_of)) (\<lambda>commit.
              bind_act (pin commit branch) (\<lambda>_. give (branch, Some commit))))
      else bind_act (lift_gh (commit_of pinned)) (\<lambda>commit. give (branch, Some commit)))"

text \<open>The entries to consider, after the tree answer.\<close>

definition tree_entries :: "github_answers \<Rightarrow> string \<Rightarrow> attrs list gh" where
  "tree_entries ga commit = bind_gh (ga_tree ga) (\<lambda>tree.
     case attr_get tree ''tree'' of
       PList vs \<Rightarrow>
         if max_tree_inspected_entries < length vs then Inl (Source_Error ''repository_tree_inspection_limit_exceeded'')
         else if attr_get tree ''truncated'' = PBool True then walk_tree (ga_walk ga) commit
         else if attr_get tree ''truncated'' \<noteq> PBool False then Inl (Source_Error ''repository_tree_incomplete'')
         else bind_gh (validated_tree_page vs [] True []) (\<lambda>pg.
           if max_tree_entries < pg_relevant pg then Inl (Source_Error ''repository_tree_limit_exceeded'') else Inr (pg_blobs pg))
     | _ \<Rightarrow> Inl (Source_Error ''repository_tree_incomplete''))"

record reading =
  rd_str_of :: "pyval \<Rightarrow> string"
  rd_base64 :: "string \<Rightarrow> string option"
  rd_json :: "string \<Rightarrow> pyval option"

definition read_files :: "reading \<Rightarrow> github_answers \<Rightarrow> string \<Rightarrow> ((string \<times> string) list \<times> string list \<times> nat) gh" where
  "read_files rd ga commit = bind_gh (tree_entries ga commit) (\<lambda>entries. bind_gh (candidates entries) (\<lambda>(warnings, found).
     bind_gh (resumable_files (rd_json rd) (\<lambda>e. bind_gh (ga_blob ga e) (blob_content (rd_base64 rd) (rd_str_of rd) e))
       (ga_external ga) (sorted_candidates found)) (\<lambda>(files, file_warnings, ignored).
         Inr (files, file_warnings @ warnings, ignored))))"

definition take_snapshot ::
    "reading \<Rightarrow> (string \<Rightarrow> pyval \<Rightarrow> ('s, unit) act) \<Rightarrow> github_answers \<Rightarrow> attrs \<Rightarrow> pyval \<Rightarrow> pyval \<Rightarrow> ('s, snapshot) act" where
  "take_snapshot rd pin ga item pinned pinned_branch =
     (let i = attr_get item ''id''; str_of = rd_str_of rd in
      case (int_like i, attr_get item ''full_name'') of
        (Some n, PStr full_name) \<Rightarrow>
          bind_act (lift_gh (ga_token ga)) (\<lambda>_. bind_act (lift_gh (ga_metadata ga)) (\<lambda>metadata.
            if \<not> same_repository str_of metadata item full_name then raise_gh (Source_Error ''repository_identity_mismatch'')
            else bind_act (resolve_revision pin ga metadata pinned pinned_branch) (\<lambda>(branch, target).
              case target of
                None \<Rightarrow> give (empty_snapshot str_of i full_name branch)
              | Some commit \<Rightarrow> bind_act (lift_gh (read_files rd ga commit)) (\<lambda>(files, warnings, ignored). give
                  \<lparr>sn_repository_id = i, sn_repository_name = canonical_repository full_name, sn_default_branch = branch,
                   sn_commit = commit, sn_remote = ''https://github.com/'' @ full_name @ ''.git'',
                   sn_locator = ''github://repositories/'' @ py_str str_of i @ ''/commits/'' @ commit, sn_files = files,
                   sn_warnings = warnings, sn_detail = None, sn_ignored = ignored\<rparr>))))
      | _ \<Rightarrow> raise_gh (Source_Error ''invalid_repository_boundary''))"

section \<open>Batches\<close>

fun coverage_value :: "coverage_state \<Rightarrow> string" where
  "coverage_value COMPLETE = ''complete''"
| "coverage_value PARTIAL = ''partial''"
| "coverage_value FAILED = ''failed''"
| "coverage_value NOT_SUPPORTED = ''not_supported''"
| "coverage_value UNKNOWN = ''unknown''"

definition source_plane :: string where "source_plane = ''github_source_collection''"

record source_facts =
  sf_commit :: "string option"
  sf_branch :: pyval
  sf_files :: nat
  sf_bytes :: int
  sf_locator :: "string option"
  sf_ignored :: nat

definition no_source :: source_facts where
  "no_source = \<lparr>sf_commit = None, sf_branch = PNone, sf_files = 0, sf_bytes = 0, sf_locator = None, sf_ignored = 0\<rparr>"

definition identity_attrs :: "pyval \<Rightarrow> source_facts \<Rightarrow> attrs" where
  "identity_attrs i sf = [(''repository_id'', i), (''commit'', opt_str (sf_commit sf)), (''default_branch'', sf_branch sf)]"

definition source_asset ::
    "(pyval \<Rightarrow> string) \<Rightarrow> py_datetime \<Rightarrow> string \<Rightarrow> pyval \<Rightarrow> coverage_state \<Rightarrow> string option \<Rightarrow> source_facts \<Rightarrow> asset_assertion res" where
  "source_asset str_of now name i state detail sf =
     (let revision = or_text (sf_commit sf) ''unresolved'' in
      bind_res (new_AssetRef CODE_REPOSITORY name) (\<lambda>ref.
      bind_res (new_Evidence ''github_repository_snapshot''
        (or_text (sf_locator sf) (''github://repositories/'' @ py_str str_of i @ ''/commits/'' @ revision)) now (identity_attrs i sf)) (\<lambda>evidence.
      new_AssetAssertion \<lparr>aa_asset = ref, aa_coverage_plane = source_plane, aa_display_name = last_part name,
        aa_assertion_type = OBSERVED, aa_confidence = f_1_0, aa_evidence = evidence,
        aa_attributes = identity_attrs i sf @ [(''selected_file_count'', PInt (int (sf_files sf))), (''selected_bytes'', PInt (sf_bytes sf))] @
          (if sf_ignored sf = 0 then [] else [(''ignored_analysis_inputs'', PDict [(''non_analysis_json'', PInt (int (sf_ignored sf)))])]) @
          [(''collection_state'', PStr (coverage_value state)), (''collection_detail'', opt_str detail)],
        aa_lifecycle = LC_ACTIVE\<rparr>)))"

definition source_batch ::
    "(pyval \<Rightarrow> string) \<Rightarrow> py_datetime \<Rightarrow> string \<Rightarrow> string \<Rightarrow> pyval \<Rightarrow> coverage_state \<Rightarrow> string option \<Rightarrow> source_facts \<Rightarrow>
     inventory_batch gh" where
  "source_batch str_of now connection name i state detail sf =
     (let revision = or_text (sf_commit sf) ''unresolved''; scope = ''repository:'' @ name in
      of_res (bind_res
        (if (state = COMPLETE \<or> state = PARTIAL) \<and> name \<noteq> ''github.com/unknown/unknown''
         then map_res (\<lambda>_. source_asset str_of now name i state detail sf) [()] else Inr []) (\<lambda>assets.
        bind_res (new_Coverage source_plane state scope detail) (\<lambda>c. new_InventoryBatch
          \<lparr>bh_connector_id = ''denali.github_repository'', bh_connection_id = connection,
           bh_run_id = ''github-source-'' @ py_str str_of i @ ''-'' @ revision @ ''-'' @ isoformat now,
           bh_scope_key = scope, bh_collected_at = now, bh_coverage = [c], ib_assets = assets, ib_relationships = []\<rparr>))))"

text \<open>\<open>_with_partial_coverage\<close> on the coverage of a batch.\<close>

definition partial_detail :: "string \<Rightarrow> string option \<Rightarrow> string" where
  "partial_detail detail old = take 4000 (
     if detail \<noteq> [] \<and> or_text old [] \<noteq> [] then take 1999 detail @ ''; '' @ take 1999 (or_text old [])
     else if detail \<noteq> [] then detail else or_text old [])"

definition partial_coverage :: "string \<Rightarrow> coverage \<Rightarrow> coverage res" where
  "partial_coverage detail c = new_Coverage (cov_plane c) (if cov_state c = COMPLETE then PARTIAL else cov_state c)
     (cov_scope c) (Some (partial_detail detail (cov_detail c)))"

definition partial_inventory :: "string \<Rightarrow> inventory_batch \<Rightarrow> inventory_batch gh" where
  "partial_inventory detail b = of_res (bind_res (map_res (partial_coverage detail) (bh_coverage b)) (\<lambda>cs.
     new_InventoryBatch (b\<lparr>bh_coverage := cs\<rparr>)))"

definition partial_findings :: "string \<Rightarrow> finding_batch \<Rightarrow> finding_batch gh" where
  "partial_findings detail b = of_res (bind_res (map_res (partial_coverage detail) (bh_coverage b)) (\<lambda>cs.
     new_FindingBatch (b\<lparr>bh_coverage := cs\<rparr>)))"

end
