(* ===== verification/Github_Collect.thy ===== *)
theory Github_Collect
  imports Github_Snapshot
begin

text \<open>
  \<open>collect_resumable\<close> of \<open>src/denali/connectors/github_repository.py\<close>, with its closures \<open>fence\<close>, \<open>pin\<close> and
  \<open>result\<close>, \<open>_record_partial_repository\<close> and \<open>_analyze_snapshot\<close>. The environment is a record of answers, each
  a function of the number of the interaction: whether a save is accepted, the clocks, what the sink returns
  and what GitHub answers. The log of a run holds the saves, the provider contacts and the sink calls in order.
\<close>

section \<open>The environment\<close>

datatype sink_call = Ingest inventory_batch | Ingest_Findings finding_batch

datatype event = Save attrs bool | Contact string | Sink sink_call

record counts =
  ct_assets :: int
  ct_relationships :: int
  ct_findings :: int

text \<open>The batches of the three connectors that read the materialized files.\<close>

record analysis =
  an_inventory :: "inventory_batch gh"
  an_posture :: "finding_batch gh"
  an_correlation :: "inventory_batch gh"

record env =
  en_accepts :: "nat \<Rightarrow> bool"
  en_clock :: "nat \<Rightarrow> int"
  en_now :: "nat \<Rightarrow> py_datetime"
  en_sink :: "nat \<Rightarrow> counts gh"
  en_targets :: "unit gh"
  en_answers :: "nat \<Rightarrow> github_answers"
  en_budget :: "nat \<Rightarrow> budget"
  en_analysis :: "snapshot \<Rightarrow> analysis"
  en_reading :: reading

record limits =
  li_requests :: int
  li_deadline :: int

record collect_state =
  co_saved :: attrs
  co_log :: "event list"
  co_steps :: nat
  co_processed :: nat
  co_requests :: int
  co_reached :: bool

type_synonym 'a collect = "(collect_state, 'a) act"

definition max_repositories_per_slice :: nat where "max_repositories_per_slice = 5"
definition retry_limit_code :: string where "retry_limit_code = ''github_collection_retry_limit_reached''"

text \<open>One answer of the environment.\<close>

definition ask :: "(nat \<Rightarrow> 'a) \<Rightarrow> 'a collect" where
  "ask f st = (st\<lparr>co_steps := co_steps st + 1\<rparr>, Inr (f (co_steps st)))"

definition fence :: "env \<Rightarrow> unit collect" where
  "fence en st = (let ok = en_accepts en (co_steps st) in
     (st\<lparr>co_steps := co_steps st + 1, co_log := co_log st @ [Save (co_saved st) ok]\<rparr>,
      if ok then Inr () else Inl Claim_Lost))"

definition sink :: "env \<Rightarrow> sink_call \<Rightarrow> counts collect" where
  "sink en c st = (st\<lparr>co_steps := co_steps st + 1, co_log := co_log st @ [Sink c]\<rparr>, en_sink en (co_steps st))"

definition contact :: "env \<Rightarrow> string \<Rightarrow> (github_answers \<times> budget) collect" where
  "contact en key st = (st\<lparr>co_steps := co_steps st + 1, co_log := co_log st @ [Contact key]\<rparr>,
     Inr (en_answers en (co_steps st), en_budget en (co_steps st)))"

section \<open>The saved progress\<close>

definition saved_repositories :: "attrs \<Rightarrow> attrs" where
  "saved_repositories saved = (case attr_get saved ''repositories'' of PDict d \<Rightarrow> d | _ \<Rightarrow> [])"

definition repository_key :: "attrs \<Rightarrow> string" where
  "repository_key item = str_int (int_of (attr_get item ''id''))"

definition progress_of :: "attrs \<Rightarrow> string \<Rightarrow> attrs" where
  "progress_of saved key = (case map_of (saved_repositories saved) key of Some (PDict p) \<Rightarrow> p | _ \<Rightarrow> [])"

definition set_progress :: "string \<Rightarrow> attrs \<Rightarrow> attrs \<Rightarrow> attrs" where
  "set_progress key p saved = dict_set ''repositories'' (PDict (dict_set key (PDict p) (saved_repositories saved))) saved"

definition update_progress :: "string \<Rightarrow> (attrs \<Rightarrow> attrs) \<Rightarrow> unit collect" where
  "update_progress key f st =
     (st\<lparr>co_saved := set_progress key (f (progress_of (co_saved st) key)) (co_saved st)\<rparr>, Inr ())"

definition interruptions :: "attrs \<Rightarrow> int" where
  "interruptions p = (case attr_get p ''interruption_count'' of PInt i \<Rightarrow> i | _ \<Rightarrow> 0)"

text \<open>The closure \<open>pin\<close>.\<close>

definition pin :: "env \<Rightarrow> string \<Rightarrow> string \<Rightarrow> pyval \<Rightarrow> unit collect" where
  "pin en key commit branch =
     (if \<not> valid_branch branch then raise_gh (Source_Error ''invalid_default_branch'')
      else bind_act (update_progress key (\<lambda>p. dict_set ''default_branch'' branch (dict_set ''revision'' (PStr commit) p)))
        (\<lambda>_. fence en))"

section \<open>A repository\<close>

definition text_or :: "(pyval \<Rightarrow> string) \<Rightarrow> attrs \<Rightarrow> string \<Rightarrow> string \<Rightarrow> string" where
  "text_or str_of d k v = (case map_of d k of None \<Rightarrow> v | Some x \<Rightarrow> py_str str_of x)"

definition text_value :: "pyval \<Rightarrow> string option" where
  "text_value v = (case v of PStr s \<Rightarrow> Some s | _ \<Rightarrow> None)"

definition failed_result :: "attrs \<Rightarrow> string \<Rightarrow> attrs" where
  "failed_result item code = [(''repository_id'', attr_get item ''id''), (''repository'', attr_get item ''full_name''),
     (''state'', PStr ''failed''), (''detail'', PStr code)]"

definition partial_result :: "(pyval \<Rightarrow> string) \<Rightarrow> attrs \<Rightarrow> string \<Rightarrow> pyval \<Rightarrow> attrs" where
  "partial_result str_of item detail revision =
     [(''repository_id'', attr_get item ''id''), (''repository'', PStr (text_or str_of item ''full_name'' ''unknown/unknown'')),
      (''state'', PStr ''partial''), (''detail'', PStr detail), (''files'', PInt 0), (''bytes'', PInt 0)] @
     (if revision = PNone then [] else [(''revision'', revision)])"

definition record_partial_repository :: "env \<Rightarrow> string \<Rightarrow> attrs \<Rightarrow> string \<Rightarrow> pyval \<Rightarrow> pyval \<Rightarrow> attrs collect" where
  "record_partial_repository en connection item detail revision branch =
     (let str_of = rd_str_of (en_reading en); full_name = text_or str_of item ''full_name'' ''unknown/unknown'' in
      bind_act (ask (en_now en)) (\<lambda>now.
      bind_act (lift_gh (source_batch str_of now connection (canonical_repository full_name) (attr_get item ''id'') PARTIAL
          (Some detail) (no_source\<lparr>sf_commit := text_value revision, sf_branch := branch\<rparr>))) (\<lambda>b.
      bind_act (sink en (Ingest b)) (\<lambda>_. give (partial_result str_of item detail revision)))))"

definition record_failed_repository :: "env \<Rightarrow> string \<Rightarrow> attrs \<Rightarrow> string \<Rightarrow> attrs collect" where
  "record_failed_repository en connection item code =
     (let str_of = rd_str_of (en_reading en) in
      bind_act (ask (en_now en)) (\<lambda>now.
      bind_act (lift_gh (source_batch str_of now connection (canonical_repository (py_str str_of (attr_get item ''full_name'')))
          (attr_get item ''id'') FAILED (Some code) no_source)) (\<lambda>b.
      bind_act (sink en (Ingest b)) (\<lambda>_. give (failed_result item code)))))"

section \<open>Analysis\<close>

definition semicolons :: "string list \<Rightarrow> string" where "semicolons = join ''; ''"

definition snapshot_detail :: "snapshot \<Rightarrow> string option" where
  "snapshot_detail sn = (let d = take 4000 (semicolons (sn_warnings sn @ [or_text (sn_detail sn) []])) in
     if d = [] then None else Some d)"

definition upstream_detail :: "snapshot \<Rightarrow> string" where
  "upstream_detail sn = ''Source snapshot is partial: '' @ take 3900 (semicolons (sn_warnings sn))"

definition snapshot_batch :: "(pyval \<Rightarrow> string) \<Rightarrow> py_datetime \<Rightarrow> string \<Rightarrow> snapshot \<Rightarrow> inventory_batch gh" where
  "snapshot_batch str_of now connection sn = source_batch str_of now connection (sn_repository_name sn) (sn_repository_id sn)
     (if sn_warnings sn = [] then COMPLETE else PARTIAL) (snapshot_detail sn)
     \<lparr>sf_commit = Some (sn_commit sn), sf_branch = sn_default_branch sn, sf_files = length (sn_files sn),
      sf_bytes = total_bytes sn, sf_locator = Some (sn_locator sn), sf_ignored = sn_ignored sn\<rparr>"

text \<open>The batches of the connectors, degraded when the snapshot is partial.\<close>

definition degraded :: "snapshot \<Rightarrow> analysis \<Rightarrow> (inventory_batch \<times> finding_batch \<times> inventory_batch) gh" where
  "degraded sn an = bind_gh (an_inventory an) (\<lambda>i. bind_gh (an_posture an) (\<lambda>p. bind_gh (an_correlation an) (\<lambda>c.
     if sn_warnings sn = [] then Inr (i, p, c)
     else let d = upstream_detail sn in bind_gh (partial_inventory d i) (\<lambda>i'. bind_gh (partial_findings d p) (\<lambda>p'.
       bind_gh (partial_inventory d c) (\<lambda>c'. Inr (i', p', c')))))))"

definition first_state :: "'a batch_header_scheme \<Rightarrow> pyval gh" where
  "first_state b = (case bh_coverage b of [] \<Rightarrow> Inl unexpected | c # cs \<Rightarrow> Inr (PStr (coverage_value (cov_state c))))"

text \<open>\<open>dict(correlation_batch.assets[0].attributes["correlation_summary"])\<close>.\<close>

definition correlation_summary :: "inventory_batch \<Rightarrow> attrs gh" where
  "correlation_summary b = (case ib_assets b of
     [] \<Rightarrow> Inl unexpected
   | a # as \<Rightarrow> (case attr_get (aa_attributes a) ''correlation_summary'' of PDict d \<Rightarrow> Inr d | _ \<Rightarrow> Inl unexpected))"

definition removeprefix :: "string \<Rightarrow> string \<Rightarrow> string" where
  "removeprefix p s = (if startswith s p then drop (length p) s else s)"

definition snapshot_result :: "snapshot \<Rightarrow> counts \<Rightarrow> counts \<Rightarrow> counts \<Rightarrow> counts \<Rightarrow> attrs \<Rightarrow> attrs \<Rightarrow> attrs" where
  "snapshot_result sn s i p c summary states =
     [(''repository_id'', sn_repository_id sn), (''repository'', PStr (removeprefix ''github.com/'' (sn_repository_name sn))),
      (''state'', PStr (if list_all (\<lambda>(k, v). v = PStr ''complete'') states then ''complete'' else ''partial'')),
      (''revision'', PStr (sn_commit sn)), (''files'', PInt (int (length (sn_files sn)))), (''bytes'', PInt (total_bytes sn)),
      (''source_assets'', PInt (ct_assets s)), (''inventory_assets'', PInt (ct_assets i)),
      (''inventory_relationships'', PInt (ct_relationships i)), (''posture_findings'', PInt (ct_findings p)),
      (''deployment_relationships'', PInt (ct_relationships c)), (''correlation'', PDict summary), (''coverage'', PDict states)] @
     (if sn_ignored sn = 0 then [] else [(''ignored_inputs'', PDict [(''non_analysis_json'', PInt (int (sn_ignored sn)))])])"

definition fenced_sink :: "env \<Rightarrow> sink_call \<Rightarrow> counts collect" where
  "fenced_sink en c = bind_act (fence en) (\<lambda>_. sink en c)"

definition analyze_snapshot :: "env \<Rightarrow> string \<Rightarrow> snapshot \<Rightarrow> attrs collect" where
  "analyze_snapshot en connection sn =
     bind_act (ask (en_now en)) (\<lambda>now.
     bind_act (lift_gh (snapshot_batch (rd_str_of (en_reading en)) now connection sn)) (\<lambda>source.
     bind_act (lift_gh (degraded sn (en_analysis en sn))) (\<lambda>(inventory, posture, correlation).
     bind_act (fenced_sink en (Ingest source)) (\<lambda>s.
     bind_act (fenced_sink en (Ingest inventory)) (\<lambda>i.
     bind_act (fenced_sink en (Ingest_Findings posture)) (\<lambda>p.
     bind_act (fenced_sink en (Ingest correlation)) (\<lambda>c.
     bind_act (lift_gh (correlation_summary correlation)) (\<lambda>summary.
     bind_act (lift_gh (first_state source)) (\<lambda>ss. bind_act (lift_gh (first_state inventory)) (\<lambda>is.
     bind_act (lift_gh (first_state posture)) (\<lambda>ps. bind_act (lift_gh (first_state correlation)) (\<lambda>cs.
     give (snapshot_result sn s i p c summary
       [(''source'', ss), (''inventory'', is), (''posture'', ps), (''correlation'', cs)])))))))))))))"

section \<open>One repository of a slice\<close>

datatype slice_step = Next | Pause int

definition set_result :: "string \<Rightarrow> attrs \<Rightarrow> unit collect" where
  "set_result key r = update_progress key (dict_set ''result'' (PDict r))"

definition spend :: "budget \<Rightarrow> bool \<Rightarrow> unit collect" where
  "spend b reached st = (st\<lparr>co_requests := co_requests st + bg_requests b, co_reached := co_reached st \<or> reached\<rparr>, Inr ())"

definition next_repository :: "slice_step collect" where
  "next_repository st = (st\<lparr>co_processed := co_processed st + 1\<rparr>, Inr Next)"

text \<open>The end of the loop body: the result is saved under the fence.\<close>

definition finish_repository :: "env \<Rightarrow> string \<Rightarrow> budget \<Rightarrow> attrs \<Rightarrow> slice_step collect" where
  "finish_repository en key b r = bind_act (spend b (bg_reached b)) (\<lambda>_. bind_act (set_result key r) (\<lambda>_.
     bind_act (fence en) (\<lambda>_. next_repository)))"

definition attempt_snapshot :: "env \<Rightarrow> attrs \<Rightarrow> attrs \<Rightarrow> string \<Rightarrow> attrs \<Rightarrow> github_answers \<Rightarrow> snapshot collect" where
  "attempt_snapshot en connection item key progress ga =
     bind_act (lift_gh (ga_installation ga)) (\<lambda>installation.
       if \<not> py_eq (attr_get installation ''account_id'')
         (case attr_get connection ''configuration'' of PDict d \<Rightarrow> attr_get d ''account_id'' | _ \<Rightarrow> PNone)
       then raise_gh (Source_Error ''installation_account_mismatch'')
       else take_snapshot (en_reading en) (pin en key) ga item (attr_get progress ''revision'') (attr_get progress ''default_branch''))"

text \<open>The handler of a budget stop that is no rate limit: the interruption is counted.\<close>

definition interrupted :: "env \<Rightarrow> string \<Rightarrow> attrs \<Rightarrow> string \<Rightarrow> budget \<Rightarrow> slice_step collect" where
  "interrupted en connection item key b =
     bind_act (update_progress key (\<lambda>p. dict_set ''interruption_count'' (PInt (interruptions p + 1)) p)) (\<lambda>_.
     bind_act (fence en) (\<lambda>_ st.
       let p = progress_of (co_saved st) key in
       if interruptions p < max_repository_interruption_count then bind_act (spend b True) (\<lambda>_. give (Pause 0)) st
       else bind_act (record_partial_repository en connection item retry_limit_code (attr_get p ''revision'') (attr_get p ''default_branch''))
         (\<lambda>r. bind_act (spend b True) (\<lambda>_. bind_act (set_result key r) (\<lambda>_. bind_act (fence en) (\<lambda>_. next_repository)))) st))"

definition error_code :: "gh_error \<Rightarrow> string" where
  "error_code e = (case e of Source_Error c \<Rightarrow> c | Budget_Reached c \<Rightarrow> c | Claim_Lost \<Rightarrow> ''github_collection_claim_lost'' | Other_Error c \<Rightarrow> c)"

definition handle_error :: "env \<Rightarrow> string \<Rightarrow> attrs \<Rightarrow> string \<Rightarrow> budget \<Rightarrow> gh_error \<Rightarrow> slice_step collect" where
  "handle_error en connection item key b e =
     (case e of
        Claim_Lost \<Rightarrow> raise_gh Claim_Lost
      | Budget_Reached code \<Rightarrow>
          if code = limited_code \<or> code = reserve_code then
            bind_act (spend b True) (\<lambda>_. give (Pause
              (case bg_retry_after b of Some d \<Rightarrow> if d = 0 then max_resume_delay else d | None \<Rightarrow> max_resume_delay)))
          else interrupted en connection item key b
      | _ \<Rightarrow> if error_code e \<notin> set terminal_source_errors then raise_gh e
          else bind_act (fence en) (\<lambda>_. bind_act (record_failed_repository en connection item (error_code e))
            (finish_repository en key b)))"

definition collect_one :: "env \<Rightarrow> attrs \<Rightarrow> string \<Rightarrow> attrs \<Rightarrow> string \<Rightarrow> slice_step collect" where
  "collect_one en connection connection_id item key =
     bind_act (fence en) (\<lambda>_ st0.
       let progress = progress_of (co_saved st0) key in
       if max_repository_interruption_count \<le> interruptions progress then
         bind_act (record_partial_repository en connection_id item retry_limit_code
             (attr_get progress ''revision'') (attr_get progress ''default_branch''))
           (\<lambda>r. bind_act (set_result key r) (\<lambda>_. bind_act (fence en) (\<lambda>_. next_repository))) st0
       else bind_act (contact en key) (\<lambda>(ga, b) st1.
         case attempt_snapshot en connection item key progress ga st1 of
           (st2, Inl e) \<Rightarrow> handle_error en connection_id item key b e st2
         | (st2, Inr sn) \<Rightarrow> bind_act (fence en) (\<lambda>_. bind_act (analyze_snapshot en connection_id sn) (finish_repository en key b)) st2) st0)"

section \<open>The slice\<close>

definition has_result :: "attrs \<Rightarrow> string \<Rightarrow> bool" where
  "has_result saved key \<longleftrightarrow> has (progress_of saved key) ''result''"

fun collect_loop :: "env \<Rightarrow> int \<Rightarrow> attrs \<Rightarrow> string \<Rightarrow> attrs list \<Rightarrow> slice_step collect" where
  "collect_loop en deadline connection connection_id [] st = (st, Inr Next)"
| "collect_loop en deadline connection connection_id (item # items) st =
     (let key = repository_key item in
      if has_result (co_saved st) key then collect_loop en deadline connection connection_id items st
      else if max_repositories_per_slice \<le> co_processed st then (st, Inr (Pause 0))
      else let (st1, _) = ask (en_clock en) st in
        if deadline \<le> en_clock en (co_steps st) then (st1, Inr (Pause 0))
        else case collect_one en connection connection_id item key st1 of
          (st2, Inr Next) \<Rightarrow> collect_loop en deadline connection connection_id items st2
        | (st2, other) \<Rightarrow> (st2, other))"

definition completed_results :: "attrs \<Rightarrow> attrs list \<Rightarrow> pyval list" where
  "completed_results saved selected = List.map_filter (\<lambda>item.
     let p = progress_of saved (repository_key item) in if has p ''result'' then Some (attr_get p ''result'') else None) selected"

definition result_state :: "pyval \<Rightarrow> pyval" where
  "result_state v = (case v of PDict r \<Rightarrow> attr_get r ''state'' | _ \<Rightarrow> PNone)"

definition slice_result ::
    "limits \<Rightarrow> (pyval \<Rightarrow> string) \<Rightarrow> attrs \<Rightarrow> attrs list \<Rightarrow> int \<Rightarrow> py_datetime \<Rightarrow> collect_state \<Rightarrow> slice_step \<Rightarrow> attrs" where
  "slice_result li str_of connection selected retained now st step =
     (let completed = completed_results (co_saved st) selected; n = int (length selected); m = int (length completed);
          failed = int (length (filter (\<lambda>v. result_state v = PStr ''failed'') completed));
          partial = int (length (filter (\<lambda>v. result_state v = PStr ''partial'') completed)) in
      [(''connection_id'', PStr (text_of str_of connection ''id'')),
       (''state'', PStr (if step \<noteq> Next then ''running'' else if failed \<noteq> 0 \<or> partial \<noteq> 0 then ''partial'' else ''complete'')),
       (''repositories'', PList completed), (''repository_count'', PInt n), (''selected_repository_count'', PInt n),
       (''completed_repository_count'', PInt m), (''retained_repository_count'', PInt retained),
       (''retry_repository_count'', PInt (n - retained)), (''refreshed_repository_count'', PInt (m - retained)),
       (''failed_count'', PInt failed), (''partial_count'', PInt partial), (''github_requests'', PInt (co_requests st)),
       (''github_request_limit'', PInt (li_requests li * int max_repositories_per_slice)),
       (''github_per_repository_request_limit'', PInt (li_requests li)), (''github_request_budget_scope'', PStr ''slice''),
       (''request_budget_reached'', PBool (co_reached st)), (''resume_pending'', PBool (step \<noteq> Next)),
       (''retry_after_seconds'', PInt (case step of Next \<Rightarrow> 0 | Pause d \<Rightarrow> d))] @
      (if step = Next then [(''completed_at'', PStr (isoformat now))] else []))"

definition start_state :: "attrs \<Rightarrow> collect_state" where
  "start_state saved = \<lparr>co_saved = saved, co_log = [], co_steps = 0, co_processed = 0, co_requests = 0, co_reached = False\<rparr>"

text \<open>The slice: the final state, and how it ended.\<close>

definition run_slice :: "env \<Rightarrow> limits \<Rightarrow> attrs \<Rightarrow> string \<Rightarrow> attrs list \<Rightarrow> slice_step collect" where
  "run_slice en li connection connection_id selected =
     bind_act (fence en) (\<lambda>_. bind_act (ask (en_clock en)) (\<lambda>started. bind_act (lift_gh (en_targets en)) (\<lambda>_.
       collect_loop en (started + li_deadline li) connection connection_id selected)))"

definition collect_resumable ::
    "(pyfloat \<Rightarrow> string) \<Rightarrow> env \<Rightarrow> limits \<Rightarrow> string \<Rightarrow> attrs \<Rightarrow> attrs \<Rightarrow> collect_state \<times> attrs gh" where
  "collect_resumable fl en li tenant connection checkpoint =
     (let str_of = rd_str_of (en_reading en); id = text_of str_of connection ''id'' in
      case (boundary_hash fl str_of tenant connection, selected_repositories connection) of
        (Inl e, _) \<Rightarrow> (start_state [], Inl e)
      | (Inr hash, None) \<Rightarrow> (start_state [], Inl unexpected)
      | (Inr hash, Some selected) \<Rightarrow> (case validated_checkpoint checkpoint hash selected of
            Inl e \<Rightarrow> (start_state [], Inl e)
          | Inr saved \<Rightarrow>
              let retained = int (length (case retained_ids saved of Some vs \<Rightarrow> vs | None \<Rightarrow> [])) in
              bind_act (run_slice en li connection id selected) (\<lambda>step. bind_act (ask (en_now en)) (\<lambda>now st.
                (st, Inr (slice_result li str_of connection selected retained now st step)))) (start_state saved)))"

end
