(* ===== verification/Github_Files_Props.thy ===== *)
theory Github_Files_Props
  imports Github_Files "HOL-Library.Code_Target_Nat"
begin

text \<open>The retrieval is bounded, and silent only when nothing was left out.\<close>

section \<open>Accounting\<close>

text \<open>What the state says was left out.\<close>

definition lost :: "files_state \<Rightarrow> nat" where
  "lost st = length (fs_warnings st) + fs_file_skipped st + fs_byte_skipped st"

definition used :: "(string \<Rightarrow> pyval option) \<Rightarrow> (entry \<Rightarrow> string gh) \<Rightarrow> (string \<times> string) list \<Rightarrow> entry \<Rightarrow> bool" where
  "used parse fetch files e \<longleftrightarrow> (\<exists>c. fetch e = Inr c \<and>
     ((fst e, c) \<in> set files \<or> generic_json (fst e) \<and> json_analysis_relevance parse c = Some False))"

definition files_ok :: "(string \<Rightarrow> pyval option) \<Rightarrow> (entry \<Rightarrow> string gh) \<Rightarrow> entry list \<Rightarrow> files_state \<Rightarrow> bool" where
  "files_ok parse fetch seen st \<longleftrightarrow> length (fs_files st) \<le> selected_files_limit \<and>
     fs_total st = (\<Sum>f\<leftarrow>fs_files st. int (length (snd f))) \<and> fs_total st \<le> total_bytes_limit \<and>
     (\<forall>(p, c)\<in>set (fs_files st). int (length c) \<le> max_blob_bytes \<and> (\<exists>sha n. (p, sha, n) \<in> set seen \<and> fetch (p, sha, n) = Inr c)) \<and>
     (lost st = 0 \<longrightarrow> length (fs_files st) + fs_ignored st = length seen \<and> (\<forall>e\<in>set seen. used parse fetch (fs_files st) e))"

lemma decide_keeps:
  "decide e k large st = Skip st' \<Longrightarrow> fs_files st' = fs_files st \<and> fs_total st' = fs_total st \<and> fs_ignored st' = fs_ignored st \<and> lost st < lost st'"
  "decide e k large st = Take st' l' \<Longrightarrow> fs_files st' = fs_files st \<and> fs_total st' = fs_total st \<and> fs_ignored st' = fs_ignored st \<and> lost st' = lost st"
  by (cases e; auto simp: decide_def lost_def split: if_splits)+

lemma take_batch_spec:
  assumes "take_batch es k large st = (batch, rest, st')"
  shows "\<exists>consumed. es = consumed @ rest \<and> set batch \<subseteq> set consumed \<and> fs_files st' = fs_files st \<and> fs_total st' = fs_total st \<and>
    fs_ignored st' = fs_ignored st \<and> lost st \<le> lost st' \<and> (lost st' = 0 \<longrightarrow> batch = consumed)"
  using assms
proof (induction es k large st arbitrary: batch rule: take_batch.induct)
  case (2 e es k large st)
  show ?case
  proof (cases "decide e k large st")
    case Stop_Batch
    then show ?thesis using 2(3) by auto
  next
    case (Skip st1)
    then obtain consumed where "es = consumed @ rest" "set batch \<subseteq> set consumed" "fs_files st' = fs_files st1"
      "fs_total st' = fs_total st1" "fs_ignored st' = fs_ignored st1" "lost st1 \<le> lost st'"
      using 2(1) [OF Skip] 2(3) by auto
    then show ?thesis using decide_keeps(1) [OF Skip] by (intro exI [of _ "e # consumed"]) auto
  next
    case (Take st1 l1)
    then obtain batch1 where b: "take_batch es (k + 1) l1 st1 = (batch1, rest, st')" "batch = e # batch1"
      using 2(3) by (auto simp: Let_def split: prod.splits)
    then obtain consumed where "es = consumed @ rest" "set batch1 \<subseteq> set consumed" "fs_files st' = fs_files st1"
      "fs_total st' = fs_total st1" "fs_ignored st' = fs_ignored st1" "lost st1 \<le> lost st'" "lost st' = 0 \<longrightarrow> batch1 = consumed"
      using 2(2) [OF Take b(1)] by auto
    then show ?thesis using decide_keeps(2) [OF Take] b(2) by (intro exI [of _ "e # consumed"]) auto
  qed
qed auto

text \<open>One verified input is kept, judged irrelevant, or accounted for as left out.\<close>

lemma inspect_cases:
  obtains (Kept) "fs_files (inspect parse path c st) = fs_files st @ [(path, c)]" "fs_ignored (inspect parse path c st) = fs_ignored st"
      "fs_total (inspect parse path c st) = fs_total st + int (length c)" "fs_total st + int (length c) \<le> total_bytes_limit"
      "lost (inspect parse path c st) = lost st" "\<not> files_full st" "int (length c) \<le> max_blob_bytes"
    | (Ignored) "fs_files (inspect parse path c st) = fs_files st" "fs_ignored (inspect parse path c st) = fs_ignored st + 1"
      "fs_total (inspect parse path c st) = fs_total st" "lost (inspect parse path c st) = lost st" "generic_json path"
      "json_analysis_relevance parse c = Some False"
    | (Lost) "fs_files (inspect parse path c st) = fs_files st" "fs_total (inspect parse path c st) = fs_total st"
      "lost st < lost (inspect parse path c st)"
proof -
  have add: "fs_files (add_file path c s) = fs_files s @ [(path, c)] \<and> fs_ignored (add_file path c s) = fs_ignored s \<and>
      fs_total (add_file path c s) = fs_total s + int (length c) \<and> fs_total s + int (length c) \<le> total_bytes_limit \<and>
      lost (add_file path c s) = lost s \<and> \<not> files_full s \<and> int (length c) \<le> max_blob_bytes \<or>
    fs_files (add_file path c s) = fs_files s \<and> fs_total (add_file path c s) = fs_total s \<and> lost s < lost (add_file path c s)" for s
    by (auto simp: add_file_def lost_def)
  let ?st = "st\<lparr>fs_verified := fs_verified st + 1\<rparr>"
  have same: "fs_files ?st = fs_files st" "fs_total ?st = fs_total st" "fs_ignored ?st = fs_ignored st" "lost ?st = lost st"
    "files_full ?st = files_full st" by (simp_all add: lost_def files_full_def)
  have "inspect parse path c st = add_file path c ?st \<or>
    fs_files (inspect parse path c st) = fs_files st \<and> fs_total (inspect parse path c st) = fs_total st \<and> lost st < lost (inspect parse path c st) \<or>
    fs_files (inspect parse path c st) = fs_files st \<and> fs_ignored (inspect parse path c st) = fs_ignored st + 1 \<and>
      fs_total (inspect parse path c st) = fs_total st \<and> lost (inspect parse path c st) = lost st \<and> generic_json path \<and>
      json_analysis_relevance parse c = Some False"
  proof -
    consider "json_analysis_relevance parse c = None" | "json_analysis_relevance parse c = Some True"
      | "json_analysis_relevance parse c = Some False" by (cases "json_analysis_relevance parse c") auto
    then show ?thesis by cases (simp_all add: inspect_def Let_def lost_def)
  qed
  then show thesis
  proof (elim disjE)
    assume "inspect parse path c st = add_file path c ?st"
    then show thesis using add [of ?st] that unfolding same by (elim disjE) simp_all
  qed (use that in blast)+
qed

lemma used_mono: "set files \<subseteq> set files' \<Longrightarrow> used parse fetch files e \<Longrightarrow> used parse fetch files' e"
  by (auto simp: used_def)

lemma inspect_ok:
  assumes "files_ok parse fetch seen st" "e = (path, sha, n)" "fetch e = Inr c"
  shows "files_ok parse fetch (seen @ [e]) (inspect parse path c st)"
proof (cases rule: inspect_cases [of parse path c st])
  case Kept
  let ?files = "fs_files st @ [(path, c)]"
  have "used parse fetch ?files e" using assms(2,3) by (auto simp: used_def)
  moreover have "used parse fetch ?files d" if "used parse fetch (fs_files st) d" for d
    by (rule used_mono [OF _ that]) auto
  ultimately have "lost st = 0 \<Longrightarrow> \<forall>d\<in>set (seen @ [e]). used parse fetch ?files d"
    using assms(1) by (simp add: files_ok_def)
  moreover have "\<forall>(p, b)\<in>set ?files. int (length b) \<le> max_blob_bytes \<and> (\<exists>sha n. (p, sha, n) \<in> set (seen @ [e]) \<and> fetch (p, sha, n) = Inr b)"
    using assms Kept(7) by (fastforce simp: files_ok_def)
  ultimately show ?thesis using assms(1) Kept by (simp add: files_ok_def files_full_def)
next
  case Ignored
  then have "used parse fetch (fs_files st) e" using assms(2,3) by (auto simp: used_def)
  then show ?thesis using assms(1) Ignored by (fastforce simp: files_ok_def)
next
  case Lost
  then show ?thesis using assms(1) by (fastforce simp: files_ok_def)
qed

lemma inspect_lost: "lost st \<le> lost (inspect parse path c st)"
  by (cases rule: inspect_cases [of parse path c st]) auto

lemma files_ok_skip: "files_ok parse fetch seen st \<Longrightarrow> 0 < lost st \<Longrightarrow> set seen \<subseteq> set seen' \<Longrightarrow> files_ok parse fetch seen' st"
  unfolding files_ok_def by fastforce

section \<open>The loop\<close>

definition fetched_ok :: "(entry \<Rightarrow> string gh) \<Rightarrow> entry \<Rightarrow> bool" where
  "fetched_ok fetch e \<longleftrightarrow> (\<exists>c. fetch e = Inr c)"

lemma inspect_all_ok:
  assumes "files_ok parse fetch seen st"
  shows "files_ok parse fetch (seen @ filter (fetched_ok fetch) batch) (inspect_all parse (zip batch (map fetch batch)) st) \<and>
    lost st \<le> lost (inspect_all parse (zip batch (map fetch batch)) st)"
  using assms
proof (induction batch arbitrary: seen st)
  case (Cons e batch)
  obtain path sha n where e: "e = (path, sha, n)" by (cases e)
  show ?case
  proof (cases "fetch e")
    case (Inl err)
    then show ?thesis using Cons.IH [OF Cons.prems] e by (simp add: fetched_ok_def)
  next
    case (Inr c)
    then show ?thesis using Cons.IH [OF inspect_ok [OF Cons.prems e Inr]] inspect_lost [of st parse path c] e
      by (auto simp: fetched_ok_def)
  qed
qed simp

lemma raised_None: "raised rs = None \<Longrightarrow> Inl err \<in> set rs \<Longrightarrow> \<exists>code. err = Budget_Reached code"
  unfolding raised_def
  by (induction rs) (auto simp: map_filter_simps split: list.splits option.splits sum.splits gh_error.splits)

lemma stop_list_Nil: "stop_list rs = [] \<Longrightarrow> Inl (Budget_Reached code) \<notin> set rs"
  unfolding stop_list_def by (induction rs) (auto simp: map_filter_simps split: option.splits)

lemma no_stops:
  assumes "raised (map fetch batch) = None" "stop_list (map fetch batch) = []"
  shows "filter (fetched_ok fetch) batch = batch"
proof -
  have "fetched_ok fetch e" if "e \<in> set batch" for e
  proof (cases "fetch e")
    case (Inl err)
    have "Inl err \<in> set (map fetch batch)" using that Inl [symmetric] by simp
    then show ?thesis using raised_None [OF assms(1)] stop_list_Nil [OF assms(2)] by blast
  qed (simp add: fetched_ok_def)
  then show ?thesis by (simp add: filter_id_conv)
qed

lemma take_batch_ok:
  assumes "files_ok parse fetch seen st" "take_batch es 0 0 st = (batch, rest, st')"
  shows "files_ok parse fetch seen st'"
  using take_batch_spec [OF assms(2)] assms(1) by (auto simp: files_ok_def)

text \<open>One round of the loop, and what a round that ends well has found.\<close>

lemma files_loop_round:
  assumes "es \<noteq> []" "\<not> files_full st" "take_batch es 0 0 st = (batch, rest, st1)"
    and "files_loop parse fetch ext n es st = Inr st'"
  defines "f \<equiv> map fetch batch"
  defines "st2 \<equiv> inspect_all parse (zip batch f) st1"
  obtains (Again) "raised f = None" "stop_list f = []" "files_loop parse fetch ext (n + 1) rest st2 = Inr st'"
    | (Stop) "raised f = None" "stop_list f \<noteq> []" "st' = st2\<lparr>fs_warnings := stop_warning (length (stop_list f) + length rest) # fs_warnings st2\<rparr>"
proof -
  have loop: "files_loop parse fetch ext n es st = (case raised f of
          Some e \<Rightarrow> Inl e
        | None \<Rightarrow>
            if stop_list f \<noteq> [] \<and> external_stop (stop_list f) (ext n 0) \<noteq> None then Inl (the (external_stop (stop_list f) (ext n 0)))
            else if stop_list f \<noteq> [] \<and> set (stop_list f) \<noteq> {budget_code} then Inl (Budget_Reached (first_sorted (stop_list f)))
            else if stop_list f = [] then files_loop parse fetch ext (n + 1) rest st2
            else if external_stop (stop_list f) (ext n 1) \<noteq> None then Inl (the (external_stop (stop_list f) (ext n 1)))
            else if fs_verified st2 = 0 then Inl (Budget_Reached budget_code)
            else Inr (st2\<lparr>fs_warnings := stop_warning (length (stop_list f) + length rest) # fs_warnings st2\<rparr>))"
    unfolding f_def st2_def
    by (subst files_loop.simps) (simp only: assms(1-3) Let_def prod.case if_False)
  show thesis
  proof (cases "raised f")
    case None
    then show thesis using that loop assms(4) by (simp split: if_split_asm)
  next
    case (Some e)
    then show thesis using loop assms(4) by simp
  qed
qed

lemma files_loop_ok:
  assumes "files_loop parse fetch ext n es st = Inr st'" "files_ok parse fetch seen st"
  shows "files_ok parse fetch (seen @ es) st'"
  using assms
proof (induction "length es" arbitrary: es n st seen rule: less_induct)
  case (less es n st seen)
  note 1 = less(1) less(2) less(3)
  show ?case
  proof (cases "es = [] \<or> files_full st")
    case True
    then have "es = [] \<and> st' = st \<or> st' = st\<lparr>fs_warnings := limit_warning (length es) # fs_warnings st\<rparr>"
      using 1(2) by (subst (asm) files_loop.simps) (auto split: if_splits)
    then show ?thesis
    proof
      assume "st' = st\<lparr>fs_warnings := limit_warning (length es) # fs_warnings st\<rparr>"
      then have "files_ok parse fetch seen st'" "0 < lost st'" using 1(3) by (auto simp: files_ok_def lost_def)
      then show ?thesis by (rule files_ok_skip) simp
    qed (use 1(3) in simp)
  next
    case False
    obtain batch rest st1 where b: "take_batch es 0 0 st = (batch, rest, st1)" by (cases "take_batch es 0 0 st")
    let ?f = "map fetch batch" let ?st2 = "inspect_all parse (zip batch ?f) st1"
    obtain consumed where c: "es = consumed @ rest" "set batch \<subseteq> set consumed" "lost st1 = 0 \<longrightarrow> batch = consumed"
      using take_batch_spec [OF b] by (elim exE conjE)
    have st2: "files_ok parse fetch (seen @ filter (fetched_ok fetch) batch) ?st2" "lost st1 \<le> lost ?st2"
      using inspect_all_ok [OF take_batch_ok [OF 1(3) b], of batch] by (rule conjunct1, rule conjunct2)
    have ne: "es \<noteq> []" "\<not> files_full st" using False by auto
    have "length rest < length es" using take_batch_progress [OF ne(1), of st] b by simp
    note step = less(1) [OF this]
    show ?thesis
      using ne b 1(2)
    proof (cases rule: files_loop_round)
      case Again
      then have all: "filter (fetched_ok fetch) batch = batch" using no_stops by blast
      have "files_ok parse fetch (seen @ consumed) ?st2"
      proof (cases "lost ?st2 = 0")
        case True
        then show ?thesis using st2 c(3) all by simp
      next
        case False
        then show ?thesis using st2(1) c(2) all by (intro files_ok_skip [OF st2(1)]) auto
      qed
      from step [OF Again(3) this] show ?thesis using c(1) by simp
    next
      case Stop
      then have "files_ok parse fetch (seen @ filter (fetched_ok fetch) batch) st'" "0 < lost st'"
        using st2(1) by (auto simp: files_ok_def lost_def)
      then show ?thesis by (rule files_ok_skip) (use c in auto)
    qed
  qed
qed

section \<open>Properties\<close>

lemma empty_files_ok: "files_ok parse fetch [] empty_files"
  by (simp add: files_ok_def empty_files_def total_bytes_limit_def)



text \<open>
  A generic JSON file is ignored exactly when it is within the size and structure bounds, parses, has no
  resource or identity key at its top level, no configuration key in any object however nested, and no more
  than 100000 values.
\<close>

theorem json_ignored_iff:
  "json_analysis_relevance parse content = Some False \<longleftrightarrow>
     length content \<le> 8000000 \<and> bounded_json_structure content \<and>
     (\<exists>v. parse content = Some v \<and> \<not> configured v \<and> json_nodes v \<le> 100000 \<and>
       (case v of PDict d \<Rightarrow> {''Resources'', ''resources'', ''id''} \<inter> fst ` set d = {} | _ \<Rightarrow> True))"
proof (cases "parse content")
  case (Some v)
  have top: "(case v of PDict d \<Rightarrow> list_ex (\<lambda>(k, _). k \<in> {''Resources'', ''resources'', ''id''}) d | _ \<Rightarrow> False) \<longleftrightarrow>
      \<not> (case v of PDict d \<Rightarrow> {''Resources'', ''resources'', ''id''} \<inter> fst ` set d = {} | _ \<Rightarrow> True)"
    by (cases v) (force simp: list_ex_iff)+
  show ?thesis
    using relevance_loop_False [of max_tree_inspected_entries "[v]"]
    by (auto simp: json_analysis_relevance_def Some max_json_inspection_bytes_def top max_tree_inspected_entries_def)
qed (simp add: json_analysis_relevance_def)

end
