(* ===== verification/Github_Snapshot_Facts.thy ===== *)
theory Github_Snapshot_Facts
  imports Github_Snapshot Github_Files_Props
begin

text \<open>
  A small Hoare logic for the actions of a collection, facts on dictionaries, and what a snapshot that is
  returned satisfies.
\<close>

section \<open>Triples\<close>

definition triple ::
    "('s \<Rightarrow> bool) \<Rightarrow> ('s, 'a) act \<Rightarrow> ('a \<Rightarrow> 's \<Rightarrow> bool) \<Rightarrow> (gh_error \<Rightarrow> 's \<Rightarrow> bool) \<Rightarrow> bool" where
  "triple P m Q E \<longleftrightarrow> (\<forall>st. P st \<longrightarrow> (case m st of (st', Inr x) \<Rightarrow> Q x st' | (st', Inl e) \<Rightarrow> E e st'))"

lemma tripleD:
  assumes "triple P m Q E" "P st"
  shows "m st = (st', Inr x) \<Longrightarrow> Q x st'" "m st = (st', Inl e) \<Longrightarrow> E e st'"
  using assms by (auto simp: triple_def split: prod.splits sum.splits)

lemma triple_bind:
  "triple P m R E \<Longrightarrow> (\<And>x. triple (R x) (f x) Q E) \<Longrightarrow> triple P (bind_act m f) Q E"
  by (fastforce simp: triple_def bind_act_def split: prod.splits sum.splits)

lemma triple_give: "(\<And>st. P st \<Longrightarrow> Q x st) \<Longrightarrow> triple P (give x) Q E"
  by (simp add: triple_def give_def)

lemma triple_raise: "(\<And>st. P st \<Longrightarrow> E e st) \<Longrightarrow> triple P (raise_gh e) Q E"
  by (simp add: triple_def raise_gh_def)

lemma triple_lift:
  "(\<And>st x. P st \<Longrightarrow> m = Inr x \<Longrightarrow> Q x st) \<Longrightarrow> (\<And>st e. P st \<Longrightarrow> m = Inl e \<Longrightarrow> E e st) \<Longrightarrow> triple P (lift_gh m) Q E"
  by (auto simp: triple_def lift_gh_def split: sum.splits)

lemma triple_if: "(b \<Longrightarrow> triple P m Q E) \<Longrightarrow> (\<not> b \<Longrightarrow> triple P m' Q E) \<Longrightarrow> triple P (if b then m else m') Q E"
  by simp

lemma triple_pre: "triple P' m Q E \<Longrightarrow> (\<And>st. P st \<Longrightarrow> P' st) \<Longrightarrow> triple P m Q E"
  by (simp add: triple_def)

lemma triple_post:
  "triple P m Q' E' \<Longrightarrow> (\<And>x st. Q' x st \<Longrightarrow> Q x st) \<Longrightarrow> (\<And>e st. E' e st \<Longrightarrow> E e st) \<Longrightarrow> triple P m Q E"
  by (auto simp: triple_def split: prod.splits sum.splits)

text \<open>An action that reads the state before it runs.\<close>

lemma triple_at: "(\<And>st. P st \<Longrightarrow> triple (\<lambda>s. s = st) m Q E) \<Longrightarrow> triple P m Q E"
  by (simp add: triple_def)

lemma triple_same: "triple (\<lambda>s. s = st) m' Q E \<Longrightarrow> m st = m' st \<Longrightarrow> triple (\<lambda>s. s = st) m Q E"
  by (simp add: triple_def)

section \<open>Dictionaries\<close>

lemma keys_set [simp]: "keys_of (dict_set k v d) = insert k (keys_of d)"
  unfolding keys_of_def dom_map_of_conv_image_fst [symmetric] by (simp add: update_conv')

lemma has_set [simp]: "has (dict_set k v d) k' \<longleftrightarrow> k' = k \<or> has d k'"
  by (simp add: has_def)

lemma attr_set [simp]: "attr_get (dict_set k v d) k' = (if k' = k then v else attr_get d k')"
  by (simp add: attr_get_def update_conv')

lemma not_has [simp]: "\<not> has d k \<Longrightarrow> attr_get d k = PNone"
  by (force simp: has_def keys_of_def attr_get_def dest: map_of_SomeD split: option.splits)

lemma dict_set_ne [simp]: "dict_set k v d \<noteq> []"
  by (cases d) auto

lemma dict_set_same: "has d k \<Longrightarrow> attr_get d k = v \<Longrightarrow> dict_set k v d = d"
proof -
  have "map_of d k = Some v \<Longrightarrow> dict_set k v d = d"
    by (induction d) (auto split: if_splits)
  moreover have "has d k \<Longrightarrow> attr_get d k = v \<Longrightarrow> map_of d k = Some v"
    by (auto simp: has_def keys_of_def attr_get_def map_of_eq_None_iff split: option.splits)
  ultimately show "has d k \<Longrightarrow> attr_get d k = v \<Longrightarrow> dict_set k v d = d" by blast
qed

lemma list_all_set: "list_all P d \<Longrightarrow> P (k, v) \<Longrightarrow> list_all P (dict_set k v d)"
  by (induction d) auto

lemma str_nat_inj: "str_nat m = str_nat n \<longleftrightarrow> m = n"
proof
  have "nat_of_digits 0 (str_nat k) = k" for k
  proof -
    have "nat_of_digits a (s @ t) = nat_of_digits (nat_of_digits a s) t" for a s t
      by (induction a s rule: nat_of_digits.induct) simp_all
    then show ?thesis
      by (induction k rule: str_nat.induct) (subst str_nat.simps, auto)
  qed
  then show "str_nat m = str_nat n \<Longrightarrow> m = n" by metis
qed simp

lemma str_nat_digits: "str_nat k \<noteq> [] \<and> list_all is_digit (str_nat k)"
proof (induction k rule: str_nat.induct)
  case (1 k)
  then show ?case by (cases "k < 10") (simp_all add: str_nat.simps [of k] is_digit_def)
qed

lemma str_int_inj: "str_int i = str_int j \<longleftrightarrow> i = j"
proof
  have "CHR ''-'' # s \<noteq> str_nat k" for s k
  proof
    assume "CHR ''-'' # s = str_nat k"
    then have "is_digit (CHR ''-'')" using str_nat_digits [of k] by (simp flip: \<open>CHR ''-'' # s = str_nat k\<close>)
    then show False by (simp add: is_digit_def)
  qed
  then show "str_int i = str_int j \<Longrightarrow> i = j"
    by (auto simp: str_int_def str_nat_inj split: if_splits) (metis)+
qed simp

section \<open>What a snapshot holds\<close>

lemma inspect_ignored: "fs_ignored (inspect parse path c st) \<le> fs_ignored st + 1"
proof -
  have "fs_ignored (add_file path c s) = fs_ignored s" for s by (simp add: add_file_def)
  then show ?thesis by (auto simp: inspect_def Let_def split: option.split bool.split)
qed

lemma inspect_all_ignored: "fs_ignored (inspect_all parse items st) \<le> fs_ignored st + length items"
proof (induction parse items st rule: inspect_all.induct)
  case (2 parse path sha bytes content items st)
  then show ?case using inspect_ignored [of parse path content st] by simp
qed auto

lemma take_batch_length:
  "take_batch es k large st = (batch, rest, st') \<Longrightarrow> length batch + length rest \<le> length es"
  by (induction es k large st arbitrary: batch rule: take_batch.induct)
    (fastforce simp: Let_def split: batch_decision.splits prod.splits)+

lemma files_loop_ignored:
  "files_loop parse fetch ext n es st = Inr st' \<Longrightarrow> fs_ignored st' \<le> fs_ignored st + length es"
proof (induction "length es" arbitrary: es n st rule: less_induct)
  case (less es n st)
  show ?case
  proof (cases "es = [] \<or> files_full st")
    case True
    then show ?thesis using less(2) by (subst (asm) files_loop.simps) (auto split: if_splits)
  next
    case False
    then have ne: "es \<noteq> []" "\<not> files_full st" by auto
    obtain batch rest st1 where b: "take_batch es 0 0 st = (batch, rest, st1)" by (cases "take_batch es 0 0 st")
    let ?f = "map fetch batch" let ?st2 = "inspect_all parse (zip batch ?f) st1"
    have st2: "fs_ignored ?st2 + length rest \<le> fs_ignored st + length es"
      using inspect_all_ignored [of parse "zip batch ?f" st1] take_batch_spec [OF b] take_batch_length [OF b] by auto
    have "length rest < length es" using take_batch_progress [OF ne(1), of st] b by simp
    note step = less(1) [OF this]
    show ?thesis using ne b less(2)
    proof (cases rule: files_loop_round)
      case Again
      then show ?thesis using step [OF Again(3)] st2 by simp
    next
      case Stop
      then show ?thesis using st2 by simp
    qed
  qed
qed

lemma candidates_length: "candidates es = Inr (ws, xs) \<Longrightarrow> length xs \<le> length es"
proof (induction es arbitrary: ws xs)
  case (Cons e es)
  then obtain ws1 xs1 ws2 xs2 where "candidate e = Inr (ws1, xs1)" "candidates es = Inr (ws2, xs2)" "xs = xs1 @ xs2"
    by auto
  moreover from this(1) have "length xs1 \<le> 1"
    by (auto simp: candidate_def split: if_splits pyval.splits option.splits)
  ultimately show ?case using Cons.IH by fastforce
qed simp

definition counted :: "page \<Rightarrow> bool" where
  "counted pg \<longleftrightarrow> length (pg_blobs pg) \<le> pg_relevant pg"

lemma tree_children_counted: "tree_children prefix recursive vs pg = Inr pg' \<Longrightarrow> counted pg \<Longrightarrow> counted pg'"
proof (induction prefix recursive vs pg rule: tree_children.induct)
  case (2 prefix recursive v vs pg)
  then obtain pg1 where pg1: "tree_child prefix recursive v pg = Inr pg1" "tree_children prefix recursive vs pg1 = Inr pg'"
    by auto
  have "tree_kind path child (pg\<lparr>pg_seen := s\<rparr>) = Inr pg1 \<Longrightarrow> counted pg1" for path child s
    using 2(3) by (auto simp: tree_kind_def counted_def Let_def split: if_splits pyval.splits)
  then have "counted pg1" using pg1(1) by (auto simp: tree_child_def Let_def split: if_splits pyval.splits)
  then show ?case using 2(1) pg1 by simp
qed simp

lemma page_counted: "validated_tree_page vs prefix recursive seen = Inr pg \<Longrightarrow> length (pg_blobs pg) \<le> pg_relevant pg"
  using tree_children_counted [of prefix recursive vs _ pg] by (fastforce simp: validated_tree_page_def counted_def)

definition walk_counted :: "Github_Tree.walk \<Rightarrow> bool" where
  "walk_counted w \<longleftrightarrow> length (wa_entries w) \<le> wa_relevant w \<and> wa_relevant w \<le> max_tree_entries"

lemma walk_answer_counted: "walk_answer n prefix sha recursive d w = Inr w' \<Longrightarrow> walk_counted w \<Longrightarrow> walk_counted w'"
  by (auto simp: walk_answer_def walk_counted_def Let_def dest!: page_counted split: pyval.splits if_splits)

lemma walk_loop_counted: "walk_loop fetch left w = Inr entries \<Longrightarrow> walk_counted w \<Longrightarrow> length entries \<le> max_tree_entries"
proof (induction fetch left w rule: walk_loop.induct)
  case (2 fetch left w)
  then show ?case
    by (cases "wa_pending w") (auto simp: walk_counted_def dest!: walk_answer_counted)
qed (auto simp: walk_counted_def split: if_splits)

lemma tree_entries_length: "tree_entries ga commit = Inr es \<Longrightarrow> length es \<le> max_tree_entries"
proof -
  have "walk_tree f c = Inr es \<Longrightarrow> length es \<le> max_tree_entries" for f c
    by (auto simp: walk_tree_def walk_counted_def elim!: walk_loop_counted)
  moreover assume "tree_entries ga commit = Inr es"
  then obtain tree vs where "attr_get tree ''tree'' = PList vs" "(if max_tree_inspected_entries < length vs then Inl (Source_Error ''repository_tree_inspection_limit_exceeded'')
      else if attr_get tree ''truncated'' = PBool True then walk_tree (ga_walk ga) commit
      else if attr_get tree ''truncated'' \<noteq> PBool False then Inl (Source_Error ''repository_tree_incomplete'')
      else bind_gh (validated_tree_page vs [] True []) (\<lambda>pg.
        if max_tree_entries < pg_relevant pg then Inl (Source_Error ''repository_tree_limit_exceeded'') else Inr (pg_blobs pg))) = Inr es"
    by (cases "ga_tree ga") (auto simp: tree_entries_def split: pyval.split_asm)
  ultimately show "length es \<le> max_tree_entries" by (auto dest!: page_counted split: if_splits)
qed

definition small_files :: "(string \<times> string) list \<Rightarrow> nat \<Rightarrow> bool" where
  "small_files files ignored \<longleftrightarrow> length files \<le> 2000 \<and> (\<Sum>f\<leftarrow>files. int (length (snd f))) \<le> max_total_bytes \<and>
     ignored \<le> max_tree_entries"

lemma read_files_small:
  assumes "read_files rd ga commit = Inr (files, warnings, ignored)"
  shows "small_files files ignored"
proof -
  obtain es ws found ws2 where es: "tree_entries ga commit = Inr es" "candidates es = Inr (ws, found)"
    "resumable_files (rd_json rd) (\<lambda>e. bind_gh (ga_blob ga e) (blob_content (rd_base64 rd) (rd_str_of rd) e))
      (ga_external ga) (sorted_candidates found) = Inr (files, ws2, ignored)"
    using assms by (auto simp: read_files_def)
  then obtain st where st: "files_loop (rd_json rd) (\<lambda>e. bind_gh (ga_blob ga e) (blob_content (rd_base64 rd) (rd_str_of rd) e))
      (ga_external ga) 0 (sorted_candidates found) empty_files = Inr st" "files = fs_files st" "ignored = fs_ignored st"
    by (auto simp: resumable_files_def)
  have "ignored \<le> length found" using files_loop_ignored [OF st(1)] st(3) by (simp add: empty_files_def sorted_candidates_def)
  also have "\<dots> \<le> max_tree_entries" using candidates_length [OF es(2)] tree_entries_length [OF es(1)] by simp
  finally have "ignored \<le> max_tree_entries" .
  moreover have "length files \<le> 2000 \<and> (\<Sum>f\<leftarrow>files. int (length (snd f))) \<le> max_total_bytes"
    using files_loop_ok [OF st(1) empty_files_ok] st(2)
    by (simp add: files_ok_def selected_files_limit_def total_bytes_limit_def max_total_bytes_def)
  ultimately show ?thesis by (simp add: small_files_def)
qed

end
