(* ===== verification/Github_Collect_Facts.thy ===== *)
theory Github_Collect_Facts
  imports Github_Collect Github_Snapshot_Facts
begin

text \<open>
  The saved progress of a collection stays a checkpoint the next slice accepts: lemmas on the validation of
  checkpoints and results, and triples for every action of a slice.
\<close>

section \<open>Good checkpoints\<close>

definition good_saved :: "string \<Rightarrow> attrs list \<Rightarrow> attrs \<Rightarrow> bool" where
  "good_saved hash selected saved \<longleftrightarrow> validated_checkpoint saved hash selected = Inr saved"

definition item_ok :: "attrs \<Rightarrow> bool" where
  "item_ok item \<longleftrightarrow> (\<exists>i name. attr_get item ''id'' = PInt i \<and> attr_get item ''full_name'' = PStr name)"

definition selected_ok :: "attrs list \<Rightarrow> bool" where
  "selected_ok selected \<longleftrightarrow> list_all item_ok selected \<and> distinct (map (\<lambda>item. attr_get item ''id'') selected)"

definition progress_ok :: "attrs list \<Rightarrow> string \<times> pyval \<Rightarrow> bool" where
  "progress_ok selected kv \<longleftrightarrow> (case map_of (by_id selected) (fst kv) of Some item \<Rightarrow> valid_progress item (snd kv) | None \<Rightarrow> False)"

lemma good_saved_iff:
  "good_saved hash selected saved \<longleftrightarrow> saved \<noteq> [] \<and> \<not> boundary_changed saved hash selected \<and>
     has saved ''repository_count'' \<and> attr_get saved ''repository_count'' = PInt (int (length selected)) \<and>
     (\<exists>retained. retained_ids saved = Some retained \<and> valid_retained selected retained \<and>
       list_all (progress_ok selected) (saved_repositories saved) \<and>
       list_all (\<lambda>v. saved_state (saved_repositories saved) (str_int (int_of v)) = PStr ''complete'') retained)"
proof (cases "saved = [] \<or> boundary_changed saved hash selected")
  case True
  then show ?thesis by (auto simp: good_saved_def validated_checkpoint_def)
next
  case False
  then obtain reps where reps: "attr_get saved ''repositories'' = PDict reps"
    by (auto simp: boundary_changed_def split: pyval.splits)
  have ok: "progress_ok selected = (\<lambda>(key, v). case map_of (by_id selected) key of Some item \<Rightarrow> valid_progress item v | None \<Rightarrow> False)"
    by (rule ext) (simp add: progress_ok_def split_beta)
  have "dict_set ''repository_count'' (PInt (int (length selected))) saved = saved \<longleftrightarrow>
      has saved ''repository_count'' \<and> attr_get saved ''repository_count'' = PInt (int (length selected))"
    using has_set [of "''repository_count''" "PInt (int (length selected))" saved "''repository_count''"]
      attr_set [of "''repository_count''" "PInt (int (length selected))" saved "''repository_count''"]
      dict_set_same [of saved "''repository_count''"] by metis
  then show ?thesis
    using False by (auto simp: good_saved_def validated_checkpoint_def reps saved_repositories_def ok split: option.splits)
qed

lemma saved_repositories_set [simp]:
  "saved_repositories (set_progress key p saved) = dict_set key (PDict p) (saved_repositories saved)"
  by (simp add: saved_repositories_def set_progress_def)

lemma progress_set [simp]: "progress_of (set_progress key p saved) k = (if k = key then p else progress_of saved k)"
  by (simp add: progress_of_def update_conv')

lemma has_result_set [simp]:
  "has_result (set_progress key p saved) k \<longleftrightarrow> (if k = key then has p ''result'' else has_result saved k)"
  by (simp add: has_result_def)

lemma complete_has_result:
  assumes "saved_state (saved_repositories saved) key = PStr ''complete''"
  shows "has_result saved key"
proof -
  obtain p where "map_of (saved_repositories saved) key = Some (PDict p)" "attr_get p ''result'' \<noteq> PNone"
    using assms by (auto simp: saved_state_def split: option.splits pyval.splits)
  moreover from this have "has p ''result''" using not_has [of p] by blast
  ultimately show ?thesis by (simp add: has_result_def progress_of_def)
qed

lemma good_set_progress:
  assumes "good_saved hash selected saved" "map_of (by_id selected) key = Some item" "valid_progress item (PDict p)"
    and "\<not> has_result saved key"
  shows "good_saved hash selected (set_progress key p saved)"
proof -
  let ?s = "set_progress key p saved"
  have old: "\<not> boundary_changed saved hash selected" using assms(1) by (simp add: good_saved_iff)
  have "has saved ''repositories''" using old by (auto simp: boundary_changed_def has_def)
  then have keys: "keys_of ?s = keys_of saved" by (auto simp: set_progress_def has_def)
  have other: "attr_get ?s k = attr_get saved k" if "k \<noteq> ''repositories''" for k
    using that by (simp add: set_progress_def)
  have "\<not> boundary_changed ?s hash selected"
    using old keys other by (auto simp: boundary_changed_def has_def set_progress_def)
  moreover have "retained_ids ?s = retained_ids saved" using keys other by (simp add: retained_ids_def has_def)
  moreover have "list_all (progress_ok selected) (saved_repositories ?s)"
    using assms(1-3) by (auto simp: good_saved_iff progress_ok_def intro!: list_all_set)
  moreover have "saved_state (saved_repositories ?s) k = PStr ''complete''"
    if "saved_state (saved_repositories saved) k = PStr ''complete''" for k
    using that complete_has_result [OF that] assms(4) by (auto simp: saved_state_def update_conv')
  moreover have "?s \<noteq> []" by (simp add: set_progress_def)
  ultimately show ?thesis using assms(1) keys other by (fastforce simp: good_saved_iff has_def list_all_iff)
qed

lemma good_progress:
  assumes "good_saved hash selected saved" "map_of (by_id selected) key = Some item"
  shows "valid_progress item (PDict (progress_of saved key))"
proof (cases "map_of (saved_repositories saved) key")
  case None
  then show ?thesis by (simp add: progress_of_def valid_progress_def valid_pin_def has_def keys_of_def)
next
  case (Some v)
  then have "progress_ok selected (key, v)"
    using assms(1) by (auto simp: good_saved_iff list_all_iff dest: map_of_SomeD)
  then have "valid_progress item v" using assms(2) by (simp add: progress_ok_def)
  then show ?thesis using Some by (auto simp: progress_of_def valid_progress_def split: pyval.splits)
qed

lemma by_id_lookup:
  assumes "selected_ok selected" "item \<in> set selected"
  shows "map_of (by_id selected) (repository_key item) = Some item"
proof -
  have fold: "distinct (map key xs) \<Longrightarrow> x \<in> set xs \<Longrightarrow>
      map_of (fold (\<lambda>x d. dict_set (key x) x d) xs d) (key x) = Some x" for key :: "attrs \<Rightarrow> string" and xs x d
  proof (induction xs arbitrary: d)
    case (Cons y ys)
    have "map_of (fold (\<lambda>x d. dict_set (key x) x d) ys d) k = map_of d k" if "k \<notin> key ` set ys" for k d
      using that by (induction ys arbitrary: d) (auto simp: update_conv')
    then show ?case using Cons by (auto simp: update_conv')
  qed simp
  have "inj_on (\<lambda>item. str_int (int_of (attr_get item ''id''))) (set selected)"
  proof (rule inj_onI)
    fix x y
    assume xy: "x \<in> set selected" "y \<in> set selected"
      "str_int (int_of (attr_get x ''id'')) = str_int (int_of (attr_get y ''id''))"
    obtain i j where "attr_get x ''id'' = PInt i" "attr_get y ''id'' = PInt j"
      using assms(1) xy(1,2) unfolding selected_ok_def item_ok_def list_all_iff by meson
    then have "attr_get x ''id'' = attr_get y ''id''" using xy(3) by (simp add: str_int_inj int_of_def)
    then show "x = y" using assms(1) xy(1,2) by (auto simp: selected_ok_def distinct_map dest: inj_onD)
  qed
  then have "distinct (map (\<lambda>item. str_int (int_of (attr_get item ''id''))) selected)"
    using assms(1) by (simp add: selected_ok_def distinct_map)
  from fold [OF this assms(2)] show ?thesis by (simp add: by_id_def dict_of_def repository_key_def)
qed

section \<open>Valid progress\<close>

lemma valid_progress_iff:
  "valid_progress item (PDict p) \<longleftrightarrow> keys_of p \<subseteq> {''revision'', ''default_branch'', ''result'', ''interruption_count''} \<and>
     (has p ''interruption_count'' \<longrightarrow> int_within max_repository_interruption_count (attr_get p ''interruption_count'')) \<and>
     valid_pin p \<and> (has p ''result'' \<longrightarrow> valid_result (attr_get p ''result'') item (attr_get p ''revision''))"
  by (simp add: valid_progress_def)

lemma valid_pin_set: "k \<noteq> ''revision'' \<Longrightarrow> k \<noteq> ''default_branch'' \<Longrightarrow> valid_pin (dict_set k v p) \<longleftrightarrow> valid_pin p"
  by (simp add: valid_pin_def split: pyval.split)

lemma valid_pinned:
  assumes "valid_progress item (PDict p)" "\<not> has p ''result''" "valid_branch branch"
    and "commit = ''empty'' \<or> is_sha commit \<and> branch \<noteq> PNone"
  shows "valid_progress item (PDict (dict_set ''default_branch'' branch (dict_set ''revision'' (PStr commit) p)))"
  using assms by (auto simp: valid_progress_iff valid_pin_def)

lemma interruptions_bound:
  assumes "valid_progress item (PDict p)"
  shows "0 \<le> interruptions p \<and> interruptions p \<le> max_repository_interruption_count"
proof (cases "has p ''interruption_count''")
  case True
  then have "int_within max_repository_interruption_count (attr_get p ''interruption_count'')"
    using assms by (simp add: valid_progress_iff)
  then show ?thesis by (cases "attr_get p ''interruption_count''") (simp_all add: int_within_def interruptions_def)
qed (simp add: interruptions_def max_repository_interruption_count_def)

lemma valid_interrupted:
  assumes "valid_progress item (PDict p)" "\<not> has p ''result''" "interruptions p < max_repository_interruption_count"
  shows "valid_progress item (PDict (dict_set ''interruption_count'' (PInt (interruptions p + 1)) p))"
  using assms interruptions_bound [OF assms(1)]
  by (auto simp: valid_progress_iff valid_pin_set) (simp_all add: int_within_def)

lemma valid_with_result:
  assumes "valid_progress item (PDict p)" "valid_result (PDict r) item (attr_get p ''revision'')"
  shows "valid_progress item (PDict (dict_set ''result'' (PDict r) p))"
  using assms by (auto simp: valid_progress_iff valid_pin_set)

section \<open>Valid results\<close>

lemma keys_Cons [simp]: "keys_of ((k, v) # d) = insert k (keys_of d)"
  by (simp add: keys_of_def)

lemma keys_Nil [simp]: "keys_of [] = {}"
  by (simp add: keys_of_def)

lemma keys_append [simp]: "keys_of (d @ e) = keys_of d \<union> keys_of e"
  by (auto simp: keys_of_def)

lemma attr_Cons [simp]: "attr_get ((k, v) # d) k' = (if k' = k then v else attr_get d k')"
  by (auto simp: attr_get_def)

lemma attr_Nil [simp]: "attr_get [] k = PNone"
  by (simp add: attr_get_def)

lemma failed_valid:
  assumes "item_ok item" "code \<in> set terminal_source_errors" "code \<noteq> retry_limit_code"
  shows "valid_result (PDict (failed_result item code)) item revision"
proof -
  obtain i name where "attr_get item ''id'' = PInt i" "attr_get item ''full_name'' = PStr name"
    using assms(1) by (auto simp: item_ok_def)
  then show ?thesis using assms(2,3)
    by (simp add: valid_result_def failed_result_def result_fields_ok_def result_parts_ok_def result_shape_ok_def
        retry_limit_reached_def retry_limit_code_def has_def is_int_def one_of_def sub_attrs_def count_keys_def base_keys_def)
      (auto simp: coverage_keys_def)
qed

lemma partial_valid:
  assumes "item_ok item" "revision = PNone \<or> (\<exists>c. revision = PStr c \<and> c \<noteq> [])"
  shows "valid_result (PDict (partial_result str_of item retry_limit_code revision)) item revision"
proof -
  obtain i name where item: "attr_get item ''id'' = PInt i" "attr_get item ''full_name'' = PStr name"
    using assms(1) by (auto simp: item_ok_def)
  have name: "text_or str_of item ''full_name'' ''unknown/unknown'' = name"
    using item(2) by (auto simp: text_or_def attr_get_def py_str_def split: option.splits)
  define r where "r = partial_result str_of item retry_limit_code revision"
  have detail: "retry_limit_reached r" by (simp add: r_def partial_result_def retry_limit_reached_def retry_limit_code_def)
  have keys: "keys_of r = {''repository_id'', ''repository'', ''state'', ''detail'', ''files'', ''bytes''} \<union>
      (if revision = PNone then {} else {''revision''})"
    by (simp add: r_def partial_result_def)
  have get: "attr_get r ''repository_id'' = PInt i" "attr_get r ''repository'' = PStr name"
    "attr_get r ''state'' = PStr ''partial''" "attr_get r ''detail'' = PStr retry_limit_code" "attr_get r ''files'' = PInt 0"
    "attr_get r ''bytes'' = PInt 0" "attr_get r ''revision'' = revision"
    using item name by (simp_all add: r_def partial_result_def)
  have "truthy revision = (revision \<noteq> PNone)" using assms(2) by auto
  then have "result_shape_ok r revision"
    unfolding result_shape_ok_def using detail keys get by (auto simp: base_keys_def)
  moreover have "result_fields_ok r item revision"
    unfolding result_fields_ok_def has_def keys using item detail get
    by (simp add: is_int_def one_of_def count_keys_def int_within_def int_of_def max_selected_files_def max_total_bytes_def
        retry_limit_code_def terminal_source_errors_def)
  moreover have "result_parts_ok r" unfolding result_parts_ok_def sub_attrs_def has_def keys by (simp add: coverage_keys_def)
  ultimately show ?thesis by (simp add: valid_result_def flip: r_def)
qed

text \<open>What is assumed of the connectors and the sink: counts in range, and the summary of a correlation.\<close>

definition count_ok :: "int \<Rightarrow> bool" where
  "count_ok n \<longleftrightarrow> 0 \<le> n \<and> n \<le> 1000000000"

definition counts_ok :: "counts \<Rightarrow> bool" where
  "counts_ok c \<longleftrightarrow> count_ok (ct_assets c) \<and> count_ok (ct_relationships c) \<and> count_ok (ct_findings c)"

definition summary_ok :: "attrs \<Rightarrow> bool" where
  "summary_ok d \<longleftrightarrow> keys_of d = set correlation_keys \<and> list_all (int_within 1000000000 \<circ> snd) d"

definition snapshot_ok :: "attrs \<Rightarrow> snapshot \<Rightarrow> bool" where
  "snapshot_ok item sn \<longleftrightarrow> sn_repository_id sn = attr_get item ''id'' \<and>
     (\<exists>name. attr_get item ''full_name'' = PStr name \<and> sn_repository_name sn = canonical_repository name) \<and>
     small_files (sn_files sn) (sn_ignored sn)"

definition states_of :: "pyval \<Rightarrow> pyval \<Rightarrow> pyval \<Rightarrow> pyval \<Rightarrow> attrs" where
  "states_of ss is ps cs = [(''source'', ss), (''inventory'', is), (''posture'', ps), (''correlation'', cs)]"

lemma coverage_value_state: "one_of coverage_states (PStr (coverage_value s))"
  by (cases s) (simp_all add: one_of_def coverage_states_def)

lemma snapshot_valid:
  assumes item: "item_ok item" and sn: "snapshot_ok item sn"
    and counts: "counts_ok s" "counts_ok i" "counts_ok p" "counts_ok c" and summary: "summary_ok d"
    and states: "one_of coverage_states ss" "one_of coverage_states is" "one_of coverage_states ps" "one_of coverage_states cs"
  shows "valid_result (PDict (snapshot_result sn s i p c d (states_of ss is ps cs))) item (PStr (sn_commit sn))"
proof -
  obtain n name where name: "attr_get item ''id'' = PInt n" "attr_get item ''full_name'' = PStr name"
    "sn_repository_id sn = PInt n" "sn_repository_name sn = canonical_repository name"
    using item sn by (auto simp: item_ok_def snapshot_ok_def)
  define r where "r = snapshot_result sn s i p c d (states_of ss is ps cs)"
  let ?all = "list_all (\<lambda>(k, v). v = PStr ''complete'') (states_of ss is ps cs)"
  let ?more = "if sn_ignored sn = 0 then {} else {''ignored_inputs''}"
  have "keys_of r = {''repository_id'', ''repository'', ''state'', ''revision'', ''files'', ''bytes'', ''source_assets'',
      ''inventory_assets'', ''inventory_relationships'', ''posture_findings'', ''deployment_relationships'', ''correlation'',
      ''coverage''} \<union> ?more"
    by (simp add: r_def snapshot_result_def)
  also have "\<dots> = set base_keys \<union> set count_keys \<union> {''revision'', ''coverage'', ''correlation''} \<union> ?more"
    by (rule arg_cong [of _ _ "\<lambda>x. x \<union> ?more"], rule equalityI) (simp_all add: base_keys_def count_keys_def)
  finally have keys: "keys_of r = set base_keys \<union> set count_keys \<union> {''revision'', ''coverage'', ''correlation''} \<union> ?more" .
  have get: "attr_get r ''repository_id'' = PInt n" "attr_get r ''repository'' = PStr name"
    "attr_get r ''state'' = PStr (if ?all then ''complete'' else ''partial'')" "attr_get r ''detail'' = PNone"
    "attr_get r ''revision'' = PStr (sn_commit sn)" "attr_get r ''files'' = PInt (int (length (sn_files sn)))"
    "attr_get r ''bytes'' = PInt (total_bytes sn)" "attr_get r ''source_assets'' = PInt (ct_assets s)"
    "attr_get r ''inventory_assets'' = PInt (ct_assets i)" "attr_get r ''inventory_relationships'' = PInt (ct_relationships i)"
    "attr_get r ''posture_findings'' = PInt (ct_findings p)" "attr_get r ''deployment_relationships'' = PInt (ct_relationships c)"
    "attr_get r ''correlation'' = PDict d" "attr_get r ''coverage'' = PDict (states_of ss is ps cs)"
    "attr_get r ''ignored_inputs'' = (if sn_ignored sn = 0 then PNone else PDict [(''non_analysis_json'', PInt (int (sn_ignored sn)))])"
    using name by (simp_all add: r_def snapshot_result_def canonical_repository_def removeprefix_def startswith_def)
  have small: "int (length (sn_files sn)) \<le> max_selected_files" "0 \<le> total_bytes sn" "total_bytes sn \<le> max_total_bytes"
    "sn_ignored sn \<le> max_tree_entries"
    using sn by (auto simp: snapshot_ok_def small_files_def total_bytes_def max_selected_files_def intro!: sum_list_nonneg)
  have detail: "\<not> retry_limit_reached r" by (simp add: retry_limit_reached_def get)
  have "result_fields_ok r item (PStr (sn_commit sn))"
    unfolding result_fields_ok_def has_def keys using name get detail small counts
    by (simp add: is_int_def one_of_def base_keys_def count_keys_def int_within_def int_of_def max_selected_files_def
        max_total_bytes_def counts_ok_def count_ok_def)
  moreover have "result_parts_ok r"
    unfolding result_parts_ok_def sub_attrs_def has_def keys using get small summary states
    by (simp add: summary_ok_def states_of_def coverage_keys_def base_keys_def count_keys_def int_within_def)
  moreover have "result_shape_ok r (PStr (sn_commit sn))"
    unfolding result_shape_ok_def sub_attrs_def has_def keys using get detail summary
    by (simp add: summary_ok_def states_of_def coverage_keys_def base_keys_def count_keys_def)
  ultimately show ?thesis by (simp add: valid_result_def flip: r_def)
qed

section \<open>Triples on the saved progress\<close>

text \<open>The saved progress is good and satisfies \<open>F\<close>, and so far only good checkpoints were saved.\<close>

definition saves_good :: "string \<Rightarrow> attrs list \<Rightarrow> event list \<Rightarrow> bool" where
  "saves_good hash selected es \<longleftrightarrow> (\<forall>v ok. Save v ok \<in> set es \<longrightarrow> good_saved hash selected v)"

definition st_is :: "string \<Rightarrow> attrs list \<Rightarrow> (attrs \<Rightarrow> bool) \<Rightarrow> collect_state \<Rightarrow> bool" where
  "st_is hash selected F st \<longleftrightarrow> good_saved hash selected (co_saved st) \<and> saves_good hash selected (co_log st) \<and> F (co_saved st)"

text \<open>An action that does not change the saved progress and logs nothing but good saves.\<close>

definition steady :: "string \<Rightarrow> attrs list \<Rightarrow> 'a collect \<Rightarrow> bool" where
  "steady hash selected m \<longleftrightarrow> (\<forall>st. good_saved hash selected (co_saved st) \<longrightarrow> saves_good hash selected (co_log st) \<longrightarrow>
     co_saved (fst (m st)) = co_saved st \<and> saves_good hash selected (co_log (fst (m st))))"

lemma steady_triple:
  assumes "steady hash selected m"
  shows "triple (st_is hash selected F) m (\<lambda>_. st_is hash selected F) (\<lambda>_. st_is hash selected F)"
  unfolding triple_def
proof (intro allI impI)
  fix st assume "st_is hash selected F st"
  then show "case m st of (st', Inr x) \<Rightarrow> st_is hash selected F st' | (st', Inl e) \<Rightarrow> st_is hash selected F st'"
    using assms by (cases "m st"; cases "snd (m st)") (auto simp: steady_def st_is_def)
qed

lemma steady_bind: "steady hash selected m \<Longrightarrow> (\<And>x. steady hash selected (f x)) \<Longrightarrow> steady hash selected (bind_act m f)"
  unfolding steady_def bind_act_def by (auto split: prod.splits sum.splits)

lemma steady_basic [simp]:
  "steady hash selected (ask g)" "steady hash selected (fence en)" "steady hash selected (sink en c)" "steady hash selected (contact en key)"
  "steady hash selected (give x)" "steady hash selected (raise_gh e)" "steady hash selected (lift_gh m)" "steady hash selected (spend b r)"
  "steady hash selected next_repository"
  by (auto simp: steady_def ask_def fence_def sink_def contact_def give_def raise_gh_def lift_gh_def spend_def next_repository_def
      saves_good_def Let_def)

lemma steady_record [simp]:
  "steady hash selected (record_partial_repository en connection item detail revision branch)"
  "steady hash selected (record_failed_repository en connection item code)"
  by (simp_all add: record_partial_repository_def record_failed_repository_def Let_def steady_bind)

lemma steady_analyze [simp]: "steady hash selected (analyze_snapshot en connection sn)"
  by (simp add: analyze_snapshot_def fenced_sink_def steady_bind split_beta)

lemma triple_update:
  assumes "\<And>saved. good_saved hash selected saved \<Longrightarrow> F saved \<Longrightarrow>
      good_saved hash selected (set_progress key (f (progress_of saved key)) saved) \<and> G (set_progress key (f (progress_of saved key)) saved)"
  shows "triple (st_is hash selected F) (update_progress key f) (\<lambda>_. st_is hash selected G) E"
  using assms by (auto simp: triple_def update_progress_def st_is_def)

text \<open>A repository in progress: no result yet, a number of interruptions, every other repository as at the start.\<close>

definition others_same :: "attrs \<Rightarrow> string \<Rightarrow> attrs \<Rightarrow> bool" where
  "others_same start key saved \<longleftrightarrow> (\<forall>k. k \<noteq> key \<longrightarrow> progress_of saved k = progress_of start k)"

definition in_progress :: "attrs \<Rightarrow> string \<Rightarrow> int \<Rightarrow> attrs \<Rightarrow> bool" where
  "in_progress start key n saved \<longleftrightarrow> others_same start key saved \<and> \<not> has_result saved key \<and> interruptions (progress_of saved key) = n"

definition finished :: "attrs \<Rightarrow> string \<Rightarrow> attrs \<Rightarrow> bool" where
  "finished start key saved \<longleftrightarrow> others_same start key saved \<and> has_result saved key"

lemma others_set [simp]: "others_same start key (set_progress key p saved) = others_same start key saved"
  by (simp add: others_same_def)

text \<open>The repository with a key, as it was selected.\<close>

definition chosen :: "attrs list \<Rightarrow> string \<Rightarrow> attrs \<Rightarrow> bool" where
  "chosen selected key item \<longleftrightarrow> map_of (by_id selected) key = Some item \<and> item_ok item"

lemma good_update:
  assumes "chosen selected key item" "good_saved hash selected saved" "\<not> has_result saved key"
    and "\<And>p. valid_progress item (PDict p) \<Longrightarrow> p = progress_of saved key \<Longrightarrow> valid_progress item (PDict (f p))"
  shows "good_saved hash selected (set_progress key (f (progress_of saved key)) saved)"
proof -
  have known: "map_of (by_id selected) key = Some item" using assms(1) by (simp add: chosen_def)
  show ?thesis by (rule good_set_progress [OF assms(2) known _ assms(3)]) (simp add: assms(4) good_progress [OF assms(2) known])
qed

lemma pin_triple:
  assumes "chosen selected key item" "commit = ''empty'' \<or> is_sha commit \<and> branch \<noteq> PNone"
  shows "triple (st_is hash selected (in_progress start key n)) (pin en key commit branch)
    (\<lambda>_. st_is hash selected (\<lambda>saved. in_progress start key n saved \<and> attr_get (progress_of saved key) ''revision'' = PStr commit))
    (\<lambda>_. st_is hash selected (in_progress start key n))"
proof (cases "valid_branch branch")
  case True
  let ?f = "\<lambda>p. dict_set ''default_branch'' branch (dict_set ''revision'' (PStr commit) p)"
  let ?G = "\<lambda>saved. in_progress start key n saved \<and> attr_get (progress_of saved key) ''revision'' = PStr commit"
  have "triple (st_is hash selected (in_progress start key n)) (update_progress key ?f) (\<lambda>_. st_is hash selected ?G) (\<lambda>_. st_is hash selected (in_progress start key n))"
  proof (rule triple_update)
    fix saved assume saved: "good_saved hash selected saved" "in_progress start key n saved"
    then have "\<not> has (progress_of saved key) ''result''" by (simp add: in_progress_def has_result_def)
    then have "good_saved hash selected (set_progress key (?f (progress_of saved key)) saved)"
      using saved True assms(2) by (intro good_update [OF assms(1)]) (auto simp: in_progress_def intro: valid_pinned)
    then show "good_saved hash selected (set_progress key (?f (progress_of saved key)) saved) \<and>
        ?G (set_progress key (?f (progress_of saved key)) saved)"
      using saved(2) by (simp add: in_progress_def has_result_def interruptions_def)
  qed
  moreover have "triple (st_is hash selected ?G) (fence en) (\<lambda>_. st_is hash selected ?G) (\<lambda>_. st_is hash selected (in_progress start key n))"
    by (rule triple_post [OF steady_triple]) (auto simp: st_is_def)
  ultimately show ?thesis using True by (simp add: pin_def triple_bind)
next
  case False
  then show ?thesis by (simp add: pin_def triple_raise)
qed

lemma set_result_triple:
  assumes "chosen selected key item"
    and "\<And>saved. good_saved hash selected saved \<Longrightarrow> F saved \<Longrightarrow> in_progress start key n saved \<and>
      valid_result (PDict r) item (attr_get (progress_of saved key) ''revision'')"
  shows "triple (st_is hash selected F) (set_result key r) (\<lambda>_. st_is hash selected (finished start key)) E"
  unfolding set_result_def
proof (rule triple_update)
  fix saved assume "good_saved hash selected saved" "F saved"
  then show "good_saved hash selected (set_progress key (dict_set ''result'' (PDict r) (progress_of saved key)) saved) \<and>
      finished start key (set_progress key (dict_set ''result'' (PDict r) (progress_of saved key)) saved)"
    using assms(2) [of saved] by (auto simp: finished_def in_progress_def intro!: good_update [OF assms(1)] valid_with_result)
qed

end
