(* ===== verification/Github_Collect_Triples.thy ===== *)
theory Github_Collect_Triples
  imports Github_Collect_Facts
begin

text \<open>What one repository of a slice does to the saved progress: triples up to \<open>collect_one\<close> and the loop.\<close>

section \<open>The snapshot\<close>

lemma triple_fact:
  assumes "triple P m Q E" "\<And>st st' x. m st = (st', Inr x) \<Longrightarrow> R x"
  shows "triple P m (\<lambda>x st. Q x st \<and> R x) E"
  using assms by (fastforce simp: triple_def split: prod.splits sum.splits)

lemma bind_act_Inr [simp]: "bind_act m f st = (st', Inr y) \<longleftrightarrow> (\<exists>s x. m st = (s, Inr x) \<and> f x s = (st', Inr y))"
  by (auto simp: bind_act_def split: prod.splits sum.splits)

lemma bind_give: "bind_act (give x) f = f x"
  by (rule ext) (simp add: bind_act_def give_def)

lemma bind_actE:
  assumes "bind_act m f st = (st', Inr y)"
  obtains s x where "m st = (s, Inr x)" "f x s = (st', Inr y)"
  using assms by auto

lemma act_Inr [simp]:
  "give x st = (st', Inr y) \<longleftrightarrow> st' = st \<and> y = x" "raise_gh e st \<noteq> (st', Inr y)" "lift_gh g st = (st', Inr y) \<longleftrightarrow> st' = st \<and> g = Inr y"
  by (auto simp: give_def raise_gh_def lift_gh_def)

definition pinned_at :: "attrs \<Rightarrow> string \<Rightarrow> int \<Rightarrow> string \<Rightarrow> attrs \<Rightarrow> bool" where
  "pinned_at start key n commit saved \<longleftrightarrow>
     in_progress start key n saved \<and> attr_get (progress_of saved key) ''revision'' = PStr commit"

definition at_progress :: "attrs \<Rightarrow> string \<Rightarrow> int \<Rightarrow> attrs \<Rightarrow> attrs \<Rightarrow> bool" where
  "at_progress start key n p saved \<longleftrightarrow> in_progress start key n saved \<and> progress_of saved key = p"

lemma pinned_triple:
  assumes "chosen selected key item" "commit = ''empty'' \<or> is_sha commit \<and> branch \<noteq> PNone"
  shows "triple (st_is hash selected (at_progress start key n p)) (bind_act (pin en key commit branch) (\<lambda>_. give x))
    (\<lambda>y st. y = x \<and> st_is hash selected (pinned_at start key n commit) st) (\<lambda>_. st_is hash selected (in_progress start key n))"
proof (rule triple_bind)
  show "triple (st_is hash selected (at_progress start key n p)) (pin en key commit branch)
    (\<lambda>_. st_is hash selected (pinned_at start key n commit)) (\<lambda>_. st_is hash selected (in_progress start key n))"
    by (rule triple_pre [OF triple_post [OF pin_triple [OF assms, of hash start n en]]])
      (auto simp: st_is_def pinned_at_def at_progress_def)
qed (rule triple_give, simp)

lemma resolve_triple:
  assumes "chosen selected key item"
  shows "triple (st_is hash selected (at_progress start key n p))
    (resolve_revision (pin en key) ga metadata (attr_get p ''revision'') (attr_get p ''default_branch''))
    (\<lambda>x. st_is hash selected (pinned_at start key n (case snd x of None \<Rightarrow> ''empty'' | Some c \<Rightarrow> c)))
    (\<lambda>_. st_is hash selected (in_progress start key n))"
    (is "triple ?P (resolve_revision ?pin ga metadata ?pinned ?branch) ?Q ?E")
proof -
  let ?b = "attr_get metadata ''default_branch''"
  have weak: "?E e st" if "?P st" for e st using that by (simp add: st_is_def at_progress_def)
  have keep: "triple ?P (give (b, t)) ?Q ?E" if "?pinned = PStr (case t of None \<Rightarrow> ''empty'' | Some c \<Rightarrow> c)" for b t
    by (rule triple_give) (use that in \<open>auto simp: st_is_def at_progress_def pinned_at_def\<close>)
  have pinned: "triple ?P (bind_act (?pin c b) (\<lambda>_. give (b', t))) ?Q ?E"
    if "c = ''empty'' \<or> is_sha c \<and> b \<noteq> PNone" "(case t of None \<Rightarrow> ''empty'' | Some c \<Rightarrow> c) = c" for c b b' t
    by (rule triple_post [OF pinned_triple [OF assms that(1)]]) (use that(2) in auto)
  have sha: "g = Inr c \<Longrightarrow> g = commit_of v \<Longrightarrow> is_sha c" for g c v
    by (auto simp: commit_of_def split: pyval.splits if_splits)
  consider "?pinned = PStr ''empty''" | "?pinned = PNone" | "?pinned \<noteq> PStr ''empty''" "?pinned \<noteq> PNone" by blast
  then show ?thesis
  proof cases
    case 1
    then show ?thesis using keep [of None] by (simp add: resolve_revision_def)
  next
    case 2
    show ?thesis
    proof (cases "nonempty_text ?b")
      case False
      then show ?thesis using pinned [of "''empty''" PNone None PNone] 2 by (simp add: resolve_revision_def)
    next
      case True
      then have branch: "?b \<noteq> PNone" by (auto simp: nonempty_text_def)
      have read: "triple ?P (bind_act (lift_gh (bind_gh (ref_commit ref) commit_of)) (\<lambda>commit.
              bind_act (?pin commit ?b) (\<lambda>_. give (?b, Some commit)))) ?Q ?E" for ref
      proof (rule triple_bind [where R = "\<lambda>c st. ?P st \<and> is_sha c"])
        show "triple ?P (lift_gh (bind_gh (ref_commit ref) commit_of)) (\<lambda>c st. ?P st \<and> is_sha c) ?E"
          by (rule triple_lift) (auto simp: weak dest: sha)
        show "triple (\<lambda>st. ?P st \<and> is_sha c) (bind_act (?pin c ?b) (\<lambda>_. give (?b, Some c))) ?Q ?E" for c
        proof (cases "is_sha c")
          case True
          then show ?thesis using pinned [of c ?b "Some c" ?b] branch by (intro triple_pre [OF pinned]) auto
        qed (simp add: triple_def)
      qed
      show ?thesis
      proof (cases "ga_ref ga")
        case (Inl e)
        then show ?thesis using True 2 pinned [of "''empty''" ?b None ?b]
          by (auto simp: resolve_revision_def Let_def weak intro!: triple_raise)
      next
        case (Inr ref)
        then show ?thesis using True 2 read [of ref] by (simp add: resolve_revision_def Let_def)
      qed
    qed
  next
    case 3
    have "triple ?P (bind_act (lift_gh (commit_of ?pinned)) (\<lambda>commit. give (?branch, Some commit))) ?Q ?E"
    proof (rule triple_bind [where R = "\<lambda>c st. ?P st \<and> ?pinned = PStr c"])
      show "triple ?P (lift_gh (commit_of ?pinned)) (\<lambda>c st. ?P st \<and> ?pinned = PStr c) ?E"
        by (rule triple_lift) (auto simp: weak commit_of_def split: pyval.splits if_splits)
      show "triple (\<lambda>st. ?P st \<and> ?pinned = PStr c) (give (?branch, Some c)) ?Q ?E" for c
        by (rule triple_give) (auto simp: st_is_def at_progress_def pinned_at_def)
    qed
    then show ?thesis using 3 by (simp add: resolve_revision_def)
  qed
qed

text \<open>The snapshot is of the selected repository, at the revision that is pinned when it is returned.\<close>

lemma snapshot_triple:
  assumes "chosen selected key item"
  shows "triple (st_is hash selected (at_progress start key n p))
    (take_snapshot rd (pin en key) ga item (attr_get p ''revision'') (attr_get p ''default_branch''))
    (\<lambda>sn st. snapshot_ok item sn \<and> st_is hash selected (pinned_at start key n (sn_commit sn)) st)
    (\<lambda>_. st_is hash selected (in_progress start key n))"
    (is "triple ?P _ ?Q ?E")
proof -
  obtain i name where item: "attr_get item ''id'' = PInt i" "attr_get item ''full_name'' = PStr name"
    using assms by (auto simp: chosen_def item_ok_def)
  have weak: "?E e st" if "?P st" for e st using that by (simp add: st_is_def at_progress_def)
  have weak': "?E e st" if "st_is hash selected (pinned_at start key n c) st" for e st c
    using that by (simp add: st_is_def pinned_at_def)
  have files: "triple (st_is hash selected (pinned_at start key n c)) (bind_act (lift_gh (read_files rd ga c)) (\<lambda>(files, warnings, ignored). give
      \<lparr>sn_repository_id = PInt i, sn_repository_name = canonical_repository name, sn_default_branch = branch,
       sn_commit = c, sn_remote = remote, sn_locator = locator, sn_files = files,
       sn_warnings = warnings, sn_detail = None, sn_ignored = ignored\<rparr>)) ?Q ?E" for c branch remote locator
  proof (rule triple_bind [where R = "\<lambda>(files, warnings, ignored) st. small_files files ignored \<and> st_is hash selected (pinned_at start key n c) st"])
    show "triple (st_is hash selected (pinned_at start key n c)) (lift_gh (read_files rd ga c))
      (\<lambda>(files, warnings, ignored) st. small_files files ignored \<and> st_is hash selected (pinned_at start key n c) st) ?E"
      by (rule triple_lift) (auto simp: weak' dest: read_files_small)
  qed (auto simp: snapshot_ok_def item intro!: triple_give split: prod.split)
  have empty: "snapshot_ok item (empty_snapshot str_of (PInt i) name b)" for str_of b
    by (simp add: snapshot_ok_def empty_snapshot_def item small_files_def max_total_bytes_def)
  have target: "triple (st_is hash selected (pinned_at start key n (case t of None \<Rightarrow> ''empty'' | Some c \<Rightarrow> c)))
     (case t of None \<Rightarrow> give (empty_snapshot (rd_str_of rd) (PInt i) name b)
        | Some commit \<Rightarrow> bind_act (lift_gh (read_files rd ga commit)) (\<lambda>(files, warnings, ignored). give
                  \<lparr>sn_repository_id = PInt i, sn_repository_name = canonical_repository name, sn_default_branch = b,
                   sn_commit = commit, sn_remote = ''https://github.com/'' @ name @ ''.git'',
                   sn_locator = ''github://repositories/'' @ py_str (rd_str_of rd) (PInt i) @ ''/commits/'' @ commit, sn_files = files,
                   sn_warnings = warnings, sn_detail = None, sn_ignored = ignored\<rparr>)) ?Q ?E" for t b
  proof (cases t)
    case None
    have "sn_commit (empty_snapshot (rd_str_of rd) (PInt i) name b) = ''empty''" by (simp add: empty_snapshot_def)
    then show ?thesis using None empty by (auto intro!: triple_give)
  next
    case (Some c)
    show ?thesis unfolding Some option.case by (rule files)
  qed
  have id: "int_like (PInt i) = Some i" by (simp add: int_like_def)
  show ?thesis
    unfolding take_snapshot_def Let_def item id option.case pyval.case prod.case
  proof (intro triple_bind)
    show "triple ?P (lift_gh (ga_token ga)) (\<lambda>_. ?P) ?E" "triple ?P (lift_gh (ga_metadata ga)) (\<lambda>_. ?P) ?E"
      by (rule triple_lift; simp add: weak)+
    show "triple ?P (if \<not> same_repository (rd_str_of rd) metadata item name then raise_gh (Source_Error ''repository_identity_mismatch'')
        else bind_act (resolve_revision (pin en key) ga metadata (attr_get p ''revision'') (attr_get p ''default_branch'')) (\<lambda>(branch, target).
              case target of
                None \<Rightarrow> give (empty_snapshot (rd_str_of rd) (PInt i) name branch)
              | Some commit \<Rightarrow> bind_act (lift_gh (read_files rd ga commit)) (\<lambda>(files, warnings, ignored). give
                  \<lparr>sn_repository_id = PInt i, sn_repository_name = canonical_repository name, sn_default_branch = branch,
                   sn_commit = commit, sn_remote = ''https://github.com/'' @ name @ ''.git'',
                   sn_locator = ''github://repositories/'' @ py_str (rd_str_of rd) (PInt i) @ ''/commits/'' @ commit, sn_files = files,
                   sn_warnings = warnings, sn_detail = None, sn_ignored = ignored\<rparr>))) ?Q ?E" for metadata
    proof (rule triple_if)
      show "triple ?P (raise_gh (Source_Error ''repository_identity_mismatch'')) ?Q ?E" by (rule triple_raise) (rule weak)
    qed (rule triple_bind [OF resolve_triple [OF assms]], simp only: split_beta, rule target)
  qed
qed

lemma attempt_triple:
  assumes "chosen selected key item"
  shows "triple (st_is hash selected (at_progress start key n p)) (attempt_snapshot en connection item key p ga)
    (\<lambda>sn st. snapshot_ok item sn \<and> st_is hash selected (pinned_at start key n (sn_commit sn)) st)
    (\<lambda>_. st_is hash selected (in_progress start key n))"
  unfolding attempt_snapshot_def
  by (rule triple_bind, rule triple_lift, assumption, simp add: st_is_def at_progress_def,
      rule triple_if, rule triple_raise, simp add: st_is_def at_progress_def, rule snapshot_triple [OF assms])

section \<open>The rest of the body\<close>

text \<open>The environment: the sink and the summaries of the connectors.\<close>

definition env_ok :: "env \<Rightarrow> bool" where
  "env_ok en \<longleftrightarrow> (\<forall>n c. en_sink en n = Inr c \<longrightarrow> counts_ok c) \<and>
     (\<forall>sn b d. an_correlation (en_analysis en sn) = Inr b \<longrightarrow> correlation_summary b = Inr d \<longrightarrow> summary_ok d)"

lemma sink_Inr [simp]: "sink en c st = (st', Inr x) \<Longrightarrow> \<exists>n. en_sink en n = Inr x"
  by (auto simp: sink_def)

lemma degraded_correlation:
  assumes "degraded sn an = Inr (i, p, c)"
  shows "\<exists>b. an_correlation an = Inr b \<and> correlation_summary c = correlation_summary b"
proof -
  have "partial_inventory d b = Inr c \<Longrightarrow> correlation_summary c = correlation_summary b" for d b
    by (auto simp: partial_inventory_def of_res_def new_InventoryBatch_def guard_simps correlation_summary_def split: sum.splits)
  then show ?thesis using assms by (auto simp: degraded_def Let_def split: if_splits)
qed

lemma analyzed_valid:
  assumes "analyze_snapshot en connection sn st = (st', Inr r)" "env_ok en" "item_ok item" "snapshot_ok item sn"
  shows "valid_result (PDict r) item (PStr (sn_commit sn))"
proof -
  obtain t d s1 s2 s3 s4 ss ii ps cs and source :: inventory_batch
    where r: "r = snapshot_result sn s1 s2 s3 s4 d [(''source'', ss), (''inventory'', ii), (''posture'', ps), (''correlation'', cs)]"
      and deg: "degraded sn (en_analysis en sn) = Inr t" and d: "correlation_summary (snd (snd t)) = Inr d"
      and states: "first_state source = Inr ss" "first_state (fst t) = Inr ii" "first_state (fst (snd t)) = Inr ps"
        "first_state (snd (snd t)) = Inr cs"
      and sinks: "\<exists>n. en_sink en n = Inr s1" "\<exists>n. en_sink en n = Inr s2" "\<exists>n. en_sink en n = Inr s3" "\<exists>n. en_sink en n = Inr s4"
    using assms(1) unfolding analyze_snapshot_def fenced_sink_def split_beta
    apply (elim bind_actE)
    apply (unfold act_Inr)
    apply (elim conjE)
    apply (rule that)
    apply assumption+
    apply (erule sink_Inr)+
    done
  obtain i p c where t: "t = (i, p, c)" by (cases t)
  have "one_of coverage_states ss" "one_of coverage_states ii" "one_of coverage_states ps" "one_of coverage_states cs"
    using states by (auto simp: first_state_def coverage_value_state split: list.splits)
  moreover have "summary_ok d" using degraded_correlation [OF deg [unfolded t]] d t assms(2) by (auto simp: env_ok_def)
  ultimately show ?thesis unfolding r states_of_def [symmetric] using assms(2-4) sinks by (intro snapshot_valid) (auto simp: env_ok_def)
qed

lemma finish_triple:
  assumes "chosen selected key item"
    and "\<And>saved. good_saved hash selected saved \<Longrightarrow> F saved \<Longrightarrow> in_progress start key n saved \<and>
      valid_result (PDict r) item (attr_get (progress_of saved key) ''revision'')"
  shows "triple (st_is hash selected F) (bind_act (set_result key r) (\<lambda>_. bind_act (fence en) (\<lambda>_. next_repository)))
    (\<lambda>x st. x = Next \<and> st_is hash selected (finished start key) st) (\<lambda>_. st_is hash selected (others_same start key))"
proof -
  have weak: "st_is hash selected (others_same start key) st" if "st_is hash selected (finished start key) st" for st
    using that by (simp add: st_is_def finished_def)
  have "triple (st_is hash selected (finished start key)) next_repository
      (\<lambda>x st. x = Next \<and> st_is hash selected (finished start key) st) (\<lambda>_. st_is hash selected (others_same start key))"
    by (auto simp: triple_def next_repository_def st_is_def)
  moreover have "triple (st_is hash selected (finished start key)) (fence en)
      (\<lambda>_. st_is hash selected (finished start key)) (\<lambda>_. st_is hash selected (others_same start key))"
    by (rule triple_post [OF steady_triple]) (auto simp: weak)
  ultimately show ?thesis by (intro triple_bind [OF set_result_triple [OF assms]] triple_bind) auto
qed

lemma steady_weak:
  assumes "steady hash selected m" "\<And>saved. F saved \<Longrightarrow> G saved"
  shows "triple (st_is hash selected F) m (\<lambda>_. st_is hash selected F) (\<lambda>_. st_is hash selected G)"
  by (rule triple_post [OF steady_triple [OF assms(1)]]) (auto simp: st_is_def assms(2))

definition ended :: "string \<Rightarrow> attrs list \<Rightarrow> attrs \<Rightarrow> string \<Rightarrow> int \<Rightarrow> slice_step \<Rightarrow> collect_state \<Rightarrow> bool" where
  "ended hash selected start key n x = (case x of
     Next \<Rightarrow> st_is hash selected (finished start key)
   | Pause d \<Rightarrow> st_is hash selected (in_progress start key (if d = 0 then n + 1 else n)))"

lemma progress_others: "in_progress start key n saved \<Longrightarrow> others_same start key saved"
  by (simp add: in_progress_def)

lemma pinned_progress: "pinned_at start key n c saved \<Longrightarrow> in_progress start key n saved"
  by (simp add: pinned_at_def)

text \<open>A partial result is valid at whatever revision is pinned.\<close>

lemma revision_shape:
  assumes "good_saved hash selected saved" "chosen selected key item"
  shows "attr_get (progress_of saved key) ''revision'' = PNone \<or>
    (\<exists>c. attr_get (progress_of saved key) ''revision'' = PStr c \<and> c \<noteq> [])"
proof (cases "has (progress_of saved key) ''revision''")
  case True
  then have "valid_pin (progress_of saved key)"
    using good_progress [OF assms(1)] assms(2) by (simp add: chosen_def valid_progress_iff)
  then show ?thesis using True
    by (cases "attr_get (progress_of saved key) ''revision''") (auto simp: valid_pin_def is_sha_def)
qed simp

lemma record_partial_Inr:
  "record_partial_repository en connection item detail revision branch st = (st', Inr r) \<Longrightarrow>
     r = partial_result (rd_str_of (en_reading en)) item detail revision"
  by (auto simp: record_partial_repository_def Let_def)

lemma retry_limit_triple:
  assumes "chosen selected key item" "st_is hash selected (in_progress start key n) st" "revision = attr_get (progress_of (co_saved st) key) ''revision''"
    and "steady hash selected m"
  shows "triple (\<lambda>s. s = st) (bind_act (record_partial_repository en connection item retry_limit_code revision branch)
      (\<lambda>r. bind_act m (\<lambda>_. bind_act (set_result key r) (\<lambda>_. bind_act (fence en) (\<lambda>_. next_repository)))))
    (\<lambda>x st. x = Next \<and> st_is hash selected (finished start key) st) (\<lambda>_. st_is hash selected (others_same start key))"
proof -
  let ?F = "\<lambda>saved. in_progress start key n saved \<and> attr_get (progress_of saved key) ''revision'' = revision"
  let ?r = "partial_result (rd_str_of (en_reading en)) item retry_limit_code revision"
  have item: "item_ok item" using assms(1) by (simp add: chosen_def)
  have valid: "in_progress start key n saved \<and> valid_result (PDict ?r) item (attr_get (progress_of saved key) ''revision'')"
    if "good_saved hash selected saved" "?F saved" for saved
    using partial_valid [OF item revision_shape [OF that(1) assms(1)]] that(2) by auto
  have "triple (st_is hash selected ?F) (record_partial_repository en connection item retry_limit_code revision branch)
      (\<lambda>r st. st_is hash selected ?F st \<and> r = ?r) (\<lambda>_. st_is hash selected (others_same start key))"
    by (rule triple_fact [OF steady_weak record_partial_Inr]) (auto simp: progress_others)
  moreover have "triple (\<lambda>st. st_is hash selected ?F st \<and> r = ?r)
      (bind_act m (\<lambda>_. bind_act (set_result key r) (\<lambda>_. bind_act (fence en) (\<lambda>_. next_repository))))
      (\<lambda>x st. x = Next \<and> st_is hash selected (finished start key) st) (\<lambda>_. st_is hash selected (others_same start key))" for r
  proof (cases "r = ?r")
    case True
    have "triple (st_is hash selected ?F) m (\<lambda>_. st_is hash selected ?F) (\<lambda>_. st_is hash selected (others_same start key))"
      by (rule steady_weak [OF assms(4)]) (auto simp: progress_others)
    from triple_bind [OF this finish_triple [OF assms(1) valid, where en = en]] show ?thesis using True by (auto elim: triple_pre)
  qed (simp add: triple_def)
  ultimately have "triple (st_is hash selected ?F) (bind_act (record_partial_repository en connection item retry_limit_code revision branch)
      (\<lambda>r. bind_act m (\<lambda>_. bind_act (set_result key r) (\<lambda>_. bind_act (fence en) (\<lambda>_. next_repository)))))
    (\<lambda>x st. x = Next \<and> st_is hash selected (finished start key) st) (\<lambda>_. st_is hash selected (others_same start key))"
    by (rule triple_bind)
  then show ?thesis by (rule triple_pre) (use assms(2,3) in \<open>auto simp: st_is_def\<close>)
qed

text \<open>
  No answer claims that the retry limit was reached: the collector alone says so, and none of the checks of a
  snapshot raises that code.
\<close>

definition usable :: "'a gh \<Rightarrow> bool" where
  "usable m \<longleftrightarrow> m \<noteq> Inl (Source_Error retry_limit_code) \<and> m \<noteq> Inl (Other_Error retry_limit_code)"

named_theorems usables "checks that never raise the retry limit code"

lemma usable_basic [simp]: "usable (Inr x)" "usable (Inl (Budget_Reached c))" "usable (Inl Claim_Lost)" "usable (Inl unexpected)"
  "usable (Inl (Source_Error c)) \<longleftrightarrow> c \<noteq> retry_limit_code" "usable (Inl (Other_Error c)) \<longleftrightarrow> c \<noteq> retry_limit_code"
  by (auto simp: usable_def unexpected_def retry_limit_code_def)

lemma usable_bind [usables]: "usable m \<Longrightarrow> (\<And>x. m = Inr x \<Longrightarrow> usable (f x)) \<Longrightarrow> usable (bind_gh m f)"
  by (cases m) (auto simp: usable_def)

lemma usable_tree_kind: "usable (tree_kind path d pg)"
  by (auto simp: tree_kind_def Let_def retry_limit_code_def split: pyval.split)

lemma usable_tree_child: "usable (tree_child prefix recursive v pg)"
  by (auto simp: tree_child_def Let_def retry_limit_code_def usable_tree_kind split: pyval.split)

lemma usable_page: "usable (validated_tree_page vs prefix recursive seen)"
proof -
  have "usable (tree_children prefix recursive vs pg)" for pg
    by (induction vs arbitrary: pg) (auto intro!: usables usable_tree_child)
  then show ?thesis by (simp add: validated_tree_page_def)
qed

lemma usable_answer: "usable (walk_answer n prefix sha recursive d w)"
  by (auto simp: walk_answer_def Let_def retry_limit_code_def split: pyval.split intro!: usables usable_page)

lemma usable_walk: "(\<And>n sha r. usable (fetch n sha r)) \<Longrightarrow> usable (walk_loop fetch left w)"
proof (induction fetch left w rule: walk_loop.induct)
  case (2 fetch left w)
  then show ?case
    by (cases "wa_pending w") (auto intro!: usables usable_answer)
qed (simp add: retry_limit_code_def)

definition answers_ok :: "github_answers \<Rightarrow> bool" where
  "answers_ok ga \<longleftrightarrow> usable (ga_installation ga) \<and> usable (ga_token ga) \<and> usable (ga_metadata ga) \<and> usable (ga_ref ga) \<and>
     usable (ga_tree ga) \<and> (\<forall>n sha r. usable (ga_walk ga n sha r)) \<and> (\<forall>e. usable (ga_blob ga e))"

lemma usable_entries: "answers_ok ga \<Longrightarrow> usable (tree_entries ga commit)"
  by (auto simp: tree_entries_def answers_ok_def walk_tree_def retry_limit_code_def
      split: pyval.split intro!: usables usable_page usable_walk)

lemma usable_candidates: "usable (candidates es)"
proof (induction es)
  case (Cons e es)
  have "usable (candidate e)" by (auto simp: candidate_def retry_limit_code_def split: pyval.split option.split)
  then show ?case using Cons by (auto intro!: usables)
qed simp

lemma usable_blob: "usable (blob_content b64 str_of e d)"
  by (auto simp: blob_content_def Let_def retry_limit_code_def split: prod.split option.split)

lemma raised_member: "raised rs = Some e \<Longrightarrow> Inl e \<in> set rs"
  unfolding raised_def
  by (induction rs) (auto simp: map_filter_simps split: list.splits option.splits sum.splits gh_error.splits if_splits)

lemma usable_files:
  assumes "\<And>e. usable (fetch e)"
  shows "usable (files_loop parse fetch ext n es st)"
proof (induction "length es" arbitrary: es n st rule: less_induct)
  case (less es n st)
  obtain batch rest st1 where b: "take_batch es 0 0 st = (batch, rest, st1)" by (cases "take_batch es 0 0 st")
  have stop: "usable (Inl y :: files_state gh)" if "external_stop stops x = Some y" for stops x y
    using that by (auto simp: external_stop_def Let_def split: prod.splits if_splits)
  have raise: "usable (Inl e :: files_state gh)" if "raised (map fetch batch) = Some e" for e
    using raised_member [OF that] assms by (auto simp: usable_def) metis+
  have again: "usable (files_loop parse fetch ext (n + 1) rest x)" if "es \<noteq> []" for x
    using less take_batch_progress [OF that, of st] b by simp
  show ?case
    by (subst files_loop.simps)
      (use again raise stop in \<open>auto simp: b Let_def simp del: usable_basic(5,6) split: option.split\<close>)
qed

lemma usable_read: "answers_ok ga \<Longrightarrow> usable (read_files rd ga commit)"
  unfolding read_files_def resumable_files_def
  by (auto intro!: usables usable_entries usable_candidates usable_files usable_blob simp: answers_ok_def split: prod.split)

lemma ended_simps [simp]:
  "ended hash selected start key n Next = st_is hash selected (finished start key)"
  "ended hash selected start key n (Pause d) = st_is hash selected (in_progress start key (if d = 0 then n + 1 else n))"
  by (simp_all add: ended_def)

lemma next_ended: "triple P m (\<lambda>x st. x = Next \<and> st_is hash selected (finished start key) st) E \<Longrightarrow> triple P m (ended hash selected start key n) E"
  by (erule triple_post) auto

lemma pause_triple:
  "triple (st_is hash selected (in_progress start key (if d = 0 then n + 1 else n))) (bind_act (spend b r) (\<lambda>_. give (Pause d)))
    (ended hash selected start key n) (\<lambda>_. st_is hash selected (others_same start key))"
  by (rule triple_bind [OF steady_weak [OF steady_basic(8)]]) (auto simp: progress_others intro: triple_give)

lemma interrupted_triple:
  assumes "chosen selected key item" "n < max_repository_interruption_count"
  shows "triple (st_is hash selected (in_progress start key n)) (interrupted en connection item key b)
    (ended hash selected start key n) (\<lambda>_. st_is hash selected (others_same start key))"
  unfolding interrupted_def
proof (rule triple_bind)
  let ?f = "\<lambda>p. dict_set ''interruption_count'' (PInt (interruptions p + 1)) p"
  show "triple (st_is hash selected (in_progress start key n)) (update_progress key ?f)
      (\<lambda>_. st_is hash selected (in_progress start key (n + 1))) (\<lambda>_. st_is hash selected (others_same start key))"
  proof (rule triple_update)
    fix saved assume saved: "good_saved hash selected saved" "in_progress start key n saved"
    have "interruptions (dict_set ''interruption_count'' (PInt i) p) = i" for p i by (simp add: interruptions_def)
    moreover have "good_saved hash selected (set_progress key (?f (progress_of saved key)) saved)"
      using saved assms(2) by (intro good_update [OF assms(1)]) (auto simp: in_progress_def has_result_def intro: valid_interrupted)
    ultimately show "good_saved hash selected (set_progress key (?f (progress_of saved key)) saved) \<and>
        in_progress start key (n + 1) (set_progress key (?f (progress_of saved key)) saved)"
      using saved(2) by (simp add: in_progress_def has_result_def)
  qed
  show "triple (st_is hash selected (in_progress start key (n + 1))) (bind_act (fence en) (\<lambda>_ st.
       let p = progress_of (co_saved st) key in
       if interruptions p < max_repository_interruption_count then bind_act (spend b True) (\<lambda>_. give (Pause 0)) st
       else bind_act (record_partial_repository en connection item retry_limit_code (attr_get p ''revision'') (attr_get p ''default_branch''))
         (\<lambda>r. bind_act (spend b True) (\<lambda>_. bind_act (set_result key r) (\<lambda>_. bind_act (fence en) (\<lambda>_. next_repository)))) st))
    (ended hash selected start key n) (\<lambda>_. st_is hash selected (others_same start key))" for x
  proof (rule triple_bind [OF steady_weak [OF steady_basic(2)]], simp add: progress_others, rule triple_at)
    fix st assume st: "st_is hash selected (in_progress start key (n + 1)) st"
    let ?p = "progress_of (co_saved st) key"
    have "triple (\<lambda>s. s = st) (bind_act (spend b True) (\<lambda>_. give (Pause 0))) (ended hash selected start key n)
        (\<lambda>_. st_is hash selected (others_same start key))"
      by (rule triple_pre [OF pause_triple]) (use st in simp)
    moreover have "triple (\<lambda>s. s = st) (bind_act (record_partial_repository en connection item retry_limit_code
          (attr_get ?p ''revision'') (attr_get ?p ''default_branch'')) (\<lambda>r. bind_act (spend b True) (\<lambda>_. bind_act (set_result key r)
          (\<lambda>_. bind_act (fence en) (\<lambda>_. next_repository))))) (ended hash selected start key n)
        (\<lambda>_. st_is hash selected (others_same start key))"
      by (rule next_ended, rule retry_limit_triple [OF assms(1) st refl]) simp
    ultimately show "triple (\<lambda>s. s = st) (\<lambda>st.
       let p = progress_of (co_saved st) key in
       if interruptions p < max_repository_interruption_count then bind_act (spend b True) (\<lambda>_. give (Pause 0)) st
       else bind_act (record_partial_repository en connection item retry_limit_code (attr_get p ''revision'') (attr_get p ''default_branch''))
         (\<lambda>r. bind_act (spend b True) (\<lambda>_. bind_act (set_result key r) (\<lambda>_. bind_act (fence en) (\<lambda>_. next_repository)))) st)
     (ended hash selected start key n) (\<lambda>_. st_is hash selected (others_same start key))"
      by (cases "interruptions ?p < max_repository_interruption_count") (erule triple_same, simp add: Let_def)+
  qed
qed

lemma finish_repository_triple:
  assumes "chosen selected key item"
    and "\<And>saved. good_saved hash selected saved \<Longrightarrow> F saved \<Longrightarrow> in_progress start key n saved \<and>
      valid_result (PDict r) item (attr_get (progress_of saved key) ''revision'')"
  shows "triple (st_is hash selected F) (finish_repository en key b r) (ended hash selected start key n)
    (\<lambda>_. st_is hash selected (others_same start key))"
  unfolding finish_repository_def
proof (rule next_ended, rule triple_bind)
  show "triple (st_is hash selected F) (spend b (bg_reached b)) (\<lambda>_. st_is hash selected F) (\<lambda>_. st_is hash selected (others_same start key))"
    by (auto simp: triple_def spend_def st_is_def)
qed (rule finish_triple [OF assms])

lemma record_failed_Inr:
  "record_failed_repository en connection item code st = (st', Inr r) \<Longrightarrow> r = failed_result item code"
  by (auto simp: record_failed_repository_def Let_def)

lemma handle_error_triple:
  assumes "chosen selected key item" "n < max_repository_interruption_count" "usable (Inl e :: unit gh)"
  shows "triple (st_is hash selected (in_progress start key n)) (handle_error en connection item key b e)
    (ended hash selected start key n) (\<lambda>_. st_is hash selected (others_same start key))"
proof -
  let ?P = "st_is hash selected (in_progress start key n)" and ?E = "\<lambda>_ :: gh_error. st_is hash selected (others_same start key)"
  have item: "item_ok item" using assms(1) by (simp add: chosen_def)
  have weak: "?E e' st" if "?P st" for e' st using that by (simp add: st_is_def in_progress_def)
  have terminal: "triple ?P (bind_act (fence en) (\<lambda>_. bind_act (record_failed_repository en connection item (error_code e))
            (finish_repository en key b))) (ended hash selected start key n) ?E"
    if "error_code e \<in> set terminal_source_errors" "error_code e \<noteq> retry_limit_code"
  proof (rule triple_bind [OF steady_weak [OF steady_basic(2)]], simp add: progress_others, rule triple_bind)
    show "triple ?P (record_failed_repository en connection item (error_code e)) (\<lambda>r st. ?P st \<and> r = failed_result item (error_code e)) ?E"
      by (rule triple_fact [OF steady_weak record_failed_Inr]) (auto simp: progress_others)
    show "triple (\<lambda>st. ?P st \<and> r = failed_result item (error_code e)) (finish_repository en key b r) (ended hash selected start key n) ?E" for r
    proof (cases "r = failed_result item (error_code e)")
      case True
      then show ?thesis using failed_valid [OF item that]
        by (intro triple_pre [OF finish_repository_triple [OF assms(1)]]) auto
    qed (simp add: triple_def)
  qed
  have pause: "triple ?P (bind_act (spend b True) (\<lambda>_. give (Pause d))) (ended hash selected start key n) ?E" if "d \<noteq> 0" for d
    using pause_triple [of hash selected start key d n b True] that by simp
  have raised: "triple ?P (raise_gh x) (ended hash selected start key n) ?E" for x by (rule triple_raise) (rule weak)
  show ?thesis
  proof (cases e)
    case (Budget_Reached code)
    have "(case bg_retry_after b of Some d \<Rightarrow> if d = 0 then max_resume_delay else d | None \<Rightarrow> max_resume_delay) \<noteq> 0"
      by (auto simp: max_resume_delay_def split: option.split)
    then show ?thesis using Budget_Reached pause interrupted_triple [OF assms(1,2)] by (simp add: handle_error_def)
  next
    case (Source_Error code)
    then show ?thesis using terminal raised assms(3) by (simp add: handle_error_def usable_def error_code_def)
  next
    case (Other_Error code)
    then show ?thesis using terminal raised assms(3) by (simp add: handle_error_def usable_def error_code_def)
  qed (use raised in \<open>simp add: handle_error_def\<close>)
qed

section \<open>One repository, and the slice\<close>

definition world_ok :: "env \<Rightarrow> bool" where
  "world_ok en \<longleftrightarrow> env_ok en \<and> (\<forall>n. answers_ok (en_answers en n))"

lemma ref_usable: "usable (bind_gh (ref_commit ref) commit_of)"
  by (auto simp: ref_commit_def commit_of_def retry_limit_code_def split: option.split pyval.split intro!: usables)

lemma pin_usable: "pin en key c b st = (st', Inl e) \<Longrightarrow> usable (Inl e :: unit gh)"
  by (auto simp: pin_def bind_act_def raise_gh_def update_progress_def fence_def Let_def retry_limit_code_def split: if_splits)

definition careful :: "('s, 'a) act \<Rightarrow> bool" where
  "careful m \<longleftrightarrow> (\<forall>st st' e. m st = (st', Inl e) \<longrightarrow> usable (Inl e :: unit gh))"

lemma careful_bind: "careful m \<Longrightarrow> (\<And>x. careful (f x)) \<Longrightarrow> careful (bind_act m f)"
  by (fastforce simp: careful_def bind_act_def split: prod.splits sum.splits)

lemma careful_lift: "usable m \<Longrightarrow> careful (lift_gh m)"
  by (auto simp: careful_def lift_gh_def usable_def)

lemma careful_basic [simp]: "careful (give x)" "careful (pin en key c b)" "careful (raise_gh e) \<longleftrightarrow> usable (Inl e :: unit gh)"
  by (auto simp: careful_def give_def raise_gh_def dest: pin_usable)

lemma careful_resolve: "answers_ok ga \<Longrightarrow> careful (resolve_revision (pin en key) ga metadata pinned branch)"
proof -
  assume ok: "answers_ok ga"
  have "usable (Inl e :: unit gh)" if "ga_ref ga = Inl e" for e
    using ok that by (auto simp: answers_ok_def usable_def)
  moreover have "usable (commit_of v)" for v by (auto simp: commit_of_def retry_limit_code_def split: pyval.split)
  ultimately show ?thesis
    by (auto simp: resolve_revision_def Let_def split: sum.split intro!: careful_bind careful_lift ref_usable)
qed

lemma careful_attempt: "answers_ok ga \<Longrightarrow> careful (attempt_snapshot en connection item key p ga)"
proof -
  assume ok: "answers_ok ga"
  then have "usable (ga_installation ga)" "usable (ga_token ga)" "usable (ga_metadata ga)" by (simp_all add: answers_ok_def)
  then show ?thesis using careful_resolve [OF ok] usable_read [OF ok]
    by (auto simp: attempt_snapshot_def take_snapshot_def Let_def retry_limit_code_def
        split: option.split pyval.split prod.split intro!: careful_bind careful_lift)
qed

lemma analyze_triple:
  assumes "chosen selected key item" "env_ok en" "snapshot_ok item sn"
  shows "triple (st_is hash selected (pinned_at start key n (sn_commit sn)))
    (bind_act (analyze_snapshot en connection sn) (finish_repository en key b)) (ended hash selected start key n)
    (\<lambda>_. st_is hash selected (others_same start key))"
proof (rule triple_bind)
  have item: "item_ok item" using assms(1) by (simp add: chosen_def)
  show "triple (st_is hash selected (pinned_at start key n (sn_commit sn))) (analyze_snapshot en connection sn)
    (\<lambda>r st. st_is hash selected (pinned_at start key n (sn_commit sn)) st \<and> valid_result (PDict r) item (PStr (sn_commit sn)))
    (\<lambda>_. st_is hash selected (others_same start key))"
    by (rule triple_fact [OF steady_weak analyzed_valid [OF _ assms(2) item assms(3)]]) (auto simp: pinned_at_def in_progress_def)
  show "triple (\<lambda>st. st_is hash selected (pinned_at start key n (sn_commit sn)) st \<and> valid_result (PDict r) item (PStr (sn_commit sn)))
    (finish_repository en key b r) (ended hash selected start key n) (\<lambda>_. st_is hash selected (others_same start key))" for r
  proof (cases "valid_result (PDict r) item (PStr (sn_commit sn))")
    case True
    then show ?thesis
      by (intro triple_pre [OF finish_repository_triple [OF assms(1), where F = "pinned_at start key n (sn_commit sn)" and n = n]])
        (auto simp: pinned_at_def)
  qed (simp add: triple_def)
qed

lemma collect_one_triple:
  assumes "chosen selected key item" "world_ok en"
  shows "triple (st_is hash selected (in_progress start key n)) (collect_one en connection connection_id item key)
    (ended hash selected start key n) (\<lambda>_. st_is hash selected (others_same start key))"
  unfolding collect_one_def
proof (rule triple_bind [OF steady_weak [OF steady_basic(2)]], simp add: progress_others, rule triple_at)
  fix st assume st: "st_is hash selected (in_progress start key n) st"
  let ?p = "progress_of (co_saved st) key" and ?E = "\<lambda>_ :: gh_error. st_is hash selected (others_same start key)"
  have n: "interruptions ?p = n" using st by (simp add: st_is_def in_progress_def)
  have limit: "triple (\<lambda>s. s = st) (bind_act (record_partial_repository en connection_id item retry_limit_code
        (attr_get ?p ''revision'') (attr_get ?p ''default_branch'')) (\<lambda>r. bind_act (set_result key r) (\<lambda>_. bind_act (fence en) (\<lambda>_. next_repository))))
      (ended hash selected start key n) ?E"
    using next_ended [OF retry_limit_triple [OF assms(1) st refl, where m = "give ()"], where n = n]
    by (simp add: bind_give)
  have attempt: "triple (\<lambda>s. s = st) (bind_act (contact en key) (\<lambda>(ga, b) st1.
         case attempt_snapshot en connection item key ?p ga st1 of
           (st2, Inl e) \<Rightarrow> handle_error en connection_id item key b e st2
         | (st2, Inr sn) \<Rightarrow> bind_act (fence en) (\<lambda>_. bind_act (analyze_snapshot en connection_id sn) (finish_repository en key b)) st2))
      (ended hash selected start key n) ?E" if n3: "n < max_repository_interruption_count"
  proof (rule triple_bind [where R = "\<lambda>x s. st_is hash selected (at_progress start key n ?p) s \<and> answers_ok (fst x)"])
    show "triple (\<lambda>s. s = st) (contact en key) (\<lambda>x s. st_is hash selected (at_progress start key n ?p) s \<and> answers_ok (fst x)) ?E"
      using st assms(2) by (auto simp: triple_def contact_def st_is_def at_progress_def saves_good_def world_ok_def)
    show "triple (\<lambda>s. st_is hash selected (at_progress start key n ?p) s \<and> answers_ok (fst x)) (case x of (ga, b) \<Rightarrow> \<lambda>st1.
         case attempt_snapshot en connection item key ?p ga st1 of
           (st2, Inl e) \<Rightarrow> handle_error en connection_id item key b e st2
         | (st2, Inr sn) \<Rightarrow> bind_act (fence en) (\<lambda>_. bind_act (analyze_snapshot en connection_id sn) (finish_repository en key b)) st2)
      (ended hash selected start key n) ?E" for x
    proof (cases x, simp, rule triple_at, elim conjE)
      fix ga b st1
      assume st1: "st_is hash selected (at_progress start key n ?p) st1" and ok: "answers_ok ga"
      obtain st2 r where a: "attempt_snapshot en connection item key ?p ga st1 = (st2, r)" by fastforce
      note spec = tripleD [OF attempt_triple [OF assms(1)] st1]
      show "triple (\<lambda>s. s = st1) (\<lambda>st1.
         case attempt_snapshot en connection item key ?p ga st1 of
           (st2, Inl e) \<Rightarrow> handle_error en connection_id item key b e st2
         | (st2, Inr sn) \<Rightarrow> bind_act (fence en) (\<lambda>_. bind_act (analyze_snapshot en connection_id sn) (finish_repository en key b)) st2)
        (ended hash selected start key n) ?E"
      proof (cases r)
        case (Inl e)
        have "usable (Inl e :: unit gh)" using careful_attempt [OF ok] a Inl unfolding careful_def by blast
        from handle_error_triple [OF assms(1) n3 this] show ?thesis
          using spec(2) [OF a [unfolded Inl]] by (simp add: triple_def a Inl)
      next
        case (Inr sn)
        note sn = spec(1) [OF a [unfolded Inr]]
        have "env_ok en" using assms(2) by (simp add: world_ok_def)
        from triple_bind [OF steady_weak [OF steady_basic(2)] analyze_triple [OF assms(1) this conjunct1 [OF sn]]]
        have "triple (st_is hash selected (pinned_at start key n (sn_commit sn)))
            (bind_act (fence en) (\<lambda>_. bind_act (analyze_snapshot en connection_id sn) (finish_repository en key b)))
            (ended hash selected start key n) ?E" by (auto simp: pinned_at_def in_progress_def)
        then show ?thesis using sn by (simp add: triple_def a Inr)
      qed
    qed
  qed
  show "triple (\<lambda>s. s = st) (\<lambda>st0.
       let progress = progress_of (co_saved st0) key in
       if max_repository_interruption_count \<le> interruptions progress then
         bind_act (record_partial_repository en connection_id item retry_limit_code
             (attr_get progress ''revision'') (attr_get progress ''default_branch''))
           (\<lambda>r. bind_act (set_result key r) (\<lambda>_. bind_act (fence en) (\<lambda>_. next_repository))) st0
       else bind_act (contact en key) (\<lambda>(ga, b) st1.
         case attempt_snapshot en connection item key progress ga st1 of
           (st2, Inl e) \<Rightarrow> handle_error en connection_id item key b e st2
         | (st2, Inr sn) \<Rightarrow> bind_act (fence en) (\<lambda>_. bind_act (analyze_snapshot en connection_id sn) (finish_repository en key b)) st2) st0)
     (ended hash selected start key n) ?E"
  proof (cases "max_repository_interruption_count \<le> n")
    case True
    then show ?thesis by (intro triple_same [OF limit]) (simp add: Let_def n)
  next
    case False
    then show ?thesis by (intro triple_same [OF attempt]) (simp_all add: Let_def n)
  qed
qed

end
