(* ===== verification/Github_Collect_Props.thy ===== *)
theory Github_Collect_Props
  imports Github_Collect_Triples
begin

text \<open>
  Resumable collection: what a slice saves is accepted by the next slice, slices make progress, and the sink is
  written only under a fence that was just accepted.
\<close>

section \<open>The loop\<close>

definition left_of :: "attrs \<Rightarrow> string \<Rightarrow> nat" where
  "left_of saved key = (if has_result saved key then 0 else nat (4 - interruptions (progress_of saved key)))"

definition work :: "attrs \<Rightarrow> attrs list \<Rightarrow> nat" where
  "work saved selected = (\<Sum>item\<leftarrow>selected. left_of saved (repository_key item))"

definition advance :: "attrs \<Rightarrow> attrs \<Rightarrow> bool" where
  "advance s s' \<longleftrightarrow> (\<forall>k. has_result s k \<longrightarrow> progress_of s' k = progress_of s k) \<and> (\<forall>k. left_of s' k \<le> left_of s k)"

lemma advance_refl [simp]: "advance s s"
  by (simp add: advance_def)

lemma advance_trans:
  assumes "advance s s'" "advance s' s''"
  shows "advance s s''"
  unfolding advance_def
proof (intro conjI allI impI)
  fix k
  assume "has_result s k"
  then have "progress_of s' k = progress_of s k" using assms(1) by (simp add: advance_def)
  moreover from this have "has_result s' k" using \<open>has_result s k\<close> by (simp add: has_result_def)
  ultimately show "progress_of s'' k = progress_of s k" using assms(2) by (simp add: advance_def)
next
  fix k
  have "left_of s'' k \<le> left_of s' k" "left_of s' k \<le> left_of s k" using assms by (simp_all add: advance_def)
  then show "left_of s'' k \<le> left_of s k" by (rule le_trans)
qed

lemma advance_result: "advance s s' \<Longrightarrow> has_result s k \<Longrightarrow> has_result s' k"
  by (simp add: advance_def has_result_def)

lemma others_advance:
  assumes "others_same s key s'" "\<not> has_result s key" "left_of s' key \<le> left_of s key"
  shows "advance s s'"
  unfolding advance_def
proof (intro conjI allI impI)
  fix k
  have same: "progress_of s' k = progress_of s k" if "k \<noteq> key" using assms(1) that by (simp add: others_same_def)
  then show "progress_of s' k = progress_of s k" if "has_result s k" using assms(2) that by (cases "k = key") auto
  show "left_of s' k \<le> left_of s k"
    using assms(3) same by (cases "k = key") (simp_all add: left_of_def has_result_def)
qed

definition safe_state :: "string \<Rightarrow> attrs list \<Rightarrow> collect_state \<Rightarrow> bool" where
  "safe_state hash selected st \<longleftrightarrow> good_saved hash selected (co_saved st) \<and> saves_good hash selected (co_log st)"

lemma one_step:
  assumes "chosen selected key item" "world_ok en" "safe_state hash selected st" "\<not> has_result (co_saved st) key"
    and "collect_one en connection connection_id item key st = (st', r)"
  shows "safe_state hash selected st' \<and> (\<forall>x. r = Inr x \<longrightarrow> advance (co_saved st) (co_saved st')) \<and>
    (r = Inr Next \<longrightarrow> has_result (co_saved st') key) \<and>
    (r = Inr Next \<or> r = Inr (Pause 0) \<longrightarrow> left_of (co_saved st') key < left_of (co_saved st) key)"
proof -
  let ?s = "co_saved st" let ?n = "interruptions (progress_of ?s key)"
  have pre: "st_is hash selected (in_progress ?s key ?n) st"
    using assms(3,4) by (simp add: st_is_def safe_state_def in_progress_def others_same_def)
  have n: "?n \<le> 3"
    using good_progress [of hash selected ?s key item] interruptions_bound assms(1,3)
    by (fastforce simp: safe_state_def chosen_def max_repository_interruption_count_def)
  note spec = tripleD [OF collect_one_triple [OF assms(1,2)] pre]
  show ?thesis
  proof (cases r)
    case (Inl e)
    then show ?thesis using spec(2) [OF assms(5) [unfolded Inl]] by (simp add: st_is_def safe_state_def)
  next
    case (Inr x)
    note e = spec(1) [OF assms(5) [unfolded Inr]]
    show ?thesis
    proof (cases x)
      case Next
      then have "safe_state hash selected st'" "others_same ?s key (co_saved st')" "has_result (co_saved st') key"
        using e by (simp_all add: st_is_def safe_state_def finished_def)
      then show ?thesis using Inr Next n assms(4) others_advance [of ?s key "co_saved st'"] by (simp add: left_of_def)
    next
      case (Pause d)
      let ?m = "if d = 0 then ?n + 1 else ?n"
      have "safe_state hash selected st'" "others_same ?s key (co_saved st')" "\<not> has_result (co_saved st') key"
        "interruptions (progress_of (co_saved st') key) = ?m"
        using e Pause by (simp_all add: st_is_def safe_state_def in_progress_def)
      then show ?thesis using Inr Pause n assms(4) others_advance [of ?s key "co_saved st'"]
        by (cases "d = 0") (simp_all add: left_of_def)
    qed
  qed
qed

lemma loop_steps:
  assumes "world_ok en" "selected_ok selected" "set items \<subseteq> set selected"
    and "safe_state hash selected st" "collect_loop en deadline connection connection_id items st = (st', r)"
  shows "safe_state hash selected st' \<and> (\<forall>x. r = Inr x \<longrightarrow> advance (co_saved st) (co_saved st')) \<and>
    (r = Inr Next \<longrightarrow> (\<forall>item\<in>set items. has_result (co_saved st') (repository_key item))) \<and>
    (r = Inr (Pause 0) \<and> co_processed st < max_repositories_per_slice \<and> (\<forall>n. en_clock en n < deadline) \<longrightarrow>
      (\<exists>item\<in>set items. left_of (co_saved st') (repository_key item) < left_of (co_saved st) (repository_key item)))"
  using assms(3-5)
proof (induction items arbitrary: st)
  case (Cons item items)
  let ?key = "repository_key item"
  have item: "chosen selected ?key item"
    using assms(2) Cons.prems(1) by_id_lookup [OF assms(2)] by (auto simp: chosen_def selected_ok_def list_all_iff)
  have sub: "set items \<subseteq> set selected" using Cons.prems(1) by simp
  let ?st1 = "st\<lparr>co_steps := co_steps st + 1\<rparr>"
  consider (skip) "has_result (co_saved st) ?key" | (full) "\<not> has_result (co_saved st) ?key" "max_repositories_per_slice \<le> co_processed st"
    | (late) "\<not> has_result (co_saved st) ?key" "\<not> max_repositories_per_slice \<le> co_processed st" "deadline \<le> en_clock en (co_steps st)"
    | (run) "\<not> has_result (co_saved st) ?key" "\<not> max_repositories_per_slice \<le> co_processed st" "\<not> deadline \<le> en_clock en (co_steps st)"
    by blast
  then show ?case
  proof cases
    case skip
    then have "collect_loop en deadline connection connection_id items st = (st', r)" using Cons.prems(3) by (simp add: Let_def)
    from Cons.IH [OF sub Cons.prems(2) this] skip show ?thesis using advance_result by auto
  next
    case run
    obtain st2 x where one: "collect_one en connection connection_id item ?key ?st1 = (st2, x)" by fastforce
    have safe: "safe_state hash selected ?st1" "\<not> has_result (co_saved ?st1) ?key"
      using Cons.prems(2) run(1) by (simp_all add: safe_state_def)
    note step = one_step [OF item assms(1) safe one]
    show ?thesis
    proof (cases "x = Inr Next")
      case True
      then have rest: "collect_loop en deadline connection connection_id items st2 = (st', r)"
        using Cons.prems(3) run one by (simp add: Let_def ask_def)
      have safe2: "safe_state hash selected st2" and adv: "advance (co_saved st) (co_saved st2)"
        and over: "has_result (co_saved st2) ?key" "left_of (co_saved st2) ?key < left_of (co_saved st) ?key"
        using step True by simp_all
      note IH = Cons.IH [OF sub safe2 rest]
      show ?thesis
      proof (cases r)
        case (Inr y)
        then have later: "advance (co_saved st2) (co_saved st')" using IH by simp
        then have "left_of (co_saved st') ?key \<le> left_of (co_saved st2) ?key" by (simp add: advance_def)
        from le_less_trans [OF this over(2)] have "left_of (co_saved st') ?key < left_of (co_saved st) ?key" .
        then show ?thesis using IH later Inr advance_trans [OF adv later] advance_result [OF later over(1)] by simp
      qed (use IH in simp)
    next
      case False
      then have "(st', r) = (st2, x)"
        using Cons.prems(3) run one by (auto simp: Let_def ask_def split: sum.splits slice_step.splits)
      then show ?thesis using step False by auto
    qed
  next
    case full
    then have "st' = st \<and> r = Inr (Pause 0)" using Cons.prems(3) by (simp add: Let_def)
    then show ?thesis using full Cons.prems(2) by simp
  next
    case late
    then have "st' = ?st1 \<and> r = Inr (Pause 0)" using Cons.prems(3) by (simp add: Let_def ask_def)
    then show ?thesis using late Cons.prems(2) by (auto simp: safe_state_def not_less [symmetric])
  qed
qed auto

section \<open>The slice\<close>

lemma boundary_selected:
  assumes "boundary_hash fl str_of tenant connection = Inr hash" "selected_repositories connection = Some selected"
  shows "selected_ok selected"
proof -
  obtain configuration vs where c: "attr_get connection ''configuration'' = PDict configuration"
    "attr_get configuration ''repositories'' = PList vs" "dict_items vs = Some selected"
    using assms(2) by (auto simp: selected_repositories_def split: pyval.splits)
  let ?ids = "map (repository_identity str_of (attr_get configuration ''account_id'')) selected"
  have ids: "None \<notin> set ?ids" "distinct (map (\<lambda>n. attr_get (the n) ''id'') ?ids)"
    using assms(1) c by (auto simp: boundary_hash_def Let_def split: pyval.splits option.splits if_splits)
  have one: "item_ok item \<and> attr_get n ''id'' = attr_get item ''id''"
    if "repository_identity str_of a item = Some n" for item a n
    using that by (auto simp: repository_identity_def item_ok_def repository_boundary_def Let_def
        split: pyval.splits option.splits if_splits prod.splits)
  have same: "item_ok item \<and> attr_get (the (repository_identity str_of (attr_get configuration ''account_id'') item)) ''id'' = attr_get item ''id''"
    if "item \<in> set selected" for item
    using one ids(1) that by (cases "repository_identity str_of (attr_get configuration ''account_id'') item") (force, auto)
  have "map (\<lambda>n. attr_get (the n) ''id'') ?ids = map (\<lambda>item. attr_get item ''id'') selected"
    using same by simp
  then have "distinct (map (\<lambda>item. attr_get item ''id'') selected)" using ids(2) by metis
  then show ?thesis using same by (simp add: selected_ok_def list_all_iff)
qed

lemma validated_good:
  assumes "validated_checkpoint checkpoint hash selected = Inr saved"
  shows "good_saved hash selected saved"
proof (cases "checkpoint = []")
  case True
  then have "saved = [(''boundary_hash'', PStr hash), (''repository_count'', PInt (int (length selected))), (''repositories'', PDict [])]"
    using assms by (simp add: validated_checkpoint_def)
  then show ?thesis
    by (simp add: good_saved_iff boundary_changed_def has_def retained_ids_def valid_retained_def saved_repositories_def)
next
  case False
  let ?n = "PInt (int (length selected))"
  obtain retained reps where ok: "\<not> boundary_changed checkpoint hash selected" "retained_ids checkpoint = Some retained"
    "attr_get checkpoint ''repositories'' = PDict reps" "valid_retained selected retained"
    "list_all (\<lambda>(key, v). case map_of (by_id selected) key of Some item \<Rightarrow> valid_progress item v | None \<Rightarrow> False) reps"
    "list_all (\<lambda>v. saved_state reps (str_int (int_of v)) = PStr ''complete'') retained"
    "saved = dict_set ''repository_count'' ?n checkpoint"
    using assms False by (auto simp: validated_checkpoint_def split: option.splits pyval.splits if_splits)
  have ok_fun: "progress_ok selected = (\<lambda>(key, v). case map_of (by_id selected) key of Some item \<Rightarrow> valid_progress item v | None \<Rightarrow> False)"
    by (rule ext) (simp add: progress_ok_def split_beta)
  have "\<not> boundary_changed saved hash selected" using ok(1,7) by (auto simp: boundary_changed_def has_def)
  moreover have "retained_ids saved = Some retained"
    using ok(2,7) by (auto simp: retained_ids_def has_def split: if_splits)
  moreover have "saved_repositories saved = reps" using ok(3,7) by (simp add: saved_repositories_def)
  ultimately show ?thesis using ok ok_fun by (simp add: good_saved_iff)
qed

lemma sum_list_less:
  assumes "\<And>x. x \<in> set xs \<Longrightarrow> f x \<le> (g x :: nat)" "\<exists>x\<in>set xs. f x < g x"
  shows "(\<Sum>x\<leftarrow>xs. f x) < (\<Sum>x\<leftarrow>xs. g x)"
  using assms
proof (induction xs)
  case (Cons x xs)
  have "(\<Sum>x\<leftarrow>xs. f x) \<le> (\<Sum>x\<leftarrow>xs. g x)" using Cons.prems(1) by (intro sum_list_mono) simp
  then show ?case using Cons by (cases "f x < g x") (auto intro: add_less_le_mono add_le_less_mono)
qed simp

lemma slice_steps:
  assumes "world_ok en" "selected_ok selected" "safe_state hash selected st" "co_processed st = 0"
    and "run_slice en li connection connection_id selected st = (st', r)"
  shows "safe_state hash selected st' \<and> (\<forall>x. r = Inr x \<longrightarrow> advance (co_saved st) (co_saved st')) \<and>
    (r = Inr Next \<longrightarrow> (\<forall>item\<in>set selected. has_result (co_saved st') (repository_key item))) \<and>
    (r = Inr (Pause 0) \<and> (\<forall>n. en_clock en n < en_clock en (co_steps st + 1) + li_deadline li) \<longrightarrow>
      work (co_saved st') selected < work (co_saved st) selected)"
proof -
  let ?d = "en_clock en (co_steps st + 1) + li_deadline li"
  let ?log = "co_log st @ [Save (co_saved st) (en_accepts en (co_steps st))]"
  define st1 where "st1 = st\<lparr>co_log := ?log, co_steps := co_steps st + 2\<rparr>"
  have log: "saves_good hash selected ?log" using assms(3) by (auto simp: safe_state_def saves_good_def)
  then have st1: "safe_state hash selected st1" "co_saved st1 = co_saved st" "co_processed st1 = 0"
    using assms(3,4) by (simp_all add: st1_def safe_state_def)
  have strict: "work s' selected < work s selected"
    if "advance s s'" "\<exists>item\<in>set selected. left_of s' (repository_key item) < left_of s (repository_key item)" for s s'
    unfolding work_def by (rule sum_list_less) (use that in \<open>auto simp: advance_def\<close>)
  consider "safe_state hash selected st'" "\<exists>e. r = Inl e" | "collect_loop en ?d connection connection_id selected st1 = (st', r)"
    using assms(3,5) log unfolding run_slice_def st1_def
    by (cases "en_accepts en (co_steps st)"; cases "en_targets en")
      (auto simp: bind_act_def fence_def ask_def lift_gh_def Let_def safe_state_def)
  then show ?thesis
  proof cases
    case 2
    from loop_steps [OF assms(1,2) subset_refl st1(1) 2] st1 strict show ?thesis
      by (auto simp: max_repositories_per_slice_def)
  qed auto
qed

section \<open>The whole call\<close>

lemma resumable_cases:
  assumes "world_ok en" "collect_resumable fl en li tenant connection checkpoint = (st, r)" "r = Inr result \<or> co_log st \<noteq> []"
  obtains hash selected saved step where "boundary_hash fl (rd_str_of (en_reading en)) tenant connection = Inr hash"
    "selected_repositories connection = Some selected" "validated_checkpoint checkpoint hash selected = Inr saved"
    "saves_good hash selected (co_log st)"
    "r = Inr result \<Longrightarrow> good_saved hash selected (co_saved st) \<and> advance saved (co_saved st) \<and>
       attr_get result ''resume_pending'' = PBool (step \<noteq> Next) \<and>
       attr_get result ''retry_after_seconds'' = PInt (case step of Next \<Rightarrow> 0 | Pause d \<Rightarrow> d) \<and>
       (step = Next \<longrightarrow> (\<forall>item\<in>set selected. has_result (co_saved st) (repository_key item))) \<and>
       (step = Pause 0 \<and> (\<forall>n. en_clock en n < en_clock en 1 + li_deadline li) \<longrightarrow> work (co_saved st) selected < work saved selected)"
proof -
  let ?str = "rd_str_of (en_reading en)"
  obtain hash selected saved where ok: "boundary_hash fl ?str tenant connection = Inr hash"
    "selected_repositories connection = Some selected" "validated_checkpoint checkpoint hash selected = Inr saved"
    using assms(2,3) by (auto simp: collect_resumable_def Let_def start_state_def split: sum.splits option.splits)
  have start: "safe_state hash selected (start_state saved)" "co_processed (start_state saved) = 0" "co_saved (start_state saved) = saved"
    "co_steps (start_state saved) = 0"
    using validated_good [OF ok(3)] by (simp_all add: safe_state_def start_state_def saves_good_def)
  define cid where "cid = text_of ?str connection ''id''"
  obtain st1 s where run: "run_slice en li connection cid selected (start_state saved) = (st1, s)" by fastforce
  have "selected_ok selected" using boundary_selected [OF ok(1,2)] .
  note steps = slice_steps [OF assms(1) this start(1,2) run, unfolded start(3,4)]
  obtain retained where res: "(st, r) = (case s of Inl e \<Rightarrow> (st1, Inl e) | Inr step \<Rightarrow>
      (st1\<lparr>co_steps := co_steps st1 + 1\<rparr>, Inr (slice_result li ?str connection selected retained (en_now en (co_steps st1))
        (st1\<lparr>co_steps := co_steps st1 + 1\<rparr>) step)))"
    using assms(2) run ok by (cases s) (auto simp: collect_resumable_def Let_def bind_act_def ask_def cid_def)
  have same: "co_log st = co_log st1" "co_saved st = co_saved st1" using res by (cases s; simp)+
  have get: "attr_get (slice_result li ?str connection selected retained now s' step) ''resume_pending'' = PBool (step \<noteq> Next)"
    "attr_get (slice_result li ?str connection selected retained now s' step) ''retry_after_seconds'' = PInt (case step of Next \<Rightarrow> 0 | Pause d \<Rightarrow> d)"
    for now s' step by (simp_all add: slice_result_def Let_def)
  show thesis
  proof (rule that [OF ok, of "case s of Inr x \<Rightarrow> x | Inl e \<Rightarrow> Next"])
    show "saves_good hash selected (co_log st)" using steps same by (simp add: safe_state_def)
    assume "r = Inr result"
    then obtain step where s: "s = Inr step" using res by (cases s) auto
    then have "attr_get result ''resume_pending'' = PBool (step \<noteq> Next)"
      "attr_get result ''retry_after_seconds'' = PInt (case step of Next \<Rightarrow> 0 | Pause d \<Rightarrow> d)"
      using res \<open>r = Inr result\<close> get by auto
    then show "good_saved hash selected (co_saved st) \<and> advance saved (co_saved st) \<and>
       attr_get result ''resume_pending'' = PBool ((case s of Inr x \<Rightarrow> x | Inl e \<Rightarrow> Next) \<noteq> Next) \<and>
       attr_get result ''retry_after_seconds'' = PInt (case case s of Inr x \<Rightarrow> x | Inl e \<Rightarrow> Next of Next \<Rightarrow> 0 | Pause d \<Rightarrow> d) \<and>
       ((case s of Inr x \<Rightarrow> x | Inl e \<Rightarrow> Next) = Next \<longrightarrow> (\<forall>item\<in>set selected. has_result (co_saved st) (repository_key item))) \<and>
       ((case s of Inr x \<Rightarrow> x | Inl e \<Rightarrow> Next) = Pause 0 \<and> (\<forall>n. en_clock en n < en_clock en 1 + li_deadline li) \<longrightarrow>
         work (co_saved st) selected < work saved selected)"
      using steps s same by (auto simp: safe_state_def)
  qed
qed

section \<open>A sample slice\<close>

text \<open>A connection with one repository, whose first attempt spends the request budget.\<close>

definition sample_item :: attrs where
  "sample_item = [(''id'', PInt 5), (''node_id'', PStr ''R_5''), (''full_name'', PStr ''acme/app''), (''owner_id'', PInt 7),
     (''owner_login'', PStr ''acme'')]"

definition sample_connection :: attrs where
  "sample_connection = [(''id'', PStr ''c1''), (''provider'', PStr ''github''), (''lifecycle_state'', PStr ''active''),
     (''credential_reference'', PDict [(''installation_id'', PInt 3)]),
     (''configuration'', PDict [(''account_id'', PInt 7), (''repositories'', PList [PDict sample_item])]),
     (''declared_scopes'', PList [PStr ''github.repository_contents''])]"

definition spent_answers :: github_answers where
  "spent_answers = \<lparr>ga_installation = Inl (Budget_Reached ''github_request_budget_reached''), ga_token = Inr (), ga_metadata = Inr [],
     ga_ref = Inr [], ga_tree = Inr [], ga_walk = (\<lambda>n s r. Inr []), ga_blob = (\<lambda>e. Inr []), ga_external = (\<lambda>n k. (None, False))\<rparr>"

definition sample_env :: env where
  "sample_env = \<lparr>en_accepts = (\<lambda>n. True), en_clock = (\<lambda>n. 0), en_now = (\<lambda>n. Aware 0 0),
     en_sink = (\<lambda>n. Inr \<lparr>ct_assets = 1, ct_relationships = 0, ct_findings = 0\<rparr>), en_targets = Inr (),
     en_answers = (\<lambda>n. spent_answers), en_budget = (\<lambda>n. new_budget 4000 500 2100),
     en_analysis = (\<lambda>sn. \<lparr>an_inventory = Inl unexpected, an_posture = Inl unexpected, an_correlation = Inl unexpected\<rparr>),
     en_reading = \<lparr>rd_str_of = (\<lambda>v. ''5''), rd_base64 = Some, rd_json = (\<lambda>s. None)\<rparr>\<rparr>"

definition sample_limits :: limits where "sample_limits = \<lparr>li_requests = 4000, li_deadline = 2100\<rparr>"

lemma sample_world: "world_ok sample_env"
  by (auto simp: world_ok_def env_ok_def answers_ok_def sample_env_def spent_answers_def counts_ok_def count_ok_def)

definition sample_saved :: "string \<Rightarrow> attrs \<Rightarrow> attrs" where
  "sample_saved hash reps = [(''boundary_hash'', PStr hash), (''repository_count'', PInt 1), (''repositories'', PDict reps)]"

lemma sample_slice_run:
  "run_slice sample_env sample_limits sample_connection ''c1'' [sample_item] (start_state (sample_saved hash [])) =
     (\<lparr>co_saved = sample_saved hash [(''5'', PDict [(''interruption_count'', PInt 1)])],
       co_log = [Save (sample_saved hash []) True, Save (sample_saved hash []) True, Contact ''5'',
         Save (sample_saved hash [(''5'', PDict [(''interruption_count'', PInt 1)])]) True],
       co_steps = 6, co_processed = 0, co_requests = 0, co_reached = True\<rparr>, Inr (Pause 0))"
  by code_simp

definition sample_state :: "string \<Rightarrow> collect_state" where
  "sample_state hash = \<lparr>co_saved = sample_saved hash [(''5'', PDict [(''interruption_count'', PInt 1)])],
       co_log = [Save (sample_saved hash []) True, Save (sample_saved hash []) True, Contact ''5'',
         Save (sample_saved hash [(''5'', PDict [(''interruption_count'', PInt 1)])]) True],
       co_steps = 7, co_processed = 0, co_requests = 0, co_reached = True\<rparr>"

lemma sample_slice:
  "\<exists>hash result. collect_resumable (\<lambda>f. []) sample_env sample_limits ''t'' sample_connection [] = (sample_state hash, Inr result) \<and>
     attr_get result ''resume_pending'' = PBool True \<and> attr_get result ''retry_after_seconds'' = PInt 0"
proof -
  have selected: "selected_repositories sample_connection = Some [sample_item]" by code_simp
  have identity: "repository_identity (\<lambda>v. ''5'') (PInt 7) sample_item =
      Some [(''id'', PInt 5), (''node_id'', PStr ''R_5''), (''full_name'', PStr ''acme/app''), (''owner_id'', PInt 7), (''owner_login'', PStr ''acme'')]"
    by code_simp
  obtain hash where hash: "boundary_hash (\<lambda>f. []) (\<lambda>v. ''5'') ''t'' sample_connection = Inr hash"
    using identity by (simp add: boundary_hash_def sample_connection_def saved_int_def valid_scopes_def github_scopes_def dict_items_def Let_def)
  have saved: "validated_checkpoint [] hash [sample_item] = Inr (sample_saved hash [])"
    by (simp add: validated_checkpoint_def sample_saved_def)
  have str: "rd_str_of (en_reading sample_env) = (\<lambda>v. ''5'')" by (simp add: sample_env_def)
  have id: "text_of (\<lambda>v. ''5'') sample_connection ''id'' = ''c1''" by code_simp
  have "\<exists>result. collect_resumable (\<lambda>f. []) sample_env sample_limits ''t'' sample_connection [] = (sample_state hash, Inr result) \<and>
     attr_get result ''resume_pending'' = PBool True \<and> attr_get result ''retry_after_seconds'' = PInt 0"
    by (simp add: collect_resumable_def Let_def str hash selected saved id bind_act_def sample_slice_run ask_def sample_state_def slice_result_def)
  then show ?thesis by blast
qed

section \<open>Properties\<close>

text \<open>
  C16. Every checkpoint a slice saves, at whatever point it is interrupted or fails, is accepted unchanged by the
  validation that opens the next slice of the same connection: its pins, interruption counts and results have
  the shape the validation asks for. The connectors answer as \<open>world_ok\<close> says, with counts of evidence in their
  bounds and complete correlation summaries.
\<close>

theorem saved_checkpoints_valid:
  assumes "world_ok en" "collect_resumable fl en li tenant connection checkpoint = (st, r)" "Save v ok \<in> set (co_log st)"
  shows "\<exists>hash selected. boundary_hash fl (rd_str_of (en_reading en)) tenant connection = Inr hash \<and>
    selected_repositories connection = Some selected \<and> validated_checkpoint v hash selected = Inr v"
proof -
  have "co_log st \<noteq> []" using assms(3) by auto
  then obtain hash selected where "boundary_hash fl (rd_str_of (en_reading en)) tenant connection = Inr hash"
    "selected_repositories connection = Some selected" "saves_good hash selected (co_log st)"
    using resumable_cases [OF assms(1,2), of undefined] by metis
  then show ?thesis using assms(3) unfolding saves_good_def good_saved_def by blast
qed

theorem saved_checkpoints_valid_witness:
  "\<exists>st r v hash selected. collect_resumable (\<lambda>f. []) sample_env sample_limits ''t'' sample_connection [] = (st, r) \<and>
     Save v True \<in> set (co_log st) \<and> validated_checkpoint v hash selected = Inr v"
proof -
  obtain hash result where run: "collect_resumable (\<lambda>f. []) sample_env sample_limits ''t'' sample_connection [] = (sample_state hash, Inr result)"
    using sample_slice by blast
  have "Save (sample_saved hash []) True \<in> set (co_log (sample_state hash))" by (simp add: sample_state_def)
  from run this saved_checkpoints_valid [OF sample_world run this] show ?thesis by blast
qed

text \<open>
  C25. A slice that returns keeps every finished repository as it was saved, reports completion only when every
  selected repository has a result, and when it asks to be resumed at once although the deadline has not
  passed it has finished a repository or counted an interruption; as each repository is interrupted at most
  three times, at most four such slices per selected repository can follow each other.
\<close>

theorem slice_progress:
  assumes "world_ok en" "collect_resumable fl en li tenant connection checkpoint = (st, Inr result)"
  shows "\<exists>hash selected saved. boundary_hash fl (rd_str_of (en_reading en)) tenant connection = Inr hash \<and>
    selected_repositories connection = Some selected \<and> validated_checkpoint checkpoint hash selected = Inr saved \<and>
    validated_checkpoint (co_saved st) hash selected = Inr (co_saved st) \<and>
    (\<forall>key. has_result saved key \<longrightarrow> progress_of (co_saved st) key = progress_of saved key) \<and>
    (attr_get result ''resume_pending'' = PBool False \<longrightarrow> (\<forall>item\<in>set selected. has_result (co_saved st) (repository_key item))) \<and>
    (attr_get result ''resume_pending'' = PBool True \<and> attr_get result ''retry_after_seconds'' = PInt 0 \<and>
      (\<forall>n. en_clock en n < en_clock en 1 + li_deadline li) \<longrightarrow> work (co_saved st) selected < work saved selected) \<and>
    work saved selected \<le> 4 * length selected"
proof -
  obtain hash selected saved step where ok: "boundary_hash fl (rd_str_of (en_reading en)) tenant connection = Inr hash"
    "selected_repositories connection = Some selected" "validated_checkpoint checkpoint hash selected = Inr saved"
    and all: "good_saved hash selected (co_saved st) \<and> advance saved (co_saved st) \<and>
       attr_get result ''resume_pending'' = PBool (step \<noteq> Next) \<and>
       attr_get result ''retry_after_seconds'' = PInt (case step of Next \<Rightarrow> 0 | Pause d \<Rightarrow> d) \<and>
       (step = Next \<longrightarrow> (\<forall>item\<in>set selected. has_result (co_saved st) (repository_key item))) \<and>
       (step = Pause 0 \<and> (\<forall>n. en_clock en n < en_clock en 1 + li_deadline li) \<longrightarrow> work (co_saved st) selected < work saved selected)"
    apply (rule resumable_cases [OF assms, of result])
     apply simp
    subgoal premises p for hash selected saved step
      by (rule p(1) [OF p(2-4) p(6) [OF refl]])
    done
  note r = all [THEN conjunct1] all [THEN conjunct2, THEN conjunct1] all [THEN conjunct2, THEN conjunct2, THEN conjunct1]
    all [THEN conjunct2, THEN conjunct2, THEN conjunct2, THEN conjunct1] all [THEN conjunct2, THEN conjunct2, THEN conjunct2, THEN conjunct2]
  have low: "0 \<le> interruptions (progress_of saved (repository_key item))" if "item \<in> set selected" for item
    using good_progress [OF validated_good [OF ok(3)] by_id_lookup [OF boundary_selected [OF ok(1,2)] that]] interruptions_bound by blast
  have "left_of saved (repository_key item) \<le> 4" if "item \<in> set selected" for item
    using low [OF that] by (simp add: left_of_def nat_le_iff)
  then have "work saved selected \<le> (\<Sum>item\<leftarrow>selected. 4)" unfolding work_def by (rule sum_list_mono)
  then have "work saved selected \<le> 4 * length selected" by (simp add: sum_list_triv)
  moreover have "step = Pause 0" if "attr_get result ''resume_pending'' = PBool True" "attr_get result ''retry_after_seconds'' = PInt 0"
    using that r(3,4) by (cases step) auto
  ultimately show ?thesis using ok r by (intro exI [of _ hash] exI [of _ selected] exI [of _ saved]) (auto simp: good_saved_def advance_def)
qed

theorem slice_progress_witness:
  "\<exists>st result hash selected saved. collect_resumable (\<lambda>f. []) sample_env sample_limits ''t'' sample_connection [] = (st, Inr result) \<and>
     validated_checkpoint [] hash selected = Inr saved \<and> work (co_saved st) selected < work saved selected \<and>
     work saved selected \<le> 4 * length selected"
proof -
  obtain hash result where run: "collect_resumable (\<lambda>f. []) sample_env sample_limits ''t'' sample_connection [] = (sample_state hash, Inr result)"
    and pending: "attr_get result ''resume_pending'' = PBool True" "attr_get result ''retry_after_seconds'' = PInt 0"
    using sample_slice by blast
  have "\<forall>n. en_clock sample_env n < en_clock sample_env 1 + li_deadline sample_limits"
    by (simp add: sample_env_def sample_limits_def)
  then show ?thesis using slice_progress [OF sample_world run] run pending by (elim exE conjE) blast
qed

end
