(* ===== verification/Github_Fence.thy ===== *)
theory Github_Fence
  imports Github_Collect_Props
begin

text \<open>
  The fence of a collection: evidence reaches the sink only right after a save of the checkpoint was accepted,
  and a rejected save is the last thing a slice does.
\<close>

section \<open>Logs\<close>

definition fenced :: "event list \<Rightarrow> bool" where
  "fenced es \<longleftrightarrow> (\<forall>pre c post. es = pre @ Sink c # post \<longrightarrow> (\<exists>p v. pre = p @ [Save v True])) \<and>
     (\<forall>pre v post. es = pre @ Save v False # post \<longrightarrow> post = [])"

definition alive :: "collect_state \<Rightarrow> bool" where
  "alive st \<longleftrightarrow> fenced (co_log st) \<and> (\<forall>v. Save v False \<notin> set (co_log st))"

definition fresh :: "collect_state \<Rightarrow> bool" where
  "fresh st \<longleftrightarrow> alive st \<and> (\<exists>p v. co_log st = p @ [Save v True])"

definition stopped :: "gh_error \<Rightarrow> collect_state \<Rightarrow> bool" where
  "stopped e st \<longleftrightarrow> fenced (co_log st) \<and> (e \<noteq> Claim_Lost \<longrightarrow> alive st)"

lemma fenced_snoc:
  assumes "fenced es" "\<forall>v. Save v False \<notin> set es" "\<And>c. x = Sink c \<Longrightarrow> \<exists>p v. es = p @ [Save v True]"
  shows "fenced (es @ [x])"
  unfolding fenced_def
proof (intro conjI allI impI)
  fix pre c post assume "es @ [x] = pre @ Sink c # post"
  then show "\<exists>p v. pre = p @ [Save v True]"
    using assms(1,3) by (cases post rule: rev_cases) (auto simp: fenced_def)
next
  fix pre v post assume eq: "es @ [x] = pre @ Save v False # post"
  show "post = []"
  proof (cases post rule: rev_cases)
    case (snoc post' y)
    then have "Save v False \<in> set es" using eq by simp
    then show ?thesis using assms(2) by blast
  qed
qed

lemma alive_stopped: "alive st \<Longrightarrow> stopped e st"
  by (simp add: alive_def stopped_def)

lemma fresh_alive: "fresh st \<Longrightarrow> alive st"
  by (simp add: fresh_def)

section \<open>Actions\<close>

text \<open>An action that keeps the log fenced, and one that leaves the log alone.\<close>

definition guarded :: "'a collect \<Rightarrow> bool" where
  "guarded m \<longleftrightarrow> triple alive m (\<lambda>_. alive) stopped"

definition silent :: "'a collect \<Rightarrow> bool" where
  "silent m \<longleftrightarrow> (\<forall>st. co_log (fst (m st)) = co_log st)"

named_theorems guards "actions that keep the log fenced"

lemma silent_basic [simp]: "silent (ask f)" "silent (give x)" "silent (raise_gh e)" "silent (lift_gh m)" "silent (spend b r)"
  "silent (update_progress key g)" "silent (set_result key res)" "silent next_repository"
  by (simp_all add: silent_def ask_def give_def raise_gh_def lift_gh_def spend_def update_progress_def set_result_def next_repository_def)

lemma silent_triple:
  assumes "silent m"
  shows "triple fresh m (\<lambda>_. fresh) stopped" "triple alive m (\<lambda>_. alive) stopped"
proof -
  have "co_log st' = co_log st" if "m st = (st', r)" for st st' r using assms that unfolding silent_def by (metis fst_conv)
  then show "triple fresh m (\<lambda>_. fresh) stopped" "triple alive m (\<lambda>_. alive) stopped"
    by (auto simp: triple_def fresh_def alive_def stopped_def split: prod.split sum.split)
qed

lemma guarded_silent: "silent m \<Longrightarrow> guarded m"
  by (simp add: guarded_def silent_triple)

lemmas guarded_basic [guards] = silent_basic [THEN guarded_silent]

lemma guarded_bind [guards]: "guarded m \<Longrightarrow> (\<And>x. guarded (f x)) \<Longrightarrow> guarded (bind_act m f)"
  unfolding guarded_def by (rule triple_bind)

lemma fence_triple: "triple alive (fence en) (\<lambda>_. fresh) stopped"
  by (auto simp: triple_def fence_def Let_def alive_def fresh_def stopped_def intro!: fenced_snoc)

lemma sink_triple: "triple fresh (sink en c) (\<lambda>_. alive) stopped"
  by (auto simp: triple_def sink_def alive_def fresh_def stopped_def split: sum.split intro!: fenced_snoc)

lemma guarded_fence [guards]: "guarded (fence en)"
  unfolding guarded_def by (rule triple_post [OF fence_triple]) (auto simp: fresh_alive)

lemma guarded_contact [guards]: "guarded (contact en key)"
  by (auto simp: guarded_def triple_def contact_def alive_def intro!: fenced_snoc)

lemma fenced_sink_guarded [guards]: "guarded (fenced_sink en c)"
  unfolding guarded_def fenced_sink_def by (rule triple_bind [OF fence_triple sink_triple])

lemma triple_fresh: "guarded m \<Longrightarrow> triple fresh m (\<lambda>_. alive) stopped"
  unfolding guarded_def by (erule triple_pre) (rule fresh_alive)

text \<open>A record of a repository, right after a fence.\<close>

lemma record_triple:
  "triple fresh (record_partial_repository en connection item detail revision branch) (\<lambda>_. alive) stopped"
  "triple fresh (record_failed_repository en connection item code) (\<lambda>_. alive) stopped"
proof -
  have "triple fresh (bind_act (ask g) (\<lambda>now. bind_act (lift_gh (h now)) (\<lambda>b. bind_act (sink en (Ingest b)) (\<lambda>_. give r)))) (\<lambda>_. alive) stopped"
    for g :: "nat \<Rightarrow> py_datetime" and h and r :: attrs
    by (intro triple_bind [OF silent_triple(1)] triple_bind [OF sink_triple] silent_triple(2)) simp_all
  then show "triple fresh (record_partial_repository en connection item detail revision branch) (\<lambda>_. alive) stopped"
    "triple fresh (record_failed_repository en connection item code) (\<lambda>_. alive) stopped"
    by (simp_all add: record_partial_repository_def record_failed_repository_def Let_def)
qed

lemma fence_then: "(\<And>x. triple fresh (f x) (\<lambda>_. alive) stopped) \<Longrightarrow> guarded (bind_act (fence en) f)"
  unfolding guarded_def by (rule triple_bind [OF fence_triple])

lemma record_then:
  "(\<And>x. guarded (f x)) \<Longrightarrow> triple fresh (bind_act (record_partial_repository en connection item detail revision branch) f) (\<lambda>_. alive) stopped"
  "(\<And>x. guarded (f x)) \<Longrightarrow> triple fresh (bind_act (record_failed_repository en connection item code) f) (\<lambda>_. alive) stopped"
  unfolding guarded_def by (rule triple_bind [OF record_triple(1)], blast) (rule triple_bind [OF record_triple(2)], blast)

section \<open>The slice\<close>

lemma pin_guarded [guards]: "guarded (pin en key commit branch)"
  by (auto simp: pin_def intro!: guards)

lemma attempt_guarded [guards]: "guarded (attempt_snapshot en connection item key p ga)"
  by (auto simp: attempt_snapshot_def take_snapshot_def resolve_revision_def Let_def
      split: option.split pyval.split prod.split sum.split intro!: guards)

lemma analyze_guarded [guards]: "guarded (analyze_snapshot en connection sn)"
  by (auto simp: analyze_snapshot_def split: prod.split intro!: guards)

lemma finish_guarded [guards]: "guarded (finish_repository en key b r)"
  by (auto simp: finish_repository_def intro!: guards)

lemma triple_choice:
  "(\<And>st. triple P (f st) Q E) \<Longrightarrow> (\<And>st. m st = f st st) \<Longrightarrow> triple P m Q E"
  by (fastforce simp: triple_def)

lemma interrupted_guarded [guards]: "guarded (interrupted en connection item key b)"
  unfolding interrupted_def
proof (rule guarded_bind [OF guarded_silent], simp, rule fence_then)
  have spent: "triple fresh (bind_act (spend b True) (\<lambda>_. give (Pause 0))) (\<lambda>_. alive) stopped"
    by (intro triple_fresh guards)
  have recorded: "triple fresh (bind_act (record_partial_repository en connection item retry_limit_code revision branch)
      (\<lambda>r. bind_act (spend b True) (\<lambda>_. bind_act (set_result key r) (\<lambda>_. bind_act (fence en) (\<lambda>_. next_repository)))))
      (\<lambda>_. alive) stopped" for revision branch
    by (intro record_then guards)
  show "triple fresh (\<lambda>st. let p = progress_of (co_saved st) key in
       if interruptions p < max_repository_interruption_count then bind_act (spend b True) (\<lambda>_. give (Pause 0)) st
       else bind_act (record_partial_repository en connection item retry_limit_code (attr_get p ''revision'') (attr_get p ''default_branch''))
         (\<lambda>r. bind_act (spend b True) (\<lambda>_. bind_act (set_result key r) (\<lambda>_. bind_act (fence en) (\<lambda>_. next_repository)))) st)
     (\<lambda>_. alive) stopped"
    by (rule triple_choice [where f = "\<lambda>st. let p = progress_of (co_saved st) key in
       if interruptions p < max_repository_interruption_count then bind_act (spend b True) (\<lambda>_. give (Pause 0))
       else bind_act (record_partial_repository en connection item retry_limit_code (attr_get p ''revision'') (attr_get p ''default_branch''))
         (\<lambda>r. bind_act (spend b True) (\<lambda>_. bind_act (set_result key r) (\<lambda>_. bind_act (fence en) (\<lambda>_. next_repository))))"])
      (simp_all add: Let_def spent recorded)
qed

lemma handle_triple: "triple (stopped e) (handle_error en connection item key b e) (\<lambda>_. alive) stopped"
proof -
  have "e \<noteq> Claim_Lost \<Longrightarrow> guarded (handle_error en connection item key b e)"
    by (cases e) (auto simp: handle_error_def intro!: fence_then record_then guards)
  moreover have "stopped e st \<Longrightarrow> alive st" if "e \<noteq> Claim_Lost" for st using that by (simp add: stopped_def)
  ultimately have "e \<noteq> Claim_Lost \<Longrightarrow> ?thesis" unfolding guarded_def by (auto elim: triple_pre)
  moreover have "e = Claim_Lost \<Longrightarrow> ?thesis" by (simp add: handle_error_def triple_def raise_gh_def)
  ultimately show ?thesis by blast
qed

lemma collect_one_guarded: "guarded (collect_one en connection connection_id item key)"
  unfolding collect_one_def
proof (rule fence_then)
  have attempt: "guarded (bind_act (contact en key) (\<lambda>(ga, b) st1.
         case attempt_snapshot en connection item key progress ga st1 of
           (st2, Inl e) \<Rightarrow> handle_error en connection_id item key b e st2
         | (st2, Inr sn) \<Rightarrow> bind_act (fence en) (\<lambda>_. bind_act (analyze_snapshot en connection_id sn) (finish_repository en key b)) st2))"
    for progress
  proof (rule guarded_bind [OF guarded_contact])
    fix x :: "github_answers \<times> budget"
    obtain ga b where x: "x = (ga, b)" by (cases x)
    have first: "triple alive (attempt_snapshot en connection item key progress ga) (\<lambda>_. alive) stopped"
      using attempt_guarded by (simp add: guarded_def)
    have rest: "triple alive (bind_act (fence en) (\<lambda>_. bind_act (analyze_snapshot en connection_id sn) (finish_repository en key b)))
      (\<lambda>_. alive) stopped" for sn
      using guarded_bind [OF guarded_fence guarded_bind [OF analyze_guarded finish_guarded]] by (simp add: guarded_def)
    show "guarded (case x of (ga, b) \<Rightarrow> \<lambda>st1. case attempt_snapshot en connection item key progress ga st1 of
           (st2, Inl e) \<Rightarrow> handle_error en connection_id item key b e st2
         | (st2, Inr sn) \<Rightarrow> bind_act (fence en) (\<lambda>_. bind_act (analyze_snapshot en connection_id sn) (finish_repository en key b)) st2)"
      unfolding guarded_def x prod.case triple_def [of alive]
    proof (intro allI impI)
      fix st assume st: "alive st"
      obtain st2 r where a: "attempt_snapshot en connection item key progress ga st = (st2, r)" by fastforce
      show "case case attempt_snapshot en connection item key progress ga st of
           (st2, Inl e) \<Rightarrow> handle_error en connection_id item key b e st2
         | (st2, Inr sn) \<Rightarrow> bind_act (fence en) (\<lambda>_. bind_act (analyze_snapshot en connection_id sn) (finish_repository en key b)) st2 of
         (st', Inl e) \<Rightarrow> stopped e st' | (st', Inr x) \<Rightarrow> alive st'"
      proof (cases r)
        case (Inl e)
        then show ?thesis using tripleD(2) [OF first st, of st2 e] handle_triple [of e en connection_id item key b] a
          by (simp add: triple_def)
      next
        case (Inr sn)
        then show ?thesis using tripleD(1) [OF first st, of st2 sn] rest [of sn] a by (simp add: triple_def)
      qed
    qed
  qed
  have recorded: "triple fresh (bind_act (record_partial_repository en connection_id item retry_limit_code revision branch)
      (\<lambda>r. bind_act (set_result key r) (\<lambda>_. bind_act (fence en) (\<lambda>_. next_repository)))) (\<lambda>_. alive) stopped" for revision branch
    by (intro record_then guards)
  show "triple fresh (\<lambda>st0. let progress = progress_of (co_saved st0) key in
       if max_repository_interruption_count \<le> interruptions progress then
         bind_act (record_partial_repository en connection_id item retry_limit_code
             (attr_get progress ''revision'') (attr_get progress ''default_branch''))
           (\<lambda>r. bind_act (set_result key r) (\<lambda>_. bind_act (fence en) (\<lambda>_. next_repository))) st0
       else bind_act (contact en key) (\<lambda>(ga, b) st1.
         case attempt_snapshot en connection item key progress ga st1 of
           (st2, Inl e) \<Rightarrow> handle_error en connection_id item key b e st2
         | (st2, Inr sn) \<Rightarrow> bind_act (fence en) (\<lambda>_. bind_act (analyze_snapshot en connection_id sn) (finish_repository en key b)) st2) st0)
     (\<lambda>_. alive) stopped"
    by (rule triple_choice [where f = "\<lambda>st0. let progress = progress_of (co_saved st0) key in
       if max_repository_interruption_count \<le> interruptions progress then
         bind_act (record_partial_repository en connection_id item retry_limit_code
             (attr_get progress ''revision'') (attr_get progress ''default_branch''))
           (\<lambda>r. bind_act (set_result key r) (\<lambda>_. bind_act (fence en) (\<lambda>_. next_repository)))
       else bind_act (contact en key) (\<lambda>(ga, b) st1.
         case attempt_snapshot en connection item key progress ga st1 of
           (st2, Inl e) \<Rightarrow> handle_error en connection_id item key b e st2
         | (st2, Inr sn) \<Rightarrow> bind_act (fence en) (\<lambda>_. bind_act (analyze_snapshot en connection_id sn) (finish_repository en key b)) st2)"])
      (simp_all add: Let_def recorded triple_fresh [OF attempt])
qed

lemma loop_fenced: "alive st \<Longrightarrow> collect_loop en deadline connection connection_id items st = (st', r) \<Longrightarrow> fenced (co_log st')"
proof (induction items arbitrary: st)
  case (Cons item items)
  let ?key = "repository_key item" and ?st1 = "st\<lparr>co_steps := co_steps st + 1\<rparr>"
  have st1: "alive ?st1" using Cons.prems(1) by (simp add: alive_def)
  obtain st2 x where one: "collect_one en connection connection_id item ?key ?st1 = (st2, x)" by fastforce
  note spec = tripleD [OF collect_one_guarded [unfolded guarded_def] st1]
  have ended: "fenced (co_log st2)"
  proof (cases x)
    case (Inl e)
    then show ?thesis using spec(2) one by (simp add: stopped_def)
  next
    case (Inr y)
    then show ?thesis using spec(1) one by (simp add: alive_def)
  qed
  have going: "alive st2" if "x = Inr Next" using spec(1) one that by blast
  consider (skip) "has_result (co_saved st) ?key" | (full) "\<not> has_result (co_saved st) ?key" "max_repositories_per_slice \<le> co_processed st"
    | (late) "\<not> has_result (co_saved st) ?key" "\<not> max_repositories_per_slice \<le> co_processed st" "deadline \<le> en_clock en (co_steps st)"
    | (run) "\<not> has_result (co_saved st) ?key" "\<not> max_repositories_per_slice \<le> co_processed st" "\<not> deadline \<le> en_clock en (co_steps st)"
    by blast
  then show ?case
  proof cases
    case skip
    then have "collect_loop en deadline connection connection_id items st = (st', r)" using Cons.prems(2) by (simp add: Let_def)
    then show ?thesis using Cons.IH Cons.prems(1) by blast
  next
    case full
    then have "st' = st" using Cons.prems(2) by (simp add: Let_def)
    then show ?thesis using Cons.prems(1) by (simp add: alive_def)
  next
    case late
    then have "st' = ?st1" using Cons.prems(2) by (simp add: Let_def ask_def)
    then show ?thesis using st1 by (simp add: alive_def)
  next
    case run
    show ?thesis
    proof (cases "x = Inr Next")
      case True
      then have "collect_loop en deadline connection connection_id items st2 = (st', r)"
        using Cons.prems(2) run one by (simp add: Let_def ask_def)
      then show ?thesis using Cons.IH going True by blast
    next
      case False
      then have "st' = st2"
        using Cons.prems(2) run one by (auto simp: Let_def ask_def split: sum.splits slice_step.splits)
      then show ?thesis using ended by simp
    qed
  qed
qed (simp add: alive_def)

lemma slice_fenced:
  assumes "run_slice en li connection cid selected (start_state saved) = (st, r)"
  shows "fenced (co_log st)"
proof -
  have loop: "triple alive (collect_loop en d connection cid selected) (\<lambda>_ st. fenced (co_log st)) (\<lambda>_ st. fenced (co_log st))" for d
    by (auto simp: triple_def split: prod.split sum.split dest: loop_fenced)
  have spec: "triple alive (run_slice en li connection cid selected) (\<lambda>_ st. fenced (co_log st)) (\<lambda>_ st. fenced (co_log st))"
    unfolding run_slice_def
  proof (intro triple_bind)
    show "triple alive (fence en) (\<lambda>_. alive) (\<lambda>_ st. fenced (co_log st))"
      by (rule triple_post [OF guarded_fence [unfolded guarded_def]]) (auto simp: stopped_def)
    show "triple alive (ask (en_clock en)) (\<lambda>_. alive) (\<lambda>_ st. fenced (co_log st))"
      "triple alive (lift_gh (en_targets en)) (\<lambda>_. alive) (\<lambda>_ st. fenced (co_log st))"
      by (rule triple_post [OF silent_triple(2)]; simp add: stopped_def)+
  qed (rule loop)
  have start: "alive (start_state saved)" by (simp add: alive_def start_state_def fenced_def)
  show ?thesis
  proof (cases r)
    case (Inl e)
    show ?thesis by (rule tripleD(2) [OF spec start assms [unfolded Inl]])
  next
    case (Inr y)
    show ?thesis by (rule tripleD(1) [OF spec start assms [unfolded Inr]])
  qed
qed

section \<open>Property\<close>

text \<open>
  C4. In every slice, whatever GitHub, the clocks and the sink do, each batch of evidence is handed to the sink
  directly after the save of the checkpoint was accepted, and after a save that is rejected, because the claim
  was lost, the slice neither contacts GitHub nor writes again.
\<close>

theorem evidence_is_fenced:
  assumes "collect_resumable fl en li tenant connection checkpoint = (st, r)"
  shows "(\<forall>pre c post. co_log st = pre @ Sink c # post \<longrightarrow> (\<exists>p v. pre = p @ [Save v True])) \<and>
    (\<forall>pre v post. co_log st = pre @ Save v False # post \<longrightarrow> post = [])"
proof -
  let ?str = "rd_str_of (en_reading en)"
  have empty: "fenced (co_log (start_state saved))" for saved by (simp add: fenced_def start_state_def)
  have "fenced (co_log st)"
  proof (cases "boundary_hash fl ?str tenant connection")
    case (Inl e)
    then show ?thesis using assms empty by (auto simp: collect_resumable_def Let_def)
  next
    case hash: (Inr hash)
    show ?thesis
    proof (cases "selected_repositories connection")
      case None
      then show ?thesis using assms empty hash by (auto simp: collect_resumable_def Let_def)
    next
      case selected: (Some selected)
      show ?thesis
      proof (cases "validated_checkpoint checkpoint hash selected")
        case (Inl e)
        then show ?thesis using assms empty hash selected by (auto simp: collect_resumable_def Let_def)
      next
        case (Inr saved)
        obtain s' x where ran: "run_slice en li connection (text_of ?str connection ''id'') selected (start_state saved) = (s', x)" by fastforce
        then have "co_log st = co_log s'"
          using assms hash selected Inr by (cases x) (auto simp: collect_resumable_def Let_def bind_act_def ask_def)
        then show ?thesis using slice_fenced [OF ran] by simp
      qed
    qed
  qed
  then show ?thesis by (simp add: fenced_def)
qed

theorem evidence_is_fenced_witness:
  "\<exists>st r. collect_resumable (\<lambda>f. []) sample_env sample_limits ''t'' sample_connection [] = (st, r) \<and>
     (\<forall>pre c post. co_log st = pre @ Sink c # post \<longrightarrow> (\<exists>p v. pre = p @ [Save v True])) \<and> length (co_log st) = 4"
proof -
  obtain hash result where run: "collect_resumable (\<lambda>f. []) sample_env sample_limits ''t'' sample_connection [] = (sample_state hash, Inr result)"
    using sample_slice by blast
  have "length (co_log (sample_state hash)) = 4" by (simp add: sample_state_def)
  with run conjunct1 [OF evidence_is_fenced [OF run]] show ?thesis by blast
qed

end
