(* ===== verification/Ingest_Findings.thy ===== *)
theory Ingest_Findings
  imports Ingest_Inventory
begin

text \<open>
  \<open>PostgresInventoryRepository.ingest_findings\<close> of \<open>src/denali/store/repository.py\<close> with the statements it
  issues: the findings of a source, their resources, compliance labels and observations, and the resolution
  of what an authoritative snapshot no longer reports. A generated \<open>id\<close> of a finding is its unique key
  (tenant, connector, connection and \<open>source_uid\<close>).
\<close>

section \<open>JSON columns\<close>

text \<open>Equality of \<open>jsonb\<close> values: objects up to the order of their keys, numbers by value.\<close>

fun jsonb_eq :: "pyval \<Rightarrow> pyval \<Rightarrow> bool" where
  "jsonb_eq PNone v = (v = PNone)"
| "jsonb_eq (PBool b) v = (v = PBool b)"
| "jsonb_eq (PStr s) v = (v = PStr s)"
| "jsonb_eq (PList xs) v = (case v of PList ys \<Rightarrow> list_all2 jsonb_eq xs ys | _ \<Rightarrow> False)"
| "jsonb_eq (PDict d) v = (case v of
      PDict e \<Rightarrow> length d = length e \<and>
        (\<forall>p \<in> set d. case map_of e (fst p) of None \<Rightarrow> False | Some w \<Rightarrow> jsonb_eq (snd p) w)
    | _ \<Rightarrow> False)"
| "jsonb_eq (PInt i) v = (case v of PInt j \<Rightarrow> i = j | PFloat f \<Rightarrow> feq (Fin (of_int i)) f | _ \<Rightarrow> False)"
| "jsonb_eq (PFloat f) v = (case v of PInt j \<Rightarrow> feq f (Fin (of_int j)) | PFloat g \<Rightarrow> feq f g | _ \<Rightarrow> False)"

section \<open>The tables\<close>

type_synonym finding_key = "string \<times> string \<times> string \<times> string"

record finding_row =
  fr_scope_key :: string
  fr_rule_uid :: string
  fr_title :: string
  fr_description :: "string option"
  fr_risk :: "string option"
  fr_remediation :: "string option"
  fr_remediation_references :: "string list"
  fr_severity :: finding_severity
  fr_state :: finding_state
  fr_evaluation_result :: evaluation_result
  fr_class_uid :: int
  fr_class_name :: string
  fr_source_observed_at :: int
  fr_evidence :: evidence
  fr_attributes :: attrs
  fr_resolution_reason :: "string option"
  fr_first_seen_at :: int
  fr_last_seen_at :: int
  fr_last_changed_at :: int
  fr_run :: string

record finding_observation =
  fo_scope_key :: string
  fo_collected_at :: int
  fo_source_observed_at :: int
  fo_severity :: finding_severity
  fo_state :: finding_state
  fo_evaluation_result :: evaluation_result
  fo_evidence :: evidence
  fo_attributes :: attrs
  fo_resources :: "affected_resource list"
  fo_compliance :: "(pyval \<times> pyval list) list"

text \<open>The tables of one database; those of the vulnerabilities and activities extend it.\<close>

record finding_db =
  fd_inventory :: inv_db
  fd_findings :: "(finding_key, finding_row) table"
  fd_resources :: "(finding_key \<times> affected_resource) list"
  fd_compliance :: "(finding_key \<times> pyval \<times> pyval) list"
  fd_observations :: "(finding_key \<times> string, finding_observation) table"

section \<open>Statements\<close>

definition finding_key_of :: "string \<Rightarrow> 'a batch_header_scheme \<Rightarrow> finding_assertion \<Rightarrow> finding_key" where
  "finding_key_of tenant b f = (tenant, bh_connector_id b, bh_connection_id b, fa_source_uid f)"

definition finding_exists :: "string \<Rightarrow> 'a batch_header_scheme \<Rightarrow> finding_assertion \<Rightarrow> 'b finding_db_scheme \<Rightarrow> bool" where
  "finding_exists tenant b f db \<longleftrightarrow> map_of (fd_findings db) (finding_key_of tenant b f) \<noteq> None"

text \<open>The columns whose change moves \<open>last_changed_at\<close>.\<close>

definition finding_changed :: "finding_row \<Rightarrow> finding_row \<Rightarrow> bool" where
  "finding_changed r n \<longleftrightarrow> \<not> (fr_scope_key r = fr_scope_key n \<and> fr_rule_uid r = fr_rule_uid n \<and> fr_title r = fr_title n \<and>
     fr_description r = fr_description n \<and> fr_risk r = fr_risk n \<and> fr_remediation r = fr_remediation n \<and>
     fr_remediation_references r = fr_remediation_references n \<and> fr_severity r = fr_severity n \<and>
     fr_state r = fr_state n \<and> fr_evaluation_result r = fr_evaluation_result n \<and> fr_class_uid r = fr_class_uid n \<and>
     fr_class_name r = fr_class_name n \<and> jsonb_eq (PDict (fr_attributes r)) (PDict (fr_attributes n)))"

definition inserted_finding :: "'a batch_header_scheme \<Rightarrow> finding_assertion \<Rightarrow> finding_row" where
  "inserted_finding b f = \<lparr>fr_scope_key = bh_scope_key b, fr_rule_uid = fa_rule_uid f, fr_title = fa_title f,
     fr_description = fa_description f, fr_risk = fa_risk f, fr_remediation = fa_remediation f,
     fr_remediation_references = fa_remediation_references f, fr_severity = fa_severity f, fr_state = fa_state f,
     fr_evaluation_result = fa_evaluation_result f, fr_class_uid = fa_class_uid f, fr_class_name = fa_class_name f,
     fr_source_observed_at = instant (fa_observed_at f), fr_evidence = fa_evidence f, fr_attributes = fa_attributes f,
     fr_resolution_reason = (if fa_state f = FS_RESOLVED then Some ''source_status'' else None),
     fr_first_seen_at = collected b, fr_last_seen_at = collected b, fr_last_changed_at = collected b,
     fr_run = bh_run_id b\<rparr>"

definition finding_row_of :: "'a batch_header_scheme \<Rightarrow> finding_assertion \<Rightarrow> finding_row option \<Rightarrow> finding_row" where
  "finding_row_of b f old = (let n = inserted_finding b f in case old of
     None \<Rightarrow> n
   | Some r \<Rightarrow> n\<lparr>fr_first_seen_at := fr_first_seen_at r,
       fr_last_changed_at := (if finding_changed r n then collected b else fr_last_changed_at r)\<rparr>)"

definition upsert_finding :: "string \<Rightarrow> 'a batch_header_scheme \<Rightarrow> finding_assertion \<Rightarrow> 'b finding_db_scheme \<Rightarrow> 'b finding_db_scheme" where
  "upsert_finding tenant b f db = db\<lparr>fd_findings := upsert (finding_key_of tenant b f) (finding_row_of b f) (fd_findings db)\<rparr>"

text \<open>Rows that belong to a finding are deleted and inserted again.\<close>

definition replace_rows :: "'k \<Rightarrow> 'r list \<Rightarrow> ('k \<times> 'r) list \<Rightarrow> ('k \<times> 'r) list" where
  "replace_rows k rs t = filter (\<lambda>(i, r). i \<noteq> k) t @ map (Pair k) rs"

definition replace_finding_resources :: "finding_key \<Rightarrow> finding_assertion \<Rightarrow> 'b finding_db_scheme \<Rightarrow> 'b finding_db_scheme" where
  "replace_finding_resources k f db = db\<lparr>fd_resources := replace_rows k (fa_affected_resources f) (fd_resources db)\<rparr>"

definition compliance_rows :: "finding_assertion \<Rightarrow> (pyval \<times> pyval) list" where
  "compliance_rows f = concat (map (\<lambda>(framework, controls). map (Pair framework) controls) (fa_compliance f))"

definition replace_finding_compliance :: "finding_key \<Rightarrow> finding_assertion \<Rightarrow> 'b finding_db_scheme \<Rightarrow> 'b finding_db_scheme" where
  "replace_finding_compliance k f db = db\<lparr>fd_compliance := replace_rows k (compliance_rows f) (fd_compliance db)\<rparr>"

definition observation_of :: "'a batch_header_scheme \<Rightarrow> finding_assertion \<Rightarrow> finding_observation option \<Rightarrow> finding_observation" where
  "observation_of b f old = \<lparr>fo_scope_key = (case old of None \<Rightarrow> bh_scope_key b | Some o1 \<Rightarrow> fo_scope_key o1),
     fo_collected_at = collected b, fo_source_observed_at = instant (fa_observed_at f), fo_severity = fa_severity f,
     fo_state = fa_state f, fo_evaluation_result = fa_evaluation_result f, fo_evidence = fa_evidence f,
     fo_attributes = fa_attributes f, fo_resources = fa_affected_resources f, fo_compliance = fa_compliance f\<rparr>"

definition insert_finding_observation ::
    "finding_key \<Rightarrow> 'a batch_header_scheme \<Rightarrow> finding_assertion \<Rightarrow> 'b finding_db_scheme \<Rightarrow> 'b finding_db_scheme" where
  "insert_finding_observation k b f db = db\<lparr>fd_observations := upsert (k, bh_run_id b) (observation_of b f) (fd_observations db)\<rparr>"

section \<open>The method\<close>

text \<open>One finding: a pass that was never a finding is not stored.\<close>

definition persist_finding ::
    "string \<Rightarrow> 'a batch_header_scheme \<Rightarrow> finding_assertion \<Rightarrow> 'b finding_db_scheme \<times> nat \<Rightarrow> 'b finding_db_scheme \<times> nat" where
  "persist_finding tenant b f = (\<lambda>(db, persisted).
     if fa_evaluation_result f = PASS \<and> \<not> finding_exists tenant b f db then (db, persisted)
     else let k = finding_key_of tenant b f in
       (insert_finding_observation k b f (replace_finding_compliance k f (replace_finding_resources k f
          (upsert_finding tenant b f db))), persisted + 1))"

definition finding_source :: "finding_key \<Rightarrow> finding_row \<Rightarrow> source_key" where
  "finding_source k r = (case k of (tenant, connector, connection, uid) \<Rightarrow> (tenant, connector, connection, fr_scope_key r))"

definition finding_current :: "finding_row \<Rightarrow> bool" where
  "finding_current r \<longleftrightarrow> fr_state r = FS_OPEN \<or> fr_state r = FS_UNKNOWN"

definition finding_missing :: "string \<Rightarrow> 'a batch_header_scheme \<Rightarrow> finding_key \<Rightarrow> finding_row \<Rightarrow> bool" where
  "finding_missing tenant b k r \<longleftrightarrow>
     finding_source k r = batch_source tenant b \<and> finding_current r \<and> fr_run r \<noteq> bh_run_id b"

definition resolved_finding :: "int \<Rightarrow> finding_row \<Rightarrow> finding_row" where
  "resolved_finding t r = r\<lparr>fr_state := FS_RESOLVED, fr_evaluation_result := ER_UNKNOWN,
     fr_resolution_reason := Some ''absent_from_authoritative_snapshot'', fr_last_changed_at := t\<rparr>"

definition resolve_missing_findings :: "string \<Rightarrow> finding_batch \<Rightarrow> 'b finding_db_scheme \<Rightarrow> 'b finding_db_scheme \<times> nat" where
  "resolve_missing_findings tenant b db =
     (if finding_may_resolve_missing b
      then (db\<lparr>fd_findings := update_where (finding_missing tenant b) (\<lambda>k. resolved_finding (collected b)) (fd_findings db)\<rparr>,
            count_where (finding_missing tenant b) (fd_findings db))
      else (db, 0))"

text \<open>The results are the numbers of persisted findings and of findings resolved as missing.\<close>

definition ingest_findings :: "string \<Rightarrow> finding_batch \<Rightarrow> 'b finding_db_scheme \<Rightarrow> 'b finding_db_scheme \<times> nat \<times> nat" where
  "ingest_findings tenant b db0 =
     (let (db1, persisted) = fold (persist_finding tenant b) (fb_findings b)
            (db0\<lparr>fd_inventory := insert_run tenant b (fd_inventory db0)\<rparr>, 0);
          (db2, missing) = resolve_missing_findings tenant b db1
      in (db2, persisted, missing))"

interpretation findings_snapshot: snapshot_table finding_source fr_run finding_current "resolved_finding t" for t
  by unfold_locales (auto simp: finding_source_def finding_current_def resolved_finding_def)

end
