(* ===== verification/Ingest_Findings_Props.thy ===== *)
theory Ingest_Findings_Props
  imports Ingest_Findings
begin

text \<open>
  What a batch of findings does to every row of the tables: the loop of \<open>ingest_findings\<close> is described
  key by key, independently of the order of the findings.
\<close>

section \<open>Rows of a finding\<close>

definition rows_of :: "'k \<Rightarrow> ('k \<times> 'r) list \<Rightarrow> 'r list" where
  "rows_of k t = map snd (filter (\<lambda>(i, r). i = k) t)"

lemma rows_of_replace: "rows_of k (replace_rows j rs t) = (if k = j then rs else rows_of k t)"
proof -
  have "filter (\<lambda>(i, r). i = k) (map (Pair j) rs) = (if k = j then map (Pair j) rs else [])"
    by (induction rs) auto
  moreover have "filter (\<lambda>(i, r). i = k) (filter (\<lambda>(i, r). i \<noteq> j) t) = (if k = j then [] else filter (\<lambda>(i, r). i = k) t)"
    by (induction t) auto
  ultimately show ?thesis by (simp add: rows_of_def replace_rows_def comp_def)
qed

text \<open>The finding of the batch with a key, and whether it is stored.\<close>

definition reported :: "string \<Rightarrow> 'a batch_header_scheme \<Rightarrow> finding_assertion list \<Rightarrow> finding_key \<Rightarrow> finding_assertion option" where
  "reported tenant b fs k = find (\<lambda>f. finding_key_of tenant b f = k) fs"

definition skipped_pass :: "finding_assertion \<Rightarrow> finding_row option \<Rightarrow> bool" where
  "skipped_pass f old \<longleftrightarrow> fa_evaluation_result f = PASS \<and> old = None"

lemma reported_Some: "reported tenant b fs k = Some f \<Longrightarrow> f \<in> set fs \<and> finding_key_of tenant b f = k"
  by (auto simp: reported_def find_Some_iff)

lemma reported_None: "reported tenant b fs k = None \<longleftrightarrow> k \<notin> finding_key_of tenant b ` set fs"
  by (auto simp: reported_def find_None_iff)

lemma finding_key_inj: "finding_key_of tenant b f = finding_key_of tenant b g \<longleftrightarrow> fa_source_uid f = fa_source_uid g"
  by (simp add: finding_key_of_def)

lemma reported_member: "distinct (map fa_source_uid fs) \<Longrightarrow> f \<in> set fs \<Longrightarrow> reported tenant b fs (finding_key_of tenant b f) = Some f"
  by (induction fs) (auto simp: reported_def finding_key_inj)

section \<open>The loop\<close>

text \<open>What is stored of one key.\<close>

definition same_at :: "finding_key \<Rightarrow> 'b finding_db_scheme \<Rightarrow> 'c finding_db_scheme \<Rightarrow> bool" where
  "same_at k db db' \<longleftrightarrow> map_of (fd_findings db') k = map_of (fd_findings db) k \<and>
     rows_of k (fd_resources db') = rows_of k (fd_resources db) \<and> rows_of k (fd_compliance db') = rows_of k (fd_compliance db) \<and>
     (\<forall>run. map_of (fd_observations db') (k, run) = map_of (fd_observations db) (k, run))"

definition stored_at :: "'a batch_header_scheme \<Rightarrow> finding_assertion \<Rightarrow> finding_key \<Rightarrow> 'b finding_db_scheme \<Rightarrow> 'c finding_db_scheme \<Rightarrow> bool" where
  "stored_at b f k db db' \<longleftrightarrow> map_of (fd_findings db') k = Some (finding_row_of b f (map_of (fd_findings db) k)) \<and>
     rows_of k (fd_resources db') = fa_affected_resources f \<and> rows_of k (fd_compliance db') = compliance_rows f \<and>
     map_of (fd_observations db') (k, bh_run_id b) = Some (observation_of b f (map_of (fd_observations db) (k, bh_run_id b)))"

lemma same_at_refl [simp]: "same_at k db db"
  by (simp add: same_at_def)

lemma same_at_trans: "same_at k db1 db2 \<Longrightarrow> same_at k db2 db3 \<Longrightarrow> same_at k db1 db3"
  by (simp add: same_at_def)

lemma stored_then_same: "stored_at b f k db1 db2 \<Longrightarrow> same_at k db2 db3 \<Longrightarrow> stored_at b f k db1 db3"
  by (simp add: same_at_def stored_at_def)

lemma same_then_stored: "same_at k db1 db2 \<Longrightarrow> stored_at b f k db2 db3 \<Longrightarrow> stored_at b f k db1 db3"
  by (simp add: same_at_def stored_at_def)

lemmas persist_defs = persist_finding_def upsert_finding_def replace_finding_resources_def
  replace_finding_compliance_def insert_finding_observation_def Let_def

lemma persist_other: "finding_key_of tenant b f \<noteq> k \<Longrightarrow> same_at k db (fst (persist_finding tenant b f (db, n)))"
  by (auto simp: persist_defs same_at_def table_simps rows_of_replace)

lemma persist_own:
  assumes "k = finding_key_of tenant b f"
  shows "if skipped_pass f (map_of (fd_findings db) k) then persist_finding tenant b f (db, n) = (db, n)
    else stored_at b f k db (fst (persist_finding tenant b f (db, n)))"
  using assms by (auto simp: persist_defs stored_at_def skipped_pass_def finding_exists_def table_simps rows_of_replace)

lemma persist_loop:
  assumes "distinct (map fa_source_uid fs)"
  shows "case reported tenant b fs k of
      None \<Rightarrow> same_at k db (fst (fold (persist_finding tenant b) fs (db, n)))
    | Some f \<Rightarrow> if skipped_pass f (map_of (fd_findings db) k) then same_at k db (fst (fold (persist_finding tenant b) fs (db, n)))
        else stored_at b f k db (fst (fold (persist_finding tenant b) fs (db, n)))"
  using assms
proof (induction fs arbitrary: db n)
  case (Cons f fs)
  obtain db1 n1 where step: "persist_finding tenant b f (db, n) = (db1, n1)" by fastforce
  let ?out = "fst (fold (persist_finding tenant b) fs (db1, n1))"
  show ?case
  proof (cases "finding_key_of tenant b f = k")
    case True
    have "reported tenant b fs k = None" using Cons.prems True by (auto simp: reported_None finding_key_inj image_iff)
    moreover have "reported tenant b (f # fs) k = Some f" using True by (simp add: reported_def)
    moreover from calculation(1) have "same_at k db1 ?out" using Cons.IH [of db1 n1] Cons.prems by simp
    ultimately show ?thesis using persist_own [OF True [symmetric], of db n] step
      by (auto intro: stored_then_same split: if_splits)
  next
    case False
    then have r: "reported tenant b (f # fs) k = reported tenant b fs k" by (simp add: reported_def)
    have s: "same_at k db db1" using persist_other [OF False, of db n] step by simp
    then have "map_of (fd_findings db1) k = map_of (fd_findings db) k" by (simp add: same_at_def)
    then show ?thesis using Cons.IH [of db1 n1] Cons.prems s step unfolding r
      by (auto split: option.splits if_splits intro: same_at_trans same_then_stored)
  qed
qed (simp add: reported_def)

lemma resolve_missing_at:
  "map_of (fd_findings (fst (resolve_missing_findings tenant b db))) k = map_option (\<lambda>r.
     if finding_may_resolve_missing b \<and> finding_missing tenant b k r then resolved_finding (collected b) r else r) (map_of (fd_findings db) k)"
  by (auto simp: resolve_missing_findings_def table_simps option.map_ident)

lemma resolve_missing_rows [simp]:
  "fd_resources (fst (resolve_missing_findings tenant b db)) = fd_resources db"
  "fd_compliance (fst (resolve_missing_findings tenant b db)) = fd_compliance db"
  "fd_observations (fst (resolve_missing_findings tenant b db)) = fd_observations db"
  by (simp_all add: resolve_missing_findings_def)

text \<open>A row written by the batch is not missing from it.\<close>

lemma own_row_not_missing: "\<not> finding_missing tenant b k (finding_row_of b f old)"
  by (auto simp: finding_missing_def finding_row_of_def inserted_finding_def Let_def split: option.split)

lemma ingest_findings_fst: "fst (ingest_findings tenant b db) = fst (resolve_missing_findings tenant b
    (fst (fold (persist_finding tenant b) (fb_findings b) (db\<lparr>fd_inventory := insert_run tenant b (fd_inventory db)\<rparr>, 0))))"
  by (simp add: ingest_findings_def Let_def split_beta)

lemma started [simp]: "fd_findings (db\<lparr>fd_inventory := i\<rparr>) = fd_findings db"
  "same_at k (db\<lparr>fd_inventory := i\<rparr>) db' = same_at k db db'" "stored_at b f k (db\<lparr>fd_inventory := i\<rparr>) db' = stored_at b f k db db'"
  by (simp_all add: same_at_def stored_at_def)

lemma ingest_findings_at:
  assumes "distinct (map fa_source_uid (fb_findings b))"
  shows "case reported tenant b (fb_findings b) k of
      Some f \<Rightarrow> if skipped_pass f (map_of (fd_findings db) k) then same_at k db (fst (ingest_findings tenant b db))
        else stored_at b f k db (fst (ingest_findings tenant b db))
    | None \<Rightarrow> same_at k (db\<lparr>fd_findings := fd_findings (fst (ingest_findings tenant b db))\<rparr>) (fst (ingest_findings tenant b db)) \<and>
        map_of (fd_findings (fst (ingest_findings tenant b db))) k = map_option (\<lambda>r.
          if finding_may_resolve_missing b \<and> finding_missing tenant b k r then resolved_finding (collected b) r else r)
          (map_of (fd_findings db) k)"
  using persist_loop [OF assms, where tenant = tenant and b = b and k = k and n = 0 and db = "db\<lparr>fd_inventory := insert_run tenant b (fd_inventory db)\<rparr>"]
  unfolding ingest_findings_fst
  by (auto simp: same_at_def stored_at_def resolve_missing_at own_row_not_missing skipped_pass_def split: option.splits if_splits)

section \<open>A row that says what was reported\<close>

text \<open>Every column that a report sets.\<close>

definition row_reports :: "'a batch_header_scheme \<Rightarrow> finding_assertion \<Rightarrow> finding_row \<Rightarrow> bool" where
  "row_reports b f r \<longleftrightarrow> fr_scope_key r = bh_scope_key b \<and> fr_rule_uid r = fa_rule_uid f \<and> fr_title r = fa_title f \<and>
     fr_description r = fa_description f \<and> fr_risk r = fa_risk f \<and> fr_remediation r = fa_remediation f \<and>
     fr_remediation_references r = fa_remediation_references f \<and> fr_severity r = fa_severity f \<and> fr_state r = fa_state f \<and>
     fr_evaluation_result r = fa_evaluation_result f \<and> fr_class_uid r = fa_class_uid f \<and> fr_class_name r = fa_class_name f \<and>
     fr_source_observed_at r = instant (fa_observed_at f) \<and> fr_evidence r = fa_evidence f \<and> fr_attributes r = fa_attributes f \<and>
     fr_resolution_reason r = (if fa_state f = FS_RESOLVED then Some ''source_status'' else None) \<and>
     fr_last_seen_at r = collected b \<and> fr_run r = bh_run_id b"

text \<open>The content of a finding: its columns but for times, evidence and run; attributes compare as JSON.\<close>

definition same_content :: "finding_row \<Rightarrow> finding_row \<Rightarrow> bool" where
  "same_content r n \<longleftrightarrow> fr_scope_key r = fr_scope_key n \<and> fr_rule_uid r = fr_rule_uid n \<and> fr_title r = fr_title n \<and>
     fr_description r = fr_description n \<and> fr_risk r = fr_risk n \<and> fr_remediation r = fr_remediation n \<and>
     fr_remediation_references r = fr_remediation_references n \<and> fr_severity r = fr_severity n \<and>
     fr_state r = fr_state n \<and> fr_evaluation_result r = fr_evaluation_result n \<and> fr_class_uid r = fr_class_uid n \<and>
     fr_class_name r = fr_class_name n \<and> jsonb_eq (PDict (fr_attributes r)) (PDict (fr_attributes n))"

definition observation_reports :: "'a batch_header_scheme \<Rightarrow> finding_assertion \<Rightarrow> finding_observation \<Rightarrow> bool" where
  "observation_reports b f ob \<longleftrightarrow> fo_collected_at ob = collected b \<and> fo_source_observed_at ob = instant (fa_observed_at f) \<and>
     fo_severity ob = fa_severity f \<and> fo_state ob = fa_state f \<and> fo_evaluation_result ob = fa_evaluation_result f \<and>
     fo_evidence ob = fa_evidence f \<and> fo_attributes ob = fa_attributes f \<and> fo_resources ob = fa_affected_resources f \<and>
     fo_compliance ob = fa_compliance f"

lemma stored_row_reports:
  "row_reports b f (finding_row_of b f old)" "observation_reports b f (observation_of b f ob)"
  "fr_first_seen_at (finding_row_of b f old) = (case old of None \<Rightarrow> collected b | Some o1 \<Rightarrow> fr_first_seen_at o1)"
  "fr_last_changed_at (finding_row_of b f old) = (case old of None \<Rightarrow> collected b
     | Some o1 \<Rightarrow> if same_content o1 (finding_row_of b f old) then fr_last_changed_at o1 else collected b)"
  by (auto simp: row_reports_def observation_reports_def observation_of_def finding_row_of_def inserted_finding_def same_content_def
      finding_changed_def Let_def split: option.split)

section \<open>Properties\<close>

text \<open>
  C9. After a batch of findings each finding it reports is stored with every column as reported, with exactly
  its resources, its compliance labels and an observation of the run; it keeps the time it was first seen, and
  the time of its last change unless its content changed. A check that passes is stored only if the finding was
  known, and nothing else appears. Every other finding keeps its row, resources, labels and observations, except that it is resolved, with
  the time of the batch, exactly when the batch is authoritative and completely covered and the finding is a
  current one of the same source and scope that an earlier run reported.
\<close>

theorem findings_reconciled:
  assumes "new_FindingBatch b = Inr b" "ingest_findings tenant b db = (db', persisted, missing)"
  shows "(\<forall>k. map_of (fd_findings db) k = None \<and> k \<notin> finding_key_of tenant b ` set (fb_findings b) \<longrightarrow>
      map_of (fd_findings db') k = None) \<and>
    (\<forall>f\<in>set (fb_findings b). let k = finding_key_of tenant b f; old = map_of (fd_findings db) k in
      if fa_evaluation_result f = PASS \<and> old = None then map_of (fd_findings db') k = None
      else \<exists>r. map_of (fd_findings db') k = Some r \<and> row_reports b f r \<and>
        fr_first_seen_at r = (case old of None \<Rightarrow> collected b | Some o1 \<Rightarrow> fr_first_seen_at o1) \<and>
        fr_last_changed_at r = (case old of None \<Rightarrow> collected b
          | Some o1 \<Rightarrow> if same_content o1 r then fr_last_changed_at o1 else collected b) \<and>
        rows_of k (fd_resources db') = fa_affected_resources f \<and>
        rows_of k (fd_compliance db') = concat (map (\<lambda>(framework, controls). map (Pair framework) controls) (fa_compliance f)) \<and>
        (\<exists>ob. map_of (fd_observations db') (k, bh_run_id b) = Some ob \<and> observation_reports b f ob)) \<and>
    (\<forall>k r. map_of (fd_findings db) k = Some r \<and> k \<notin> finding_key_of tenant b ` set (fb_findings b) \<longrightarrow>
      rows_of k (fd_resources db') = rows_of k (fd_resources db) \<and>
      rows_of k (fd_compliance db') = rows_of k (fd_compliance db) \<and>
      (\<forall>run. map_of (fd_observations db') (k, run) = map_of (fd_observations db) (k, run)) \<and>
      (\<exists>r'. map_of (fd_findings db') k = Some r' \<and>
        (if fb_authoritative b \<and> (\<forall>c\<in>set (bh_coverage b). cov_state c = COMPLETE) \<and> finding_source k r = batch_source tenant b \<and>
           fr_state r \<in> {FS_OPEN, FS_UNKNOWN} \<and> fr_run r \<noteq> bh_run_id b
         then r' = r\<lparr>fr_state := FS_RESOLVED, fr_evaluation_result := ER_UNKNOWN,
           fr_resolution_reason := Some ''absent_from_authoritative_snapshot'', fr_last_changed_at := collected b\<rparr>
         else r' = r)))"
proof (intro conjI ballI allI impI)
  have fst: "fst (ingest_findings tenant b db) = db'" using assms(2) by simp
  have uids: "distinct (map fa_source_uid (fb_findings b))" using assms(1) by (simp add: new_FindingBatch_ok)
  fix k assume "map_of (fd_findings db) k = None \<and> k \<notin> finding_key_of tenant b ` set (fb_findings b)"
  then show "map_of (fd_findings db') k = None"
    using ingest_findings_at [OF uids, of k tenant db] unfolding fst by (simp add: reported_None [symmetric])
next
  have fst: "fst (ingest_findings tenant b db) = db'" using assms(2) by simp
  have uids: "distinct (map fa_source_uid (fb_findings b))" using assms(1) by (simp add: new_FindingBatch_ok)
  note at = ingest_findings_at [OF uids, of _ tenant db, unfolded fst]
  fix f assume "f \<in> set (fb_findings b)"
  then have "reported tenant b (fb_findings b) (finding_key_of tenant b f) = Some f" by (rule reported_member [OF uids])
  then show "let k = finding_key_of tenant b f; old = map_of (fd_findings db) k in
      if fa_evaluation_result f = PASS \<and> old = None then map_of (fd_findings db') k = None
      else \<exists>r. map_of (fd_findings db') k = Some r \<and> row_reports b f r \<and>
        fr_first_seen_at r = (case old of None \<Rightarrow> collected b | Some o1 \<Rightarrow> fr_first_seen_at o1) \<and>
        fr_last_changed_at r = (case old of None \<Rightarrow> collected b
          | Some o1 \<Rightarrow> if same_content o1 r then fr_last_changed_at o1 else collected b) \<and>
        rows_of k (fd_resources db') = fa_affected_resources f \<and>
        rows_of k (fd_compliance db') = concat (map (\<lambda>(framework, controls). map (Pair framework) controls) (fa_compliance f)) \<and>
        (\<exists>ob. map_of (fd_observations db') (k, bh_run_id b) = Some ob \<and> observation_reports b f ob)"
    using at [of "finding_key_of tenant b f"]
    by (auto simp: skipped_pass_def stored_at_def same_at_def stored_row_reports compliance_rows_def Let_def split: option.splits if_splits)
next
  have fst: "fst (ingest_findings tenant b db) = db'" using assms(2) by simp
  have uids: "distinct (map fa_source_uid (fb_findings b))" using assms(1) by (simp add: new_FindingBatch_ok)
  fix k r
  assume "map_of (fd_findings db) k = Some r \<and> k \<notin> finding_key_of tenant b ` set (fb_findings b)"
  then have r: "map_of (fd_findings db) k = Some r" "reported tenant b (fb_findings b) k = None" by (simp_all add: reported_None)
  then have at: "rows_of k (fd_resources db') = rows_of k (fd_resources db)" "rows_of k (fd_compliance db') = rows_of k (fd_compliance db)"
    "\<And>run. map_of (fd_observations db') (k, run) = map_of (fd_observations db) (k, run)"
    "map_of (fd_findings db') k = Some (if finding_may_resolve_missing b \<and> finding_missing tenant b k r then resolved_finding (collected b) r else r)"
    using ingest_findings_at [OF uids, of k tenant db] unfolding fst by (simp_all add: same_at_def)
  show "rows_of k (fd_resources db') = rows_of k (fd_resources db)" "rows_of k (fd_compliance db') = rows_of k (fd_compliance db)"
    "\<And>run. map_of (fd_observations db') (k, run) = map_of (fd_observations db) (k, run)"
    by (rule at)+
  show "\<exists>r'. map_of (fd_findings db') k = Some r' \<and>
        (if fb_authoritative b \<and> (\<forall>c\<in>set (bh_coverage b). cov_state c = COMPLETE) \<and> finding_source k r = batch_source tenant b \<and>
           fr_state r \<in> {FS_OPEN, FS_UNKNOWN} \<and> fr_run r \<noteq> bh_run_id b
         then r' = r\<lparr>fr_state := FS_RESOLVED, fr_evaluation_result := ER_UNKNOWN,
           fr_resolution_reason := Some ''absent_from_authoritative_snapshot'', fr_last_changed_at := collected b\<rparr>
         else r' = r)"
    using at(4) by (auto simp: finding_may_resolve_missing_def list_all_iff finding_missing_def finding_current_def resolved_finding_def)
qed

section \<open>A sample\<close>

definition scan_evidence :: evidence where
  "scan_evidence = \<lparr>ev_source_type = ''scan'', ev_locator = ''x'', ev_observed_at = Aware 5 0, ev_payload = []\<rparr>"

definition scan_finding :: "string \<Rightarrow> finding_assertion" where
  "scan_finding uid = \<lparr>fa_source_uid = uid, fa_rule_uid = ''r'', fa_title = ''open port'', fa_description = None, fa_risk = None,
     fa_remediation = None, fa_remediation_references = [], fa_severity = HIGH, fa_state = FS_OPEN, fa_evaluation_result = FAIL,
     fa_class_uid = 2003, fa_class_name = ''c'', fa_observed_at = Aware 5 0, fa_evidence = scan_evidence,
     fa_affected_resources = [], fa_compliance = [], fa_attributes = []\<rparr>"

definition scan_findings :: "string \<Rightarrow> string list \<Rightarrow> finding_batch" where
  "scan_findings run uids = \<lparr>bh_connector_id = ''c'', bh_connection_id = ''n'', bh_run_id = run, bh_scope_key = ''s'',
     bh_collected_at = Aware 5 0, bh_coverage = [\<lparr>cov_plane = ''p'', cov_state = COMPLETE, cov_scope = ''s'', cov_detail = None\<rparr>],
     fb_findings = map scan_finding uids, fb_authoritative = True\<rparr>"

definition no_findings :: finding_db where
  "no_findings = \<lparr>fd_inventory = \<lparr>db_runs = [], db_coverage = [], db_assets = [], db_assertions = [], db_relations = []\<rparr>,
     fd_findings = [], fd_resources = [], fd_compliance = [], fd_observations = []\<rparr>"

definition scanned :: finding_db where
  "scanned = fst (ingest_findings ''t'' (scan_findings ''r1'' [''a'', ''b'']) no_findings)"

theorem findings_reconciled_witness:
  "\<exists>r. map_of (fd_findings (fst (ingest_findings ''t'' (scan_findings ''r2'' [''b'']) scanned))) (''t'', ''c'', ''n'', ''a'') = Some r \<and>
     fr_state r = FS_RESOLVED \<and>
     (\<exists>r'. map_of (fd_findings (fst (ingest_findings ''t'' (scan_findings ''r2'' [''b'']) scanned))) (''t'', ''c'', ''n'', ''b'') = Some r' \<and>
       row_reports (scan_findings ''r2'' [''b'']) (scan_finding ''b'') r')"
proof -
  let ?b = "scan_findings ''r2'' [''b'']" and ?k = "(''t'', ''c'', ''n'', ''a'')"
  have ok: "new_FindingBatch ?b = Inr ?b" by code_simp
  obtain db' n m where run: "ingest_findings ''t'' ?b scanned = (db', n, m)" by (metis prod_cases3)
  define r where "r = the (map_of (fd_findings scanned) ?k)"
  have "map_of (fd_findings scanned) ?k \<noteq> None" "finding_source ?k (the (map_of (fd_findings scanned) ?k)) = batch_source ''t'' ?b"
    "fr_state (the (map_of (fd_findings scanned) ?k)) = FS_OPEN" "fr_run (the (map_of (fd_findings scanned) ?k)) = ''r1''"
    by code_simp+
  then have r: "map_of (fd_findings scanned) ?k = Some r" "finding_source ?k r = batch_source ''t'' ?b"
    "fr_state r = FS_OPEN" "fr_run r = ''r1''"
    unfolding r_def by (simp_all add: option.expand)
  have new: "?k \<notin> finding_key_of ''t'' ?b ` set (fb_findings ?b)" by (simp add: scan_findings_def scan_finding_def finding_key_of_def)
  have "fb_authoritative ?b \<and> (\<forall>c\<in>set (bh_coverage ?b). cov_state c = COMPLETE)" "bh_run_id ?b = ''r2''"
    by (simp_all add: scan_findings_def)
  moreover have "\<exists>r'. map_of (fd_findings db') (''t'', ''c'', ''n'', ''b'') = Some r' \<and> row_reports ?b (scan_finding ''b'') r'"
    using bspec [OF conjunct1 [OF conjunct2 [OF findings_reconciled [OF ok run]]], of "scan_finding ''b''"]
    by (auto simp: scan_findings_def scan_finding_def finding_key_of_def Let_def)
  ultimately show ?thesis
    using conjunct2 [OF conjunct2 [OF findings_reconciled [OF ok run]], rule_format, OF conjI [OF r(1) new]] r(2-4) run by auto
qed

end
