(* ===== verification/Ingest_Vulnerabilities.thy ===== *)
theory Ingest_Vulnerabilities
  imports Ingest_Findings Vulnerabilities
begin

text \<open>
  \<open>PostgresInventoryRepository.ingest_vulnerabilities\<close> of \<open>src/denali/store/repository.py\<close>: vulnerabilities and
  the observations of each scanner, the withdrawal of observations, the links to inventory assets, which
  \<open>ingest\<close> refreshes too, and the state derived from the observations. The \<open>id\<close> of a vulnerability is its
  unique key (tenant and canonical key). \<open>pg_text\<close> is the text of a JSON value that is no string.
\<close>

section \<open>The tables\<close>

type_synonym vulnerability_key = "string \<times> string"

record vulnerability_row =
  vr_vulnerability_id :: string
  vr_component :: asset_ref
  vr_component_asset :: "asset_id option"
  vr_target :: asset_ref
  vr_target_asset :: "asset_id option"
  vr_state :: finding_state
  vr_resolution_reason :: "string option"
  vr_first_seen_at :: int
  vr_last_seen_at :: int
  vr_last_changed_at :: int

record observation_row =
  ob_vulnerability :: vulnerability_key
  ob_scope_key :: string
  ob_aliases :: "string list"
  ob_title :: "string option"
  ob_description :: "string option"
  ob_severity :: finding_severity
  ob_state :: finding_state
  ob_cvss_score :: "pyfloat option"
  ob_cvss_vector :: "string option"
  ob_fix_state :: fix_state
  ob_fixed_versions :: "string list"
  ob_exploit_state :: exploit_state
  ob_match_method :: match_method
  ob_match_confidence :: pyfloat
  ob_database_version :: "string option"
  ob_database_built_at :: "int option"
  ob_source_observed_at :: int
  ob_evidence :: evidence
  ob_attributes :: attrs
  ob_first_seen_at :: int
  ob_last_seen_at :: int
  ob_run :: string
  ob_withdrawn_at :: "int option"

record scan_row =
  sc_target :: asset_ref
  sc_target_asset :: "asset_id option"
  sc_artifact_kind :: string
  sc_artifact_locator :: string
  sc_artifact_digest :: "string option"
  sc_source_observed_at :: int
  sc_evidence :: evidence

record vulnerability_db = finding_db +
  vd_vulnerabilities :: "(vulnerability_key, vulnerability_row) table"
  vd_observations :: "(finding_key, observation_row) table"
  vd_scans :: "(run_key, scan_row) table"

section \<open>Statements\<close>

text \<open>\<open>SELECT id FROM asset WHERE tenant_id = ... AND kind = ... AND natural_key = ...\<close>.\<close>

definition asset_id_of :: "string \<Rightarrow> asset_ref \<Rightarrow> inv_db \<Rightarrow> asset_id option" where
  "asset_id_of tenant ref db = (case map_of (db_assets db) (tenant, ref) of None \<Rightarrow> None | Some r \<Rightarrow> Some (tenant, ref))"

definition upsert_vulnerability_scan :: "string \<Rightarrow> vulnerability_batch \<Rightarrow> 'b vulnerability_db_scheme \<Rightarrow> 'b vulnerability_db_scheme" where
  "upsert_vulnerability_scan tenant b db = (case vb_scan_subject b of
     None \<Rightarrow> db
   | Some s \<Rightarrow> db\<lparr>vd_scans := upsert (batch_run tenant b) (\<lambda>_. \<lparr>sc_target = ss_target s,
       sc_target_asset = asset_id_of tenant (ss_target s) (fd_inventory db), sc_artifact_kind = ss_artifact_kind s,
       sc_artifact_locator = ss_artifact_locator s, sc_artifact_digest = ss_artifact_digest s,
       sc_source_observed_at = instant (ev_observed_at (ss_evidence s)), sc_evidence = ss_evidence s\<rparr>) (vd_scans db)\<rparr>)"

definition vulnerability_key_of :: "string \<Rightarrow> vulnerability_assertion \<Rightarrow> vulnerability_key" where
  "vulnerability_key_of tenant v = (tenant, vulnerability_canonical_key v)"

text \<open>\<open>COALESCE(old, new)\<close>.\<close>

definition coalesce :: "'a option \<Rightarrow> 'a option \<Rightarrow> 'a option" where
  "coalesce x y = (case x of None \<Rightarrow> y | Some a \<Rightarrow> Some a)"

definition vulnerability_row_of ::
    "string \<Rightarrow> inv_db \<Rightarrow> vulnerability_batch \<Rightarrow> vulnerability_assertion \<Rightarrow> vulnerability_row option \<Rightarrow> vulnerability_row" where
  "vulnerability_row_of tenant assets b v old =
     (let component = asset_id_of tenant (va_component v) assets; target = asset_id_of tenant (va_target v) assets in case old of
        None \<Rightarrow> \<lparr>vr_vulnerability_id = va_vulnerability_id v, vr_component = va_component v, vr_component_asset = component,
          vr_target = va_target v, vr_target_asset = target, vr_state = va_state v,
          vr_resolution_reason = (if va_state v = FS_RESOLVED then Some ''source_status'' else None),
          vr_first_seen_at = collected b, vr_last_seen_at = collected b, vr_last_changed_at = collected b\<rparr>
      | Some r \<Rightarrow> r\<lparr>vr_component_asset := coalesce (vr_component_asset r) component,
          vr_target_asset := coalesce (vr_target_asset r) target, vr_last_seen_at := max (vr_last_seen_at r) (collected b)\<rparr>)"

definition upsert_vulnerability ::
    "string \<Rightarrow> vulnerability_batch \<Rightarrow> vulnerability_assertion \<Rightarrow> 'b vulnerability_db_scheme \<Rightarrow> 'b vulnerability_db_scheme" where
  "upsert_vulnerability tenant b v db = db\<lparr>vd_vulnerabilities :=
     upsert (vulnerability_key_of tenant v) (vulnerability_row_of tenant (fd_inventory db) b v) (vd_vulnerabilities db)\<rparr>"

definition observation_key_of :: "string \<Rightarrow> vulnerability_batch \<Rightarrow> vulnerability_assertion \<Rightarrow> finding_key" where
  "observation_key_of tenant b v = (tenant, bh_connector_id b, bh_connection_id b, va_source_uid v)"

definition observation_row_of ::
    "string \<Rightarrow> vulnerability_batch \<Rightarrow> vulnerability_assertion \<Rightarrow> observation_row option \<Rightarrow> observation_row" where
  "observation_row_of tenant b v old = \<lparr>ob_vulnerability = vulnerability_key_of tenant v, ob_scope_key = bh_scope_key b,
     ob_aliases = va_aliases v, ob_title = va_title v, ob_description = va_description v, ob_severity = va_severity v,
     ob_state = va_state v, ob_cvss_score = va_cvss_score v, ob_cvss_vector = va_cvss_vector v, ob_fix_state = va_fix_state v,
     ob_fixed_versions = va_fixed_versions v, ob_exploit_state = va_exploit_state v, ob_match_method = va_match_method v,
     ob_match_confidence = va_match_confidence v, ob_database_version = va_database_version v,
     ob_database_built_at = map_option instant (va_database_built_at v), ob_source_observed_at = instant (va_observed_at v),
     ob_evidence = va_evidence v, ob_attributes = va_attributes v,
     ob_first_seen_at = (case old of None \<Rightarrow> collected b | Some r \<Rightarrow> ob_first_seen_at r), ob_last_seen_at = collected b,
     ob_run = bh_run_id b, ob_withdrawn_at = None\<rparr>"

definition upsert_vulnerability_observation ::
    "string \<Rightarrow> vulnerability_batch \<Rightarrow> vulnerability_assertion \<Rightarrow> 'b vulnerability_db_scheme \<Rightarrow> 'b vulnerability_db_scheme" where
  "upsert_vulnerability_observation tenant b v db = db\<lparr>vd_observations :=
     upsert (observation_key_of tenant b v) (observation_row_of tenant b v) (vd_observations db)\<rparr>"

definition observation_active :: "observation_row \<Rightarrow> bool" where
  "observation_active r \<longleftrightarrow> ob_withdrawn_at r = None"

definition observation_source :: "finding_key \<Rightarrow> observation_row \<Rightarrow> source_key" where
  "observation_source k r = (case k of (tenant, connector, connection, uid) \<Rightarrow> (tenant, connector, connection, ob_scope_key r))"

definition withdraw_observation :: "int \<Rightarrow> observation_row \<Rightarrow> observation_row" where
  "withdraw_observation t r = r\<lparr>ob_withdrawn_at := Some t\<rparr>"

definition observation_missing :: "string \<Rightarrow> vulnerability_batch \<Rightarrow> finding_key \<Rightarrow> observation_row \<Rightarrow> bool" where
  "observation_missing tenant b k r \<longleftrightarrow>
     observation_source k r = batch_source tenant b \<and> observation_active r \<and> ob_run r \<noteq> bh_run_id b"

definition withdraw_missing_observations ::
    "string \<Rightarrow> vulnerability_batch \<Rightarrow> 'b vulnerability_db_scheme \<Rightarrow> 'b vulnerability_db_scheme \<times> nat" where
  "withdraw_missing_observations tenant b db =
     (if vulnerability_may_resolve_missing b
      then (db\<lparr>vd_observations := update_where (observation_missing tenant b) (\<lambda>k. withdraw_observation (collected b)) (vd_observations db)\<rparr>,
            count_where (observation_missing tenant b) (vd_observations db))
      else (db, 0))"

section \<open>Links to inventory assets\<close>

text \<open>\<open>v -> k\<close> and \<open>v ->> k\<close>.\<close>

definition json_at :: "pyval option \<Rightarrow> string \<Rightarrow> pyval option" where
  "json_at v k = (case v of Some (PDict d) \<Rightarrow> map_of d k | _ \<Rightarrow> None)"

definition json_text :: "(pyval \<Rightarrow> string) \<Rightarrow> pyval option \<Rightarrow> string \<Rightarrow> string option" where
  "json_text pg_text v k = (case json_at v k of None \<Rightarrow> None | Some PNone \<Rightarrow> None | Some w \<Rightarrow> Some (py_str pg_text w))"

text \<open>\<open>v ? s\<close>.\<close>

definition json_has :: "pyval option \<Rightarrow> string \<Rightarrow> bool" where
  "json_has v s = (case v of Some (PDict d) \<Rightarrow> s \<in> fst ` set d | Some (PList xs) \<Rightarrow> PStr s \<in> set xs | Some w \<Rightarrow> w = PStr s | None \<Rightarrow> False)"

text \<open>Equality of optional texts in SQL: NULL is equal to nothing.\<close>

definition sql_eq :: "string option \<Rightarrow> string option \<Rightarrow> bool" where
  "sql_eq x y \<longleftrightarrow> x \<noteq> None \<and> x = y"

text \<open>Whether the component of an assertion of the inventory is the one an observation names by artifact.\<close>

definition same_component :: "(pyval \<Rightarrow> string) \<Rightarrow> attrs \<Rightarrow> attrs \<Rightarrow> bool" where
  "same_component pg_text assertion observation =
     (let a = json_at (Some (PDict assertion)) ''component''; o1 = json_at (Some (PDict observation)) ''component'' in
      \<not> json_has (Some (PDict observation)) ''component'' \<or>
      sql_eq (json_text pg_text a ''name'') (json_text pg_text o1 ''name'') \<and>
      json_text pg_text a ''version'' = json_text pg_text o1 ''version'' \<and>
      sql_eq (json_text pg_text a ''package_type'') (json_text pg_text o1 ''package_type''))"

definition artifact_match ::
    "(pyval \<Rightarrow> string) \<Rightarrow> vulnerability_row \<Rightarrow> observation_row \<Rightarrow> assertion_row \<Rightarrow> bool" where
  "artifact_match pg_text v obs a =
     (let attributes = Some (PDict (ax_attributes a)); target = json_at (json_at attributes ''component'') ''target'' in
      case json_text pg_text (Some (PDict (ev_payload (ob_evidence obs)))) ''artifact_id'' of
        None \<Rightarrow> False
      | Some artifact \<Rightarrow> json_has (json_at (json_at attributes ''syft'') ''artifact_ids'') artifact \<and>
          json_text pg_text target ''kind'' = Some (asset_kind_value (ar_kind (vr_target v))) \<and>
          json_text pg_text target ''natural_key'' = Some (ar_natural_key (vr_target v)) \<and>
          same_component pg_text (ax_attributes a) (ob_attributes obs))"

text \<open>The assets the second statement joins a vulnerability with.\<close>

definition component_candidates ::
    "(pyval \<Rightarrow> string) \<Rightarrow> 'b vulnerability_db_scheme \<Rightarrow> vulnerability_key \<Rightarrow> vulnerability_row \<Rightarrow> asset_id list" where
  "component_candidates pg_text db k v = concat (map (\<lambda>(ok, obs).
     if fst ok = fst k \<and> ob_vulnerability obs = k \<and> observation_active obs then
       map (ak_asset \<circ> fst) (filter (\<lambda>(ak, a). fst (ak_source ak) = fst k \<and> assertion_active a \<and> artifact_match pg_text v obs a \<and>
         map_of (db_assets (fd_inventory db)) (ak_asset ak) \<noteq> None \<and> fst (ak_asset ak) = fst k \<and>
         ar_kind (snd (ak_asset ak)) = SOFTWARE_COMPONENT) (db_assertions (fd_inventory db)))
     else []) (vd_observations db))"

definition only_one :: "'a list \<Rightarrow> 'a option" where
  "only_one xs = (case remdups xs of [x] \<Rightarrow> Some x | _ \<Rightarrow> None)"

definition relinked :: "'a option \<Rightarrow> 'a option \<Rightarrow> 'a option" where
  "relinked found old = (case found of None \<Rightarrow> old | Some a \<Rightarrow> Some a)"

definition refresh_vulnerability_asset_links ::
    "(pyval \<Rightarrow> string) \<Rightarrow> string \<Rightarrow> 'b vulnerability_db_scheme \<Rightarrow> 'b vulnerability_db_scheme" where
  "refresh_vulnerability_asset_links pg_text tenant db =
     (let inv = fd_inventory db;
          db1 = db\<lparr>vd_vulnerabilities := update_where (\<lambda>k r. fst k = tenant)
            (\<lambda>k v. v\<lparr>vr_component_asset := relinked (asset_id_of tenant (vr_component v) inv) (vr_component_asset v)\<rparr>)
            (vd_vulnerabilities db)\<rparr>;
          db2 = db1\<lparr>vd_vulnerabilities := update_where (\<lambda>k v. fst k = tenant \<and> vr_component_asset v = None)
            (\<lambda>k v. v\<lparr>vr_component_asset := only_one (component_candidates pg_text db1 k v)\<rparr>) (vd_vulnerabilities db1)\<rparr>;
          db3 = db2\<lparr>vd_scans := update_where (\<lambda>k r. fst k = tenant)
            (\<lambda>k s. s\<lparr>sc_target_asset := relinked (asset_id_of tenant (sc_target s) inv) (sc_target_asset s)\<rparr>) (vd_scans db2)\<rparr>
      in db3\<lparr>vd_vulnerabilities := update_where (\<lambda>k r. fst k = tenant)
            (\<lambda>k v. v\<lparr>vr_target_asset := relinked (asset_id_of tenant (vr_target v) inv) (vr_target_asset v)\<rparr>)
            (vd_vulnerabilities db3)\<rparr>)"

section \<open>Derived states\<close>

definition current_observations :: "'b vulnerability_db_scheme \<Rightarrow> vulnerability_key \<Rightarrow> observation_row list" where
  "current_observations db k = map snd (filter (\<lambda>(ok, obs). fst ok = fst k \<and> ob_vulnerability obs = k \<and> observation_active obs)
     (vd_observations db))"

definition current_state :: "observation_row list \<Rightarrow> finding_state" where
  "current_state obs = (if obs = [] then FS_RESOLVED
     else if list_ex (\<lambda>r. ob_state r = FS_OPEN) obs then FS_OPEN
     else if list_ex (\<lambda>r. ob_state r = FS_UNKNOWN) obs then FS_UNKNOWN
     else if list_ex (\<lambda>r. ob_state r = FS_SUPPRESSED) obs then FS_SUPPRESSED
     else FS_RESOLVED)"

definition current_reason :: "observation_row list \<Rightarrow> string option" where
  "current_reason obs = (if obs = [] then Some ''absent_from_authoritative_snapshot''
     else if list_all (\<lambda>r. ob_state r = FS_RESOLVED) obs then Some ''source_status'' else None)"

definition current_last_seen :: "observation_row list \<Rightarrow> int \<Rightarrow> int" where
  "current_last_seen obs old = (case map ob_last_seen_at obs of [] \<Rightarrow> old | t # ts \<Rightarrow> fold max ts t)"

definition refreshed_vulnerability :: "int \<Rightarrow> observation_row list \<Rightarrow> vulnerability_row \<Rightarrow> vulnerability_row" where
  "refreshed_vulnerability changed_at obs v =
     v\<lparr>vr_state := current_state obs, vr_resolution_reason := current_reason obs,
       vr_last_seen_at := current_last_seen obs (vr_last_seen_at v),
       vr_last_changed_at := (if vr_state v \<noteq> current_state obs \<or> vr_resolution_reason v \<noteq> current_reason obs
         then changed_at else vr_last_changed_at v)\<rparr>"

definition refresh_vulnerability_states :: "string \<Rightarrow> int \<Rightarrow> 'b vulnerability_db_scheme \<Rightarrow> 'b vulnerability_db_scheme" where
  "refresh_vulnerability_states tenant changed_at db = db\<lparr>vd_vulnerabilities := update_where (\<lambda>k v. fst k = tenant)
     (\<lambda>k. refreshed_vulnerability changed_at (current_observations db k)) (vd_vulnerabilities db)\<rparr>"

section \<open>The methods\<close>

definition ingest_vulnerability ::
    "string \<Rightarrow> vulnerability_batch \<Rightarrow> vulnerability_assertion \<Rightarrow> 'b vulnerability_db_scheme \<Rightarrow> 'b vulnerability_db_scheme" where
  "ingest_vulnerability tenant b v db = upsert_vulnerability_observation tenant b v (upsert_vulnerability tenant b v db)"

definition observed :: "string \<Rightarrow> vulnerability_batch \<Rightarrow> 'b vulnerability_db_scheme \<Rightarrow> 'b vulnerability_db_scheme" where
  "observed tenant b db = fold (ingest_vulnerability tenant b) (vb_vulnerabilities b)
     (upsert_vulnerability_scan tenant b (db\<lparr>fd_inventory := insert_run tenant b (fd_inventory db)\<rparr>))"

record vulnerability_result =
  vi_observations :: nat
  vi_vulnerabilities :: nat
  vi_resolved_missing :: nat

definition ingest_vulnerabilities ::
    "(pyval \<Rightarrow> string) \<Rightarrow> string \<Rightarrow> vulnerability_batch \<Rightarrow> 'b vulnerability_db_scheme \<Rightarrow> 'b vulnerability_db_scheme \<times> vulnerability_result" where
  "ingest_vulnerabilities pg_text tenant b db =
     (let (db1, missing) = withdraw_missing_observations tenant b (observed tenant b db)
      in (refresh_vulnerability_states tenant (collected b) (refresh_vulnerability_asset_links pg_text tenant db1),
          \<lparr>vi_observations = length (vb_vulnerabilities b),
           vi_vulnerabilities = length (remdups (map (vulnerability_key_of tenant) (vb_vulnerabilities b))),
           vi_resolved_missing = missing\<rparr>))"

text \<open>\<open>ingest\<close> with its last statement.\<close>

definition ingest_linked :: "(pyval \<Rightarrow> string) \<Rightarrow> string \<Rightarrow> inventory_batch \<Rightarrow> 'b vulnerability_db_scheme \<Rightarrow> 'b vulnerability_db_scheme \<times> ingest_result" where
  "ingest_linked pg_text tenant b db =
     (let (inv, r) = ingest tenant b (fd_inventory db)
      in (refresh_vulnerability_asset_links pg_text tenant (db\<lparr>fd_inventory := inv\<rparr>), r))"

interpretation observations_snapshot: snapshot_table observation_source ob_run observation_active "withdraw_observation t" for t
  by unfold_locales (auto simp: observation_source_def observation_active_def withdraw_observation_def)

end
