(* ===== verification/Ingest_Vulnerabilities_Props.thy ===== *)
theory Ingest_Vulnerabilities_Props
  imports Ingest_Vulnerabilities
begin

text \<open>
  The observations of a vulnerability after a batch, key by key, the state that follows from them, and the
  links to inventory assets as an invariant of both ingest methods.
\<close>

section \<open>Observations\<close>

definition observed_as :: "string \<Rightarrow> vulnerability_batch \<Rightarrow> finding_key \<Rightarrow> vulnerability_assertion option" where
  "observed_as tenant b ok = find (\<lambda>v. observation_key_of tenant b v = ok) (vb_vulnerabilities b)"

lemma observed_as_Some: "observed_as tenant b ok = Some v \<Longrightarrow> v \<in> set (vb_vulnerabilities b) \<and> observation_key_of tenant b v = ok"
  by (auto simp: observed_as_def find_Some_iff)

lemma observed_as_None: "observed_as tenant b ok = None \<longleftrightarrow> ok \<notin> observation_key_of tenant b ` set (vb_vulnerabilities b)"
  by (auto simp: observed_as_def find_None_iff)

lemma find_distinct: "distinct (map key xs) \<Longrightarrow> x \<in> set xs \<Longrightarrow> find (\<lambda>y. key y = key x) xs = Some x"
  by (induction xs) (auto simp: image_iff)

lemma observed_as_member:
  assumes "distinct (map va_source_uid (vb_vulnerabilities b))" "v \<in> set (vb_vulnerabilities b)"
  shows "observed_as tenant b (observation_key_of tenant b v) = Some v"
proof -
  have "distinct (map (observation_key_of tenant b) (vb_vulnerabilities b))"
    using assms(1) by (auto simp: distinct_map inj_on_def observation_key_of_def)
  then show ?thesis unfolding observed_as_def by (rule find_distinct) (rule assms(2))
qed

lemma fold_upsert_found:
  assumes "distinct (map key xs)"
  shows "map_of (fold (\<lambda>x. upsert (key x) (f x)) xs t) k = (case find (\<lambda>x. key x = k) xs of
    Some x \<Rightarrow> Some (f x (map_of t k)) | None \<Rightarrow> map_of t k)"
  using assms
proof (induction xs arbitrary: t)
  case (Cons x xs)
  show ?case
  proof (cases "key x = k")
    case True
    then have "find (\<lambda>y. key y = k) xs = None" using Cons.prems by (auto simp: find_None_iff image_iff)
    then show ?thesis using Cons.IH [of "upsert (key x) (f x) t"] Cons.prems True by (simp add: table_simps)
  next
    case False
    then have "map_of (upsert (key x) (f x) t) k = map_of t k" by (simp add: table_simps)
    then show ?thesis using Cons.IH [of "upsert (key x) (f x) t"] Cons.prems False by (simp split: option.split)
  qed
qed simp

lemma ingest_observations:
  "vd_observations (fold (ingest_vulnerability tenant b) vs db) =
     fold (\<lambda>v. upsert (observation_key_of tenant b v) (observation_row_of tenant b v)) vs (vd_observations db)"
  by (induction vs arbitrary: db) (simp_all add: ingest_vulnerability_def upsert_vulnerability_observation_def upsert_vulnerability_def)

lemma scan_keeps [simp]:
  "vd_observations (upsert_vulnerability_scan tenant b db) = vd_observations db"
  "vd_vulnerabilities (upsert_vulnerability_scan tenant b db) = vd_vulnerabilities db"
  "fd_inventory (upsert_vulnerability_scan tenant b db) = fd_inventory db"
  by (simp_all add: upsert_vulnerability_scan_def split: option.split)

definition dropped :: "string \<Rightarrow> vulnerability_batch \<Rightarrow> finding_key \<Rightarrow> observation_row \<Rightarrow> bool" where
  "dropped tenant b ok r \<longleftrightarrow> vulnerability_may_resolve_missing b \<and> observation_missing tenant b ok r"

lemma withdraw_at:
  "map_of (vd_observations (fst (withdraw_missing_observations tenant b db))) ok =
     map_option (\<lambda>r. if dropped tenant b ok r then withdraw_observation (collected b) r else r) (map_of (vd_observations db) ok)"
  by (auto simp: withdraw_missing_observations_def table_simps dropped_def option.map_ident)

lemma own_observation: "\<not> dropped tenant b ok (observation_row_of tenant b v old)"
  by (simp add: dropped_def observation_missing_def observation_row_of_def)

lemma links_keep [simp]:
  "vd_observations (refresh_vulnerability_asset_links pg tenant db) = vd_observations db"
  "fd_inventory (refresh_vulnerability_asset_links pg tenant db) = fd_inventory db"
  by (simp_all add: refresh_vulnerability_asset_links_def Let_def)

abbreviation withdrawn :: "string \<Rightarrow> vulnerability_batch \<Rightarrow> 'b vulnerability_db_scheme \<Rightarrow> 'b vulnerability_db_scheme" where
  "withdrawn tenant b db \<equiv> fst (withdraw_missing_observations tenant b (observed tenant b db))"

lemma ingest_vulnerabilities_fst:
  "fst (ingest_vulnerabilities pg tenant b db) = refresh_vulnerability_states tenant (collected b)
     (refresh_vulnerability_asset_links pg tenant (withdrawn tenant b db))"
  by (simp add: ingest_vulnerabilities_def split_beta)

lemma observations_after:
  assumes "distinct (map va_source_uid (vb_vulnerabilities b))"
  shows "map_of (vd_observations (withdrawn tenant b db)) ok = (case observed_as tenant b ok of
      Some v \<Rightarrow> Some (observation_row_of tenant b v (map_of (vd_observations db) ok))
    | None \<Rightarrow> map_option (\<lambda>r. if dropped tenant b ok r then withdraw_observation (collected b) r else r) (map_of (vd_observations db) ok))"
proof -
  have keys: "distinct (map (observation_key_of tenant b) (vb_vulnerabilities b))"
    using assms by (auto simp: distinct_map inj_on_def observation_key_of_def)
  show ?thesis
    unfolding withdraw_at observed_def ingest_observations fold_upsert_found [OF keys] observed_as_def
    by (simp add: own_observation split: option.split)
qed

lemma observation_keys:
  assumes "distinct (map fst (vd_observations db))"
  shows "distinct (map fst (vd_observations (withdrawn tenant b db)))"
proof -
  have "distinct (map fst (vd_observations (observed tenant b db)))"
    using assms unfolding observed_def ingest_observations by (simp add: distinct_fold_upsert)
  then show ?thesis by (simp add: withdraw_missing_observations_def)
qed

text \<open>The observations that count after the batch.\<close>

definition still_observed :: "string \<Rightarrow> vulnerability_batch \<Rightarrow> 'b vulnerability_db_scheme \<Rightarrow> vulnerability_key \<Rightarrow> finding_state \<Rightarrow> bool" where
  "still_observed tenant b db k s \<longleftrightarrow>
     (\<exists>v\<in>set (vb_vulnerabilities b). vulnerability_key_of tenant v = k \<and> va_state v = s) \<or>
     (\<exists>ok r. map_of (vd_observations db) ok = Some r \<and> fst ok = tenant \<and> ok \<notin> observation_key_of tenant b ` set (vb_vulnerabilities b) \<and>
        ob_vulnerability r = k \<and> ob_withdrawn_at r = None \<and> ob_state r = s \<and>
        \<not> (vb_authoritative b \<and> (\<forall>c\<in>set (bh_coverage b). cov_state c = COMPLETE) \<and>
           observation_source ok r = batch_source tenant b \<and> ob_run r \<noteq> bh_run_id b))"

lemma current_after:
  assumes "distinct (map va_source_uid (vb_vulnerabilities b))" "distinct (map fst (vd_observations db))" "fst k = tenant"
  shows "(\<exists>r\<in>set (current_observations (withdrawn tenant b db) k). ob_state r = s) \<longleftrightarrow> still_observed tenant b db k s"
proof -
  have "(\<exists>r\<in>set (current_observations (withdrawn tenant b db) k). ob_state r = s) \<longleftrightarrow>
      (\<exists>ok r. map_of (vd_observations (withdrawn tenant b db)) ok = Some r \<and> fst ok = tenant \<and> ob_vulnerability r = k \<and>
        observation_active r \<and> ob_state r = s)"
    using observation_keys [OF assms(2), of tenant b] assms(3) by (force simp: current_observations_def map_of_eq_Some_iff)
  also have "\<dots> \<longleftrightarrow> still_observed tenant b db k s"
  proof
    assume "\<exists>ok r. map_of (vd_observations (withdrawn tenant b db)) ok = Some r \<and> fst ok = tenant \<and> ob_vulnerability r = k \<and>
        observation_active r \<and> ob_state r = s"
    then obtain ok r where r: "map_of (vd_observations (withdrawn tenant b db)) ok = Some r" "fst ok = tenant"
      "ob_vulnerability r = k" "observation_active r" "ob_state r = s" by blast
    show "still_observed tenant b db k s"
    proof (cases "observed_as tenant b ok")
      case None
      then obtain r0 where r0: "map_of (vd_observations db) ok = Some r0"
        "r = (if dropped tenant b ok r0 then withdraw_observation (collected b) r0 else r0)"
        using r(1) unfolding observations_after [OF assms(1)] by auto
      have "\<not> dropped tenant b ok r0"
        using r(4) unfolding r0(2) by (simp add: observation_active_def withdraw_observation_def split: if_splits)
      then have kept: "r = r0" "\<not> dropped tenant b ok r" using r0(2) by simp_all
      then have "\<not> (vb_authoritative b \<and> (\<forall>c\<in>set (bh_coverage b). cov_state c = COMPLETE) \<and>
           observation_source ok r = batch_source tenant b \<and> ob_run r \<noteq> bh_run_id b)"
        using r(4) unfolding dropped_def observation_missing_def vulnerability_may_resolve_missing_def list_all_iff by blast
      moreover have "map_of (vd_observations db) ok = Some r" "ob_withdrawn_at r = None"
        using r0(1) kept(1) r(4) by (simp_all add: observation_active_def)
      moreover have "ok \<notin> observation_key_of tenant b ` set (vb_vulnerabilities b)" using None [unfolded observed_as_None] .
      ultimately show ?thesis using r(2,3,5) unfolding still_observed_def by blast
    next
      case (Some v)
      then show ?thesis using r observed_as_Some [OF Some] unfolding observations_after [OF assms(1)] still_observed_def
        by (intro disjI1 bexI [of _ v]) (auto simp: observation_row_of_def)
    qed
  next
    assume "still_observed tenant b db k s"
    then consider (new) v where "v \<in> set (vb_vulnerabilities b)" "vulnerability_key_of tenant v = k" "va_state v = s"
      | (old) ok r where "map_of (vd_observations db) ok = Some r" "fst ok = tenant" "observed_as tenant b ok = None"
        "ob_vulnerability r = k" "ob_withdrawn_at r = None" "ob_state r = s" "\<not> dropped tenant b ok r"
      unfolding still_observed_def observed_as_None dropped_def observation_missing_def observation_active_def
        vulnerability_may_resolve_missing_def list_all_iff by blast
    then show "\<exists>ok r. map_of (vd_observations (withdrawn tenant b db)) ok = Some r \<and> fst ok = tenant \<and> ob_vulnerability r = k \<and>
        observation_active r \<and> ob_state r = s"
    proof cases
      case new
      then show ?thesis unfolding observations_after [OF assms(1)]
        by (intro exI [of _ "observation_key_of tenant b v"])
          (simp add: observed_as_member [OF assms(1)] observation_row_of_def observation_active_def, simp add: observation_key_of_def)
    next
      case old
      then show ?thesis unfolding observations_after [OF assms(1)]
        by (intro exI [of _ ok]) (simp add: observation_active_def)
    qed
  qed
  finally show ?thesis .
qed

section \<open>States\<close>

lemma current_state_iff:
  "current_state obs = FS_OPEN \<longleftrightarrow> (\<exists>r\<in>set obs. ob_state r = FS_OPEN)"
  "current_state obs = FS_UNKNOWN \<longleftrightarrow> (\<exists>r\<in>set obs. ob_state r = FS_UNKNOWN) \<and> \<not> (\<exists>r\<in>set obs. ob_state r = FS_OPEN)"
  "current_state obs = FS_SUPPRESSED \<longleftrightarrow> (\<exists>r\<in>set obs. ob_state r = FS_SUPPRESSED) \<and>
     \<not> (\<exists>r\<in>set obs. ob_state r = FS_OPEN) \<and> \<not> (\<exists>r\<in>set obs. ob_state r = FS_UNKNOWN)"
  by (auto simp: current_state_def list_ex_iff)

lemma current_reason_iff:
  "current_reason obs = Some ''absent_from_authoritative_snapshot'' \<longleftrightarrow> (\<forall>s. \<not> (\<exists>r\<in>set obs. ob_state r = s))"
  by (cases obs) (auto simp: current_reason_def)

lemma current_observations_links [simp]:
  "current_observations (refresh_vulnerability_asset_links pg tenant db) = current_observations db"
  by (simp add: current_observations_def fun_eq_iff)

lemma vulnerability_after:
  assumes "map_of (vd_vulnerabilities (fst (ingest_vulnerabilities pg tenant b db))) k = Some v" "fst k = tenant"
  shows "\<exists>v0. v = refreshed_vulnerability (collected b) (current_observations (withdrawn tenant b db) k) v0"
  using assms by (auto simp: ingest_vulnerabilities_fst refresh_vulnerability_states_def table_simps)

lemma row_state:
  "vr_state (refreshed_vulnerability t obs v) = current_state obs"
  "vr_resolution_reason (refreshed_vulnerability t obs v) = current_reason obs"
  by (simp_all add: refreshed_vulnerability_def)

lemma vulnerability_keys:
  "map_of (vd_vulnerabilities (refresh_vulnerability_states tenant t db)) k = None \<longleftrightarrow> map_of (vd_vulnerabilities db) k = None"
  "map_of (vd_vulnerabilities (refresh_vulnerability_asset_links pg tenant db)) k = None \<longleftrightarrow> map_of (vd_vulnerabilities db) k = None"
  "map_of (vd_vulnerabilities (fst (withdraw_missing_observations tenant b db))) k = map_of (vd_vulnerabilities db) k"
  by (simp_all add: refresh_vulnerability_states_def refresh_vulnerability_asset_links_def withdraw_missing_observations_def
      table_simps Let_def)

lemma ingest_vulnerability_keys:
  "map_of (vd_vulnerabilities (fold (ingest_vulnerability tenant b) vs db)) k = None \<longleftrightarrow>
     map_of (vd_vulnerabilities db) k = None \<and> k \<notin> vulnerability_key_of tenant ` set vs"
  by (induction vs arbitrary: db)
    (auto simp: ingest_vulnerability_def upsert_vulnerability_def upsert_vulnerability_observation_def table_simps)

lemma ingest_vulnerability_inventory [simp]:
  "fd_inventory (fold (ingest_vulnerability tenant b) vs db) = fd_inventory db"
  by (induction vs arbitrary: db) (simp_all add: ingest_vulnerability_def upsert_vulnerability_def upsert_vulnerability_observation_def)

lemma withdraw_inventory [simp]: "fd_inventory (fst (withdraw_missing_observations tenant b db)) = fd_inventory db"
  by (simp add: withdraw_missing_observations_def)

lemma states_inventory [simp]: "fd_inventory (refresh_vulnerability_states tenant t db) = fd_inventory db"
  by (simp add: refresh_vulnerability_states_def)

section \<open>Links\<close>

definition has_asset :: "inv_db \<Rightarrow> asset_id \<Rightarrow> bool" where
  "has_asset assets i \<longleftrightarrow> map_of (db_assets assets) i \<noteq> None"

lemma asset_id_of_iff: "asset_id_of tenant ref assets = (if has_asset assets (tenant, ref) then Some (tenant, ref) else None)"
  by (auto simp: asset_id_of_def has_asset_def split: option.split)

text \<open>Every link names an existing asset of the tenant of the vulnerability.\<close>

definition link_ok :: "inv_db \<Rightarrow> vulnerability_key \<Rightarrow> vulnerability_row \<Rightarrow> bool" where
  "link_ok assets k v \<longleftrightarrow> (\<forall>i. vr_component_asset v = Some i \<longrightarrow> fst i = fst k \<and> has_asset assets i) \<and>
     (\<forall>i. vr_target_asset v = Some i \<longrightarrow> fst i = fst k \<and> has_asset assets i)"

definition links_ok :: "'b vulnerability_db_scheme \<Rightarrow> bool" where
  "links_ok db \<longleftrightarrow> (\<forall>k v. map_of (vd_vulnerabilities db) k = Some v \<longrightarrow> link_ok (fd_inventory db) k v)"

lemma only_one_in: "only_one xs = Some x \<Longrightarrow> x \<in> set xs"
  by (cases "remdups xs") (auto simp: only_one_def split: list.splits dest!: arg_cong [of _ _ set])

lemma candidates_exist:
  "i \<in> set (component_candidates pg db k v) \<Longrightarrow> fst i = fst k \<and> has_asset (fd_inventory db) i \<and> ar_kind (snd i) = SOFTWARE_COMPONENT"
  by (auto simp: component_candidates_def has_asset_def split: if_splits)

text \<open>One row through the refresh.\<close>

definition linked_row :: "(pyval \<Rightarrow> string) \<Rightarrow> 'b vulnerability_db_scheme \<Rightarrow> vulnerability_key \<Rightarrow> vulnerability_row \<Rightarrow> vulnerability_row \<Rightarrow> bool" where
  "linked_row pg db k v v' \<longleftrightarrow> vr_target v' = vr_target v \<and> vr_component v' = vr_component v \<and>
     vr_target_asset v' = (if has_asset (fd_inventory db) (fst k, vr_target v) then Some (fst k, vr_target v) else vr_target_asset v) \<and>
     (if has_asset (fd_inventory db) (fst k, vr_component v) then vr_component_asset v' = Some (fst k, vr_component v)
      else if vr_component_asset v \<noteq> None then vr_component_asset v' = vr_component_asset v
      else \<forall>i. vr_component_asset v' = Some i \<longrightarrow> fst i = fst k \<and> has_asset (fd_inventory db) i \<and> ar_kind (snd i) = SOFTWARE_COMPONENT)"

definition exact_component :: "inv_db \<Rightarrow> vulnerability_key \<Rightarrow> vulnerability_row \<Rightarrow> vulnerability_row" where
  "exact_component assets k v = v\<lparr>vr_component_asset := relinked (asset_id_of (fst k) (vr_component v) assets) (vr_component_asset v)\<rparr>"

definition artifact_component :: "(pyval \<Rightarrow> string) \<Rightarrow> 'b vulnerability_db_scheme \<Rightarrow> vulnerability_key \<Rightarrow> vulnerability_row \<Rightarrow> vulnerability_row" where
  "artifact_component pg db k v = (if vr_component_asset v = None then v\<lparr>vr_component_asset := only_one (component_candidates pg db k v)\<rparr> else v)"

definition exact_target :: "inv_db \<Rightarrow> vulnerability_key \<Rightarrow> vulnerability_row \<Rightarrow> vulnerability_row" where
  "exact_target assets k v = v\<lparr>vr_target_asset := relinked (asset_id_of (fst k) (vr_target v) assets) (vr_target_asset v)\<rparr>"

lemma candidates_cong [simp]: "component_candidates pg (db\<lparr>vd_vulnerabilities := vs\<rparr>) k v = component_candidates pg db k v"
  by (simp add: component_candidates_def cong: if_cong)

lemma refresh_links_at:
  "map_of (vd_vulnerabilities (refresh_vulnerability_asset_links pg tenant db)) k = map_option (\<lambda>v.
     if fst k = tenant then exact_target (fd_inventory db) k (artifact_component pg db k (exact_component (fd_inventory db) k v)) else v)
     (map_of (vd_vulnerabilities db) k)"
  by (cases "map_of (vd_vulnerabilities db) k")
    (auto simp: refresh_vulnerability_asset_links_def Let_def table_simps exact_target_def artifact_component_def exact_component_def)

lemma refresh_links_row:
  assumes "map_of (vd_vulnerabilities (refresh_vulnerability_asset_links pg tenant db)) k = Some v'"
  shows "\<exists>v. map_of (vd_vulnerabilities db) k = Some v \<and> (if fst k = tenant then linked_row pg db k v v' else v' = v)"
proof -
  obtain v where v: "map_of (vd_vulnerabilities db) k = Some v"
    "v' = (if fst k = tenant then exact_target (fd_inventory db) k (artifact_component pg db k (exact_component (fd_inventory db) k v)) else v)"
    using assms unfolding refresh_links_at by auto
  define v1 where "v1 = exact_component (fd_inventory db) k v"
  have v1: "vr_target v1 = vr_target v" "vr_component v1 = vr_component v" "vr_target_asset v1 = vr_target_asset v"
    "vr_component_asset v1 = (if has_asset (fd_inventory db) (fst k, vr_component v) then Some (fst k, vr_component v)
       else vr_component_asset v)"
    by (simp_all add: v1_def exact_component_def relinked_def asset_id_of_iff)
  have found: "\<forall>i. only_one (component_candidates pg db k v1) = Some i \<longrightarrow>
      fst i = fst k \<and> has_asset (fd_inventory db) i \<and> ar_kind (snd i) = SOFTWARE_COMPONENT"
    by (intro allI impI) (rule candidates_exist [OF only_one_in])
  have "linked_row pg db k v (exact_target (fd_inventory db) k (artifact_component pg db k v1))"
    using v1 found unfolding linked_row_def exact_target_def artifact_component_def relinked_def asset_id_of_iff
    by (cases "vr_component_asset v1 = None") (simp_all split: if_splits)
  then show ?thesis using v by (simp add: v1_def)
qed

lemma linked_row_ok: "linked_row pg db k v v' \<Longrightarrow> link_ok (fd_inventory db) k v \<Longrightarrow> link_ok (fd_inventory db) k v'"
  by (auto simp: linked_row_def link_ok_def split: if_splits)

lemma refresh_links_ok: "links_ok db \<Longrightarrow> links_ok (refresh_vulnerability_asset_links pg tenant db)"
  unfolding links_ok_def using refresh_links_row linked_row_ok by (metis links_keep(2))

section \<open>Assets of the inventory\<close>

text \<open>Ingest never deletes an asset.\<close>

lemma ensure_has: "has_asset db i \<Longrightarrow> has_asset (ensure_asset tenant ref t db) i"
  by (simp add: has_asset_def ensure_asset_def table_simps)

lemma resolve_has: "has_asset (fst st) i \<Longrightarrow> has_asset (fst (resolve_asset tenant b ref st)) i"
  by (simp add: resolve_asset_def split_beta ensure_has)

lemma optional_has: "has_asset db i \<Longrightarrow> has_asset (optional_asset tenant ref t db) i"
  by (simp add: optional_asset_def ensure_has split: option.split)

lemma upsert_has [simp]:
  "has_asset (upsert_asset_assertion tenant b a db) i \<longleftrightarrow> has_asset db i"
  "has_asset (upsert_relationship tenant b r db) i \<longleftrightarrow> has_asset db i"
  by (simp_all add: has_asset_def upsert_asset_assertion_def upsert_relationship_def)

lemma run_has [simp]: "has_asset (insert_run tenant b db) i \<longleftrightarrow> has_asset db i"
  by (simp add: has_asset_def insert_run_def)

lemma assets_has: "has_asset (fst st) i \<Longrightarrow> has_asset (fst (fold (ingest_asset tenant b) as st)) i"
  by (induction as arbitrary: st) (simp_all add: ingest_asset_def split_beta ensure_has)

lemma relationships_has: "has_asset (fst st) i \<Longrightarrow> has_asset (fst (fold (ingest_relationship tenant b) rs st)) i"
  by (induction rs arbitrary: st) (simp_all add: ingest_relationship_def Let_def split_beta resolve_has optional_has)

lemma reconcile_has: "has_asset (fst (fold (reconcile_plane tenant b) cs st)) i \<longleftrightarrow> has_asset (fst st) i"
  by (induction cs arbitrary: st)
    (simp_all add: reconcile_plane_def split_beta has_asset_def withdraw_missing_assets_def withdraw_missing_relationships_def)

lemma refresh_has [simp]: "has_asset (refresh_asset_lifecycle tenant db) i \<longleftrightarrow> has_asset db i"
  by (simp add: has_asset_def refresh_asset_lifecycle_def table_simps)

lemma ingest_has: "has_asset db i \<Longrightarrow> has_asset (fst (ingest tenant b db)) i"
proof -
  assume "has_asset db i"
  then have "has_asset (recorded tenant b db) i" by (simp add: recorded_def relationships_has assets_has)
  then show ?thesis by (simp add: ingest_def Let_def split_beta reconcile_has)
qed

lemma link_ok_mono: "link_ok a1 k v \<Longrightarrow> (\<And>i. has_asset a1 i \<Longrightarrow> has_asset a2 i) \<Longrightarrow> link_ok a2 k v"
  by (auto simp: link_ok_def)

lemma links_ok_linked: "links_ok db \<Longrightarrow> links_ok (fst (ingest_linked pg tenant b db))"
proof -
  assume db: "links_ok db"
  let ?db = "db\<lparr>fd_inventory := fst (ingest tenant b (fd_inventory db))\<rparr>"
  have "link_ok (fst (ingest tenant b (fd_inventory db))) k v" if "map_of (vd_vulnerabilities db) k = Some v" for k v
    by (rule link_ok_mono [OF db [unfolded links_ok_def, rule_format, OF that]]) (rule ingest_has)
  then have "links_ok ?db" by (simp add: links_ok_def)
  then have "links_ok (refresh_vulnerability_asset_links pg tenant ?db)" by (rule refresh_links_ok)
  then show ?thesis by (simp add: ingest_linked_def split_beta)
qed

lemma upsert_vulnerability_ok:
  assumes "links_ok db"
  shows "links_ok (ingest_vulnerability tenant b v db)"
proof -
  have "link_ok (fd_inventory db) (vulnerability_key_of tenant v)
      (vulnerability_row_of tenant (fd_inventory db) b v (map_of (vd_vulnerabilities db) (vulnerability_key_of tenant v)))"
  proof (cases "map_of (vd_vulnerabilities db) (vulnerability_key_of tenant v)")
    case None
    then show ?thesis by (auto simp: link_ok_def vulnerability_row_of_def asset_id_of_iff Let_def vulnerability_key_of_def)
  next
    case (Some r)
    then have "link_ok (fd_inventory db) (vulnerability_key_of tenant v) r" using assms unfolding links_ok_def by blast
    then show ?thesis using Some
      by (auto simp: link_ok_def vulnerability_row_of_def asset_id_of_iff Let_def vulnerability_key_of_def coalesce_def
          split: option.splits if_splits)
  qed
  then show ?thesis using assms
    by (auto simp: links_ok_def ingest_vulnerability_def upsert_vulnerability_def upsert_vulnerability_observation_def table_simps)
qed

lemma link_ok_refreshed: "link_ok assets k (refreshed_vulnerability t obs v) \<longleftrightarrow> link_ok assets k v"
  by (simp add: link_ok_def refreshed_vulnerability_def)

lemma states_ok:
  assumes "links_ok db"
  shows "links_ok (refresh_vulnerability_states tenant t db)"
  unfolding links_ok_def
proof (intro allI impI)
  fix k v assume "map_of (vd_vulnerabilities (refresh_vulnerability_states tenant t db)) k = Some v"
  then obtain v0 where v: "map_of (vd_vulnerabilities db) k = Some v0"
    "v = v0 \<or> v = refreshed_vulnerability t (current_observations db k) v0"
    by (auto simp: refresh_vulnerability_states_def table_simps split: if_splits)
  then have "link_ok (fd_inventory db) k v0" using assms unfolding links_ok_def by blast
  then show "link_ok (fd_inventory (refresh_vulnerability_states tenant t db)) k v" using v(2) by (auto simp: link_ok_refreshed)
qed

lemma observed_ok:
  assumes "links_ok db"
  shows "links_ok (fst (ingest_vulnerabilities pg tenant b db))"
proof -
  have "links_ok (upsert_vulnerability_scan tenant b (db\<lparr>fd_inventory := insert_run tenant b (fd_inventory db)\<rparr>))"
    using assms by (simp add: links_ok_def link_ok_def)
  then have "links_ok (fold (ingest_vulnerability tenant b) vs
      (upsert_vulnerability_scan tenant b (db\<lparr>fd_inventory := insert_run tenant b (fd_inventory db)\<rparr>)))" for vs
    by (induction vs rule: rev_induct) (simp_all add: upsert_vulnerability_ok)
  then have "links_ok (observed tenant b db)" by (simp add: observed_def)
  then have "links_ok (withdrawn tenant b db)" by (simp add: links_ok_def vulnerability_keys(3))
  then have "links_ok (refresh_vulnerability_asset_links pg tenant (withdrawn tenant b db))" by (rule refresh_links_ok)
  then show ?thesis unfolding ingest_vulnerabilities_fst by (rule states_ok)
qed

text \<open>The exact links after a refresh.\<close>

definition exactly_linked :: "string \<Rightarrow> 'b vulnerability_db_scheme \<Rightarrow> bool" where
  "exactly_linked tenant db \<longleftrightarrow> (\<forall>k v. map_of (vd_vulnerabilities db) k = Some v \<longrightarrow> fst k = tenant \<longrightarrow>
     (has_asset (fd_inventory db) (tenant, vr_target v) \<longrightarrow> vr_target_asset v = Some (tenant, vr_target v)) \<and>
     (has_asset (fd_inventory db) (tenant, vr_component v) \<longrightarrow> vr_component_asset v = Some (tenant, vr_component v)))"

lemma refresh_exact: "exactly_linked tenant (refresh_vulnerability_asset_links pg tenant db)"
  unfolding exactly_linked_def
proof (intro allI impI)
  fix k v'
  assume "map_of (vd_vulnerabilities (refresh_vulnerability_asset_links pg tenant db)) k = Some v'" "fst k = tenant"
  then obtain v where "linked_row pg db k v v'" using refresh_links_row by fastforce
  then show "(has_asset (fd_inventory (refresh_vulnerability_asset_links pg tenant db)) (tenant, vr_target v') \<longrightarrow>
      vr_target_asset v' = Some (tenant, vr_target v')) \<and>
    (has_asset (fd_inventory (refresh_vulnerability_asset_links pg tenant db)) (tenant, vr_component v') \<longrightarrow>
      vr_component_asset v' = Some (tenant, vr_component v'))"
    using \<open>fst k = tenant\<close> by (auto simp: linked_row_def split: if_splits)
qed

lemma states_exact: "exactly_linked tenant db \<Longrightarrow> exactly_linked tenant (refresh_vulnerability_states tenant t db)"
  by (auto simp: exactly_linked_def refresh_vulnerability_states_def table_simps refreshed_vulnerability_def)

section \<open>Properties\<close>

text \<open>
  C10. After a scanner batch each vulnerability of the tenant is open exactly when some observation of it that
  still counts says so: one the batch reports, or an earlier one that is not withdrawn, is not repeated and
  is not made missing by an authoritative, completely covered batch of its own source and scope. It is
  resolved as absent exactly when no observation counts any more, whatever its state. Every reported
  vulnerability is stored, and no asset is created.
\<close>

theorem vulnerability_state_derived:
  assumes "new_VulnerabilityBatch b = Inr b" "distinct (map fst (vd_observations db))"
  shows "(\<forall>k v. map_of (vd_vulnerabilities (fst (ingest_vulnerabilities pg tenant b db))) k = Some v \<and> fst k = tenant \<longrightarrow>
      (vr_state v = FS_OPEN \<longleftrightarrow> still_observed tenant b db k FS_OPEN) \<and>
      (vr_state v = FS_UNKNOWN \<longleftrightarrow> still_observed tenant b db k FS_UNKNOWN \<and> \<not> still_observed tenant b db k FS_OPEN) \<and>
      (vr_resolution_reason v = Some ''absent_from_authoritative_snapshot'' \<longleftrightarrow> (\<forall>s. \<not> still_observed tenant b db k s))) \<and>
    (\<forall>x\<in>set (vb_vulnerabilities b).
      map_of (vd_vulnerabilities (fst (ingest_vulnerabilities pg tenant b db))) (tenant, vulnerability_canonical_key x) \<noteq> None) \<and>
    db_assets (fd_inventory (fst (ingest_vulnerabilities pg tenant b db))) = db_assets (fd_inventory db)"
proof (intro conjI allI impI ballI)
  have uids: "distinct (map va_source_uid (vb_vulnerabilities b))"
    using assms(1) by (simp add: new_VulnerabilityBatch_def check_all_Inr has_repeat_iff)
  fix k v
  assume "map_of (vd_vulnerabilities (fst (ingest_vulnerabilities pg tenant b db))) k = Some v \<and> fst k = tenant"
  then have k: "fst k = tenant" and v: "\<exists>v0. v = refreshed_vulnerability (collected b) (current_observations (withdrawn tenant b db) k) v0"
    using vulnerability_after by blast+
  note current = current_after [OF uids assms(2) k]
  show "vr_state v = FS_OPEN \<longleftrightarrow> still_observed tenant b db k FS_OPEN"
    "vr_state v = FS_UNKNOWN \<longleftrightarrow> still_observed tenant b db k FS_UNKNOWN \<and> \<not> still_observed tenant b db k FS_OPEN"
    "vr_resolution_reason v = Some ''absent_from_authoritative_snapshot'' \<longleftrightarrow> (\<forall>s. \<not> still_observed tenant b db k s)"
    using v unfolding current [symmetric] by (elim exE, simp only: current_state_iff current_reason_iff row_state)+
next
  fix x assume "x \<in> set (vb_vulnerabilities b)"
  then show "map_of (vd_vulnerabilities (fst (ingest_vulnerabilities pg tenant b db))) (tenant, vulnerability_canonical_key x) \<noteq> None"
    by (auto simp: ingest_vulnerabilities_fst vulnerability_keys observed_def ingest_vulnerability_keys vulnerability_key_of_def)
next
  show "db_assets (fd_inventory (fst (ingest_vulnerabilities pg tenant b db))) = db_assets (fd_inventory db)"
    by (simp add: ingest_vulnerabilities_fst observed_def insert_run_def)
qed

text \<open>
  C30. A vulnerability is only ever linked to assets that exist and belong to its own tenant, whatever
  inventory and scanner batches arrive in whatever order; and after each of them every vulnerability of the
  tenant whose target or component is in the inventory is linked to exactly that asset.
\<close>

theorem vulnerability_links_exist:
  assumes "links_ok db"
  shows "links_ok (fst (ingest_linked pg tenant i db)) \<and> exactly_linked tenant (fst (ingest_linked pg tenant i db)) \<and>
    links_ok (fst (ingest_vulnerabilities pg tenant b db)) \<and> exactly_linked tenant (fst (ingest_vulnerabilities pg tenant b db))"
proof (intro conjI)
  show "exactly_linked tenant (fst (ingest_linked pg tenant i db))"
    by (simp add: ingest_linked_def split_beta refresh_exact)
  show "exactly_linked tenant (fst (ingest_vulnerabilities pg tenant b db))"
    unfolding ingest_vulnerabilities_fst by (rule states_exact [OF refresh_exact])
qed (rule links_ok_linked [OF assms], rule observed_ok [OF assms])

section \<open>A sample\<close>

definition found_vulnerability :: vulnerability_assertion where
  "found_vulnerability = \<lparr>va_source_uid = ''u'', va_vulnerability_id = ''CVE-1'',
     va_component = \<lparr>ar_kind = SOFTWARE_COMPONENT, ar_natural_key = ''c''\<rparr>, va_target = \<lparr>ar_kind = AI_AGENT, ar_natural_key = ''a''\<rparr>,
     va_severity = HIGH, va_state = FS_OPEN, va_observed_at = Aware 5 0,
     va_evidence = \<lparr>ev_source_type = ''scan'', ev_locator = ''x'', ev_observed_at = Aware 5 0, ev_payload = []\<rparr>,
     va_match_method = EXACT_DIRECT, va_match_confidence = f_1_0, va_aliases = [], va_title = None, va_description = None,
     va_cvss_score = None, va_cvss_vector = None, va_fix_state = FIX_UNKNOWN, va_fixed_versions = [],
     va_exploit_state = EXPLOIT_UNKNOWN, va_database_version = None, va_database_built_at = None, va_attributes = []\<rparr>"

definition one_scan :: vulnerability_batch where
  "one_scan = \<lparr>bh_connector_id = ''c'', bh_connection_id = ''n'', bh_run_id = ''r'', bh_scope_key = ''s'',
     bh_collected_at = Aware 5 0, bh_coverage = [\<lparr>cov_plane = ''p'', cov_state = COMPLETE, cov_scope = ''s'', cov_detail = None\<rparr>],
     vb_vulnerabilities = [found_vulnerability], vb_scan_subject = None, vb_authoritative = True\<rparr>"

definition no_vulnerabilities :: vulnerability_db where
  "no_vulnerabilities = \<lparr>fd_inventory = \<lparr>db_runs = [], db_coverage = [], db_assets = [], db_assertions = [], db_relations = []\<rparr>,
     fd_findings = [], fd_resources = [], fd_compliance = [], fd_observations = [], vd_vulnerabilities = [], vd_observations = [],
     vd_scans = []\<rparr>"

theorem vulnerability_state_derived_witness:
  "\<exists>v. map_of (vd_vulnerabilities (fst (ingest_vulnerabilities (\<lambda>v. []) ''t'' one_scan no_vulnerabilities)))
     (''t'', vulnerability_canonical_key found_vulnerability) = Some v \<and> vr_state v = FS_OPEN"
proof -
  let ?k = "(''t'', vulnerability_canonical_key found_vulnerability)"
  have ok: "new_VulnerabilityBatch one_scan = Inr one_scan" by code_simp
  have keys: "distinct (map fst (vd_observations no_vulnerabilities))" by (simp add: no_vulnerabilities_def)
  have found: "found_vulnerability \<in> set (vb_vulnerabilities one_scan)" by (simp add: one_scan_def)
  have "still_observed ''t'' one_scan no_vulnerabilities ?k FS_OPEN"
    unfolding still_observed_def using found by (intro disjI1 bexI [of _ found_vulnerability])
      (simp_all add: vulnerability_key_of_def, simp add: found_vulnerability_def)
  moreover obtain v where
    "map_of (vd_vulnerabilities (fst (ingest_vulnerabilities (\<lambda>v. []) ''t'' one_scan no_vulnerabilities))) ?k = Some v"
    using vulnerability_state_derived [OF ok keys, of "\<lambda>v. []" "''t''"] found by blast
  ultimately show ?thesis using vulnerability_state_derived [OF ok keys, of "\<lambda>v. []" "''t''"] by fastforce
qed

theorem vulnerability_links_exist_witness:
  "links_ok (fst (ingest_vulnerabilities (\<lambda>v. []) ''t'' one_scan no_vulnerabilities)) \<and>
   exactly_linked ''t'' (fst (ingest_vulnerabilities (\<lambda>v. []) ''t'' one_scan no_vulnerabilities))"
proof -
  have "links_ok no_vulnerabilities" by (simp add: links_ok_def no_vulnerabilities_def)
  then show ?thesis using vulnerability_links_exist by blast
qed

end
