(* ===== verification/Ingest_Activity.thy ===== *)
theory Ingest_Activity
  imports Ingest_Vulnerabilities_Props Activity
begin

text \<open>
  \<open>PostgresInventoryRepository.ingest_activity\<close> of \<open>src/denali/store/repository.py\<close>: activity events are
  inserted once and never changed, their entities are linked to assets that exist. The \<open>id\<close> of an event is
  its unique key (tenant, connector, connection and \<open>source_uid\<close>).
\<close>

section \<open>The tables\<close>

record event_row =
  et_run :: string
  et_scope_key :: string
  et_category :: activity_category
  et_name :: string
  et_title :: string
  et_outcome :: activity_outcome
  et_provider :: string
  et_account_uid :: "string option"
  et_region :: "string option"
  et_occurred_at :: int
  et_source_observed_at :: int
  et_session_uid :: "string option"
  et_trace_uid :: "string option"
  et_session_key :: "string option"
  et_span_uid :: "string option"
  et_parent_span_uid :: "string option"
  et_completed_at :: "int option"
  et_duration_ms :: "pyfloat option"
  et_telemetry_convention :: "string option"
  et_content_policy :: string
  et_evidence :: evidence
  et_attributes :: attrs

record entity_row =
  en_role :: entity_role
  en_external_uid :: string
  en_display_name :: "string option"
  en_ref :: "asset_ref option"
  en_asset :: "asset_id option"
  en_correlation :: activity_correlation
  en_confidence :: pyfloat
  en_attributes :: attrs

record activity_db = vulnerability_db +
  ad_events :: "(finding_key, event_row) table"
  ad_entities :: "((finding_key \<times> nat), entity_row) table"

section \<open>Rows\<close>

definition activity_session_key :: "'a batch_header_scheme \<Rightarrow> activity_record \<Rightarrow> string option" where
  "activity_session_key b a = (case (case act_session_uid a of None \<Rightarrow> act_trace_uid a
       | Some s \<Rightarrow> if s = [] then act_trace_uid a else Some s) of
     None \<Rightarrow> None
   | Some runtime \<Rightarrow> Some (sha256_hex (join [CHR 0x1F]
       [bh_connector_id b, bh_connection_id b, act_provider a, or_text (act_region a) [], runtime])))"

definition event_key :: "string \<Rightarrow> 'a batch_header_scheme \<Rightarrow> activity_record \<Rightarrow> finding_key" where
  "event_key tenant b a = (tenant, bh_connector_id b, bh_connection_id b, act_source_uid a)"

definition event_row_of :: "'a batch_header_scheme \<Rightarrow> activity_record \<Rightarrow> event_row" where
  "event_row_of b a = \<lparr>et_run = bh_run_id b, et_scope_key = bh_scope_key b, et_category = act_category a, et_name = act_name a,
     et_title = act_title a, et_outcome = act_outcome a, et_provider = act_provider a, et_account_uid = act_account_uid a,
     et_region = act_region a, et_occurred_at = instant (act_occurred_at a),
     et_source_observed_at = instant (act_observed_at a), et_session_uid = act_session_uid a, et_trace_uid = act_trace_uid a,
     et_session_key = activity_session_key b a, et_span_uid = act_span_uid a, et_parent_span_uid = act_parent_span_uid a,
     et_completed_at = map_option instant (act_completed_at a), et_duration_ms = act_duration_ms a,
     et_telemetry_convention = act_telemetry_convention a, et_content_policy = act_content_policy a,
     et_evidence = act_evidence a, et_attributes = act_attributes a\<rparr>"

definition entity_row_of :: "string \<Rightarrow> inv_db \<Rightarrow> activity_entity \<Rightarrow> entity_row" where
  "entity_row_of tenant assets e = \<lparr>en_role = ae_role e, en_external_uid = ae_external_uid e, en_display_name = ae_display_name e,
     en_ref = ae_asset e, en_asset = (case ae_asset e of None \<Rightarrow> None | Some ref \<Rightarrow> asset_id_of tenant ref assets),
     en_correlation = ae_correlation e, en_confidence = ae_confidence e, en_attributes = ae_attributes e\<rparr>"

section \<open>The method\<close>

record activity_counts =
  ac_inserted :: nat
  ac_linked :: nat
  ac_unresolved :: nat

definition count_entity :: "entity_row \<Rightarrow> activity_counts \<Rightarrow> activity_counts" where
  "count_entity e n = (if en_asset e = None then n\<lparr>ac_unresolved := ac_unresolved n + 1\<rparr> else n\<lparr>ac_linked := ac_linked n + 1\<rparr>)"

text \<open>One activity; an event that is stored already is left alone, with its entities.\<close>

definition ingest_event ::
    "string \<Rightarrow> activity_batch \<Rightarrow> activity_record \<Rightarrow> 'b activity_db_scheme \<times> activity_counts \<Rightarrow> 'b activity_db_scheme \<times> activity_counts" where
  "ingest_event tenant b a = (\<lambda>(db, n).
     let k = event_key tenant b a in
     if map_of (ad_events db) k \<noteq> None then (db, n)
     else let rows = map (entity_row_of tenant (fd_inventory db)) (act_entities a) in
       (db\<lparr>ad_events := ad_events db @ [(k, event_row_of b a)],
           ad_entities := ad_entities db @ map (\<lambda>(i, e). ((k, i), e)) (List.enumerate 0 rows)\<rparr>,
        fold count_entity rows (n\<lparr>ac_inserted := ac_inserted n + 1\<rparr>)))"

record activity_result =
  ai_activities :: nat
  ai_duplicates :: nat
  ai_linked_entities :: nat
  ai_unresolved_entities :: nat

definition ingest_activity :: "string \<Rightarrow> activity_batch \<Rightarrow> 'b activity_db_scheme \<Rightarrow> 'b activity_db_scheme \<times> activity_result" where
  "ingest_activity tenant b db0 =
     (let (db, n) = fold (ingest_event tenant b) (ab_activities b)
            (db0\<lparr>fd_inventory := insert_run tenant b (fd_inventory db0)\<rparr>, \<lparr>ac_inserted = 0, ac_linked = 0, ac_unresolved = 0\<rparr>)
      in (db, \<lparr>ai_activities = ac_inserted n, ai_duplicates = length (ab_activities b) - ac_inserted n,
               ai_linked_entities = ac_linked n, ai_unresolved_entities = ac_unresolved n\<rparr>))"

end
