(* ===== verification/Ingest_Activity_Props.thy ===== *)
theory Ingest_Activity_Props
  imports Ingest_Activity "HOL-Library.Sublist"
begin

text \<open>Activities are append-only and ingesting a batch again changes nothing.\<close>

section \<open>One activity\<close>

abbreviation fresh_event :: "string \<Rightarrow> activity_batch \<Rightarrow> 'b activity_db_scheme \<Rightarrow> activity_record \<Rightarrow> bool" where
  "fresh_event tenant b db a \<equiv> map_of (ad_events db) (event_key tenant b a) = None"

lemma enumerate_member: "(i, e) \<in> set (List.enumerate n xs) \<Longrightarrow> e \<in> set xs"
  by (induction xs arbitrary: n) auto

lemma ingest_event_cases:
  obtains (known) "\<not> fresh_event tenant b db a" "ingest_event tenant b a (db, n) = (db, n)"
  | (new) db1 n1 where "fresh_event tenant b db a" "ingest_event tenant b a (db, n) = (db1, n1)"
      "ad_events db1 = ad_events db @ [(event_key tenant b a, event_row_of b a)]" "fd_inventory db1 = fd_inventory db"
      "prefix (ad_entities db) (ad_entities db1)"
      "\<And>k e. (k, e) \<in> set (ad_entities db1) \<Longrightarrow> (k, e) \<in> set (ad_entities db) \<or>
         fst k = event_key tenant b a \<and> e \<in> entity_row_of tenant (fd_inventory db) ` set (act_entities a)"
proof (cases "fresh_event tenant b db a")
  case False
  then show thesis using known by (simp add: ingest_event_def Let_def)
next
  case True
  let ?rows = "map (entity_row_of tenant (fd_inventory db)) (act_entities a)"
  let ?es = "map (\<lambda>(i, e). ((event_key tenant b a, i), e)) (List.enumerate 0 ?rows)"
  show thesis
  proof (rule new [where ?db1.0 = "db\<lparr>ad_events := ad_events db @ [(event_key tenant b a, event_row_of b a)],
        ad_entities := ad_entities db @ ?es\<rparr>" and ?n1.0 = "fold count_entity ?rows (n\<lparr>ac_inserted := ac_inserted n + 1\<rparr>)"])
    fix k e
    assume "(k, e) \<in> set (ad_entities (db\<lparr>ad_events := ad_events db @ [(event_key tenant b a, event_row_of b a)],
        ad_entities := ad_entities db @ ?es\<rparr>))"
    then consider "(k, e) \<in> set (ad_entities db)" | i where "(i, e) \<in> set (List.enumerate 0 ?rows)" "k = (event_key tenant b a, i)"
      by auto
    then show "(k, e) \<in> set (ad_entities db) \<or>
         fst k = event_key tenant b a \<and> e \<in> entity_row_of tenant (fd_inventory db) ` set (act_entities a)"
      by cases (auto dest!: enumerate_member)
  qed (use True in \<open>simp_all add: ingest_event_def Let_def\<close>)
qed

lemma event_grows:
  "prefix (ad_events db) (ad_events (fst (ingest_event tenant b a (db, n)))) \<and>
   prefix (ad_entities db) (ad_entities (fst (ingest_event tenant b a (db, n)))) \<and>
   fd_inventory (fst (ingest_event tenant b a (db, n))) = fd_inventory db"
  by (rule ingest_event_cases [where tenant = tenant and b = b and db = db and a = a and n = n]) auto

lemma event_lookup:
  "map_of (ad_events (fst (ingest_event tenant b a (db, n)))) k =
     (case map_of (ad_events db) k of Some r \<Rightarrow> Some r
      | None \<Rightarrow> if k = event_key tenant b a then Some (event_row_of b a) else None)"
  by (rule ingest_event_cases [where tenant = tenant and b = b and db = db and a = a and n = n]) (auto simp: map_add_def split: option.split)

section \<open>The loop\<close>

lemma events_grow:
  "prefix (ad_events (fst st)) (ad_events (fst (fold (ingest_event tenant b) as st))) \<and>
   prefix (ad_entities (fst st)) (ad_entities (fst (fold (ingest_event tenant b) as st))) \<and>
   fd_inventory (fst (fold (ingest_event tenant b) as st)) = fd_inventory (fst st)"
proof (induction as arbitrary: st)
  case (Cons a as)
  obtain db n where st: "st = (db, n)" by fastforce
  show ?case using event_grows [of db tenant b a n] Cons.IH [of "ingest_event tenant b a st"] unfolding st
    by (auto intro: prefix_order.trans)
qed simp

lemma events_lookup:
  assumes "distinct (map act_source_uid as)"
  shows "map_of (ad_events (fst (fold (ingest_event tenant b) as st))) k =
     (case map_of (ad_events (fst st)) k of Some r \<Rightarrow> Some r
      | None \<Rightarrow> map_option (event_row_of b) (find (\<lambda>a. event_key tenant b a = k) as))"
  using assms
proof (induction as arbitrary: st)
  case (Cons a as)
  obtain db n where st: "st = (db, n)" by fastforce
  have "map_of (ad_events (fst (fold (ingest_event tenant b) as (ingest_event tenant b a st)))) k =
      (case map_of (ad_events (fst (ingest_event tenant b a st))) k of Some r \<Rightarrow> Some r
       | None \<Rightarrow> map_option (event_row_of b) (find (\<lambda>a. event_key tenant b a = k) as))"
    using Cons.IH Cons.prems by simp
  then show ?case unfolding st event_lookup by (auto split: option.split)
qed (simp split: option.split)

lemma known_events_skipped:
  assumes "\<forall>a\<in>set as. \<not> fresh_event tenant b db a"
  shows "fold (ingest_event tenant b) as (db, n) = (db, n)"
  using assms by (induction as) (simp_all add: ingest_event_def Let_def)

lemma ingest_activity_fst: "fst (ingest_activity tenant b db) = fst (fold (ingest_event tenant b) (ab_activities b)
    (db\<lparr>fd_inventory := insert_run tenant b (fd_inventory db)\<rparr>, \<lparr>ac_inserted = 0, ac_linked = 0, ac_unresolved = 0\<rparr>))"
  by (simp add: ingest_activity_def split_beta)

section \<open>Links\<close>

definition entities_ok :: "'b activity_db_scheme \<Rightarrow> bool" where
  "entities_ok db \<longleftrightarrow> (\<forall>(k, e)\<in>set (ad_entities db). \<forall>i. en_asset e = Some i \<longrightarrow>
     fst i = fst (fst k) \<and> en_ref e = Some (snd i) \<and> has_asset (fd_inventory db) i)"

lemma entity_row_ok: "en_asset (entity_row_of tenant assets e) = Some i \<Longrightarrow>
    fst i = tenant \<and> en_ref (entity_row_of tenant assets e) = Some (snd i) \<and> has_asset assets i"
  by (auto simp: entity_row_of_def asset_id_of_iff split: option.splits if_splits)

lemma event_entities_ok: "entities_ok db \<Longrightarrow> entities_ok (fst (ingest_event tenant b a (db, n)))"
proof (rule ingest_event_cases [where tenant = tenant and b = b and db = db and a = a and n = n])
  fix db1 n1
  assume ok: "entities_ok db" and run: "ingest_event tenant b a (db, n) = (db1, n1)" "fd_inventory db1 = fd_inventory db"
    and es: "\<And>k e. (k, e) \<in> set (ad_entities db1) \<Longrightarrow> (k, e) \<in> set (ad_entities db) \<or>
         fst k = event_key tenant b a \<and> e \<in> entity_row_of tenant (fd_inventory db) ` set (act_entities a)"
  show ?thesis unfolding entities_ok_def run fst_conv
  proof (clarify, unfold fst_conv)
    fix tk ck nk uk i e ti ri
    assume e: "(((tk, ck, nk, uk), i), e) \<in> set (ad_entities db1)" "en_asset e = Some (ti, ri)"
    show "ti = tk \<and> en_ref e = Some (snd (ti, ri)) \<and> has_asset (fd_inventory db) (ti, ri)"
      using es [OF e(1)]
    proof
      assume "(((tk, ck, nk, uk), i), e) \<in> set (ad_entities db)"
      then show ?thesis using ok e(2) by (fastforce simp: entities_ok_def)
    next
      assume "fst ((tk, ck, nk, uk), i) = event_key tenant b a \<and> e \<in> entity_row_of tenant (fd_inventory db) ` set (act_entities a)"
      then show ?thesis using entity_row_ok e(2) by (fastforce simp: event_key_def)
    qed
  qed
qed simp

lemma events_entities_ok: "entities_ok (fst st) \<Longrightarrow> entities_ok (fst (fold (ingest_event tenant b) as st))"
proof (induction as arbitrary: st)
  case (Cons a as)
  then show ?case using event_entities_ok [of "fst st" tenant b a "snd st"] by simp
qed simp

section \<open>Rows that say what was reported\<close>

definition event_reports :: "activity_batch \<Rightarrow> activity_record \<Rightarrow> event_row \<Rightarrow> bool" where
  "event_reports b a r \<longleftrightarrow> et_run r = bh_run_id b \<and> et_scope_key r = bh_scope_key b \<and> et_category r = act_category a \<and>
     et_name r = act_name a \<and> et_title r = act_title a \<and> et_outcome r = act_outcome a \<and> et_provider r = act_provider a \<and>
     et_account_uid r = act_account_uid a \<and> et_region r = act_region a \<and> et_occurred_at r = instant (act_occurred_at a) \<and>
     et_source_observed_at r = instant (act_observed_at a) \<and> et_session_uid r = act_session_uid a \<and>
     et_trace_uid r = act_trace_uid a \<and> et_session_key r = activity_session_key b a \<and> et_span_uid r = act_span_uid a \<and>
     et_parent_span_uid r = act_parent_span_uid a \<and> et_completed_at r = map_option instant (act_completed_at a) \<and>
     et_duration_ms r = act_duration_ms a \<and> et_telemetry_convention r = act_telemetry_convention a \<and>
     et_content_policy r = act_content_policy a \<and> et_evidence r = act_evidence a \<and> et_attributes r = act_attributes a"

text \<open>An entity is linked exactly when it names an asset of the tenant that exists.\<close>

definition entity_reports :: "string \<Rightarrow> inv_db \<Rightarrow> activity_entity \<Rightarrow> entity_row \<Rightarrow> bool" where
  "entity_reports tenant assets e r \<longleftrightarrow> en_role r = ae_role e \<and> en_external_uid r = ae_external_uid e \<and>
     en_display_name r = ae_display_name e \<and> en_ref r = ae_asset e \<and> en_correlation r = ae_correlation e \<and>
     en_confidence r = ae_confidence e \<and> en_attributes r = ae_attributes e \<and>
     (\<forall>i. en_asset r = Some i \<longleftrightarrow> fst i = tenant \<and> ae_asset e = Some (snd i) \<and> map_of (db_assets assets) i \<noteq> None)"

lemma event_row_reports: "event_reports b a (event_row_of b a)"
  by (simp add: event_reports_def event_row_of_def)

lemma entity_row_reports: "entity_reports tenant assets e (entity_row_of tenant assets e)"
  by (auto simp: entity_reports_def entity_row_of_def asset_id_of_def split: option.splits)

text \<open>The entities stored for an event, in their order.\<close>

definition entities_of :: "finding_key \<Rightarrow> 'b activity_db_scheme \<Rightarrow> ((finding_key \<times> nat) \<times> entity_row) list" where
  "entities_of k db = filter (\<lambda>(p, e). fst p = k) (ad_entities db)"

definition new_entities :: "string \<Rightarrow> inv_db \<Rightarrow> finding_key \<Rightarrow> activity_record \<Rightarrow> ((finding_key \<times> nat) \<times> entity_row) list" where
  "new_entities tenant assets k a =
     map (\<lambda>(i, e). ((k, i), e)) (List.enumerate 0 (map (entity_row_of tenant assets) (act_entities a)))"

lemma entities_of_event:
  "entities_of k (fst (ingest_event tenant b a (db, n))) = entities_of k db @
     (if fresh_event tenant b db a \<and> event_key tenant b a = k then new_entities tenant (fd_inventory db) k a else [])"
proof -
  have "filter (\<lambda>(p, e). fst p = k) (map (\<lambda>(i, e). ((j, i), e)) xs) = (if j = k then map (\<lambda>(i, e). ((j, i), e)) xs else [])"
    for j and xs :: "(nat \<times> entity_row) list"
    by (induction xs) auto
  then show ?thesis by (auto simp: entities_of_def new_entities_def ingest_event_def Let_def)
qed

lemma entities_of_loop:
  assumes "distinct (map act_source_uid as)"
  shows "entities_of k (fst (fold (ingest_event tenant b) as st)) = entities_of k (fst st) @
     (if map_of (ad_events (fst st)) k = None
      then case find (\<lambda>a. event_key tenant b a = k) as of None \<Rightarrow> [] | Some a \<Rightarrow> new_entities tenant (fd_inventory (fst st)) k a
      else [])"
  using assms
proof (induction as arbitrary: st)
  case (Cons a as)
  obtain db n where st: "st = (db, n)" by fastforce
  have gone: "find (\<lambda>x. event_key tenant b x = k) as = None" if "event_key tenant b a = k"
    using Cons.prems that by (auto simp: find_None_iff event_key_def dest: image_eqI [where f = act_source_uid, OF sym])
  have inv: "fd_inventory (fst (ingest_event tenant b a (db, n))) = fd_inventory db" using event_grows by blast
  show ?case
    using Cons.IH [of "ingest_event tenant b a (db, n)"] Cons.prems gone
    by (auto simp: st entities_of_event event_lookup inv split: option.splits)
qed simp

text \<open>Opening the run does not touch the assets.\<close>

lemma entity_row_of_run [simp]: "entity_row_of tenant (insert_run t b assets) = entity_row_of tenant assets"
  by (simp add: fun_eq_iff entity_row_of_def asset_id_of_def insert_run_def split: option.split)

lemma new_entities_report:
  "length (new_entities tenant assets k a) = length (act_entities a)"
  "i < length (act_entities a) \<Longrightarrow> fst (new_entities tenant assets k a ! i) = (k, i) \<and>
     entity_reports tenant assets (act_entities a ! i) (snd (new_entities tenant assets k a ! i))"
  by (simp_all add: new_entities_def nth_enumerate_eq entity_row_reports)

section \<open>Property\<close>

text \<open>
  C31. Activities are append-only: a batch leaves every stored event and every stored entity as it is. Each
  activity it reports that was not stored before is stored with every column as reported, and with exactly its
  entities, in their order, each linked exactly when it names an existing asset of the tenant; an activity that
  was stored gets no further entity. No asset is created. Ingesting the batch again changes no event and no
  entity and reports only duplicates.
\<close>

theorem activities_append_only:
  assumes "new_ActivityBatch b = Inr b" "entities_ok db" "ingest_activity tenant b db = (db1, r1)" "ingest_activity tenant b db1 = (db2, r2)"
  shows "prefix (ad_events db) (ad_events db1) \<and> prefix (ad_entities db) (ad_entities db1) \<and>
    (\<forall>a\<in>set (ab_activities b). let k = event_key tenant b a in
       case map_of (ad_events db) k of
         Some r \<Rightarrow> map_of (ad_events db1) k = Some r \<and> entities_of k db1 = entities_of k db
       | None \<Rightarrow> (\<exists>r es. map_of (ad_events db1) k = Some r \<and> event_reports b a r \<and>
           entities_of k db1 = entities_of k db @ es \<and> length es = length (act_entities a) \<and>
           (\<forall>i<length es. fst (es ! i) = (k, i) \<and> entity_reports tenant (fd_inventory db) (act_entities a ! i) (snd (es ! i))))) \<and>
    (\<forall>k. k \<notin> event_key tenant b ` set (ab_activities b) \<longrightarrow>
       map_of (ad_events db1) k = map_of (ad_events db) k \<and> entities_of k db1 = entities_of k db) \<and>
    db_assets (fd_inventory db1) = db_assets (fd_inventory db) \<and> entities_ok db1 \<and>
    ad_events db2 = ad_events db1 \<and> ad_entities db2 = ad_entities db1 \<and>
    ai_activities r2 = 0 \<and> ai_duplicates r2 = length (ab_activities b)"
proof -
  let ?start = "\<lambda>db. (db\<lparr>fd_inventory := insert_run tenant b (fd_inventory db)\<rparr>, \<lparr>ac_inserted = 0, ac_linked = 0, ac_unresolved = 0\<rparr>)"
  have db1: "db1 = fst (fold (ingest_event tenant b) (ab_activities b) (?start db))"
    using assms(3) ingest_activity_fst [of tenant b db] by simp
  have uids: "distinct (map act_source_uid (ab_activities b))"
    using assms(1) by (auto simp: new_ActivityBatch_def check_all_Inr has_repeat_iff)
  have stored: "map_of (ad_events db1) (event_key tenant b a) =
       (case map_of (ad_events db) (event_key tenant b a) of Some r \<Rightarrow> Some r | None \<Rightarrow> Some (event_row_of b a)) \<and>
     entities_of (event_key tenant b a) db1 = entities_of (event_key tenant b a) db @
       (if map_of (ad_events db) (event_key tenant b a) = None then new_entities tenant (fd_inventory db) (event_key tenant b a) a else [])"
    if "a \<in> set (ab_activities b)" for a
  proof -
    have "distinct (map (event_key tenant b) (ab_activities b))"
      using uids by (auto simp: distinct_map inj_on_def event_key_def)
    then have "find (\<lambda>y. event_key tenant b y = event_key tenant b a) (ab_activities b) = Some a"
      using that by (rule find_distinct)
    then show ?thesis unfolding db1 events_lookup [OF uids] entities_of_loop [OF uids]
      by (simp add: entities_of_def new_entities_def entity_row_of_run split: option.split)
  qed
  have reports: "let k = event_key tenant b a in
       case map_of (ad_events db) k of
         Some r \<Rightarrow> map_of (ad_events db1) k = Some r \<and> entities_of k db1 = entities_of k db
       | None \<Rightarrow> (\<exists>r es. map_of (ad_events db1) k = Some r \<and> event_reports b a r \<and>
           entities_of k db1 = entities_of k db @ es \<and> length es = length (act_entities a) \<and>
           (\<forall>i<length es. fst (es ! i) = (k, i) \<and> entity_reports tenant (fd_inventory db) (act_entities a ! i) (snd (es ! i))))"
    if "a \<in> set (ab_activities b)" for a
    using stored [OF that] event_row_reports new_entities_report by (simp add: Let_def split: option.split)
  have others: "map_of (ad_events db1) k = map_of (ad_events db) k \<and> entities_of k db1 = entities_of k db"
    if "k \<notin> event_key tenant b ` set (ab_activities b)" for k
  proof -
    have "find (\<lambda>a. event_key tenant b a = k) (ab_activities b) = None" using that by (auto simp: find_None_iff)
    then show ?thesis unfolding db1 events_lookup [OF uids] entities_of_loop [OF uids]
      by (simp add: entities_of_def split: option.split)
  qed
  from stored have "\<forall>a\<in>set (ab_activities b). \<not> fresh_event tenant b (fst (?start db1)) a" by (auto split: option.splits)
  then have again: "fold (ingest_event tenant b) (ab_activities b) (?start db1) = ?start db1"
    using known_events_skipped by (metis fst_conv)
  have "entities_ok (fst (?start db))" using assms(2) by (fastforce simp: entities_ok_def)
  then have "entities_ok db1" unfolding db1 by (rule events_entities_ok)
  moreover have "ad_events db2 = ad_events db1 \<and> ad_entities db2 = ad_entities db1 \<and> ai_activities r2 = 0 \<and>
      ai_duplicates r2 = length (ab_activities b)"
    using assms(4) by (auto simp: ingest_activity_def again)
  ultimately show ?thesis
    using reports others events_grow [of "?start db" tenant b "ab_activities b"] unfolding db1 by (simp add: insert_run_def)
qed

lemma all_less_two: "(\<forall>i<2. P i) \<longleftrightarrow> P 0 \<and> P (1::nat)"
  by (auto simp: less_2_cases_iff)

section \<open>A sample\<close>

definition sample_app :: asset_ref where
  "sample_app = \<lparr>ar_kind = AI_APPLICATION, ar_natural_key = ''app''\<rparr>"

definition app_row :: asset_row where
  "app_row = \<lparr>as_governance = GOV_UNREVIEWED, as_lifecycle = LC_ACTIVE, as_owner = None, as_notes = None, as_first_seen_at = 0,
     as_last_seen_at = 0, as_last_changed_at = 0\<rparr>"

definition no_activities :: activity_db where
  "no_activities = \<lparr>fd_inventory = \<lparr>db_runs = [], db_coverage = [], db_assets = [((''t'', sample_app), app_row)],
       db_assertions = [], db_relations = []\<rparr>,
     fd_findings = [], fd_resources = [], fd_compliance = [], fd_observations = [], vd_vulnerabilities = [], vd_observations = [],
     vd_scans = [], ad_events = [], ad_entities = []\<rparr>"

definition sample_entity :: "entity_role \<Rightarrow> asset_ref option \<Rightarrow> activity_correlation \<Rightarrow> pyfloat \<Rightarrow> activity_entity" where
  "sample_entity role asset correlation confidence = \<lparr>ae_role = role, ae_external_uid = ''x'', ae_display_name = None,
     ae_asset = asset, ae_correlation = correlation, ae_confidence = confidence, ae_attributes = []\<rparr>"

definition sample_activity :: activity_record where
  "sample_activity = \<lparr>act_source_uid = ''u'', act_category = MODEL_INVOCATION, act_name = ''n'', act_title = ''t'',
     act_occurred_at = Aware 5 0, act_observed_at = Aware 5 0, act_outcome = OUT_SUCCESS, act_provider = ''aws'',
     act_evidence = \<lparr>ev_source_type = ''log'', ev_locator = ''x'', ev_observed_at = Aware 5 0, ev_payload = []\<rparr>,
     act_account_uid = None, act_region = None, act_session_uid = None, act_trace_uid = None, act_span_uid = None,
     act_parent_span_uid = None, act_completed_at = None, act_duration_ms = None, act_telemetry_convention = None,
     act_content_policy = ''metadata_only'',
     act_entities = [sample_entity APPLICATION (Some sample_app) EXACT_IDENTIFIER f_1_0, sample_entity ACTOR None UNRESOLVED f_0_0],
     act_attributes = []\<rparr>"

definition one_activity :: activity_batch where
  "one_activity = \<lparr>bh_connector_id = ''c'', bh_connection_id = ''n'', bh_run_id = ''r'', bh_scope_key = ''s'',
     bh_collected_at = Aware 5 0, bh_coverage = [\<lparr>cov_plane = ''p'', cov_state = COMPLETE, cov_scope = ''s'', cov_detail = None\<rparr>],
     ab_activities = [sample_activity]\<rparr>"

theorem activities_append_only_witness:
  "ai_duplicates (snd (ingest_activity ''t'' one_activity (fst (ingest_activity ''t'' one_activity no_activities)))) = 1 \<and>
   (\<exists>e f. entities_of (''t'', ''c'', ''n'', ''u'') (fst (ingest_activity ''t'' one_activity no_activities)) = [e, f] \<and>
      en_asset (snd e) = Some (''t'', sample_app) \<and> en_asset (snd f) = None)"
proof -
  let ?db1 = "fst (ingest_activity ''t'' one_activity no_activities)" and ?k = "(''t'', ''c'', ''n'', ''u'')"
  have ok: "new_ActivityBatch one_activity = Inr one_activity" by code_simp
  have es: "entities_ok no_activities" by (simp add: entities_ok_def no_activities_def)
  note rule = activities_append_only [OF ok es surjective_pairing surjective_pairing, of "''t''"]
  have "sample_activity \<in> set (ab_activities one_activity)" "event_key ''t'' one_activity sample_activity = ?k"
    by (simp_all add: one_activity_def event_key_def sample_activity_def)
  moreover have "map_of (ad_events no_activities) ?k = None" "entities_of ?k no_activities = []"
    by (simp_all add: no_activities_def entities_of_def)
  ultimately have "\<exists>r es. map_of (ad_events ?db1) ?k = Some r \<and> event_reports one_activity sample_activity r \<and>
      entities_of ?k ?db1 = [] @ es \<and> length es = length (act_entities sample_activity) \<and>
      (\<forall>i<length es. fst (es ! i) = (?k, i) \<and>
         entity_reports ''t'' (fd_inventory no_activities) (act_entities sample_activity ! i) (snd (es ! i)))"
    using rule [THEN conjunct2, THEN conjunct2, THEN conjunct1, THEN bspec, of sample_activity] by (simp only: Let_def option.case)
  then obtain ess where ess: "entities_of ?k ?db1 = ess" "length ess = length (act_entities sample_activity)"
      "\<forall>i<length ess. entity_reports ''t'' (fd_inventory no_activities) (act_entities sample_activity ! i) (snd (ess ! i))"
    by (elim exE conjE) simp
  have "length (act_entities sample_activity) = 2" by (simp add: sample_activity_def)
  then obtain e f where ef: "ess = [e, f]" using ess(2) by (auto simp: numeral_2_eq_2 length_Suc_conv)
  then have "entity_reports ''t'' (fd_inventory no_activities) (act_entities sample_activity ! 0) (snd e)"
    "entity_reports ''t'' (fd_inventory no_activities) (act_entities sample_activity ! 1) (snd f)"
    using ess(3) by (auto simp: all_less_two)
  then have "\<forall>i. en_asset (snd e) = Some i \<longleftrightarrow> fst i = ''t'' \<and> Some sample_app = Some (snd i) \<and>
        map_of (db_assets (fd_inventory no_activities)) i \<noteq> None"
    "\<forall>i. en_asset (snd f) = Some i \<longleftrightarrow> fst i = ''t'' \<and> None = Some (snd i) \<and>
        map_of (db_assets (fd_inventory no_activities)) i \<noteq> None"
    unfolding entity_reports_def by (simp_all add: sample_activity_def sample_entity_def)
  then have "en_asset (snd e) = Some (''t'', sample_app)" "\<forall>i. en_asset (snd f) \<noteq> Some i"
    by (simp_all add: no_activities_def)
  then have "en_asset (snd e) = Some (''t'', sample_app)" "en_asset (snd f) = None"
    by (simp, cases "en_asset (snd f)", simp_all)
  moreover have "ai_duplicates (snd (ingest_activity ''t'' one_activity ?db1)) = length (ab_activities one_activity)"
    using rule by (elim conjE)
  ultimately show ?thesis using ess(1) ef by (simp add: one_activity_def)
qed

end
