(* ===== verification/Spec2Isabelle.thy ===== *)
theory Spec2Isabelle
  imports Detection_Props Issue_Bedrock Findings Vulnerabilities Activity Deployments
    Remediation_Props Service_Props Static_Js_Props Source_Props
    Ingest_Props Collection_Worker_Props Github_Walk Github_Fence Ingest_Findings_Props Ingest_Activity_Props
begin

text \<open>
  A model of the core of Denali (\<open>src/denali\<close>), an AI security posture platform.

  The program. Workers claim durable collection jobs and run connectors, which turn what a provider answers
  into batches of evidence. The store ingests a batch: it asserts what the batch reports, withdraws what a
  complete and authoritative batch no longer reports, and derives the state of assets, findings and
  vulnerabilities. Two engines read one snapshot of the store each: runtime detections over activities, and
  issues that correlate assets, relationships, findings and detections; the store keeps what they report. A
  finding can be remediated by a write to the provider, which two people and a lease guard.

  Conventions. A frozen dataclass is a record and its constructor with \<open>__post_init__\<close> is a function
  \<open>new_<Class>\<close> that gives the exception or the value; an exception is a value of \<open>exn\<close> in a sum \<open>'a res\<close>. A
  dictionary is an association list in insertion order (\<open>Prelude\<close>); a table of the database is the dictionary
  of its rows under a unique key, which also serves as a generated id (\<open>Ingest_Table\<close>). A JSON value is a
  \<open>pyval\<close>, a float carries infinities and NaN (\<open>Py_Value\<close>). Text is a list of 7-bit characters (\<open>Py_Text\<close>): on
  other characters the model says nothing. Times are integers, microseconds where the code compares
  timestamps. What the code only calls is an argument: the text of a float (\<open>fl\<close>), \<open>str\<close> on values that are
  no texts (\<open>str_of\<close>), \<open>json.loads\<close> and \<open>base64\<close> decoders, the text of a JSON value in PostgreSQL (\<open>pg_text\<close>),
  clocks, and the answers of GitHub, of the AWS IAM client, of the membership and lease services. A database
  method is one transaction: a function from the tables to an error, which rolls back, or to new tables.

  The domain (\<open>src/denali/domain\<close>, one theory per file). \<open>Inventory\<close>, \<open>Findings\<close>, \<open>Vulnerabilities\<close>, \<open>Activity\<close>,
  \<open>Deployments\<close>, \<open>Detection_Domain\<close> and \<open>Issue_Domain\<close> hold the data, the checks of every constructor and the
  operations of the batches, with when a batch may close what it did not report.

  Detection (\<open>detections/engine.py\<close>, \<open>store/repository.py\<close>). \<open>Detection_Rules\<close> has the six rules,
  \<open>Detection_Contract\<close> the contract each meets (the locale \<open>evidence_rule\<close>, interpreted on all six),
  \<open>Detection_Facts\<close> the sliding window and the thresholds, \<open>Detection_Store\<close> the method
  \<open>evaluate_runtime_detections\<close>, and \<open>Detection_Props\<close> what rules and storage guarantee.

  Issues (\<open>issues/engine.py\<close>, \<open>store/repository.py\<close>). \<open>Issue_Rules\<close> has the three correlation rules,
  \<open>Issue_Store\<close> the method \<open>evaluate_issues\<close>; \<open>Issue_Props\<close> and \<open>Issue_Bedrock\<close> say exactly which paths the
  rules report, when they raise, and when a stored issue is resolved.

  Remediation (\<open>resource_writes\<close>). \<open>Remediation_Templates\<close> and \<open>Iam_Match\<close> have \<open>templates.py\<close>, \<open>Source_Keys\<close> its
  lexical guards, \<open>Sha256\<close> the hash of canonical JSON. \<open>Remediation_Store\<close> has every method of \<open>store.py\<close>;
  \<open>Remediation_Table\<close> the step relation on one request; \<open>Remediation_Contract\<close> shows every method to meet the
  contract \<open>store_method\<close>. \<open>Remediation_Machine\<close> interleaves workers of \<open>execute\<close> with the callers of the API,
  crashes and clocks included; \<open>Remediation_Approval\<close> shows that every attempt follows an approval in the audit
  log. \<open>Remediation_Service\<close> has \<open>service.py\<close> and the AWS provider; \<open>Remediation_Calls\<close>
  lifts relations on states over its calls (the locale \<open>call_order\<close>). \<open>Remediation_Props\<close> and \<open>Service_Props\<close>
  hold the properties. The wildcard match needs no fuel: \<open>Iam_Match\<close> proves that its loop ends and bounds its
  iterations.

  Evidence (\<open>store/repository.py\<close>). \<open>Ingest_Inventory\<close>, \<open>Ingest_Findings\<close>, \<open>Ingest_Vulnerabilities\<close> and
  \<open>Ingest_Activity\<close> have the four ingest methods with the statements they issue; the theories named
  \<open>.._Props\<close> describe the tables after a batch key by key, independently of the order of the batch. The locale
  \<open>snapshot_table\<close> of \<open>Ingest_Table\<close> is the contract of a table that follows the snapshots of a source.

  Collection jobs (\<open>store/repository.py\<close>). \<open>Collection_Jobs\<close> has creation, claims, fenced and unfenced updates
  and recovery; \<open>Collection_Machine\<close> the contract of an operation on the job table (the locales
  \<open>job_operation\<close> and \<open>job_update\<close>, interpreted on each) and the machine in which workers, callers and pollers
  interleave; \<open>Collection_Props\<close> the fence, uniqueness, finality and recovery. \<open>Collection_Worker\<close> has the worker
  of \<open>api/collection.py\<close> over that machine, with faults and with others at work between its calls, and the
  schedulers; a collector is a tree of the calls it makes. \<open>Collection_Worker_Props\<close> shows that it only takes
  steps of the machine, stays within its claim, releases its job, and retries a failing collector as often as it
  should (the locales \<open>slice_order\<close> and
  \<open>worker_order\<close> lift a relation on workers over its code).

  GitHub (\<open>connectors/github_repository.py\<close>, \<open>connections/github.py\<close>). \<open>Github_Checkpoint\<close> has the boundary, the
  checkpoint and its validation; \<open>Github_Budget\<close> the shared request budget and the retry loops; \<open>Github_Tree\<close>
  the pages of a git tree and the walk; \<open>Github_Json\<close> and \<open>Github_Files\<close> the bounded retrieval; \<open>Github_Snapshot\<close>
  one snapshot; \<open>Github_Collect\<close> a slice of a resumable collection as actions with a log. \<open>Github_Walk\<close> compares
  the walk with git trees; \<open>Github_Files_Props\<close>, \<open>Github_Snapshot_Facts\<close>, \<open>Github_Collect_Facts\<close>,
  \<open>Github_Collect_Triples\<close> and \<open>Github_Collect_Props\<close> prove a slice with a small Hoare logic; \<open>Github_Fence\<close> with
  a predicate on logs.

  Source analysis (\<open>connectors\<close>). \<open>Static_Cfn\<close> reads YAML nodes and resolves CloudFormation expressions,
  \<open>Static_Js\<close> resolves a property of a JavaScript object literal (a module constant is lexical there: only a name
  directly after a declaration keyword counts as declared), \<open>Source_Scan\<close> has the scanners of
  \<open>repository_posture.py\<close>; the theories \<open>.._Props\<close> compare them with the meaning of the expressions and with one
  lexical automaton.

  Bounds and fuel. The bounds are the constants of the code: 256 tree requests, depth 64, 100000 inspected and
  20000 analysed entries of a tree, 2000 files and 25 MB retrieved, 3 attempts of a request, 3 interruptions of
  a repository and 5 repositories per slice, 3 lost leases of a job, 48 hours for a run, and 32 levels and 4096
  steps of a CloudFormation expression. No theorem assumes a smaller bound. A loop is a \<open>function\<close> with a measure
  or follows the list it reads; the wildcard match is a \<open>while_option\<close> that is shown to stop. The loops with a
  counter count what the code counts: \<open>walk_loop\<close> the requests left, \<open>attempt_loop\<close> and \<open>durable_loop\<close> the
  attempts left, so running out is an outcome of the code and not of the model.

  Not modelled. The HTTP API (\<open>api/app.py\<close>) routes requests to the operations above. The cloud and SaaS
  connectors, onboarding and the shared control plane are exchanges with external services, whose behaviour
  is that of the responses. The regular-expression detectors of source code, \<open>difflib\<close>, the YAML parser and
  the SQL that loads a snapshot for an engine are outside too. Of \<open>github_repository.py\<close> the older one-pass
  \<open>collect\<close> and the tail of \<open>_snapshot\<close> only it uses are left out; of \<open>repository.py\<close> the queries for the user
  interface, the runtime-response requests, the actions of the gateway and onboarding. \<open>code_to_cloud.py\<close> finds
  its declarations with regular expressions and is left out but for the static evaluators it calls. A hook that
  runs after a collection (\<open>wo_succeeded\<close>) may raise, but its own writes to the database are not modelled.
\<close>

end
